(* ===== verification/Prelude.thy ===== *)
theory Prelude
  imports Main "HOL-Library.Word" "HOL-Library.Multiset"
begin

unbundle bit_operations_syntax

text \<open>
  Shared vocabulary of the development: the machine integer types of the server
  (\<open>uint8\<close> .. \<open>uint64\<close> of src/src/framework/Platform/Define.h), the bit-mask idiom that
  every component uses for its flag words (\<open>flags & X\<close>, \<open>flags |= X\<close>,
  \<open>flags &= ~X\<close>), C strings and the lemmas on lists that the components share.
\<close>

section \<open>Machine integers\<close>

type_synonym u8 = "8 word"
type_synonym u16 = "16 word"
type_synonym u32 = "32 word"
type_synonym u64 = "64 word"

text \<open>An object guid is a \<open>uint64\<close>; a signed \<open>int32\<close> is a \<open>u32\<close> read by \<open>sint\<close>.\<close>

type_synonym guid = u64

section \<open>Flag words\<close>

definition has_flag :: "'a::len word \<Rightarrow> 'a word \<Rightarrow> bool" where
  "has_flag f m \<longleftrightarrow> f AND m \<noteq> 0"

definition set_flag :: "'a::len word \<Rightarrow> 'a word \<Rightarrow> 'a word" where
  "set_flag f m = f OR m"

definition clear_flag :: "'a::len word \<Rightarrow> 'a word \<Rightarrow> 'a word" where
  "clear_flag f m = f AND NOT m"

text \<open>
  The laws of the idiom: setting or clearing one mask is seen by a test of the same mask and
  by no test of a disjoint one. On the single-bit constants of the enums the side condition
  \<open>m AND k = 0\<close> is decided by the simplifier.
\<close>

named_theorems flag_laws "what a test of a mask sees after another mask was set or cleared"

lemma has_flag_zero [simp]: "\<not> has_flag 0 m"
  by (simp add: has_flag_def)

lemma has_flag_set_same [flag_laws]: "m \<noteq> 0 \<Longrightarrow> has_flag (set_flag f m) m"
  by (simp add: has_flag_def set_flag_def bit.conj_disj_distrib2 word_ao_absorbs)

lemma has_flag_set_other [flag_laws]: "m AND k = 0 \<Longrightarrow> has_flag (set_flag f m) k = has_flag f k"
  by (simp add: has_flag_def set_flag_def bit.conj_disj_distrib2)

lemma has_flag_clear_same [simp]: "\<not> has_flag (clear_flag f m) m"
  by (simp add: has_flag_def clear_flag_def ac_simps)

lemma has_flag_clear_other [flag_laws]: "m AND k = 0 \<Longrightarrow> has_flag (clear_flag f m) k = has_flag f k"
proof -
  assume d: "m AND k = 0"
  have "(NOT m) AND k = k"
  proof -
    have "k = (m OR NOT m) AND k" by simp
    also have "\<dots> = (m AND k) OR (NOT m AND k)" by (rule bit.conj_disj_distrib2)
    finally show ?thesis using d by simp
  qed
  then show ?thesis by (simp add: has_flag_def clear_flag_def and.assoc)
qed

lemma set_flag_idem [simp]: "set_flag (set_flag f m) m = set_flag f m"
  by (simp add: set_flag_def or.assoc)

lemma clear_flag_idem [simp]: "clear_flag (clear_flag f m) m = clear_flag f m"
  by (simp add: clear_flag_def and.assoc)

lemma set_flag_absorb: "f AND m = m \<Longrightarrow> set_flag f m = f"
  proof -
  assume a: "f AND m = m"
  have "f OR m = f OR (f AND m)" using a by simp
  also have "\<dots> = f" by (rule word_ao_absorbs)
  finally show ?thesis by (simp add: set_flag_def)
qed

lemma bit_of_less: "(w :: 'a::len word) < 2 ^ k \<Longrightarrow> k < LENGTH('a) \<Longrightarrow> bit w n \<Longrightarrow> n < k"
  by (metis bit_take_bit_iff less_mask_eq take_bit_eq_mask)

lemma has_flag_push_bit: "k < LENGTH('a) \<Longrightarrow> has_flag (w :: 'a::len word) (push_bit k 1) \<longleftrightarrow> bit w k"
  by (simp add: has_flag_def bit_iff_and_push_bit_not_eq_0 push_bit_of_1)

lemma has_flag_bit: "has_flag w m \<longleftrightarrow> (\<exists>n. bit w n \<and> bit m n)"
  by (auto simp: has_flag_def bit_eq_iff[of "w AND m" 0] bit_and_iff dest: bit_imp_le_length)

section \<open>C strings\<close>

text \<open>
  A \<open>std::string\<close> is a list of characters and may hold NUL bytes; what a C function sees of
  it through \<open>c_str()\<close> stops at the first NUL.
\<close>

definition c_str :: "string \<Rightarrow> string" where
  "c_str s = takeWhile (\<lambda>c. c \<noteq> CHR 0x00) s"

definition no_nul :: "string \<Rightarrow> bool" where
  "no_nul s \<longleftrightarrow> CHR 0x00 \<notin> set s"

lemma c_str_id [simp]: "no_nul s \<Longrightarrow> c_str s = s"
  by (auto simp: no_nul_def c_str_def intro!: takeWhile_eq_all_conv[THEN iffD2])

lemma no_nul_c_str [simp]: "no_nul (c_str s)"
  unfolding no_nul_def c_str_def by (auto dest: set_takeWhileD)

definition byte_of_char :: "char \<Rightarrow> u8" where
  "byte_of_char c = word_of_nat (of_char c)"

definition char_of_byte :: "u8 \<Rightarrow> char" where
  "char_of_byte b = char_of (unat b)"

lemma char_of_byte_of_char [simp]: "char_of_byte (byte_of_char c) = c"
  by (simp add: char_of_byte_def byte_of_char_def take_bit_eq_mod unat_of_nat)

lemma byte_of_char_of_byte [simp]: "byte_of_char (char_of_byte b) = b"
  using unsigned_less[of b, where 'a = nat]
  by (simp add: char_of_byte_def byte_of_char_def)

lemma byte_of_char_inject [simp]: "byte_of_char c = byte_of_char d \<longleftrightarrow> c = d"
  by (metis char_of_byte_of_char)

section \<open>Lists\<close>

lemma sorted_wrt_less_distinct:
  fixes xs :: "'a::linorder list"
  shows "sorted_wrt (<) xs \<Longrightarrow> distinct xs"
  by (induction xs) auto

lemma map_of_filter_fst:
  "map_of (filter (\<lambda>p. fst p \<noteq> k) m) j = (if j = k then None else map_of m j)"
  by (induction m) auto

text \<open>\<open>isdigit\<close> in the C locale.\<close>

definition is_digit :: "char \<Rightarrow> bool" where
  "is_digit c \<longleftrightarrow> of_char c \<ge> (48 :: nat) \<and> of_char c \<le> (57 :: nat)"

end
