(* ===== verification/StdMap.thy ===== *)
theory StdMap
  imports Prelude
begin

text \<open>
  The ordered containers of the C++ standard library that the components are built on:
  \<open>std::map\<close> as an association list with strictly increasing keys (iteration order is the
  list order) and \<open>std::multimap\<close> as one with non-decreasing keys, new elements placed after
  the equal ones. Two locales state what a client may rely on; the list operations discharge
  them.
\<close>

section \<open>std::map\<close>

definition sm_find :: "'k::linorder \<Rightarrow> ('k \<times> 'v) list \<Rightarrow> 'v option" where
  "sm_find k m = map_of m k"

fun sm_set :: "'k::linorder \<Rightarrow> 'v \<Rightarrow> ('k \<times> 'v) list \<Rightarrow> ('k \<times> 'v) list" where
  "sm_set k v [] = [(k, v)]"
| "sm_set k v (p # m) =
     (if fst p < k then p # sm_set k v m
      else if fst p = k then (k, v) # m
      else (k, v) # p # m)"

definition sm_erase :: "'k::linorder \<Rightarrow> ('k \<times> 'v) list \<Rightarrow> ('k \<times> 'v) list" where
  "sm_erase k m = filter (\<lambda>p. fst p \<noteq> k) m"

definition sm_has :: "'k::linorder \<Rightarrow> ('k \<times> 'v) list \<Rightarrow> bool" where
  "sm_has k m \<longleftrightarrow> sm_find k m \<noteq> None"

text \<open>
  \<open>m[k]\<close> reads the element, value-initialising a missing one to \<open>d\<close> first; \<open>m[k].f(...)\<close>
  mutates the element it names, inserting it when it is missing.
\<close>

definition sm_at :: "'v \<Rightarrow> 'k::linorder \<Rightarrow> ('k \<times> 'v) list \<Rightarrow> 'v" where
  "sm_at d k m = (case sm_find k m of None \<Rightarrow> d | Some v \<Rightarrow> v)"

definition sm_mutate :: "'v \<Rightarrow> ('v \<Rightarrow> 'v) \<Rightarrow> 'k::linorder \<Rightarrow> ('k \<times> 'v) list \<Rightarrow> ('k \<times> 'v) list" where
  "sm_mutate d f k m = sm_set k (f (sm_at d k m)) m"

definition sm_wf :: "('k::linorder \<times> 'v) list \<Rightarrow> bool" where
  "sm_wf m \<longleftrightarrow> sorted_wrt (<) (map fst m)"

subsection \<open>The contract of a keyed store\<close>

locale keyed_store =
  fixes find :: "'k \<Rightarrow> 's \<Rightarrow> 'v option"
    and put :: "'k \<Rightarrow> 'v \<Rightarrow> 's \<Rightarrow> 's"
    and del :: "'k \<Rightarrow> 's \<Rightarrow> 's"
    and wf :: "'s \<Rightarrow> bool"
  assumes find_put: "find j (put k v s) = (if j = k then Some v else find j s)"
    and find_del: "find j (del k s) = (if j = k then None else find j s)"
    and wf_put: "wf s \<Longrightarrow> wf (put k v s)"
    and wf_del: "wf s \<Longrightarrow> wf (del k s)"
begin

lemma find_put_same: "find k (put k v s) = Some v"
  by (simp add: find_put)

lemma find_put_other: "j \<noteq> k \<Longrightarrow> find j (put k v s) = find j s"
  by (simp add: find_put)

lemma find_del_same: "find k (del k s) = None"
  by (simp add: find_del)

lemma find_del_other: "j \<noteq> k \<Longrightarrow> find j (del k s) = find j s"
  by (simp add: find_del)

lemma find_put_put: "find j (put k v (put k w s)) = find j (put k v s)"
  by (simp add: find_put)

lemma find_put_swap: "j \<noteq> k \<Longrightarrow> find i (put j v (put k w s)) = find i (put k w (put j v s))"
  by (simp add: find_put)

lemmas store_laws = find_put find_del
lemmas store_wf = wf_put wf_del

end

subsection \<open>The sorted list is such a store\<close>

lemma map_of_sm_set: "map_of (sm_set k v m) j = (if j = k then Some v else map_of m j)"
  by (induction m) auto

lemma keys_sm_set: "fst ` set (sm_set k v m) = insert k (fst ` set m)"
  by (induction m) auto

lemma sorted_keys_sm_set:
  "sorted_wrt (<) (map fst m) \<Longrightarrow> sorted_wrt (<) (map fst (sm_set k v m))"
proof (induction m)
  case Nil
  then show ?case by simp
next
  case (Cons p m)
  have "\<forall>q \<in> set (sm_set k v m). fst q \<in> insert k (fst ` set m)"
    using keys_sm_set[of k v m] by blast
  with Cons show ?case by (fastforce intro: less_trans)
qed

interpretation sm: keyed_store sm_find sm_set sm_erase sm_wf
proof unfold_locales
  fix j k :: "'k::linorder" and v :: 'v and s :: "('k \<times> 'v) list"
  show "sm_find j (sm_set k v s) = (if j = k then Some v else sm_find j s)"
    by (simp add: sm_find_def map_of_sm_set)
  show "sm_find j (sm_erase k s) = (if j = k then None else sm_find j s)"
    by (simp add: sm_find_def sm_erase_def map_of_filter_fst)
  show "sm_wf s \<Longrightarrow> sm_wf (sm_set k v s)"
    by (simp add: sm_wf_def sorted_keys_sm_set)
  show "sm_wf s \<Longrightarrow> sm_wf (sm_erase k s)"
    by (induction s) (auto simp: sm_wf_def sm_erase_def)
qed

lemma sm_has_set [simp]: "sm_has j (sm_set k v m) \<longleftrightarrow> j = k \<or> sm_has j m"
  by (simp add: sm_has_def sm.find_put)

lemma sm_has_erase [simp]: "sm_has j (sm_erase k m) \<longleftrightarrow> j \<noteq> k \<and> sm_has j m"
  by (simp add: sm_has_def sm.find_del)

lemma sm_has_Nil [simp]: "\<not> sm_has k []"
  by (simp add: sm_has_def sm_find_def)

lemma sm_find_Nil [simp]: "sm_find k [] = None"
  by (simp add: sm_find_def)

lemma sm_wf_Nil [simp]: "sm_wf []"
  by (simp add: sm_wf_def)

lemma sm_has_mutate [simp]: "sm_has j (sm_mutate d f k m) \<longleftrightarrow> j = k \<or> sm_has j m"
  by (simp add: sm_mutate_def)

lemma sm_find_mutate:
  "sm_find j (sm_mutate d f k m) = (if j = k then Some (f (sm_at d k m)) else sm_find j m)"
  by (simp add: sm_mutate_def sm.find_put)

lemma sm_wf_mutate: "sm_wf m \<Longrightarrow> sm_wf (sm_mutate d f k m)"
  by (simp add: sm_mutate_def sm.wf_put)

lemma sm_has_iff: "sm_has k m \<longleftrightarrow> k \<in> fst ` set m"
  by (simp add: sm_has_def sm_find_def map_of_eq_None_iff)

lemma sm_find_in_set: "sm_wf m \<Longrightarrow> sm_find k m = Some v \<longleftrightarrow> (k, v) \<in> set m"
  by (simp add: sm_find_def sm_wf_def sorted_wrt_less_distinct)

lemma sm_find_someD: "sm_find k m = Some v \<Longrightarrow> (k, v) \<in> set m"
  by (simp add: sm_find_def map_of_SomeD)

lemma sm_length_set:
  "sm_wf m \<Longrightarrow> length (sm_set k v m) = (if sm_has k m then length m else Suc (length m))"
proof (induction m)
  case Nil
  then show ?case by simp
next
  case (Cons p m)
  have "k < fst p \<Longrightarrow> k \<notin> fst ` set m"
    using Cons.prems by (auto simp: sm_wf_def)
  with Cons show ?case by (auto simp: sm_wf_def sm_has_iff)
qed

lemma sm_length_erase:
  "sm_wf m \<Longrightarrow> length (sm_erase k m) = (if sm_has k m then length m - 1 else length m)"
proof (induction m)
  case Nil
  then show ?case by (simp add: sm_erase_def)
next
  case (Cons p m)
  have eq: "fst p = k \<Longrightarrow> filter (\<lambda>p. fst p \<noteq> k) m = m"
    using Cons.prems by (intro filter_True) (auto simp: sm_wf_def)
  have "m = [] \<Longrightarrow> \<not> sm_has k m" by simp
  then have pos: "sm_has k m \<Longrightarrow> 0 < length m" by auto
  show ?case
  proof (cases "fst p = k")
    case True
    with eq show ?thesis by (simp add: sm_erase_def sm_has_iff)
  next
    case False
    with Cons pos show ?thesis by (auto simp: sm_erase_def sm_has_iff sm_wf_def)
  qed
qed

lemma sm_erase_absent: "\<not> sm_has k m \<Longrightarrow> sm_erase k m = m"
  by (auto simp: sm_erase_def sm_has_iff intro!: filter_True)

section \<open>std::multimap\<close>

fun mm_insert :: "'k::linorder \<Rightarrow> 'v \<Rightarrow> ('k \<times> 'v) list \<Rightarrow> ('k \<times> 'v) list" where
  "mm_insert k v [] = [(k, v)]"
| "mm_insert k v (p # m) = (if k < fst p then (k, v) # p # m else p # mm_insert k v m)"

definition mm_wf :: "('k::linorder \<times> 'v) list \<Rightarrow> bool" where
  "mm_wf m \<longleftrightarrow> sorted (map fst m)"

subsection \<open>The contract of a time-ordered queue\<close>

text \<open>
  What the two schedulers use: inserting adds exactly one element, the front element is a
  least one, and dropping elements keeps the order.
\<close>

locale timed_queue =
  fixes ins :: "'k::linorder \<Rightarrow> 'v \<Rightarrow> 'q \<Rightarrow> 'q"
    and elems :: "'q \<Rightarrow> ('k \<times> 'v) list"
    and wf :: "'q \<Rightarrow> bool"
  assumes ins_mset: "mset (elems (ins k v q)) = add_mset (k, v) (mset (elems q))"
    and ins_wf: "wf q \<Longrightarrow> wf (ins k v q)"
    and wf_front: "wf q \<Longrightarrow> elems q = (k, v) # r \<Longrightarrow> (j, w) \<in> set r \<Longrightarrow> k \<le> j"
begin

lemma ins_set: "set (elems (ins k v q)) = insert (k, v) (set (elems q))"
  using arg_cong[OF ins_mset, of set_mset] by simp

lemma ins_size: "length (elems (ins k v q)) = Suc (length (elems q))"
  using arg_cong[OF ins_mset, of size] by simp

lemma ins_nonempty: "elems (ins k v q) \<noteq> []"
  using ins_size[of k v q] by force

lemma front_least:
  "wf q \<Longrightarrow> elems q = (k, v) # r \<Longrightarrow> (j, w) \<in> set (elems q) \<Longrightarrow> k \<le> j"
  using wf_front[of q k v r] by auto

lemma front_late: "wf q \<Longrightarrow> elems q = (k, v) # r \<Longrightarrow> t < k \<Longrightarrow> (j, w) \<in> set (elems q) \<Longrightarrow> t < j"
  using front_least[of q k v r j w] by simp

end

lemma mset_mm_insert: "mset (mm_insert k v m) = add_mset (k, v) (mset m)"
  by (induction m) auto

lemma keys_mm_insert: "fst ` set (mm_insert k v m) = insert k (fst ` set m)"
  by (induction m) auto

lemma sorted_mm_insert: "sorted (map fst m) \<Longrightarrow> sorted (map fst (mm_insert k v m))"
proof (induction m)
  case Nil
  then show ?case by simp
next
  case (Cons p m)
  have "\<forall>q \<in> set (mm_insert k v m). fst q \<in> insert k (fst ` set m)"
    using keys_mm_insert[of k v m] by blast
  with Cons show ?case by (fastforce dest: leD)
qed

interpretation mm: timed_queue mm_insert "\<lambda>m. m" mm_wf
  by unfold_locales (auto simp: mset_mm_insert mm_wf_def sorted_mm_insert)

lemma mm_insert_not_Nil [simp]: "mm_insert k v m \<noteq> []"
  using mm.ins_nonempty .

lemma mm_wf_Nil [simp]: "mm_wf []"
  by (simp add: mm_wf_def)

lemma mm_wf_tl: "mm_wf (p # m) \<Longrightarrow> mm_wf m"
  by (simp add: mm_wf_def)

lemma mm_wf_filter: "mm_wf m \<Longrightarrow> mm_wf (filter P m)"
  by (simp add: mm_wf_def sorted_filter)

lemma mm_insert_front: "(\<And>p. p \<in> set m \<Longrightarrow> k < fst p) \<Longrightarrow> mm_insert k v m = (k, v) # m"
  by (cases m) auto

lemma filter_mm_insert:
  "mm_wf m \<Longrightarrow> filter P (mm_insert k v m) = (if P (k, v) then mm_insert k v (filter P m) else filter P m)"
proof (induction m)
  case Nil
  then show ?case by simp
next
  case (Cons p m)
  have "k < fst p \<Longrightarrow> mm_insert k v (filter P m) = (k, v) # filter P m"
    using Cons.prems by (intro mm_insert_front) (fastforce simp: mm_wf_def)
  with Cons mm_wf_tl[OF Cons.prems] show ?case by auto
qed

text \<open>Inserting a range, in its order, as \<open>insert(first, last)\<close> does.\<close>

definition mm_insert_all :: "('k::linorder \<times> 'v) list \<Rightarrow> ('k \<times> 'v) list \<Rightarrow> ('k \<times> 'v) list" where
  "mm_insert_all xs m = fold (\<lambda>p m. mm_insert (fst p) (snd p) m) xs m"

lemma mm_wf_insert_all: "mm_wf m \<Longrightarrow> mm_wf (mm_insert_all xs m)"
  unfolding mm_insert_all_def by (induction xs arbitrary: m) (auto simp: mm.ins_wf)

lemma mset_mm_insert_all: "mset (mm_insert_all xs m) = mset xs + mset m"
  unfolding mm_insert_all_def by (induction xs arbitrary: m) (auto simp: mset_mm_insert)

end
