(* ===== verification/EventMap.thy ===== *)
theory EventMap
  imports StdMap
begin

text \<open>
  The script event scheduler (src/src/common/Utilities/EventMap.h and .cpp): a multimap from
  the time an event is due to its data word, pattern \<open>0xPPGGEEEE\<close> (phase bits, group bits,
  event id), an internal timer and an active-phase mask. Times are \<open>uint32\<close> and wrap.
\<close>

section \<open>State and operations\<close>

record event_map =
  em_time :: u32
  em_phase :: u8
  em_store :: "(u32 \<times> u32) list"
  em_lastEvent :: u32

definition EventMap_new :: event_map where
  "EventMap_new = \<lparr>em_time = 0, em_phase = 0, em_store = [], em_lastEvent = 0\<rparr>"

definition EventMap_Reset :: "event_map \<Rightarrow> event_map" where
  "EventMap_Reset m = m\<lparr>em_store := [], em_time := 0, em_phase := 0\<rparr>"

definition EventMap_Update :: "u32 \<Rightarrow> event_map \<Rightarrow> event_map" where
  "EventMap_Update t m = m\<lparr>em_time := em_time m + t\<rparr>"

definition GetTimer :: "event_map \<Rightarrow> u32" where "GetTimer m = em_time m"
definition GetPhaseMask :: "event_map \<Rightarrow> u8" where "GetPhaseMask m = em_phase m"
definition EventMap_Empty :: "event_map \<Rightarrow> bool" where "EventMap_Empty m \<longleftrightarrow> em_store m = []"

definition SetPhase :: "u8 \<Rightarrow> event_map \<Rightarrow> event_map" where
  "SetPhase ph m =
     (if ph = 0 then m\<lparr>em_phase := 0\<rparr>
      else if ph \<le> 8 then m\<lparr>em_phase := push_bit (unat ph - 1) 1\<rparr>
      else m)"

definition AddPhase :: "u8 \<Rightarrow> event_map \<Rightarrow> event_map" where
  "AddPhase ph m =
     (if ph \<noteq> 0 \<and> ph \<le> 8 then m\<lparr>em_phase := em_phase m OR push_bit (unat ph - 1) 1\<rparr> else m)"

definition RemovePhase :: "u8 \<Rightarrow> event_map \<Rightarrow> event_map" where
  "RemovePhase ph m =
     (if ph \<noteq> 0 \<and> ph \<le> 8 then m\<lparr>em_phase := em_phase m AND NOT (push_bit (unat ph - 1) 1)\<rparr> else m)"

definition IsInPhase :: "u8 \<Rightarrow> event_map \<Rightarrow> bool" where
  "IsInPhase ph m \<longleftrightarrow> ph \<le> 8 \<and> (ph = 0 \<or> has_flag (em_phase m) (push_bit (unat ph - 1) 1))"

definition ScheduleEvent :: "u32 \<Rightarrow> u32 \<Rightarrow> u32 \<Rightarrow> u8 \<Rightarrow> event_map \<Rightarrow> event_map" where
  "ScheduleEvent eventId t grp ph m =
     (let e1 = (if grp \<noteq> 0 \<and> grp \<le> 8 then eventId OR push_bit (unat grp + 15) 1 else eventId);
          e2 = (if ph \<noteq> 0 \<and> ph \<le> 8 then e1 OR push_bit (unat ph + 23) 1 else e1)
      in m\<lparr>em_store := mm_insert (em_time m + t) e2 (em_store m)\<rparr>)"

definition CancelEvent :: "u32 \<Rightarrow> event_map \<Rightarrow> event_map" where
  "CancelEvent eventId m =
     (if EventMap_Empty m then m
      else m\<lparr>em_store := filter (\<lambda>p. eventId \<noteq> snd p AND 0x0000FFFF) (em_store m)\<rparr>)"

definition RescheduleEvent :: "u32 \<Rightarrow> u32 \<Rightarrow> u32 \<Rightarrow> u8 \<Rightarrow> event_map \<Rightarrow> event_map" where
  "RescheduleEvent eventId t grp ph m = ScheduleEvent eventId t grp ph (CancelEvent eventId m)"

definition Repeat :: "u32 \<Rightarrow> event_map \<Rightarrow> event_map" where
  "Repeat t m = m\<lparr>em_store := mm_insert (em_time m + t) (em_lastEvent m) (em_store m)\<rparr>"

text \<open>\<open>ExecuteEvent\<close>: the loop pops due events that are out of phase until one may run.\<close>

fun execute_loop :: "u32 \<Rightarrow> u8 \<Rightarrow> (u32 \<times> u32) list \<Rightarrow> u32 option \<times> (u32 \<times> u32) list" where
  "execute_loop now phase [] = (None, [])"
| "execute_loop now phase (p # q) =
     (if fst p > now then (None, p # q)
      else if phase \<noteq> 0 \<and> has_flag (snd p) 0xFF000000 \<and> \<not> has_flag (drop_bit 24 (snd p)) (ucast phase)
      then execute_loop now phase q
      else (Some (snd p), q))"

definition ExecuteEvent :: "event_map \<Rightarrow> u32 \<times> event_map" where
  "ExecuteEvent m =
     (case execute_loop (em_time m) (em_phase m) (em_store m) of
        (None, q) \<Rightarrow> (0, m\<lparr>em_store := q\<rparr>)
      | (Some e, q) \<Rightarrow> (e AND 0x0000FFFF, m\<lparr>em_store := q, em_lastEvent := e\<rparr>))"

definition DelayAll :: "u32 \<Rightarrow> event_map \<Rightarrow> event_map" where
  "DelayAll delay m = m\<lparr>em_time := (if delay < em_time m then em_time m - delay else 0)\<rparr>"

text \<open>The elements of the group leave the map in order, and come back with the later time.\<close>

definition DelayEvents :: "u32 \<Rightarrow> u32 \<Rightarrow> event_map \<Rightarrow> event_map" where
  "DelayEvents delay grp m =
     (if grp = 0 \<or> grp > 8 \<or> EventMap_Empty m then m
      else
        let in_group = (\<lambda>p. has_flag (snd p) (push_bit (unat grp + 15) 1));
            delayed = mm_insert_all (map (\<lambda>p. (fst p + delay, snd p)) (filter in_group (em_store m))) []
        in m\<lparr>em_store := mm_insert_all delayed (filter (\<lambda>p. \<not> in_group p) (em_store m))\<rparr>)"

definition CancelEventGroup :: "u32 \<Rightarrow> event_map \<Rightarrow> event_map" where
  "CancelEventGroup grp m =
     (if grp = 0 \<or> grp > 8 \<or> EventMap_Empty m then m
      else m\<lparr>em_store := filter (\<lambda>p. \<not> has_flag (snd p) (push_bit (unat grp + 15) 1)) (em_store m)\<rparr>)"

definition GetNextEventTimeOf :: "u32 \<Rightarrow> event_map \<Rightarrow> u32" where
  "GetNextEventTimeOf eventId m =
     (if EventMap_Empty m then 0
      else case find (\<lambda>p. eventId = snd p AND 0x0000FFFF) (em_store m) of
             None \<Rightarrow> 0 | Some p \<Rightarrow> fst p)"

definition GetNextEventTime :: "event_map \<Rightarrow> u32" where
  "GetNextEventTime m = (case em_store m of [] \<Rightarrow> 0 | p # _ \<Rightarrow> fst p)"

definition GetTimeUntilEvent :: "u32 \<Rightarrow> event_map \<Rightarrow> u32" where
  "GetTimeUntilEvent eventId m =
     (case find (\<lambda>p. eventId = snd p AND 0x0000FFFF) (em_store m) of
        None \<Rightarrow> - 1 | Some p \<Rightarrow> fst p - em_time m)"

section \<open>Invariant\<close>

definition em_wf :: "event_map \<Rightarrow> bool" where
  "em_wf m \<longleftrightarrow> mm_wf (em_store m)"

lemma em_wf_new: "em_wf EventMap_new"
  by (simp add: em_wf_def EventMap_new_def)

lemma execute_loop_suffix: "\<exists>d. q = d @ snd (execute_loop now phase q)"
  by (induction q) (auto intro: exI[of _ "_ # _"])

lemma mm_wf_suffix: "mm_wf (d @ q) \<Longrightarrow> mm_wf q"
  by (simp add: mm_wf_def sorted_append)

lemma em_wf_ops:
  "em_wf m \<Longrightarrow> em_wf (EventMap_Reset m)" "em_wf m \<Longrightarrow> em_wf (EventMap_Update t m)"
  "em_wf m \<Longrightarrow> em_wf (SetPhase ph m)" "em_wf m \<Longrightarrow> em_wf (AddPhase ph m)"
  "em_wf m \<Longrightarrow> em_wf (RemovePhase ph m)" "em_wf m \<Longrightarrow> em_wf (ScheduleEvent i t g ph m)"
  "em_wf m \<Longrightarrow> em_wf (CancelEvent i m)" "em_wf m \<Longrightarrow> em_wf (Repeat t m)"
  "em_wf m \<Longrightarrow> em_wf (DelayAll t m)" "em_wf m \<Longrightarrow> em_wf (DelayEvents t g m)"
  "em_wf m \<Longrightarrow> em_wf (CancelEventGroup g m)"
  by (simp_all add: em_wf_def EventMap_Reset_def EventMap_Update_def SetPhase_def AddPhase_def RemovePhase_def
      ScheduleEvent_def CancelEvent_def Repeat_def DelayAll_def DelayEvents_def CancelEventGroup_def
      Let_def mm.ins_wf mm_wf_filter mm_wf_insert_all)

lemma em_wf_execute: "em_wf m \<Longrightarrow> em_wf (snd (ExecuteEvent m))"
proof -
  obtain d where d: "em_store m = d @ snd (execute_loop (em_time m) (em_phase m) (em_store m))"
    using execute_loop_suffix by blast
  assume "em_wf m"
  then have "mm_wf (snd (execute_loop (em_time m) (em_phase m) (em_store m)))"
    using mm_wf_suffix d unfolding em_wf_def by metis
  then show ?thesis
    by (auto simp: ExecuteEvent_def em_wf_def split: prod.splits option.splits)
qed

section \<open>Event words\<close>

text \<open>An event of a phase may run unless phases are active and its own is not among them.\<close>

definition may_run :: "u8 \<Rightarrow> u32 \<Rightarrow> bool" where
  "may_run phase e \<longleftrightarrow> phase = 0 \<or> \<not> has_flag e 0xFF000000 \<or> has_flag (drop_bit 24 e) (ucast phase)"

definition event_word :: "u32 \<Rightarrow> u32 \<Rightarrow> u8 \<Rightarrow> u32" where
  "event_word eventId grp ph =
     (let e1 = (if grp \<noteq> 0 \<and> grp \<le> 8 then eventId OR push_bit (unat grp + 15) 1 else eventId)
      in if ph \<noteq> 0 \<and> ph \<le> 8 then e1 OR push_bit (unat ph + 23) 1 else e1)"

lemma ScheduleEvent_word:
  "ScheduleEvent i t g ph m
     = m\<lparr>em_store := mm_insert (em_time m + t) (event_word i g ph) (em_store m)\<rparr>"
  by (simp add: ScheduleEvent_def event_word_def Let_def)

lemma mask_0xFFFF: "(e :: u32) AND 0xFFFF = take_bit 16 e"
  by (simp add: take_bit_eq_mask mask_eq_exp_minus_1)

lemma bit_less_16: "(i :: u32) < 2 ^ 16 \<Longrightarrow> bit i n \<Longrightarrow> n < 16"
  using bit_of_less[of i 16 n] by simp

lemma bit_event_word:
  assumes "i < 2 ^ 16"
  shows "bit (event_word i g ph) n \<longleftrightarrow>
    bit i n \<or> (g \<noteq> 0 \<and> g \<le> 8 \<and> n = unat g + 15) \<or> (ph \<noteq> 0 \<and> ph \<le> 8 \<and> n = unat ph + 23)"
proof -
  have pb: "bit (push_bit k 1 :: u32) n \<longleftrightarrow> n = k" if "k < 32" for k
    using that by (auto simp: bit_simps)
  have "g \<le> 8 \<Longrightarrow> unat g + 15 < 32" "ph \<le> 8 \<Longrightarrow> unat ph + 23 < 32"
    by (simp_all add: word_le_nat_alt)
  then have
    "g \<le> 8 \<Longrightarrow> bit (push_bit (unat g + 15) 1 :: u32) n \<longleftrightarrow> n = unat g + 15"
    "ph \<le> 8 \<Longrightarrow> bit (push_bit (unat ph + 23) 1 :: u32) n \<longleftrightarrow> n = unat ph + 23"
    using pb by blast+
  then show ?thesis
    by (simp only: event_word_def Let_def bit_or_iff if_distrib[of "\<lambda>w. bit w n"] split: if_split) blast
qed

lemma event_word_id:
  assumes "i < 2 ^ 16"
  shows "event_word i g ph AND 0xFFFF = i"
  unfolding mask_0xFFFF
  by (rule bit_word_eqI)
     (use assms bit_less_16[OF assms] unat_gt_0[of g] unat_gt_0[of ph] in \<open>auto simp: bit_take_bit_iff bit_event_word\<close>)

lemma event_word_group:
  assumes "i < 2 ^ 16" "1 \<le> g'" "g' \<le> 8"
  shows "has_flag (event_word i g ph) (push_bit (unat g' + 15) 1) \<longleftrightarrow> g = g'"
proof -
  have g': "1 \<le> unat g'" "unat g' \<le> 8" using assms by (simp_all add: word_le_nat_alt)
  have "\<not> bit i (unat g' + 15)" using bit_less_16[OF assms(1)] g' by fastforce
  moreover have "unat ph + 23 \<noteq> unat g' + 15" if "ph \<noteq> 0" "ph \<le> 8"
    using that g' unat_gt_0[of ph] by linarith
  moreover have "has_flag (event_word i g ph) (push_bit (unat g' + 15) 1)
      = bit (event_word i g ph) (unat g' + 15)"
    using g' by (intro has_flag_push_bit) simp
  moreover have "unat g' + 15 = unat g + 15 \<longleftrightarrow> g = g'" "g' \<noteq> 0"
    using g' by (auto simp: word_unat_eq_iff)
  ultimately show ?thesis
    unfolding bit_event_word[OF assms(1)] using assms by metis
qed

lemma high_byte: "has_flag (e :: u32) 0xFF000000 \<longleftrightarrow> (\<exists>n \<ge> 24. bit e n)"
proof -
  have eq: "(0xFF000000 :: u32) = push_bit 24 (mask 8)"
    by (simp add: mask_eq_exp_minus_1 push_bit_eq_mult)
  have "bit (0xFF000000 :: u32) n \<longleftrightarrow> 24 \<le> n \<and> n < 32" for n
    unfolding eq bit_push_bit_iff bit_mask_iff by auto
  moreover have "n < 32" if "bit e n" for n using bit_imp_le_length[OF that] by simp
  ultimately show ?thesis unfolding has_flag_bit by blast
qed

lemma event_word_may_run:
  assumes "i < 2 ^ 16"
  shows "may_run phase (event_word i g ph) \<longleftrightarrow>
    phase = 0 \<or> ph = 0 \<or> ph > 8 \<or> bit phase (unat ph - 1)"
proof -
  have no_i: "\<not> bit i n" if "16 \<le> n" for n using bit_less_16[OF assms, of n] that by auto
  have no_g: "unat g + 15 < 24" if "g \<le> 8" using that by (simp add: word_le_nat_alt)
  have high: "bit (event_word i g ph) n \<longleftrightarrow> ph \<noteq> 0 \<and> ph \<le> 8 \<and> n = unat ph + 23" if "24 \<le> n" for n
    using that no_i[of n] no_g by (auto simp: bit_event_word[OF assms])
  have flag: "has_flag (event_word i g ph) 0xFF000000 \<longleftrightarrow> ph \<noteq> 0 \<and> ph \<le> 8"
  proof -
    have "\<exists>n\<ge>24. n = unat ph + 23" if "ph \<noteq> 0"
      using that unat_gt_0[of ph] by (intro exI[of _ "unat ph + 23"]) simp
    then show ?thesis unfolding high_byte using high by blast
  qed
  have "has_flag (drop_bit 24 (event_word i g ph)) (ucast phase) \<longleftrightarrow> bit phase (unat ph - 1)"
    if "ph \<noteq> 0" "ph \<le> 8"
  proof -
    have ph: "1 \<le> unat ph" "unat ph \<le> 8" using that unat_gt_0[of ph] by (simp_all add: word_le_nat_alt)
    have "bit (drop_bit 24 (event_word i g ph)) n \<longleftrightarrow> n = unat ph - 1" for n
      using that ph high[of "n + 24"] by (auto simp: bit_drop_bit_eq add.commute)
    then show ?thesis using ph by (auto simp: has_flag_bit bit_simps)
  qed
  then show ?thesis using flag by (auto simp: may_run_def not_le)
qed

section \<open>Properties\<close>

lemma execute_loop_spec:
  assumes "mm_wf q"
  shows "execute_loop now phase q =
    (case filter (\<lambda>p. fst p \<le> now \<and> may_run phase (snd p)) q of
       [] \<Rightarrow> (None, filter (\<lambda>p. now < fst p) q)
     | p # _ \<Rightarrow> (Some (snd p),
         tl (dropWhile (\<lambda>p. \<not> may_run phase (snd p)) q)))"
  using assms
proof (induction q)
  case Nil
  then show ?case by simp
next
  case (Cons p q)
  show ?case
  proof (cases "fst p > now")
    case True
    then have later: "now < fst p'" if "p' \<in> set q" for p' 
      using Cons.prems that by (fastforce simp: mm_wf_def)
    then have "filter (\<lambda>p. fst p \<le> now \<and> may_run phase (snd p)) (p # q) = []"
      using True by (auto simp: filter_empty_conv not_le)
    moreover have "filter (\<lambda>p. now < fst p) q = q" using later by (intro filter_True) auto
    ultimately show ?thesis using True by simp
  next
    case False
    then show ?thesis
      using Cons.IH[OF mm_wf_tl[OF Cons.prems]]
      by (auto simp: may_run_def not_less split: list.splits)
  qed
qed

text \<open>C26: \<open>ExecuteEvent\<close> returns the id of the earliest due event whose phase allows it to run
  (0 when there is none), remembers its data word, and removes from the map that event and the
  due events before it that are out of phase, nothing else.\<close>

theorem ExecuteEvent_earliest:
  assumes "em_wf m"
  shows "case filter (\<lambda>p. fst p \<le> em_time m \<and> may_run (em_phase m) (snd p)) (em_store m) of
      [] \<Rightarrow> ExecuteEvent m = (0, m\<lparr>em_store := filter (\<lambda>p. em_time m < fst p) (em_store m)\<rparr>)
    | p # _ \<Rightarrow> ExecuteEvent m = (snd p AND 0xFFFF,
        m\<lparr>em_store := tl (dropWhile (\<lambda>p. \<not> may_run (em_phase m) (snd p)) (em_store m)),
          em_lastEvent := snd p\<rparr>)"
  using execute_loop_spec[of "em_store m" "em_time m" "em_phase m"] assms
  by (auto simp: ExecuteEvent_def em_wf_def split: list.splits)

theorem ExecuteEvent_earliest_witness:
  "ExecuteEvent \<lparr>em_time = 10, em_phase = 1, em_store = [(3, 0x02000005), (4, 7), (20, 8)], em_lastEvent = 0\<rparr>
     = (7, \<lparr>em_time = 10, em_phase = 1, em_store = [(20, 8)], em_lastEvent = 7\<rparr>)"
  using ExecuteEvent_earliest[of "\<lparr>em_time = 10, em_phase = 1,
      em_store = [(3, 0x02000005), (4, 7), (20, 8)], em_lastEvent = 0\<rparr>"]
  by (simp add: em_wf_def mm_wf_def may_run_def has_flag_def)

subsection \<open>Scheduling, rescheduling and cancelling\<close>

lemma store_Schedule: "em_store (ScheduleEvent i t g ph m) = mm_insert (em_time m + t) (event_word i g ph) (em_store m)"
  by (simp add: ScheduleEvent_word)

text \<open>Cancelling ids and groups commutes with scheduling other ids and groups.\<close>

lemma Cancel_Schedule:
  assumes "em_wf m" "i < 2 ^ 16"
  shows "em_store (CancelEvent j (ScheduleEvent i t g ph m)) =
    (if i = j then em_store (CancelEvent j m) else em_store (ScheduleEvent i t g ph (CancelEvent j m)))"
  using assms event_word_id[OF assms(2), of g ph]
  by (cases "i = j") (simp_all add: CancelEvent_def EventMap_Empty_def em_wf_def store_Schedule filter_mm_insert)

lemma CancelGroup_Schedule:
  assumes "em_wf m" "i < 2 ^ 16" "1 \<le> h" "h \<le> 8"
  shows "em_store (CancelEventGroup h (ScheduleEvent i t g ph m)) =
    (if g = h then em_store (CancelEventGroup h m)
     else em_store (ScheduleEvent i t g ph (CancelEventGroup h m)))"
proof -
  have "h \<noteq> 0" "\<not> 8 < h" using assms by auto
  then show ?thesis
    using assms event_word_group[OF assms(2,3,4)]
    by (cases "g = h") (simp_all add: CancelEventGroup_def EventMap_Empty_def em_wf_def store_Schedule
        filter_mm_insert del: push_bit_of_1)
qed

lemma find_mm_insert_absent:
  "filter P m = [] \<Longrightarrow> P (k, v) \<Longrightarrow> find P (mm_insert k v m) = Some (k, v)"
  by (induction m) (auto split: if_splits)

lemma filter_CancelEvent: "filter (\<lambda>p. i = snd p AND 0xFFFF) (em_store (CancelEvent i m)) = []"
  by (auto simp: CancelEvent_def EventMap_Empty_def filter_empty_conv)

lemma em_time_CancelEvent [simp]: "em_time (CancelEvent i m) = em_time m"
  by (simp add: CancelEvent_def)

lemma em_time_Schedule [simp]: "em_time (ScheduleEvent i t g ph m) = em_time m"
  by (simp add: ScheduleEvent_word)

text \<open>whatever was scheduled before, rescheduling an event leaves exactly one entry of its id,
  due \<open>t\<close> ticks from now (so \<open>GetTimeUntilEvent\<close> is \<open>t\<close>, wrap-around of the timer included),
  with the new group and phase, and leaves the entries of the other ids alone.\<close>

theorem RescheduleEvent_unique:
  assumes "em_wf m" "i < 2 ^ 16"
  shows "filter (\<lambda>p. i = snd p AND 0xFFFF) (em_store (RescheduleEvent i t g ph m))
        = [(em_time m + t, event_word i g ph)]
    \<and> filter (\<lambda>p. i \<noteq> snd p AND 0xFFFF) (em_store (RescheduleEvent i t g ph m))
        = filter (\<lambda>p. i \<noteq> snd p AND 0xFFFF) (em_store m)
    \<and> GetTimeUntilEvent i (RescheduleEvent i t g ph m) = t"
proof -
  have wf: "mm_wf (em_store (CancelEvent i m))"
    using em_wf_ops(7)[OF assms(1)] by (simp add: em_wf_def)
  have kept: "filter (\<lambda>p. i \<noteq> snd p AND 0xFFFF) (em_store (CancelEvent i m))
      = filter (\<lambda>p. i \<noteq> snd p AND 0xFFFF) (em_store m)"
    by (simp add: CancelEvent_def)
  show ?thesis
    by (simp add: RescheduleEvent_def store_Schedule event_word_id[OF assms(2)] filter_mm_insert[OF wf]
        filter_CancelEvent kept GetTimeUntilEvent_def find_mm_insert_absent[OF filter_CancelEvent])
qed

theorem RescheduleEvent_unique_witness:
  "em_store (RescheduleEvent 5 20 1 0 \<lparr>em_time = 4294967290, em_phase = 0, em_store = [(7, 5), (9, 6)], em_lastEvent = 0\<rparr>)
     = [(9, 6), (14, 0x10005)]
   \<and> GetTimeUntilEvent 5 (RescheduleEvent 5 20 1 0 \<lparr>em_time = 4294967290, em_phase = 0, em_store = [(7, 5), (9, 6)], em_lastEvent = 0\<rparr>) = 20"
  using RescheduleEvent_unique[of "\<lparr>em_time = 4294967290, em_phase = 0, em_store = [(7, 5), (9, 6)], em_lastEvent = 0\<rparr>" 5 20 1 0]
  by (simp add: em_wf_def mm_wf_def RescheduleEvent_def ScheduleEvent_def CancelEvent_def EventMap_Empty_def)

text \<open>An event scheduled for \<open>t\<close> ticks from now, before everything else that is pending, is
  returned by \<open>ExecuteEvent\<close> when the timer has advanced by \<open>t\<close>, unless it was scheduled for a
  phase other than the active ones; in both cases it is gone from the map and the other events
  are kept.\<close>

theorem schedule_then_execute:
  assumes "em_wf m" "i < 2 ^ 16" "\<forall>p \<in> set (em_store m). em_time m + t < fst p"
  shows "ExecuteEvent (EventMap_Update t (ScheduleEvent i t g ph m)) =
    (let runs = (em_phase m = 0 \<or> ph = 0 \<or> 8 < ph \<or> IsInPhase ph m) in
     (if runs then i else 0,
      m\<lparr>em_time := em_time m + t,
        em_lastEvent := (if runs then event_word i g ph else em_lastEvent m)\<rparr>))"
proof -
  define k where "k = em_time m + t"
  define e where "e = event_word i g ph"
  have st: "mm_insert k e (em_store m) = (k, e) # em_store m"
    using assms(3) by (intro mm_insert_front) (auto simp: k_def)
  have ph: "IsInPhase ph m \<longleftrightarrow> ph \<le> 8 \<and> (ph = 0 \<or> bit (em_phase m) (unat ph - 1))"
  proof -
    have "unat ph - 1 < LENGTH(8)" if "ph \<le> 8" using that by (simp add: word_le_nat_alt)
    then show ?thesis unfolding IsInPhase_def using has_flag_push_bit by blast
  qed
  have run: "may_run (em_phase m) e \<longleftrightarrow> em_phase m = 0 \<or> ph = 0 \<or> 8 < ph \<or> IsInPhase ph m"
    unfolding e_def event_word_may_run[OF assms(2)] ph by (auto simp: not_le)
  have late: "execute_loop k (em_phase m) (em_store m) = (None, em_store m)"
    using assms(3) by (cases "em_store m") (auto simp: k_def)
  have "execute_loop k (em_phase m) ((k, e) # em_store m)
      = (if may_run (em_phase m) e then (Some e, em_store m) else (None, em_store m))"
    using late by (simp add: may_run_def)
  moreover have "e AND 0xFFFF = i" unfolding e_def by (rule event_word_id[OF assms(2)])
  ultimately show ?thesis
    using run by (simp add: ExecuteEvent_def EventMap_Update_def ScheduleEvent_word st
        e_def[symmetric] k_def[symmetric] Let_def del: execute_loop.simps)
qed

theorem schedule_then_execute_witness:
  "fst (ExecuteEvent (EventMap_Update 5 (ScheduleEvent 9 5 2 3
      \<lparr>em_time = 10, em_phase = 4, em_store = [(20, 8)], em_lastEvent = 0\<rparr>))) = 9"
  using schedule_then_execute[of "\<lparr>em_time = 10, em_phase = 4, em_store = [(20, 8)], em_lastEvent = 0\<rparr>" 9 5 2 3]
  by (simp add: em_wf_def mm_wf_def IsInPhase_def has_flag_def Let_def)

text \<open>\<open>DelayAll delay\<close> takes \<open>delay\<close> ticks off the timer when it has run for longer than that, and
  only then does every pending event move \<open>delay\<close> ticks further away; on a younger timer each
  event moves away by the timer's whole value.\<close>

lemma DelayAll_shift:
  "GetTimeUntilEvent i (DelayAll d m) =
    (if find (\<lambda>p. i = snd p AND 0xFFFF) (em_store m) = None then - 1
     else GetTimeUntilEvent i m + (if d < em_time m then d else em_time m))"
  by (auto simp: DelayAll_def GetTimeUntilEvent_def)

end
