(* ===== verification/EventProcessor.thy ===== *)
theory EventProcessor
  imports StdMap "HOL-Library.Monad_Syntax"
begin

text \<open>
  The per-object event queue (src/src/framework/Utilities/EventProcessor.h and .cpp). Events are
  heap objects known by an address: the record keeps the heap of the live ones. The virtual methods
  \<open>Execute\<close>, \<open>Abort\<close> and \<open>IsDeletable\<close> are code of the event classes: parameters that map the
  whole state (they may add events, set \<open>to_Abort\<close> or change the part of the world that extends the
  record). Dereferencing a deleted event is the error \<open>UseAfterFree\<close>.
\<close>

section \<open>State and operations\<close>

record basic_event =
  to_Abort :: bool
  addTime :: u64
  execTime :: u64

type_synonym addr = nat

record event_processor =
  ep_time :: u64
  ep_events :: "(u64 \<times> addr) list"
  ep_aborting :: bool
  ep_heap :: "addr \<rightharpoonup> basic_event"

datatype ep_error = UseAfterFree addr | BadIterator

definition EventProcessor_new :: event_processor where
  "EventProcessor_new = \<lparr>ep_time = 0, ep_events = [], ep_aborting = False, ep_heap = Map.empty\<rparr>"

definition delete_event :: "addr \<Rightarrow> 'w event_processor_scheme \<Rightarrow> 'w event_processor_scheme" where
  "delete_event a s = s\<lparr>ep_heap := (ep_heap s)(a := None)\<rparr>"

definition CalculateTime :: "u64 \<Rightarrow> 'w event_processor_scheme \<Rightarrow> u64" where
  "CalculateTime off s = ep_time s + off"

definition AddEvent ::
  "addr \<Rightarrow> u64 \<Rightarrow> bool \<Rightarrow> 'w event_processor_scheme \<Rightarrow> ep_error + 'w event_processor_scheme" where
  "AddEvent a t set_addtime s =
     (case ep_heap s a of
        None \<Rightarrow> Inl (UseAfterFree a)
      | Some e \<Rightarrow>
          let e' = (if set_addtime then e\<lparr>addTime := ep_time s\<rparr> else e)\<lparr>execTime := t\<rparr>
          in Inr (s\<lparr>ep_heap := (ep_heap s)(a \<mapsto> e'), ep_events := mm_insert t a (ep_events s)\<rparr>))"

type_synonym 'w execute_cb = "addr \<Rightarrow> u64 \<Rightarrow> u32 \<Rightarrow> 'w event_processor_scheme \<Rightarrow> bool \<times> 'w event_processor_scheme"
type_synonym 'w abort_cb = "addr \<Rightarrow> u64 \<Rightarrow> 'w event_processor_scheme \<Rightarrow> 'w event_processor_scheme"
type_synonym 'w deletable_cb = "addr \<Rightarrow> 'w event_processor_scheme \<Rightarrow> bool"

text \<open>One round of the main loop: the earliest event \<open>a\<close> has just been taken from the queue.\<close>

definition run_event ::
  "'w execute_cb \<Rightarrow> 'w abort_cb \<Rightarrow> u32 \<Rightarrow> addr \<Rightarrow> 'w event_processor_scheme
     \<Rightarrow> ep_error + 'w event_processor_scheme" where
  "run_event exec abrt p_time a s =
     (case ep_heap s a of
        None \<Rightarrow> Inl (UseAfterFree a)
      | Some e \<Rightarrow>
          if \<not> to_Abort e
          then (case exec a (ep_time s) p_time s of
                  (done, s') \<Rightarrow> Inr (if done then delete_event a s' else s'))
          else Inr (delete_event a (abrt a (ep_time s) s)))"

text \<open>The loop runs as long as events are due, and an event may add due events: it may not end.\<close>

partial_function (option) update_loop ::
  "'w execute_cb \<Rightarrow> 'w abort_cb \<Rightarrow> u32 \<Rightarrow> 'w event_processor_scheme
     \<Rightarrow> (ep_error + 'w event_processor_scheme) option" where
  "update_loop exec abrt p_time s =
     (case ep_events s of
        [] \<Rightarrow> Some (Inr s)
      | p # q \<Rightarrow>
          if fst p \<le> ep_time s
          then (case run_event exec abrt p_time (snd p) (s\<lparr>ep_events := q\<rparr>) of
                  Inl e \<Rightarrow> Some (Inl e)
                | Inr s' \<Rightarrow> update_loop exec abrt p_time s')
          else Some (Inr s))"

definition EventProcessor_Update ::
  "'w execute_cb \<Rightarrow> 'w abort_cb \<Rightarrow> u32 \<Rightarrow> 'w event_processor_scheme
     \<Rightarrow> (ep_error + 'w event_processor_scheme) option" where
  "EventProcessor_Update exec abrt p_time s =
     update_loop exec abrt p_time (s\<lparr>ep_time := ep_time s + ucast p_time\<rparr>)"

text \<open>
  \<open>KillAllEvents\<close> walks the list with an iterator that is advanced before \<open>Abort\<close> runs, so that an
  \<open>Abort\<close> may insert. An iterator is the element it points to (\<open>None\<close> is \<open>end()\<close>): the queue holds
  an event once for a time. Following an iterator to an element that is gone is \<open>BadIterator\<close>.
\<close>

definition next_iter :: "'p \<Rightarrow> 'p list \<Rightarrow> 'p option" where
  "next_iter p q = (case dropWhile (\<lambda>x. x \<noteq> p) q of (_ # x # _) \<Rightarrow> Some x | _ \<Rightarrow> None)"

partial_function (option) kill_loop ::
  "'w abort_cb \<Rightarrow> 'w deletable_cb \<Rightarrow> bool \<Rightarrow> (u64 \<times> addr) option \<Rightarrow> 'w event_processor_scheme
     \<Rightarrow> (ep_error + 'w event_processor_scheme) option" where
  "kill_loop abrt deletable force i s =
     (case i of
        None \<Rightarrow> Some (Inr s)
      | Some p \<Rightarrow>
          if p \<notin> set (ep_events s) then Some (Inl BadIterator)
          else (case ep_heap s (snd p) of
            None \<Rightarrow> Some (Inl (UseAfterFree (snd p)))
          | Some e \<Rightarrow>
              let i' = next_iter p (ep_events s);
                  s1 = abrt (snd p) (ep_time s) (s\<lparr>ep_heap := (ep_heap s)(snd p \<mapsto> e\<lparr>to_Abort := True\<rparr>)\<rparr>)
              in if force \<or> deletable (snd p) s1
                 then let s2 = delete_event (snd p) s1
                      in kill_loop abrt deletable force i'
                           (if force then s2 else s2\<lparr>ep_events := remove1 p (ep_events s2)\<rparr>)
                 else kill_loop abrt deletable force i' s1))"

definition KillAllEvents ::
  "'w abort_cb \<Rightarrow> 'w deletable_cb \<Rightarrow> bool \<Rightarrow> 'w event_processor_scheme
     \<Rightarrow> (ep_error + 'w event_processor_scheme) option" where
  "KillAllEvents abrt deletable force s =
     (case kill_loop abrt deletable force (case ep_events s of [] \<Rightarrow> None | p # _ \<Rightarrow> Some p)
             (s\<lparr>ep_aborting := True\<rparr>) of
        None \<Rightarrow> None
      | Some (Inl e) \<Rightarrow> Some (Inl e)
      | Some (Inr s') \<Rightarrow> Some (Inr (if force then s'\<lparr>ep_events := []\<rparr> else s')))"

text \<open>The base class \<open>BasicEvent\<close>: it does nothing when it runs and may always be deleted.\<close>

definition BasicEvent_Execute :: "'w execute_cb" where
  "BasicEvent_Execute a e_time p_time s = (True, s)"

definition BasicEvent_Abort :: "'w abort_cb" where
  "BasicEvent_Abort a e_time s = s"

definition BasicEvent_IsDeletable :: "'w deletable_cb" where
  "BasicEvent_IsDeletable a s \<longleftrightarrow> True"

section \<open>The contract of an event class\<close>

text \<open>
  \<open>queue_ok\<close>: the queue is in time order, no event is queued twice, and every queued event is
  live. The contract of a class of events, in the states \<open>good\<close> that its code keeps, with a weight for
  each event: an event that runs or is aborted does not touch the clock, leaves itself live (the processor
  deletes it), is not queued again when it asks to be deleted, and the events that are due afterwards
  weigh less than those that were due before with itself. So an event may queue itself again for
  at once, if it is lighter then.
\<close>

definition queue_ok :: "'w event_processor_scheme \<Rightarrow> bool" where
  "queue_ok s \<longleftrightarrow> mm_wf (ep_events s) \<and> distinct (map snd (ep_events s))
     \<and> (\<forall>a \<in> snd ` set (ep_events s). ep_heap s a \<noteq> None)"

definition due :: "'w event_processor_scheme \<Rightarrow> (u64 \<times> addr) list" where
  "due s = filter (\<lambda>p. fst p \<le> ep_time s) (ep_events s)"

definition queued :: "addr \<Rightarrow> 'w event_processor_scheme \<Rightarrow> bool" where
  "queued a s \<longleftrightarrow> a \<in> snd ` set (ep_events s)"

definition load :: "(addr \<Rightarrow> 'w event_processor_scheme \<Rightarrow> nat) \<Rightarrow> 'w event_processor_scheme \<Rightarrow> nat" where
  "load weight s = sum_list (map (\<lambda>p. weight (snd p) s) (due s))"

lemma delete_frame [simp]: "due (delete_event a s) = due s" "ep_time (delete_event a s) = ep_time s"
  by (simp_all add: due_def delete_event_def)

lemma queue_ok_pop: "queue_ok s \<Longrightarrow> ep_events s = q # r \<Longrightarrow> queue_ok (s\<lparr>ep_events := r\<rparr>)"
  using mm_wf_tl[of q r] by (auto simp: queue_ok_def)

lemma queue_ok_delete: "queue_ok s \<Longrightarrow> \<not> queued a s \<Longrightarrow> queue_ok (delete_event a s)"
  by (auto simp: queue_ok_def queued_def delete_event_def)

lemma due_head:
  assumes "queue_ok s" "due s \<noteq> []"
  shows "\<exists>q r. ep_events s = q # r \<and> fst q \<le> ep_time s \<and> due s = q # due (s\<lparr>ep_events := r\<rparr>)"
proof -
  obtain q r where ev: "ep_events s = q # r" using assms(2) by (cases "ep_events s") (auto simp: due_def)
  have "fst q \<le> ep_time s"
  proof (rule ccontr)
    assume "\<not> fst q \<le> ep_time s"
    then have "due s = []" using assms(1) ev by (fastforce simp: due_def mm_wf_def filter_empty_conv queue_ok_def)
    then show False using assms(2) by simp
  qed
  then show ?thesis using ev by (auto simp: due_def)
qed

locale event_class =
  fixes exec :: "'w execute_cb" and abrt :: "'w abort_cb"
    and good :: "'w event_processor_scheme \<Rightarrow> bool" and weight :: "addr \<Rightarrow> 'w event_processor_scheme \<Rightarrow> nat"
  assumes good_queue: "good s \<Longrightarrow> queue_ok s"
    and good_pop: "good s \<Longrightarrow> ep_events s = q # r \<Longrightarrow> good (s\<lparr>ep_events := r\<rparr>)"
    and good_delete: "good s \<Longrightarrow> \<not> queued a s \<Longrightarrow> good (delete_event a s)"
    and weight_pop: "weight a (s\<lparr>ep_events := r\<rparr>) = weight a s"
    and weight_delete: "weight b (delete_event a s) = weight b s"
    and exec_law: "good s \<Longrightarrow> ep_heap s a \<noteq> None \<Longrightarrow> \<not> queued a s \<Longrightarrow>
      exec a (ep_time s) p s = (don, s') \<Longrightarrow>
      good s' \<and> ep_time s' = ep_time s \<and> load weight s' < weight a s + load weight s \<and> (don \<longrightarrow> \<not> queued a s')"
    and abrt_law: "good s \<Longrightarrow> ep_heap s a \<noteq> None \<Longrightarrow> \<not> queued a s \<Longrightarrow>
      abrt a (ep_time s) s = s' \<Longrightarrow>
      good s' \<and> ep_time s' = ep_time s \<and> load weight s' < weight a s + load weight s \<and> \<not> queued a s'"
begin

lemma load_delete: "load weight (delete_event a s) = load weight s"
  by (simp add: load_def weight_delete)

lemma run_event_law:
  assumes "good s" "ep_heap s a \<noteq> None" "\<not> queued a s"
  shows "\<exists>s'. run_event exec abrt p a s = Inr s' \<and> good s' \<and> ep_time s' = ep_time s
    \<and> load weight s' < weight a s + load weight s"
proof -
  obtain e where e: "ep_heap s a = Some e" using assms(2) by auto
  show ?thesis
  proof (cases "to_Abort e")
    case True
    then show ?thesis using e abrt_law[OF assms refl] good_delete[of "abrt a (ep_time s) s" a]
      by (simp add: run_event_def load_delete)
  next
    case False
    obtain d s1 where x: "exec a (ep_time s) p s = (d, s1)" by fastforce
    show ?thesis using e False x exec_law[OF assms x] good_delete[of s1 a]
      by (simp add: run_event_def load_delete)
  qed
qed

lemma update_loop_returns:
  "good s \<Longrightarrow> \<exists>s'. update_loop exec abrt p s = Some (Inr s') \<and> good s' \<and> ep_time s' = ep_time s \<and> due s' = []"
proof (induction "load weight s" arbitrary: s rule: less_induct)
  case less
  show ?case
  proof (cases "due s = []")
    case True
    then have "update_loop exec abrt p s = Some (Inr s)"
      by (subst update_loop.simps) (auto simp: due_def split: list.splits if_splits)
    then show ?thesis using less.prems True by blast
  next
    case False
    obtain q r where ev: "ep_events s = q # r" and now: "fst q \<le> ep_time s" and d: "due s = q # due (s\<lparr>ep_events := r\<rparr>)"
      using due_head[OF good_queue[OF less.prems] False] by blast
    let ?s = "s\<lparr>ep_events := r\<rparr>"
    have ok: "good ?s" "ep_heap ?s (snd q) \<noteq> None" "\<not> queued (snd q) ?s"
      using good_pop[OF less.prems ev] good_queue[OF less.prems] ev by (auto simp: queue_ok_def queued_def)
    obtain s1 where s1: "run_event exec abrt p (snd q) ?s = Inr s1" "good s1" "ep_time s1 = ep_time s"
        "load weight s1 < weight (snd q) ?s + load weight ?s"
      using run_event_law[OF ok] by auto
    have "load weight s1 < load weight s" using s1(4) d by (simp add: load_def weight_pop)
    from less.hyps[OF this s1(2)] obtain s' where s': "update_loop exec abrt p s1 = Some (Inr s')" "good s'"
        "ep_time s' = ep_time s1" "due s' = []" by blast
    have "update_loop exec abrt p s = Some (Inr s')"
      by (subst update_loop.simps) (simp add: ev now s1(1) s'(1))
    then show ?thesis using s' s1(3) by auto
  qed
qed

end

interpretation basic: event_class BasicEvent_Execute BasicEvent_Abort queue_ok "\<lambda>a s. 1"
  by unfold_locales
    (auto simp: BasicEvent_Execute_def BasicEvent_Abort_def load_def queue_ok_delete intro: queue_ok_pop)

section \<open>Properties\<close>

definition two_events :: event_processor where
  "two_events = \<lparr>ep_time = 10, ep_events = [(12, 7), (90, 8)], ep_aborting = False,
     ep_heap = [7 \<mapsto> \<lparr>to_Abort = False, addTime = 0, execTime = 12\<rparr>,
                8 \<mapsto> \<lparr>to_Abort = True, addTime = 0, execTime = 90\<rparr>]\<rparr>"

lemma two_events_ok: "queue_ok two_events"
  by (simp add: queue_ok_def two_events_def mm_wf_def)

lemma run_event_cong:
  assumes "\<And>a t p s e. ep_heap s a = Some e \<Longrightarrow> \<not> to_Abort e \<Longrightarrow> exec1 a t p s = exec2 a t p s"
  shows "run_event exec1 abrt p a s = run_event exec2 abrt p a s"
  using assms by (auto simp: run_event_def split: option.splits)

lemma update_loop_mono_exec:
  assumes same: "\<And>a t p s e. ep_heap s a = Some e \<Longrightarrow> \<not> to_Abort e \<Longrightarrow> exec1 a t p s = exec2 a t p s"
    and ret: "update_loop exec1 abrt p s = Some r"
  shows "update_loop exec2 abrt p s = Some r"
proof -
  have "exec1 = exec1 \<longrightarrow> update_loop exec2 abrt p s = Some r"
  proof (rule update_loop.raw_induct[where P = "\<lambda>e ab p s r. e = exec1 \<longrightarrow> update_loop exec2 ab p s = Some r", OF _ ret],
      intro impI)
    fix loop ex ab p s r
    assume IH: "\<And>e ab p s r. loop e ab p s = Some r \<Longrightarrow> e = exec1 \<longrightarrow> update_loop exec2 ab p s = Some r"
      and ex: "ex = exec1"
      and body: "(case ep_events s of [] \<Rightarrow> Some (Inr s)
        | q # qs \<Rightarrow> if fst q \<le> ep_time s
            then (case run_event ex ab p (snd q) (s\<lparr>ep_events := qs\<rparr>) of
                Inl e \<Rightarrow> Some (Inl e) | Inr s' \<Rightarrow> loop ex ab p s')
            else Some (Inr s)) = Some r"
    have "run_event exec1 ab p a s = run_event exec2 ab p a s" for a s
      by (rule run_event_cong) (rule same)
    then show "update_loop exec2 ab p s = Some r"
      using body IH ex by (subst update_loop.simps) (auto split: list.splits if_splits sum.splits)
  qed
  then show ?thesis by simp
qed

text \<open>An aborted event is never executed: two versions of the \<open>Execute\<close> code that differ only on
  events marked \<open>to_Abort\<close> cannot be told apart by \<open>Update\<close>, whether it returns or not.\<close>

theorem aborted_never_executed:
  assumes "\<And>a t p s e. ep_heap s a = Some e \<Longrightarrow> \<not> to_Abort e \<Longrightarrow> exec1 a t p s = exec2 a t p s"
  shows "EventProcessor_Update exec1 abrt p s = EventProcessor_Update exec2 abrt p s"
proof -
  have "update_loop exec1 abrt p s = Some r \<longleftrightarrow> update_loop exec2 abrt p s = Some r" for s r
    using update_loop_mono_exec[of exec1 exec2] update_loop_mono_exec[of exec2 exec1] assms by metis
  then show ?thesis
    unfolding EventProcessor_Update_def by (metis not_None_eq)
qed

text \<open>A version of \<open>Execute\<close> that, on an aborted event, wipes the queue.\<close>

definition rogue_Execute :: "'w execute_cb" where
  "rogue_Execute a t p s =
     (case ep_heap s a of
        Some e \<Rightarrow> if to_Abort e then (True, s\<lparr>ep_events := []\<rparr>) else (True, s)
      | None \<Rightarrow> (True, s))"

theorem aborted_never_executed_witness:
  "EventProcessor_Update rogue_Execute BasicEvent_Abort 100 two_events
     = EventProcessor_Update BasicEvent_Execute BasicEvent_Abort 100 two_events"
  by (rule aborted_never_executed) (simp add: rogue_Execute_def BasicEvent_Execute_def)

subsection \<open>Killing all events\<close>

text \<open>An \<open>Abort\<close> that leaves the queue alone and neither creates nor deletes events.\<close>

definition quiet_abort :: "'w abort_cb \<Rightarrow> bool" where
  "quiet_abort abrt \<longleftrightarrow> (\<forall>a t s. ep_events (abrt a t s) = ep_events s
     \<and> dom (ep_heap (abrt a t s)) = dom (ep_heap s))"

lemma next_iter_split:
  "p \<notin> set pre \<Longrightarrow> next_iter p (pre @ p # q) = (case q of [] \<Rightarrow> None | x # _ \<Rightarrow> Some x)"
proof -
  assume "p \<notin> set pre"
  then have "dropWhile (\<lambda>x. x \<noteq> p) (pre @ p # q) = p # q" by (induction pre) auto
  then show ?thesis by (simp add: next_iter_def split: list.splits)
qed

lemma kill_loop_force:
  assumes "quiet_abort abrt"
  shows "ep_events s = pre @ q \<Longrightarrow> distinct (map snd (pre @ q)) \<Longrightarrow>
    snd ` set q \<subseteq> dom (ep_heap s) \<Longrightarrow>
    \<exists>s'. kill_loop abrt del True (case q of [] \<Rightarrow> None | x # _ \<Rightarrow> Some x) s = Some (Inr s')
      \<and> ep_events s' = ep_events s \<and> dom (ep_heap s') = dom (ep_heap s) - snd ` set q"
proof (induction q arbitrary: pre s)
  case Nil
  then show ?case by (simp add: kill_loop.simps)
next
  case (Cons p q)
  obtain e where e: "ep_heap s (snd p) = Some e" using Cons.prems(3) by auto
  define s1 where "s1 = abrt (snd p) (ep_time s) (s\<lparr>ep_heap := (ep_heap s)(snd p \<mapsto> e\<lparr>to_Abort := True\<rparr>)\<rparr>)"
  define s2 where "s2 = delete_event (snd p) s1"
  have ev: "ep_events s2 = ep_events s" and heap: "dom (ep_heap s2) = dom (ep_heap s) - {snd p}"
    using assms e unfolding s2_def s1_def delete_event_def quiet_abort_def by auto
  have "p \<notin> set pre" using Cons.prems(2) by force
  then have nxt: "next_iter p (ep_events s) = (case q of [] \<Rightarrow> None | x # _ \<Rightarrow> Some x)"
    using Cons.prems(1) next_iter_split by metis
  have "\<exists>s'. kill_loop abrt del True (case q of [] \<Rightarrow> None | x # _ \<Rightarrow> Some x) s2 = Some (Inr s')
      \<and> ep_events s' = ep_events s2 \<and> dom (ep_heap s') = dom (ep_heap s2) - snd ` set q"
  proof (rule Cons.IH)
    show "ep_events s2 = (pre @ [p]) @ q" using ev Cons.prems(1) by simp
    show "distinct (map snd ((pre @ [p]) @ q))" using Cons.prems(2) by simp
    show "snd ` set q \<subseteq> dom (ep_heap s2)"
    proof -
      have "snd p \<notin> snd ` set q" using Cons.prems(2) by simp
      moreover have "snd ` set q \<subseteq> dom (ep_heap s)" using Cons.prems(3) by simp
      ultimately show ?thesis unfolding heap by blast
    qed
  qed
  moreover have "kill_loop abrt del True (Some p) s
      = kill_loop abrt del True (case q of [] \<Rightarrow> None | x # _ \<Rightarrow> Some x) s2"
    by (subst kill_loop.simps) (simp add: Cons.prems(1) e nxt[unfolded Cons.prems(1)] s1_def s2_def Let_def)
  ultimately show ?case using ev heap by auto
qed

text \<open>\<open>KillAllEvents(true)\<close> (the destructor) returns, empties the queue, and deletes exactly the
  queued events, each of them once.\<close>

theorem KillAllEvents_force:
  assumes "quiet_abort abrt" "queue_ok s"
  shows "\<exists>s'. KillAllEvents abrt del True s = Some (Inr s') \<and> ep_events s' = []
    \<and> dom (ep_heap s') = dom (ep_heap s) - snd ` set (ep_events s)"
proof -
  have "\<exists>s'. kill_loop abrt del True (case ep_events s of [] \<Rightarrow> None | x # _ \<Rightarrow> Some x) (s\<lparr>ep_aborting := True\<rparr>)
      = Some (Inr s') \<and> dom (ep_heap s') = dom (ep_heap s) - snd ` set (ep_events s)"
    using kill_loop_force[OF assms(1), of "s\<lparr>ep_aborting := True\<rparr>" "[]" "ep_events s" del] assms(2)
    by (auto simp: queue_ok_def dom_def)
  then show ?thesis by (auto simp: KillAllEvents_def)
qed

theorem KillAllEvents_force_witness:
  "\<exists>s'. KillAllEvents BasicEvent_Abort BasicEvent_IsDeletable True two_events = Some (Inr s')
     \<and> ep_events s' = [] \<and> dom (ep_heap s') = {}"
proof -
  have "quiet_abort BasicEvent_Abort" by (simp add: quiet_abort_def BasicEvent_Abort_def)
  from KillAllEvents_force[OF this two_events_ok, of BasicEvent_IsDeletable]
  show ?thesis by (auto simp: two_events_def)
qed

end
