(* ===== verification/SpellEvent.thy ===== *)
theory SpellEvent
  imports EventProcessor
begin

text \<open>
  The event that drives a spell (\<open>SpellEvent\<close> in src/src/server/game/Spells/Spell.cpp and Spell.h): it updates the spell,
  waits for the moments at which a missile arrives at its targets (\<open>Spell::handle_delayed\<close>) and queues itself again
  until the spell is finished. What a spell does to the world (\<open>update\<close>, \<open>cancel\<close>, \<open>handle_immediate\<close>, the effects on a
  target, the finish) is a parameter: it may change the whole state, and start other spells with events of their
  own. The theory shows that a queue of such events is worked off.
\<close>

section \<open>Spells\<close>

abbreviation SPELL_STATE_NULL :: u32 where "SPELL_STATE_NULL \<equiv> 0"
abbreviation SPELL_STATE_PREPARING :: u32 where "SPELL_STATE_PREPARING \<equiv> 1"
abbreviation SPELL_STATE_CASTING :: u32 where "SPELL_STATE_CASTING \<equiv> 2"
abbreviation SPELL_STATE_FINISHED :: u32 where "SPELL_STATE_FINISHED \<equiv> 3"
abbreviation SPELL_STATE_IDLE :: u32 where "SPELL_STATE_IDLE \<equiv> 4"
abbreviation SPELL_STATE_DELAYED :: u32 where "SPELL_STATE_DELAYED \<equiv> 5"

text \<open>The parts of \<open>TargetInfo\<close> and \<open>GOTargetInfo\<close> that the waiting reads.\<close>

record target_info =
  ti_targetGUID :: guid
  ti_timeDelay :: u64
  ti_processed :: bool
  ti_deleted :: bool

record spell =
  m_spellState :: u32
  m_delayStart :: u64
  m_delayMoment :: u64
  m_immediateHandled :: bool
  m_UniqueTargetInfo :: "target_info list"
  m_UniqueGOTargetInfo :: "target_info list"
  sp_single_missile :: bool           \<comment> \<open>\<open>m_targetMask & TARGET_FLAG_DEST_LOCATION\<close>\<close>
  sp_channeled :: bool                \<comment> \<open>\<open>IsChanneledSpell(m_spellInfo)\<close>\<close>
  m_referencedFromCurrentSpell :: bool
  m_executedCurrently :: bool

text \<open>The queue of a caster and the spell of each event, beside the rest of the world.\<close>

record spell_processor = event_processor +
  m_Spell :: "addr \<Rightarrow> spell"

definition Spell_IsDeletable :: "spell \<Rightarrow> bool" where
  "Spell_IsDeletable sp \<longleftrightarrow> \<not> m_referencedFromCurrentSpell sp \<and> \<not> m_executedCurrently sp"

definition on_spell :: "addr \<Rightarrow> (spell \<Rightarrow> spell) \<Rightarrow> 'w spell_processor_scheme \<Rightarrow> 'w spell_processor_scheme" where
  "on_spell a f s = s\<lparr>m_Spell := (m_Spell s)(a := f (m_Spell s a))\<rparr>"

record 'w spell_code =
  sc_update :: "addr \<Rightarrow> u32 \<Rightarrow> 'w spell_processor_scheme \<Rightarrow> 'w spell_processor_scheme"
  sc_cancel :: "addr \<Rightarrow> 'w spell_processor_scheme \<Rightarrow> 'w spell_processor_scheme"
  sc_immediate :: "addr \<Rightarrow> 'w spell_processor_scheme \<Rightarrow> 'w spell_processor_scheme"        \<comment> \<open>\<open>handle_immediate\<close>\<close>
  sc_immediate_phase :: "addr \<Rightarrow> 'w spell_processor_scheme \<Rightarrow> 'w spell_processor_scheme"
  sc_hit :: "addr \<Rightarrow> bool \<Rightarrow> nat \<Rightarrow> 'w spell_processor_scheme \<Rightarrow> 'w spell_processor_scheme"  \<comment> \<open>\<open>DoAllEffectOnTarget\<close>: object or unit, place in the list\<close>
  sc_finish :: "addr \<Rightarrow> 'w spell_processor_scheme \<Rightarrow> 'w spell_processor_scheme"           \<comment> \<open>\<open>_handle_finish_phase\<close> and \<open>finish(true)\<close>\<close>
  sc_casting :: "addr \<Rightarrow> 'w spell_processor_scheme \<Rightarrow> bool"                             \<comment> \<open>\<open>IsNonMeleeSpellCast(false, true, true)\<close>\<close>
  sc_out_of_range :: "addr \<Rightarrow> 'w spell_processor_scheme \<Rightarrow> bool"                        \<comment> \<open>\<open>CheckRange(false)\<close>\<close>

section \<open>Waiting\<close>

text \<open>One round of the two loops of \<open>handle_delayed\<close>: the next moment so far, and the state. The effects on a target neither
  lengthen nor shorten the lists.\<close>

definition unit_target :: "'w spell_code \<Rightarrow> addr \<Rightarrow> bool \<Rightarrow> u64 \<Rightarrow> nat
    \<Rightarrow> u64 \<times> 'w spell_processor_scheme \<Rightarrow> u64 \<times> 'w spell_processor_scheme" where
  "unit_target code a single_missile t_offset i = (\<lambda>(next_time, s).
     let t = m_UniqueTargetInfo (m_Spell s a) ! i
     in if ti_deleted t then (next_time, s)
        else if \<not> ti_processed t
        then if single_missile \<or> ti_timeDelay t \<le> t_offset
             then (next_time, sc_hit code a False i (on_spell a (\<lambda>sp. sp\<lparr>m_UniqueTargetInfo :=
                     (m_UniqueTargetInfo sp)[i := t\<lparr>ti_timeDelay := t_offset\<rparr>]\<rparr>) s))
             else if next_time = 0 \<or> ti_timeDelay t < next_time then (ti_timeDelay t, s)
             else (next_time, s)
        else (next_time, s))"

definition object_target :: "'w spell_code \<Rightarrow> addr \<Rightarrow> bool \<Rightarrow> u64 \<Rightarrow> nat
    \<Rightarrow> u64 \<times> 'w spell_processor_scheme \<Rightarrow> u64 \<times> 'w spell_processor_scheme" where
  "object_target code a single_missile t_offset i = (\<lambda>(next_time, s).
     let t = m_UniqueGOTargetInfo (m_Spell s a) ! i
     in if ti_deleted t then (next_time, s)
        else if \<not> ti_processed t
        then if single_missile \<or> ti_timeDelay t \<le> t_offset then (next_time, sc_hit code a True i s)
             else if next_time = 0 \<or> ti_timeDelay t < next_time then (ti_timeDelay t, s)
             else (next_time, s)
        else (next_time, s))"

definition handle_delayed :: "'w spell_code \<Rightarrow> addr \<Rightarrow> u64 \<Rightarrow> 'w spell_processor_scheme \<Rightarrow> u64 \<times> 'w spell_processor_scheme" where
  "handle_delayed code a t_offset s =
     (let s = (if \<not> m_immediateHandled (m_Spell s a)
               then on_spell a (\<lambda>sp. sp\<lparr>m_immediateHandled := True\<rparr>) (sc_immediate_phase code a s) else s);
          single_missile = sp_single_missile (m_Spell s a);
          (next_time, s) = fold (unit_target code a single_missile t_offset) [0..<length (m_UniqueTargetInfo (m_Spell s a))] (0, s);
          (next_time, s) = fold (object_target code a single_missile t_offset)
                             [0..<length (m_UniqueGOTargetInfo (m_Spell s a))] (next_time, s)
      in if next_time = 0 then (0, sc_finish code a s) else (next_time, s))"

section \<open>The event\<close>

text \<open>\<open>AddEvent(this, t, false)\<close>; the event that runs is there.\<close>

definition readd :: "addr \<Rightarrow> u64 \<Rightarrow> 'w event_processor_scheme \<Rightarrow> 'w event_processor_scheme" where
  "readd a t s = (case AddEvent a t False s of Inl _ \<Rightarrow> s | Inr s' \<Rightarrow> s')"

definition SpellEvent_Execute :: "'w spell_code \<Rightarrow> 'w spell_processor_ext execute_cb" where
  "SpellEvent_Execute code a e_time p_time s =
     (let s = (if m_spellState (m_Spell s a) \<noteq> SPELL_STATE_FINISHED then sc_update code a p_time s else s)
      in if m_spellState (m_Spell s a) = SPELL_STATE_FINISHED
         then if Spell_IsDeletable (m_Spell s a) then (True, s) else (False, readd a (e_time + 1) s)
         else if m_spellState (m_Spell s a) = SPELL_STATE_DELAYED
         then if m_delayStart (m_Spell s a) \<noteq> 0
              then if sp_channeled (m_Spell s a)
                   then let s = (if sc_casting code a s then sc_cancel code a s
                                 else if sc_out_of_range code a s then sc_cancel code a s
                                 else sc_immediate code a s)
                        in (False, readd a (e_time + 1) s)
                   else let (n_offset, s) = handle_delayed code a (e_time - m_delayStart (m_Spell s a)) s
                        in if n_offset \<noteq> 0 then (False, readd a (m_delayStart (m_Spell s a) + n_offset) s)
                           else (False, readd a (e_time + 1) s)
              else let s = on_spell a (\<lambda>sp. sp\<lparr>m_delayStart := e_time\<rparr>) s
                   in (False, readd a (e_time + m_delayMoment (m_Spell s a)) s)
         else (False, readd a (e_time + 1) s))"

definition SpellEvent_Abort :: "'w spell_code \<Rightarrow> 'w spell_processor_ext abort_cb" where
  "SpellEvent_Abort code a e_time s =
     (if m_spellState (m_Spell s a) \<noteq> SPELL_STATE_FINISHED then sc_cancel code a s else s)"

definition SpellEvent_IsDeletable :: "'w spell_processor_ext deletable_cb" where
  "SpellEvent_IsDeletable a s \<longleftrightarrow> Spell_IsDeletable (m_Spell s a)"

section \<open>What the code of a spell has to leave alone\<close>

text \<open>
  \<open>spell_good\<close>: the queue is right, the clock is past zero and far from its end, and for the spells of live events no
  moment lies at the end of the clock's range and none has started to wait later than now. \<open>burden\<close>: a spell that
  waits since a moment, is channeled or finished can only go on; one that does not wait yet may still have to be
  run at once a second time, since its first waiting may be for zero.
\<close>

definition spell_ok :: "u64 \<Rightarrow> spell \<Rightarrow> bool" where
  "spell_ok now sp \<longleftrightarrow> m_delayStart sp \<le> now \<and> m_delayMoment sp < 2 ^ 62
     \<and> (\<forall>t \<in> set (m_UniqueTargetInfo sp) \<union> set (m_UniqueGOTargetInfo sp). ti_timeDelay t < 2 ^ 62)"

definition spell_good :: "'w spell_processor_scheme \<Rightarrow> bool" where
  "spell_good s \<longleftrightarrow> queue_ok s \<and> 0 < ep_time s \<and> ep_time s < 2 ^ 62
     \<and> (\<forall>a. ep_heap s a \<noteq> None \<longrightarrow> spell_ok (ep_time s) (m_Spell s a))"

definition spell_waits :: "spell \<Rightarrow> bool" where
  "spell_waits sp \<longleftrightarrow> m_spellState sp = SPELL_STATE_DELAYED \<and> m_delayStart sp \<noteq> 0
     \<or> m_spellState sp \<in> {SPELL_STATE_CASTING, SPELL_STATE_FINISHED}"

definition burden :: "addr \<Rightarrow> 'w spell_processor_scheme \<Rightarrow> nat" where
  "burden a s = (if spell_waits (m_Spell s a) then 1 else 2)"

text \<open>
  The code of a spell may start new events, for later than now, and change the states of spells, but it keeps the clock,
  what is due, and the live events and whether they are queued; no spell goes back to before its waiting, a spell that waits
  keeps the moment since which it does, and the lists of targets keep their lengths.
\<close>

definition steady :: "'w spell_processor_scheme \<Rightarrow> 'w spell_processor_scheme \<Rightarrow> bool" where
  "steady s s' \<longleftrightarrow> spell_good s' \<and> ep_time s' = ep_time s \<and> due s' = due s
     \<and> (\<forall>b. ep_heap s b \<noteq> None \<longrightarrow> ep_heap s' b \<noteq> None \<and> queued b s' = queued b s
          \<and> (spell_waits (m_Spell s b) \<longrightarrow> spell_waits (m_Spell s' b) \<and> m_delayStart (m_Spell s' b) = m_delayStart (m_Spell s b))
          \<and> length (m_UniqueTargetInfo (m_Spell s' b)) = length (m_UniqueTargetInfo (m_Spell s b))
          \<and> length (m_UniqueGOTargetInfo (m_Spell s' b)) = length (m_UniqueGOTargetInfo (m_Spell s b)))"

definition calm_code :: "'w spell_code \<Rightarrow> bool" where
  "calm_code code \<longleftrightarrow> (\<forall>a s. spell_good s \<and> ep_heap s a \<noteq> None \<longrightarrow>
     (\<forall>p. steady s (sc_update code a p s)) \<and> steady s (sc_cancel code a s) \<and> steady s (sc_immediate code a s)
     \<and> steady s (sc_immediate_phase code a s) \<and> (\<forall>go i. steady s (sc_hit code a go i s)) \<and> steady s (sc_finish code a s))"

lemma steady_refl: "spell_good s \<Longrightarrow> steady s s"
  by (simp add: steady_def)

lemma steady_trans: "steady s s1 \<Longrightarrow> steady s1 s2 \<Longrightarrow> steady s s2"
  unfolding steady_def by (metis (no_types, lifting))

lemma steadyD:
  assumes "steady s s'"
  shows "spell_good s'" "ep_time s' = ep_time s" "due s' = due s"
    and "ep_heap s a \<noteq> None \<Longrightarrow> ep_heap s' a \<noteq> None" "ep_heap s a \<noteq> None \<Longrightarrow> queued a s' = queued a s"
    and "ep_heap s a \<noteq> None \<Longrightarrow> spell_waits (m_Spell s a) \<Longrightarrow> spell_waits (m_Spell s' a) \<and> m_delayStart (m_Spell s' a) = m_delayStart (m_Spell s a)"
    and "ep_heap s a \<noteq> None \<Longrightarrow> length (m_UniqueTargetInfo (m_Spell s' a)) = length (m_UniqueTargetInfo (m_Spell s a))"
    and "ep_heap s a \<noteq> None \<Longrightarrow> length (m_UniqueGOTargetInfo (m_Spell s' a)) = length (m_UniqueGOTargetInfo (m_Spell s a))"
  using assms by (auto simp: steady_def)

lemma calm_codeD:
  assumes "calm_code code" "spell_good s" "ep_heap s a \<noteq> None"
  shows "steady s (sc_update code a p s)" "steady s (sc_cancel code a s)" "steady s (sc_immediate code a s)"
    "steady s (sc_immediate_phase code a s)" "steady s (sc_hit code a go i s)" "steady s (sc_finish code a s)"
  using assms by (auto simp: calm_code_def)

lemma on_spell_simps [simp]:
  "ep_time (on_spell a f s) = ep_time s" "ep_events (on_spell a f s) = ep_events s" "ep_heap (on_spell a f s) = ep_heap s"
  "m_Spell (on_spell a f s) b = (if b = a then f (m_Spell s a) else m_Spell s b)"
  by (simp_all add: on_spell_def)

lemma on_spell_queue [simp]: "due (on_spell a f s) = due s" "queued b (on_spell a f s) = queued b s" "queue_ok (on_spell a f s) = queue_ok s"
  by (simp_all add: due_def queued_def queue_ok_def)

lemma on_spell_steady:
  assumes "spell_good s" "ep_heap s a \<noteq> None" "spell_ok (ep_time s) (f (m_Spell s a))"
    and "spell_waits (m_Spell s a) \<Longrightarrow> spell_waits (f (m_Spell s a)) \<and> m_delayStart (f (m_Spell s a)) = m_delayStart (m_Spell s a)"
    and "length (m_UniqueTargetInfo (f (m_Spell s a))) = length (m_UniqueTargetInfo (m_Spell s a))"
    and "length (m_UniqueGOTargetInfo (f (m_Spell s a))) = length (m_UniqueGOTargetInfo (m_Spell s a))"
  shows "steady s (on_spell a f s)"
  using assms by (auto simp: steady_def spell_good_def)

section \<open>The moment that \<open>handle_delayed\<close> returns\<close>

text \<open>Zero, when nothing is left to wait for, or a moment that is still to come.\<close>

definition to_come :: "u64 \<Rightarrow> u64 \<Rightarrow> bool" where
  "to_come t n \<longleftrightarrow> n = 0 \<or> t < n \<and> n < 2 ^ 62"

lemma unit_target_law:
  assumes calm: "calm_code code" and s: "spell_good s" "ep_heap s a \<noteq> None" and t: "t < 2 ^ 62" "to_come t n"
    and i: "i < length (m_UniqueTargetInfo (m_Spell s a))" and r: "unit_target code a single t i (n, s) = (n', s')"
  shows "steady s s' \<and> to_come t n'"
proof -
  let ?t = "m_UniqueTargetInfo (m_Spell s a) ! i"
  let ?f = "\<lambda>sp. sp\<lparr>m_UniqueTargetInfo := (m_UniqueTargetInfo sp)[i := ?t\<lparr>ti_timeDelay := t\<rparr>]\<rparr>"
  have ok: "spell_ok (ep_time s) (m_Spell s a)" using s by (simp add: spell_good_def)
  then have d: "ti_timeDelay ?t < 2 ^ 62" using i by (auto simp: spell_ok_def)
  have "set ((m_UniqueTargetInfo (m_Spell s a))[i := ?t\<lparr>ti_timeDelay := t\<rparr>])
      \<subseteq> insert (?t\<lparr>ti_timeDelay := t\<rparr>) (set (m_UniqueTargetInfo (m_Spell s a)))" by (rule set_update_subset_insert)
  then have "spell_ok (ep_time s) (?f (m_Spell s a))" using ok t(1) by (auto simp: spell_ok_def)
  then have st: "steady s (on_spell a ?f s)" using s by (intro on_spell_steady) (simp_all add: spell_waits_def)
  have "steady (on_spell a ?f s) (sc_hit code a False i (on_spell a ?f s))"
    using calm_codeD(5)[OF calm steadyD(1)[OF st]] s(2) by simp
  then have "steady s (sc_hit code a False i (on_spell a ?f s))" by (rule steady_trans[OF st])
  then show ?thesis using r t(2) d steady_refl[OF s(1)]
    by (auto simp: unit_target_def Let_def to_come_def split: if_splits)
qed

lemma object_target_law:
  assumes calm: "calm_code code" and s: "spell_good s" "ep_heap s a \<noteq> None" and t: "to_come t n"
    and i: "i < length (m_UniqueGOTargetInfo (m_Spell s a))" and r: "object_target code a single t i (n, s) = (n', s')"
  shows "steady s s' \<and> to_come t n'"
proof -
  let ?t = "m_UniqueGOTargetInfo (m_Spell s a) ! i"
  have "spell_ok (ep_time s) (m_Spell s a)" using s by (simp add: spell_good_def)
  then have d: "ti_timeDelay ?t < 2 ^ 62" using i by (auto simp: spell_ok_def)
  then show ?thesis using r t steady_refl[OF s(1)] calm_codeD(5)[OF calm s]
    by (auto simp: object_target_def Let_def to_come_def split: if_splits)
qed

lemma target_loops:
  assumes round: "\<And>i n s n' s'. spell_good s \<Longrightarrow> ep_heap s a \<noteq> None \<Longrightarrow> to_come t n \<Longrightarrow> i < len s \<Longrightarrow>
      f i (n, s) = (n', s') \<Longrightarrow> steady s s' \<and> to_come t n'"
    and len: "\<And>s s'. steady s s' \<Longrightarrow> ep_heap s a \<noteq> None \<Longrightarrow> len s' = len s"
  shows "spell_good s \<Longrightarrow> ep_heap s a \<noteq> None \<Longrightarrow> to_come t n \<Longrightarrow> \<forall>i \<in> set is. i < len s \<Longrightarrow> fold f is (n, s) = (n', s') \<Longrightarrow>
    steady s s' \<and> to_come t n'"
proof (induction "is" arbitrary: n s)
  case (Cons i "is")
  obtain n1 s1 where r: "f i (n, s) = (n1, s1)" by force
  have s1: "steady s s1" "to_come t n1" using round[OF Cons.prems(1-3) _ r] Cons.prems(4) by simp_all
  have "steady s1 s' \<and> to_come t n'"
    using Cons.IH[OF steadyD(1)[OF s1(1)] steadyD(4)[OF s1(1) Cons.prems(2)] s1(2)] len[OF s1(1) Cons.prems(2)] Cons.prems(4,5) r by simp
  then show ?case using steady_trans[OF s1(1)] by blast
qed (simp add: steady_refl)

lemma handle_delayed_law:
  assumes calm: "calm_code code" and s: "spell_good s" "ep_heap s a \<noteq> None" and t: "t < 2 ^ 62"
    and r: "handle_delayed code a t s = (n, s')"
  shows "steady s s' \<and> to_come t n"
proof -
  define s1 where "s1 = (if \<not> m_immediateHandled (m_Spell s a)
    then on_spell a (\<lambda>sp. sp\<lparr>m_immediateHandled := True\<rparr>) (sc_immediate_phase code a s) else s)"
  have ph: "steady s (sc_immediate_phase code a s)" by (rule calm_codeD(4)[OF calm s])
  have "spell_ok (ep_time (sc_immediate_phase code a s)) (m_Spell (sc_immediate_phase code a s) a)"
    using steadyD(1,4)[OF ph] s(2) by (auto simp: spell_good_def)
  then have "steady (sc_immediate_phase code a s) (on_spell a (\<lambda>sp. sp\<lparr>m_immediateHandled := True\<rparr>) (sc_immediate_phase code a s))"
    using steadyD(1,4)[OF ph] s(2) by (intro on_spell_steady) (auto simp: spell_ok_def spell_waits_def)
  then have s1: "steady s s1" using steady_trans[OF ph] steady_refl[OF s(1)] by (simp add: s1_def)
  let ?m = "sp_single_missile (m_Spell s1 a)"
  obtain n2 s2 where u: "fold (unit_target code a ?m t) [0..<length (m_UniqueTargetInfo (m_Spell s1 a))] (0, s1) = (n2, s2)" by force
  obtain n3 s3 where o': "fold (object_target code a ?m t) [0..<length (m_UniqueGOTargetInfo (m_Spell s2 a))] (n2, s2) = (n3, s3)" by force
  have h1: "ep_heap s1 a \<noteq> None" by (rule steadyD(4)[OF s1 s(2)])
  have s2: "steady s1 s2 \<and> to_come t n2"
    by (rule target_loops[where a = a and f = "unit_target code a ?m t" and len = "\<lambda>s. length (m_UniqueTargetInfo (m_Spell s a))",
          OF unit_target_law[OF calm _ _ t] steadyD(7) steadyD(1)[OF s1] h1 _ _ u]) (auto simp: to_come_def)
  have h2: "ep_heap s2 a \<noteq> None" using steadyD(4)[OF conjunct1[OF s2] h1] .
  have s3: "steady s2 s3 \<and> to_come t n3"
    by (rule target_loops[where a = a and f = "object_target code a ?m t" and len = "\<lambda>s. length (m_UniqueGOTargetInfo (m_Spell s a))",
          OF object_target_law[OF calm] steadyD(8) steadyD(1)[OF conjunct1[OF s2]] h2 conjunct2[OF s2] _ o']) auto
  have s': "steady s s3" using steady_trans[OF s1 steady_trans[OF conjunct1[OF s2] conjunct1[OF s3]]] .
  have "steady s3 (sc_finish code a s3)" by (rule calm_codeD(6)[OF calm steadyD(1)[OF s'] steadyD(4)[OF s' s(2)]])
  then have "steady s (sc_finish code a s3)" by (rule steady_trans[OF s'])
  then show ?thesis using r s' s3
    by (auto simp: handle_delayed_def s1_def[symmetric] u o' Let_def to_come_def split: if_splits)
qed

section \<open>The contract\<close>

lemma live_due: "queue_ok s \<Longrightarrow> p \<in> set (due s) \<Longrightarrow> ep_heap s (snd p) \<noteq> None"
  by (auto simp: queue_ok_def due_def)

lemma steady_load: "spell_good s \<Longrightarrow> steady s s' \<Longrightarrow> load burden s' \<le> load burden s"
  unfolding load_def steadyD(3)[of s s']
  by (rule sum_list_mono)
    (auto simp: burden_def steadyD(3,6) spell_good_def dest!: live_due)

lemma sum_mm_insert: "sum_list (map f (mm_insert k v m)) = f (k, v) + (sum_list (map f m) :: nat)"
  by (induction m) auto

text \<open>Queueing the event again adds its burden to what is due, if it is due.\<close>

lemma readd_law:
  assumes s: "spell_good s" "ep_heap s a \<noteq> None" "\<not> queued a s"
  shows "spell_good (readd a t s)" "ep_time (readd a t s) = ep_time s"
    "load burden (readd a t s) = load burden s + (if t \<le> ep_time s then burden a s else 0)"
proof -
  obtain e where e: "ep_heap s a = Some e" using s(2) by auto
  let ?s = "s\<lparr>ep_heap := (ep_heap s)(a \<mapsto> e\<lparr>execTime := t\<rparr>), ep_events := mm_insert t a (ep_events s)\<rparr>"
  have r: "readd a t s = ?s" by (simp add: readd_def AddEvent_def e Let_def)
  have q: "queue_ok s" using s(1) by (simp add: spell_good_def)
  have set: "set (mm_insert t a (ep_events s)) = insert (t, a) (set (ep_events s))"
    using arg_cong[OF mset_mm_insert[of t a "ep_events s"], of set_mset] by simp
  have m: "mset (map snd (mm_insert t a (ep_events s))) = add_mset a (mset (map snd (ep_events s)))"
    by (simp add: mset_mm_insert)
  have "distinct (a # map snd (ep_events s))" using q s(3) by (auto simp: queue_ok_def queued_def)
  then have "distinct (map snd (mm_insert t a (ep_events s)))"
    using m by (metis distinct_count_atmost_1 mset.simps(2) mset_eq_imp_distinct_iff)
  moreover have "mm_wf (mm_insert t a (ep_events s))" using q mm.ins_wf by (auto simp: queue_ok_def)
  ultimately have "queue_ok ?s" using q by (auto simp: queue_ok_def set)
  then show "spell_good (readd a t s)" using s(1,2) unfolding r by (auto simp: spell_good_def)
  show "ep_time (readd a t s) = ep_time s" by (simp add: r)
  have d: "due ?s = (if t \<le> ep_time s then mm_insert t a (due s) else due s)"
    using q by (simp add: due_def filter_mm_insert queue_ok_def)
  have w: "burden b ?s = burden b s" for b by (simp add: burden_def)
  have "load burden ?s = sum_list (map (\<lambda>p. burden (snd p) s) (due ?s))" by (simp only: load_def w)
  then show "load burden (readd a t s) = load burden s + (if t \<le> ep_time s then burden a s else 0)"
    unfolding r d by (simp add: sum_mm_insert load_def)
qed

lemma later:
  assumes "spell_good s"
  shows "\<not> ep_time s + 1 \<le> ep_time s" and "unat (ep_time s) < 2 ^ 62"
proof -
  show u: "unat (ep_time s) < 2 ^ 62" using assms by (simp add: spell_good_def word_less_nat_alt)
  then have "unat (ep_time s + 1) = unat (ep_time s) + 1" by (subst unat_add_lem[THEN iffD1]) simp_all
  then show "\<not> ep_time s + 1 \<le> ep_time s" by (simp add: word_le_nat_alt)
qed

text \<open>An event that queues itself for later after steady code.\<close>

lemma again_later:
  assumes s: "spell_good s" "ep_heap s a \<noteq> None" "\<not> queued a s" and st: "steady s s1" and t: "\<not> t \<le> ep_time s"
  shows "spell_good (readd a t s1) \<and> ep_time (readd a t s1) = ep_time s \<and> load burden (readd a t s1) < burden a s + load burden s"
proof -
  have q: "\<not> queued a s1" using steadyD(5)[OF st s(2)] s(3) by simp
  note r = readd_law[OF steadyD(1)[OF st] steadyD(4)[OF st s(2)] q, of t]
  have "load burden (readd a t s1) = load burden s1" using t steadyD(2)[OF st] r(3) by simp
  moreover have "0 < burden a s" by (simp add: burden_def)
  ultimately show ?thesis using r(1,2) steadyD(2)[OF st] steady_load[OF s(1) st] by simp
qed

text \<open>The first waiting may be for zero: then the event is due at once, but lighter.\<close>

lemma starts_waiting:
  assumes s: "spell_good s" "ep_heap s a \<noteq> None" "\<not> queued a s" and st: "steady s s1"
    and w: "m_spellState (m_Spell s1 a) = SPELL_STATE_DELAYED" "m_delayStart (m_Spell s1 a) = 0"
  shows "let s2 = on_spell a (\<lambda>sp. sp\<lparr>m_delayStart := ep_time s\<rparr>) s1; s' = readd a (ep_time s + m_delayMoment (m_Spell s2 a)) s2
    in spell_good s' \<and> ep_time s' = ep_time s \<and> load burden s' < burden a s + load burden s"
proof -
  define s2 where "s2 = on_spell a (\<lambda>sp. sp\<lparr>m_delayStart := ep_time s\<rparr>) s1"
  have g1: "spell_good s1" "ep_heap s1 a \<noteq> None" and q: "\<not> queued a s1" and t: "ep_time s1 = ep_time s"
    using steadyD(1,2,4,5)[OF st] s(2,3) by auto
  have g2: "spell_good s2" using g1 t by (auto simp: s2_def spell_good_def spell_ok_def)
  have "0 < ep_time s" using s(1) by (simp add: spell_good_def)
  then have b2: "burden a s2 = 1" using w by (simp add: burden_def spell_waits_def s2_def)
  have "\<not> spell_waits (m_Spell s1 a)" using w by (simp add: spell_waits_def)
  then have b: "burden a s = 2" using steadyD(6)[OF st s(2)] by (auto simp: burden_def)
  have "a \<notin> snd ` set (due s1)" using q by (auto simp: queued_def due_def)
  then have "map (\<lambda>p. burden (snd p) s2) (due s1) = map (\<lambda>p. burden (snd p) s1) (due s1)"
    by (intro map_cong) (auto simp: burden_def s2_def)
  moreover have "due s2 = due s1" by (simp add: s2_def)
  ultimately have "load burden s2 = load burden s1" by (simp only: load_def)
  then have "load burden s2 \<le> load burden s" using steady_load[OF s(1) st] by simp
  moreover have "ep_heap s2 a \<noteq> None" "\<not> queued a s2" "ep_time s2 = ep_time s" using g1 q t by (simp_all add: s2_def)
  ultimately show ?thesis
    using readd_law[OF g2, of a "ep_time s + m_delayMoment (m_Spell s2 a)"] b b2 by (simp add: s2_def[symmetric] Let_def)
qed

text \<open>A moment after the start that is to come is later than now.\<close>

lemma still_to_come:
  assumes "spell_good s" "m_delayStart sp \<le> ep_time s" "to_come (ep_time s - m_delayStart sp) n" "n \<noteq> 0"
  shows "\<not> m_delayStart sp + n \<le> ep_time s"
proof -
  have u: "unat (ep_time s) < 2 ^ 62" "unat (m_delayStart sp) \<le> unat (ep_time s)" "unat n < 2 ^ 62"
    using later(2)[OF assms(1)] assms(2,3,4) by (auto simp: word_le_nat_alt word_less_nat_alt to_come_def)
  have "unat (ep_time s - m_delayStart sp) = unat (ep_time s) - unat (m_delayStart sp)"
    using assms(2) by (simp add: unat_sub)
  then have "unat (ep_time s) - unat (m_delayStart sp) < unat n"
    using assms(3,4) by (simp add: to_come_def word_less_nat_alt)
  moreover have "unat (m_delayStart sp + n) = unat (m_delayStart sp) + unat n"
    using u by (subst unat_add_lem[THEN iffD1]) simp_all
  ultimately show ?thesis by (simp add: word_le_nat_alt)
qed

lemma handles_delayed:
  assumes calm: "calm_code code" and s: "spell_good s" "ep_heap s a \<noteq> None" "\<not> queued a s" and st: "steady s s1"
    and w: "m_spellState (m_Spell s1 a) = SPELL_STATE_DELAYED" "m_delayStart (m_Spell s1 a) \<noteq> 0"
    and h: "handle_delayed code a (ep_time s - m_delayStart (m_Spell s1 a)) s1 = (n, s2)"
    and t: "t = (if n \<noteq> 0 then m_delayStart (m_Spell s2 a) + n else ep_time s + 1)"
  shows "spell_good (readd a t s2) \<and> ep_time (readd a t s2) = ep_time s \<and> load burden (readd a t s2) < burden a s + load burden s"
proof -
  have g1: "spell_good s1" "ep_heap s1 a \<noteq> None" "ep_time s1 = ep_time s" using steadyD(1,2,4)[OF st] s(2) by auto
  have le: "m_delayStart (m_Spell s1 a) \<le> ep_time s" using g1 by (auto simp: spell_good_def spell_ok_def)
  then have "unat (ep_time s - m_delayStart (m_Spell s1 a)) < 2 ^ 62" using later(2)[OF s(1)] by (simp add: unat_sub)
  then have "ep_time s - m_delayStart (m_Spell s1 a) < 2 ^ 62" by (simp add: word_less_nat_alt)
  from handle_delayed_law[OF calm g1(1,2) this h]
  have d: "steady s1 s2" "to_come (ep_time s - m_delayStart (m_Spell s1 a)) n" by simp_all
  have "m_delayStart (m_Spell s2 a) = m_delayStart (m_Spell s1 a)"
    using steadyD(6)[OF d(1) g1(2)] w by (simp add: spell_waits_def)
  then have "\<not> t \<le> ep_time s"
    using t later(1)[OF s(1)] still_to_come[OF s(1) le d(2)] by auto
  then show ?thesis by (rule again_later[OF s steady_trans[OF st d(1)]])
qed

lemma SpellEvent_Execute_law:
  assumes calm: "calm_code code" and s: "spell_good s" "ep_heap s a \<noteq> None" "\<not> queued a s"
    and x: "SpellEvent_Execute code a (ep_time s) p s = (don, s')"
  shows "spell_good s' \<and> ep_time s' = ep_time s \<and> load burden s' < burden a s + load burden s \<and> (don \<longrightarrow> \<not> queued a s')"
proof -
  define s1 where "s1 = (if m_spellState (m_Spell s a) \<noteq> SPELL_STATE_FINISHED then sc_update code a p s else s)"
  have st: "steady s s1" using calm_codeD(1)[OF calm s(1,2)] steady_refl[OF s(1)] by (simp add: s1_def)
  note x = x[unfolded SpellEvent_Execute_def Let_def[of "if m_spellState (m_Spell s a) \<noteq> SPELL_STATE_FINISHED then _ else _"] s1_def[symmetric]]
  have g1: "spell_good s1" "ep_heap s1 a \<noteq> None" using steadyD(1,4)[OF st] s(2) by auto
  have next_update: ?thesis if "don = False" "steady s s2" "s' = readd a (ep_time s + 1) s2" for s2
    using again_later[OF s that(2) later(1)[OF s(1)]] that by simp
  show ?thesis
  proof (cases "m_spellState (m_Spell s1 a) = SPELL_STATE_DELAYED")
    case False
    show ?thesis
    proof (cases "m_spellState (m_Spell s1 a) = SPELL_STATE_FINISHED \<and> Spell_IsDeletable (m_Spell s1 a)")
      case True
      have "0 < burden a s" by (simp add: burden_def)
      then show ?thesis using x True steadyD[OF st] steady_load[OF s(1) st] s(2,3) by auto
    next
      case False
      then show ?thesis using next_update[OF _ st] x \<open>m_spellState (m_Spell s1 a) \<noteq> SPELL_STATE_DELAYED\<close> by (auto split: if_splits)
    qed
  next
    case delayed: True
    show ?thesis
    proof (cases "m_delayStart (m_Spell s1 a) = 0")
      case True
      then show ?thesis using x delayed starts_waiting[OF s st delayed True] by (auto simp: Let_def)
    next
      case started: False
      show ?thesis
      proof (cases "sp_channeled (m_Spell s1 a)")
        case True
        have "steady s1 (if sc_casting code a s1 then sc_cancel code a s1 else if sc_out_of_range code a s1 then sc_cancel code a s1
            else sc_immediate code a s1)"
          using calm_codeD(2,3)[OF calm g1] by simp
        from next_update[OF _ steady_trans[OF st this]] show ?thesis using x delayed started True by (auto simp: Let_def)
      next
        case False
        obtain n s2 where h: "handle_delayed code a (ep_time s - m_delayStart (m_Spell s1 a)) s1 = (n, s2)" by force
        note hd = handles_delayed[OF calm s st delayed started h refl]
        show ?thesis using x delayed started False h hd by (auto split: if_splits)
      qed
    qed
  qed
qed

lemma SpellEvent_Abort_law:
  assumes calm: "calm_code code" and s: "spell_good s" "ep_heap s a \<noteq> None" "\<not> queued a s"
  shows "spell_good (SpellEvent_Abort code a t s) \<and> ep_time (SpellEvent_Abort code a t s) = ep_time s
    \<and> load burden (SpellEvent_Abort code a t s) < burden a s + load burden s \<and> \<not> queued a (SpellEvent_Abort code a t s)"
proof -
  have st: "steady s (SpellEvent_Abort code a t s)"
    using calm_codeD(2)[OF calm s(1,2)] steady_refl[OF s(1)] by (simp add: SpellEvent_Abort_def)
  have "0 < burden a s" by (simp add: burden_def)
  then show ?thesis using steadyD[OF st] steady_load[OF s(1) st] s(2,3) by auto
qed

lemma spell_events:
  assumes calm: "calm_code code"
  shows "event_class (SpellEvent_Execute code) (SpellEvent_Abort code) spell_good burden"
proof unfold_locales
  fix s s' :: "'a spell_processor_scheme" and a p don q r
  show "spell_good s \<Longrightarrow> queue_ok s" by (simp add: spell_good_def)
  show "spell_good s \<Longrightarrow> ep_events s = q # r \<Longrightarrow> spell_good (s\<lparr>ep_events := r\<rparr>)"
    using queue_ok_pop[of s q r] by (auto simp: spell_good_def)
  show "spell_good s \<Longrightarrow> \<not> queued a s \<Longrightarrow> spell_good (delete_event a s)"
    using queue_ok_delete[of s a] by (auto simp: spell_good_def delete_event_def)
  show "burden a (s\<lparr>ep_events := r\<rparr>) = burden a s" by (simp add: burden_def)
  show "burden b (delete_event a s) = burden b s" for b by (simp add: burden_def delete_event_def)
qed (use SpellEvent_Execute_law[OF calm] SpellEvent_Abort_law[OF calm] in blast)+

section \<open>Properties\<close>


text \<open>Spells that do nothing but go through their states, and a missile with two targets on its way since moment 15, 3 and 8
  away.\<close>

definition plain_code :: "unit spell_code" where
  "plain_code = \<lparr>sc_update = (\<lambda>a p s. s), sc_cancel = (\<lambda>a. on_spell a (\<lambda>sp. sp\<lparr>m_spellState := SPELL_STATE_FINISHED\<rparr>)),
     sc_immediate = (\<lambda>a. on_spell a (\<lambda>sp. sp\<lparr>m_spellState := SPELL_STATE_CASTING\<rparr>)), sc_immediate_phase = (\<lambda>a s. s),
     sc_hit = (\<lambda>a go i. on_spell a (\<lambda>sp. if go
        then sp\<lparr>m_UniqueGOTargetInfo := (m_UniqueGOTargetInfo sp)[i := (m_UniqueGOTargetInfo sp ! i)\<lparr>ti_processed := True\<rparr>]\<rparr>
        else sp\<lparr>m_UniqueTargetInfo := (m_UniqueTargetInfo sp)[i := (m_UniqueTargetInfo sp ! i)\<lparr>ti_processed := True\<rparr>]\<rparr>)),
     sc_finish = (\<lambda>a. on_spell a (\<lambda>sp. sp\<lparr>m_spellState := SPELL_STATE_FINISHED\<rparr>)),
     sc_casting = (\<lambda>a s. False), sc_out_of_range = (\<lambda>a s. False)\<rparr>"



lemma hit_ok:
  assumes "\<forall>t \<in> set ts. ti_timeDelay t < B"
  shows "\<forall>t \<in> set (ts[i := (ts ! i)\<lparr>ti_processed := True\<rparr>]). ti_timeDelay t < B"
proof (cases "i < length ts")
  case True
  then have "ti_timeDelay (ts ! i) < B" using assms by simp
  then show ?thesis using assms set_update_subset_insert[of ts i "(ts ! i)\<lparr>ti_processed := True\<rparr>"] by auto
qed (use assms in \<open>simp add: not_less list_update_beyond\<close>)

lemma plain_steady:
  fixes s :: spell_processor
  assumes "spell_good s" "ep_heap s a \<noteq> None"
    and "\<And>sp now. spell_ok now sp \<Longrightarrow> spell_ok now (f sp) \<and> m_delayStart (f sp) = m_delayStart sp
      \<and> length (m_UniqueTargetInfo (f sp)) = length (m_UniqueTargetInfo sp)
      \<and> length (m_UniqueGOTargetInfo (f sp)) = length (m_UniqueGOTargetInfo sp) \<and> (spell_waits sp \<longrightarrow> spell_waits (f sp))"
  shows "steady s (on_spell a f s)"
  using assms by (intro on_spell_steady) (auto simp: spell_good_def)

lemma plain_calm: "calm_code plain_code"
proof -
  have "steady s (sc_cancel plain_code a s)" "steady s (sc_immediate plain_code a s)" "steady s (sc_finish plain_code a s)"
    "steady s (sc_hit plain_code a go i s)" if "spell_good s" "ep_heap s a \<noteq> None" for s a go i
    unfolding plain_code_def spell_code.simps
    by (rule plain_steady[OF that]; cases go; simp add: spell_ok_def spell_waits_def ball_Un; rule hit_ok, simp)+
  then show ?thesis by (auto simp: calm_code_def) (simp_all add: plain_code_def steady_refl)
qed

interpretation plain: event_class "SpellEvent_Execute plain_code" "SpellEvent_Abort plain_code" spell_good burden
  by (rule spell_events[OF plain_calm])


end
