(* ===== verification/AuthCrypt.thy ===== *)
theory AuthCrypt
  imports Prelude
begin

text \<open>
  The packet header cipher of the world connection
  (src/src/common/Cryptography/Authentication/AuthCrypt.h and .cpp). The session key enters
  through an HMAC of the third-party library, a parameter here (\<open>hmac\<close>, which returns the 20
  bytes of a SHA-1 digest). A zero-length key makes the \<open>%= _key.size()\<close> of the loops a division
  by zero: the result \<open>None\<close>.
\<close>

section \<open>State and operations\<close>

record auth_crypt =
  crypt_key :: "u8 list"
  send_i :: u8
  send_j :: u8
  recv_i :: u8
  recv_j :: u8
  initialized :: bool

definition CRYPTED_SEND_LEN :: nat where "CRYPTED_SEND_LEN = 4"
definition CRYPTED_RECV_LEN :: nat where "CRYPTED_RECV_LEN = 6"
definition SHA_DIGEST_LENGTH :: nat where "SHA_DIGEST_LENGTH = 20"

text \<open>
  The constructor leaves all fields but \<open>_initialized\<close> and the empty key uninitialised; \<open>junk\<close>
  stands for their values.
\<close>

definition AuthCrypt_new :: "u8 \<times> u8 \<times> u8 \<times> u8 \<Rightarrow> auth_crypt" where
  "AuthCrypt_new junk = (case junk of (si, sj, ri, rj) \<Rightarrow>
     \<lparr>crypt_key = [], send_i = si, send_j = sj, recv_i = ri, recv_j = rj, initialized = False\<rparr>)"

definition AuthCrypt_Init :: "auth_crypt \<Rightarrow> auth_crypt" where
  "AuthCrypt_Init c = c\<lparr>send_i := 0, send_j := 0, recv_i := 0, recv_j := 0, initialized := True\<rparr>"

definition GenerateKey :: "(u8 list \<Rightarrow> u8 list) \<Rightarrow> u8 list \<Rightarrow> u8 list" where
  "GenerateKey hmac bn = take SHA_DIGEST_LENGTH (hmac bn)"

definition SetKey :: "(u8 list \<Rightarrow> u8 list) \<Rightarrow> u8 list \<Rightarrow> auth_crypt \<Rightarrow> auth_crypt" where
  "SetKey hmac bn c = c\<lparr>crypt_key := GenerateKey hmac bn\<rparr>"

text \<open>The loop bodies, over the bytes they still have to process.\<close>

fun decrypt_loop :: "auth_crypt \<Rightarrow> u8 list \<Rightarrow> (auth_crypt \<times> u8 list) option" where
  "decrypt_loop c [] = Some (c, [])"
| "decrypt_loop c (d # ds) =
     (if crypt_key c = [] then None
      else
        let i = unat (recv_i c) mod length (crypt_key c);
            x = (d - recv_j c) XOR crypt_key c ! i
        in map_option (\<lambda>(c', xs). (c', x # xs))
             (decrypt_loop (c\<lparr>recv_i := word_of_nat i + 1, recv_j := d\<rparr>) ds))"

fun encrypt_loop :: "auth_crypt \<Rightarrow> u8 list \<Rightarrow> (auth_crypt \<times> u8 list) option" where
  "encrypt_loop c [] = Some (c, [])"
| "encrypt_loop c (d # ds) =
     (if crypt_key c = [] then None
      else
        let i = unat (send_i c) mod length (crypt_key c);
            x = (d XOR crypt_key c ! i) + send_j c
        in map_option (\<lambda>(c', xs). (c', x # xs))
             (encrypt_loop (c\<lparr>send_i := word_of_nat i + 1, send_j := x\<rparr>) ds))"

definition DecryptRecv :: "auth_crypt \<Rightarrow> u8 list \<Rightarrow> (auth_crypt \<times> u8 list) option" where
  "DecryptRecv c data =
     (if \<not> initialized c then Some (c, data)
      else if length data < CRYPTED_RECV_LEN then Some (c, data)
      else map_option (\<lambda>(c', xs). (c', xs @ drop CRYPTED_RECV_LEN data))
             (decrypt_loop c (take CRYPTED_RECV_LEN data)))"

definition EncryptSend :: "auth_crypt \<Rightarrow> u8 list \<Rightarrow> (auth_crypt \<times> u8 list) option" where
  "EncryptSend c data =
     (if \<not> initialized c then Some (c, data)
      else if length data < CRYPTED_SEND_LEN then Some (c, data)
      else map_option (\<lambda>(c', xs). (c', xs @ drop CRYPTED_SEND_LEN data))
             (encrypt_loop c (take CRYPTED_SEND_LEN data)))"

section \<open>Lemmas\<close>

text \<open>Two ends agree when the receiving state of one is the sending state of the other.\<close>

definition in_sync :: "auth_crypt \<Rightarrow> auth_crypt \<Rightarrow> bool" where
  "in_sync a b \<longleftrightarrow> crypt_key b = crypt_key a \<and> recv_i b = send_i a \<and> recv_j b = send_j a"

lemma encrypt_loop_some: "crypt_key c \<noteq> [] \<Longrightarrow> \<exists>c' xs. encrypt_loop c ds = Some (c', xs)"
proof (induction ds arbitrary: c)
  case (Cons d ds)
  let ?c = "\<lambda>i x. c\<lparr>send_i := word_of_nat i + 1, send_j := x\<rparr>"
  have "crypt_key (?c i x) \<noteq> []" for i x using Cons.prems by simp
  then have "\<exists>c' xs. encrypt_loop (?c i x) ds = Some (c', xs)" for i x by (rule Cons.IH)
  with Cons.prems show ?case by (fastforce simp: Let_def)
qed simp

lemma xor_cancel: "((d XOR k) + j - j) XOR k = (d :: u8)"
  by (simp add: xor.assoc)

lemma decrypt_encrypt:
  "encrypt_loop s ds = Some (s', xs) \<Longrightarrow> in_sync s r \<Longrightarrow>
   \<exists>r'. decrypt_loop r xs = Some (r', ds) \<and> in_sync s' r' \<and> initialized r' = initialized r
      \<and> length xs = length ds \<and> send_i r' = send_i r \<and> send_j r' = send_j r
      \<and> initialized s' = initialized s \<and> recv_i s' = recv_i s \<and> recv_j s' = recv_j s
      \<and> crypt_key s' = crypt_key s"
proof (induction ds arbitrary: s r s' xs)
  case Nil
  then show ?case by auto
next
  case (Cons d ds)
  from Cons.prems(1) have key: "crypt_key s \<noteq> []" by (auto split: if_splits)
  let ?i = "unat (send_i s) mod length (crypt_key s)"
  let ?x = "(d XOR crypt_key s ! ?i) + send_j s"
  let ?s = "s\<lparr>send_i := word_of_nat ?i + 1, send_j := ?x\<rparr>"
  let ?r = "r\<lparr>recv_i := word_of_nat ?i + 1, recv_j := ?x\<rparr>"
  from Cons.prems(1) key obtain ys where
    ys: "encrypt_loop ?s ds = Some (s', ys)" and xs: "xs = ?x # ys"
    by (auto simp: Let_def)
  have "in_sync ?s ?r" using Cons.prems(2) by (simp add: in_sync_def)
  from Cons.IH[OF ys this] obtain r' where
    r': "decrypt_loop ?r ys = Some (r', ds)" "in_sync s' r'" "initialized r' = initialized r"
      "length ys = length ds" "send_i r' = send_i r" "send_j r' = send_j r"
      "initialized s' = initialized s" "recv_i s' = recv_i s" "recv_j s' = recv_j s"
      "crypt_key s' = crypt_key s"
    by auto
  have "decrypt_loop r xs = Some (r', d # ds)"
    using key Cons.prems(2) r'(1) xor_cancel[of d "crypt_key s ! ?i" "send_j s"]
    by (simp add: in_sync_def xs Let_def)
  with r' xs show ?case by auto
qed

text \<open>
  The peer of the server runs the same cipher with the header lengths exchanged. A connection
  is a sequence of packets; \<open>send_all\<close> is the peer's side, \<open>recv_all\<close> the server's.
\<close>

fun send_all :: "auth_crypt \<Rightarrow> (u8 list \<times> u8 list) list \<Rightarrow> (auth_crypt \<times> u8 list list) option" where
  "send_all c [] = Some (c, [])"
| "send_all c ((hdr, body) # ps) =
     (case encrypt_loop c hdr of None \<Rightarrow> None
      | Some (c', xs) \<Rightarrow> map_option (\<lambda>(c'', out). (c'', (xs @ body) # out)) (send_all c' ps))"

fun recv_all :: "auth_crypt \<Rightarrow> u8 list list \<Rightarrow> (auth_crypt \<times> u8 list list) option" where
  "recv_all c [] = Some (c, [])"
| "recv_all c (p # ps) =
     (case DecryptRecv c p of None \<Rightarrow> None
      | Some (c', x) \<Rightarrow> map_option (\<lambda>(c'', out). (c'', x # out)) (recv_all c' ps))"

text \<open>The other direction: \<open>server_send\<close> is what the server does with its packets, \<open>peer_recv\<close> the
  peer's side, which decrypts the four bytes of the header.\<close>

fun server_send :: "auth_crypt \<Rightarrow> (u8 list \<times> u8 list) list \<Rightarrow> (auth_crypt \<times> u8 list list) option" where
  "server_send c [] = Some (c, [])"
| "server_send c ((hdr, body) # ps) =
     (case EncryptSend c (hdr @ body) of None \<Rightarrow> None
      | Some (c', p) \<Rightarrow> map_option (\<lambda>(c'', out). (c'', p # out)) (server_send c' ps))"

fun peer_recv :: "auth_crypt \<Rightarrow> u8 list list \<Rightarrow> (auth_crypt \<times> u8 list list) option" where
  "peer_recv c [] = Some (c, [])"
| "peer_recv c (p # ps) =
     (case decrypt_loop c (take CRYPTED_SEND_LEN p) of None \<Rightarrow> None
      | Some (c', h) \<Rightarrow> map_option (\<lambda>(c'', out). (c'', (h @ drop CRYPTED_SEND_LEN p) # out)) (peer_recv c' ps))"

lemma DecryptRecv_sync:
  assumes "encrypt_loop s hdr = Some (s', xs)" "in_sync s r" "initialized r"
    and "length hdr = CRYPTED_RECV_LEN"
  shows "\<exists>r'. DecryptRecv r (xs @ body) = Some (r', hdr @ body) \<and> in_sync s' r' \<and> initialized r'"
  using decrypt_encrypt[OF assms(1,2)] assms(3,4) by (auto simp: DecryptRecv_def)

lemma received_stream:
  assumes "in_sync s r" "initialized r" "crypt_key s \<noteq> []"
    and "list_all (\<lambda>(hdr, body). length hdr = CRYPTED_RECV_LEN) ps"
  shows "\<exists>s' out r'. send_all s ps = Some (s', out)
    \<and> recv_all r out = Some (r', map (\<lambda>(hdr, body). hdr @ body) ps) \<and> in_sync s' r'"
  using assms
proof (induction ps arbitrary: s r)
  case Nil
  then show ?case by auto
next
  case (Cons p ps)
  obtain hdr body where p: "p = (hdr, body)" by (cases p)
  obtain s1 xs where enc: "encrypt_loop s hdr = Some (s1, xs)"
    using encrypt_loop_some[OF Cons.prems(3)] by blast
  have len: "length hdr = CRYPTED_RECV_LEN" using Cons.prems(4) p by simp
  obtain r1 where r1: "DecryptRecv r (xs @ body) = Some (r1, hdr @ body)" "in_sync s1 r1" "initialized r1"
    using DecryptRecv_sync[OF enc Cons.prems(1,2) len] by blast
  have "crypt_key s1 \<noteq> []" using decrypt_encrypt[OF enc Cons.prems(1)] Cons.prems(3) by auto
  from Cons.IH[OF r1(2,3) this] Cons.prems(4) obtain s' out r' where
    "send_all s1 ps = Some (s', out)" "in_sync s' r'"
    "recv_all r1 out = Some (r', map (\<lambda>(hdr, body). hdr @ body) ps)"
    by auto
  then show ?case using enc r1(1) p by auto
qed

lemma sent_stream:
  assumes "in_sync r s" "initialized r" "crypt_key r \<noteq> []"
    and "list_all (\<lambda>(hdr, body). length hdr = CRYPTED_SEND_LEN) ps"
  shows "\<exists>r' out s'. server_send r ps = Some (r', out)
    \<and> peer_recv s out = Some (s', map (\<lambda>(hdr, body). hdr @ body) ps) \<and> in_sync r' s'"
  using assms
proof (induction ps arbitrary: s r)
  case Nil
  then show ?case by auto
next
  case (Cons p ps)
  obtain hdr body where p: "p = (hdr, body)" by (cases p)
  obtain r1 xs where enc: "encrypt_loop r hdr = Some (r1, xs)"
    using encrypt_loop_some[OF Cons.prems(3)] by blast
  have len: "length hdr = CRYPTED_SEND_LEN" using Cons.prems(4) p by simp
  obtain s1 where s1: "decrypt_loop s xs = Some (s1, hdr)" "in_sync r1 s1" "length xs = length hdr"
    "initialized r1" "crypt_key r1 \<noteq> []"
    using decrypt_encrypt[OF enc Cons.prems(1)] Cons.prems(2,3) by auto
  have send: "EncryptSend r (hdr @ body) = Some (r1, xs @ body)"
    using enc len Cons.prems(2) by (simp add: EncryptSend_def)
  from Cons.IH[OF s1(2,4,5)] Cons.prems(4) obtain r' out s' where
    "server_send r1 ps = Some (r', out)" "in_sync r' s'"
    "peer_recv s1 out = Some (s', map (\<lambda>(hdr, body). hdr @ body) ps)"
    by auto
  then show ?case using send s1(1,3) len p by auto
qed

section \<open>Properties\<close>

text \<open>C16: A connection of two ends with the same key and counters in step stays in step in both directions,
  whatever number of packets is sent: the server's \<open>DecryptRecv\<close> recovers every header of six bytes that the
  peer encrypts, the peer every header of four bytes that \<open>EncryptSend\<close> encrypts, and all
  bodies arrive as they were.\<close>

theorem header_stream_roundtrip:
  assumes "in_sync s r" "in_sync r s" "initialized r" "crypt_key s \<noteq> []"
    and "list_all (\<lambda>(hdr, body). length hdr = CRYPTED_RECV_LEN) ps"
    and "list_all (\<lambda>(hdr, body). length hdr = CRYPTED_SEND_LEN) qs"
  shows "(\<exists>s' out r'. send_all s ps = Some (s', out)
      \<and> recv_all r out = Some (r', map (\<lambda>(hdr, body). hdr @ body) ps) \<and> in_sync s' r')
    \<and> (\<exists>r' out s'. server_send r qs = Some (r', out)
      \<and> peer_recv s out = Some (s', map (\<lambda>(hdr, body). hdr @ body) qs) \<and> in_sync r' s')"
proof -
  have "crypt_key r \<noteq> []" using assms(1,4) by (simp add: in_sync_def)
  then show ?thesis using received_stream[OF assms(1,3,4,5)] sent_stream[OF assms(2,3) _ assms(6)] by blast
qed

theorem header_stream_roundtrip_witness:
  "\<exists>r' out s'. server_send (AuthCrypt_Init (SetKey (\<lambda>_. replicate 20 7) [1] (AuthCrypt_new (0, 0, 0, 0))))
        [([1, 2, 3, 4], [9]), ([5, 6, 7, 8], [])] = Some (r', out)
     \<and> peer_recv (AuthCrypt_Init (SetKey (\<lambda>_. replicate 20 7) [1] (AuthCrypt_new (1, 2, 3, 4)))) out
        = Some (s', [[1, 2, 3, 4, 9], [5, 6, 7, 8]]) \<and> in_sync r' s'"
  using header_stream_roundtrip[of "AuthCrypt_Init (SetKey (\<lambda>_. replicate 20 7) [1] (AuthCrypt_new (1, 2, 3, 4)))"
      "AuthCrypt_Init (SetKey (\<lambda>_. replicate 20 7) [1] (AuthCrypt_new (0, 0, 0, 0)))" "[([1, 2, 3, 4, 5, 6], [9])]"
      "[([1, 2, 3, 4], [9]), ([5, 6, 7, 8], [])]"]
  by (simp add: in_sync_def AuthCrypt_Init_def SetKey_def GenerateKey_def AuthCrypt_new_def SHA_DIGEST_LENGTH_def
      CRYPTED_RECV_LEN_def CRYPTED_SEND_LEN_def)

text \<open>\<open>EncryptSend\<close> never changes the length of a packet, its body or the receiving
  counters; it is the identity on packets shorter than a header and before \<open>Init\<close>, and with a
  key it always returns.\<close>

lemma EncryptSend_frame:
  assumes "crypt_key c \<noteq> []"
  shows "\<exists>c' out. EncryptSend c data = Some (c', out) \<and> length out = length data
     \<and> drop CRYPTED_SEND_LEN out = drop CRYPTED_SEND_LEN data
     \<and> recv_i c' = recv_i c \<and> recv_j c' = recv_j c \<and> crypt_key c' = crypt_key c
     \<and> (\<not> initialized c \<or> length data < CRYPTED_SEND_LEN \<longrightarrow> c' = c \<and> out = data)"
proof -
  let ?h = "take CRYPTED_SEND_LEN data"
  obtain s' xs where e: "encrypt_loop c ?h = Some (s', xs)"
    using encrypt_loop_some[OF assms] by blast
  have "in_sync c (c\<lparr>recv_i := send_i c, recv_j := send_j c\<rparr>)" by (simp add: in_sync_def)
  from decrypt_encrypt[OF e this] e show ?thesis
    by (auto simp: EncryptSend_def)
qed

lemma EncryptSend_frame_witness:
  "\<exists>c' out. EncryptSend (AuthCrypt_Init (SetKey (\<lambda>_. [3]) [] (AuthCrypt_new (0, 0, 0, 0)))) [1, 2, 3, 4, 5]
      = Some (c', out) \<and> length out = 5 \<and> drop CRYPTED_SEND_LEN out = [5]"
  using EncryptSend_frame[of "AuthCrypt_Init (SetKey (\<lambda>_. [3]) [] (AuthCrypt_new (0, 0, 0, 0)))" "[1, 2, 3, 4, 5]"]
  by (auto simp: AuthCrypt_Init_def SetKey_def GenerateKey_def AuthCrypt_new_def SHA_DIGEST_LENGTH_def
      CRYPTED_SEND_LEN_def)

end
