(* ===== verification/ByteBuffer.thy ===== *)
theory ByteBuffer
  imports StdMap
begin

text \<open>
  The packet buffer (src/src/server/shared/Packets/ByteBuffer.h) and the byte-order helper it
  uses (src/src/framework/Utilities/ByteConverter.h): raw appends and overwrites at the write
  position, bounds-checked reads at the read position, integers in little-endian order,
  NUL-terminated strings and packed guids. Sizes and positions are \<open>nat\<close>; the additions the
  code does on \<open>size_t\<close> in its bounds checks wrap at \<open>2 ^ 64\<close> (\<open>sz_add\<close>). The second half
  states the wire format of each operator as an encoder and proves that the buffer implements
  it.
\<close>

section \<open>Byte order\<close>

fun le_bytes :: "nat \<Rightarrow> 'a::len word \<Rightarrow> u8 list" where
  "le_bytes 0 w = []"
| "le_bytes (Suc n) w = ucast w # le_bytes n (drop_bit 8 w)"

fun le_word :: "u8 list \<Rightarrow> 'a::len word" where
  "le_word [] = 0"
| "le_word (b # bs) = ucast b OR push_bit 8 (le_word bs)"

text \<open>
  \<open>ByteConverter::convert\<close> swaps the outermost bytes and recurses on the inner ones; it does
  nothing for 0 and 1 bytes. \<open>EndianConvert\<close> applies it on big-endian hosts only.
\<close>

function convert_bytes :: "u8 list \<Rightarrow> u8 list" where
  "convert_bytes bs =
     (if length bs \<le> 1 then bs
      else last bs # convert_bytes (butlast (tl bs)) @ [hd bs])"
  by pat_completeness auto
termination
  by (relation "measure length") auto

declare convert_bytes.simps [simp del]

definition EndianConvert :: "bool \<Rightarrow> u8 list \<Rightarrow> u8 list" where
  "EndianConvert big_endian bs = (if big_endian then convert_bytes bs else bs)"

text \<open>The bytes of an \<open>n\<close>-byte object in the memory of a host.\<close>

definition host_bytes :: "bool \<Rightarrow> nat \<Rightarrow> 'a::len word \<Rightarrow> u8 list" where
  "host_bytes big_endian n w = (if big_endian then rev (le_bytes n w) else le_bytes n w)"

definition host_word :: "bool \<Rightarrow> u8 list \<Rightarrow> 'a::len word" where
  "host_word big_endian bs = le_word (if big_endian then rev bs else bs)"

lemma length_le_bytes [simp]: "length (le_bytes n w) = n"
  by (induction n arbitrary: w) auto

lemma convert_bytes_rev: "convert_bytes bs = rev bs"
proof (induction bs rule: convert_bytes.induct)
  case (1 bs)
  show ?case
  proof (cases "length bs \<le> 1")
    case True
    then have "rev bs = bs" by (cases bs; cases "tl bs") auto
    with True show ?thesis by (simp add: convert_bytes.simps[of bs])
  next
    case False
    then obtain x ys z where bs: "bs = x # ys @ [z]"
      by (cases bs; cases "tl bs" rule: rev_cases) auto
    from "1.IH"[OF False] have "convert_bytes ys = rev ys" by (simp add: bs)
    then show ?thesis by (simp add: bs convert_bytes.simps[of "x # ys @ [z]"])
  qed
qed

lemma take_bit_split8:
  "take_bit (8 * Suc n) (w :: 'a::len word)
     = take_bit 8 w OR push_bit 8 (take_bit (8 * n) (drop_bit 8 w))"
  by (rule bit_word_eqI) (auto simp: bit_simps)

lemma le_word_le_bytes: "le_word (le_bytes n (w :: 'a::len word)) = take_bit (8 * n) w"
proof (induction n arbitrary: w)
  case 0
  then show ?case by simp
next
  case (Suc n)
  have "ucast (ucast w :: u8) = take_bit 8 w"
    by (rule bit_word_eqI) (auto simp: bit_simps)
  with Suc show ?case by (simp only: le_bytes.simps le_word.simps take_bit_split8)
qed

lemma le_word_le_bytes_full: "LENGTH('a) \<le> 8 * n \<Longrightarrow> le_word (le_bytes n (w :: 'a::len word)) = w"
  by (simp add: le_word_le_bytes take_bit_word_eq_self)

lemma wire_bytes: "EndianConvert be (host_bytes be n w) = le_bytes n w"
  by (simp add: EndianConvert_def host_bytes_def convert_bytes_rev)

section \<open>The buffer\<close>

record byte_buffer =
  storage :: "u8 list"
  rpos :: nat
  wpos :: nat

text \<open>
  \<open>ByteBufferException add pos esize size\<close> is thrown by the bounds checks; \<open>AssertFailed\<close> is the
  \<open>ASSERT\<close> of \<open>append\<close>; \<open>OutOfBounds\<close> is a copy past the end of the vector, which the checks
  let through when \<open>pos + len\<close> wraps around.
\<close>

datatype bb_error =
    ByteBufferException bool nat nat nat
  | AssertFailed
  | OutOfBounds

definition sz_add :: "nat \<Rightarrow> nat \<Rightarrow> nat" where
  "sz_add a b = (a + b) mod 2 ^ 64"

definition new_buffer :: byte_buffer where
  "new_buffer = \<lparr>storage = [], rpos = 0, wpos = 0\<rparr>"

definition bb_clear :: "byte_buffer \<Rightarrow> byte_buffer" where
  "bb_clear b = b\<lparr>storage := [], rpos := 0, wpos := 0\<rparr>"

definition bb_resize :: "nat \<Rightarrow> byte_buffer \<Rightarrow> byte_buffer" where
  "bb_resize n b = b\<lparr>storage := take n (storage b) @ replicate (n - length (storage b)) 0,
                    rpos := 0, wpos := n\<rparr>"

definition bb_append :: "u8 list \<Rightarrow> byte_buffer \<Rightarrow> bb_error + byte_buffer" where
  "bb_append src b =
     (if src = [] then Inr b
      else if \<not> length (storage b) < 10000000 then Inl AssertFailed
      else
        let cnt = length src;
            s = (if length (storage b) < wpos b + cnt
                 then storage b @ replicate (wpos b + cnt - length (storage b)) 0
                 else storage b)
        in Inr (b\<lparr>storage := take (wpos b) s @ src @ drop (wpos b + cnt) s,
                  wpos := wpos b + cnt\<rparr>))"

definition put_bytes :: "nat \<Rightarrow> u8 list \<Rightarrow> byte_buffer \<Rightarrow> bb_error + byte_buffer" where
  "put_bytes pos src b =
     (if sz_add pos (length src) > length (storage b)
      then Inl (ByteBufferException True pos (length src) (length (storage b)))
      else if pos + length src > length (storage b) then Inl OutOfBounds
      else Inr (b\<lparr>storage := take pos (storage b) @ src @ drop (pos + length src) (storage b)\<rparr>))"

definition read_at :: "nat \<Rightarrow> nat \<Rightarrow> byte_buffer \<Rightarrow> bb_error + u8 list" where
  "read_at pos len b =
     (if sz_add pos len > length (storage b)
      then Inl (ByteBufferException False pos len (length (storage b)))
      else if pos + len > length (storage b) then Inl OutOfBounds
      else Inr (take len (drop pos (storage b))))"

definition read_bytes :: "nat \<Rightarrow> byte_buffer \<Rightarrow> bb_error + (u8 list \<times> byte_buffer)" where
  "read_bytes len b =
     (case read_at (rpos b) len b of
        Inl e \<Rightarrow> Inl e
      | Inr bs \<Rightarrow> Inr (bs, b\<lparr>rpos := rpos b + len\<rparr>))"

definition read_skip :: "nat \<Rightarrow> byte_buffer \<Rightarrow> bb_error + byte_buffer" where
  "read_skip skip b =
     (if sz_add (rpos b) skip > length (storage b)
      then Inl (ByteBufferException False (rpos b) skip (length (storage b)))
      else Inr (b\<lparr>rpos := sz_add (rpos b) skip\<rparr>))"

subsection \<open>Integers\<close>

text \<open>\<open>append<T>\<close> and \<open>read<T>\<close> for the integer types, \<open>n = sizeof(T)\<close>.\<close>

definition append_int :: "bool \<Rightarrow> nat \<Rightarrow> 'a::len word \<Rightarrow> byte_buffer \<Rightarrow> bb_error + byte_buffer" where
  "append_int be n v b = bb_append (EndianConvert be (host_bytes be n v)) b"

definition put_int :: "bool \<Rightarrow> nat \<Rightarrow> nat \<Rightarrow> 'a::len word \<Rightarrow> byte_buffer \<Rightarrow> bb_error + byte_buffer" where
  "put_int be n pos v b = put_bytes pos (EndianConvert be (host_bytes be n v)) b"

definition read_int :: "bool \<Rightarrow> nat \<Rightarrow> byte_buffer \<Rightarrow> bb_error + ('a::len word \<times> byte_buffer)" where
  "read_int be n b =
     (case read_bytes n b of
        Inl e \<Rightarrow> Inl e
      | Inr (bs, b') \<Rightarrow> Inr (host_word be (EndianConvert be bs), b'))"

text \<open>\<open>operator>>(bool&)\<close>: the byte is read as a signed \<open>char\<close> and compared with 0.\<close>

definition read_bool :: "byte_buffer \<Rightarrow> bb_error + (bool \<times> byte_buffer)" where
  "read_bool b =
     (case read_bytes 1 b of
        Inl e \<Rightarrow> Inl e
      | Inr (bs, b') \<Rightarrow> Inr (sint (hd bs) > 0, b'))"

subsection \<open>Strings\<close>

text \<open>
  \<open>operator<<(std::string const&)\<close> writes the whole string and a NUL; \<open>operator<<(char const*)\<close>
  writes up to the NUL of the C string (\<open>None\<close> is the null pointer) and a NUL.
\<close>

definition append_string :: "string \<Rightarrow> byte_buffer \<Rightarrow> bb_error + byte_buffer" where
  "append_string s b =
     (case bb_append (map byte_of_char s) b of Inl e \<Rightarrow> Inl e | Inr b' \<Rightarrow> bb_append [0] b')"

definition append_cstr :: "string option \<Rightarrow> byte_buffer \<Rightarrow> bb_error + byte_buffer" where
  "append_cstr str b =
     (case bb_append (case str of None \<Rightarrow> [] | Some s \<Rightarrow> map byte_of_char (c_str s)) b of
        Inl e \<Rightarrow> Inl e
      | Inr b' \<Rightarrow> bb_append [0] b')"

text \<open>
  \<open>operator>>(std::string&)\<close> reads bytes until a NUL or the end of the buffer. Each iteration
  advances \<open>rpos\<close>, and the loop stops at \<open>size()\<close>.
\<close>

function read_string_loop :: "byte_buffer \<Rightarrow> string \<Rightarrow> bb_error + (string \<times> byte_buffer)" where
  "read_string_loop b acc =
     (if rpos b < length (storage b) then
        (case read_bytes 1 b of
           Inl e \<Rightarrow> Inl e
         | Inr (bs, b') \<Rightarrow>
             if hd bs = 0 then Inr (acc, b')
             else read_string_loop b' (acc @ [char_of_byte (hd bs)]))
      else Inr (acc, b))"
  by pat_completeness auto
termination
  by (relation "measure (\<lambda>(b, acc). length (storage b) - rpos b)")
     (auto simp: read_bytes_def split: sum.splits)

declare read_string_loop.simps [simp del]

definition read_string :: "byte_buffer \<Rightarrow> bb_error + (string \<times> byte_buffer)" where
  "read_string b = read_string_loop b []"

subsection \<open>Packed guids\<close>

text \<open>
  \<open>appendPackGUID\<close>: one mark byte whose bit \<open>i\<close> says that byte \<open>i\<close> of the guid is not
  zero, then the bytes that are not. The loop runs while \<open>guid != 0\<close>, shifting right by 8.
\<close>

function pack_loop :: "u64 \<Rightarrow> nat \<Rightarrow> u8 \<Rightarrow> u8 list \<Rightarrow> u8 \<times> u8 list" where
  "pack_loop guid i mark bs =
     (if guid = 0 then (mark, bs)
      else if guid AND 0xFF \<noteq> 0
      then pack_loop (drop_bit 8 guid) (Suc i) (mark OR push_bit i 1) (bs @ [ucast (guid AND 0xFF)])
      else pack_loop (drop_bit 8 guid) (Suc i) mark bs)"
  by pat_completeness auto
termination
proof (relation "measure (\<lambda>(guid, i, mark, bs). unat guid)")
  have "guid \<noteq> 0 \<Longrightarrow> unat (drop_bit 8 guid) < unat guid" for guid :: u64
    by (subst unat_drop_bit_eq) (simp add: drop_bit_eq_div unat_gt_0)
  then show "guid \<noteq> 0 \<Longrightarrow> guid AND 0xFF \<noteq> 0 \<Longrightarrow>
      ((drop_bit 8 guid, Suc i, mark OR push_bit i 1, bs @ [ucast (guid AND 0xFF)]), (guid, i, mark, bs))
        \<in> measure (\<lambda>(guid, i, mark, bs). unat guid)"
    and "guid \<noteq> 0 \<Longrightarrow> \<not> guid AND 0xFF \<noteq> 0 \<Longrightarrow>
      ((drop_bit 8 guid, Suc i, mark, bs), (guid, i, mark, bs))
        \<in> measure (\<lambda>(guid, i, mark, bs). unat guid)"
    for guid :: u64 and i :: nat and mark :: u8 and bs :: "u8 list"
    by simp_all
qed simp

declare pack_loop.simps [simp del]

definition appendPackGUID :: "u64 \<Rightarrow> byte_buffer \<Rightarrow> bb_error + byte_buffer" where
  "appendPackGUID guid b = (let (mark, bs) = pack_loop guid 0 0 [] in bb_append (mark # bs) b)"

text \<open>\<open>readPackGUID\<close>: for \<open>i = 0 .. 7\<close>, a byte is read where the mark has bit \<open>i\<close>.\<close>

fun unpack_loop :: "nat list \<Rightarrow> u8 \<Rightarrow> u64 \<Rightarrow> byte_buffer \<Rightarrow> bb_error + (u64 \<times> byte_buffer)" where
  "unpack_loop [] mark guid b = Inr (guid, b)"
| "unpack_loop (i # is) mark guid b =
     (if mark AND push_bit i 1 \<noteq> 0 then
        (case read_int False 1 b of
           Inl e \<Rightarrow> Inl e
         | Inr (byte :: u8, b') \<Rightarrow>
             unpack_loop is mark (guid OR push_bit (i * 8) (ucast byte)) b')
      else unpack_loop is mark guid b)"

definition readPackGUID :: "byte_buffer \<Rightarrow> bb_error + (u64 \<times> byte_buffer)" where
  "readPackGUID b =
     (case read_int False 1 b of
        Inl e \<Rightarrow> Inl e
      | Inr (mark :: u8, b') \<Rightarrow> unpack_loop [0..<8] mark 0 b')"

section \<open>The wire format\<close>

text \<open>
  What each operator puts on the wire. A buffer that is written from its end (\<open>wpos = size()\<close>)
  and stays within the 10,000,000 bytes of the \<open>ASSERT\<close> has \<open>room\<close>.
\<close>

definition room :: "byte_buffer \<Rightarrow> nat \<Rightarrow> bool" where
  "room b n \<longleftrightarrow> wpos b = length (storage b) \<and> length (storage b) + n \<le> 10000000"

definition appended :: "u8 list \<Rightarrow> byte_buffer \<Rightarrow> byte_buffer" where
  "appended bs b = b\<lparr>storage := storage b @ bs, wpos := wpos b + length bs\<rparr>"

definition ahead :: "byte_buffer \<Rightarrow> u8 list \<Rightarrow> bool" where
  "ahead b bs \<longleftrightarrow> rpos b + length bs \<le> length (storage b)
      \<and> take (length bs) (drop (rpos b) (storage b)) = bs \<and> length (storage b) < 2 ^ 63"

definition advance :: "nat \<Rightarrow> byte_buffer \<Rightarrow> byte_buffer" where
  "advance n b = b\<lparr>rpos := rpos b + n\<rparr>"

locale packet_writer =
  fixes wr :: "'a \<Rightarrow> byte_buffer \<Rightarrow> bb_error + byte_buffer"
    and enc :: "'a \<Rightarrow> u8 list"
  assumes wr_enc: "room b (length (enc x)) \<Longrightarrow> wr x b = Inr (appended (enc x) b)"

locale packet_reader =
  fixes dec :: "byte_buffer \<Rightarrow> bb_error + ('a \<times> byte_buffer)"
    and enc :: "'a \<Rightarrow> u8 list"
    and ok :: "'a \<Rightarrow> bool"
  assumes dec_enc: "ok x \<Longrightarrow> ahead b (enc x) \<Longrightarrow> dec b = Inr (x, advance (length (enc x)) b)"

locale wire_type = packet_writer wr enc + packet_reader dec enc ok
  for wr :: "'a \<Rightarrow> byte_buffer \<Rightarrow> bb_error + byte_buffer"
    and enc :: "'a \<Rightarrow> u8 list"
    and dec :: "byte_buffer \<Rightarrow> bb_error + ('a \<times> byte_buffer)"
    and ok :: "'a \<Rightarrow> bool"

lemma advance_0 [simp]: "advance 0 b = b"
  by (simp add: advance_def)

lemma advance_advance [simp]: "advance m (advance n b) = advance (n + m) b"
  by (simp add: advance_def add.assoc)

lemma ahead_append: "ahead b (xs @ ys) \<longleftrightarrow> ahead b xs \<and> ahead (advance (length xs) b) ys"
proof -
  have "take (length xs + length ys) (drop (rpos b) (storage b))
      = take (length xs) (drop (rpos b) (storage b))
        @ take (length ys) (drop (rpos b + length xs) (storage b))"
    by (simp add: take_add add.commute)
  then show ?thesis
    by (auto simp: ahead_def advance_def append_eq_append_conv)
qed

lemma read_bytes_ahead: "ahead b bs \<Longrightarrow> read_bytes (length bs) b = Inr (bs, advance (length bs) b)"
  by (simp add: ahead_def read_bytes_def read_at_def sz_add_def advance_def)

lemma append_room: "room b (length src) \<Longrightarrow> bb_append src b = Inr (appended src b)"
  by (cases src) (auto simp: room_def bb_append_def appended_def Let_def)

lemma room_appended: "room b (length xs + n) \<Longrightarrow> room (appended xs b) n"
  by (auto simp: room_def appended_def)

lemma room_mono: "room b n \<Longrightarrow> m \<le> n \<Longrightarrow> room b m"
  by (auto simp: room_def)

lemma appended_appended [simp]: "appended ys (appended xs b) = appended (xs @ ys) b"
  by (simp add: appended_def)

context wire_type
begin

lemma write_read:
  assumes "ok x" and "room b (length (enc x))" and "wr x b = Inr b'" and "rpos b = length (storage b)"
  shows "dec b' = Inr (x, advance (length (enc x)) b')"
proof -
  have "b' = appended (enc x) b" using assms(3) wr_enc[OF assms(2)] by simp
  then have "ahead b' (enc x)" using assms(2,4) by (auto simp: ahead_def appended_def room_def)
  then show ?thesis using assms(1) by (rule dec_enc[rotated])
qed

end

context packet_reader
begin

lemma enc_prefix_free:
  assumes "ok x" and "ok y" and "enc x @ r = enc y @ s" and "length (enc x @ r) < 2 ^ 63"
  shows "x = y"
proof -
  let ?b = "\<lparr>storage = enc x @ r, rpos = 0, wpos = 0\<rparr>"
  have "ahead ?b (enc x)" using assms(4) by (simp add: ahead_def)
  moreover have "ahead ?b (enc y)"
    unfolding ahead_def assms(3) using assms(4)[unfolded assms(3)] by simp
  ultimately have "Inr (x, advance (length (enc x)) ?b) = (Inr (y, advance (length (enc y)) ?b) :: bb_error + _)"
    using dec_enc[OF assms(1), of ?b] dec_enc[OF assms(2), of ?b] by simp
  then show ?thesis by simp
qed

end

section \<open>The operators implement it\<close>

definition enc_u8 :: "u8 \<Rightarrow> u8 list" where "enc_u8 v = le_bytes 1 v"
definition enc_u16 :: "u16 \<Rightarrow> u8 list" where "enc_u16 v = le_bytes 2 v"
definition enc_u32 :: "u32 \<Rightarrow> u8 list" where "enc_u32 v = le_bytes 4 v"
definition enc_u64 :: "u64 \<Rightarrow> u8 list" where "enc_u64 v = le_bytes 8 v"

definition enc_string :: "string \<Rightarrow> u8 list" where
  "enc_string s = map byte_of_char s @ [0]"

definition enc_cstr :: "string option \<Rightarrow> u8 list" where
  "enc_cstr str = enc_string (case str of None \<Rightarrow> [] | Some s \<Rightarrow> c_str s)"

fun pack_mark :: "nat \<Rightarrow> u8 list \<Rightarrow> u8" where
  "pack_mark i [] = 0"
| "pack_mark i (b # bs) = (if b \<noteq> 0 then push_bit i 1 else 0) OR pack_mark (Suc i) bs"

definition enc_packguid :: "u64 \<Rightarrow> u8 list" where
  "enc_packguid guid = pack_mark 0 (le_bytes 8 guid) # filter (\<lambda>b. b \<noteq> 0) (le_bytes 8 guid)"

lemmas enc_ints = enc_u8_def enc_u16_def enc_u32_def enc_u64_def

subsection \<open>Integers\<close>

lemma append_int_room: "room b n \<Longrightarrow> append_int be n v b = Inr (appended (le_bytes n v) b)"
  by (simp add: append_int_def wire_bytes append_room)

lemma host_word_wire:
  "LENGTH('a) \<le> 8 * n \<Longrightarrow> host_word be (EndianConvert be (le_bytes n (v :: 'a::len word))) = v"
  by (simp add: host_word_def EndianConvert_def convert_bytes_rev le_word_le_bytes_full)

lemma read_int_ahead:
  assumes "LENGTH('a) \<le> 8 * n" and "ahead b (le_bytes n (v :: 'a::len word))"
  shows "read_int be n b = Inr (v, advance n b)"
  using read_bytes_ahead[OF assms(2)] host_word_wire[OF assms(1), of be v]
  by (simp add: read_int_def)

interpretation wu8: wire_type "append_int be 1" enc_u8 "read_int be 1" "\<lambda>_. True" for be
  by unfold_locales (simp_all add: enc_ints append_int_room read_int_ahead)

interpretation wu16: wire_type "append_int be 2" enc_u16 "read_int be 2" "\<lambda>_. True" for be
  by unfold_locales (simp_all add: enc_ints append_int_room read_int_ahead)

interpretation wu32: wire_type "append_int be 4" enc_u32 "read_int be 4" "\<lambda>_. True" for be
  by unfold_locales (simp_all add: enc_ints append_int_room read_int_ahead)

interpretation wu64: wire_type "append_int be 8" enc_u64 "read_int be 8" "\<lambda>_. True" for be
  by unfold_locales (simp_all add: enc_ints append_int_room read_int_ahead)

subsection \<open>Strings\<close>

lemma append_string_room:
  assumes "room b (length (enc_string s))"
  shows "append_string s b = Inr (appended (enc_string s) b)"
proof -
  let ?m = "map byte_of_char s"
  have r: "room b (length ?m + 1)" using assms by (simp add: enc_string_def)
  then have "room b (length ?m)" by (rule room_mono) simp
  moreover have "room (appended ?m b) (length [0 :: u8])"
    using room_appended[of b ?m 1] r by simp
  ultimately show ?thesis
    by (simp add: append_string_def append_room enc_string_def)
qed

lemma append_cstr_room:
  "room b (length (enc_cstr s)) \<Longrightarrow> append_cstr s b = Inr (appended (enc_cstr s) b)"
  using append_string_room[of b "case s of None \<Rightarrow> [] | Some s \<Rightarrow> c_str s"]
  by (cases s) (simp_all add: append_cstr_def append_string_def enc_cstr_def)

lemma byte_of_char_eq_0 [simp]: "byte_of_char c = 0 \<longleftrightarrow> c = CHR 0x00"
  using byte_of_char_inject[of c "CHR 0x00"] by (simp add: byte_of_char_def[of "CHR 0x00"])

lemma read_string_loop_ahead:
  "no_nul s \<Longrightarrow> ahead b (enc_string s) \<Longrightarrow>
   read_string_loop b acc = Inr (acc @ s, advance (length s + 1) b)"
proof (induction s arbitrary: b acc)
  case Nil
  then have a: "ahead b [0]" by (simp add: enc_string_def)
  then show ?case
    using read_bytes_ahead[OF a]
    by (simp add: read_string_loop.simps[of b] ahead_def)
next
  case (Cons c s)
  have a: "ahead b ([byte_of_char c] @ enc_string s)" using Cons.prems by (simp add: enc_string_def)
  then have one: "read_bytes 1 b = Inr ([byte_of_char c], advance 1 b)"
    and rest: "ahead (advance 1 b) (enc_string s)"
    using read_bytes_ahead[of b "[byte_of_char c]"] by (auto simp: ahead_append simp del: append_Cons)
  from a have "rpos b < length (storage b)" by (simp add: ahead_def)
  moreover have "no_nul s" "c \<noteq> CHR 0x00" using Cons.prems by (auto simp: no_nul_def)
  ultimately show ?case
    using Cons.IH[OF _ rest, of "acc @ [c]"] by (simp add: read_string_loop.simps[of b] one[simplified])
qed

interpretation wstr: wire_type append_string enc_string read_string no_nul
  by unfold_locales
    (simp_all add: append_string_room read_string_def read_string_loop_ahead, simp add: enc_string_def)

interpretation wcstr: packet_writer append_cstr enc_cstr
  by unfold_locales (rule append_cstr_room)

subsection \<open>Packed guids\<close>

lemma le_bytes_zero [simp]: "le_bytes n 0 = replicate n 0"
  by (induction n) auto

lemma and_255: "(g :: u64) AND 0xFF = take_bit 8 g"
  by (simp add: take_bit_eq_mask mask_eq_exp_minus_1)

lemma ucast_and_255 [simp]: "(ucast (g AND 0xFF) :: u8) = ucast (g :: u64)"
  unfolding and_255 by (rule bit_word_eqI) (auto simp: bit_simps)

lemma and_255_eq_0: "(g :: u64) AND 0xFF = 0 \<longleftrightarrow> (ucast g :: u8) = 0"
proof -
  have "g AND 0xFF = ucast (ucast g :: u8)"
    unfolding and_255 by (rule bit_word_eqI) (auto simp: bit_simps)
  then show ?thesis by (metis ucast_0 ucast_and_255)
qed

lemma pack_mark_replicate [simp]: "pack_mark i (replicate n 0) = 0"
  by (induction n arbitrary: i) auto

lemma pack_loop_spec:
  "take_bit (8 * n) g = g \<Longrightarrow>
   pack_loop g i m acc = (m OR pack_mark i (le_bytes n g), acc @ filter (\<lambda>b. b \<noteq> 0) (le_bytes n g))"
proof (induction n arbitrary: g i m acc)
  case 0
  then show ?case by (simp add: pack_loop.simps[of 0])
next
  case (Suc n)
  have "take_bit (8 * n) (drop_bit 8 g) = drop_bit 8 (take_bit (8 * Suc n) g)"
    by (simp add: drop_bit_take_bit)
  then have IH: "take_bit (8 * n) (drop_bit 8 g) = drop_bit 8 g" using Suc.prems by simp
  show ?case
  proof (cases "g = 0")
    case True
    then show ?thesis by (simp add: pack_loop.simps[of 0])
  next
    case False
    then show ?thesis
      by (simp add: pack_loop.simps[of g] Suc.IH[OF IH] and_255_eq_0 or.assoc)
  qed
qed

lemma pack_loop_full: "pack_loop g 0 0 [] = (pack_mark 0 (le_bytes 8 g), filter (\<lambda>b. b \<noteq> 0) (le_bytes 8 g))"
  using pack_loop_spec[of 8 g 0 0 "[]"] by (simp add: take_bit_word_eq_self)

lemma bit_pack_mark:
  "bit (pack_mark i bs) j \<longleftrightarrow> j < 8 \<and> i \<le> j \<and> j < i + length bs \<and> bs ! (j - i) \<noteq> 0"
proof (induction bs arbitrary: i)
  case Nil
  then show ?case by simp
next
  case (Cons b bs)
  have "bit (if b \<noteq> 0 then push_bit i 1 else 0 :: u8) j \<longleftrightarrow> b \<noteq> 0 \<and> j = i \<and> j < 8"
    by (auto simp: bit_simps)
  then show ?case
    by (auto simp: bit_or_iff Cons.IH Suc_le_eq nth_Cons' less_Suc_eq)
qed

lemma and_push_bit_1: "j < 8 \<Longrightarrow> (m :: u8) AND push_bit j 1 \<noteq> 0 \<longleftrightarrow> bit m j"
  by (simp add: bit_iff_and_push_bit_not_eq_0 push_bit_of_1)

lemma unpack_loop_ahead:
  assumes "i + length bs \<le> 8"
    and "\<And>j. j < length bs \<Longrightarrow> bit m (i + j) \<longleftrightarrow> bs ! j \<noteq> 0"
    and "ahead b (filter (\<lambda>b. b \<noteq> 0) bs)"
  shows "unpack_loop [i..<i + length bs] m g b
      = Inr (g OR push_bit (i * 8) (le_word bs), advance (length (filter (\<lambda>b. b \<noteq> 0) bs)) b)"
  using assms
proof (induction bs arbitrary: i g b)
  case Nil
  then show ?case by simp
next
  case (Cons x bs)
  have upt: "[i..<i + length (x # bs)] = i # [Suc i..<Suc i + length bs]"
    by (simp add: upt_conv_Cons del: upt_Suc)
  have len: "Suc i + length bs \<le> 8" using Cons.prems(1) by simp
  have bits: "bit m (Suc i + j) \<longleftrightarrow> bs ! j \<noteq> 0" if "j < length bs" for j
    using Cons.prems(2)[of "Suc j"] that by simp
  have bit_i: "m AND push_bit i 1 \<noteq> 0 \<longleftrightarrow> x \<noteq> 0"
    using Cons.prems(1) Cons.prems(2)[of 0] and_push_bit_1[of i m] by simp
  have word: "push_bit (i * 8) (le_word (x # bs))
      = push_bit (i * 8) (ucast x) OR push_bit (Suc i * 8) (le_word bs :: u64)"
    by (simp add: push_bit_or add.commute)
  show ?case
  proof (cases "x = 0")
    case True
    with Cons.prems(3) have a: "ahead b (filter (\<lambda>b. b \<noteq> 0) bs)" by simp
    show ?thesis
      using True bit_i Cons.IH[OF len bits a, of g] unfolding upt word by simp
  next
    case False
    with Cons.prems(3) have a: "ahead b ([x] @ filter (\<lambda>b. b \<noteq> 0) bs)" by simp
    then have "ahead b (enc_u8 x)" and rest: "ahead (advance 1 b) (filter (\<lambda>b. b \<noteq> 0) bs)"
      by (simp_all add: ahead_append enc_u8_def del: append_Cons)
    then have rd: "read_int False 1 b = Inr (x, advance 1 b)"
      using wu8.dec_enc[where x = x and b = b and be = False] by (simp add: enc_u8_def)
    show ?thesis
      using False bit_i Cons.IH[OF len bits rest, of "g OR push_bit (i * 8) (ucast x)"] rd
      unfolding upt word by (simp add: or.assoc)
  qed
qed

lemma readPackGUID_ahead:
  assumes "ahead b (enc_packguid g)"
  shows "readPackGUID b = Inr (g, advance (length (enc_packguid g)) b)"
proof -
  let ?m = "pack_mark 0 (le_bytes 8 g)" and ?f = "filter (\<lambda>b. b \<noteq> 0) (le_bytes 8 g)"
  have a: "ahead b ([?m] @ ?f)" using assms by (simp add: enc_packguid_def)
  then have "ahead b (enc_u8 ?m)" and rest: "ahead (advance 1 b) ?f"
    by (simp_all add: ahead_append enc_u8_def del: append_Cons)
  then have rd: "read_int False 1 b = Inr (?m, advance 1 b)"
    using wu8.dec_enc[where x = ?m and b = b and be = False] by (simp add: enc_u8_def)
  have "unpack_loop [0..<0 + length (le_bytes 8 g)] ?m 0 (advance 1 b)
      = Inr (0 OR push_bit (0 * 8) (le_word (le_bytes 8 g)), advance (length ?f) (advance 1 b))"
    by (rule unpack_loop_ahead) (use rest in \<open>simp_all add: bit_pack_mark\<close>)
  then show ?thesis
    by (simp add: readPackGUID_def rd[simplified] enc_packguid_def le_word_le_bytes_full)
qed

interpretation wguid: wire_type appendPackGUID enc_packguid readPackGUID "\<lambda>_. True"
  by unfold_locales
    (simp_all add: appendPackGUID_def pack_loop_full enc_packguid_def[symmetric] append_room
      readPackGUID_ahead)

subsection \<open>Counted sequences\<close>

text \<open>
  \<open>operator<<\<close> and \<open>operator>>\<close> on \<open>std::vector\<close> and \<open>std::list\<close>: a \<open>uint32\<close> count, then the
  elements; the reader decrements the count it has read.
\<close>

fun write_all :: "('a \<Rightarrow> byte_buffer \<Rightarrow> bb_error + byte_buffer) \<Rightarrow> 'a list \<Rightarrow> byte_buffer
    \<Rightarrow> bb_error + byte_buffer" where
  "write_all wr [] b = Inr b"
| "write_all wr (x # xs) b = (case wr x b of Inl e \<Rightarrow> Inl e | Inr b' \<Rightarrow> write_all wr xs b')"

definition write_vector :: "('a \<Rightarrow> byte_buffer \<Rightarrow> bb_error + byte_buffer) \<Rightarrow> 'a list \<Rightarrow> byte_buffer
    \<Rightarrow> bb_error + byte_buffer" where
  "write_vector wr xs b =
     (case append_int False 4 (word_of_nat (length xs) :: u32) b of
        Inl e \<Rightarrow> Inl e
      | Inr b' \<Rightarrow> write_all wr xs b')"

fun read_n :: "(byte_buffer \<Rightarrow> bb_error + ('a \<times> byte_buffer)) \<Rightarrow> nat \<Rightarrow> 'a list \<Rightarrow> byte_buffer
    \<Rightarrow> bb_error + ('a list \<times> byte_buffer)" where
  "read_n dec 0 acc b = Inr (acc, b)"
| "read_n dec (Suc n) acc b =
     (case dec b of Inl e \<Rightarrow> Inl e | Inr (x, b') \<Rightarrow> read_n dec n (acc @ [x]) b')"

definition read_vector :: "(byte_buffer \<Rightarrow> bb_error + ('a \<times> byte_buffer)) \<Rightarrow> byte_buffer
    \<Rightarrow> bb_error + ('a list \<times> byte_buffer)" where
  "read_vector dec b =
     (case read_int False 4 b of
        Inl e \<Rightarrow> Inl e
      | Inr (vsize :: u32, b') \<Rightarrow> read_n dec (unat vsize) [] b')"

definition enc_vector :: "('a \<Rightarrow> u8 list) \<Rightarrow> 'a list \<Rightarrow> u8 list" where
  "enc_vector enc xs = enc_u32 (word_of_nat (length xs)) @ concat (map enc xs)"

context packet_writer
begin

lemma write_all_room:
  "room b (length (concat (map enc xs))) \<Longrightarrow> write_all wr xs b = Inr (appended (concat (map enc xs)) b)"
proof (induction xs arbitrary: b)
  case Nil
  then show ?case by (simp add: appended_def)
next
  case (Cons x xs)
  then have "room b (length (enc x) + length (concat (map enc xs)))" by simp
  then have "room b (length (enc x))" and "room (appended (enc x) b) (length (concat (map enc xs)))"
    by (auto intro: room_mono room_appended)
  with Cons.IH show ?case by (simp add: wr_enc)
qed

end

context packet_reader
begin

lemma read_n_ahead:
  "list_all ok xs \<Longrightarrow> ahead b (concat (map enc xs)) \<Longrightarrow>
   read_n dec (length xs) acc b = Inr (acc @ xs, advance (length (concat (map enc xs))) b)"
proof (induction xs arbitrary: b acc)
  case Nil
  then show ?case by simp
next
  case (Cons x xs)
  then have "ahead b (enc x)" and "ahead (advance (length (enc x)) b) (concat (map enc xs))"
    by (simp_all add: ahead_append)
  with Cons show ?case by (simp add: dec_enc[of x b])
qed

end

locale vector_type = elem: wire_type wr enc dec ok
  for wr :: "'a \<Rightarrow> byte_buffer \<Rightarrow> bb_error + byte_buffer"
    and enc :: "'a \<Rightarrow> u8 list"
    and dec :: "byte_buffer \<Rightarrow> bb_error + ('a \<times> byte_buffer)"
    and ok :: "'a \<Rightarrow> bool"

sublocale vector_type \<subseteq> vec: wire_type "write_vector wr" "enc_vector enc" "read_vector dec"
    "\<lambda>xs. list_all ok xs \<and> length xs < 2 ^ 32"
proof unfold_locales
  fix b and xs :: "'a list"
  assume "room b (length (enc_vector enc xs))"
  then have r: "room b (length (enc_u32 (word_of_nat (length xs))) + length (concat (map enc xs)))"
    by (simp add: enc_vector_def)
  then have "room b 4" by (rule room_mono) (simp add: enc_u32_def)
  then show "write_vector wr xs b = Inr (appended (enc_vector enc xs) b)"
    using elem.write_all_room[OF room_appended[OF r]]
    by (simp add: write_vector_def append_int_room enc_vector_def enc_u32_def)
next
  fix b and xs :: "'a list"
  assume ok: "list_all ok xs \<and> length xs < 2 ^ 32" and a: "ahead b (enc_vector enc xs)"
  then have "unat (word_of_nat (length xs) :: u32) = length xs"
    by (simp add: unat_of_nat)
  moreover have "ahead b (enc_u32 (word_of_nat (length xs)))"
    and "ahead (advance 4 b) (concat (map enc xs))"
    using a by (simp_all add: enc_vector_def ahead_append enc_u32_def)
  ultimately show "read_vector dec b = Inr (xs, advance (length (enc_vector enc xs)) b)"
    using ok elem.read_n_ahead[of xs "advance 4 b" "[]"] wu32.dec_enc[where x = "word_of_nat (length xs)" and b = b and be = False]
    by (simp add: read_vector_def enc_vector_def enc_u32_def)
qed

interpretation vu32: vector_type "append_int False 4" enc_u32 "read_int False 4" "\<lambda>_. True"
  by unfold_locales

interpretation vstr: vector_type append_string enc_string read_string no_nul
  by unfold_locales

section \<open>Properties\<close>

lemma ahead_c_str: "ahead b (enc_string s) \<Longrightarrow> ahead b (enc_string (c_str s))"
proof (cases "no_nul s")
  case False
  let ?P = "\<lambda>c. c \<noteq> CHR 0x00"
  obtain c t where d: "dropWhile ?P s = c # t"
    using False by (cases "dropWhile ?P s") (auto simp: no_nul_def dropWhile_eq_Nil_conv)
  then have "\<not> ?P c" by (rule dropWhile_eq_Cons_conv[THEN iffD1, THEN conjunct2])
  then have "s = c_str s @ CHR 0x00 # t"
    using takeWhile_dropWhile_id[of ?P s] d by (simp add: c_str_def)
  then have "map byte_of_char s = map byte_of_char (c_str s) @ 0 # map byte_of_char t"
    by (metis byte_of_char_eq_0 list.simps(9) map_append)
  then have "enc_string s = enc_string (c_str s) @ map byte_of_char t @ [0]"
    by (simp add: enc_string_def)
  moreover assume "ahead b (enc_string s)"
  ultimately show ?thesis by (simp add: ahead_append)
qed simp

text \<open>C25: a guid written by \<open>appendPackGUID\<close> into an empty buffer takes between one and nine
  bytes and is exactly what \<open>readPackGUID\<close> reads back, with the whole packet consumed.\<close>

theorem packguid_roundtrip:
  "\<exists>b. appendPackGUID g new_buffer = Inr b \<and> 1 \<le> wpos b \<and> wpos b \<le> 9
     \<and> readPackGUID b = Inr (g, b\<lparr>rpos := wpos b\<rparr>)"
proof -
  let ?e = "enc_packguid g"
  have len: "1 \<le> length ?e \<and> length ?e \<le> 9"
    using length_filter_le[of "\<lambda>b. b \<noteq> 0" "le_bytes 8 g"] by (simp add: enc_packguid_def)
  then have r: "room new_buffer (length ?e)" by (simp add: room_def new_buffer_def)
  have w: "appendPackGUID g new_buffer = Inr (appended ?e new_buffer)" using r by (rule wguid.wr_enc)
  have "readPackGUID (appended ?e new_buffer) = Inr (g, advance (length ?e) (appended ?e new_buffer))"
    by (rule wguid.write_read[OF _ r w]) (simp_all add: new_buffer_def)
  then show ?thesis
    using w len by (simp add: appended_def advance_def new_buffer_def)
qed

text \<open>a string written by \<open>operator<<\<close> is read back by \<open>operator>>\<close> up to its first NUL,
  so a string without NUL bytes round-trips and one with them is cut there.\<close>

theorem string_roundtrip:
  assumes "length s < 10000000"
  shows "\<exists>b. append_string s new_buffer = Inr b
      \<and> read_string b = Inr (c_str s, b\<lparr>rpos := length (c_str s) + 1\<rparr>)"
proof -
  have r: "room new_buffer (length (enc_string s))"
    using assms by (simp add: room_def new_buffer_def enc_string_def)
  let ?b = "appended (enc_string s) new_buffer"
  have "ahead ?b (enc_string s)"
    using assms by (simp add: ahead_def appended_def new_buffer_def enc_string_def)
  then have "read_string ?b = Inr (c_str s, advance (length (enc_string (c_str s))) ?b)"
    by (intro wstr.dec_enc ahead_c_str no_nul_c_str)
  then show ?thesis
    using wstr.wr_enc[OF r] by (simp add: advance_def appended_def new_buffer_def enc_string_def)
qed

theorem string_roundtrip_witness:
  "\<exists>b. append_string (''ab'' @ [CHR 0x00] @ ''c'') new_buffer = Inr b
      \<and> read_string b = Inr (''ab'', b\<lparr>rpos := 3\<rparr>)"
  using string_roundtrip[of "''ab'' @ [CHR 0x00] @ ''c''"] by (simp add: c_str_def numeral_3_eq_3)

text \<open>a read never copies past the end of the storage as long as the position and the
  length do not wrap \<open>size_t\<close>: it either throws, or returns exactly the requested bytes and
  leaves the cursor inside the buffer.\<close>

theorem read_bytes_safe:
  assumes "rpos b + n < 2 ^ 64"
  shows "read_bytes n b =
    (if rpos b + n \<le> length (storage b)
     then Inr (take n (drop (rpos b) (storage b)), b\<lparr>rpos := rpos b + n\<rparr>)
     else Inl (ByteBufferException False (rpos b) n (length (storage b))))"
  using assms by (simp add: read_bytes_def read_at_def sz_add_def)

theorem read_bytes_safe_witness:
  "read_bytes 2 \<lparr>storage = [1, 2, 3], rpos = 2, wpos = 3\<rparr> = Inl (ByteBufferException False 2 2 3)"
  using read_bytes_safe[of "\<lparr>storage = [1, 2, 3], rpos = 2, wpos = 3\<rparr>" 2] by simp

text \<open>the check of \<open>read_skip\<close> adds in \<open>size_t\<close>, so every skip of \<open>2 ^ 64 - k\<close> with
  \<open>k\<close> not above the read position is accepted and moves the cursor back by \<open>k\<close>.\<close>

theorem read_skip_wraps:
  assumes "0 < k" "k \<le> rpos b" "rpos b \<le> length (storage b)" "length (storage b) < 2 ^ 63"
  shows "read_skip (2 ^ 64 - k) b = Inr (b\<lparr>rpos := rpos b - k\<rparr>)"
proof -
  obtain d where d: "rpos b = k + d" using assms(2) le_Suc_ex by blast
  have "k + d + (2 ^ 64 - k) = d + 2 ^ 64" using assms by simp
  then have "sz_add (k + d) (2 ^ 64 - k) = (d + 2 ^ 64) mod 2 ^ 64"
    unfolding sz_add_def by (rule arg_cong)
  also have "\<dots> = d" using assms d by simp
  finally show ?thesis using assms d by (simp add: read_skip_def)
qed

theorem read_skip_wraps_witness:
  "read_skip (2 ^ 64 - 2) \<lparr>storage = [1, 2, 3], rpos = 2, wpos = 3\<rparr>
     = Inr \<lparr>storage = [1, 2, 3], rpos = 0, wpos = 3\<rparr>"
  using read_skip_wraps[of 2 "\<lparr>storage = [1, 2, 3], rpos = 2, wpos = 3\<rparr>"] by simp

section \<open>Reading a received packet, value by value\<close>

text \<open>\<open>packet >> x\<close>, then the rest of the handler.\<close>

definition rd :: "(byte_buffer \<Rightarrow> bb_error + ('a \<times> byte_buffer)) \<Rightarrow> ('a \<Rightarrow> byte_buffer \<Rightarrow> bb_error + 'b)
    \<Rightarrow> byte_buffer \<Rightarrow> bb_error + 'b" where
  "rd r k b = (case r b of Inl e \<Rightarrow> Inl e | Inr (x, b') \<Rightarrow> k x b')"

lemma rd_Inr: "rd r k b = Inr y \<longleftrightarrow> (\<exists>x b'. r b = Inr (x, b') \<and> k x b' = Inr y)"
  by (auto simp: rd_def split: sum.splits)

lemma rd_wire:
  assumes "ahead b (e @ r)" "ahead b e \<Longrightarrow> dec b = Inr (x, advance (length e) b)"
  shows "rd dec k b = k x (advance (length e) b)" "ahead (advance (length e) b) r"
  using assms by (simp_all add: rd_def ahead_append)

lemma length_encs:
  "length (enc_u8 x) = 1" "length (enc_u32 y) = 4" "length (enc_u64 z) = 8" "length (enc_string s) = length s + 1"
  by (simp_all add: enc_ints enc_string_def length_le_bytes)

lemma rd_u32:
  assumes "ahead b (enc_u32 x @ r)"
  shows "rd (read_int False 4) k b = k x (advance 4 b)" "ahead (advance 4 b) r"
  by (rule rd_wire[where e = "enc_u32 x" and x = x, unfolded length_encs, OF assms];
      rule wu32.dec_enc[OF TrueI, unfolded length_encs]; assumption)+

lemma rd_u8:
  assumes "ahead b (enc_u8 x @ r)"
  shows "rd (read_int False 1) k b = k x (advance 1 b)" "ahead (advance 1 b) r"
  by (rule rd_wire[where e = "enc_u8 x" and x = x, unfolded length_encs, OF assms];
      rule wu8.dec_enc[OF TrueI, unfolded length_encs]; assumption)+

lemma rd_u64:
  assumes "ahead b (enc_u64 x @ r)"
  shows "rd (read_int False 8) k b = k x (advance 8 b)" "ahead (advance 8 b) r"
  by (rule rd_wire[where e = "enc_u64 x" and x = x, unfolded length_encs, OF assms];
      rule wu64.dec_enc[OF TrueI, unfolded length_encs]; assumption)+

lemma rd_string:
  assumes "ahead b (enc_string x @ r)" "no_nul x"
  shows "rd read_string k b = k x (advance (length x + 1) b)" "ahead (advance (length x + 1) b) r"
  by (rule rd_wire[where e = "enc_string x" and x = x, unfolded length_encs, OF assms(1)];
      rule wstr.dec_enc[OF assms(2), unfolded length_encs]; assumption)+

end
