(* ===== verification/TOTP.thy ===== *)
theory TOTP
  imports ByteBuffer
begin

text \<open>
  The time-based one-time password of the login server (src/src/server/authserver/TOTP.cpp):
  the base-32 decoder of the account's key and the token computation. HMAC-SHA1 is a function of
  the third-party library, a parameter that maps a key and a message to the digest bytes.
\<close>

section \<open>The code\<close>

definition b32_skip :: "char \<Rightarrow> bool" where
  "b32_skip c \<longleftrightarrow> c \<in> {CHR '' '', CHR 0x09, CHR 0x0D, CHR 0x0A, CHR ''-''}"

definition b32_fix :: "char \<Rightarrow> char" where
  "b32_fix c = (if c = CHR ''0'' then CHR ''O'' else if c = CHR ''1'' then CHR ''L''
     else if c = CHR ''8'' then CHR ''B'' else c)"

definition b32_digit :: "char \<Rightarrow> u32 option" where
  "b32_digit c0 =
     (let c = of_char (b32_fix c0) :: nat in
      if (65 \<le> c \<and> c \<le> 90) \<or> (97 \<le> c \<and> c \<le> 122) then Some ((of_nat c AND 0x1F) - 1)
      else if 50 \<le> c \<and> c \<le> 55 then Some (of_nat c - (50 - 26))
      else None)"

text \<open>
  The loop of \<open>base32_decode\<close> on the 32-bit \<open>buffer\<close>; \<open>None\<close> stands for a write outside of
  \<open>result\<close>. The value is the returned \<open>int\<close> and the contents of \<open>result\<close>.
\<close>

fun b32_loop :: "u32 \<Rightarrow> nat \<Rightarrow> nat \<Rightarrow> nat \<Rightarrow> u8 list \<Rightarrow> string \<Rightarrow> (int \<times> u8 list) option" where
  "b32_loop buffer bitsLeft cnt bufSize result s =
     (case s of
        c # s' \<Rightarrow>
          if cnt < bufSize then
            if b32_skip c then b32_loop buffer bitsLeft cnt bufSize result s'
            else (case b32_digit c of
                None \<Rightarrow> Some (- 1, result)
              | Some d \<Rightarrow>
                  let buffer' = push_bit 5 buffer OR d; bits' = bitsLeft + 5
                  in if 8 \<le> bits'
                     then if cnt < length result
                       then b32_loop buffer' (bits' - 8) (Suc cnt) bufSize
                              (result[cnt := ucast (drop_bit (bits' - 8) buffer')]) s'
                       else None
                     else b32_loop buffer' bits' cnt bufSize result s')
          else Some (int cnt, result)
      | [] \<Rightarrow>
          if cnt < bufSize
          then if cnt < length result then Some (int cnt, result[cnt := 0]) else None
          else Some (int cnt, result))"

declare b32_loop.simps [simp del]

definition base32_decode :: "string \<Rightarrow> u8 list \<Rightarrow> nat \<Rightarrow> (int \<times> u8 list) option" where
  "base32_decode encoded result bufSize = b32_loop 0 0 0 bufSize result (c_str encoded)"

fun challenge_loop :: "nat \<Rightarrow> u64 \<Rightarrow> u8 list \<Rightarrow> u8 list" where
  "challenge_loop 0 ts ch = ch"
| "challenge_loop (Suc i) ts ch = challenge_loop i (drop_bit 8 ts) (ch[i := ucast ts])"

definition truncHash :: "u8 list \<Rightarrow> u32" where
  "truncHash h =
     (let off = unat (h ! 19 AND 0xF)
      in (push_bit 24 (ucast (h ! off)) OR push_bit 16 (ucast (h ! (off + 1)))
          OR push_bit 8 (ucast (h ! (off + 2))) OR ucast (h ! (off + 3))) AND 0x7FFFFFFF)"

definition GenerateToken :: "(u8 list \<Rightarrow> u8 list \<Rightarrow> u8 list) \<Rightarrow> string \<Rightarrow> u64 \<Rightarrow> u32 option" where
  "GenerateToken hmac b32key now =
     (let bufsize = (length (c_str b32key) + 7) div 8 * 5;
          challenge = challenge_loop 8 (now div 30) (replicate 8 0)
      in case base32_decode b32key (replicate bufsize 0) bufsize of
           None \<Rightarrow> None
         | Some (_, encoded) \<Rightarrow> Some (truncHash (hmac encoded challenge) mod 1000000))"

section \<open>Reference: base 32 over bits\<close>

definition bits_of :: "nat \<Rightarrow> 'a::len word \<Rightarrow> bool list" where
  "bits_of n w = rev (map (bit w) [0..<n])"

definition byte_of_bits :: "bool list \<Rightarrow> u8" where
  "byte_of_bits bs = horner_sum of_bool 2 (rev bs)"

fun bytes_of_bits :: "bool list \<Rightarrow> u8 list" where
  "bytes_of_bits bs = (if length bs < 8 then [] else byte_of_bits (take 8 bs) # bytes_of_bits (drop 8 bs))"

declare bytes_of_bits.simps [simp del]

definition b32_valid :: "string \<Rightarrow> bool" where
  "b32_valid s = list_all (\<lambda>c. b32_skip c \<or> b32_digit c \<noteq> None) s"

definition b32_bits :: "string \<Rightarrow> bool list" where
  "b32_bits s = concat (map (\<lambda>c. bits_of 5 (the (b32_digit c))) (filter (\<lambda>c. \<not> b32_skip c) s))"

text \<open>The first \<open>n\<close> bytes of \<open>result\<close> become \<open>out\<close>, and a NUL follows when there is room.\<close>

definition b32_result :: "nat \<Rightarrow> u8 list \<Rightarrow> u8 list \<Rightarrow> u8 list" where
  "b32_result bufSize out result =
     (if length out < bufSize then out @ 0 # drop (Suc (length out)) result
      else out @ drop (length out) result)"

lemma length_bits_of [simp]: "length (bits_of n w) = n"
  by (simp add: bits_of_def)

lemma nth_bits_of: "i < n \<Longrightarrow> bits_of n w ! i = bit w (n - 1 - i)"
  by (simp add: bits_of_def rev_nth)

lemma bits_of_shift:
  assumes "n + 5 \<le> 32" "(d :: u32) < 32"
  shows "bits_of (n + 5) (push_bit 5 b OR d) = bits_of n b @ bits_of 5 d"
proof (rule nth_equalityI)
  fix i assume "i < length (bits_of (n + 5) (push_bit 5 b OR d))"
  then have i: "i < n + 5" by simp
  have d5: "bit d k \<Longrightarrow> k < 5" for k using bit_of_less[of d 5 k] assms by simp
  show "bits_of (n + 5) (push_bit 5 b OR d) ! i = (bits_of n b @ bits_of 5 d) ! i"
  proof (cases "i < n")
    case True
    then have "n + 5 - 1 - i - 5 = n - 1 - i" "5 \<le> n + 5 - 1 - i" "n + 5 - 1 - i < 32" using assms by auto
    then show ?thesis using True i d5[of "n + 5 - 1 - i"]
      by (auto simp: nth_append nth_bits_of bit_simps)
  next
    case False
    then have "n + 5 - 1 - i = 4 - (i - n)" "\<not> 5 \<le> n + 5 - 1 - i" using i by auto
    then show ?thesis using False i
      by (auto simp: nth_append nth_bits_of bit_simps)
  qed
qed simp

lemma take_bits_of: "m \<le> n \<Longrightarrow> take m (bits_of n w) = bits_of m (drop_bit (n - m) w)"
  by (rule nth_equalityI) (auto simp: nth_bits_of bit_drop_bit_eq intro: arg_cong[where f = "bit w"])

lemma drop_bits_of: "m \<le> n \<Longrightarrow> drop m (bits_of n w) = bits_of (n - m) w"
  by (rule nth_equalityI) (auto simp: nth_bits_of intro: arg_cong[where f = "bit w"])

lemma byte_of_bits_of: "byte_of_bits (bits_of 8 (w :: u32)) = ucast w"
proof -
  have "byte_of_bits (bits_of 8 w) = horner_sum of_bool 2 (map (bit (ucast w :: u8)) [0..<8])"
    unfolding byte_of_bits_def bits_of_def rev_rev_ident
    by (rule arg_cong[where f = "horner_sum of_bool 2"]) (auto simp: bit_simps)
  also have "\<dots> = take_bit 8 (ucast w :: u8)" by (rule horner_sum_bit_eq_take_bit)
  finally show ?thesis by (simp add: take_bit_word_eq_self)
qed

lemma b32_digit_less: "b32_digit c = Some d \<Longrightarrow> d < 32"
proof -
  assume a: "b32_digit c = Some d"
  define n where "n = (of_char (b32_fix c) :: nat)"
  have tab: "\<forall>n \<in> set ([65..<91] @ [97..<123]). ((of_nat n :: u32) AND 0x1F) - 1 < 32"
    "\<forall>n \<in> set [50..<56]. (of_nat n :: u32) - (50 - 26) < 32"
    by code_simp+
  have "d = (of_nat n AND 0x1F) - 1 \<and> n \<in> set ([65..<91] @ [97..<123])
      \<or> d = of_nat n - (50 - 26) \<and> n \<in> set [50..<56]"
    using a unfolding b32_digit_def Let_def n_def[symmetric] set_append set_upt
    by (auto simp del: atLeastLessThan_upt split: if_splits)
  then show ?thesis using tab by blast
qed

lemma bytes_of_bits_step:
  "8 \<le> length bs \<Longrightarrow> bytes_of_bits bs = byte_of_bits (take 8 bs) # bytes_of_bits (drop 8 bs)"
  by (subst bytes_of_bits.simps) simp

lemma bytes_of_bits_short: "length bs < 8 \<Longrightarrow> bytes_of_bits bs = []"
  by (subst bytes_of_bits.simps) simp

lemma length_bytes_of_bits: "length (bytes_of_bits bs) = length bs div 8"
proof (induction bs rule: bytes_of_bits.induct)
  case (1 bs)
  then show ?case
    by (cases "length bs < 8") (auto simp: bytes_of_bits_short bytes_of_bits_step le_div_geq not_less)
qed

text \<open>
  The loop from any point on: the low \<open>bits\<close> bits of the buffer are the bits not yet written.
\<close>

lemma b32_loop_spec:
  assumes "b32_valid s" "bits < 8" "cnt \<le> bufSize" "bufSize \<le> length (pre @ post)" "length pre = cnt"
  shows "b32_loop buf bits cnt bufSize (pre @ post) s =
    (let out = take (bufSize - cnt) (bytes_of_bits (bits_of bits buf @ b32_bits s))
     in Some (int (cnt + length out), pre @ b32_result (bufSize - cnt) out post))"
  using assms
proof (induction s arbitrary: buf bits cnt pre post)
  case Nil
  then have "bytes_of_bits (bits_of bits buf) = []" by (simp add: bytes_of_bits_short)
  then show ?case using Nil
    by (cases post) (auto simp: b32_loop.simps b32_bits_def b32_result_def Let_def list_update_append)
next
  case (Cons c s)
  have v: "b32_valid s" using Cons.prems by (simp add: b32_valid_def)
  show ?case
  proof (cases "cnt < bufSize")
    case False
    then show ?thesis using Cons.prems
      by (subst b32_loop.simps) (simp add: b32_result_def Let_def)
  next
    case room: True
    show ?thesis
    proof (cases "b32_skip c")
      case True
      then show ?thesis using room Cons.IH[OF v Cons.prems(2-5), of buf]
        by (subst b32_loop.simps) (simp add: b32_bits_def)
    next
      case ns: False
      then obtain d where d: "b32_digit c = Some d" using Cons.prems by (auto simp: b32_valid_def)
      define buf' where "buf' = push_bit 5 buf OR d"
      have sh: "bits_of (bits + 5) buf' = bits_of bits buf @ bits_of 5 d"
        unfolding buf'_def using Cons.prems(2) b32_digit_less[OF d] by (intro bits_of_shift) auto
      have cs: "bits_of bits buf @ b32_bits (c # s) = bits_of (bits + 5) buf' @ b32_bits s"
        by (simp add: sh b32_bits_def ns d)
      show ?thesis
      proof (cases "8 \<le> bits + 5")
        case False
        then show ?thesis
          using room ns d Cons.IH[OF v _ Cons.prems(3-5), of "bits + 5" buf'] cs
          by (subst b32_loop.simps) (simp add: buf'_def Let_def)
      next
        case True
        obtain x post' where post: "post = x # post'" using room Cons.prems by (cases post) auto
        define b where "b = (ucast (drop_bit (bits + 5 - 8) buf') :: u8)"
        have "take 8 (bits_of (bits + 5) buf') = bits_of 8 (drop_bit (bits + 5 - 8) buf')"
          "drop 8 (bits_of (bits + 5) buf') = bits_of (bits + 5 - 8) buf'"
          using True take_bits_of drop_bits_of by metis+
        then have bys: "bytes_of_bits (bits_of (bits + 5) buf' @ b32_bits s)
            = b # bytes_of_bits (bits_of (bits + 5 - 8) buf' @ b32_bits s)"
          using True by (subst bytes_of_bits_step) (auto simp: byte_of_bits_of b_def)
        have step: "b32_loop buf bits cnt bufSize (pre @ post) (c # s)
            = b32_loop buf' (bits + 5 - 8) (Suc cnt) bufSize ((pre @ [b]) @ post') s"
          using room ns d True Cons.prems(5) post
          by (subst b32_loop.simps) (simp add: Let_def buf'_def[symmetric] b_def list_update_append)
        have t1: "bufSize - cnt = Suc (bufSize - Suc cnt)" using room by simp
        have "b32_loop buf' (bits + 5 - 8) (Suc cnt) bufSize ((pre @ [b]) @ post') s =
            (let out = take (bufSize - Suc cnt) (bytes_of_bits (bits_of (bits + 5 - 8) buf' @ b32_bits s))
             in Some (int (Suc cnt + length out), (pre @ [b]) @ b32_result (bufSize - Suc cnt) out post'))"
          by (rule Cons.IH[OF v]) (use Cons.prems room post in auto)
        then show ?thesis unfolding step cs bys t1
          by (simp add: Let_def b32_result_def post)
      qed
    qed
  qed
qed

section \<open>Properties\<close>

text \<open>C27: on a key of base-32 digits (separators and the usual typing slips allowed) the decoder
  writes exactly the bytes that the concatenated 5-bit groups spell, as many as fit in
  \<open>bufSize\<close>, returns their number, and terminates them with a NUL when there is room; it never
  writes outside of a buffer of \<open>bufSize\<close> bytes.\<close>

theorem base32_decode_spec:
  assumes "b32_valid (c_str s)" "length result = bufSize"
  shows "base32_decode s result bufSize =
    (let out = take bufSize (bytes_of_bits (b32_bits (c_str s)))
     in Some (int (length out), b32_result bufSize out result))"
  using b32_loop_spec[of "c_str s" 0 0 bufSize "[]" result 0] assms
  by (simp add: base32_decode_def bits_of_def Let_def)

theorem base32_decode_spec_witness:
  "base32_decode ''JBSW Y3DP-EE'' (replicate 8 0xFF) 8
     = Some (6, [0x48, 0x65, 0x6C, 0x6C, 0x6F, 0x21, 0, 0xFF])"
proof -
  have "b32_valid (c_str ''JBSW Y3DP-EE'')" by code_simp
  moreover have "bytes_of_bits (b32_bits (c_str ''JBSW Y3DP-EE'')) = [0x48, 0x65, 0x6C, 0x6C, 0x6F, 0x21]"
    by code_simp
  ultimately show ?thesis
    using base32_decode_spec[of "''JBSW Y3DP-EE''" "replicate 8 0xFF" 8] 
    by (simp add: b32_result_def eval_nat_numeral)
qed

lemma b32_bits_length: "b32_valid s \<Longrightarrow> length (b32_bits s) \<le> 5 * length s"
  unfolding b32_bits_def by (induction s) (auto simp: b32_valid_def)

lemma challenge_loop_spec:
  "i \<le> length ch \<Longrightarrow> challenge_loop i ts ch = rev (le_bytes i ts) @ drop i ch"
proof (induction i arbitrary: ts ch)
  case 0
  then show ?case by simp
next
  case (Suc i)
  then have "drop i (ch[i := ucast ts]) = ucast ts # drop (Suc i) ch"
    by (simp add: Cons_nth_drop_Suc[symmetric])
  then show ?case using Suc by simp
qed

text \<open>
  RFC 4226 in numbers, section 5.3: the last byte modulo 16 is an offset, the four bytes from there
  are a big-endian number, its value without the top bit is taken modulo a million. The counter of
  the message (section 5.2) is a big-endian number of eight bytes.
\<close>

fun be_number :: "u8 list \<Rightarrow> nat" where
  "be_number [] = 0"
| "be_number (b # bs) = unat b * 256 ^ length bs + be_number bs"

definition rfc4226_token :: "u8 list \<Rightarrow> nat" where
  "rfc4226_token h = be_number (take 4 (drop (unat (last h) mod 16) h)) mod 2 ^ 31 mod 10 ^ 6"

lemma four_bytes:
  "push_bit 24 (ucast a) OR push_bit 16 (ucast b) OR push_bit 8 (ucast c) OR ucast d
     = (of_nat (be_number [a, b, c, d]) :: u32)"
proof -
  have high: "bit (x :: u8) n \<Longrightarrow> n < 8" for x n by (drule bit_imp_le_length) simp
  have "push_bit 24 (ucast a) OR push_bit 16 (ucast b) OR push_bit 8 (ucast c) OR ucast d
      = (push_bit 24 (ucast a) + (push_bit 16 (ucast b) + (push_bit 8 (ucast c) + ucast d)) :: u32)"
    by (subst disjunctive_add_eq_or, force simp: bit_eq_iff bit_simps dest: high)+
       (simp add: or.assoc)
  then show ?thesis by (simp add: push_bit_eq_mult mult.commute)
qed

lemma unat_and_mask: "unat (w AND mask n) = unat w mod 2 ^ n"
  by (simp only: take_bit_eq_mask[symmetric] unsigned_take_bit_eq) (simp only: take_bit_eq_mod)

lemma truncHash_number:
  assumes "length h = 20"
  shows "unat (truncHash h) = be_number (take 4 (drop (unat (last h) mod 16) h)) mod 2 ^ 31"
proof -
  define off where "off = unat (last h) mod 16"
  have low: "unat (h ! 19 AND 0xF) = off"
    using assms unat_and_mask[of "h ! 19" 4] 
    by (cases h rule: rev_cases) (auto simp: off_def mask_eq_exp_minus_1 nth_append)
  have "off < 16" by (simp add: off_def)
  then have four: "take 4 (drop off h) = [h ! off, h ! (off + 1), h ! (off + 2), h ! (off + 3)]"
    using assms by (intro nth_equalityI) (auto simp: less_Suc_eq eval_nat_numeral)
  have "unat (x AND 0x7FFFFFFF) = unat x mod 2 ^ 31" for x :: u32
    using unat_and_mask[of x 31] by (simp add: mask_eq_exp_minus_1)
  moreover have "unat (of_nat m :: u32) mod 2 ^ 31 = m mod 2 ^ 31" for m
    by (simp only: unsigned_of_nat take_bit_eq_mod) (simp add: mod_mod_cancel)
  ultimately show ?thesis
    unfolding truncHash_def Let_def low four_bytes four off_def[symmetric] by (simp only:)
qed

lemma be_number_snoc: "be_number (bs @ [b]) = 256 * be_number bs + unat b"
  by (induction bs) (simp_all add: algebra_simps)

lemma be_number_le_bytes: "be_number (rev (le_bytes n w)) = unat w mod 256 ^ n"
proof (induction n arbitrary: w)
  case (Suc n)
  have "unat w mod 256 ^ Suc n = 256 * (unat w div 256 mod 256 ^ n) + unat w mod 256"
    by (simp add: mod_mult2_eq)
  moreover have "unat (drop_bit 8 w) = unat w div 256" by (simp only: unat_drop_bit_eq) (simp add: drop_bit_eq_div)
  moreover have "unat (ucast w :: u8) = unat w mod 256"
    by (simp add: unsigned_ucast_eq take_bit_eq_mod)
  ultimately show ?case using Suc by (simp add: be_number_snoc)
qed simp

lemma unat_less: "unat (w :: 'a::len word) < 2 ^ LENGTH('a)"
  by (rule unsigned_less)

lemma be_number_less: "be_number bs < 256 ^ length bs"
proof (induction bs)
  case (Cons b bs)
  have "unat b * 256 ^ length bs \<le> 255 * 256 ^ length bs"
    using unat_less[of b] by (intro mult_right_mono) simp_all
  then have "unat b * 256 ^ length bs + be_number bs < 255 * 256 ^ length bs + 256 ^ length bs"
    using Cons.IH by (rule add_le_less_mono)
  then show ?case by simp
qed simp

lemma be_number_inject: "length bs = length cs \<Longrightarrow> be_number bs = be_number cs \<Longrightarrow> bs = cs"
proof (induction bs arbitrary: cs)
  case (Cons b bs)
  then obtain c cs' where cs: "cs = c # cs'" "length cs' = length bs" by (cases cs) auto
  let ?N = "256 ^ length bs :: nat"
  have sum: "unat b * ?N + be_number bs = unat c * ?N + be_number cs'" using Cons.prems(2) cs by simp
  have small: "be_number bs < ?N" "be_number cs' < ?N" using be_number_less[of bs] be_number_less[of cs'] cs by simp_all
  have "(unat b * ?N + be_number bs) div ?N = unat b" "(unat b * ?N + be_number bs) mod ?N = be_number bs"
    "(unat c * ?N + be_number cs') div ?N = unat c" "(unat c * ?N + be_number cs') mod ?N = be_number cs'"
    using small by simp_all
  then have "unat b = unat c" "be_number bs = be_number cs'" using sum by metis+
  then show ?case using Cons.IH[of cs'] cs by (simp add: word_unat_eq_iff)
qed simp

text \<open>C28: when the digest has the 20 bytes of SHA-1, the token is the number that RFC 4226 reads
  from it: the digest is taken under the decoded key, padded with zero bytes to the size of the
  decode buffer, of the eight bytes that spell the number of 30-second steps in big-endian order.
  The decoder never overruns its buffer.\<close>

theorem GenerateToken_spec:
  assumes "b32_valid (c_str key)" "\<And>k m. length (hmac k m) = 20"
    and "secret = (let n = (length (c_str key) + 7) div 8 * 5; bytes = bytes_of_bits (b32_bits (c_str key))
                   in bytes @ replicate (n - length bytes) 0)"
    and "length counter = 8" "be_number counter = unat now div 30"
  shows "\<exists>token. GenerateToken hmac key now = Some token
    \<and> unat token = rfc4226_token (hmac secret counter)"
proof -
  define n where "n = (length (c_str key) + 7) div 8 * 5"
  define out where "out = bytes_of_bits (b32_bits (c_str key))"
  have "length out \<le> 5 * length (c_str key) div 8"
    using b32_bits_length[OF assms(1)] by (simp add: out_def length_bytes_of_bits div_le_mono)
  also have "\<dots> \<le> n" by (simp add: n_def)
  finally have fits: "take n out = out" "length out \<le> n" by simp_all
  have secret: "secret = out @ replicate (n - length out) 0"
    by (simp add: assms(3) n_def out_def Let_def)
  have counter: "rev (le_bytes 8 (now div 30)) = counter"
    using assms(4,5) unat_less[of "now div 30"]
    by (intro be_number_inject) (simp_all add: be_number_le_bytes unat_div)
  have "b32_result n out (replicate n 0) = secret"
    using fits(2) by (auto simp: secret b32_result_def Suc_diff_Suc[symmetric] simp flip: replicate_Suc)
  then have "GenerateToken hmac key now = Some (truncHash (hmac secret counter) mod 1000000)"
    using b32_loop_spec[of "c_str key" 0 0 n "[]" "replicate n 0" 0] assms(1) fits(1)
    by (simp add: GenerateToken_def base32_decode_def bits_of_def n_def[symmetric] out_def[symmetric] Let_def challenge_loop_spec counter)
  moreover have "unat (truncHash (hmac secret counter) mod 1000000) = rfc4226_token (hmac secret counter)"
    by (simp add: unat_mod truncHash_number assms(2) rfc4226_token_def)
  ultimately show ?thesis by simp
qed

text \<open>A stand-in for the digest, twenty bytes that depend on both arguments.\<close>

definition sum_hmac :: "u8 list \<Rightarrow> u8 list \<Rightarrow> u8 list" where
  "sum_hmac k m = map (\<lambda>i. of_nat i + sum_list k + sum_list m) [0..<20]"

theorem GenerateToken_spec_witness:
  "\<exists>token. GenerateToken sum_hmac ''JBSWY3DP'' 1700000000 = Some token \<and> unat token = 117564"
proof -
  have key: "b32_valid (c_str ''JBSWY3DP'')" by code_simp
  have size: "length (sum_hmac k m) = 20" for k m by (simp add: sum_hmac_def)
  let ?secret = "[0x48, 0x65, 0x6C, 0x6C, 0x6F]" and ?counter = "[0, 0, 0, 0, 3, 96, 170, 42]"
  have secret: "?secret = (let n = (length (c_str ''JBSWY3DP'') + 7) div 8 * 5;
      bytes = bytes_of_bits (b32_bits (c_str ''JBSWY3DP'')) in bytes @ replicate (n - length bytes) 0)"
    by code_simp
  have "\<exists>token. GenerateToken sum_hmac ''JBSWY3DP'' 1700000000 = Some token
      \<and> unat token = rfc4226_token (sum_hmac ?secret ?counter)"
    by (rule GenerateToken_spec[OF key size secret]) simp_all
  moreover have "sum_hmac ?secret ?counter = [43, 44, 45, 46, 47, 48, 49, 50, 51, 52, 53, 54, 55, 56, 57, 58, 59, 60, 61, 62]"
    by code_simp
  ultimately show ?thesis by (simp add: rfc4226_token_def)
qed

end
