(* ===== verification/ObjectGuid.thy ===== *)
theory ObjectGuid
  imports ByteBuffer
begin

text \<open>
  Object guids (src/src/server/game/Entities/Object/ObjectGuid.h and .cpp): a \<open>uint64\<close> whose
  high 16 bits are the kind of object. For kinds with an entry the next 24 bits are the entry
  and the low 24 the counter; for the others the low 32 bits are the counter.
\<close>

section \<open>Kinds of guid\<close>

abbreviation HIGHGUID_ITEM :: u32 where "HIGHGUID_ITEM \<equiv> 0x4000"
abbreviation HIGHGUID_PLAYER :: u32 where "HIGHGUID_PLAYER \<equiv> 0x0000"
abbreviation HIGHGUID_GAMEOBJECT :: u32 where "HIGHGUID_GAMEOBJECT \<equiv> 0xF110"
abbreviation HIGHGUID_TRANSPORT :: u32 where "HIGHGUID_TRANSPORT \<equiv> 0xF120"
abbreviation HIGHGUID_UNIT :: u32 where "HIGHGUID_UNIT \<equiv> 0xF130"
abbreviation HIGHGUID_PET :: u32 where "HIGHGUID_PET \<equiv> 0xF140"
abbreviation HIGHGUID_DYNAMICOBJECT :: u32 where "HIGHGUID_DYNAMICOBJECT \<equiv> 0xF100"
abbreviation HIGHGUID_CORPSE :: u32 where "HIGHGUID_CORPSE \<equiv> 0xF101"
abbreviation HIGHGUID_MO_TRANSPORT :: u32 where "HIGHGUID_MO_TRANSPORT \<equiv> 0x1FC0"

datatype TypeID = TYPEID_OBJECT | TYPEID_ITEM | TYPEID_CONTAINER | TYPEID_UNIT | TYPEID_PLAYER
  | TYPEID_GAMEOBJECT | TYPEID_DYNAMICOBJECT | TYPEID_CORPSE

section \<open>Building and taking apart\<close>

definition MAKE_NEW_GUID :: "u32 \<Rightarrow> u32 \<Rightarrow> u32 \<Rightarrow> guid" where
  "MAKE_NEW_GUID l e h = ucast l OR push_bit 24 (ucast e) OR push_bit 48 (ucast h)"

definition GUID_HIPART :: "guid \<Rightarrow> u32" where
  "GUID_HIPART x = ucast (drop_bit 48 x AND 0xFFFF)"

definition IsGuidHaveEnPart :: "guid \<Rightarrow> bool" where
  "IsGuidHaveEnPart g =
     (let h = GUID_HIPART g in
      if h = HIGHGUID_ITEM \<or> h = HIGHGUID_PLAYER \<or> h = HIGHGUID_DYNAMICOBJECT
         \<or> h = HIGHGUID_CORPSE \<or> h = HIGHGUID_MO_TRANSPORT then False
      else True)"

definition GUID_ENPART :: "guid \<Rightarrow> u32" where
  "GUID_ENPART x = (if IsGuidHaveEnPart x then ucast (drop_bit 24 x AND 0xFFFFFF) else 0)"

definition GUID_LOPART :: "guid \<Rightarrow> u32" where
  "GUID_LOPART x = (if IsGuidHaveEnPart x then ucast (x AND 0xFFFFFF) else ucast (x AND 0xFFFFFFFF))"

section \<open>The accessors of \<open>class ObjectGuid\<close>\<close>

definition IsEmpty :: "guid \<Rightarrow> bool" where "IsEmpty g \<longleftrightarrow> g = 0"
definition IsCreature :: "guid \<Rightarrow> bool" where "IsCreature g \<longleftrightarrow> GUID_HIPART g = HIGHGUID_UNIT"
definition IsPet :: "guid \<Rightarrow> bool" where "IsPet g \<longleftrightarrow> GUID_HIPART g = HIGHGUID_PET"
definition IsCreatureOrPet :: "guid \<Rightarrow> bool" where "IsCreatureOrPet g \<longleftrightarrow> IsCreature g \<or> IsPet g"
definition IsPlayer :: "guid \<Rightarrow> bool" where
  "IsPlayer g \<longleftrightarrow> \<not> IsEmpty g \<and> GUID_HIPART g = HIGHGUID_PLAYER"
definition IsUnit :: "guid \<Rightarrow> bool" where "IsUnit g \<longleftrightarrow> IsCreatureOrPet g \<or> IsPlayer g"
definition IsItem :: "guid \<Rightarrow> bool" where "IsItem g \<longleftrightarrow> GUID_HIPART g = HIGHGUID_ITEM"
definition IsGameobject :: "guid \<Rightarrow> bool" where
  "IsGameobject g \<longleftrightarrow> GUID_HIPART g = HIGHGUID_GAMEOBJECT"
definition IsDynamicObject :: "guid \<Rightarrow> bool" where
  "IsDynamicObject g \<longleftrightarrow> GUID_HIPART g = HIGHGUID_DYNAMICOBJECT"
definition IsCorpse :: "guid \<Rightarrow> bool" where "IsCorpse g \<longleftrightarrow> GUID_HIPART g = HIGHGUID_CORPSE"
definition IsTransport :: "guid \<Rightarrow> bool" where
  "IsTransport g \<longleftrightarrow> GUID_HIPART g = HIGHGUID_TRANSPORT"
definition IsMOTransport :: "guid \<Rightarrow> bool" where
  "IsMOTransport g \<longleftrightarrow> GUID_HIPART g = HIGHGUID_MO_TRANSPORT"

definition GetTypeId :: "guid \<Rightarrow> TypeID" where
  "GetTypeId g =
     (let h = GUID_HIPART g in
      if h = HIGHGUID_ITEM then TYPEID_ITEM
      else if h = HIGHGUID_UNIT then TYPEID_UNIT
      else if h = HIGHGUID_PET then TYPEID_UNIT
      else if h = HIGHGUID_PLAYER then TYPEID_PLAYER
      else if h = HIGHGUID_GAMEOBJECT then TYPEID_GAMEOBJECT
      else if h = HIGHGUID_DYNAMICOBJECT then TYPEID_DYNAMICOBJECT
      else if h = HIGHGUID_CORPSE then TYPEID_CORPSE
      else if h = HIGHGUID_MO_TRANSPORT then TYPEID_GAMEOBJECT
      else TYPEID_OBJECT)"

definition GetTypeName :: "guid \<Rightarrow> string" where
  "GetTypeName g =
     (let h = GUID_HIPART g in
      if h = HIGHGUID_ITEM then ''item''
      else if h = HIGHGUID_PLAYER then (if \<not> IsEmpty g then ''player'' else ''none'')
      else if h = HIGHGUID_GAMEOBJECT then ''gameobject''
      else if h = HIGHGUID_TRANSPORT then ''transport''
      else if h = HIGHGUID_UNIT then ''creature''
      else if h = HIGHGUID_PET then ''pet''
      else if h = HIGHGUID_DYNAMICOBJECT then ''dynobject''
      else if h = HIGHGUID_CORPSE then ''corpse''
      else if h = HIGHGUID_MO_TRANSPORT then ''mo_transport''
      else ''<unknown>'')"

section \<open>Lemmas\<close>

lemma and_low_mask:
  "(x :: u64) AND 0xFFFFFF = take_bit 24 x" "(x :: u64) AND 0xFFFFFFFF = take_bit 32 x"
  "(x :: u64) AND 0xFFFF = take_bit 16 x"
  by (simp_all add: take_bit_eq_mask mask_eq_exp_minus_1)

definition kind_has_entry :: "u32 \<Rightarrow> bool" where
  "kind_has_entry h \<longleftrightarrow> h \<noteq> HIGHGUID_ITEM \<and> h \<noteq> HIGHGUID_PLAYER \<and> h \<noteq> HIGHGUID_DYNAMICOBJECT
     \<and> h \<noteq> HIGHGUID_CORPSE \<and> h \<noteq> HIGHGUID_MO_TRANSPORT"

lemma IsGuidHaveEnPart_kind: "IsGuidHaveEnPart g \<longleftrightarrow> kind_has_entry (GUID_HIPART g)"
  by (simp add: IsGuidHaveEnPart_def kind_has_entry_def Let_def)

lemma bit_make_guid:
  "bit (MAKE_NEW_GUID l e h) n \<longleftrightarrow> n < 64 \<and>
     (bit l n \<or> (24 \<le> n \<and> bit e (n - 24)) \<or> (48 \<le> n \<and> bit h (n - 48)))"
  by (auto simp: MAKE_NEW_GUID_def bit_simps dest: bit_imp_le_length)

lemma hipart_make:
  assumes "h < 2 ^ 16" "e < 2 ^ 24"
  shows "GUID_HIPART (MAKE_NEW_GUID l e h) = h"
proof (rule bit_word_eqI)
  fix n
  have "bit h m \<Longrightarrow> m < 16" "bit e m \<Longrightarrow> m < 24" "bit l m \<Longrightarrow> m < 32" for m
    using bit_of_less[OF assms(1), of m] bit_of_less[OF assms(2), of m] bit_imp_le_length[of l m]
    by simp_all
  then show "bit (GUID_HIPART (MAKE_NEW_GUID l e h)) n = bit h n"
    by (fastforce simp: GUID_HIPART_def and_low_mask bit_simps bit_make_guid)
qed

lemma enpart_make:
  assumes "h < 2 ^ 16" "e < 2 ^ 24" "l < 2 ^ 24"
  shows "(ucast (drop_bit 24 (MAKE_NEW_GUID l e h) AND 0xFFFFFF) :: u32) = e"
proof (rule bit_word_eqI)
  fix n
  have "bit l m \<Longrightarrow> m < 24" "bit e m \<Longrightarrow> m < 24" for m
    using bit_of_less[OF assms(3), of m] bit_of_less[OF assms(2), of m] by simp_all
  then show "bit (ucast (drop_bit 24 (MAKE_NEW_GUID l e h) AND 0xFFFFFF) :: u32) n = bit e n"
    by (fastforce simp: and_low_mask bit_simps bit_make_guid)
qed

lemma lopart_make_24:
  assumes "l < 2 ^ 24"
  shows "(ucast (MAKE_NEW_GUID l e h AND 0xFFFFFF) :: u32) = l"
proof (rule bit_word_eqI)
  fix n
  have "bit l m \<Longrightarrow> m < 24" for m
    using bit_of_less[OF assms, of m] by simp
  then show "bit (ucast (MAKE_NEW_GUID l e h AND 0xFFFFFF) :: u32) n = bit l n"
    by (fastforce simp: and_low_mask bit_simps bit_make_guid)
qed

lemma lopart_make_32: "(ucast (MAKE_NEW_GUID l 0 h AND 0xFFFFFFFF) :: u32) = l"
proof (rule bit_word_eqI)
  fix n
  have "bit l m \<Longrightarrow> m < 32" for m using bit_imp_le_length[of l m] by simp
  then show "bit (ucast (MAKE_NEW_GUID l 0 h AND 0xFFFFFFFF) :: u32) n = bit l n"
    by (fastforce simp: and_low_mask bit_simps bit_make_guid)
qed

section \<open>Properties\<close>

text \<open>a guid built by \<open>MAKE_NEW_GUID\<close> from parts that fit its kind gives back exactly its
  kind, its entry and its counter through \<open>GUID_HIPART\<close>, \<open>GUID_ENPART\<close> and \<open>GUID_LOPART\<close>.\<close>

lemma guid_fields:
  assumes "h < 2 ^ 16"
    and "if kind_has_entry h then l < 2 ^ 24 \<and> e < 2 ^ 24 else e = 0"
  shows "GUID_HIPART (MAKE_NEW_GUID l e h) = h
    \<and> GUID_ENPART (MAKE_NEW_GUID l e h) = e
    \<and> GUID_LOPART (MAKE_NEW_GUID l e h) = l"
proof -
  have e: "e < 2 ^ 24" using assms(2) by (auto split: if_splits)
  show ?thesis
    using assms hipart_make[OF assms(1) e] enpart_make[OF assms(1) e] lopart_make_24 lopart_make_32
    by (auto simp: GUID_ENPART_def GUID_LOPART_def IsGuidHaveEnPart_kind split: if_splits)
qed

lemma guid_fields_witness:
  "GUID_HIPART (MAKE_NEW_GUID 5 18000 HIGHGUID_UNIT) = HIGHGUID_UNIT
    \<and> GUID_ENPART (MAKE_NEW_GUID 5 18000 HIGHGUID_UNIT) = 18000
    \<and> GUID_LOPART (MAKE_NEW_GUID 5 18000 HIGHGUID_UNIT) = 5"
  using guid_fields[of HIGHGUID_UNIT 5 18000] by (simp add: kind_has_entry_def)

text \<open>the kind tests, the type id and the type name agree: every non-empty guid is a unit
  exactly when its type id is unit or player, and at most one of the kind tests holds.\<close>

lemma guid_kinds_agree:
  "(IsUnit g \<longleftrightarrow> g \<noteq> 0 \<and> GetTypeId g \<in> {TYPEID_UNIT, TYPEID_PLAYER})
   \<and> (IsPlayer g \<longleftrightarrow> GetTypeName g = ''player'')
   \<and> length (filter (\<lambda>p. p g) [IsCreature, IsPet, IsPlayer, IsItem, IsGameobject,
        IsDynamicObject, IsCorpse, IsTransport, IsMOTransport]) \<le> 1"
proof -
  have z: "GUID_HIPART 0 = 0" by (simp add: GUID_HIPART_def)
  show ?thesis
    by (auto simp: IsUnit_def IsCreatureOrPet_def IsCreature_def IsPet_def IsPlayer_def IsEmpty_def
        IsItem_def IsGameobject_def IsDynamicObject_def IsCorpse_def IsTransport_def IsMOTransport_def
        GetTypeId_def GetTypeName_def Let_def z)
qed

end
