(* ===== verification/PlayerSocial.thy ===== *)
theory PlayerSocial
  imports StdMap
begin

text \<open>
  A character's friends and ignore list (class \<open>PlayerSocial\<close> of
  src/src/server/game/Entities/Player/SocialMgr.h and .cpp): a map from the low guid of the other
  character to its \<open>FriendInfo\<close>. Every operation returns the database statements it executes beside
  the new list; the last section gives the statements their meaning on the table
  \<open>character_social\<close> and shows that list and table stay in step.
\<close>

section \<open>Data\<close>

abbreviation SOCIAL_FLAG_FRIEND :: u32 where "SOCIAL_FLAG_FRIEND \<equiv> 0x01"
abbreviation SOCIAL_FLAG_IGNORED :: u32 where "SOCIAL_FLAG_IGNORED \<equiv> 0x02"

abbreviation FRIEND_STATUS_OFFLINE :: u32 where "FRIEND_STATUS_OFFLINE \<equiv> 0"
abbreviation FRIEND_STATUS_ONLINE :: u32 where "FRIEND_STATUS_ONLINE \<equiv> 1"
abbreviation FRIEND_STATUS_AFK :: u32 where "FRIEND_STATUS_AFK \<equiv> 2"
abbreviation FRIEND_STATUS_DND :: u32 where "FRIEND_STATUS_DND \<equiv> 4"
abbreviation FRIEND_STATUS_RAF :: u32 where "FRIEND_STATUS_RAF \<equiv> 8"

abbreviation SOCIALMGR_FRIEND_LIMIT :: u32 where "SOCIALMGR_FRIEND_LIMIT \<equiv> 50"
abbreviation SOCIALMGR_IGNORE_LIMIT :: u32 where "SOCIALMGR_IGNORE_LIMIT \<equiv> 25"

record friend_info =
  fi_Status :: u32
  fi_Flags :: u32
  fi_Area :: u32
  fi_Level :: u32
  fi_Class :: u32
  fi_Note :: string

definition FriendInfo_new :: friend_info where
  "FriendInfo_new = \<lparr>fi_Status = FRIEND_STATUS_OFFLINE, fi_Flags = 0, fi_Area = 0, fi_Level = 0,
     fi_Class = 0, fi_Note = ''''\<rparr>"

definition FriendInfo_of :: "u32 \<Rightarrow> string \<Rightarrow> friend_info" where
  "FriendInfo_of flags note = \<lparr>fi_Status = FRIEND_STATUS_OFFLINE, fi_Flags = flags, fi_Area = 0,
     fi_Level = 0, fi_Class = 0, fi_Note = note\<rparr>"

record player_social =
  ps_map :: "(u32 \<times> friend_info) list"
  ps_guid :: u32

definition PlayerSocial_new :: player_social where
  "PlayerSocial_new = \<lparr>ps_map = [], ps_guid = 0\<rparr>"

text \<open>The statements sent to the character database, one constructor for each SQL text.\<close>

datatype social_sql =
    UpdateFlagsOr u32 u32 u32     \<comment> \<open>flag, guid, friend: \<open>SET flags = (flags | %u)\<close>\<close>
  | InsertSocial u32 u32 u32      \<comment> \<open>guid, friend, flags\<close>
  | DeleteSocial u32 u32          \<comment> \<open>guid, friend\<close>
  | UpdateFlagsAndNot u32 u32 u32 \<comment> \<open>flag, guid, friend: \<open>SET flags = (flags & ~%u)\<close>\<close>
  | UpdateNote string u32 u32     \<comment> \<open>the text between the quotes, guid, friend\<close>

section \<open>Operations\<close>

definition HasFriend :: "u32 \<Rightarrow> player_social \<Rightarrow> bool" where
  "HasFriend f s = (case sm_find f (ps_map s) of
     Some i \<Rightarrow> has_flag (fi_Flags i) SOCIAL_FLAG_FRIEND | None \<Rightarrow> False)"

definition HasIgnore :: "u32 \<Rightarrow> player_social \<Rightarrow> bool" where
  "HasIgnore f s = (case sm_find f (ps_map s) of
     Some i \<Rightarrow> has_flag (fi_Flags i) SOCIAL_FLAG_IGNORED | None \<Rightarrow> False)"

definition SetPlayerGUID :: "u32 \<Rightarrow> player_social \<Rightarrow> player_social" where
  "SetPlayerGUID g s = s\<lparr>ps_guid := g\<rparr>"

fun count_flag :: "u32 \<Rightarrow> (u32 \<times> friend_info) list \<Rightarrow> u32 \<Rightarrow> u32" where
  "count_flag flag [] counter = counter"
| "count_flag flag (p # m) counter =
     count_flag flag m (if has_flag (fi_Flags (snd p)) flag then counter + 1 else counter)"

definition GetNumberOfSocialsWithFlag :: "u32 \<Rightarrow> player_social \<Rightarrow> u32" where
  "GetNumberOfSocialsWithFlag flag s = count_flag flag (ps_map s) 0"

definition AddToSocialList :: "u32 \<Rightarrow> bool \<Rightarrow> player_social \<Rightarrow> bool \<times> player_social \<times> social_sql list" where
  "AddToSocialList f ignore s =
     (if ignore \<and> GetNumberOfSocialsWithFlag SOCIAL_FLAG_IGNORED s \<ge> SOCIALMGR_IGNORE_LIMIT
      then (False, s, [])
      else if \<not> ignore \<and> GetNumberOfSocialsWithFlag SOCIAL_FLAG_FRIEND s \<ge> SOCIALMGR_FRIEND_LIMIT
      then (False, s, [])
      else
        let flag = (if ignore then SOCIAL_FLAG_IGNORED else SOCIAL_FLAG_FRIEND)
        in case sm_find f (ps_map s) of
             Some i \<Rightarrow>
               (True, s\<lparr>ps_map := sm_set f (i\<lparr>fi_Flags := set_flag (fi_Flags i) flag\<rparr>) (ps_map s)\<rparr>,
                [UpdateFlagsOr flag (ps_guid s) f])
           | None \<Rightarrow>
               (True, s\<lparr>ps_map := sm_set f (FriendInfo_new\<lparr>fi_Flags := set_flag (fi_Flags FriendInfo_new) flag\<rparr>) (ps_map s)\<rparr>,
                [InsertSocial (ps_guid s) f flag]))"

definition RemoveFromSocialList :: "u32 \<Rightarrow> bool \<Rightarrow> player_social \<Rightarrow> player_social \<times> social_sql list" where
  "RemoveFromSocialList f ignore s =
     (case sm_find f (ps_map s) of
        None \<Rightarrow> (s, [])
      | Some i \<Rightarrow>
          let flag = (if ignore then SOCIAL_FLAG_IGNORED else SOCIAL_FLAG_FRIEND);
              i' = i\<lparr>fi_Flags := clear_flag (fi_Flags i) flag\<rparr>
          in if fi_Flags i' = 0
             then (s\<lparr>ps_map := sm_erase f (ps_map s)\<rparr>, [DeleteSocial (ps_guid s) f])
             else (s\<lparr>ps_map := sm_set f i' (ps_map s)\<rparr>, [UpdateFlagsAndNot flag (ps_guid s) f]))"

text \<open>
  \<open>truncate48\<close> is \<open>utf8truncate(note, 48)\<close> and \<open>escape\<close> the database library's escaping of a string
  for use between quotes: functions of third-party code, parameters here.
\<close>

definition SetFriendNote ::
  "(string \<Rightarrow> string) \<Rightarrow> (string \<Rightarrow> string) \<Rightarrow> u32 \<Rightarrow> string \<Rightarrow> player_social \<Rightarrow> player_social \<times> social_sql list" where
  "SetFriendNote truncate48 escape f note s =
     (case sm_find f (ps_map s) of
        None \<Rightarrow> (s, [])
      | Some i \<Rightarrow>
          let note' = escape (truncate48 note)
          in (s\<lparr>ps_map := sm_set f (i\<lparr>fi_Note := note'\<rparr>) (ps_map s)\<rparr>,
              [UpdateNote note' (ps_guid s) f]))"

text \<open>\<open>SocialMgr::LoadFromDB\<close>: the rows of the query result, \<open>None\<close> when there is no result.\<close>

fun load_rows :: "(u32 \<times> u32 \<times> string) list \<Rightarrow> player_social \<Rightarrow> player_social" where
  "load_rows [] s = s"
| "load_rows ((f, flags, note) # rows) s =
     (let s' = s\<lparr>ps_map := sm_set f (FriendInfo_of flags note) (ps_map s)\<rparr>
      in if length (ps_map s') \<ge> unat (SOCIALMGR_FRIEND_LIMIT + SOCIALMGR_IGNORE_LIMIT) then s'
         else load_rows rows s')"

type_synonym social_mgr = "(u32 \<times> player_social) list"

definition SocialMgr_LoadFromDB ::
  "(u32 \<times> u32 \<times> string) list option \<Rightarrow> u32 \<Rightarrow> social_mgr \<Rightarrow> social_mgr" where
  "SocialMgr_LoadFromDB result g mgr =
     (let social = SetPlayerGUID g (sm_at PlayerSocial_new g mgr)
      in case result of
           None \<Rightarrow> sm_set g social mgr
         | Some rows \<Rightarrow> sm_set g (load_rows rows social) mgr)"

definition RemovePlayerSocial :: "u32 \<Rightarrow> social_mgr \<Rightarrow> social_mgr" where
  "RemovePlayerSocial g mgr = sm_erase g mgr"

section \<open>Limits\<close>

definition flagged :: "u32 \<Rightarrow> player_social \<Rightarrow> nat" where
  "flagged flag s = length (filter (\<lambda>p. has_flag (fi_Flags (snd p)) flag) (ps_map s))"

lemma count_flag_filter:
  "count_flag flag m c = c + of_nat (length (filter (\<lambda>p. has_flag (fi_Flags (snd p)) flag) m))"
  by (induction m arbitrary: c) auto

definition ps_wf :: "player_social \<Rightarrow> bool" where
  "ps_wf s \<longleftrightarrow> sm_wf (ps_map s) \<and> flagged SOCIAL_FLAG_FRIEND s \<le> 50 \<and> flagged SOCIAL_FLAG_IGNORED s \<le> 25"

lemma GetNumber_flagged:
  "flagged flag s < 2 ^ 32 \<Longrightarrow> unat (GetNumberOfSocialsWithFlag flag s) = flagged flag s"
  by (simp add: GetNumberOfSocialsWithFlag_def count_flag_filter flagged_def unat_of_nat)

lemma length_filter_sm_set:
  assumes "sm_wf m"
  shows "length (filter P (sm_set k v m)) + (case sm_find k m of Some w \<Rightarrow> of_bool (P (k, w)) | None \<Rightarrow> 0)
    = length (filter P m) + of_bool (P (k, v))"
  using assms
proof (induction m)
  case Nil
  then show ?case by simp
next
  case (Cons p m)
  have wf: "sm_wf m" and lt: "\<And>q. q \<in> set m \<Longrightarrow> fst p < fst q"
    using Cons.prems by (auto simp: sm_wf_def)
  consider "fst p < k" | "fst p = k" | "k < fst p" by (rule linorder_cases)
  then show ?case
  proof cases
    case 1
    then show ?thesis using Cons.IH[OF wf] by (auto simp: sm_find_def)
  next
    case 2
    then show ?thesis by (cases p) (auto simp: sm_find_def)
  next
    case 3
    then have "sm_find k (p # m) = None"
      using lt by (force simp: sm_find_def map_of_eq_None_iff)
    moreover have "sm_set k v (p # m) = (k, v) # p # m" using 3 by auto
    ultimately show ?thesis by simp
  qed
qed

lemma flagged_AddToSocialList:
  assumes "ps_wf s" "AddToSocialList f ignore s = (ok, s', sql)"
  shows "ps_wf s'"
proof -
  define flag where "flag = (if ignore then SOCIAL_FLAG_IGNORED else SOCIAL_FLAG_FRIEND)"
  have wf: "sm_wf (ps_map s)" and lim: "flagged SOCIAL_FLAG_FRIEND s \<le> 50" "flagged SOCIAL_FLAG_IGNORED s \<le> 25"
    using assms(1) by (simp_all add: ps_wf_def)
  show ?thesis
  proof (cases ok)
    case False
    then have "s' = s" using assms(2) by (auto simp: AddToSocialList_def Let_def split: if_splits option.splits)
    then show ?thesis using assms(1) by simp
  next
    case True
    then have room: "flagged flag s < (if ignore then 25 else 50)"
      using assms(2) lim GetNumber_flagged[of SOCIAL_FLAG_FRIEND s] GetNumber_flagged[of SOCIAL_FLAG_IGNORED s]
      by (auto simp: AddToSocialList_def flag_def word_le_nat_alt split: if_splits)
    obtain i where i: "ps_map s' = sm_set f (i\<lparr>fi_Flags := set_flag (fi_Flags i) flag\<rparr>) (ps_map s)"
      "(case sm_find f (ps_map s) of Some w \<Rightarrow> w = i | None \<Rightarrow> i = FriendInfo_new)"
      using True assms(2)
      by (auto simp: AddToSocialList_def flag_def[symmetric] Let_def split: if_splits option.splits)
    define i' where "i' = i\<lparr>fi_Flags := set_flag (fi_Flags i) flag\<rparr>"
    have cnt: "flagged x s' + (case sm_find f (ps_map s) of Some w \<Rightarrow> of_bool (has_flag (fi_Flags w) x) | None \<Rightarrow> 0)
        = flagged x s + of_bool (has_flag (fi_Flags i') x)" for x
      using length_filter_sm_set[OF wf, of "\<lambda>p. has_flag (fi_Flags (snd p)) x" f i']
      by (simp add: flagged_def i(1) i'_def cong: option.case_cong)
    have other: "has_flag (fi_Flags i') x = has_flag (fi_Flags i) x" if "flag AND x = 0" for x
      using that by (simp add: i'_def has_flag_set_other)
    have new: "\<not> has_flag (fi_Flags FriendInfo_new) x" for x by (simp add: FriendInfo_new_def)
    have same: "flagged x s' \<le> flagged x s" if "flag AND x = 0" for x
      using cnt[of x] other[OF that] i(2) new[of x] by (auto split: option.splits)
    have more: "flagged flag s' \<le> Suc (flagged flag s)"
      using cnt[of flag] by (auto simp: of_bool_def split: option.splits if_splits)
    have "sm_wf (ps_map s')" unfolding i(1) by (rule sm.wf_put[OF wf])
    then show ?thesis
      using same[of SOCIAL_FLAG_FRIEND] same[of SOCIAL_FLAG_IGNORED] more room lim
      by (cases ignore) (auto simp: ps_wf_def flag_def)
  qed
qed

lemma flagged_Remove:
  assumes "ps_wf s" "RemoveFromSocialList f ignore s = (s', sql)"
  shows "ps_wf s'"
proof (cases "sm_find f (ps_map s)")
  case None
  then show ?thesis using assms by (simp add: RemoveFromSocialList_def)
next
  case (Some i)
  define i' where "i' = i\<lparr>fi_Flags := clear_flag (fi_Flags i) (if ignore then SOCIAL_FLAG_IGNORED else SOCIAL_FLAG_FRIEND)\<rparr>"
  have wf: "sm_wf (ps_map s)" using assms(1) by (simp add: ps_wf_def)
  have m: "ps_map s' = (if fi_Flags i' = 0 then sm_erase f (ps_map s) else sm_set f i' (ps_map s))"
    using assms(2) Some by (auto simp: RemoveFromSocialList_def i'_def Let_def split: if_splits)
  have imp: "has_flag (fi_Flags i') x \<Longrightarrow> has_flag (fi_Flags i) x" for x
    unfolding i'_def clear_flag_def has_flag_bit by (auto simp: bit_and_iff)
  have "length (filter P (sm_erase f l)) \<le> length (filter P l)" for P and l :: "(u32 \<times> friend_info) list"
    unfolding sm_erase_def by (induction l) auto
  then have "flagged x s' \<le> flagged x s" for x
    using length_filter_sm_set[OF wf, of "\<lambda>p. has_flag (fi_Flags (snd p)) x" f i'] Some m imp[of x]
    by (auto simp: flagged_def of_bool_def split: if_splits)
  moreover have "sm_wf (ps_map s')" using m sm.wf_put[OF wf] sm.wf_del[OF wf] by simp
  ultimately show ?thesis using assms(1) unfolding ps_wf_def by (meson le_trans)
qed

section \<open>The list and its table\<close>

text \<open>
  The rows of \<open>character_social\<close> by guid and friend, and what the statements do to them.
  \<open>unescape\<close> is the string a quoted literal stands for.
\<close>

type_synonym social_table = "u32 \<times> u32 \<rightharpoonup> u32 \<times> string"

fun run_social_sql :: "(string \<Rightarrow> string) \<Rightarrow> social_sql \<Rightarrow> social_table \<Rightarrow> social_table" where
  "run_social_sql unescape (UpdateFlagsOr flag g f) t =
     (case t (g, f) of None \<Rightarrow> t | Some (fl, n) \<Rightarrow> t((g, f) \<mapsto> (set_flag fl flag, n)))"
| "run_social_sql unescape (InsertSocial g f fl) t = t((g, f) \<mapsto> (fl, ''''))"
| "run_social_sql unescape (DeleteSocial g f) t = t((g, f) := None)"
| "run_social_sql unescape (UpdateFlagsAndNot flag g f) t =
     (case t (g, f) of None \<Rightarrow> t | Some (fl, n) \<Rightarrow> t((g, f) \<mapsto> (clear_flag fl flag, n)))"
| "run_social_sql unescape (UpdateNote txt g f) t =
     (case t (g, f) of None \<Rightarrow> t | Some (fl, n) \<Rightarrow> t((g, f) \<mapsto> (fl, unescape txt)))"

definition social_mirror :: "player_social \<Rightarrow> social_table \<Rightarrow> bool" where
  "social_mirror s t \<longleftrightarrow>
     (\<forall>f. t (ps_guid s, f) = map_option (\<lambda>i. (fi_Flags i, fi_Note i)) (sm_find f (ps_map s)))"

lemma mirror_add:
  assumes "social_mirror s t" "AddToSocialList f ignore s = (ok, s', sql)"
  shows "social_mirror s' (fold (run_social_sql u) sql t)"
proof (cases "sm_find f (ps_map s)")
  case None
  then show ?thesis using assms
    by (auto simp: AddToSocialList_def social_mirror_def sm.find_put Let_def FriendInfo_new_def set_flag_def
        split: if_splits)
next
  case (Some i)
  then have "t (ps_guid s, f) = Some (fi_Flags i, fi_Note i)" using assms(1) by (simp add: social_mirror_def)
  then show ?thesis using assms Some
    by (auto simp: AddToSocialList_def social_mirror_def sm.find_put Let_def split: if_splits)
qed

lemma mirror_remove:
  assumes "social_mirror s t" "RemoveFromSocialList f ignore s = (s', sql)"
  shows "social_mirror s' (fold (run_social_sql u) sql t)"
proof (cases "sm_find f (ps_map s)")
  case None
  then show ?thesis using assms by (simp add: RemoveFromSocialList_def)
next
  case (Some i)
  then have "t (ps_guid s, f) = Some (fi_Flags i, fi_Note i)" using assms(1) by (simp add: social_mirror_def)
  then show ?thesis using assms Some
    by (auto simp: RemoveFromSocialList_def social_mirror_def sm.find_put sm.find_del Let_def split: if_splits)
qed

section \<open>Properties\<close>

text \<open>The changes a player can make to the list.\<close>

datatype social_op = AddSocial u32 bool | RemoveSocial u32 bool

fun do_social :: "social_op \<Rightarrow> player_social \<times> social_sql list \<Rightarrow> player_social \<times> social_sql list" where
  "do_social (AddSocial f ignore) (s, log) =
     (case AddToSocialList f ignore s of (_, s', sql) \<Rightarrow> (s', log @ sql))"
| "do_social (RemoveSocial f ignore) (s, log) =
     (case RemoveFromSocialList f ignore s of (s', sql) \<Rightarrow> (s', log @ sql))"

lemma do_social_step:
  assumes "ps_wf s \<and> social_mirror s t"
  shows "\<exists>s' sql. do_social op (s, log) = (s', log @ sql) \<and> ps_wf s' \<and> social_mirror s' (fold (run_social_sql u) sql t)"
proof (cases op)
  case (AddSocial f ign)
  obtain ok s' sql where a: "AddToSocialList f ign s = (ok, s', sql)" by (metis prod_cases3)
  then show ?thesis
    using AddSocial assms flagged_AddToSocialList[OF _ a] mirror_add[OF _ a] by simp
next
  case (RemoveSocial f ign)
  obtain s' sql where a: "RemoveFromSocialList f ign s = (s', sql)" by fastforce
  then show ?thesis
    using RemoveSocial assms flagged_Remove[OF _ a] mirror_remove[OF _ a] by simp
qed

text \<open>C10: after any sequence of additions and removals that starts from a list within the client's
  limits, in step with its table, at most 50 entries are friends and at most 25 ignored, and the
  statements executed on the way have brought the table to exactly the contents of the list.\<close>

theorem social_list_mirrored:
  assumes "ps_wf s" "social_mirror s t" "fold do_social ops (s, []) = (s', log)"
  shows "ps_wf s' \<and> social_mirror s' (fold (run_social_sql u) log t)"
proof -
  have "ps_wf s0 \<and> social_mirror s0 (fold (run_social_sql u) log0 t) \<Longrightarrow>
      fold do_social ops (s0, log0) = (s1, log1) \<Longrightarrow>
      ps_wf s1 \<and> social_mirror s1 (fold (run_social_sql u) log1 t)" for s0 log0 s1 log1
  proof (induction ops arbitrary: s0 log0)
    case Nil
    then show ?case by simp
  next
    case (Cons op ops)
    obtain s2 sql where st: "do_social op (s0, log0) = (s2, log0 @ sql)"
        "ps_wf s2" "social_mirror s2 (fold (run_social_sql u) sql (fold (run_social_sql u) log0 t))"
      using do_social_step Cons.prems(1) by blast
    then show ?case using Cons.IH[of s2 "log0 @ sql"] Cons.prems(2) by simp
  qed
  from this[of s "[]"] show ?thesis using assms by simp
qed

theorem social_list_mirrored_witness:
  "fold do_social [AddSocial 7 False, AddSocial 7 True, RemoveSocial 7 False] (PlayerSocial_new, [])
     = (\<lparr>ps_map = [(7, FriendInfo_of 2 '''')], ps_guid = 0\<rparr>,
        [InsertSocial 0 7 1, UpdateFlagsOr 2 0 7, UpdateFlagsAndNot 1 0 7])
   \<and> social_mirror \<lparr>ps_map = [(7, FriendInfo_of 2 '''')], ps_guid = 0\<rparr>
       (fold (run_social_sql id) [InsertSocial 0 7 1, UpdateFlagsOr 2 0 7, UpdateFlagsAndNot 1 0 7] Map.empty)"
proof -
  have run: "fold do_social [AddSocial 7 False, AddSocial 7 True, RemoveSocial 7 False] (PlayerSocial_new, [])
     = (\<lparr>ps_map = [(7, FriendInfo_of 2 '''')], ps_guid = 0\<rparr>,
        [InsertSocial 0 7 1, UpdateFlagsOr 2 0 7, UpdateFlagsAndNot 1 0 7])"
    by code_simp
  have "ps_wf PlayerSocial_new" "social_mirror PlayerSocial_new Map.empty"
    by (simp_all add: ps_wf_def flagged_def PlayerSocial_new_def social_mirror_def)
  from social_list_mirrored[OF this run] run show ?thesis by blast
qed

text \<open>a friend note is kept in memory in its SQL-escaped form while the table stores the text that
  the literal stands for: list and table stay in step exactly when escaping does not change the
  (truncated) note.\<close>

theorem SetFriendNote_escaped:
  assumes "social_mirror s t" "sm_find f (ps_map s) = Some i" "\<And>n. unesc (esc n) = n"
    and "SetFriendNote trunc esc f note s = (s', sql)"
  shows "social_mirror s' (fold (run_social_sql unesc) sql t) \<longleftrightarrow> esc (trunc note) = trunc note"
proof -
  have t: "t (ps_guid s, f) = Some (fi_Flags i, fi_Note i)"
    using assms(1,2) by (simp add: social_mirror_def)
  have s': "s' = s\<lparr>ps_map := sm_set f (i\<lparr>fi_Note := esc (trunc note)\<rparr>) (ps_map s)\<rparr>"
    "sql = [UpdateNote (esc (trunc note)) (ps_guid s) f]"
    using assms(2,4) by (auto simp: SetFriendNote_def Let_def)
  have un: "unesc (esc (trunc note)) = trunc note" by (rule assms(3))
  have same: "t (ps_guid s, g) = map_option (\<lambda>i. (fi_Flags i, fi_Note i)) (sm_find g (ps_map s))" for g
    using assms(1) by (simp add: social_mirror_def)
  define e where "e = esc (trunc note)"
  define n where "n = trunc note"
  have "fold (run_social_sql unesc) sql t = t((ps_guid s, f) \<mapsto> (fi_Flags i, n))"
    using un by (simp add: s' t n_def)
  then have "social_mirror s' (fold (run_social_sql unesc) sql t) \<longleftrightarrow>
      (\<forall>g. (t((ps_guid s, f) \<mapsto> (fi_Flags i, n))) (ps_guid s, g)
        = (if g = f then Some (fi_Flags i, e) else t (ps_guid s, g)))"
    by (auto simp: social_mirror_def s' sm.find_put same e_def)
  also have "\<dots> \<longleftrightarrow> n = e" by auto
  finally show ?thesis unfolding e_def n_def by (rule trans) (rule eq_commute)
qed

definition quote_esc :: "string \<Rightarrow> string" where
  "quote_esc s = concat (map (\<lambda>c. if c = CHR 0x27 \<or> c = CHR 0x5C then [CHR 0x5C, c] else [c]) s)"

fun quote_unesc :: "string \<Rightarrow> string" where
  "quote_unesc [] = []"
| "quote_unesc [c] = [c]"
| "quote_unesc (c # d # s) = (if c = CHR 0x5C then d # quote_unesc s else c # quote_unesc (d # s))"

lemma quote_esc_Cons:
  "quote_esc (c # s) = (if c = CHR 0x27 \<or> c = CHR 0x5C then CHR 0x5C # c # quote_esc s else c # quote_esc s)"
  by (simp add: quote_esc_def)

lemma quote_unesc_Cons: "c \<noteq> CHR 0x5C \<Longrightarrow> quote_unesc (c # s) = c # quote_unesc s"
  by (cases s) simp_all

lemma quote_unesc_esc: "quote_unesc (quote_esc s) = s"
proof (induction s)
  case Nil
  then show ?case by (simp add: quote_esc_def)
next
  case (Cons c s)
  then show ?case by (simp add: quote_esc_Cons quote_unesc_Cons)
qed

theorem SetFriendNote_escaped_witness:
  "\<exists>s t s' sql. social_mirror s t \<and> SetFriendNote id quote_esc 7 ''it's'' s = (s', sql)
     \<and> \<not> social_mirror s' (fold (run_social_sql quote_unesc) sql t)"
proof -
  define s where "s = \<lparr>ps_map = [(7 :: u32, FriendInfo_of 1 '''')], ps_guid = 3\<rparr>"
  define t :: social_table where "t = [(3, 7) \<mapsto> (1, '''')]"
  have m: "social_mirror s t" by (auto simp: s_def t_def social_mirror_def sm_find_def FriendInfo_of_def)
  have f: "sm_find 7 (ps_map s) = Some (FriendInfo_of 1 '''')" by (simp add: s_def sm_find_def)
  obtain s' sql where r: "SetFriendNote id quote_esc 7 ''it's'' s = (s', sql)" by fastforce
  have "quote_esc (id ''it's'') \<noteq> id ''it's''" by code_simp
  then have "\<not> social_mirror s' (fold (run_social_sql quote_unesc) sql t)"
    using SetFriendNote_escaped[OF m f quote_unesc_esc r] by blast
  then show ?thesis using m r by blast
qed

end
