(* ===== verification/World.thy ===== *)
theory World
  imports ByteBuffer ObjectGuid PlayerSocial
begin

text \<open>
  What the social components see of the rest of the server: the connected players
  (src/src/server/game/Globals/ObjectAccessor.h and .cpp, the \<open>GetPlayer\<close> functions of ObjectMgr.h), the
  attributes of a \<open>Player\<close> and its session that they read, the configuration switches, and packets
  (src/src/server/shared/WorldPacket.h): an opcode and the bytes that the \<open>ByteBuffer\<close> encoders
  of the values written to it append.
\<close>

section \<open>Packets\<close>

record packet =
  opcode :: u16
  body :: "u8 list"

definition WorldPacket_new :: "u16 \<Rightarrow> packet" where
  "WorldPacket_new opc = \<lparr>opcode = opc, body = []\<rparr>"

definition Initialize :: "u16 \<Rightarrow> packet \<Rightarrow> packet" where
  "Initialize opc p = p\<lparr>body := [], opcode := opc\<rparr>"

text \<open>one or more \<open><<\<close> of the source, applied to the encoding of their values.\<close>

definition put :: "packet \<Rightarrow> u8 list \<Rightarrow> packet" where
  "put p bs = p\<lparr>body := body p @ bs\<rparr>"

lemma put_simps [simp]:
  "opcode (put p bs) = opcode p" "body (put p bs) = body p @ bs"
  "put (put p as) bs = put p (as @ bs)"
  by (simp_all add: put_def)

lemma Initialize_eq [simp]: "Initialize opc p = WorldPacket_new opc"
  by (simp add: Initialize_def WorldPacket_new_def)

section \<open>Players and sessions\<close>

record player =
  pl_guid :: guid
  pl_name :: string
  pl_account :: u64
  pl_in_world :: bool
  pl_security :: u32
  pl_team :: u32
  pl_guild :: u32
  pl_arena_team :: "nat \<Rightarrow> u32"    \<comment> \<open>\<open>GetArenaTeamId(slot)\<close>\<close>
  pl_in_group :: bool
  pl_lfg_empty :: bool
  pl_gm_visible :: bool
  pl_visible :: bool
  pl_gm_chat :: bool
  pl_afk :: bool
  pl_dnd :: bool
  pl_in_bg :: bool
  pl_bg_entry_zone :: "u32 option" \<comment> \<open>zone of the battleground entry point, \<open>None\<close> for \<open>MAPID_INVALID\<close>\<close>
  pl_zone :: u32
  pl_level :: u32
  pl_class :: u32
  pl_social :: player_social

abbreviation SEC_PLAYER :: u32 where "SEC_PLAYER \<equiv> 0"
abbreviation SEC_MODERATOR :: u32 where "SEC_MODERATOR \<equiv> 1"
abbreviation SEC_GAMEMASTER :: u32 where "SEC_GAMEMASTER \<equiv> 2"
abbreviation ALLIANCE :: u32 where "ALLIANCE \<equiv> 469"
abbreviation HORDE :: u32 where "HORDE \<equiv> 67"

record config =
  CONFIG_ALLOW_TWO_SIDE_INTERACTION_CHANNEL :: bool
  CONFIG_SILENTLY_GM_JOIN_TO_CHANNEL :: bool
  CONFIG_RESTRICTED_LFG_CHANNEL :: bool
  CONFIG_GM_IN_WHO_LIST :: bool
  CONFIG_ALLOW_TWO_SIDE_WHO_LIST :: bool
  CONFIG_ARENA_HIDE_FROM_SOCIAL :: bool
  CONFIG_ALLOW_GM_FRIEND :: bool
  CONFIG_ALLOW_TWO_SIDE_ADD_FRIEND :: bool

text \<open>\<open>w_names\<close> is the table \<open>characters\<close> by low guid, \<open>w_raf_link\<close> tells whether two players are
  linked by refer-a-friend.\<close>

record world =
  w_players :: "player list"
  w_names :: "u32 \<Rightarrow> string option"
  w_raf_link :: "guid \<Rightarrow> guid \<Rightarrow> bool"
  w_config :: config

definition GetObjectInWorld :: "world \<Rightarrow> guid \<Rightarrow> player option" where
  "GetObjectInWorld w g =
     (case find (\<lambda>p. pl_guid p = g) (w_players w) of
        Some p \<Rightarrow> if pl_in_world p then Some p else None
      | None \<Rightarrow> None)"

definition FindPlayer :: "world \<Rightarrow> guid \<Rightarrow> bool \<Rightarrow> player option" where
  "FindPlayer w g force =
     (if \<not> force then GetObjectInWorld w g else find (\<lambda>p. pl_guid p = g) (w_players w))"

definition FindPlayerByName :: "world \<Rightarrow> string \<Rightarrow> bool \<Rightarrow> player option" where
  "FindPlayerByName w name force =
     find (\<lambda>p. c_str name = c_str (pl_name p) \<and> (pl_in_world p \<or> force)) (w_players w)"

definition FindPlayerByAccountId :: "world \<Rightarrow> u64 \<Rightarrow> bool \<Rightarrow> player option" where
  "FindPlayerByAccountId w i force =
     find (\<lambda>p. pl_account p = i \<and> (pl_in_world p \<or> force)) (w_players w)"

abbreviation GetPlayer :: "world \<Rightarrow> guid \<Rightarrow> player option" where
  "GetPlayer w g \<equiv> FindPlayer w g False"

abbreviation GetPlayerByName :: "world \<Rightarrow> string \<Rightarrow> player option" where
  "GetPlayerByName w n \<equiv> FindPlayerByName w n False"

definition GetPlayerNameByGUID :: "world \<Rightarrow> guid \<Rightarrow> string option" where
  "GetPlayerNameByGUID w g =
     (case GetPlayer w g of Some p \<Rightarrow> Some (pl_name p) | None \<Rightarrow> w_names w (GUID_LOPART g))"

definition GetChatTag :: "player \<Rightarrow> u8" where
  "GetChatTag p =
     (let tag = 0;
          tag = (if pl_gm_chat p then set_flag tag 0x04 else tag);
          tag = (if pl_dnd p then set_flag tag 0x02 else tag)
      in if pl_afk p then set_flag tag 0x01 else tag)"

definition IsVisibleGloballyFor :: "player \<Rightarrow> player \<Rightarrow> bool" where
  "IsVisibleGloballyFor p u =
     (if pl_guid u = pl_guid p then True
      else if pl_visible p then True
      else if pl_security u > SEC_PLAYER then pl_security p \<le> pl_security u
      else True)"

section \<open>What an operation makes the server do\<close>

datatype effect =
    Send guid packet            \<comment> \<open>\<open>SendPacket\<close> on the session of a player\<close>
  | JoinedChannel guid string   \<comment> \<open>\<open>Player::JoinedChannel\<close>\<close>
  | LeftChannel guid string     \<comment> \<open>\<open>Player::LeftChannel\<close>\<close>

lemma GetPlayer_guid: "FindPlayer w g force = Some p \<Longrightarrow> pl_guid p = g"
  by (auto simp: FindPlayer_def GetObjectInWorld_def find_Some_iff split: if_splits option.splits)

lemma GetPlayer_in_world: "GetPlayer w g = Some p \<Longrightarrow> pl_in_world p"
  by (auto simp: FindPlayer_def GetObjectInWorld_def split: if_splits option.splits)

lemma GetPlayer_connected: "GetPlayer w g = Some p \<Longrightarrow> FindPlayer w g True = Some p"
  by (auto simp: FindPlayer_def GetObjectInWorld_def split: if_splits option.splits)

text \<open>\<open>data.put<uint32>(pos, value)\<close>: overwrite four bytes that were written before.\<close>

definition put_at :: "nat \<Rightarrow> u8 list \<Rightarrow> packet \<Rightarrow> packet" where
  "put_at pos bs p = p\<lparr>body := take pos (body p) @ bs @ drop (pos + length bs) (body p)\<rparr>"

text \<open>Whom a notice reaches: sending to one player needs him in the world.\<close>

definition send_to :: "world \<Rightarrow> guid \<Rightarrow> packet \<Rightarrow> effect list" where
  "send_to w g p = (case GetPlayer w g of None \<Rightarrow> [] | Some _ \<Rightarrow> [Send g p])"

definition security_of :: "world \<Rightarrow> guid \<Rightarrow> u32" where
  "security_of w g = (case GetPlayer w g of None \<Rightarrow> 0 | Some p \<Rightarrow> pl_security p)"

section \<open>A small world for examples\<close>

definition test_config :: config where
  "test_config = \<lparr>CONFIG_ALLOW_TWO_SIDE_INTERACTION_CHANNEL = False,
     CONFIG_SILENTLY_GM_JOIN_TO_CHANNEL = False, CONFIG_RESTRICTED_LFG_CHANNEL = False,
     CONFIG_GM_IN_WHO_LIST = False, CONFIG_ALLOW_TWO_SIDE_WHO_LIST = False,
     CONFIG_ARENA_HIDE_FROM_SOCIAL = False, CONFIG_ALLOW_GM_FRIEND = False,
     CONFIG_ALLOW_TWO_SIDE_ADD_FRIEND = False\<rparr>"

definition test_player :: "guid \<Rightarrow> string \<Rightarrow> player" where
  "test_player g n = \<lparr>pl_guid = g, pl_name = n, pl_account = g, pl_in_world = True, pl_security = 0,
     pl_team = ALLIANCE, pl_guild = 0, pl_arena_team = (\<lambda>_. 0), pl_in_group = False, pl_lfg_empty = True,
     pl_gm_visible = True, pl_visible = True, pl_gm_chat = False, pl_afk = False, pl_dnd = False,
     pl_in_bg = False, pl_bg_entry_zone = None, pl_zone = 12, pl_level = 60, pl_class = 1,
     pl_social = PlayerSocial_new\<rparr>"

definition test_world :: world where
  "test_world = \<lparr>w_players = [test_player 1 ''Ann'', test_player 2 ''Bob''], w_names = (\<lambda>_. None),
     w_raf_link = (\<lambda>_ _. False), w_config = test_config\<rparr>"

end
