(* ===== verification/Channel.thy ===== *)
theory Channel
  imports World
begin

text \<open>
  Chat channels (src/src/server/game/Chat/Channels/Channel.h and .cpp): members with their flags,
  bans, password, announcements, moderation and ownership. Every operation maps the channel to
  the new channel and the list of what it makes the server do, in order.
\<close>

section \<open>Data\<close>

abbreviation CHAT_JOINED_NOTICE :: u8 where "CHAT_JOINED_NOTICE \<equiv> 0x00"
abbreviation CHAT_LEFT_NOTICE :: u8 where "CHAT_LEFT_NOTICE \<equiv> 0x01"
abbreviation CHAT_YOU_JOINED_NOTICE :: u8 where "CHAT_YOU_JOINED_NOTICE \<equiv> 0x02"
abbreviation CHAT_YOU_LEFT_NOTICE :: u8 where "CHAT_YOU_LEFT_NOTICE \<equiv> 0x03"
abbreviation CHAT_WRONG_PASSWORD_NOTICE :: u8 where "CHAT_WRONG_PASSWORD_NOTICE \<equiv> 0x04"
abbreviation CHAT_NOT_MEMBER_NOTICE :: u8 where "CHAT_NOT_MEMBER_NOTICE \<equiv> 0x05"
abbreviation CHAT_NOT_MODERATOR_NOTICE :: u8 where "CHAT_NOT_MODERATOR_NOTICE \<equiv> 0x06"
abbreviation CHAT_PASSWORD_CHANGED_NOTICE :: u8 where "CHAT_PASSWORD_CHANGED_NOTICE \<equiv> 0x07"
abbreviation CHAT_OWNER_CHANGED_NOTICE :: u8 where "CHAT_OWNER_CHANGED_NOTICE \<equiv> 0x08"
abbreviation CHAT_PLAYER_NOT_FOUND_NOTICE :: u8 where "CHAT_PLAYER_NOT_FOUND_NOTICE \<equiv> 0x09"
abbreviation CHAT_NOT_OWNER_NOTICE :: u8 where "CHAT_NOT_OWNER_NOTICE \<equiv> 0x0A"
abbreviation CHAT_CHANNEL_OWNER_NOTICE :: u8 where "CHAT_CHANNEL_OWNER_NOTICE \<equiv> 0x0B"
abbreviation CHAT_MODE_CHANGE_NOTICE :: u8 where "CHAT_MODE_CHANGE_NOTICE \<equiv> 0x0C"
abbreviation CHAT_ANNOUNCEMENTS_ON_NOTICE :: u8 where "CHAT_ANNOUNCEMENTS_ON_NOTICE \<equiv> 0x0D"
abbreviation CHAT_ANNOUNCEMENTS_OFF_NOTICE :: u8 where "CHAT_ANNOUNCEMENTS_OFF_NOTICE \<equiv> 0x0E"
abbreviation CHAT_MODERATION_ON_NOTICE :: u8 where "CHAT_MODERATION_ON_NOTICE \<equiv> 0x0F"
abbreviation CHAT_MODERATION_OFF_NOTICE :: u8 where "CHAT_MODERATION_OFF_NOTICE \<equiv> 0x10"
abbreviation CHAT_MUTED_NOTICE :: u8 where "CHAT_MUTED_NOTICE \<equiv> 0x11"
abbreviation CHAT_PLAYER_KICKED_NOTICE :: u8 where "CHAT_PLAYER_KICKED_NOTICE \<equiv> 0x12"
abbreviation CHAT_BANNED_NOTICE :: u8 where "CHAT_BANNED_NOTICE \<equiv> 0x13"
abbreviation CHAT_PLAYER_BANNED_NOTICE :: u8 where "CHAT_PLAYER_BANNED_NOTICE \<equiv> 0x14"
abbreviation CHAT_PLAYER_UNBANNED_NOTICE :: u8 where "CHAT_PLAYER_UNBANNED_NOTICE \<equiv> 0x15"
abbreviation CHAT_PLAYER_NOT_BANNED_NOTICE :: u8 where "CHAT_PLAYER_NOT_BANNED_NOTICE \<equiv> 0x16"
abbreviation CHAT_PLAYER_ALREADY_MEMBER_NOTICE :: u8 where "CHAT_PLAYER_ALREADY_MEMBER_NOTICE \<equiv> 0x17"
abbreviation CHAT_INVITE_NOTICE :: u8 where "CHAT_INVITE_NOTICE \<equiv> 0x18"
abbreviation CHAT_INVITE_WRONG_FACTION_NOTICE :: u8 where "CHAT_INVITE_WRONG_FACTION_NOTICE \<equiv> 0x19"
abbreviation CHAT_WRONG_FACTION_NOTICE :: u8 where "CHAT_WRONG_FACTION_NOTICE \<equiv> 0x1A"
abbreviation CHAT_INVALID_NAME_NOTICE :: u8 where "CHAT_INVALID_NAME_NOTICE \<equiv> 0x1B"
abbreviation CHAT_NOT_MODERATED_NOTICE :: u8 where "CHAT_NOT_MODERATED_NOTICE \<equiv> 0x1C"
abbreviation CHAT_PLAYER_INVITED_NOTICE :: u8 where "CHAT_PLAYER_INVITED_NOTICE \<equiv> 0x1D"
abbreviation CHAT_PLAYER_INVITE_BANNED_NOTICE :: u8 where "CHAT_PLAYER_INVITE_BANNED_NOTICE \<equiv> 0x1E"
abbreviation CHAT_THROTTLED_NOTICE :: u8 where "CHAT_THROTTLED_NOTICE \<equiv> 0x1F"
abbreviation CHAT_NOT_IN_AREA_NOTICE :: u8 where "CHAT_NOT_IN_AREA_NOTICE \<equiv> 0x20"
abbreviation CHAT_NOT_IN_LFG_NOTICE :: u8 where "CHAT_NOT_IN_LFG_NOTICE \<equiv> 0x21"
abbreviation CHAT_VOICE_ON_NOTICE :: u8 where "CHAT_VOICE_ON_NOTICE \<equiv> 0x22"
abbreviation CHAT_VOICE_OFF_NOTICE :: u8 where "CHAT_VOICE_OFF_NOTICE \<equiv> 0x23"

abbreviation SMSG_CHANNEL_NOTIFY :: u16 where "SMSG_CHANNEL_NOTIFY \<equiv> 0x099"
abbreviation SMSG_CHANNEL_LIST :: u16 where "SMSG_CHANNEL_LIST \<equiv> 0x09B"
abbreviation SMSG_MESSAGECHAT :: u16 where "SMSG_MESSAGECHAT \<equiv> 0x096"
abbreviation SMSG_USERLIST_ADD :: u16 where "SMSG_USERLIST_ADD \<equiv> 0x3EF"
abbreviation SMSG_USERLIST_REMOVE :: u16 where "SMSG_USERLIST_REMOVE \<equiv> 0x3F0"
abbreviation SMSG_USERLIST_UPDATE :: u16 where "SMSG_USERLIST_UPDATE \<equiv> 0x3F1"
abbreviation CHAT_MSG_CHANNEL :: u8 where "CHAT_MSG_CHANNEL \<equiv> 0x11"
abbreviation LANG_UNIVERSAL :: u32 where "LANG_UNIVERSAL \<equiv> 0"

abbreviation CHANNEL_FLAG_CUSTOM :: u8 where "CHANNEL_FLAG_CUSTOM \<equiv> 0x01"
abbreviation CHANNEL_FLAG_TRADE :: u8 where "CHANNEL_FLAG_TRADE \<equiv> 0x04"
abbreviation CHANNEL_FLAG_NOT_LFG :: u8 where "CHANNEL_FLAG_NOT_LFG \<equiv> 0x08"
abbreviation CHANNEL_FLAG_GENERAL :: u8 where "CHANNEL_FLAG_GENERAL \<equiv> 0x10"
abbreviation CHANNEL_FLAG_CITY :: u8 where "CHANNEL_FLAG_CITY \<equiv> 0x20"
abbreviation CHANNEL_FLAG_LFG :: u8 where "CHANNEL_FLAG_LFG \<equiv> 0x40"

abbreviation CHANNEL_DBC_FLAG_TRADE :: u32 where "CHANNEL_DBC_FLAG_TRADE \<equiv> 0x00008"
abbreviation CHANNEL_DBC_FLAG_CITY_ONLY2 :: u32 where "CHANNEL_DBC_FLAG_CITY_ONLY2 \<equiv> 0x00020"
abbreviation CHANNEL_DBC_FLAG_LFG :: u32 where "CHANNEL_DBC_FLAG_LFG \<equiv> 0x40000"

abbreviation MEMBER_FLAG_NONE :: u8 where "MEMBER_FLAG_NONE \<equiv> 0x00"
abbreviation MEMBER_FLAG_OWNER :: u8 where "MEMBER_FLAG_OWNER \<equiv> 0x01"
abbreviation MEMBER_FLAG_MODERATOR :: u8 where "MEMBER_FLAG_MODERATOR \<equiv> 0x02"
abbreviation MEMBER_FLAG_MUTED :: u8 where "MEMBER_FLAG_MUTED \<equiv> 0x08"

record player_info =
  pi_player :: guid
  pi_flags :: u8

text \<open>What \<open>players[p]\<close> puts in place of a missing element: a value-initialised \<open>PlayerInfo\<close>.\<close>

definition PlayerInfo0 :: player_info where
  "PlayerInfo0 = \<lparr>pi_player = 0, pi_flags = 0\<rparr>"

definition IsOwner :: "player_info \<Rightarrow> bool" where "IsOwner i = has_flag (pi_flags i) MEMBER_FLAG_OWNER"
definition IsModerator :: "player_info \<Rightarrow> bool" where "IsModerator i = has_flag (pi_flags i) MEMBER_FLAG_MODERATOR"
definition IsMuted :: "player_info \<Rightarrow> bool" where "IsMuted i = has_flag (pi_flags i) MEMBER_FLAG_MUTED"

definition set_member_flag :: "u8 \<Rightarrow> bool \<Rightarrow> player_info \<Rightarrow> player_info" where
  "set_member_flag m state i =
     i\<lparr>pi_flags := (if state then set_flag (pi_flags i) m else clear_flag (pi_flags i) m)\<rparr>"

definition PI_SetOwner :: "bool \<Rightarrow> player_info \<Rightarrow> player_info" where
  "PI_SetOwner = set_member_flag MEMBER_FLAG_OWNER"

definition PI_SetModerator :: "bool \<Rightarrow> player_info \<Rightarrow> player_info" where
  "PI_SetModerator = set_member_flag MEMBER_FLAG_MODERATOR"

definition PI_SetMuted :: "bool \<Rightarrow> player_info \<Rightarrow> player_info" where
  "PI_SetMuted = set_member_flag MEMBER_FLAG_MUTED"

record channel =
  players :: "(guid \<times> player_info) list"
  banned :: "guid list"                  \<comment> \<open>a \<open>std::set\<close>, no duplicates\<close>
  m_name :: string
  m_announce :: bool
  m_moderate :: bool
  m_password :: string
  m_flags :: u8
  m_channelId :: u32
  m_ownerGUID :: guid

text \<open>\<open>entry\<close> is what \<open>GetChannelEntryFor(channel_id)\<close> finds: the flags of a built-in channel.\<close>

definition Channel_new :: "u32 option \<Rightarrow> string \<Rightarrow> u32 \<Rightarrow> channel" where
  "Channel_new entry name channel_id =
     (let c = \<lparr>players = [], banned = [], m_name = name, m_announce = True, m_moderate = False,
               m_password = [], m_flags = 0, m_channelId = channel_id, m_ownerGUID = 0\<rparr>
      in case entry of
           None \<Rightarrow> c\<lparr>m_flags := set_flag (m_flags c) CHANNEL_FLAG_CUSTOM\<rparr>
         | Some dbc \<Rightarrow>
             let f = set_flag (m_flags c) CHANNEL_FLAG_GENERAL;
                 f = (if has_flag dbc CHANNEL_DBC_FLAG_TRADE then set_flag f CHANNEL_FLAG_TRADE else f);
                 f = (if has_flag dbc CHANNEL_DBC_FLAG_CITY_ONLY2 then set_flag f CHANNEL_FLAG_CITY else f);
                 f = (if has_flag dbc CHANNEL_DBC_FLAG_LFG then set_flag f CHANNEL_FLAG_LFG
                      else set_flag f CHANNEL_FLAG_NOT_LFG)
             in c\<lparr>m_announce := False, m_flags := f\<rparr>)"

definition IsOn :: "guid \<Rightarrow> channel \<Rightarrow> bool" where "IsOn g c = sm_has g (players c)"
definition IsBanned :: "guid \<Rightarrow> channel \<Rightarrow> bool" where "IsBanned g c \<longleftrightarrow> g \<in> set (banned c)"
definition IsConstant :: "channel \<Rightarrow> bool" where "IsConstant c \<longleftrightarrow> m_channelId c \<noteq> 0"
definition Channel_HasFlag :: "u8 \<Rightarrow> channel \<Rightarrow> bool" where "Channel_HasFlag f c = has_flag (m_flags c) f"
definition GetNumPlayers :: "channel \<Rightarrow> u32" where "GetNumPlayers c = of_nat (length (players c))"

definition GetPlayerFlags :: "guid \<Rightarrow> channel \<Rightarrow> u8" where
  "GetPlayerFlags g c = (case sm_find g (players c) of None \<Rightarrow> 0 | Some i \<Rightarrow> pi_flags i)"

text \<open>\<open>players[g]\<close> read, and \<open>players[g].f(...)\<close>.\<close>

definition mem :: "guid \<Rightarrow> channel \<Rightarrow> player_info" where
  "mem g c = sm_at PlayerInfo0 g (players c)"

definition upd_member :: "(player_info \<Rightarrow> player_info) \<Rightarrow> guid \<Rightarrow> channel \<Rightarrow> channel" where
  "upd_member f g c = c\<lparr>players := sm_mutate PlayerInfo0 f g (players c)\<rparr>"

section \<open>Notices\<close>

definition MakeNotifyPacket :: "channel \<Rightarrow> u8 \<Rightarrow> packet" where
  "MakeNotifyPacket c ty = put (put (WorldPacket_new SMSG_CHANNEL_NOTIFY) (enc_u8 ty)) (enc_string (m_name c))"

definition MakeJoined :: "channel \<Rightarrow> guid \<Rightarrow> packet" where
  "MakeJoined c g = put (MakeNotifyPacket c CHAT_JOINED_NOTICE) (enc_u64 g)"

definition MakeLeft :: "channel \<Rightarrow> guid \<Rightarrow> packet" where
  "MakeLeft c g = put (MakeNotifyPacket c CHAT_LEFT_NOTICE) (enc_u64 g)"

definition MakeYouJoined :: "channel \<Rightarrow> packet" where
  "MakeYouJoined c = put (put (put (MakeNotifyPacket c CHAT_YOU_JOINED_NOTICE) (enc_u8 (m_flags c))) (enc_u32 (m_channelId c))) (enc_u32 0)"

definition MakeYouLeft :: "channel \<Rightarrow> packet" where
  "MakeYouLeft c = put (put (MakeNotifyPacket c CHAT_YOU_LEFT_NOTICE) (enc_u32 (m_channelId c))) (enc_u8 0)"

definition MakeWrongPassword :: "channel \<Rightarrow> packet" where
  "MakeWrongPassword c = MakeNotifyPacket c CHAT_WRONG_PASSWORD_NOTICE"

definition MakeNotMember :: "channel \<Rightarrow> packet" where
  "MakeNotMember c = MakeNotifyPacket c CHAT_NOT_MEMBER_NOTICE"

definition MakeNotModerator :: "channel \<Rightarrow> packet" where
  "MakeNotModerator c = MakeNotifyPacket c CHAT_NOT_MODERATOR_NOTICE"

definition MakePasswordChanged :: "channel \<Rightarrow> guid \<Rightarrow> packet" where
  "MakePasswordChanged c g = put (MakeNotifyPacket c CHAT_PASSWORD_CHANGED_NOTICE) (enc_u64 g)"

definition MakeOwnerChanged :: "channel \<Rightarrow> guid \<Rightarrow> packet" where
  "MakeOwnerChanged c g = put (MakeNotifyPacket c CHAT_OWNER_CHANGED_NOTICE) (enc_u64 g)"

definition MakePlayerNotFound :: "channel \<Rightarrow> string \<Rightarrow> packet" where
  "MakePlayerNotFound c name = put (MakeNotifyPacket c CHAT_PLAYER_NOT_FOUND_NOTICE) (enc_string name)"

definition MakeNotOwner :: "channel \<Rightarrow> packet" where
  "MakeNotOwner c = MakeNotifyPacket c CHAT_NOT_OWNER_NOTICE"

definition MakeChannelOwner :: "world \<Rightarrow> channel \<Rightarrow> packet" where
  "MakeChannelOwner w c =
     (let name = (case GetPlayerNameByGUID w (m_ownerGUID c) of
                    None \<Rightarrow> ''PLAYER_NOT_FOUND''
                  | Some n \<Rightarrow> if n = [] then ''PLAYER_NOT_FOUND'' else n)
      in put (MakeNotifyPacket c CHAT_CHANNEL_OWNER_NOTICE)
           (enc_string (if IsConstant c \<or> m_ownerGUID c = 0 then ''Nobody'' else name)))"

definition MakeModeChange :: "channel \<Rightarrow> guid \<Rightarrow> u8 \<Rightarrow> packet" where
  "MakeModeChange c g oldflags =
     put (put (put (MakeNotifyPacket c CHAT_MODE_CHANGE_NOTICE) (enc_u64 g)) (enc_u8 oldflags))
       (enc_u8 (GetPlayerFlags g c))"

definition MakeAnnouncementsOn :: "channel \<Rightarrow> guid \<Rightarrow> packet" where
  "MakeAnnouncementsOn c g = put (MakeNotifyPacket c CHAT_ANNOUNCEMENTS_ON_NOTICE) (enc_u64 g)"

definition MakeAnnouncementsOff :: "channel \<Rightarrow> guid \<Rightarrow> packet" where
  "MakeAnnouncementsOff c g = put (MakeNotifyPacket c CHAT_ANNOUNCEMENTS_OFF_NOTICE) (enc_u64 g)"

definition MakeModerationOn :: "channel \<Rightarrow> guid \<Rightarrow> packet" where
  "MakeModerationOn c g = put (MakeNotifyPacket c CHAT_MODERATION_ON_NOTICE) (enc_u64 g)"

definition MakeModerationOff :: "channel \<Rightarrow> guid \<Rightarrow> packet" where
  "MakeModerationOff c g = put (MakeNotifyPacket c CHAT_MODERATION_OFF_NOTICE) (enc_u64 g)"

definition MakeMuted :: "channel \<Rightarrow> packet" where
  "MakeMuted c = MakeNotifyPacket c CHAT_MUTED_NOTICE"

definition MakePlayerKicked :: "channel \<Rightarrow> guid \<Rightarrow> guid \<Rightarrow> packet" where
  "MakePlayerKicked c bad good = put (put (MakeNotifyPacket c CHAT_PLAYER_KICKED_NOTICE) (enc_u64 bad)) (enc_u64 good)"

definition MakeBanned :: "channel \<Rightarrow> packet" where
  "MakeBanned c = MakeNotifyPacket c CHAT_BANNED_NOTICE"

definition MakePlayerBanned :: "channel \<Rightarrow> guid \<Rightarrow> guid \<Rightarrow> packet" where
  "MakePlayerBanned c bad good = put (put (MakeNotifyPacket c CHAT_PLAYER_BANNED_NOTICE) (enc_u64 bad)) (enc_u64 good)"

definition MakePlayerUnbanned :: "channel \<Rightarrow> guid \<Rightarrow> guid \<Rightarrow> packet" where
  "MakePlayerUnbanned c bad good = put (put (MakeNotifyPacket c CHAT_PLAYER_UNBANNED_NOTICE) (enc_u64 bad)) (enc_u64 good)"

definition MakePlayerNotBanned :: "channel \<Rightarrow> guid \<Rightarrow> packet" where
  "MakePlayerNotBanned c g = put (MakeNotifyPacket c CHAT_PLAYER_NOT_BANNED_NOTICE) (enc_u64 g)"

definition MakePlayerAlreadyMember :: "channel \<Rightarrow> guid \<Rightarrow> packet" where
  "MakePlayerAlreadyMember c g = put (MakeNotifyPacket c CHAT_PLAYER_ALREADY_MEMBER_NOTICE) (enc_u64 g)"

definition MakeInvite :: "channel \<Rightarrow> guid \<Rightarrow> packet" where
  "MakeInvite c g = put (MakeNotifyPacket c CHAT_INVITE_NOTICE) (enc_u64 g)"

definition MakeInviteWrongFaction :: "channel \<Rightarrow> packet" where
  "MakeInviteWrongFaction c = MakeNotifyPacket c CHAT_INVITE_WRONG_FACTION_NOTICE"

definition MakeWrongFaction :: "channel \<Rightarrow> packet" where
  "MakeWrongFaction c = MakeNotifyPacket c CHAT_WRONG_FACTION_NOTICE"

definition MakeInvalidName :: "channel \<Rightarrow> packet" where
  "MakeInvalidName c = MakeNotifyPacket c CHAT_INVALID_NAME_NOTICE"

definition MakeNotModerated :: "channel \<Rightarrow> packet" where
  "MakeNotModerated c = MakeNotifyPacket c CHAT_NOT_MODERATED_NOTICE"

definition MakePlayerInvited :: "channel \<Rightarrow> string \<Rightarrow> packet" where
  "MakePlayerInvited c name = put (MakeNotifyPacket c CHAT_PLAYER_INVITED_NOTICE) (enc_string name)"

definition MakePlayerInviteBanned :: "channel \<Rightarrow> guid \<Rightarrow> packet" where
  "MakePlayerInviteBanned c g = put (MakeNotifyPacket c CHAT_PLAYER_INVITE_BANNED_NOTICE) (enc_u64 g)"

definition MakeThrottled :: "channel \<Rightarrow> packet" where
  "MakeThrottled c = MakeNotifyPacket c CHAT_THROTTLED_NOTICE"

definition MakeNotInArea :: "channel \<Rightarrow> packet" where
  "MakeNotInArea c = MakeNotifyPacket c CHAT_NOT_IN_AREA_NOTICE"

definition MakeNotInLfg :: "channel \<Rightarrow> packet" where
  "MakeNotInLfg c = MakeNotifyPacket c CHAT_NOT_IN_LFG_NOTICE"

definition MakeVoiceOn :: "channel \<Rightarrow> guid \<Rightarrow> packet" where
  "MakeVoiceOn c g = put (MakeNotifyPacket c CHAT_VOICE_ON_NOTICE) (enc_u64 g)"

definition MakeVoiceOff :: "channel \<Rightarrow> guid \<Rightarrow> packet" where
  "MakeVoiceOff c g = put (MakeNotifyPacket c CHAT_VOICE_OFF_NOTICE) (enc_u64 g)"

section \<open>Sending\<close>

definition SendToAll :: "world \<Rightarrow> packet \<Rightarrow> guid \<Rightarrow> channel \<Rightarrow> effect list" where
  "SendToAll w data p c =
     concat (map (\<lambda>m. case FindPlayer w (fst m) True of
                        None \<Rightarrow> []
                      | Some plr \<Rightarrow>
                          if p = 0 \<or> \<not> HasIgnore (GUID_LOPART p) (pl_social plr)
                          then [Send (fst m) data] else [])
               (players c))"

definition SendToAllButOne :: "world \<Rightarrow> packet \<Rightarrow> guid \<Rightarrow> channel \<Rightarrow> effect list" where
  "SendToAllButOne w data who c =
     concat (map (\<lambda>m. if fst m \<noteq> who then send_to w (fst m) data else []) (players c))"

abbreviation SendToOne :: "world \<Rightarrow> packet \<Rightarrow> guid \<Rightarrow> effect list" where
  "SendToOne w data who \<equiv> send_to w who data"

definition JoinNotify :: "world \<Rightarrow> guid \<Rightarrow> channel \<Rightarrow> effect list" where
  "JoinNotify w g c =
     SendToAll w
       (put (put (put (put (put
          (WorldPacket_new (if IsConstant c then SMSG_USERLIST_ADD else SMSG_USERLIST_UPDATE))
          (enc_u64 g)) (enc_u8 (GetPlayerFlags g c))) (enc_u8 (m_flags c)))
          (enc_u32 (GetNumPlayers c))) (enc_string (m_name c))) 0 c"

definition LeaveNotify :: "world \<Rightarrow> guid \<Rightarrow> channel \<Rightarrow> effect list" where
  "LeaveNotify w g c =
     SendToAll w
       (put (put (put (put (WorldPacket_new SMSG_USERLIST_REMOVE)
          (enc_u64 g)) (enc_u8 (m_flags c))) (enc_u32 (GetNumPlayers c))) (enc_string (m_name c))) 0 c"

text \<open>The announcement of a join or leave is kept silent for game masters when so configured.\<close>

definition announces :: "world \<Rightarrow> guid \<Rightarrow> channel \<Rightarrow> bool" where
  "announces w p c \<longleftrightarrow> m_announce c \<and>
     (case GetPlayer w p of
        None \<Rightarrow> True
      | Some plr \<Rightarrow> pl_security plr < SEC_GAMEMASTER \<or> \<not> CONFIG_SILENTLY_GM_JOIN_TO_CHANNEL (w_config w))"

section \<open>Operations\<close>

definition SetOwner_guid :: "world \<Rightarrow> guid \<Rightarrow> bool \<Rightarrow> channel \<Rightarrow> channel \<times> effect list" where
  "SetOwner_guid w g exclaim c =
     (let c1 = (if m_ownerGUID c \<noteq> 0 \<and> sm_has (m_ownerGUID c) (players c)
                then upd_member (PI_SetOwner False) (m_ownerGUID c) c else c);
          c2 = c1\<lparr>m_ownerGUID := g\<rparr>
      in if g = 0 then (c2, [])
         else
           let oldFlag = GetPlayerFlags g c2;
               c3 = upd_member (PI_SetOwner True) g (upd_member (PI_SetModerator True) g c2)
           in (c3, SendToAll w (MakeModeChange c3 g oldFlag) 0 c3
                   @ (if exclaim then SendToAll w (MakeOwnerChanged c3 g) 0 c3 else [])))"

definition Channel_SetModerator :: "world \<Rightarrow> guid \<Rightarrow> bool \<Rightarrow> channel \<Rightarrow> channel \<times> effect list" where
  "Channel_SetModerator w p on c =
     (let c1 = upd_member (\<lambda>i. i) p c
      in if IsModerator (mem p c1) \<noteq> on
         then let c2 = upd_member (PI_SetModerator on) p c1
              in (c2, SendToAll w (MakeModeChange c2 p (GetPlayerFlags p c1)) 0 c2)
         else (c1, []))"

definition Channel_SetMute :: "world \<Rightarrow> guid \<Rightarrow> bool \<Rightarrow> channel \<Rightarrow> channel \<times> effect list" where
  "Channel_SetMute w p on c =
     (let c1 = upd_member (\<lambda>i. i) p c
      in if IsMuted (mem p c1) \<noteq> on
         then let c2 = upd_member (PI_SetMuted on) p c1
              in (c2, SendToAll w (MakeModeChange c2 p (GetPlayerFlags p c1)) 0 c2)
         else (c1, []))"

text \<open>The part of \<open>Join\<close> that follows the checks of a player who is in the world.\<close>

definition join_member :: "world \<Rightarrow> guid \<Rightarrow> channel \<Rightarrow> channel \<times> effect list" where
  "join_member w p c =
     (let ann = (if announces w p c then SendToAll w (MakeJoined c p) 0 c else []);
          c1 = c\<lparr>players := sm_set p \<lparr>pi_player = p, pi_flags = MEMBER_FLAG_NONE\<rparr> (players c)\<rparr>;
          out = ann @ SendToOne w (MakeYouJoined c1) p @ JoinNotify w p c1
      in if \<not> IsConstant c1 \<and> m_ownerGUID c1 = 0
         then (case SetOwner_guid w p (length (players c1) > 1) c1 of
                 (c2, es) \<Rightarrow> (upd_member (PI_SetModerator True) p c2, out @ es))
         else (c1, out))"

definition Join :: "world \<Rightarrow> guid \<Rightarrow> string \<Rightarrow> channel \<Rightarrow> channel \<times> effect list" where
  "Join w p pass c =
     (if IsOn p c then (c, if IsConstant c then [] else SendToOne w (MakePlayerAlreadyMember c p) p)
      else if IsBanned p c then (c, SendToOne w (MakeBanned c) p)
      else if m_password c \<noteq> [] \<and> c_str pass \<noteq> c_str (m_password c)
      then (c, SendToOne w (MakeWrongPassword c) p)
      else case GetPlayer w p of
          None \<Rightarrow> join_member w p c
        | Some plr \<Rightarrow>
            if Channel_HasFlag CHANNEL_FLAG_LFG c \<and> CONFIG_RESTRICTED_LFG_CHANNEL (w_config w)
               \<and> pl_security plr = SEC_PLAYER \<and> (pl_in_group plr \<or> pl_lfg_empty plr)
            then (c, SendToOne w (MakeNotInLfg c) p)
            else if pl_guild plr \<noteq> 0 \<and> m_flags c = 0x38 then (c, [])
            else case join_member w p c of (c', es) \<Rightarrow> (c', JoinedChannel p (m_name c) # es))"

definition Leave :: "world \<Rightarrow> guid \<Rightarrow> bool \<Rightarrow> channel \<Rightarrow> channel \<times> effect list" where
  "Leave w p send c =
     (if \<not> IsOn p c then (c, if send then SendToOne w (MakeNotMember c) p else [])
      else
        let told = (if send
                    then SendToOne w (MakeYouLeft c) p
                         @ (case GetPlayer w p of None \<Rightarrow> [] | Some _ \<Rightarrow> [LeftChannel p (m_name c)])
                    else []);
            changeowner = IsOwner (mem p c);
            c1 = c\<lparr>players := sm_erase p (players c)\<rparr>;
            out = told @ (if announces w p c1 then SendToAll w (MakeLeft c1 p) 0 c1 else [])
                  @ LeaveNotify w p c1
        in if changeowner
           then let newowner = (case players c1 of [] \<Rightarrow> 0 | m # _ \<Rightarrow> pi_player (snd m))
                in (case SetOwner_guid w newowner True (upd_member (PI_SetModerator True) newowner c1) of
                      (c2, es) \<Rightarrow> (c2, out @ es))
           else (c1, out))"

definition KickOrBan :: "world \<Rightarrow> guid \<Rightarrow> string \<Rightarrow> bool \<Rightarrow> channel \<Rightarrow> channel \<times> effect list" where
  "KickOrBan w good badname ban c =
     (let sec = security_of w good
      in if \<not> IsOn good c then (c, SendToOne w (MakeNotMember c) good)
         else if \<not> IsModerator (mem good c) \<and> sec < SEC_GAMEMASTER
         then (c, SendToOne w (MakeNotModerator c) good)
         else case GetPlayerByName w badname of
             None \<Rightarrow> (c, SendToOne w (MakePlayerNotFound c (c_str badname)) good)
           | Some badp \<Rightarrow>
               let bad = pl_guid badp
               in if \<not> IsOn bad c then (c, SendToOne w (MakePlayerNotFound c (c_str badname)) good)
                  else if sec < SEC_GAMEMASTER \<and> bad = m_ownerGUID c \<and> good \<noteq> m_ownerGUID c
                  then (c, SendToOne w (MakeNotOwner c) good)
                  else
                    let changeowner = (m_ownerGUID c = bad);
                        c1 = (if ban \<and> \<not> IsBanned bad c then c\<lparr>banned := bad # banned c\<rparr> else c);
                        data = (if ban \<and> \<not> IsBanned bad c then MakePlayerBanned c1 bad good
                                else MakePlayerKicked c1 bad good);
                        c2 = c1\<lparr>players := sm_erase bad (players c1)\<rparr>;
                        out = SendToAll w data 0 c1 @ [LeftChannel bad (m_name c)]
                    in if changeowner
                       then let newowner = (if players c2 \<noteq> [] then good else 0)
                            in (case SetOwner_guid w newowner True (upd_member (PI_SetModerator True) newowner c2) of
                                  (c3, es) \<Rightarrow> (c3, out @ es))
                       else (c2, out))"

text \<open>
  \<open>UnBan\<close>, \<open>Password\<close>, \<open>Announce\<close> and \<open>Moderate\<close> repeat the same two checks of the acting player.
\<close>

definition UnBan :: "world \<Rightarrow> guid \<Rightarrow> string \<Rightarrow> channel \<Rightarrow> channel \<times> effect list" where
  "UnBan w good badname c =
     (let sec = security_of w good
      in if \<not> IsOn good c then (c, SendToOne w (MakeNotMember c) good)
         else if \<not> IsModerator (mem good c) \<and> sec < SEC_GAMEMASTER
         then (c, SendToOne w (MakeNotModerator c) good)
         else case GetPlayerByName w badname of
             None \<Rightarrow> (c, SendToOne w (MakePlayerNotFound c (c_str badname)) good)
           | Some badp \<Rightarrow>
               if \<not> IsBanned (pl_guid badp) c
               then (c, SendToOne w (MakePlayerNotFound c (c_str badname)) good)
               else let c1 = c\<lparr>banned := removeAll (pl_guid badp) (banned c)\<rparr>
                    in (c1, SendToAll w (MakePlayerUnbanned c1 (pl_guid badp) good) 0 c1))"

definition Password :: "world \<Rightarrow> guid \<Rightarrow> string \<Rightarrow> channel \<Rightarrow> channel \<times> effect list" where
  "Password w p pass c =
     (let sec = security_of w p
      in if \<not> IsOn p c then (c, SendToOne w (MakeNotMember c) p)
         else if \<not> IsModerator (mem p c) \<and> sec < SEC_GAMEMASTER
         then (c, SendToOne w (MakeNotModerator c) p)
         else let c1 = c\<lparr>m_password := c_str pass\<rparr>
              in (c1, SendToAll w (MakePasswordChanged c1 p) 0 c1))"

definition SetMode :: "world \<Rightarrow> guid \<Rightarrow> string \<Rightarrow> bool \<Rightarrow> bool \<Rightarrow> channel \<Rightarrow> channel \<times> effect list" where
  "SetMode w p p2n md on c =
     (case GetPlayer w p of
        None \<Rightarrow> (c, [])
      | Some plr \<Rightarrow>
          let sec = pl_security plr
          in if \<not> IsOn p c then (c, SendToOne w (MakeNotMember c) p)
             else if \<not> IsModerator (mem p c) \<and> sec < SEC_GAMEMASTER
             then (c, SendToOne w (MakeNotModerator c) p)
             else case GetPlayerByName w p2n of
                 None \<Rightarrow> (c, SendToOne w (MakePlayerNotFound c (c_str p2n)) p)
               | Some newp \<Rightarrow>
                   if \<not> pl_gm_visible newp then (c, SendToOne w (MakePlayerNotFound c (c_str p2n)) p)
                   else if p = m_ownerGUID c \<and> pl_guid newp = m_ownerGUID c \<and> md then (c, [])
                   else if \<not> IsOn (pl_guid newp) c then (c, SendToOne w (MakePlayerNotFound c (c_str p2n)) p)
                   else if (pl_security plr < SEC_GAMEMASTER \<or> pl_security newp < SEC_GAMEMASTER)
                      \<and> pl_team plr \<noteq> pl_team newp
                      \<and> \<not> CONFIG_ALLOW_TWO_SIDE_INTERACTION_CHANNEL (w_config w)
                   then (c, SendToOne w (MakePlayerNotFound c (c_str p2n)) p)
                   else if m_ownerGUID c = pl_guid newp \<and> m_ownerGUID c \<noteq> p
                   then (c, SendToOne w (MakeNotOwner c) p)
                   else if md then Channel_SetModerator w (pl_guid newp) on c
                   else Channel_SetMute w (pl_guid newp) on c)"

definition SetOwner_name :: "world \<Rightarrow> guid \<Rightarrow> string \<Rightarrow> channel \<Rightarrow> channel \<times> effect list" where
  "SetOwner_name w p newname c =
     (case GetPlayer w p of
        None \<Rightarrow> (c, [])
      | Some plr \<Rightarrow>
          if \<not> IsOn p c then (c, SendToOne w (MakeNotMember c) p)
          else if pl_security plr < SEC_GAMEMASTER \<and> p \<noteq> m_ownerGUID c
          then (c, SendToOne w (MakeNotOwner c) p)
          else case GetPlayerByName w newname of
              None \<Rightarrow> (c, SendToOne w (MakePlayerNotFound c (c_str newname)) p)
            | Some newp \<Rightarrow>
                if \<not> IsOn (pl_guid newp) c then (c, SendToOne w (MakePlayerNotFound c (c_str newname)) p)
                else if pl_team newp \<noteq> pl_team plr
                   \<and> \<not> CONFIG_ALLOW_TWO_SIDE_INTERACTION_CHANNEL (w_config w)
                then (c, SendToOne w (MakePlayerNotFound c (c_str newname)) p)
                else SetOwner_guid w (pl_guid newp) True (upd_member (PI_SetModerator True) (pl_guid newp) c))"

definition SendWhoOwner :: "world \<Rightarrow> guid \<Rightarrow> channel \<Rightarrow> effect list" where
  "SendWhoOwner w p c =
     (if \<not> IsOn p c then SendToOne w (MakeNotMember c) p else SendToOne w (MakeChannelOwner w c) p)"

text \<open>The loop of \<open>List\<close>: the packet and the count after the remaining members.\<close>

fun list_loop :: "world \<Rightarrow> player \<Rightarrow> bool \<Rightarrow> (guid \<times> player_info) list \<Rightarrow> packet \<Rightarrow> u32 \<Rightarrow> packet \<times> u32" where
  "list_loop w viewer gm [] data n = (data, n)"
| "list_loop w viewer gm (m # ms) data n =
     (case GetPlayer w (fst m) of
        None \<Rightarrow> list_loop w viewer gm ms data n
      | Some plr \<Rightarrow>
          if pl_security plr = SEC_PLAYER \<or> (gm \<and> IsVisibleGloballyFor plr viewer)
          then list_loop w viewer gm ms
                 (put (put data (enc_u64 (fst m))) (enc_u8 (pi_flags (snd m)))) (n + 1)
          else list_loop w viewer gm ms data n)"

definition Channel_List :: "world \<Rightarrow> player \<Rightarrow> channel \<Rightarrow> effect list" where
  "Channel_List w viewer c =
     (let p = pl_guid viewer
      in if \<not> IsOn p c then SendToOne w (MakeNotMember c) p
         else
           let data = put (put (put (WorldPacket_new SMSG_CHANNEL_LIST) (enc_u8 1)) (enc_string (m_name c)))
                        (enc_u8 (m_flags c));
               pos = length (body data);
               gm = (CONFIG_GM_IN_WHO_LIST (w_config w) \<or> pl_security viewer > SEC_PLAYER)
           in case list_loop w viewer gm (players c) (put data (enc_u32 0)) 0 of
                (data', n) \<Rightarrow> SendToOne w (put_at pos (enc_u32 n) data') p)"

definition Announce :: "world \<Rightarrow> guid \<Rightarrow> channel \<Rightarrow> channel \<times> effect list" where
  "Announce w p c =
     (let sec = security_of w p
      in if \<not> IsOn p c then (c, SendToOne w (MakeNotMember c) p)
         else if \<not> IsModerator (mem p c) \<and> sec < SEC_GAMEMASTER
         then (c, SendToOne w (MakeNotModerator c) p)
         else let c1 = c\<lparr>m_announce := \<not> m_announce c\<rparr>
              in (c1, SendToAll w (if m_announce c1 then MakeAnnouncementsOn c1 p else MakeAnnouncementsOff c1 p) 0 c1))"

definition Moderate :: "world \<Rightarrow> guid \<Rightarrow> channel \<Rightarrow> channel \<times> effect list" where
  "Moderate w p c =
     (let sec = security_of w p
      in if \<not> IsOn p c then (c, SendToOne w (MakeNotMember c) p)
         else if \<not> IsModerator (mem p c) \<and> sec < SEC_GAMEMASTER
         then (c, SendToOne w (MakeNotModerator c) p)
         else let c1 = c\<lparr>m_moderate := \<not> m_moderate c\<rparr>
              in (c1, SendToAll w (if m_moderate c1 then MakeModerationOn c1 p else MakeModerationOff c1 p) 0 c1))"

definition MakeMessage :: "world \<Rightarrow> guid \<Rightarrow> string \<Rightarrow> u32 \<Rightarrow> channel \<Rightarrow> packet" where
  "MakeMessage w p what lang c =
     put (put (put (put (put (put (put (put (put (WorldPacket_new SMSG_MESSAGECHAT)
       (enc_u8 CHAT_MSG_CHANNEL)) (enc_u32 lang)) (enc_u64 p)) (enc_u32 0)) (enc_string (m_name c)))
       (enc_u64 p)) (enc_u32 (of_nat (length (c_str what)) + 1))) (enc_cstr (Some what)))
       (enc_u8 (case GetPlayer w p of None \<Rightarrow> 0 | Some plr \<Rightarrow> GetChatTag plr))"

definition Say :: "world \<Rightarrow> guid \<Rightarrow> string option \<Rightarrow> u32 \<Rightarrow> channel \<Rightarrow> effect list" where
  "Say w p what lang0 c =
     (case what of
        None \<Rightarrow> []
      | Some txt \<Rightarrow>
          let lang = (if CONFIG_ALLOW_TWO_SIDE_INTERACTION_CHANNEL (w_config w) then LANG_UNIVERSAL else lang0);
              sec = security_of w p
          in if \<not> IsOn p c then SendToOne w (MakeNotMember c) p
             else if IsMuted (mem p c) then SendToOne w (MakeMuted c) p
             else if m_moderate c \<and> \<not> IsModerator (mem p c) \<and> sec < SEC_GAMEMASTER
             then SendToOne w (MakeNotModerator c) p
             else SendToAll w (MakeMessage w p txt lang c) (if \<not> IsModerator (mem p c) then p else 0) c)"

definition Invite :: "world \<Rightarrow> guid \<Rightarrow> string \<Rightarrow> channel \<Rightarrow> effect list" where
  "Invite w p newname c =
     (if \<not> IsOn p c then SendToOne w (MakeNotMember c) p
      else case GetPlayerByName w newname of
          None \<Rightarrow> SendToOne w (MakePlayerNotFound c (c_str newname)) p
        | Some newp \<Rightarrow>
            (case GetPlayer w p of
               None \<Rightarrow> []
             | Some plr \<Rightarrow>
                 if pl_team newp \<noteq> pl_team plr \<and> \<not> CONFIG_ALLOW_TWO_SIDE_INTERACTION_CHANNEL (w_config w)
                 then SendToOne w (MakeInviteWrongFaction c) p
                 else if IsOn (pl_guid newp) c then SendToOne w (MakePlayerAlreadyMember c (pl_guid newp)) p
                 else (if \<not> HasIgnore (GUID_LOPART p) (pl_social newp)
                       then SendToOne w (MakeInvite c p) (pl_guid newp) else [])
                      @ SendToOne w (MakePlayerInvited c (pl_name newp)) p))"

end
