(* ===== verification/ChannelLaws.thy ===== *)
theory ChannelLaws
  imports Channel
begin

text \<open>
  What the channel operations keep and do: the ownership invariant over every reachable channel, the
  contract shared by the moderation commands, admission, speech, the member list packet, and two
  behaviours that break the bookkeeping of members.
\<close>

section \<open>Members\<close>

lemma PI_flags [simp]:
  "IsOwner (PI_SetOwner b i) = b" "IsModerator (PI_SetOwner b i) = IsModerator i"
  "IsOwner (PI_SetModerator b i) = IsOwner i" "IsModerator (PI_SetModerator b i) = b"
  "IsOwner (PI_SetMuted b i) = IsOwner i" "IsModerator (PI_SetMuted b i) = IsModerator i"
  "pi_player (PI_SetOwner b i) = pi_player i" "pi_player (PI_SetModerator b i) = pi_player i"
  "\<not> IsOwner PlayerInfo0" "\<not> IsModerator PlayerInfo0" "\<not> IsMuted PlayerInfo0"
  by (auto simp: PI_SetOwner_def PI_SetModerator_def PI_SetMuted_def set_member_flag_def IsOwner_def
      IsModerator_def IsMuted_def PlayerInfo0_def flag_laws)

lemma mem_upd [simp]: "mem g (upd_member f k c) = (if g = k then f (mem k c) else mem g c)"
  by (simp add: mem_def upd_member_def sm_at_def sm_find_mutate)

lemma IsOn_upd [simp]: "IsOn g (upd_member f k c) \<longleftrightarrow> g = k \<or> IsOn g c"
  by (simp add: IsOn_def upd_member_def)

lemma upd_member_frame [simp]:
  "m_ownerGUID (upd_member f k c) = m_ownerGUID c" "banned (upd_member f k c) = banned c"
  "m_name (upd_member f k c) = m_name c" "m_flags (upd_member f k c) = m_flags c"
  "m_channelId (upd_member f k c) = m_channelId c" "m_announce (upd_member f k c) = m_announce c"
  "m_password (upd_member f k c) = m_password c"
  by (simp_all add: upd_member_def)

lemma mem_absent: "\<not> IsOn g c \<Longrightarrow> mem g c = PlayerInfo0"
  by (auto simp: mem_def IsOn_def sm_at_def sm_has_def)

lemma IsOwner_on: "IsOwner (mem g c) \<Longrightarrow> IsOn g c"
  by (rule ccontr) (simp add: mem_absent)

lemma mem_update [simp]:
  "mem g (c\<lparr>banned := b\<rparr>) = mem g c" "mem g (c\<lparr>m_ownerGUID := o'\<rparr>) = mem g c"
  "mem g (c\<lparr>m_password := pw\<rparr>) = mem g c" "mem g (c\<lparr>m_announce := a\<rparr>) = mem g c"
  "mem g (c\<lparr>m_moderate := a\<rparr>) = mem g c"
  "mem g (c\<lparr>players := sm_erase k (players c)\<rparr>) = (if g = k then PlayerInfo0 else mem g c)"
  "mem g (c\<lparr>players := sm_set k i (players c)\<rparr>) = (if g = k then i else mem g c)"
  by (simp_all add: mem_def sm_at_def sm.find_del sm.find_put)

lemma IsOn_update [simp]:
  "IsOn g (c\<lparr>banned := b\<rparr>) = IsOn g c" "IsOn g (c\<lparr>m_ownerGUID := o'\<rparr>) = IsOn g c"
  "IsOn g (c\<lparr>m_password := pw\<rparr>) = IsOn g c" "IsOn g (c\<lparr>m_announce := a\<rparr>) = IsOn g c"
  "IsOn g (c\<lparr>m_moderate := a\<rparr>) = IsOn g c"
  "IsOn g (c\<lparr>players := sm_erase k (players c)\<rparr>) \<longleftrightarrow> g \<noteq> k \<and> IsOn g c"
  "IsOn g (c\<lparr>players := sm_set k i (players c)\<rparr>) \<longleftrightarrow> g = k \<or> IsOn g c"
  by (simp_all add: IsOn_def)

lemma IsOn_ban [simp]:
  "IsOn g (c\<lparr>banned := b, players := sm_erase k (players c)\<rparr>) \<longleftrightarrow> g \<noteq> k \<and> IsOn g c"
  by (simp add: IsOn_def)

section \<open>Ownership\<close>

text \<open>
  \<open>owner_flags\<close>: nobody but the recorded owner carries the owner flag. \<open>chan_inv\<close>: moreover the
  recorded owner, when there is one, carries it and is a moderator.
\<close>

definition owner_flags :: "channel \<Rightarrow> bool" where
  "owner_flags c \<longleftrightarrow> sm_wf (players c) \<and>
     (\<forall>g. IsOwner (mem g c) \<longrightarrow> g = m_ownerGUID c \<and> g \<noteq> 0)"

definition chan_inv :: "channel \<Rightarrow> bool" where
  "chan_inv c \<longleftrightarrow> owner_flags c \<and>
     (m_ownerGUID c \<noteq> 0 \<longrightarrow> IsOwner (mem (m_ownerGUID c) c) \<and> IsModerator (mem (m_ownerGUID c) c))"

lemma chan_inv_new: "chan_inv (Channel_new e n i)"
  by (auto simp: chan_inv_def owner_flags_def Channel_new_def Let_def mem_def sm_at_def split: option.splits)

lemma wf_upd: "sm_wf (players c) \<Longrightarrow> sm_wf (players (upd_member f k c))"
  by (simp add: upd_member_def sm_wf_mutate)

lemma owner_flags_upd:
  "owner_flags c \<Longrightarrow> (\<And>i. IsOwner (f i) = IsOwner i) \<Longrightarrow> owner_flags (upd_member f k c)"
  by (auto simp: owner_flags_def wf_upd split: if_splits)

lemma SetOwner_guid_inv:
  assumes "owner_flags c"
  shows "chan_inv (fst (SetOwner_guid w g ex c))" "m_ownerGUID (fst (SetOwner_guid w g ex c)) = g"
proof -
  define c1 where "c1 = (if m_ownerGUID c \<noteq> 0 \<and> sm_has (m_ownerGUID c) (players c)
                then upd_member (PI_SetOwner False) (m_ownerGUID c) c else c)"
  have none: "\<not> IsOwner (mem k c1)" for k
  proof (cases "m_ownerGUID c \<noteq> 0 \<and> IsOn (m_ownerGUID c) c")
    case True
    then show ?thesis using assms by (auto simp: c1_def owner_flags_def IsOn_def)
  next
    case False
    then show ?thesis using assms IsOwner_on[of k c]
      by (auto simp: c1_def owner_flags_def IsOn_def)
  qed
  have wf: "sm_wf (players c1)" using assms by (simp add: c1_def owner_flags_def wf_upd)
  have r: "fst (SetOwner_guid w g ex c) = (if g = 0 then c1\<lparr>m_ownerGUID := g\<rparr>
      else upd_member (PI_SetOwner True) g (upd_member (PI_SetModerator True) g (c1\<lparr>m_ownerGUID := g\<rparr>)))"
    by (simp add: SetOwner_guid_def c1_def Let_def)
  show "m_ownerGUID (fst (SetOwner_guid w g ex c)) = g" by (simp add: r)
  have "sm_wf (players (fst (SetOwner_guid w g ex c)))" unfolding r using wf by (simp add: wf_upd)
  then show "chan_inv (fst (SetOwner_guid w g ex c))"
    unfolding chan_inv_def owner_flags_def by (auto simp: r none)
qed

lemma owner_flags_erase: "owner_flags c \<Longrightarrow> owner_flags (c\<lparr>players := sm_erase k (players c)\<rparr>)"
  by (auto simp: owner_flags_def sm.wf_del split: if_splits)

lemma chan_inv_owner_flags: "chan_inv c \<Longrightarrow> owner_flags c"
  by (simp add: chan_inv_def)

lemma chan_inv_erase:
  "chan_inv c \<Longrightarrow> k \<noteq> m_ownerGUID c \<Longrightarrow> chan_inv (c\<lparr>players := sm_erase k (players c)\<rparr>)"
  using owner_flags_erase[of c k] by (simp add: chan_inv_def)

lemma chan_inv_cong:
  "players c' = players c \<Longrightarrow> m_ownerGUID c' = m_ownerGUID c \<Longrightarrow> chan_inv c' = chan_inv c"
  by (simp add: chan_inv_def owner_flags_def mem_def)

lemma chan_inv_upd:
  assumes "chan_inv c" "\<And>i. IsOwner (f i) = IsOwner i"
    and "k = m_ownerGUID c \<Longrightarrow> k \<noteq> 0 \<Longrightarrow> IsModerator (f (mem k c))"
  shows "chan_inv (upd_member f k c)"
  using assms(1,3) owner_flags_upd[OF chan_inv_owner_flags[OF assms(1)] assms(2), of k] assms(2)
  by (auto simp: chan_inv_def)

subsection \<open>Every operation keeps it\<close>

lemma join_member_inv:
  assumes "chan_inv c" "\<not> IsOn p c"
  shows "chan_inv (fst (join_member w p c))"
proof -
  define c1 where "c1 = c\<lparr>players := sm_set p \<lparr>pi_player = p, pi_flags = MEMBER_FLAG_NONE\<rparr> (players c)\<rparr>"
  have new: "\<not> IsOwner \<lparr>pi_player = p, pi_flags = 0\<rparr>" by (simp add: IsOwner_def)
  have "owner_flags c1"
    using assms(1) new by (auto simp: chan_inv_def owner_flags_def c1_def sm.wf_put split: if_splits)
  moreover have "m_ownerGUID c \<noteq> p" if "m_ownerGUID c \<noteq> 0"
    using assms that IsOwner_on[of "m_ownerGUID c" c] by (auto simp: chan_inv_def)
  ultimately have c1: "owner_flags c1" "chan_inv c1"
    using assms(1) by (auto simp: chan_inv_def c1_def)
  obtain c2 es where so: "SetOwner_guid w p (length (players c1) > 1) c1 = (c2, es)" by fastforce
  then have "chan_inv c2" "m_ownerGUID c2 = p"
    using SetOwner_guid_inv[OF c1(1), of w p "length (players c1) > 1"] by simp_all
  then have "chan_inv (upd_member (PI_SetModerator True) p c2)" by (intro chan_inv_upd) auto
  then show ?thesis using c1(2) so by (simp add: join_member_def c1_def Let_def)
qed

lemma Join_inv: "chan_inv c \<Longrightarrow> chan_inv (fst (Join w p pass c))"
  by (auto simp: Join_def join_member_inv split: option.splits prod.splits dest: join_member_inv[of c p w])

lemma Leave_inv:
  assumes "chan_inv c"
  shows "chan_inv (fst (Leave w p s c))"
proof (cases "IsOn p c")
  case False
  then show ?thesis using assms by (simp add: Leave_def)
next
  case True
  define c1 where "c1 = c\<lparr>players := sm_erase p (players c)\<rparr>"
  define n where "n = (case players c1 of [] \<Rightarrow> 0 | m # _ \<Rightarrow> pi_player (snd m))"
  have "owner_flags (upd_member (PI_SetModerator True) n c1)"
    unfolding c1_def by (intro owner_flags_upd owner_flags_erase chan_inv_owner_flags assms) simp
  then have so: "chan_inv (fst (SetOwner_guid w n True (upd_member (PI_SetModerator True) n c1)))"
    by (rule SetOwner_guid_inv)
  show ?thesis
  proof (cases "IsOwner (mem p c)")
    case True
    then show ?thesis using so \<open>IsOn p c\<close>
      by (simp add: Leave_def Let_def c1_def[symmetric] n_def[symmetric] case_prod_unfold)
  next
    case False
    have "chan_inv c1" unfolding c1_def
    proof (cases "p = m_ownerGUID c")
      case True
      then have "m_ownerGUID c = 0" using False assms by (auto simp: chan_inv_def)
      then show "chan_inv (c\<lparr>players := sm_erase p (players c)\<rparr>)"
        using owner_flags_erase[OF chan_inv_owner_flags[OF assms], of p] by (simp add: chan_inv_def)
    qed (rule chan_inv_erase[OF assms])
    then show ?thesis using \<open>IsOn p c\<close> False
      by (simp add: Leave_def Let_def c1_def[symmetric])
  qed
qed

lemma KickOrBan_inv:
  assumes "chan_inv c"
  shows "chan_inv (fst (KickOrBan w good badname ban c))"
proof -
  have kick: "chan_inv (fst (SetOwner_guid w n True
        (upd_member (PI_SetModerator True) n (c'\<lparr>players := sm_erase bad (players c')\<rparr>))))"
    "m_ownerGUID c \<noteq> bad \<Longrightarrow> chan_inv (c'\<lparr>players := sm_erase bad (players c')\<rparr>)"
    if "c' = c \<or> c' = c\<lparr>banned := bs\<rparr>" for c' bad bs n
  proof -
    have inv: "chan_inv c'" using that assms chan_inv_cong[of "c\<lparr>banned := bs\<rparr>" c] by auto
    then have "owner_flags (upd_member (PI_SetModerator True) n (c'\<lparr>players := sm_erase bad (players c')\<rparr>))"
      by (intro owner_flags_upd owner_flags_erase chan_inv_owner_flags) simp_all
    then show "chan_inv (fst (SetOwner_guid w n True
        (upd_member (PI_SetModerator True) n (c'\<lparr>players := sm_erase bad (players c')\<rparr>))))"
      by (rule SetOwner_guid_inv)
    show "m_ownerGUID c \<noteq> bad \<Longrightarrow> chan_inv (c'\<lparr>players := sm_erase bad (players c')\<rparr>)"
      using inv that by (intro chan_inv_erase) auto
  qed
  show ?thesis
    using kick(1)[of c] kick(2)[of c] kick(1)[of "c\<lparr>banned := _ # banned c\<rparr>", OF disjI2[OF refl]]
      kick(2)[of "c\<lparr>banned := _ # banned c\<rparr>", OF disjI2[OF refl]] assms
    by (auto simp: KickOrBan_def Let_def case_prod_unfold split: option.splits)
qed

lemma toggles_inv:
  "chan_inv c \<Longrightarrow> chan_inv (fst (UnBan w p n c))" "chan_inv c \<Longrightarrow> chan_inv (fst (Password w p n c))"
  "chan_inv c \<Longrightarrow> chan_inv (fst (Announce w p c))" "chan_inv c \<Longrightarrow> chan_inv (fst (Moderate w p c))"
  by (auto simp: UnBan_def Password_def Announce_def Moderate_def Let_def
      cong: chan_inv_cong split: option.splits)

lemma touch_inv: "chan_inv c \<Longrightarrow> chan_inv (upd_member (\<lambda>i. i) k c)"
  by (rule chan_inv_upd) (auto simp: chan_inv_def)

lemma Channel_SetModerator_inv:
  "chan_inv c \<Longrightarrow> k \<noteq> m_ownerGUID c \<or> k = 0 \<Longrightarrow> chan_inv (fst (Channel_SetModerator w k on c))"
  using touch_inv[of c k]
  by (auto simp: Channel_SetModerator_def Let_def intro!: chan_inv_upd[OF touch_inv])

lemma set_muted_inv: "chan_inv c \<Longrightarrow> chan_inv (upd_member (PI_SetMuted on) k c)"
  by (rule chan_inv_upd) (auto simp: chan_inv_def)

lemma set_moderator_inv: "chan_inv c \<Longrightarrow> chan_inv (upd_member (PI_SetModerator True) k c)"
  by (rule chan_inv_upd) (auto simp: chan_inv_def)

lemma Channel_SetMute_inv: "chan_inv c \<Longrightarrow> chan_inv (fst (Channel_SetMute w k on c))"
  by (simp add: Channel_SetMute_def Let_def touch_inv set_muted_inv)

lemma SetMode_inv: "chan_inv c \<Longrightarrow> chan_inv (fst (SetMode w p n md on c))"
  by (auto simp: SetMode_def Let_def Channel_SetModerator_inv Channel_SetMute_inv split: option.splits)

lemma SetOwner_name_inv: "chan_inv c \<Longrightarrow> chan_inv (fst (SetOwner_name w p n c))"
  by (auto simp: SetOwner_name_def Let_def
      intro!: SetOwner_guid_inv chan_inv_owner_flags set_moderator_inv split: option.splits)

subsection \<open>Reachable channels\<close>

text \<open>Everything that changes a channel, as a command of a player.\<close>

datatype chan_op =
    OpJoin guid string
  | OpLeave guid bool
  | OpKick guid string
  | OpBan guid string
  | OpUnBan guid string
  | OpPassword guid string
  | OpSetModerator guid string
  | OpUnsetModerator guid string
  | OpSetMute guid string
  | OpUnsetMute guid string
  | OpSetOwner guid string
  | OpAnnounce guid
  | OpModerate guid

fun do_op :: "world \<Rightarrow> chan_op \<Rightarrow> channel \<Rightarrow> channel \<times> effect list" where
  "do_op w (OpJoin p pass) c = Join w p pass c"
| "do_op w (OpLeave p send) c = Leave w p send c"
| "do_op w (OpKick p n) c = KickOrBan w p n False c"
| "do_op w (OpBan p n) c = KickOrBan w p n True c"
| "do_op w (OpUnBan p n) c = UnBan w p n c"
| "do_op w (OpPassword p pass) c = Password w p pass c"
| "do_op w (OpSetModerator p n) c = SetMode w p n True True c"
| "do_op w (OpUnsetModerator p n) c = SetMode w p n True False c"
| "do_op w (OpSetMute p n) c = SetMode w p n False True c"
| "do_op w (OpUnsetMute p n) c = SetMode w p n False False c"
| "do_op w (OpSetOwner p n) c = SetOwner_name w p n c"
| "do_op w (OpAnnounce p) c = Announce w p c"
| "do_op w (OpModerate p) c = Moderate w p c"

text \<open>The world may be any other one at each step.\<close>

inductive channel_reachable :: "channel \<Rightarrow> bool" where
  fresh: "channel_reachable (Channel_new e n i)"
| step: "channel_reachable c \<Longrightarrow> channel_reachable (fst (do_op w op c))"

lemma do_op_inv: "chan_inv c \<Longrightarrow> chan_inv (fst (do_op w op c))"
  by (cases op) (auto simp: Join_inv Leave_inv KickOrBan_inv toggles_inv SetMode_inv SetOwner_name_inv)

lemma reachable_inv: "channel_reachable c \<Longrightarrow> chan_inv c"
  by (induction rule: channel_reachable.induct) (auto simp: chan_inv_new do_op_inv)

text \<open>C5: in every channel that any sequence of commands can produce, exactly the recorded owner
  carries the owner flag, and he is a member and a moderator; a channel without a recorded owner
  has no member with the flag.\<close>

theorem channel_owner_unique:
  assumes "channel_reachable c"
  shows "(IsOwner (mem g c) \<longleftrightarrow> g = m_ownerGUID c \<and> g \<noteq> 0)
    \<and> (m_ownerGUID c = 0 \<or> IsOn (m_ownerGUID c) c \<and> IsModerator (mem (m_ownerGUID c) c))"
  using reachable_inv[OF assms] IsOwner_on[of "m_ownerGUID c" c]
  unfolding chan_inv_def owner_flags_def by metis

text \<open>A small world: two players of one team, no game masters.\<close>

definition run_ops :: "chan_op list \<Rightarrow> channel \<Rightarrow> channel" where
  "run_ops ops c = fold (\<lambda>op c. fst (do_op test_world op c)) ops c"

lemma reachable_run_ops: "channel_reachable c \<Longrightarrow> channel_reachable (run_ops ops c)"
  unfolding run_ops_def by (induction ops arbitrary: c) (auto intro: channel_reachable.step)

theorem channel_owner_unique_witness:
  "let c = run_ops [OpJoin 1 [], OpJoin 2 [], OpLeave 1 True] (Channel_new None ''chat'' 0)
   in (IsOwner (mem 2 c) \<longleftrightarrow> 2 = m_ownerGUID c) \<and> (m_ownerGUID c = 0 \<or> IsOn (m_ownerGUID c) c)"
proof -
  have "(IsOwner (mem 2 c) \<longleftrightarrow> 2 = m_ownerGUID c) \<and> (m_ownerGUID c = 0 \<or> IsOn (m_ownerGUID c) c)"
    if "channel_reachable c" for c
    using channel_owner_unique[OF that, of 2] by auto
  from this[OF reachable_run_ops[OF fresh]] show ?thesis unfolding Let_def .
qed

section \<open>The contract of the moderation commands\<close>

text \<open>
  Kicking, banning, unbanning, the password, the two toggles and the member modes answer a player
  who is not a member, or not a moderator, in the same way and change nothing.
\<close>

lemma send_to_self: "e \<in> set (send_to w p pkt) \<Longrightarrow> e = Send p pkt"
  by (auto simp: send_to_def split: option.splits)

definition may_moderate :: "world \<Rightarrow> guid \<Rightarrow> channel \<Rightarrow> bool" where
  "may_moderate w p c \<longleftrightarrow> IsOn p c \<and> (IsModerator (mem p c) \<or> SEC_GAMEMASTER \<le> security_of w p)"

locale moderated_command =
  fixes cmd :: "world \<Rightarrow> guid \<Rightarrow> channel \<Rightarrow> channel \<times> effect list"
  assumes stranger: "\<not> IsOn p c \<Longrightarrow> cmd w p c = (c, send_to w p (MakeNotMember c))"
    and plain_member: "IsOn p c \<Longrightarrow> \<not> IsModerator (mem p c) \<Longrightarrow> security_of w p < SEC_GAMEMASTER \<Longrightarrow>
      cmd w p c = (c, send_to w p (MakeNotModerator c))"
begin

lemma refused:
  "\<not> may_moderate w p c \<Longrightarrow> fst (cmd w p c) = c \<and> (\<forall>e \<in> set (snd (cmd w p c)). \<exists>pkt. e = Send p pkt)"
  using stranger[of p c w] plain_member[of p c w]
  by (cases "IsOn p c") (auto simp: may_moderate_def not_le dest: send_to_self)

lemma change_needs_rank: "fst (cmd w p c) \<noteq> c \<Longrightarrow> may_moderate w p c"
  using refused by blast

lemma other_hears_needs_rank: "Send g pkt \<in> set (snd (cmd w p c)) \<Longrightarrow> g \<noteq> p \<Longrightarrow> may_moderate w p c"
  using refused[of w p c] by auto

end

interpretation kick: moderated_command "\<lambda>w p c. KickOrBan w p name b c" for name b
  by unfold_locales (simp_all add: KickOrBan_def Let_def)

interpretation unban: moderated_command "\<lambda>w p c. UnBan w p name c" for name
  by unfold_locales (simp_all add: UnBan_def Let_def)

interpretation pass: moderated_command "\<lambda>w p c. Password w p new c" for new
  by unfold_locales (simp_all add: Password_def Let_def)

interpretation announce: moderated_command Announce
  by unfold_locales (simp_all add: Announce_def Let_def)

interpretation moderate: moderated_command Moderate
  by unfold_locales (simp_all add: Moderate_def Let_def)

interpretation setmode: moderated_command "\<lambda>w p c. SetMode w p name md on c" for name md on
  by unfold_locales (auto simp: SetMode_def Let_def send_to_def security_of_def split: option.splits)

fun actor :: "chan_op \<Rightarrow> guid" where
  "actor (OpJoin p _) = p" | "actor (OpLeave p _) = p" | "actor (OpKick p _) = p"
| "actor (OpBan p _) = p" | "actor (OpUnBan p _) = p" | "actor (OpPassword p _) = p"
| "actor (OpSetModerator p _) = p" | "actor (OpUnsetModerator p _) = p" | "actor (OpSetMute p _) = p"
| "actor (OpUnsetMute p _) = p" | "actor (OpSetOwner p _) = p" | "actor (OpAnnounce p) = p"
| "actor (OpModerate p) = p"

fun is_moderation :: "chan_op \<Rightarrow> bool" where
  "is_moderation (OpJoin _ _) = False" | "is_moderation (OpLeave _ _) = False"
| "is_moderation (OpSetOwner _ _) = False" | "is_moderation _ = True"

text \<open>C11: a moderation command of a player who is not on the channel, or is neither its moderator nor
  a game master, leaves the channel exactly as it was and sends nothing to anybody but him.\<close>

theorem moderation_needs_rank:
  assumes "is_moderation op" "\<not> may_moderate w (actor op) c"
  shows "fst (do_op w op c) = c \<and> (\<forall>e \<in> set (snd (do_op w op c)). \<exists>pkt. e = Send (actor op) pkt)"
  using assms kick.refused unban.refused pass.refused announce.refused moderate.refused setmode.refused
  by (cases op) simp_all

theorem moderation_needs_rank_witness:
  "fst (do_op test_world (OpPassword 1 ''x'') (Channel_new None ''chat'' 0)) = Channel_new None ''chat'' 0"
proof -
  have "\<not> may_moderate test_world (actor (OpPassword 1 ''x'')) (Channel_new None ''chat'' 0)"
    by (simp add: may_moderate_def IsOn_def Channel_new_def)
  from moderation_needs_rank[OF _ this] show ?thesis by simp
qed

section \<open>Admission\<close>

lemma IsOn_SetOwner_guid [simp]:
  "IsOn g (fst (SetOwner_guid w k ex c)) \<longleftrightarrow> IsOn g c \<or> g = k \<and> k \<noteq> 0"
  by (auto simp: SetOwner_guid_def Let_def IsOn_def[symmetric])

lemma banned_SetOwner_guid [simp]: "banned (fst (SetOwner_guid w k ex c)) = banned c"
  by (simp add: SetOwner_guid_def Let_def)

lemma IsOn_join_member: "IsOn g (fst (join_member w p c)) \<longleftrightarrow> IsOn g c \<or> g = p"
  by (auto simp: join_member_def Let_def case_prod_unfold)

definition admits :: "world \<Rightarrow> guid \<Rightarrow> string \<Rightarrow> channel \<Rightarrow> bool" where
  "admits w p pw c \<longleftrightarrow> \<not> IsBanned p c \<and> (m_password c = [] \<or> c_str pw = c_str (m_password c)) \<and>
     (case GetPlayer w p of
        None \<Rightarrow> True
      | Some plr \<Rightarrow>
          \<not> (Channel_HasFlag CHANNEL_FLAG_LFG c \<and> CONFIG_RESTRICTED_LFG_CHANNEL (w_config w)
             \<and> pl_security plr = SEC_PLAYER \<and> (pl_in_group plr \<or> pl_lfg_empty plr))
          \<and> \<not> (pl_guild plr \<noteq> 0 \<and> m_flags c = 0x38))"

text \<open>Joining adds the player to the members exactly when he is not banned, knows the password
  and meets the conditions of the looking-for-group and guild recruitment channels, and changes the
  membership of nobody else.\<close>

theorem Join_membership:
  "IsOn g (fst (Join w p pw c)) \<longleftrightarrow> IsOn g c \<or> (g = p \<and> admits w p pw c)"
  by (auto simp: Join_def admits_def IsOn_join_member case_prod_unfold split: option.splits)

lemma Join_banned: "IsBanned p c \<Longrightarrow> fst (Join w p pw c) = c"
  by (simp add: Join_def)

text \<open>C24: A ban of another member, by a moderator or game master (of the owner, by a game master), takes him
  off the channel and leaves every other membership as it was, and no attempt of his to join the channel, as
  the ban leaves it, changes it. An owner who bans himself stays on the channel
  (\<open>owner_self_ban_stays\<close>).\<close>

theorem ban_is_effective:
  assumes "may_moderate w good c" "GetPlayerByName w name = Some badp" "pl_guid badp \<noteq> good"
    and "IsOn (pl_guid badp) c" "pl_guid badp \<noteq> m_ownerGUID c \<or> SEC_GAMEMASTER \<le> security_of w good"
    and "\<not> IsBanned (pl_guid badp) c"
  shows "let c' = fst (do_op w (OpBan good name) c)
    in (\<forall>g. IsOn g c' \<longleftrightarrow> IsOn g c \<and> g \<noteq> pl_guid badp) \<and>
       (\<forall>w' pw. fst (Join w' (pl_guid badp) pw c') = c')"
proof -
  define bad where "bad = pl_guid badp"
  define c1 where "c1 = c\<lparr>banned := bad # banned c\<rparr>"
  define c2 where "c2 = c1\<lparr>players := sm_erase bad (players c1)\<rparr>"
  have on2: "IsOn g c2 \<longleftrightarrow> g \<noteq> bad \<and> IsOn g c" for g by (simp add: c2_def c1_def IsOn_def)
  have good: "IsOn good c" "good \<noteq> bad" using assms(1,3) by (auto simp: may_moderate_def bad_def)
  then have "IsOn good c2" by (simp add: on2)
  then have ne: "players c2 \<noteq> []" by (auto simp: IsOn_def)
  have guard: "\<not> (\<not> IsModerator (mem good c) \<and> security_of w good < SEC_GAMEMASTER)"
    "\<not> (security_of w good < SEC_GAMEMASTER \<and> bad = m_ownerGUID c \<and> good \<noteq> m_ownerGUID c)"
    using assms(1,5) by (auto simp: may_moderate_def bad_def not_le)
  define c' where "c' = fst (KickOrBan w good name True c)"
  have c': "c' = (if m_ownerGUID c = bad then fst (SetOwner_guid w good True (upd_member (PI_SetModerator True) good c2))
      else c2)"
    unfolding c'_def KickOrBan_def using assms(2,4,6) good guard ne
    by (auto simp: Let_def bad_def[symmetric] c1_def[symmetric] c2_def[symmetric] case_prod_unfold)
  have "IsBanned bad c'" by (auto simp: c' IsBanned_def c2_def c1_def)
  moreover have "IsOn g c' \<longleftrightarrow> IsOn g c \<and> g \<noteq> bad" for g
    using good by (auto simp: c' on2)
  ultimately show ?thesis by (simp add: Let_def c'_def bad_def Join_banned)
qed

text \<open>Two members, the owner a moderator, in the two-player world.\<close>

definition test_channel :: channel where
  "test_channel = \<lparr>players = [(1, \<lparr>pi_player = 1, pi_flags = 3\<rparr>), (2, \<lparr>pi_player = 2, pi_flags = 0\<rparr>)],
     banned = [], m_name = ''chat'', m_announce = True, m_moderate = False, m_password = [],
     m_flags = 1, m_channelId = 0, m_ownerGUID = 1\<rparr>"

lemma test_lookups:
  "GetPlayerByName test_world ''Bob'' = Some (test_player 2 ''Bob'')"
  "GetPlayerByName test_world ''Ann'' = Some (test_player 1 ''Ann'')"
  "GetPlayer test_world 1 = Some (test_player 1 ''Ann'')" "GetPlayer test_world 2 = Some (test_player 2 ''Bob'')"
  "pl_guid (test_player g n) = g" "security_of test_world 1 = 0"
  by (simp_all add: FindPlayerByName_def FindPlayer_def GetObjectInWorld_def test_world_def test_player_def
      c_str_def security_of_def)

lemma test_channel_members:
  "IsOn g test_channel \<longleftrightarrow> g = 1 \<or> g = 2" "IsModerator (mem 1 test_channel)" "IsOwner (mem 1 test_channel)"
  "m_ownerGUID test_channel = 1" "\<not> IsBanned g test_channel" "\<not> IsModerator (mem 2 test_channel)"
  by (auto simp: IsOn_def test_channel_def mem_def sm_at_def sm_has_def sm_find_def IsModerator_def
      IsOwner_def has_flag_def IsBanned_def)

theorem ban_is_effective_witness:
  "\<not> IsOn 2 (fst (do_op test_world (OpBan 1 ''Bob'') test_channel))
   \<and> fst (Join test_world 2 '''' (fst (do_op test_world (OpBan 1 ''Bob'') test_channel)))
       = fst (do_op test_world (OpBan 1 ''Bob'') test_channel)"
proof -
  have "may_moderate test_world 1 test_channel" by (simp add: may_moderate_def test_channel_members)
  from ban_is_effective[OF this test_lookups(1)] show ?thesis
    by (simp add: test_lookups test_channel_members Let_def)
qed

section \<open>Speech\<close>

definition may_speak :: "world \<Rightarrow> guid \<Rightarrow> channel \<Rightarrow> bool" where
  "may_speak w p c \<longleftrightarrow> IsOn p c \<and> \<not> IsMuted (mem p c) \<and>
     (\<not> m_moderate c \<or> IsModerator (mem p c) \<or> SEC_GAMEMASTER \<le> security_of w p)"

text \<open>Who hears what \<open>p\<close> sends to all (0 for a message of the channel itself).\<close>

definition hears :: "world \<Rightarrow> guid \<Rightarrow> guid \<Rightarrow> bool" where
  "hears w p g = (case FindPlayer w g True of None \<Rightarrow> False
     | Some plr \<Rightarrow> p = 0 \<or> \<not> HasIgnore (GUID_LOPART p) (pl_social plr))"

lemma SendToAll_hears:
  "SendToAll w data p c = map (\<lambda>m. Send (fst m) data) (filter (\<lambda>m. hears w p (fst m)) (players c))"
proof -
  have "concat (map (\<lambda>m. case FindPlayer w (fst m) True of None \<Rightarrow> []
        | Some plr \<Rightarrow> if p = 0 \<or> \<not> HasIgnore (GUID_LOPART p) (pl_social plr)
            then [Send (fst m) data] else []) ms)
      = map (\<lambda>m. Send (fst m) data) (filter (\<lambda>m. hears w p (fst m)) ms)" for ms
    by (induction ms) (auto simp: hears_def split: option.split)
  then show ?thesis by (simp add: SendToAll_def)
qed

lemma Send_SendToAll:
  "Send g pkt \<in> set (SendToAll w data p c) \<longleftrightarrow> pkt = data \<and> IsOn g c \<and> hears w p g"
  by (auto simp: SendToAll_hears IsOn_def sm_has_iff)

lemma SendToAll_once:
  assumes "sm_wf (players c)"
  shows "distinct (SendToAll w data p c)"
proof -
  have "distinct (map fst (filter (\<lambda>m. hears w p (fst m)) (players c)))"
    using assms by (simp add: sm_wf_def sorted_wrt_less_distinct distinct_map_filter)
  then show ?thesis
    by (simp add: SendToAll_hears distinct_map inj_on_def)
qed

text \<open>C29: When the speaker may speak, his message packet goes to exactly the connected members, himself
  included, who do not ignore him, once each; the message of a moderator goes to those too who ignore
  him. When he may not speak, nobody but he is sent anything, and he is told why.\<close>

theorem Say_delivery:
  assumes "channel_reachable c"
  shows "distinct (Say w p (Some txt) lang c) \<and>
    (Send g pkt \<in> set (Say w p (Some txt) lang c) \<longleftrightarrow>
      (if may_speak w p c
       then IsOn g c \<and> hears w (if IsModerator (mem p c) then 0 else p) g
         \<and> pkt = MakeMessage w p txt
            (if CONFIG_ALLOW_TWO_SIDE_INTERACTION_CHANNEL (w_config w) then LANG_UNIVERSAL else lang) c
       else g = p \<and> GetPlayer w p \<noteq> None
         \<and> pkt = (if \<not> IsOn p c then MakeNotMember c else if IsMuted (mem p c) then MakeMuted c
                  else MakeNotModerator c)))"
proof -
  have wf: "sm_wf (players c)"
    using reachable_inv[OF assms] by (simp add: chan_inv_def owner_flags_def)
  have one: "distinct (send_to w p d)" "Send g pkt \<in> set (send_to w p d) \<longleftrightarrow> g = p \<and> GetPlayer w p \<noteq> None \<and> pkt = d" for d
    by (cases "GetPlayer w p"; auto simp: send_to_def)+
  show ?thesis
    using SendToAll_once[OF wf] one
    by (auto simp: Say_def Let_def may_speak_def Send_SendToAll not_le split: if_splits)
qed

theorem Say_delivery_witness:
  "let c = fst (do_op test_world (OpJoin 2 []) (fst (do_op test_world (OpJoin 1 []) (Channel_new None ''chat'' 0))))
   in distinct (Say test_world 2 (Some ''hi'') 7 c) \<and> Send 1 (MakeMessage test_world 2 ''hi'' 7 c) \<in> set (Say test_world 2 (Some ''hi'') 7 c)"
proof -
  define c where "c = fst (do_op test_world (OpJoin 2 []) (fst (do_op test_world (OpJoin 1 []) (Channel_new None ''chat'' 0))))"
  have r: "channel_reachable c" unfolding c_def by (intro channel_reachable.intros)
  have "may_speak test_world 2 c" "IsOn 1 c" "\<not> IsModerator (mem 2 c)" "hears test_world 2 1"
      "\<not> CONFIG_ALLOW_TWO_SIDE_INTERACTION_CHANNEL (w_config test_world)"
    unfolding c_def by code_simp+
  then show ?thesis
    using Say_delivery[OF r, of test_world 2 "''hi''" 7 1 "MakeMessage test_world 2 ''hi'' 7 c"]
    unfolding c_def[symmetric] Let_def by simp
qed

section \<open>The member list packet\<close>

definition listed :: "world \<Rightarrow> player \<Rightarrow> guid \<times> player_info \<Rightarrow> bool" where
  "listed w viewer m = (case GetPlayer w (fst m) of
     None \<Rightarrow> False
   | Some plr \<Rightarrow> pl_security plr = SEC_PLAYER
       \<or> (CONFIG_GM_IN_WHO_LIST (w_config w) \<or> pl_security viewer > SEC_PLAYER) \<and> IsVisibleGloballyFor plr viewer)"

definition enc_list_entry :: "guid \<times> player_info \<Rightarrow> u8 list" where
  "enc_list_entry m = enc_u64 (fst m) @ enc_u8 (pi_flags (snd m))"

lemma list_loop_spec:
  assumes "gm = (CONFIG_GM_IN_WHO_LIST (w_config w) \<or> pl_security viewer > SEC_PLAYER)"
  shows "list_loop w viewer gm ms data n =
    (data\<lparr>body := body data @ concat (map enc_list_entry (filter (listed w viewer) ms))\<rparr>,
     n + of_nat (length (filter (listed w viewer) ms)))"
proof (induction ms arbitrary: data n)
  case Nil
  then show ?case by simp
next
  case (Cons m ms)
  then show ?case
    using assms by (auto simp: listed_def enc_list_entry_def put_def split: option.splits)
qed

text \<open>the packet of the member list is its header, then the number of entries, patched over the
  placeholder, then one entry for each listed member in guid order: the count is the number of
  entries that follow.\<close>

lemma Channel_List_packet:
  assumes "IsOn (pl_guid viewer) c"
  shows "Channel_List w viewer c =
    (let ms = filter (listed w viewer) (players c)
     in send_to w (pl_guid viewer)
          \<lparr>opcode = SMSG_CHANNEL_LIST,
           body = enc_u8 1 @ enc_string (m_name c) @ enc_u8 (m_flags c)
             @ enc_u32 (of_nat (length ms)) @ concat (map enc_list_entry ms)\<rparr>)"
proof -
  have len: "length (enc_u32 x) = 4" for x by (simp add: enc_u32_def length_le_bytes)
  show ?thesis
    using assms
    by (simp add: Channel_List_def Let_def list_loop_spec put_at_def WorldPacket_new_def len put_def)
qed

lemma Channel_List_packet_witness:
  "Channel_List test_world (test_player 1 ''Ann'') test_channel =
     [Send 1 \<lparr>opcode = SMSG_CHANNEL_LIST,
        body = enc_u8 1 @ enc_string ''chat'' @ enc_u8 1 @ enc_u32 2
          @ enc_list_entry (1, \<lparr>pi_player = 1, pi_flags = 3\<rparr>)
          @ enc_list_entry (2, \<lparr>pi_player = 2, pi_flags = 0\<rparr>)\<rparr>]"
proof -
  have on: "IsOn (pl_guid (test_player 1 ''Ann'')) test_channel"
    by (simp add: test_channel_members test_lookups)
  have fl: "filter (listed test_world (test_player 1 ''Ann'')) (players test_channel) = players test_channel"
    by (simp add: test_channel_def listed_def test_lookups) (simp add: test_player_def)
  show ?thesis
    unfolding Channel_List_packet[OF on] Let_def fl
    by (simp add: send_to_def test_lookups) (simp add: test_channel_def)
qed

section \<open>Broken membership\<close>

text \<open>When the owner leaves a channel that he is alone on, the search for a new owner inserts a
  member with guid 0: the channel is left with one member who does not exist.\<close>

theorem last_owner_leaves_phantom:
  assumes "players c = [(p, i)]" "IsOwner i" "m_ownerGUID c = p" "p \<noteq> 0"
  shows "players (fst (Leave w p send c)) = [(0, \<lparr>pi_player = 0, pi_flags = MEMBER_FLAG_MODERATOR\<rparr>)]
    \<and> m_ownerGUID (fst (Leave w p send c)) = 0 \<and> GetNumPlayers (fst (Leave w p send c)) = 1"
proof -
  have on: "IsOn p c" "mem p c = i" using assms(1) by (simp_all add: IsOn_def sm_has_def sm_find_def mem_def sm_at_def)
  have "sm_erase p (players c) = []" using assms(1) by (simp add: sm_erase_def)
  then show ?thesis using on assms
    by (simp add: Leave_def Let_def SetOwner_guid_def upd_member_def sm_mutate_def sm_at_def GetNumPlayers_def
        case_prod_unfold PI_SetModerator_def set_member_flag_def PlayerInfo0_def set_flag_def sm_has_def sm_find_def)
qed

theorem last_owner_leaves_phantom_witness:
  "players (fst (Leave test_world 1 True (test_channel\<lparr>players := [(1, \<lparr>pi_player = 1, pi_flags = 3\<rparr>)]\<rparr>)))
     = [(0, \<lparr>pi_player = 0, pi_flags = 2\<rparr>)]"
  using last_owner_leaves_phantom[of "test_channel\<lparr>players := [(1, \<lparr>pi_player = 1, pi_flags = 3\<rparr>)]\<rparr>" 1
      "\<lparr>pi_player = 1, pi_flags = 3\<rparr>" test_world True]
  by (simp add: IsOwner_def has_flag_def test_channel_members)

text \<open>Commands of real players: no actor and no player of the world has guid 0.\<close>

definition real :: "world \<Rightarrow> chan_op \<Rightarrow> bool" where
  "real w op \<longleftrightarrow> actor op \<noteq> 0 \<and> (\<forall>p \<in> set (w_players w). pl_guid p \<noteq> 0)"

lemma found_real:
  assumes "real w op" "GetPlayerByName w n = Some q"
  shows "pl_guid q \<noteq> 0"
proof -
  have "q \<in> set (w_players w)"
    using assms(2) unfolding FindPlayerByName_def find_Some_iff by auto
  then show ?thesis using assms(1) by (simp add: real_def)
qed

lemma phantom_step:
  assumes "real w op" "IsOn 0 c"
  shows "IsOn 0 (fst (do_op w op c))"
proof (cases op)
  case (OpJoin p pw)
  then show ?thesis using assms by (simp add: Join_membership)
next
  case (OpLeave p s)
  then show ?thesis using assms
    by (auto simp: Leave_def Let_def case_prod_unfold real_def IsOn_def[symmetric])
next
  case (OpKick p n)
  then show ?thesis using assms found_real[OF assms(1), of n]
    by (auto simp: KickOrBan_def Let_def case_prod_unfold split: option.splits)
next
  case (OpBan p n)
  then show ?thesis using assms found_real[OF assms(1), of n]
    by (auto simp: KickOrBan_def Let_def case_prod_unfold split: option.splits)
qed (use assms in \<open>auto simp: UnBan_def Password_def SetMode_def SetOwner_name_def Announce_def Moderate_def
       Channel_SetModerator_def Channel_SetMute_def Let_def split: option.splits\<close>)

fun run_real :: "(world \<times> chan_op) list \<Rightarrow> channel \<Rightarrow> channel" where
  "run_real [] c = c"
| "run_real ((w, op) # ops) c = run_real ops (fst (do_op w op c))"

lemma phantom_run: "list_all (\<lambda>(w, op). real w op) ops \<Longrightarrow> IsOn 0 c \<Longrightarrow> IsOn 0 (run_real ops c)"
  by (induction ops c rule: run_real.induct) (auto simp: phantom_step)

text \<open>the phantom member stays: whatever real players do on the channel afterwards, the member
  count never returns to zero, which is what the channel manager waits for to delete the channel.\<close>

lemma phantom_never_leaves:
  assumes "players c = [(p, i)]" "IsOwner i" "m_ownerGUID c = p" "p \<noteq> 0"
    and "list_all (\<lambda>(w, op). real w op) ops"
  shows "players (run_real ops (fst (Leave w p send c))) \<noteq> []"
proof -
  have "IsOn 0 (fst (Leave w p send c))"
    using last_owner_leaves_phantom[OF assms(1-4)] by (simp add: IsOn_def sm_has_iff)
  from phantom_run[OF assms(5) this] show ?thesis by (auto simp: IsOn_def)
qed

lemma phantom_never_leaves_witness:
  "players (run_real [(test_world, OpJoin 2 ''''), (test_world, OpLeave 2 True)]
      (fst (Leave test_world 1 True (test_channel\<lparr>players := [(1, \<lparr>pi_player = 1, pi_flags = 3\<rparr>)]\<rparr>)))) \<noteq> []"
  by (rule phantom_never_leaves[where i = "\<lparr>pi_player = 1, pi_flags = 3\<rparr>"])
    (simp_all add: IsOwner_def has_flag_def test_channel_members real_def test_world_def test_player_def)

text \<open>an owner who bans himself from his own channel stays on it: he is banned and told that he has
  left, but the transfer of ownership puts him back as member, moderator and owner.\<close>

theorem owner_self_ban_stays:
  assumes "m_ownerGUID c = p" "p \<noteq> 0" "IsOn p c" "IsModerator (mem p c)" "\<not> IsBanned p c"
    and "GetPlayerByName w name = Some q" "pl_guid q = p" "IsOn g c" "g \<noteq> p"
  shows "let r = do_op w (OpBan p name) c
    in IsBanned p (fst r) \<and> IsOn p (fst r) \<and> m_ownerGUID (fst r) = p
       \<and> IsOwner (mem p (fst r)) \<and> LeftChannel p (m_name c) \<in> set (snd r)"
proof -
  define c2 where "c2 = c\<lparr>banned := p # banned c, players := sm_erase p (players c)\<rparr>"
  have "IsOn g c2" using assms by (simp add: c2_def)
  then have ne: "players c2 \<noteq> []" by (auto simp: IsOn_def)
  define s where "s = SetOwner_guid w p True (upd_member (PI_SetModerator True) p c2)"
  have r: "fst (do_op w (OpBan p name) c) = fst s" "LeftChannel p (m_name c) \<in> set (snd (do_op w (OpBan p name) c))"
    using assms ne by (auto simp: KickOrBan_def Let_def case_prod_unfold c2_def s_def)
  have "banned (fst s) = p # banned c" by (simp add: s_def c2_def)
  moreover have "IsOn p (fst s)" by (simp add: s_def)
  moreover have "m_ownerGUID (fst s) = p" "IsOwner (mem p (fst s))"
    using assms(2) by (auto simp: s_def SetOwner_guid_def Let_def)
  ultimately show ?thesis using r by (simp add: Let_def IsBanned_def)
qed

theorem owner_self_ban_stays_witness:
  "IsBanned 1 (fst (do_op test_world (OpBan 1 ''Ann'') test_channel))
   \<and> IsOn 1 (fst (do_op test_world (OpBan 1 ''Ann'') test_channel))"
  using owner_self_ban_stays[of test_channel 1 test_world "''Ann''" "test_player 1 ''Ann''" 2]
  by (simp add: test_channel_members test_lookups Let_def)

end
