(* ===== verification/ChannelMgr.thy ===== *)
theory ChannelMgr
  imports ChannelLaws "HOL-Library.Char_ord" "HOL-Library.List_Lexorder"
begin

text \<open>
  The channel managers of the two teams (src/src/server/game/Chat/Channels/ChannelMgr.h) and the
  packet handlers of the client's channel commands
  (src/src/server/game/Handlers/ChannelHandler.cpp). A handler reads its arguments from the received
  packet, which may run out (\<open>Inl\<close>), and maps the managers to the new ones and the effects.
  \<open>normalizePlayerName\<close> (UTF-8 case conversion by third-party code) and the lookup of built-in channels
  in the client's data files are parameters.
\<close>

section \<open>Managers\<close>

type_synonym channel_map = "(string \<times> channel) list"

record chan_server =
  alliance_mgr :: channel_map
  horde_mgr :: channel_map

definition GetJoinChannel :: "(u32 \<Rightarrow> u32 option) \<Rightarrow> string \<Rightarrow> u32 \<Rightarrow> channel_map \<Rightarrow> channel_map" where
  "GetJoinChannel entry name channel_id m =
     (if sm_has name m then m else sm_set name (Channel_new (entry channel_id) name channel_id) m)"



datatype side = Alliance_side | Horde_side

definition channelMgr :: "world \<Rightarrow> u32 \<Rightarrow> side option" where
  "channelMgr w team =
     (if CONFIG_ALLOW_TWO_SIDE_INTERACTION_CHANNEL (w_config w) then Some Alliance_side
      else if team = ALLIANCE then Some Alliance_side
      else if team = HORDE then Some Horde_side
      else None)"

fun mgr_of :: "side \<Rightarrow> chan_server \<Rightarrow> channel_map" where
  "mgr_of Alliance_side s = alliance_mgr s"
| "mgr_of Horde_side s = horde_mgr s"

fun set_mgr :: "side \<Rightarrow> channel_map \<Rightarrow> chan_server \<Rightarrow> chan_server" where
  "set_mgr Alliance_side m s = s\<lparr>alliance_mgr := m\<rparr>"
| "set_mgr Horde_side m s = s\<lparr>horde_mgr := m\<rparr>"


section \<open>Handlers\<close>

type_synonym handler = "byte_buffer \<Rightarrow> bb_error + (chan_server \<times> effect list)"

definition HandleJoinChannel :: "world \<Rightarrow> (u32 \<Rightarrow> u32 option) \<Rightarrow> player \<Rightarrow> chan_server \<Rightarrow> handler" where
  "HandleJoinChannel w entry me s =
     rd (read_int False 4) (\<lambda>channelId :: u32.
     rd (read_int False 1) (\<lambda>unknown1 :: u8.
     rd (read_int False 1) (\<lambda>unknown2 :: u8.
     rd read_string (\<lambda>channelName.
     rd read_string (\<lambda>password b.
       Inr (if channelName = [] \<or> is_digit (hd channelName)
            then (s, [Send (pl_guid me) (put (put (WorldPacket_new SMSG_CHANNEL_NOTIFY)
                        (enc_u8 CHAT_INVALID_NAME_NOTICE)) (enc_string channelName))])
            else case channelMgr w (pl_team me) of
                None \<Rightarrow> (s, [])
              | Some sd \<Rightarrow>
                  let m = GetJoinChannel entry channelName channelId (mgr_of sd s)
                  in case sm_find channelName m of
                       None \<Rightarrow> (set_mgr sd m s, [])
                     | Some c \<Rightarrow>
                         (case Join w (pl_guid me) (c_str password) c of
                            (c', es) \<Rightarrow> (set_mgr sd (sm_set channelName c' m) s, es))))))))"





















section \<open>What one packet may change\<close>

text \<open>
  The change of one channel that a packet of \<open>p\<close> under an opcode may make. The password, the bans and
  the two switches change only under their own opcode and by someone entitled to moderate; members come
  by joining and go by leaving or by being kicked or banned, the owner only by himself or a game master;
  mute and moderator flags change under their opcodes, in the direction the opcode names, or with the
  owner; and the owner changes when the first member joins, by his own hand, or by a game master.
\<close>

definition owns :: "world \<Rightarrow> guid \<Rightarrow> channel \<Rightarrow> bool" where
  "owns w p c \<longleftrightarrow> p = m_ownerGUID c \<or> SEC_GAMEMASTER \<le> security_of w p"

definition settings_change :: "world \<Rightarrow> guid \<Rightarrow> u16 \<Rightarrow> channel \<Rightarrow> channel \<Rightarrow> bool" where
  "settings_change w p opc c c' \<longleftrightarrow>
     m_name c' = m_name c \<and> m_flags c' = m_flags c \<and> m_channelId c' = m_channelId c
   \<and> (m_password c' \<noteq> m_password c \<longrightarrow> opc = 0x09C \<and> may_moderate w p c)
   \<and> (\<forall>g. IsBanned g c' \<noteq> IsBanned g c \<longrightarrow> opc = (if IsBanned g c' then 0x0A5 else 0x0A6) \<and> may_moderate w p c)
   \<and> (m_announce c' \<noteq> m_announce c \<longrightarrow> opc = 0x0A7 \<and> may_moderate w p c)
   \<and> (m_moderate c' \<noteq> m_moderate c \<longrightarrow> opc = 0x0A8 \<and> may_moderate w p c)
   \<and> (m_ownerGUID c' \<noteq> m_ownerGUID c \<longrightarrow>
        opc = 0x097 \<and> m_ownerGUID c = 0 \<and> m_ownerGUID c' = p
      \<or> opc \<in> {0x098, 0x09D, 0x0A4, 0x0A5} \<and> IsOn p c \<and> owns w p c)"

definition members_change :: "world \<Rightarrow> guid \<Rightarrow> u16 \<Rightarrow> channel \<Rightarrow> channel \<Rightarrow> bool" where
  "members_change w p opc c c' \<longleftrightarrow>
     (\<forall>g. IsOn g c' \<and> \<not> IsOn g c \<longrightarrow>
        opc = 0x097 \<and> g = p \<or> opc \<in> {0x098, 0x0A4, 0x0A5} \<and> IsOn p c \<and> owns w p c)
   \<and> (\<forall>g. IsOn g c \<and> \<not> IsOn g c' \<longrightarrow>
        opc = 0x098 \<and> g = p
      \<or> opc \<in> {0x0A4, 0x0A5} \<and> may_moderate w p c \<and> (g = m_ownerGUID c \<longrightarrow> owns w p c))
   \<and> (\<forall>g. IsOn g c \<and> IsOn g c' \<and> IsMuted (mem g c') \<noteq> IsMuted (mem g c) \<longrightarrow>
        opc = (if IsMuted (mem g c') then 0x0A1 else 0x0A2) \<and> may_moderate w p c \<and> (g = m_ownerGUID c \<longrightarrow> p = g)
      \<or> opc \<in> {0x098, 0x0A4, 0x0A5} \<and> g = m_ownerGUID c \<and> owns w p c)
   \<and> (\<forall>g. IsOn g c \<and> IsOn g c' \<and> IsModerator (mem g c) \<and> \<not> IsModerator (mem g c') \<longrightarrow>
        opc = 0x0A0 \<and> may_moderate w p c \<and> (g = m_ownerGUID c \<longrightarrow> p = g))
   \<and> (\<forall>g. IsOn g c \<and> IsOn g c' \<and> \<not> IsModerator (mem g c) \<and> IsModerator (mem g c') \<longrightarrow>
        opc = 0x09F \<and> may_moderate w p c \<or> opc \<in> {0x098, 0x09D, 0x0A4, 0x0A5} \<and> IsOn p c \<and> owns w p c)"

definition allowed :: "world \<Rightarrow> guid \<Rightarrow> u16 \<Rightarrow> channel \<Rightarrow> channel \<Rightarrow> bool" where
  "allowed w p opc c c' \<longleftrightarrow> settings_change w p opc c c' \<and> members_change w p opc c c'"

lemma allowed_refl [simp]: "allowed w p opc c c"
  by (simp add: allowed_def settings_change_def members_change_def)

lemma muted_flags [simp]:
  "IsMuted (PI_SetOwner b i) = IsMuted i" "IsMuted (PI_SetModerator b i) = IsMuted i" "IsMuted (PI_SetMuted b i) = b"
  by (auto simp: PI_SetOwner_def PI_SetModerator_def PI_SetMuted_def set_member_flag_def IsMuted_def flag_laws)

lemma upd_moderate [simp]: "m_moderate (upd_member f k c) = m_moderate c"
  by (simp add: upd_member_def)

lemma name_SetOwner_guid [simp]: "m_name (fst (SetOwner_guid w g ex c)) = m_name c"
  by (simp add: SetOwner_guid_def Let_def)

lemma SetOwner_guid_frame [simp]:
  "m_flags (fst (SetOwner_guid w g ex c)) = m_flags c" "m_channelId (fst (SetOwner_guid w g ex c)) = m_channelId c"
  "m_password (fst (SetOwner_guid w g ex c)) = m_password c" "m_announce (fst (SetOwner_guid w g ex c)) = m_announce c"
  "m_moderate (fst (SetOwner_guid w g ex c)) = m_moderate c" "m_ownerGUID (fst (SetOwner_guid w g ex c)) = g"
  "IsMuted (mem k (fst (SetOwner_guid w g ex c))) = IsMuted (mem k c)"
  "IsModerator (mem k (fst (SetOwner_guid w g ex c))) \<longleftrightarrow> IsModerator (mem k c) \<or> k = g \<and> g \<noteq> 0"
  by (simp_all add: SetOwner_guid_def Let_def)

lemma IsBanned_frame [simp]:
  "IsBanned g (upd_member f k c) = IsBanned g c" "IsBanned g (c\<lparr>players := ps\<rparr>) = IsBanned g c"
  "IsBanned g (fst (SetOwner_guid w k ex c)) = IsBanned g c" "IsBanned g (c\<lparr>m_password := pw\<rparr>) = IsBanned g c"
  "IsBanned g (c\<lparr>m_announce := a\<rparr>) = IsBanned g c" "IsBanned g (c\<lparr>m_moderate := a\<rparr>) = IsBanned g c"
  "IsBanned g (c\<lparr>banned := bs\<rparr>) \<longleftrightarrow> g \<in> set bs"
  by (simp_all add: IsBanned_def)









section \<open>The invariant of the managers\<close>

text \<open>The managers hold each channel under its name, and each is in a reachable state.\<close>

definition mgr_inv :: "channel_map \<Rightarrow> bool" where
  "mgr_inv m \<longleftrightarrow> sm_wf m \<and> (\<forall>n c. sm_find n m = Some c \<longrightarrow> channel_reachable c \<and> m_name c = n)"

definition server_inv :: "chan_server \<Rightarrow> bool" where
  "server_inv s \<longleftrightarrow> mgr_inv (alliance_mgr s) \<and> mgr_inv (horde_mgr s)"









lemma name_Channel_new [simp]: "m_name (Channel_new e n i) = n"
  by (simp add: Channel_new_def Let_def split: option.splits)











text \<open>
  What one packet of \<open>p\<close> does to the managers: it touches one channel at most, and that only as
  allowed; a channel is created by joining, with nobody but \<open>p\<close> on it, and removed by leaving,
  when it is not a built-in one and nobody but \<open>p\<close> was on it.
\<close>

definition channel_change :: "world \<Rightarrow> guid \<Rightarrow> u16 \<Rightarrow> channel option \<Rightarrow> channel option \<Rightarrow> bool" where
  "channel_change w p opc old new =
     (case (old, new) of
        (None, None) \<Rightarrow> True
      | (None, Some c') \<Rightarrow> opc = 0x097 \<and> (\<forall>g. IsOn g c' \<longrightarrow> g = p)
      | (Some c, None) \<Rightarrow> opc = 0x098 \<and> \<not> IsConstant c \<and> (\<forall>g. IsOn g c \<longrightarrow> g = p)
      | (Some c, Some c') \<Rightarrow> allowed w p opc c c')"

definition server_change :: "world \<Rightarrow> guid \<Rightarrow> u16 \<Rightarrow> chan_server \<Rightarrow> chan_server \<Rightarrow> bool" where
  "server_change w p opc s s' \<longleftrightarrow>
     (\<exists>sd n. \<forall>sd' n'. sd' \<noteq> sd \<or> n' \<noteq> n \<longrightarrow> sm_find n' (mgr_of sd' s') = sm_find n' (mgr_of sd' s))
   \<and> (\<forall>sd n. channel_change w p opc (sm_find n (mgr_of sd s)) (sm_find n (mgr_of sd s')))"


lemma mgr_set [simp]: "mgr_of sd' (set_mgr sd m s) = (if sd' = sd then m else mgr_of sd' s)"
  by (cases sd; cases sd') auto

lemma channel_change_refl [simp]: "channel_change w p opc x x"
  by (simp add: channel_change_def split: option.split)

lemma server_change_refl [simp]: "server_change w p opc s s"
  by (simp add: server_change_def)













definition empty_server :: chan_server where
  "empty_server = \<lparr>alliance_mgr = [], horde_mgr = []\<rparr>"

lemma empty_server_inv: "server_inv empty_server"
  by (simp add: empty_server_def server_inv_def mgr_inv_def)

section \<open>Joining, from the bytes of the packet\<close>

text \<open>C18: A join packet with a proper channel name, sent by a player of a team that has channels, is
  decoded to the arguments that were encoded, creates the channel when there is none of that name,
  and makes the player a member of it exactly when the channel admits him with that password; the
  other memberships stay.\<close>

theorem join_packet_joins:
  assumes "ahead b (enc_u32 i @ enc_u8 u @ enc_u8 v @ enc_string n @ enc_string pw)"
    and "no_nul n" "no_nul pw" "n \<noteq> []" "\<not> is_digit (hd n)" "channelMgr w (pl_team me) = Some sd"
  shows "\<exists>s' es c c'. HandleJoinChannel w entry me s b = Inr (s', es)
    \<and> c = (case sm_find n (mgr_of sd s) of Some c0 \<Rightarrow> c0 | None \<Rightarrow> Channel_new (entry i) n i)
    \<and> sm_find n (mgr_of sd s') = Some c'
    \<and> (\<forall>g. IsOn g c' \<longleftrightarrow> IsOn g c \<or> g = pl_guid me \<and> admits w (pl_guid me) pw c)"
proof -
  define c where "c = (case sm_find n (mgr_of sd s) of Some c0 \<Rightarrow> c0 | None \<Rightarrow> Channel_new (entry i) n i)"
  define m where "m = GetJoinChannel entry n i (mgr_of sd s)"
  obtain c' es where j: "Join w (pl_guid me) pw c = (c', es)" by fastforce
  have m: "sm_find n m = Some c"
    by (auto simp: m_def c_def GetJoinChannel_def sm_has_def sm.find_put split: option.splits)
  have get: "mgr_of sd (set_mgr sd x s) = x" for x by (cases sd) auto
  have "HandleJoinChannel w entry me s b = Inr (set_mgr sd (sm_set n c' m) s, es)"
  proof -
    note a1 = rd_u32[OF assms(1)]
    note a2 = rd_u8[OF a1(2)]
    note a3 = rd_u8[OF a2(2)]
    note a4 = rd_string[OF a3(2) assms(2)]
    note a5 = rd_string[where r = "[]", simplified append_Nil2, OF a4(2) assms(3)]
    show ?thesis
      unfolding HandleJoinChannel_def a1(1) a2(1) a3(1) a4(1) a5(1)
      using assms(3-6) m j by (simp add: m_def[symmetric] Let_def)
  qed
  moreover have "sm_find n (mgr_of sd (set_mgr sd (sm_set n c' m) s)) = Some c'"
    by (simp add: get sm.find_put)
  moreover have "IsOn g c' \<longleftrightarrow> IsOn g c \<or> g = pl_guid me \<and> admits w (pl_guid me) pw c" for g
    using Join_membership[of g w "pl_guid me" pw c] j by simp
  ultimately show ?thesis using c_def by blast
qed

definition join_bytes :: byte_buffer where
  "join_bytes = \<lparr>storage = enc_u32 0 @ enc_u8 0 @ enc_u8 0 @ enc_string ''chat'' @ enc_string '''', rpos = 0, wpos = 0\<rparr>"

lemma join_bytes_ahead:
  "ahead join_bytes (enc_u32 0 @ enc_u8 0 @ enc_u8 0 @ enc_string ''chat'' @ enc_string '''')"
  by (simp add: ahead_def join_bytes_def length_encs)

theorem join_packet_joins_witness:
  "\<exists>s' es c'. HandleJoinChannel test_world (\<lambda>_. None) (test_player 1 ''Ann'') empty_server join_bytes = Inr (s', es)
     \<and> sm_find ''chat'' (alliance_mgr s') = Some c' \<and> IsOn 1 c'"
proof -
  have sd: "channelMgr test_world (pl_team (test_player 1 ''Ann'')) = Some Alliance_side"
    by (simp add: channelMgr_def test_world_def test_config_def test_player_def)
  have ok: "admits test_world 1 '''' (Channel_new None ''chat'' 0)"
    unfolding admits_def test_lookups
    by (simp add: IsBanned_def Channel_new_def Let_def Channel_HasFlag_def test_player_def set_flag_def has_flag_def)
  have nn: "no_nul ''chat''" "no_nul ''''" "''chat'' \<noteq> []" "\<not> is_digit (hd ''chat'')"
    by (simp_all add: no_nul_def is_digit_def)
  from join_packet_joins[OF join_bytes_ahead nn sd, of "\<lambda>_. None" empty_server]
  show ?thesis using ok by (auto simp: empty_server_def test_lookups)
qed










end
