(* ===== verification/Reputation.thy ===== *)
theory Reputation
  imports World
begin

text \<open>
  A character's standing with the factions (src/src/server/game/Reputation/ReputationMgr.h and .cpp,
  \<open>FactionEntry\<close> of DBCStructure.h). An \<open>int32\<close> is a \<open>u32\<close> read by \<open>sint\<close>. The client's faction
  table is a parameter: a lookup by id and its number of rows. The rate of a spillover is a
  \<open>float\<close> of the database: here the function from the standing to the part that spills over.
  Operations return the packets sent to the player beside the new state.
\<close>

section \<open>Data\<close>

abbreviation FACTION_FLAG_VISIBLE :: "'a::len word" where "FACTION_FLAG_VISIBLE \<equiv> 0x01"
abbreviation FACTION_FLAG_AT_WAR :: "'a::len word" where "FACTION_FLAG_AT_WAR \<equiv> 0x02"
abbreviation FACTION_FLAG_HIDDEN :: u8 where "FACTION_FLAG_HIDDEN \<equiv> 0x04"
abbreviation FACTION_FLAG_INVISIBLE_FORCED :: u8 where "FACTION_FLAG_INVISIBLE_FORCED \<equiv> 0x08"
abbreviation FACTION_FLAG_PEACE_FORCED :: u8 where "FACTION_FLAG_PEACE_FORCED \<equiv> 0x10"
abbreviation FACTION_FLAG_INACTIVE :: "'a::len word" where "FACTION_FLAG_INACTIVE \<equiv> 0x20"

abbreviation REP_HATED :: nat where "REP_HATED \<equiv> 0"
abbreviation REP_HOSTILE :: nat where "REP_HOSTILE \<equiv> 1"

abbreviation SMSG_INITIALIZE_FACTIONS :: u16 where "SMSG_INITIALIZE_FACTIONS \<equiv> 0x122"
abbreviation SMSG_SET_FACTION_VISIBLE :: u16 where "SMSG_SET_FACTION_VISIBLE \<equiv> 0x123"
abbreviation SMSG_SET_FACTION_STANDING :: u16 where "SMSG_SET_FACTION_STANDING \<equiv> 0x124"
abbreviation SMSG_SET_FORCED_REACTIONS :: u16 where "SMSG_SET_FORCED_REACTIONS \<equiv> 0x2A5"

record faction_entry =
  fe_ID :: u32
  fe_listID :: u32
  fe_raceMask :: "u32 list"
  fe_classMask :: "u32 list"
  fe_baseRep :: "u32 list"
  fe_flags :: "u32 list"

record faction_state =
  fs_ID :: u32
  fs_listID :: u32
  fs_Standing :: u32
  fs_Flags :: u8
  fs_needSend :: bool
  fs_needSave :: bool

definition FactionState0 :: faction_state where
  "FactionState0 = \<lparr>fs_ID = 0, fs_listID = 0, fs_Standing = 0, fs_Flags = 0, fs_needSend = False,
     fs_needSave = False\<rparr>"

text \<open>What the manager reads of the player who owns it.\<close>

record rep_owner =
  ro_guid :: u32
  ro_raceMask :: u32
  ro_classMask :: u32
  ro_loading :: bool

record rep_mgr =
  rm_factions :: "(u32 \<times> faction_state) list"
  rm_forced :: "(u32 \<times> nat) list"

record faction_store =
  fst_lookup :: "u32 \<Rightarrow> faction_entry option"
  fst_rows :: nat

record rep_spillover =
  rs_faction :: u32
  rs_rate :: "u32 \<Rightarrow> u32"
  rs_rank :: nat

datatype rep_error = NullFactionEntry

section \<open>Ranks\<close>

definition PointsInRank :: "int list" where
  "PointsInRank = [36000, 3000, 3000, 3000, 6000, 12000, 21000, 1000]"

definition Reputation_Cap :: int where "Reputation_Cap = 42999"
definition Reputation_Bottom :: int where "Reputation_Bottom = -42000"

fun rank_loop :: "int \<Rightarrow> int \<Rightarrow> nat \<Rightarrow> nat" where
  "rank_loop standing limit 0 = 0"
| "rank_loop standing limit (Suc i) =
     (let limit' = limit - PointsInRank ! i
      in if standing \<ge> limit' then i else rank_loop standing limit' i)"

definition ReputationToRank :: "u32 \<Rightarrow> nat" where
  "ReputationToRank standing = rank_loop (sint standing) (Reputation_Cap + 1) 8"

section \<open>Reading\<close>

fun fit_loop :: "u32 \<Rightarrow> u32 \<Rightarrow> faction_entry \<Rightarrow> nat list \<Rightarrow> nat option" where
  "fit_loop raceMask classMask fe [] = None"
| "fit_loop raceMask classMask fe (i # is) =
     (if (fe_raceMask fe ! i = 0 \<or> has_flag (fe_raceMask fe ! i) raceMask)
         \<and> (fe_classMask fe ! i = 0 \<or> has_flag (fe_classMask fe ! i) classMask)
      then Some i else fit_loop raceMask classMask fe is)"

definition GetIndexFitTo :: "u32 \<Rightarrow> u32 \<Rightarrow> faction_entry \<Rightarrow> nat option" where
  "GetIndexFitTo raceMask classMask fe = fit_loop raceMask classMask fe [0, 1, 2, 3]"

definition GetBaseReputation :: "rep_owner \<Rightarrow> faction_entry option \<Rightarrow> u32" where
  "GetBaseReputation o' fe =
     (case fe of
        None \<Rightarrow> 0
      | Some f \<Rightarrow> (case GetIndexFitTo (ro_raceMask o') (ro_classMask o') f of
                    Some i \<Rightarrow> fe_baseRep f ! i | None \<Rightarrow> 0))"

definition GetDefaultStateFlags :: "rep_owner \<Rightarrow> faction_entry option \<Rightarrow> u32" where
  "GetDefaultStateFlags o' fe =
     (case fe of
        None \<Rightarrow> 0
      | Some f \<Rightarrow> (case GetIndexFitTo (ro_raceMask o') (ro_classMask o') f of
                    Some i \<Rightarrow> fe_flags f ! i | None \<Rightarrow> 0))"

definition GetState_id :: "u32 \<Rightarrow> rep_mgr \<Rightarrow> faction_state option" where
  "GetState_id i m = sm_find i (rm_factions m)"

definition GetState :: "faction_entry \<Rightarrow> rep_mgr \<Rightarrow> faction_state option" where
  "GetState f m = (if sint (fe_listID f) \<ge> 0 then GetState_id (fe_listID f) m else None)"

definition GetReputation :: "rep_owner \<Rightarrow> faction_entry option \<Rightarrow> rep_mgr \<Rightarrow> u32" where
  "GetReputation o' fe m =
     (case fe of
        None \<Rightarrow> 0
      | Some f \<Rightarrow> (case GetState f m of
                    Some st \<Rightarrow> GetBaseReputation o' (Some f) + fs_Standing st
                  | None \<Rightarrow> 0))"

definition GetReputation_id :: "faction_store \<Rightarrow> rep_owner \<Rightarrow> u32 \<Rightarrow> rep_mgr \<Rightarrow> u32" where
  "GetReputation_id store o' fid m =
     (case fst_lookup store fid of None \<Rightarrow> 0 | Some f \<Rightarrow> GetReputation o' (Some f) m)"

definition GetRank :: "rep_owner \<Rightarrow> faction_entry option \<Rightarrow> rep_mgr \<Rightarrow> nat" where
  "GetRank o' fe m = ReputationToRank (GetReputation o' fe m)"

definition GetBaseRank :: "rep_owner \<Rightarrow> faction_entry option \<Rightarrow> nat" where
  "GetBaseRank o' fe = ReputationToRank (GetBaseReputation o' fe)"

definition IsAtWar :: "faction_entry option \<Rightarrow> rep_mgr \<Rightarrow> bool" where
  "IsAtWar fe m =
     (case fe of
        None \<Rightarrow> False
      | Some f \<Rightarrow> (case GetState f m of
                    Some st \<Rightarrow> has_flag (fs_Flags st) FACTION_FLAG_AT_WAR | None \<Rightarrow> False))"

definition IsAtWar_id :: "faction_store \<Rightarrow> u32 \<Rightarrow> rep_mgr \<Rightarrow> bool" where
  "IsAtWar_id store fid m = (case fst_lookup store fid of None \<Rightarrow> False | Some f \<Rightarrow> IsAtWar (Some f) m)"

definition ApplyForceReaction :: "u32 \<Rightarrow> nat \<Rightarrow> bool \<Rightarrow> rep_mgr \<Rightarrow> rep_mgr" where
  "ApplyForceReaction fid rank apply m =
     m\<lparr>rm_forced := (if apply then sm_set fid rank (rm_forced m) else sm_erase fid (rm_forced m))\<rparr>"

section \<open>Sending\<close>

definition SendForceReactions :: "rep_mgr \<Rightarrow> packet list" where
  "SendForceReactions m =
     [fold (\<lambda>p d. put (put d (enc_u32 (fst p))) (enc_u32 (of_nat (snd p)))) (rm_forced m)
        (put (WorldPacket_new SMSG_SET_FORCED_REACTIONS) (enc_u32 (of_nat (length (rm_forced m)))))]"

text \<open>The loop of \<open>SendState\<close> clears \<open>needSend\<close> of every faction on the way.\<close>

fun send_state_loop ::
  "u32 \<Rightarrow> (u32 \<times> faction_state) list \<Rightarrow> packet \<Rightarrow> u32 \<Rightarrow> (u32 \<times> faction_state) list \<times> packet \<times> u32" where
  "send_state_loop listID [] data cnt = ([], data, cnt)"
| "send_state_loop listID (p # ps) data cnt =
     (let st = snd p;
          st' = (if fs_needSend st then st\<lparr>fs_needSend := False\<rparr> else st);
          report = (fs_needSend st \<and> fs_listID st \<noteq> listID);
          data' = (if report then put (put data (enc_u32 (fs_listID st))) (enc_u32 (fs_Standing st)) else data)
      in case send_state_loop listID ps data' (if report then cnt + 1 else cnt) of
           (ps', d, c) \<Rightarrow> ((fst p, st') # ps', d, c))"

definition SendState :: "faction_state \<Rightarrow> rep_mgr \<Rightarrow> rep_mgr \<times> packet list" where
  "SendState st m =
     (let data = put (WorldPacket_new SMSG_SET_FACTION_STANDING) (enc_u32 0);
          p_count = length (body data);
          data = put (put (put data (enc_u32 1)) (enc_u32 (fs_listID st))) (enc_u32 (fs_Standing st))
      in case send_state_loop (fs_listID st) (rm_factions m) data 1 of
           (fs, d, c) \<Rightarrow> (m\<lparr>rm_factions := fs\<rparr>, [put_at p_count (enc_u32 c) d]))"

text \<open>\<open>for (; a != k; ++a)\<close>: the counter is a \<open>uint32\<close> and would wrap around past \<open>k\<close>.\<close>

function fill_absent :: "u32 \<Rightarrow> u32 \<Rightarrow> packet \<Rightarrow> packet" where
  "fill_absent a k data =
     (if a = k then data else fill_absent (a + 1) k (put (put data (enc_u8 0)) (enc_u32 0)))"
  by pat_completeness auto
termination
proof (relation "measure (\<lambda>(a, k, data). unat (k - a))")
  fix a k :: u32 and data
  assume "a \<noteq> k"
  then have "k - a \<noteq> 0" by simp
  then have "unat (k - a - 1) < unat (k - a)"
    using unat_gt_0[of "k - a"] by (simp add: unat_minus_one)
  then show "((a + 1, k, put (put data (enc_u8 0)) (enc_u32 0)), a, k, data) \<in> measure (\<lambda>(a, k, data). unat (k - a))"
    by (simp add: diff_diff_eq)
qed simp

declare fill_absent.simps [simp del]

fun init_loop :: "(u32 \<times> faction_state) list \<Rightarrow> u32 \<Rightarrow> packet \<Rightarrow> u32 \<times> packet" where
  "init_loop [] a data = (a, data)"
| "init_loop (p # ps) a data =
     init_loop ps (fst p + 1)
       (put (put (fill_absent a (fst p) data) (enc_u8 (fs_Flags (snd p)))) (enc_u32 (fs_Standing (snd p))))"

definition SendInitialReputations :: "rep_mgr \<Rightarrow> rep_mgr \<times> packet list" where
  "SendInitialReputations m =
     (case init_loop (rm_factions m) 0 (put (WorldPacket_new SMSG_INITIALIZE_FACTIONS) (enc_u32 128)) of
        (a, data) \<Rightarrow>
          (m\<lparr>rm_factions := map (\<lambda>p. (fst p, (snd p)\<lparr>fs_needSend := False\<rparr>)) (rm_factions m)\<rparr>,
           [fill_absent a 128 data]))"

definition SendVisible :: "rep_owner \<Rightarrow> faction_state \<Rightarrow> packet list" where
  "SendVisible o' st =
     (if ro_loading o' then []
      else [put (WorldPacket_new SMSG_SET_FACTION_VISIBLE) (enc_u32 (fs_listID st))])"

section \<open>Changing\<close>

definition dirty :: "faction_state \<Rightarrow> faction_state" where
  "dirty st = st\<lparr>fs_needSend := True, fs_needSave := True\<rparr>"

definition SetVisible_state :: "rep_owner \<Rightarrow> faction_state \<Rightarrow> faction_state \<times> packet list" where
  "SetVisible_state o' st =
     (if has_flag (fs_Flags st) (FACTION_FLAG_INVISIBLE_FORCED OR FACTION_FLAG_HIDDEN) then (st, [])
      else if has_flag (fs_Flags st) FACTION_FLAG_VISIBLE then (st, [])
      else let st' = dirty (st\<lparr>fs_Flags := set_flag (fs_Flags st) FACTION_FLAG_VISIBLE\<rparr>)
           in (st', SendVisible o' st'))"

definition SetAtWar_state :: "bool \<Rightarrow> faction_state \<Rightarrow> faction_state" where
  "SetAtWar_state atWar st =
     (if atWar \<and> has_flag (fs_Flags st) FACTION_FLAG_PEACE_FORCED \<and> ReputationToRank (fs_Standing st) > REP_HATED
      then st
      else if has_flag (fs_Flags st) FACTION_FLAG_AT_WAR = atWar then st
      else dirty (st\<lparr>fs_Flags := (if atWar then set_flag (fs_Flags st) FACTION_FLAG_AT_WAR
                                   else clear_flag (fs_Flags st) FACTION_FLAG_AT_WAR)\<rparr>))"

definition SetInactive_state :: "bool \<Rightarrow> faction_state \<Rightarrow> faction_state" where
  "SetInactive_state inactive st =
     (if inactive \<and> (has_flag (fs_Flags st) (FACTION_FLAG_INVISIBLE_FORCED OR FACTION_FLAG_HIDDEN)
           \<or> \<not> has_flag (fs_Flags st) FACTION_FLAG_VISIBLE)
      then st
      else if has_flag (fs_Flags st) FACTION_FLAG_INACTIVE = inactive then st
      else dirty (st\<lparr>fs_Flags := (if inactive then set_flag (fs_Flags st) FACTION_FLAG_INACTIVE
                                   else clear_flag (fs_Flags st) FACTION_FLAG_INACTIVE)\<rparr>))"

text \<open>Through a pointer to the element of the map.\<close>

definition put_state :: "u32 \<Rightarrow> faction_state \<Rightarrow> rep_mgr \<Rightarrow> rep_mgr" where
  "put_state k st m = m\<lparr>rm_factions := sm_set k st (rm_factions m)\<rparr>"

definition SetVisible_entry :: "rep_owner \<Rightarrow> faction_entry \<Rightarrow> rep_mgr \<Rightarrow> rep_mgr \<times> packet list" where
  "SetVisible_entry o' f m =
     (if sint (fe_listID f) < 0 then (m, [])
      else case sm_find (fe_listID f) (rm_factions m) of
          None \<Rightarrow> (m, [])
        | Some st \<Rightarrow> (case SetVisible_state o' st of (st', out) \<Rightarrow> (put_state (fe_listID f) st' m, out)))"

definition SetVisible_template :: "faction_store \<Rightarrow> rep_owner \<Rightarrow> u32 \<Rightarrow> rep_mgr \<Rightarrow> rep_mgr \<times> packet list" where
  "SetVisible_template store o' faction m =
     (if faction = 0 then (m, [])
      else case fst_lookup store faction of None \<Rightarrow> (m, []) | Some f \<Rightarrow> SetVisible_entry o' f m)"

definition SetAtWar :: "u32 \<Rightarrow> bool \<Rightarrow> rep_mgr \<Rightarrow> rep_mgr" where
  "SetAtWar repListID on m =
     (case sm_find repListID (rm_factions m) of
        None \<Rightarrow> m
      | Some st \<Rightarrow>
          if has_flag (fs_Flags st) (FACTION_FLAG_INVISIBLE_FORCED OR FACTION_FLAG_HIDDEN) then m
          else put_state repListID (SetAtWar_state on st) m)"

definition SetInactive :: "u32 \<Rightarrow> bool \<Rightarrow> rep_mgr \<Rightarrow> rep_mgr" where
  "SetInactive repListID on m =
     (case sm_find repListID (rm_factions m) of
        None \<Rightarrow> m | Some st \<Rightarrow> put_state repListID (SetInactive_state on st) m)"

definition clamp_standing :: "u32 \<Rightarrow> u32" where
  "clamp_standing s =
     (if sint s > Reputation_Cap then word_of_int Reputation_Cap
      else if sint s < Reputation_Bottom then word_of_int Reputation_Bottom else s)"

definition SetOneFactionReputation ::
  "rep_owner \<Rightarrow> faction_entry option \<Rightarrow> u32 \<Rightarrow> bool \<Rightarrow> rep_mgr \<Rightarrow> rep_error + (bool \<times> rep_mgr \<times> packet list)" where
  "SetOneFactionReputation o' fe standing incremental m =
     (case fe of
        None \<Rightarrow> Inl NullFactionEntry
      | Some f \<Rightarrow>
          (case sm_find (fe_listID f) (rm_factions m) of
             None \<Rightarrow> Inr (False, m, [])
           | Some st \<Rightarrow>
               let BaseRep = GetBaseReputation o' (Some f);
                   s = clamp_standing (if incremental then standing + (fs_Standing st + BaseRep) else standing);
                   st1 = dirty (st\<lparr>fs_Standing := s - BaseRep\<rparr>)
               in case SetVisible_state o' st1 of
                    (st2, out) \<Rightarrow>
                      let st3 = (if ReputationToRank s \<le> REP_HOSTILE then SetAtWar_state True st2 else st2)
                      in Inr (True, put_state (fe_listID f) st3 m, out)))"

fun spill_loop ::
  "faction_store \<Rightarrow> rep_owner \<Rightarrow> u32 \<Rightarrow> bool \<Rightarrow> rep_spillover list \<Rightarrow> rep_mgr \<Rightarrow> rep_error + (rep_mgr \<times> packet list)" where
  "spill_loop store o' standing incremental [] m = Inr (m, [])"
| "spill_loop store o' standing incremental (r # rs) m =
     (if rs_faction r \<noteq> 0 \<and> GetRank o' (fst_lookup store (rs_faction r)) m \<le> rs_rank r
      then (case SetOneFactionReputation o' (fst_lookup store (rs_faction r)) (rs_rate r standing) incremental m of
              Inl e \<Rightarrow> Inl e
            | Inr (_, m', out) \<Rightarrow>
                (case spill_loop store o' standing incremental rs m' of
                   Inl e \<Rightarrow> Inl e | Inr (m'', out') \<Rightarrow> Inr (m'', out @ out')))
      else spill_loop store o' standing incremental rs m)"

text \<open>\<open>tmpl\<close> is \<open>GetRepSpilloverTemplate\<close>: the spillover definition of a faction, if any.\<close>

definition SetReputation ::
  "faction_store \<Rightarrow> (u32 \<Rightarrow> rep_spillover list option) \<Rightarrow> rep_owner \<Rightarrow> faction_entry \<Rightarrow> u32 \<Rightarrow> bool \<Rightarrow> rep_mgr
     \<Rightarrow> rep_error + (bool \<times> rep_mgr \<times> packet list)" where
  "SetReputation store tmpl o' f standing incremental m =
     (case (case tmpl (fe_ID f) of
              None \<Rightarrow> Inr (m, [])
            | Some rs \<Rightarrow> spill_loop store o' standing incremental rs m) of
        Inl e \<Rightarrow> Inl e
      | Inr (m1, out1) \<Rightarrow>
          if sm_has (fe_listID f) (rm_factions m1)
          then (case SetOneFactionReputation o' (Some f) standing incremental m1 of
                  Inl e \<Rightarrow> Inl e
                | Inr (res, m2, out2) \<Rightarrow>
                    (case SendState (sm_at FactionState0 (fe_listID f) (rm_factions m2)) m2 of
                       (m3, out3) \<Rightarrow> Inr (res, m3, out1 @ out2 @ out3)))
          else Inr (False, m1, out1))"

definition ModifyReputation ::
  "faction_store \<Rightarrow> (u32 \<Rightarrow> rep_spillover list option) \<Rightarrow> rep_owner \<Rightarrow> faction_entry \<Rightarrow> u32 \<Rightarrow> rep_mgr
     \<Rightarrow> rep_error + (bool \<times> rep_mgr \<times> packet list)" where
  "ModifyReputation store tmpl o' f standing m = SetReputation store tmpl o' f standing True m"

section \<open>Loading and saving\<close>

fun init_rows :: "rep_owner \<Rightarrow> faction_entry option list \<Rightarrow> (u32 \<times> faction_state) list \<Rightarrow> (u32 \<times> faction_state) list" where
  "init_rows o' [] fs = fs"
| "init_rows o' (None # es) fs = init_rows o' es fs"
| "init_rows o' (Some f # es) fs =
     init_rows o' es
       (if sint (fe_listID f) \<ge> 0
        then sm_set (fe_listID f)
               \<lparr>fs_ID = fe_ID f, fs_listID = fe_listID f, fs_Standing = 0,
                fs_Flags = ucast (GetDefaultStateFlags o' (Some f)), fs_needSend = True, fs_needSave = True\<rparr> fs
        else fs)"

definition Rep_Initialize :: "faction_store \<Rightarrow> rep_owner \<Rightarrow> rep_mgr \<Rightarrow> rep_mgr" where
  "Rep_Initialize store o' m =
     m\<lparr>rm_factions := init_rows o' (map (\<lambda>i. fst_lookup store (of_nat i)) [1..<fst_rows store]) []\<rparr>"

text \<open>One row of the result: faction id, standing and flags.\<close>

definition load_row ::
  "faction_store \<Rightarrow> rep_owner \<Rightarrow> u32 \<times> u32 \<times> u32 \<Rightarrow> rep_mgr \<Rightarrow> rep_mgr \<times> packet list" where
  "load_row store o' row m =
     (case row of (fid, standing, dbFlags) \<Rightarrow>
      (case fst_lookup store fid of
         None \<Rightarrow> (m, [])
       | Some f \<Rightarrow>
           if sint (fe_listID f) < 0 then (m, [])
           else
             let st0 = (sm_at FactionState0 (fe_listID f) (rm_factions m))\<lparr>fs_Standing := standing\<rparr>;
                 (st1, out) = (if has_flag dbFlags FACTION_FLAG_VISIBLE then SetVisible_state o' st0 else (st0, []));
                 st2 = (if has_flag dbFlags FACTION_FLAG_INACTIVE then SetInactive_state True st1 else st1);
                 st3 = (if has_flag dbFlags FACTION_FLAG_AT_WAR then SetAtWar_state True st2
                        else if has_flag (fs_Flags st2) FACTION_FLAG_VISIBLE then SetAtWar_state False st2
                        else st2);
                 m3 = put_state (fe_listID f) st3 m;
                 st4 = (case sm_find (fe_ID f) (rm_forced m) of
                          Some r \<Rightarrow> if r \<le> REP_HOSTILE then SetAtWar_state True st3 else st3
                        | None \<Rightarrow> if GetRank o' (Some f) m3 \<le> REP_HOSTILE then SetAtWar_state True st3 else st3);
                 st5 = (if ucast (fs_Flags st4) = dbFlags then st4\<lparr>fs_needSend := False, fs_needSave := False\<rparr> else st4)
             in (put_state (fe_listID f) st5 m, out)))"

fun load_rep_rows ::
  "faction_store \<Rightarrow> rep_owner \<Rightarrow> (u32 \<times> u32 \<times> u32) list \<Rightarrow> rep_mgr \<Rightarrow> rep_mgr \<times> packet list" where
  "load_rep_rows store o' [] m = (m, [])"
| "load_rep_rows store o' (r # rs) m =
     (case load_row store o' r m of (m1, out1) \<Rightarrow>
        (case load_rep_rows store o' rs m1 of (m2, out2) \<Rightarrow> (m2, out1 @ out2)))"

definition Rep_LoadFromDB ::
  "faction_store \<Rightarrow> rep_owner \<Rightarrow> (u32 \<times> u32 \<times> u32) list option \<Rightarrow> rep_mgr \<Rightarrow> rep_mgr \<times> packet list" where
  "Rep_LoadFromDB store o' result m =
     (let m0 = Rep_Initialize store o' m
      in case result of None \<Rightarrow> (m0, []) | Some rows \<Rightarrow> load_rep_rows store o' rows m0)"

datatype rep_sql =
    DeleteRep u32 u32          \<comment> \<open>guid, faction\<close>
  | InsertRep u32 u32 u32 u8   \<comment> \<open>guid, faction, standing, flags\<close>

fun save_loop :: "u32 \<Rightarrow> (u32 \<times> faction_state) list \<Rightarrow> (u32 \<times> faction_state) list \<times> rep_sql list" where
  "save_loop g [] = ([], [])"
| "save_loop g (p # ps) =
     (case save_loop g ps of
        (ps', sql) \<Rightarrow>
          if fs_needSave (snd p)
          then ((fst p, (snd p)\<lparr>fs_needSave := False\<rparr>) # ps',
                DeleteRep g (fs_ID (snd p)) # InsertRep g (fs_ID (snd p)) (fs_Standing (snd p)) (fs_Flags (snd p)) # sql)
          else (p # ps', sql))"

definition Rep_SaveToDB :: "rep_owner \<Rightarrow> rep_mgr \<Rightarrow> rep_mgr \<times> rep_sql list" where
  "Rep_SaveToDB o' m =
     (case save_loop (ro_guid o') (rm_factions m) of (fs, sql) \<Rightarrow> (m\<lparr>rm_factions := fs\<rparr>, sql))"

section \<open>Properties of ranks\<close>

lemma ReputationToRank_table:
  "ReputationToRank s =
    (if 42000 \<le> sint s then 7 else if 21000 \<le> sint s then 6 else if 9000 \<le> sint s then 5
     else if 3000 \<le> sint s then 4 else if 0 \<le> sint s then 3 else if -3000 \<le> sint s then 2
     else if -6000 \<le> sint s then 1 else 0)"
  by (simp add: ReputationToRank_def Reputation_Cap_def PointsInRank_def numeral_eq_Suc Let_def)

lemma ReputationToRank_mono: "sint a \<le> sint b \<Longrightarrow> ReputationToRank a \<le> ReputationToRank b"
  unfolding ReputationToRank_table by simp

lemma sint_clamp: "sint (clamp_standing s) = max (-42000) (min 42999 (sint s))"
  by (auto simp: clamp_standing_def Reputation_Cap_def Reputation_Bottom_def)

lemma clamp_range: "-42000 \<le> sint (clamp_standing s) \<and> sint (clamp_standing s) \<le> 42999"
  by (simp add: sint_clamp)

section \<open>What the setters leave alone\<close>

lemma dirty_simps [simp]:
  "fs_Standing (dirty st) = fs_Standing st" "fs_ID (dirty st) = fs_ID st" "fs_listID (dirty st) = fs_listID st"
  "fs_Flags (dirty st) = fs_Flags st" "fs_needSave (dirty st)"
  by (simp_all add: dirty_def)

text \<open>Only flags and the two marks change, and when the flags do, the save mark is set.\<close>

definition flag_change :: "faction_state \<Rightarrow> faction_state \<Rightarrow> bool" where
  "flag_change st st' \<longleftrightarrow> fs_Standing st' = fs_Standing st \<and> fs_ID st' = fs_ID st \<and> fs_listID st' = fs_listID st
     \<and> (st' = st \<or> fs_needSave st')
     \<and> has_flag (fs_Flags st') FACTION_FLAG_PEACE_FORCED = has_flag (fs_Flags st) FACTION_FLAG_PEACE_FORCED"

lemma flag_change_setters:
  "flag_change st (fst (SetVisible_state o' st))" "flag_change st (SetAtWar_state b st)"
  "flag_change st (SetInactive_state b st)"
  by (auto simp: flag_change_def SetVisible_state_def SetAtWar_state_def SetInactive_state_def Let_def flag_laws)

lemma SetAtWar_state_war:
  "has_flag (fs_Flags (SetAtWar_state True st)) FACTION_FLAG_AT_WAR
    \<or> has_flag (fs_Flags st) FACTION_FLAG_PEACE_FORCED"
  by (auto simp: SetAtWar_state_def flag_laws)

lemma SetOne_cases:
  assumes "sm_find (fe_listID f) (rm_factions m) = Some st"
    and s_def: "s = clamp_standing (if inc then standing + (fs_Standing st + GetBaseReputation o' (Some f)) else standing)"
  shows "\<exists>st' out. SetOneFactionReputation o' (Some f) standing inc m = Inr (True, put_state (fe_listID f) st' m, out)
    \<and> fs_Standing st' = s - GetBaseReputation o' (Some f) \<and> fs_ID st' = fs_ID st \<and> fs_needSave st'
    \<and> (ReputationToRank s \<le> REP_HOSTILE \<longrightarrow>
         has_flag (fs_Flags st') FACTION_FLAG_AT_WAR \<or> has_flag (fs_Flags st) FACTION_FLAG_PEACE_FORCED)"
proof -
  define st1 where "st1 = dirty (st\<lparr>fs_Standing := s - GetBaseReputation o' (Some f)\<rparr>)"
  obtain st2 out where sv: "SetVisible_state o' st1 = (st2, out)" by fastforce
  define st3 where "st3 = (if ReputationToRank s \<le> REP_HOSTILE then SetAtWar_state True st2 else st2)"
  have c2: "flag_change st1 st2" using flag_change_setters(1)[of st1 o'] sv by simp
  have c3: "flag_change st2 st3" using flag_change_setters(2)[of st2 True] by (simp add: st3_def flag_change_def)
  have "SetOneFactionReputation o' (Some f) standing inc m = Inr (True, put_state (fe_listID f) st3 m, out)"
    using assms(1) sv by (simp add: SetOneFactionReputation_def Let_def s_def st1_def st3_def)
  moreover have "fs_Standing st3 = s - GetBaseReputation o' (Some f)" "fs_ID st3 = fs_ID st" "fs_needSave st3"
    using c2 c3 by (auto simp: flag_change_def st1_def)
  moreover have "has_flag (fs_Flags st3) FACTION_FLAG_AT_WAR \<or> has_flag (fs_Flags st) FACTION_FLAG_PEACE_FORCED"
    if "ReputationToRank s \<le> REP_HOSTILE"
    using that SetAtWar_state_war[of st2] c2 by (auto simp: st3_def flag_change_def st1_def)
  ultimately show ?thesis by blast
qed

section \<open>Properties\<close>

text \<open>C30: setting or changing the standing with a listed faction succeeds; the new total reputation
  is the requested one (or the old total plus the change) brought into the range -42000 to 42999, a
  total that is hostile or worse puts the faction at war unless peace with it is forced, and no
  other faction is touched.\<close>

theorem SetOneFactionReputation_spec:
  assumes "sint (fe_listID f) \<ge> 0" "sm_has (fe_listID f) (rm_factions m)"
  shows "\<exists>m' out. SetOneFactionReputation o' (Some f) standing inc m = Inr (True, m', out)
    \<and> sint (GetReputation o' (Some f) m')
        = max (-42000) (min 42999 (sint (if inc then standing + GetReputation o' (Some f) m else standing)))
    \<and> (GetRank o' (Some f) m' \<le> REP_HOSTILE \<longrightarrow> IsAtWar (Some f) m'
         \<or> has_flag (fs_Flags (the (GetState f m))) FACTION_FLAG_PEACE_FORCED)
    \<and> (\<forall>k. k \<noteq> fe_listID f \<longrightarrow> sm_find k (rm_factions m') = sm_find k (rm_factions m))"
proof -
  obtain st where st: "sm_find (fe_listID f) (rm_factions m) = Some st"
    using assms(2) by (auto simp: sm_has_def)
  define s where "s = clamp_standing (if inc then standing + (fs_Standing st + GetBaseReputation o' (Some f)) else standing)"
  obtain st' out where r: "SetOneFactionReputation o' (Some f) standing inc m = Inr (True, put_state (fe_listID f) st' m, out)"
      "fs_Standing st' = s - GetBaseReputation o' (Some f)"
      "ReputationToRank s \<le> REP_HOSTILE \<longrightarrow>
         has_flag (fs_Flags st') FACTION_FLAG_AT_WAR \<or> has_flag (fs_Flags st) FACTION_FLAG_PEACE_FORCED"
    using SetOne_cases[OF st s_def] by blast
  define m' where "m' = put_state (fe_listID f) st' m"
  have gs: "GetState f m' = Some st'" "GetState f m = Some st"
    using assms(1) st by (simp_all add: GetState_def GetState_id_def m'_def put_state_def sm.find_put)
  have rep: "GetReputation o' (Some f) m' = s" using gs r(2) by (simp add: GetReputation_def)
  have old: "GetReputation o' (Some f) m = GetBaseReputation o' (Some f) + fs_Standing st"
    using gs by (simp add: GetReputation_def)
  have "sint s = max (-42000) (min 42999 (sint (if inc then standing + GetReputation o' (Some f) m else standing)))"
    by (simp add: s_def old sint_clamp add.commute)
  moreover have "GetRank o' (Some f) m' \<le> REP_HOSTILE \<longrightarrow> IsAtWar (Some f) m'
      \<or> has_flag (fs_Flags (the (GetState f m))) FACTION_FLAG_PEACE_FORCED"
    using r(3) gs rep by (simp add: GetRank_def IsAtWar_def)
  moreover have "k \<noteq> fe_listID f \<longrightarrow> sm_find k (rm_factions m') = sm_find k (rm_factions m)" for k
    by (simp add: m'_def put_state_def sm.find_put)
  ultimately show ?thesis using r(1) rep unfolding m'_def by metis
qed

text \<open>A faction with base 3000 for everybody, standing 1000.\<close>

definition test_faction :: faction_entry where
  "test_faction = \<lparr>fe_ID = 72, fe_listID = 19, fe_raceMask = [0, 0, 0, 0], fe_classMask = [0, 0, 0, 0],
     fe_baseRep = [3000, 0, 0, 0], fe_flags = [1, 0, 0, 0]\<rparr>"

definition test_rep :: rep_mgr where
  "test_rep = \<lparr>rm_factions = [(19, \<lparr>fs_ID = 72, fs_listID = 19, fs_Standing = 1000, fs_Flags = 1,
     fs_needSend = False, fs_needSave = True\<rparr>)], rm_forced = []\<rparr>"

definition test_owner :: rep_owner where
  "test_owner = \<lparr>ro_guid = 5, ro_raceMask = 1, ro_classMask = 1, ro_loading = False\<rparr>"

lemma test_rep_listed: "sint (fe_listID test_faction) \<ge> 0" "sm_has (fe_listID test_faction) (rm_factions test_rep)"
  by (simp_all add: test_faction_def test_rep_def sm_has_iff)

lemma test_rep_total: "GetReputation test_owner (Some test_faction) test_rep = 4000"
  by (simp add: GetReputation_def GetState_def GetState_id_def test_faction_def test_rep_def sm_find_def
      GetBaseReputation_def GetIndexFitTo_def)

theorem SetOneFactionReputation_spec_witness:
  "\<exists>m' out. SetOneFactionReputation test_owner (Some test_faction) 40000 True test_rep = Inr (True, m', out)
     \<and> sint (GetReputation test_owner (Some test_faction) m') = 42999"
  using SetOneFactionReputation_spec[OF test_rep_listed, of test_owner 40000 True]
  by (auto simp: test_rep_total)

section \<open>Nothing is lost: the save marks\<close>

text \<open>The table \<open>character_reputation\<close>: standing and flags under the guid and the faction id.\<close>

type_synonym rep_table = "u32 \<times> u32 \<Rightarrow> (u32 \<times> u8) option"

fun rep_execute :: "rep_sql list \<Rightarrow> rep_table \<Rightarrow> rep_table" where
  "rep_execute [] db = db"
| "rep_execute (DeleteRep g f # qs) db = rep_execute qs (db((g, f) := None))"
| "rep_execute (InsertRep g f s fl # qs) db = rep_execute qs (db((g, f) \<mapsto> (s, fl)))"

definition rep_in_step :: "u32 \<Rightarrow> rep_mgr \<Rightarrow> rep_table \<Rightarrow> bool" where
  "rep_in_step g m db \<longleftrightarrow> distinct (map (fs_ID \<circ> snd) (rm_factions m))
     \<and> (\<forall>p\<in>set (rm_factions m). \<not> fs_needSave (snd p) \<longrightarrow>
          db (g, fs_ID (snd p)) = Some (fs_Standing (snd p), fs_Flags (snd p)))"

text \<open>What the rest of the server does to a loaded manager.\<close>

datatype rep_op =
    ChangeReputation faction_entry u32 bool
  | MakeVisible u32
  | AtWar u32 bool
  | Inactive u32 bool
  | ForceReaction u32 nat bool
  | SendInitial
  | Save

definition rep_step ::
  "faction_store \<Rightarrow> (u32 \<Rightarrow> rep_spillover list option) \<Rightarrow> rep_owner \<Rightarrow> rep_op \<Rightarrow> rep_mgr \<times> rep_table
     \<Rightarrow> rep_error + (rep_mgr \<times> rep_table)" where
  "rep_step store tmpl o' c s =
     (case c of
        ChangeReputation f standing inc \<Rightarrow>
          (case SetReputation store tmpl o' f standing inc (fst s) of
             Inl e \<Rightarrow> Inl e | Inr (res, m, out) \<Rightarrow> Inr (m, snd s))
      | MakeVisible faction \<Rightarrow> Inr (fst (SetVisible_template store o' faction (fst s)), snd s)
      | AtWar k b \<Rightarrow> Inr (SetAtWar k b (fst s), snd s)
      | Inactive k b \<Rightarrow> Inr (SetInactive k b (fst s), snd s)
      | ForceReaction f r b \<Rightarrow> Inr (ApplyForceReaction f r b (fst s), snd s)
      | SendInitial \<Rightarrow> Inr (fst (SendInitialReputations (fst s)), snd s)
      | Save \<Rightarrow> (case Rep_SaveToDB o' (fst s) of (m, sql) \<Rightarrow> Inr (m, rep_execute sql (snd s))))"

fun rep_run ::
  "faction_store \<Rightarrow> (u32 \<Rightarrow> rep_spillover list option) \<Rightarrow> rep_owner \<Rightarrow> rep_op list \<Rightarrow> rep_mgr \<times> rep_table
     \<Rightarrow> rep_error + (rep_mgr \<times> rep_table)" where
  "rep_run store tmpl o' [] s = Inr s"
| "rep_run store tmpl o' (c # cs) s =
     (case rep_step store tmpl o' c s of Inl e \<Rightarrow> Inl e | Inr s' \<Rightarrow> rep_run store tmpl o' cs s')"

lemma map_sm_set_same:
  "sm_find k m = Some v \<Longrightarrow> sm_wf m \<Longrightarrow> h v' = h v \<Longrightarrow> map (h \<circ> snd) (sm_set k v' m) = map (h \<circ> snd) m"
proof (induction m)
  case (Cons p m)
  then show ?case
    by (cases "fst p = k") (auto simp: sm_find_def sm_wf_def dest!: map_of_SomeD split: if_splits)
qed simp

lemma set_sm_set: "set (sm_set k v m) \<subseteq> insert (k, v) (set m)"
  by (induction m) auto

text \<open>One state is replaced by one of the same faction that is marked for saving if it differs.\<close>

definition rep_touch :: "rep_mgr \<Rightarrow> rep_mgr \<Rightarrow> bool" where
  "rep_touch m m' \<longleftrightarrow> m' = m \<or> (\<exists>k st st'. sm_find k (rm_factions m) = Some st \<and> m' = put_state k st' m
     \<and> fs_ID st' = fs_ID st \<and> (st' = st \<or> fs_needSave st'))"

lemma touch_refl [simp]: "rep_touch m m"
  by (simp add: rep_touch_def)

lemma touch_put:
  "sm_find k (rm_factions m) = Some st \<Longrightarrow> fs_ID st' = fs_ID st \<Longrightarrow> st' = st \<or> fs_needSave st'
    \<Longrightarrow> rep_touch m (put_state k st' m)"
  unfolding rep_touch_def by blast

lemma touch_flag_change:
  "sm_find k (rm_factions m) = Some st \<Longrightarrow> flag_change st st' \<Longrightarrow> rep_touch m (put_state k st' m)"
  by (rule touch_put) (auto simp: flag_change_def)

definition rep_good :: "u32 \<Rightarrow> rep_mgr \<times> rep_table \<Rightarrow> bool" where
  "rep_good g s \<longleftrightarrow> sm_wf (rm_factions (fst s)) \<and> rep_in_step g (fst s) (snd s)"

lemma good_put:
  assumes good: "rep_good g (m, db)" and k: "sm_find k (rm_factions m) = Some st"
    and same: "fs_ID st' = fs_ID st"
    and ok: "st' = st \<or> fs_needSave st' \<or> db (g, fs_ID st') = Some (fs_Standing st', fs_Flags st')"
  shows "rep_good g (put_state k st' m, db)"
proof -
  have old: "(k, st) \<in> set (rm_factions m)" by (rule sm_find_someD[OF k])
  have ids: "map (fs_ID \<circ> snd) (sm_set k st' (rm_factions m)) = map (fs_ID \<circ> snd) (rm_factions m)"
    using map_sm_set_same[where h = fs_ID, OF k _ same] good by (simp add: rep_good_def)
  have "p \<in> set (sm_set k st' (rm_factions m)) \<Longrightarrow> p = (k, st') \<or> p \<in> set (rm_factions m)" for p
    using set_sm_set[of k st' "rm_factions m"] by auto
  then show ?thesis
    using good ok old ids by (fastforce simp: rep_good_def rep_in_step_def put_state_def sm.wf_put)
qed

lemma good_touch: "rep_good g (m, db) \<Longrightarrow> rep_touch m m' \<Longrightarrow> rep_good g (m', db)"
  unfolding rep_touch_def using good_put by blast

definition unsend :: "rep_mgr \<Rightarrow> rep_mgr" where
  "unsend m = m\<lparr>rm_factions := map (\<lambda>p. (fst p, (snd p)\<lparr>fs_needSend := False\<rparr>)) (rm_factions m)\<rparr>"

lemma send_state_loop_map:
  "fst (send_state_loop listID ps data cnt) = map (\<lambda>p. (fst p, (snd p)\<lparr>fs_needSend := False\<rparr>)) ps"
proof (induction ps arbitrary: data cnt)
  case (Cons p ps)
  have "\<not> fs_needSend st \<Longrightarrow> st\<lparr>fs_needSend := False\<rparr> = st" for st by simp
  with Cons show ?case by (simp add: Let_def case_prod_unfold)
qed simp

lemma SendState_unsend: "fst (SendState st m) = unsend m"
  by (simp add: SendState_def Let_def case_prod_unfold send_state_loop_map unsend_def)

lemma SendInitial_unsend: "fst (SendInitialReputations m) = unsend m"
  by (simp add: SendInitialReputations_def case_prod_unfold unsend_def)

lemma good_unsend: "rep_good g (m, db) \<Longrightarrow> rep_good g (unsend m, db)"
  by (auto simp: rep_good_def rep_in_step_def unsend_def sm_wf_def comp_def)

lemma touch_SetOne:
  "SetOneFactionReputation o' fe standing inc m = Inr (res, m', out) \<Longrightarrow> rep_touch m m'"
proof (cases fe)
  case (Some f)
  assume r: "SetOneFactionReputation o' fe standing inc m = Inr (res, m', out)"
  show ?thesis
  proof (cases "sm_find (fe_listID f) (rm_factions m)")
    case None
    then show ?thesis using r Some by (simp add: SetOneFactionReputation_def)
  next
    case st: (Some st)
    show ?thesis using SetOne_cases[where o' = o' and inc = inc and standing = standing, OF st refl] r touch_put[OF st]
      by (auto simp: Some)
  qed
qed (simp add: SetOneFactionReputation_def)

lemma touch_SetVisible_template: "rep_touch m (fst (SetVisible_template store o' faction m))"
  using flag_change_setters(1)[of _ o']
  by (auto simp: SetVisible_template_def SetVisible_entry_def case_prod_unfold split: option.split
      intro: touch_flag_change)

lemma touch_SetAtWar: "rep_touch m (SetAtWar k b m)"
  using flag_change_setters(2) by (auto simp: SetAtWar_def split: option.split intro: touch_flag_change)

lemma touch_SetInactive: "rep_touch m (SetInactive k b m)"
  using flag_change_setters(3) by (auto simp: SetInactive_def split: option.split intro: touch_flag_change)

text \<open>Every faction a spillover names is known, as the loader of the spillover table checks.\<close>

definition known_factions :: "faction_store \<Rightarrow> (u32 \<Rightarrow> rep_spillover list option) \<Rightarrow> bool" where
  "known_factions store tmpl \<longleftrightarrow>
     (\<forall>i rs. tmpl i = Some rs \<longrightarrow> (\<forall>r\<in>set rs. rs_faction r \<noteq> 0 \<longrightarrow> fst_lookup store (rs_faction r) \<noteq> None))"

lemma SetOne_returns: "\<exists>res m' out. SetOneFactionReputation o' (Some f) standing inc m = Inr (res, m', out)"
  by (auto simp: SetOneFactionReputation_def Let_def case_prod_unfold split: option.split)

lemma good_spill_loop:
  assumes "\<forall>r\<in>set rs. rs_faction r \<noteq> 0 \<longrightarrow> fst_lookup store (rs_faction r) \<noteq> None" "rep_good g (m, db)"
  shows "\<exists>m' out. spill_loop store o' standing inc rs m = Inr (m', out) \<and> rep_good g (m', db)"
  using assms
proof (induction rs arbitrary: m)
  case (Cons r rs)
  show ?case
  proof (cases "rs_faction r \<noteq> 0 \<and> GetRank o' (fst_lookup store (rs_faction r)) m \<le> rs_rank r")
    case True
    then obtain f where f: "fst_lookup store (rs_faction r) = Some f" using Cons.prems(1) by auto
    obtain res m1 out where one: "SetOneFactionReputation o' (Some f) (rs_rate r standing) inc m = Inr (res, m1, out)"
      using SetOne_returns by blast
    have "rep_good g (m1, db)" by (rule good_touch[OF Cons.prems(2) touch_SetOne[OF one]])
    then obtain m2 out2 where "spill_loop store o' standing inc rs m1 = Inr (m2, out2)" "rep_good g (m2, db)"
      using Cons.IH[of m1] Cons.prems(1) by (metis list.set_intros(2))
    then show ?thesis using True f one by simp
  next
    case False
    then show ?thesis using Cons.IH[of m] Cons.prems by auto
  qed
qed simp

lemma good_SetReputation:
  assumes "known_factions store tmpl" "rep_good g (m, db)"
  shows "\<exists>res m' out. SetReputation store tmpl o' f standing inc m = Inr (res, m', out) \<and> rep_good g (m', db)"
proof -
  obtain m1 out1 where sp: "(case tmpl (fe_ID f) of None \<Rightarrow> Inr (m, [])
      | Some rs \<Rightarrow> spill_loop store o' standing inc rs m) = Inr (m1, out1)" "rep_good g (m1, db)"
  proof (cases "tmpl (fe_ID f)")
    case (Some rs)
    then have "\<forall>r\<in>set rs. rs_faction r \<noteq> 0 \<longrightarrow> fst_lookup store (rs_faction r) \<noteq> None"
      using assms(1) by (auto simp: known_factions_def)
    from good_spill_loop[OF this assms(2), of o' standing inc] show ?thesis using that Some by auto
  qed (use assms(2) that in simp)
  obtain res m2 out2 where one: "SetOneFactionReputation o' (Some f) standing inc m1 = Inr (res, m2, out2)"
    using SetOne_returns by blast
  have "rep_good g (m2, db)" by (rule good_touch[OF sp(2) touch_SetOne[OF one]])
  then have "rep_good g (fst (SendState (sm_at FactionState0 (fe_listID f) (rm_factions m2)) m2), db)"
    by (simp add: SendState_unsend good_unsend)
  then show ?thesis using sp one by (auto simp: SetReputation_def case_prod_unfold)
qed

lemma flag_change_refl [simp]: "flag_change st st"
  by (simp add: flag_change_def)

lemma flag_change_trans: "flag_change a b \<Longrightarrow> flag_change b c \<Longrightarrow> flag_change a c"
  by (auto simp: flag_change_def)

text \<open>Saving writes exactly the marked states and clears the marks.\<close>

lemma save_loop_states:
  "fst (save_loop g ps) = map (\<lambda>p. (fst p, (snd p)\<lparr>fs_needSave := False\<rparr>)) ps"
proof (induction ps)
  case (Cons p ps)
  have "\<not> fs_needSave st \<Longrightarrow> st = st\<lparr>fs_needSave := False\<rparr>" for st by simp
  with Cons show ?case by (simp add: case_prod_unfold prod_eq_iff)
qed simp

lemma save_loop_other:
  "(\<And>p. p \<in> set ps \<Longrightarrow> fs_needSave (snd p) \<Longrightarrow> k \<noteq> (g, fs_ID (snd p)))
    \<Longrightarrow> rep_execute (snd (save_loop g ps)) db k = db k"
  by (induction ps arbitrary: db) (auto simp: case_prod_unfold)

lemma save_loop_row:
  "distinct (map (fs_ID \<circ> snd) ps) \<Longrightarrow> p \<in> set ps \<Longrightarrow>
   (fs_needSave (snd p) \<or> db (g, fs_ID (snd p)) = Some (fs_Standing (snd p), fs_Flags (snd p))) \<Longrightarrow>
   rep_execute (snd (save_loop g ps)) db (g, fs_ID (snd p)) = Some (fs_Standing (snd p), fs_Flags (snd p))"
proof (induction ps arbitrary: db)
  case (Cons q ps)
  show ?case
  proof (cases "p = q")
    case True
    have "fs_ID (snd q) \<noteq> fs_ID (snd r)" if "r \<in> set ps" for r
      using Cons.prems(1) that by (auto simp: image_iff)
    then have "rep_execute (snd (save_loop g ps)) d (g, fs_ID (snd q)) = d (g, fs_ID (snd q))" for d
      by (intro save_loop_other) blast
    then show ?thesis
      using Cons.prems(3) True by (auto simp: case_prod_unfold)
  next
    case False
    then have "p \<in> set ps" "fs_ID (snd p) \<noteq> fs_ID (snd q)" using Cons.prems by (auto intro: rev_image_eqI)
    then show ?thesis using Cons by (auto simp: case_prod_unfold)
  qed
qed simp

lemma good_save:
  assumes "rep_good (ro_guid o') (m, db)"
  shows "case Rep_SaveToDB o' m of (m', sql) \<Rightarrow> rep_good (ro_guid o') (m', rep_execute sql db)
    \<and> (\<forall>p\<in>set (rm_factions m'). \<not> fs_needSave (snd p))
    \<and> map (\<lambda>p. (fst p, fs_Standing (snd p), fs_Flags (snd p))) (rm_factions m')
        = map (\<lambda>p. (fst p, fs_Standing (snd p), fs_Flags (snd p))) (rm_factions m)"
proof -
  have "rep_execute (snd (save_loop (ro_guid o') (rm_factions m))) db (ro_guid o', fs_ID (snd p))
      = Some (fs_Standing (snd p), fs_Flags (snd p))" if "p \<in> set (rm_factions m)" for p
    using save_loop_row[OF _ that] assms that by (auto simp: rep_good_def rep_in_step_def)
  then show ?thesis
    using assms by (auto simp: Rep_SaveToDB_def case_prod_unfold save_loop_states rep_good_def rep_in_step_def
        sm_wf_def comp_def)
qed

section \<open>Loading starts in step\<close>

text \<open>What the client's table guarantees: the row number is the id, and list ids are not shared.\<close>

definition store_ok :: "faction_store \<Rightarrow> bool" where
  "store_ok store \<longleftrightarrow> fst_rows store \<le> 2 ^ 32
     \<and> (\<forall>i f. fst_lookup store i = Some f \<longrightarrow> fe_ID f = i \<and> 0 < unat i \<and> unat i < fst_rows store)
     \<and> (\<forall>i j f h. fst_lookup store i = Some f \<longrightarrow> fst_lookup store j = Some h \<longrightarrow>
          fe_listID f = fe_listID h \<longrightarrow> sint (fe_listID f) \<ge> 0 \<longrightarrow> f = h)"

definition rep_listed :: "faction_store \<Rightarrow> rep_mgr \<Rightarrow> bool" where
  "rep_listed store m \<longleftrightarrow> (\<forall>i f. fst_lookup store i = Some f \<longrightarrow> sint (fe_listID f) \<ge> 0 \<longrightarrow>
     (\<exists>st. sm_find (fe_listID f) (rm_factions m) = Some st \<and> fs_ID st = i))"

lemma init_rows_wf: "sm_wf fs \<Longrightarrow> sm_wf (init_rows o' es fs)"
  by (induction o' es fs rule: init_rows.induct) (simp_all add: sm.wf_put)

lemma init_rows_from:
  "p \<in> set (init_rows o' es fs) \<Longrightarrow> p \<in> set fs \<or>
     (\<exists>f. Some f \<in> set es \<and> sint (fe_listID f) \<ge> 0 \<and> fst p = fe_listID f \<and> fs_ID (snd p) = fe_ID f \<and> fs_needSave (snd p))"
proof (induction o' es fs rule: init_rows.induct)
  case (3 o' f es fs)
  then show ?case using set_sm_set by (fastforce split: if_splits)
qed auto

lemma init_rows_keep: "sm_has k fs \<Longrightarrow> sm_has k (init_rows o' es fs)"
  by (induction o' es fs rule: init_rows.induct) simp_all

lemma init_rows_has: "Some f \<in> set es \<Longrightarrow> sint (fe_listID f) \<ge> 0 \<Longrightarrow> sm_has (fe_listID f) (init_rows o' es fs)"
  by (induction o' es fs rule: init_rows.induct) (auto simp: init_rows_keep)

lemma init_listed:
  assumes "store_ok store"
  shows "rep_listed store (Rep_Initialize store o' m)" "rep_good g (Rep_Initialize store o' m, db)"
proof -
  define fs where "fs = init_rows o' (map (\<lambda>i. fst_lookup store (of_nat i)) [1..<fst_rows store]) []"
  have wf: "sm_wf fs" by (simp add: fs_def init_rows_wf)
  have origin: "\<exists>f. fst_lookup store (fs_ID (snd p)) = Some f \<and> fst p = fe_listID f \<and> sint (fst p) \<ge> 0 \<and> fs_needSave (snd p)"
    if p: "p \<in> set fs" for p
  proof -
    obtain f where f: "Some f \<in> set (map (\<lambda>i. fst_lookup store (of_nat i)) [1..<fst_rows store])"
        "sint (fe_listID f) \<ge> 0" "fst p = fe_listID f" "fs_ID (snd p) = fe_ID f" "fs_needSave (snd p)"
      using init_rows_from[OF p[unfolded fs_def]] by auto
    obtain i :: nat where "fst_lookup store (of_nat i) = Some f"
      using f(1) by (metis ex_map_conv)
    with f have "fst_lookup store (of_nat i) = Some f" "sint (fe_listID f) \<ge> 0" "fst p = fe_listID f"
        "fs_ID (snd p) = fe_ID f" "fs_needSave (snd p)" by simp_all
    then show ?thesis using assms by (auto simp: store_ok_def)
  qed
  have has: "\<exists>st. sm_find (fe_listID f) fs = Some st \<and> fs_ID st = i"
    if f: "fst_lookup store i = Some f" "sint (fe_listID f) \<ge> 0" for i f
  proof -
    have "unat i \<in> set [1..<fst_rows store]" using assms f by (auto simp: store_ok_def Suc_le_eq)
    then have "Some f \<in> set (map (\<lambda>i. fst_lookup store (of_nat i)) [1..<fst_rows store])"
      using f by (force simp: image_iff)
    from init_rows_has[OF this f(2)] obtain st where st: "sm_find (fe_listID f) fs = Some st"
      by (auto simp: fs_def sm_has_def)
    obtain h where "fst_lookup store (fs_ID st) = Some h" "fe_listID f = fe_listID h"
      using origin[OF sm_find_someD[OF st]] by auto
    then show ?thesis using assms f st unfolding store_ok_def by metis
  qed
  have "inj_on (fs_ID \<circ> snd) (set fs)"
  proof (rule inj_onI)
    fix p q assume "p \<in> set fs" "q \<in> set fs" "(fs_ID \<circ> snd) p = (fs_ID \<circ> snd) q"
    then have "fst p = fst q" using origin[of p] origin[of q] by auto
    then show "p = q"
      using wf \<open>p \<in> set fs\<close> \<open>q \<in> set fs\<close> by (metis prod.collapse sm_find_in_set option.inject)
  qed
  then have "distinct (map (fs_ID \<circ> snd) fs)"
    using wf by (metis distinct_map sm_wf_def sorted_wrt_less_distinct)
  moreover have ini: "rm_factions (Rep_Initialize store o' m) = fs" by (simp add: Rep_Initialize_def fs_def)
  ultimately show "rep_good g (Rep_Initialize store o' m, db)"
    using wf origin unfolding rep_good_def rep_in_step_def fst_conv snd_conv ini by blast
  show "rep_listed store (Rep_Initialize store o' m)"
    using has unfolding rep_listed_def ini by blast
qed

lemma flag_change_at_war: "flag_change st st' \<Longrightarrow> flag_change st (SetAtWar_state b st')"
  by (rule flag_change_trans[OF _ flag_change_setters(2)])

lemma flag_change_inactive: "flag_change st st' \<Longrightarrow> flag_change st (SetInactive_state b st')"
  by (rule flag_change_trans[OF _ flag_change_setters(3)])

lemma flags_back: "ucast (ucast (w :: u8) :: u32) = w"
  by (rule bit_word_eqI) (simp add: bit_simps)

lemma load_row_good:
  assumes ok: "store_ok store" and listed: "rep_listed store m" and good: "rep_good g (m, db)"
    and row: "db (g, fid) = Some (standing, ucast fl)"
  shows "rep_listed store (fst (load_row store o' (fid, standing, fl) m))
    \<and> rep_good g (fst (load_row store o' (fid, standing, fl) m), db)"
proof (cases "\<exists>f. fst_lookup store fid = Some f \<and> sint (fe_listID f) \<ge> 0")
  case False
  then show ?thesis using listed good by (auto simp: load_row_def split: option.split)
next
  case True
  then obtain f where f: "fst_lookup store fid = Some f" "sint (fe_listID f) \<ge> 0" by blast
  obtain st where st: "sm_find (fe_listID f) (rm_factions m) = Some st" "fs_ID st = fid"
    using listed f by (auto simp: rep_listed_def)
  have nneg: "(sint (fe_listID f) < 0) = False" using f by simp
  define st0 where "st0 = st\<lparr>fs_Standing := standing\<rparr>"
  have at: "(sm_at FactionState0 (fe_listID f) (rm_factions m))\<lparr>fs_Standing := standing\<rparr> = st0"
    by (simp add: st0_def sm_at_def st)
  define st1 where "st1 = fst (if has_flag fl FACTION_FLAG_VISIBLE then SetVisible_state o' st0 else (st0, []))"
  define st2 where "st2 = (if has_flag fl FACTION_FLAG_INACTIVE then SetInactive_state True st1 else st1)"
  define st3 where "st3 = (if has_flag fl FACTION_FLAG_AT_WAR then SetAtWar_state True st2
      else if has_flag (fs_Flags st2) FACTION_FLAG_VISIBLE then SetAtWar_state False st2 else st2)"
  have c: "flag_change st0 st1" "flag_change st0 st2" "flag_change st0 st3"
    using flag_change_setters(1)[of st0 o']
    by (auto simp: st1_def st2_def st3_def flag_change_at_war flag_change_inactive)
  obtain st4 where c4: "flag_change st0 st4" and r: "fst (load_row store o' (fid, standing, fl) m)
      = put_state (fe_listID f) (if ucast (fs_Flags st4) = fl then st4\<lparr>fs_needSend := False, fs_needSave := False\<rparr> else st4) m"
  proof
    let ?m3 = "put_state (fe_listID f) st3 m"
    let ?st4 = "case sm_find (fe_ID f) (rm_forced m) of
        Some r \<Rightarrow> if r \<le> REP_HOSTILE then SetAtWar_state True st3 else st3
      | None \<Rightarrow> if GetRank o' (Some f) ?m3 \<le> REP_HOSTILE then SetAtWar_state True st3 else st3"
    show "flag_change st0 ?st4" using c(3) by (auto simp: flag_change_at_war split: option.split)
    show "fst (load_row store o' (fid, standing, fl) m) = put_state (fe_listID f)
        (if ucast (fs_Flags ?st4) = fl then ?st4\<lparr>fs_needSend := False, fs_needSave := False\<rparr> else ?st4) m"
      by (simp only: load_row_def Let_def at case_prod_unfold prod.case f(1) option.case nneg if_False fst_conv snd_conv
          st1_def st2_def st3_def)
  qed
  define st5 where "st5 = (if ucast (fs_Flags st4) = fl then st4\<lparr>fs_needSend := False, fs_needSave := False\<rparr> else st4)"
  have id5: "fs_ID st5 = fid" "fs_Standing st5 = standing"
    using c4 st by (auto simp: st5_def flag_change_def st0_def)
  have "fs_needSave st \<or> st0 = st"
  proof (cases "fs_needSave st")
    case False
    then have "db (g, fs_ID st) = Some (fs_Standing st, fs_Flags st)"
      using good sm_find_someD[OF st(1)] by (auto simp: rep_good_def rep_in_step_def)
    then have "fs_Standing st = standing" using row st(2) by simp
    then show ?thesis by (simp add: st0_def)
  qed simp
  moreover have "st4 = st0 \<or> fs_needSave st4" "fs_needSave st0 = fs_needSave st"
    using c4 by (simp_all add: flag_change_def st0_def)
  ultimately have "st4 = st \<or> fs_needSave st4" by metis
  moreover have "ucast (fs_Flags st4) = fl \<Longrightarrow> db (g, fs_ID st5) = Some (fs_Standing st5, fs_Flags st5)"
    using row id5 by (auto simp: st5_def flags_back)
  ultimately have "st5 = st \<or> fs_needSave st5 \<or> db (g, fs_ID st5) = Some (fs_Standing st5, fs_Flags st5)"
    unfolding st5_def by (auto split: if_splits)
  then have "rep_good g (put_state (fe_listID f) st5 m, db)"
    using good_put[OF good st(1)] id5 st(2) by simp
  moreover have "rep_listed store (put_state (fe_listID f) st5 m)"
    unfolding rep_listed_def
  proof (intro allI impI)
    fix i h assume h: "fst_lookup store i = Some h" "sint (fe_listID h) \<ge> 0"
    show "\<exists>st. sm_find (fe_listID h) (rm_factions (put_state (fe_listID f) st5 m)) = Some st \<and> fs_ID st = i"
    proof (cases "fe_listID h = fe_listID f")
      case True
      then have "h = f" using ok f h unfolding store_ok_def by metis
      then have "i = fid" using ok f h unfolding store_ok_def by metis
      then show ?thesis using True id5 by (simp add: put_state_def sm.find_put)
    next
      case False
      then show ?thesis using listed h by (auto simp: rep_listed_def put_state_def sm.find_put)
    qed
  qed
  ultimately show ?thesis by (simp add: r st5_def)
qed

lemma load_rows_good:
  assumes "store_ok store" "rep_listed store m" "rep_good g (m, db)"
    "\<forall>(fid, standing, fl)\<in>set rows. db (g, fid) = Some (standing, ucast fl)"
  shows "rep_good g (fst (load_rep_rows store o' rows m), db)"
  using assms
proof (induction rows arbitrary: m)
  case (Cons r rows)
  obtain fid standing fl where r: "r = (fid, standing, fl)" by (cases r) auto
  have "db (g, fid) = Some (standing, ucast fl)" using Cons.prems(4) r by auto
  note l = load_row_good[OF Cons.prems(1-3) this, of o']
  show ?case
    using Cons.IH[OF Cons.prems(1) conjunct1[OF l] conjunct2[OF l]] Cons.prems(4)
    by (simp add: r case_prod_unfold)
qed simp

lemma good_step:
  assumes "known_factions store tmpl" "rep_good (ro_guid o') s"
  shows "\<exists>s'. rep_step store tmpl o' c s = Inr s' \<and> rep_good (ro_guid o') s'"
proof -
  obtain m db where s: "s = (m, db)" by fastforce
  note good = assms(2)[unfolded s]
  show ?thesis
  proof (cases c)
    case (ChangeReputation f standing inc)
    then show ?thesis using good_SetReputation[OF assms(1) good, of o' f standing inc] s by (auto simp: rep_step_def)
  next
    case Save
    then show ?thesis using good_save[OF good] s by (auto simp: rep_step_def)
  next
    case (ForceReaction f r b)
    then show ?thesis using good s
      by (simp add: rep_step_def ApplyForceReaction_def rep_good_def rep_in_step_def)
  qed (use good s in \<open>auto simp: rep_step_def SendInitial_unsend
      intro: good_touch good_unsend touch_SetAtWar touch_SetInactive touch_SetVisible_template\<close>)
qed

lemma good_run:
  assumes "known_factions store tmpl" "rep_good (ro_guid o') s"
  shows "\<exists>s'. rep_run store tmpl o' cs s = Inr s' \<and> rep_good (ro_guid o') s'"
  using assms(2)
proof (induction cs arbitrary: s)
  case (Cons c cs)
  obtain s' where "rep_step store tmpl o' c s = Inr s'" "rep_good (ro_guid o') s'"
    using good_step[OF assms(1) Cons.prems] by blast
  then show ?case using Cons.IH by simp
qed simp

text \<open>C8: whatever happens to a character's reputation between loading and saving, the save brings
  the table into agreement with memory: no operation meets a null faction, and after \<open>SaveToDB\<close>
  the row of every faction holds the standing and flags the manager had before the call, nothing is
  marked for saving, and memory is otherwise unchanged.\<close>

theorem reputation_saved:
  assumes "store_ok store" "known_factions store tmpl"
    and rows: "\<forall>(fid, standing, fl)\<in>set rows. db (ro_guid o', fid) = Some (standing, ucast fl)"
  shows "\<exists>m db' m' sql. rep_run store tmpl o' cs (fst (Rep_LoadFromDB store o' (Some rows) m0), db) = Inr (m, db')
    \<and> Rep_SaveToDB o' m = (m', sql)
    \<and> (\<forall>p\<in>set (rm_factions m'). \<not> fs_needSave (snd p)
         \<and> rep_execute sql db' (ro_guid o', fs_ID (snd p)) = Some (fs_Standing (snd p), fs_Flags (snd p)))
    \<and> map (\<lambda>p. (fst p, fs_Standing (snd p), fs_Flags (snd p))) (rm_factions m')
        = map (\<lambda>p. (fst p, fs_Standing (snd p), fs_Flags (snd p))) (rm_factions m)"
proof -
  have "rep_good (ro_guid o') (fst (Rep_LoadFromDB store o' (Some rows) m0), db)"
    using load_rows_good[OF assms(1) init_listed[OF assms(1)] rows] by (simp add: Rep_LoadFromDB_def)
  from good_run[OF assms(2) this, of cs] obtain m db' where
    run: "rep_run store tmpl o' cs (fst (Rep_LoadFromDB store o' (Some rows) m0), db) = Inr (m, db')"
      "rep_good (ro_guid o') (m, db')" by auto
  obtain m' sql where sv: "Rep_SaveToDB o' m = (m', sql)" by fastforce
  show ?thesis
    using run(1) sv good_save[OF run(2)] by (auto simp: sv rep_good_def rep_in_step_def)
qed

definition test_store :: faction_store where
  "test_store = \<lparr>fst_lookup = (\<lambda>i. if i = 72 then Some test_faction else None), fst_rows = 100\<rparr>"

lemma test_store_ok: "store_ok test_store"
  by (simp add: store_ok_def test_store_def test_faction_def)

theorem reputation_saved_witness:
  "\<exists>m db' m' sql. rep_run test_store (\<lambda>_. None) test_owner [ChangeReputation test_faction 500 True, Save, AtWar 19 True]
       (fst (Rep_LoadFromDB test_store test_owner (Some [(72, 1000, 1)]) test_rep), [(5, 72) \<mapsto> (1000, 1)]) = Inr (m, db')
     \<and> Rep_SaveToDB test_owner m = (m', sql) \<and> (\<forall>p\<in>set (rm_factions m'). \<not> fs_needSave (snd p))"
proof -
  have "known_factions test_store (\<lambda>_. None)" by (simp add: known_factions_def)
  from reputation_saved[OF test_store_ok this, of "[(72, 1000, 1)]" "[(5, 72) \<mapsto> (1000, 1)]" test_owner]
  show ?thesis by (fastforce simp: test_owner_def)
qed

section \<open>The initial reputation packet\<close>

definition rep_slot :: "faction_state option \<Rightarrow> u8 list" where
  "rep_slot s = (case s of None \<Rightarrow> enc_u8 0 @ enc_u32 0 | Some st \<Rightarrow> enc_u8 (fs_Flags st) @ enc_u32 (fs_Standing st))"

lemma length_rep_slot [simp]: "length (rep_slot s) = 5"
  by (simp add: rep_slot_def enc_u8_def enc_u32_def split: option.split)

definition rep_slots :: "(u32 \<times> faction_state) list \<Rightarrow> nat \<Rightarrow> nat \<Rightarrow> u8 list" where
  "rep_slots fs i j = concat (map (\<lambda>k. rep_slot (sm_find (of_nat k) fs)) [i..<j])"

lemma rep_slots_split: "i \<le> j \<Longrightarrow> j \<le> k \<Longrightarrow> rep_slots fs i j @ rep_slots fs j k = rep_slots fs i k"
  unfolding rep_slots_def by (metis concat_append le_Suc_ex map_append upt_add_eq_append)

lemma rep_slots_cong:
  "(\<And>k. i \<le> k \<Longrightarrow> k < j \<Longrightarrow> sm_find (of_nat k) fs = sm_find (of_nat k) fs') \<Longrightarrow> rep_slots fs i j = rep_slots fs' i j"
  unfolding rep_slots_def by (intro arg_cong[where f = concat] map_cong) auto

lemma unat_of_nat_le: "unat (of_nat k :: u32) \<le> k"
  by (simp add: unat_of_nat)

lemma unat_inc: "a < (k :: u32) \<Longrightarrow> unat (a + 1) = Suc (unat a)"
  by unat_arith

lemma fill_absent_slots:
  "a \<le> k \<Longrightarrow> fill_absent a k data = put data (rep_slots [] (unat a) (unat k))"
proof (induction a k data rule: fill_absent.induct)
  case (1 a k data)
  show ?case
  proof (cases "a = k")
    case True
    then show ?thesis by (simp add: fill_absent.simps rep_slots_def put_def)
  next
    case False
    then have lt: "a < k" using 1(2) by simp
    then have suc: "unat (a + 1) = Suc (unat a)" by (rule unat_inc)
    have le: "a + 1 \<le> k" using lt by (simp add: inc_le)
    have "rep_slots [] (unat a) (unat k) = enc_u8 0 @ enc_u32 0 @ rep_slots [] (Suc (unat a)) (unat k)"
      using lt by (simp add: rep_slots_def rep_slot_def upt_conv_Cons word_less_nat_alt)
    then show ?thesis
      using 1(1)[OF False le] False by (subst fill_absent.simps) (simp add: suc put_def)
  qed
qed

lemma init_loop_slots:
  assumes "sm_wf fs" "\<And>p. p \<in> set fs \<Longrightarrow> a \<le> fst p \<and> fst p < 128" "a \<le> 128"
  shows "\<exists>b. init_loop fs a data = (b, put data (rep_slots fs (unat a) (unat b))) \<and> a \<le> b \<and> b \<le> 128
    \<and> (\<forall>p\<in>set fs. fst p < b)"
  using assms
proof (induction fs arbitrary: a data)
  case Nil
  then show ?case by (simp add: rep_slots_def put_def)
next
  case (Cons p fs)
  define c where "c = fst p"
  have c: "a \<le> c" "c < 128" using Cons.prems(2)[of p] by (simp_all add: c_def)
  have suc: "unat (c + 1) = Suc (unat c)"
    by (rule unat_inc[OF c(2)])
  have gt: "c < fst q" if "q \<in> set fs" for q
    using Cons.prems(1) that by (simp add: sm_wf_def c_def)
  have above: "c + 1 \<le> fst q \<and> fst q < 128" if "q \<in> set fs" for q
    using gt[OF that] Cons.prems(2)[of q] that by (simp add: inc_le)
  let ?data = "put (put (fill_absent a c data) (enc_u8 (fs_Flags (snd p)))) (enc_u32 (fs_Standing (snd p)))"
  have "sm_wf fs" "c + 1 \<le> 128" using Cons.prems(1) c by (simp_all add: sm_wf_def inc_le)
  then obtain b where b: "init_loop fs (c + 1) ?data = (b, put ?data (rep_slots fs (unat (c + 1)) (unat b)))"
      "c + 1 \<le> b" "b \<le> 128" "\<forall>q\<in>set fs. fst q < b"
    using Cons.IH[of "c + 1" ?data] above by blast
  have cb: "c < b" using b(2) c by (simp add: word_le_nat_alt word_less_nat_alt suc)
  have small: "sm_find (of_nat k) (p # fs) = None" if "k < unat c" for k
  proof -
    have "(of_nat k :: u32) < c" using that unat_of_nat_le[of k] by (simp add: word_less_nat_alt del: unat_of_nat)
    then have "of_nat k \<notin> fst ` set (p # fs)" using gt by (fastforce simp: c_def dest: less_asym)
    then show ?thesis by (simp only: sm_find_def map_of_eq_None_iff not_False_eq_True)
  qed
  have "rep_slots (p # fs) (unat a) (unat c) = rep_slots [] (unat a) (unat c)"
    by (rule rep_slots_cong) (simp add: small)
  moreover have "rep_slots (p # fs) (unat c) (Suc (unat c)) = enc_u8 (fs_Flags (snd p)) @ enc_u32 (fs_Standing (snd p))"
    by (simp add: rep_slots_def rep_slot_def sm_find_def c_def)
  moreover have "rep_slots (p # fs) (Suc (unat c)) (unat b) = rep_slots fs (Suc (unat c)) (unat b)"
  proof (rule rep_slots_cong)
    fix k assume "Suc (unat c) \<le> k" "k < unat b"
    moreover have "unat b \<le> 128" using b(3) by (simp add: word_le_nat_alt)
    ultimately have "unat (of_nat k :: u32) = k" by (simp add: unat_of_nat)
    then have "of_nat k \<noteq> c" using \<open>Suc (unat c) \<le> k\<close> by auto
    then show "sm_find (of_nat k) (p # fs) = sm_find (of_nat k) fs" by (simp add: sm_find_def c_def)
  qed
  moreover have "unat a \<le> unat c" "Suc (unat c) \<le> unat b" using c(1) b(2) by (simp_all add: word_le_nat_alt suc)
  ultimately have "rep_slots (p # fs) (unat a) (unat b) = rep_slots [] (unat a) (unat c) @ enc_u8 (fs_Flags (snd p))
      @ enc_u32 (fs_Standing (snd p)) @ rep_slots fs (Suc (unat c)) (unat b)"
    using rep_slots_split[of "unat a" "unat c" "unat b" "p # fs"]
      rep_slots_split[of "unat c" "Suc (unat c)" "unat b" "p # fs"] by simp
  then show ?case
    using b cb c(1) fill_absent_slots[OF c(1), of data] by (auto simp: c_def[symmetric] suc put_def)
qed

text \<open>When no faction has a list id beyond 127 the login packet has exactly 128 slots of five
  bytes: slot k holds flags and standing of the faction with list id k, or zeros.\<close>

theorem SendInitialReputations_packet:
  assumes "sm_wf (rm_factions m)" "\<forall>p\<in>set (rm_factions m). fst p < 128"
  shows "snd (SendInitialReputations m) = [put (WorldPacket_new SMSG_INITIALIZE_FACTIONS)
    (enc_u32 128 @ concat (map (\<lambda>k. case sm_find (of_nat k) (rm_factions m) of
        None \<Rightarrow> enc_u8 0 @ enc_u32 0
      | Some st \<Rightarrow> enc_u8 (fs_Flags st) @ enc_u32 (fs_Standing st)) [0..<128]))]"
proof -
  let ?d = "put (WorldPacket_new SMSG_INITIALIZE_FACTIONS) (enc_u32 128)"
  obtain b where b: "init_loop (rm_factions m) 0 ?d = (b, put ?d (rep_slots (rm_factions m) 0 (unat b)))"
      "b \<le> 128" "\<forall>p\<in>set (rm_factions m). fst p < b"
    using init_loop_slots[OF assms(1), of 0 ?d] assms(2) by auto
  have "rep_slots [] (unat b) 128 = rep_slots (rm_factions m) (unat b) 128"
  proof (rule rep_slots_cong)
    fix k assume "unat b \<le> k" "k < 128"
    then have "b \<le> of_nat k" by (simp add: word_le_nat_alt unat_of_nat)
    then have "of_nat k \<notin> fst ` set (rm_factions m)" using b(3) by (auto simp: not_less[symmetric])
    then show "sm_find (of_nat k) [] = sm_find (of_nat k) (rm_factions m)"
      by (simp add: sm_find_def map_of_eq_None_iff[symmetric])
  qed
  moreover have "unat b \<le> 128" using b(2) by (simp add: word_le_nat_alt)
  ultimately have "rep_slots (rm_factions m) 0 (unat b) @ rep_slots [] (unat b) 128 = rep_slots (rm_factions m) 0 128"
    using rep_slots_split[of 0 "unat b" 128 "rm_factions m"] by simp
  then show ?thesis
    using b(1) fill_absent_slots[OF b(2)]
    by (simp add: SendInitialReputations_def put_def rep_slots_def rep_slot_def)
qed

theorem SendInitialReputations_packet_witness:
  "\<exists>rest. body (hd (snd (SendInitialReputations test_rep))) = enc_u32 128 @ rest \<and> length rest = 128 * 5"
proof -
  have "sm_wf (rm_factions test_rep)" "\<forall>p\<in>set (rm_factions test_rep). fst p < 128"
    by (simp_all add: test_rep_def sm_wf_def)
  note packet = SendInitialReputations_packet[OF this, folded rep_slot_def]
  show ?thesis by (simp add: packet WorldPacket_new_def length_concat comp_def sum_list_triv)
qed

end
