(* ===== verification/SocialMgr.thy ===== *)
theory SocialMgr
  imports World
begin

text \<open>
  The social manager (class \<open>SocialMgr\<close> of
  src/src/server/game/Entities/Player/SocialMgr.cpp) and the packet handlers of the friend and
  ignore commands (src/src/server/game/Handlers/MiscHandler.cpp). The manager is the map from low guids
  to the lists of theory PlayerSocial; a player's \<open>GetSocial()\<close> points into it. Handlers that ask the
  database first have their second half as a definition of its own, applied to the row found.
  Name normalisation, SQL escaping, UTF-8 truncation and the security of an account that is not
  logged in are parameters.
\<close>

section \<open>Data\<close>

abbreviation SMSG_CONTACT_LIST :: u16 where "SMSG_CONTACT_LIST \<equiv> 0x067"
abbreviation SMSG_FRIEND_STATUS :: u16 where "SMSG_FRIEND_STATUS \<equiv> 0x068"

datatype friends_result =
    FRIEND_DB_ERROR | FRIEND_LIST_FULL | FRIEND_ONLINE | FRIEND_OFFLINE | FRIEND_NOT_FOUND
  | FRIEND_REMOVED | FRIEND_ADDED_ONLINE | FRIEND_ADDED_OFFLINE | FRIEND_ALREADY | FRIEND_SELF
  | FRIEND_ENEMY | FRIEND_IGNORE_FULL | FRIEND_IGNORE_SELF | FRIEND_IGNORE_NOT_FOUND
  | FRIEND_IGNORE_ALREADY | FRIEND_IGNORE_ADDED | FRIEND_IGNORE_REMOVED | FRIEND_IGNORE_AMBIGUOUS
  | FRIEND_MUTE_FULL | FRIEND_MUTE_SELF | FRIEND_MUTE_NOT_FOUND | FRIEND_MUTE_ALREADY
  | FRIEND_MUTE_ADDED | FRIEND_MUTE_REMOVED | FRIEND_MUTE_AMBIGUOUS | FRIEND_UNK7 | FRIEND_UNKNOWN

primrec result_code :: "friends_result \<Rightarrow> u8" where
  "result_code FRIEND_DB_ERROR = 0x00"
| "result_code FRIEND_LIST_FULL = 0x01"
| "result_code FRIEND_ONLINE = 0x02"
| "result_code FRIEND_OFFLINE = 0x03"
| "result_code FRIEND_NOT_FOUND = 0x04"
| "result_code FRIEND_REMOVED = 0x05"
| "result_code FRIEND_ADDED_ONLINE = 0x06"
| "result_code FRIEND_ADDED_OFFLINE = 0x07"
| "result_code FRIEND_ALREADY = 0x08"
| "result_code FRIEND_SELF = 0x09"
| "result_code FRIEND_ENEMY = 0x0A"
| "result_code FRIEND_IGNORE_FULL = 0x0B"
| "result_code FRIEND_IGNORE_SELF = 0x0C"
| "result_code FRIEND_IGNORE_NOT_FOUND = 0x0D"
| "result_code FRIEND_IGNORE_ALREADY = 0x0E"
| "result_code FRIEND_IGNORE_ADDED = 0x0F"
| "result_code FRIEND_IGNORE_REMOVED = 0x10"
| "result_code FRIEND_IGNORE_AMBIGUOUS = 0x11"
| "result_code FRIEND_MUTE_FULL = 0x12"
| "result_code FRIEND_MUTE_SELF = 0x13"
| "result_code FRIEND_MUTE_NOT_FOUND = 0x14"
| "result_code FRIEND_MUTE_ALREADY = 0x15"
| "result_code FRIEND_MUTE_ADDED = 0x16"
| "result_code FRIEND_MUTE_REMOVED = 0x17"
| "result_code FRIEND_MUTE_AMBIGUOUS = 0x18"
| "result_code FRIEND_UNK7 = 0x19"
| "result_code FRIEND_UNKNOWN = 0x1A"

text \<open>\<open>m_social\<close> of a player object points to the manager's entry for the player.\<close>

definition GetSocial :: "social_mgr \<Rightarrow> player \<Rightarrow> player_social" where
  "GetSocial mgr p = sm_at PlayerSocial_new (GUID_LOPART (pl_guid p)) mgr"

definition SetSocial :: "player \<Rightarrow> player_social \<Rightarrow> social_mgr \<Rightarrow> social_mgr" where
  "SetSocial p s mgr = sm_set (GUID_LOPART (pl_guid p)) s mgr"

section \<open>The manager\<close>

text \<open>May the player see that this other player is online?\<close>

definition status_visible :: "world \<Rightarrow> player \<Rightarrow> player \<Rightarrow> bool" where
  "status_visible w player pFriend \<longleftrightarrow>
     (let allowTwoSideWhoList = CONFIG_ALLOW_TWO_SIDE_WHO_LIST (w_config w);
          gmInWhoList = (CONFIG_GM_IN_WHO_LIST (w_config w) \<or> pl_security player > SEC_PLAYER)
      in pl_security player > SEC_PLAYER
         \<or> (pl_team pFriend = pl_team player \<or> allowTwoSideWhoList)
           \<and> (pl_security pFriend = SEC_PLAYER \<or> gmInWhoList \<and> IsVisibleGloballyFor pFriend player))"

definition flag_if :: "bool \<Rightarrow> u32 \<Rightarrow> u32 \<Rightarrow> u32" where
  "flag_if b flag status = (if b then set_flag status flag else clear_flag status flag)"

definition GetFriendInfo :: "world \<Rightarrow> social_mgr \<Rightarrow> player \<Rightarrow> u32 \<Rightarrow> friend_info \<Rightarrow> friend_info" where
  "GetFriendInfo w mgr player friendGUID friendInfo =
     (let fi = friendInfo\<lparr>fi_Status := FRIEND_STATUS_OFFLINE, fi_Area := 0, fi_Level := 0, fi_Class := 0\<rparr>
      in case FindPlayer w (ucast friendGUID) False of
           None \<Rightarrow> fi
         | Some pFriend \<Rightarrow>
             let fi = (case sm_find friendGUID (ps_map (GetSocial mgr player)) of
                         Some i \<Rightarrow> fi\<lparr>fi_Note := fi_Note i\<rparr> | None \<Rightarrow> fi)
             in if status_visible w player pFriend
                then let status = set_flag (fi_Status fi) FRIEND_STATUS_ONLINE;
                         status = flag_if (pl_afk pFriend) FRIEND_STATUS_AFK status;
                         status = flag_if (pl_dnd pFriend) FRIEND_STATUS_DND status;
                         status = flag_if (w_raf_link w (pl_guid player) (pl_guid pFriend)) FRIEND_STATUS_RAF status;
                         area = (if CONFIG_ARENA_HIDE_FROM_SOCIAL (w_config w) \<and> pl_in_bg pFriend
                                 then (case pl_bg_entry_zone pFriend of None \<Rightarrow> 0 | Some z \<Rightarrow> z)
                                 else pl_zone pFriend)
                     in fi\<lparr>fi_Status := status, fi_Area := area, fi_Level := pl_level pFriend,
                           fi_Class := pl_class pFriend\<rparr>
                else fi)"

text \<open>One entry of the contact list packet.\<close>

definition put_contact :: "u32 \<Rightarrow> friend_info \<Rightarrow> packet \<Rightarrow> packet" where
  "put_contact f i data =
     (let data = put (put (put data (enc_u64 (ucast f))) (enc_u32 (fi_Flags i))) (enc_string (fi_Note i))
      in if has_flag (fi_Flags i) SOCIAL_FLAG_FRIEND
         then let data = put data (enc_u8 (ucast (fi_Status i)))
              in if fi_Status i \<noteq> 0
                 then put (put (put data (enc_u32 (fi_Area i))) (enc_u32 (fi_Level i))) (enc_u32 (fi_Class i))
                 else data
         else data)"

text \<open>The loop of \<open>SendSocialList\<close> updates every entry in place on the way.\<close>

fun contact_loop ::
  "world \<Rightarrow> social_mgr \<Rightarrow> player \<Rightarrow> (u32 \<times> friend_info) list \<Rightarrow> packet \<Rightarrow> (u32 \<times> friend_info) list \<times> packet" where
  "contact_loop w mgr plr [] data = ([], data)"
| "contact_loop w mgr plr (p # ps) data =
     (let i = GetFriendInfo w mgr plr (fst p) (snd p)
      in case contact_loop w mgr plr ps (put_contact (fst p) i data) of
           (ps', data') \<Rightarrow> ((fst p, i) # ps', data'))"

definition SendSocialList :: "world \<Rightarrow> u32 \<Rightarrow> social_mgr \<Rightarrow> social_mgr \<times> effect list" where
  "SendSocialList w g mgr =
     (let s = sm_at PlayerSocial_new g mgr
      in case GetPlayer w (ucast (ps_guid s)) of
           None \<Rightarrow> (mgr, [])
         | Some plr \<Rightarrow>
             let size = of_nat (length (ps_map s))
             in case contact_loop w mgr plr (ps_map s)
                      (put (put (WorldPacket_new SMSG_CONTACT_LIST) (enc_u32 7)) (enc_u32 size)) of
                  (m', data) \<Rightarrow> (sm_set g (s\<lparr>ps_map := m'\<rparr>) mgr, [Send (pl_guid plr) data]))"

definition MakeFriendStatusPacket :: "friends_result \<Rightarrow> u32 \<Rightarrow> packet \<Rightarrow> packet" where
  "MakeFriendStatusPacket result g data =
     put (put (Initialize SMSG_FRIEND_STATUS data) (enc_u8 (result_code result))) (enc_u64 (ucast g))"

text \<open>\<open>m_socialMap\<close> is walked in the order of the low guids.\<close>

fun broadcast_loop :: "world \<Rightarrow> player \<Rightarrow> packet \<Rightarrow> social_mgr \<Rightarrow> effect list" where
  "broadcast_loop w player packet [] = []"
| "broadcast_loop w player packet (q # qs) =
     (case sm_find (GUID_LOPART (pl_guid player)) (ps_map (snd q)) of
        None \<Rightarrow> []
      | Some i \<Rightarrow>
          if has_flag (fi_Flags i) SOCIAL_FLAG_FRIEND
          then (case FindPlayer w (MAKE_NEW_GUID (fst q) 0 HIGHGUID_PLAYER) False of
                  None \<Rightarrow> []
                | Some pFriend \<Rightarrow>
                    if pl_in_world pFriend
                       \<and> (pl_security pFriend > SEC_PLAYER
                          \<or> (pl_team pFriend = pl_team player \<or> CONFIG_ALLOW_TWO_SIDE_WHO_LIST (w_config w))
                            \<and> (pl_security player = SEC_PLAYER
                               \<or> CONFIG_GM_IN_WHO_LIST (w_config w) \<and> IsVisibleGloballyFor player pFriend))
                    then [Send (pl_guid pFriend) packet] else [])
          else [])
     @ broadcast_loop w player packet qs"

definition BroadcastToFriendListers :: "world \<Rightarrow> social_mgr \<Rightarrow> player \<Rightarrow> packet \<Rightarrow> effect list" where
  "BroadcastToFriendListers w mgr player packet = broadcast_loop w player packet mgr"

definition SendFriendStatus ::
  "world \<Rightarrow> social_mgr \<Rightarrow> player \<Rightarrow> friends_result \<Rightarrow> u32 \<Rightarrow> bool \<Rightarrow> effect list" where
  "SendFriendStatus w mgr player result friend_guid broadcast =
     (let data = MakeFriendStatusPacket result friend_guid (WorldPacket_new 0);
          fi = GetFriendInfo w mgr player friend_guid FriendInfo_new;
          data = (if result = FRIEND_ADDED_OFFLINE \<or> result = FRIEND_ADDED_ONLINE
                  then put data (enc_string (fi_Note fi)) else data);
          data = (if result = FRIEND_ADDED_ONLINE \<or> result = FRIEND_ONLINE
                  then put (put (put (put data (enc_u8 (ucast (fi_Status fi)))) (enc_u32 (fi_Area fi)))
                         (enc_u32 (fi_Level fi))) (enc_u32 (fi_Class fi))
                  else data)
      in if broadcast then BroadcastToFriendListers w mgr player data else [Send (pl_guid player) data])"

section \<open>The handlers\<close>

type_synonym social_result = "social_mgr \<times> social_sql list \<times> effect list"

text \<open>What the first halves ask the database, with what the second halves get besides the row.\<close>

datatype social_query =
    AskFriend u64 string string   \<comment> \<open>account, note, name: \<open>SELECT guid, race, account\<close>\<close>
  | AskIgnore u64 string          \<comment> \<open>account, name: \<open>SELECT guid\<close>\<close>

definition HandleFriendListOpcode :: "world \<Rightarrow> player \<Rightarrow> social_mgr \<Rightarrow> byte_buffer \<Rightarrow> bb_error + social_result" where
  "HandleFriendListOpcode w me mgr =
     rd (read_int False 4) (\<lambda>unk :: u32. \<lambda>b.
       Inr (case SendSocialList w (GUID_LOPART (pl_guid me)) mgr of (mgr', es) \<Rightarrow> (mgr', [], es)))"

definition HandleAddFriendOpcode ::
  "(string \<Rightarrow> string option) \<Rightarrow> (string \<Rightarrow> string) \<Rightarrow> player \<Rightarrow> byte_buffer \<Rightarrow> bb_error + social_query option" where
  "HandleAddFriendOpcode norm escape me =
     rd read_string (\<lambda>friendName.
     rd read_string (\<lambda>friendNote b.
       Inr (case norm friendName of
              None \<Rightarrow> None
            | Some n \<Rightarrow> Some (AskFriend (pl_account me) friendNote (c_str (escape n))))))"

definition TeamForRace :: "(u8 \<Rightarrow> u32 option) \<Rightarrow> u8 \<Rightarrow> u32" where
  "TeamForRace chrRaces race =
     (case chrRaces race of
        None \<Rightarrow> ALLIANCE
      | Some TeamID \<Rightarrow> if TeamID = 1 then HORDE else if TeamID = 7 then ALLIANCE else ALLIANCE)"

definition session_player :: "world \<Rightarrow> u64 \<Rightarrow> player option" where
  "session_player w accountId = find (\<lambda>p. pl_account p = accountId) (w_players w)"

definition HandleAddFriendOpcodeCallBack ::
  "(string \<Rightarrow> string) \<Rightarrow> (string \<Rightarrow> string) \<Rightarrow> (u64 \<Rightarrow> u32) \<Rightarrow> (u8 \<Rightarrow> u32 option) \<Rightarrow> world
     \<Rightarrow> (u32 \<times> u8 \<times> u32) option \<Rightarrow> u64 \<Rightarrow> string \<Rightarrow> social_mgr \<Rightarrow> social_result" where
  "HandleAddFriendOpcodeCallBack truncate48 escape accSecurity chrRaces w result accountId friendNote mgr =
     (case session_player w accountId of
        None \<Rightarrow> (mgr, [], [])
      | Some me \<Rightarrow>
          (case result of
             None \<Rightarrow> (mgr, [], SendFriendStatus w mgr me FRIEND_NOT_FOUND 0 False)
           | Some (rguid, rrace, raccount) \<Rightarrow>
               let friendGuid = MAKE_NEW_GUID rguid 0 HIGHGUID_PLAYER;
                   team = TeamForRace chrRaces rrace;
                   low = GUID_LOPART friendGuid;
                   s = GetSocial mgr me
               in if (pl_security me \<ge> SEC_MODERATOR \<or> CONFIG_ALLOW_GM_FRIEND (w_config w)
                      \<or> accSecurity (ucast raccount) < SEC_MODERATOR) \<and> friendGuid \<noteq> 0
                  then
                    case (if friendGuid = pl_guid me then (FRIEND_SELF, s, [])
                          else if pl_team me \<noteq> team \<and> \<not> CONFIG_ALLOW_TWO_SIDE_ADD_FRIEND (w_config w)
                                  \<and> pl_security me < SEC_MODERATOR
                          then (FRIEND_ENEMY, s, [])
                          else if HasFriend low s then (FRIEND_ALREADY, s, [])
                          else
                            let res = (case FindPlayer w friendGuid False of
                                         Some pFriend \<Rightarrow> if IsVisibleGloballyFor pFriend me then FRIEND_ADDED_ONLINE
                                                         else FRIEND_ADDED_OFFLINE
                                       | None \<Rightarrow> FRIEND_ADDED_OFFLINE)
                            in case AddToSocialList low False s of
                                 (ok, s', sql) \<Rightarrow> (if ok then res else FRIEND_LIST_FULL, s', sql)) of
                      (res, s1, sql1) \<Rightarrow>
                        (case SetFriendNote truncate48 escape low friendNote s1 of
                           (s2, sql2) \<Rightarrow>
                             let mgr' = SetSocial me s2 mgr
                             in (mgr', sql1 @ sql2, SendFriendStatus w mgr' me res low False))
                  else (mgr, [], SendFriendStatus w mgr me FRIEND_NOT_FOUND low False)))"

definition HandleDelFriendOpcode :: "world \<Rightarrow> player \<Rightarrow> social_mgr \<Rightarrow> byte_buffer \<Rightarrow> bb_error + social_result" where
  "HandleDelFriendOpcode w me mgr =
     rd (read_int False 8) (\<lambda>FriendGUID :: guid. \<lambda>b.
       Inr (case RemoveFromSocialList (GUID_LOPART FriendGUID) False (GetSocial mgr me) of
              (s, sql) \<Rightarrow>
                let mgr' = SetSocial me s mgr
                in (mgr', sql, SendFriendStatus w mgr' me FRIEND_REMOVED (GUID_LOPART FriendGUID) False)))"

definition HandleAddIgnoreOpcode ::
  "(string \<Rightarrow> string option) \<Rightarrow> (string \<Rightarrow> string) \<Rightarrow> player \<Rightarrow> byte_buffer \<Rightarrow> bb_error + social_query option" where
  "HandleAddIgnoreOpcode norm escape me =
     rd read_string (\<lambda>IgnoreName b.
       Inr (case norm IgnoreName of
              None \<Rightarrow> None
            | Some n \<Rightarrow> Some (AskIgnore (pl_account me) (c_str (escape n)))))"

definition HandleAddIgnoreOpcodeCallBack ::
  "world \<Rightarrow> u32 option \<Rightarrow> u64 \<Rightarrow> social_mgr \<Rightarrow> social_result" where
  "HandleAddIgnoreOpcodeCallBack w result accountId mgr =
     (case session_player w accountId of
        None \<Rightarrow> (mgr, [], [])
      | Some me \<Rightarrow>
          (case result of
             None \<Rightarrow> (mgr, [], SendFriendStatus w mgr me FRIEND_IGNORE_NOT_FOUND 0 False)
           | Some rguid \<Rightarrow>
               let IgnoreGuid = MAKE_NEW_GUID rguid 0 HIGHGUID_PLAYER;
                   low = GUID_LOPART IgnoreGuid;
                   s = GetSocial mgr me
               in case (if IgnoreGuid = 0 then (FRIEND_IGNORE_NOT_FOUND, s, [])
                        else if IgnoreGuid = pl_guid me then (FRIEND_IGNORE_SELF, s, [])
                        else if HasIgnore low s then (FRIEND_IGNORE_ALREADY, s, [])
                        else case AddToSocialList low True s of
                               (ok, s', sql) \<Rightarrow> (if ok then FRIEND_IGNORE_ADDED else FRIEND_IGNORE_FULL, s', sql)) of
                    (res, s', sql) \<Rightarrow>
                      let mgr' = SetSocial me s' mgr
                      in (mgr', sql, SendFriendStatus w mgr' me res low False)))"

definition HandleDelIgnoreOpcode :: "world \<Rightarrow> player \<Rightarrow> social_mgr \<Rightarrow> byte_buffer \<Rightarrow> bb_error + social_result" where
  "HandleDelIgnoreOpcode w me mgr =
     rd (read_int False 8) (\<lambda>IgnoreGUID :: guid. \<lambda>b.
       Inr (case RemoveFromSocialList (GUID_LOPART IgnoreGUID) True (GetSocial mgr me) of
              (s, sql) \<Rightarrow>
                let mgr' = SetSocial me s mgr
                in (mgr', sql, SendFriendStatus w mgr' me FRIEND_IGNORE_REMOVED (GUID_LOPART IgnoreGUID) False)))"

definition HandleSetFriendNoteOpcode ::
  "(string \<Rightarrow> string) \<Rightarrow> (string \<Rightarrow> string) \<Rightarrow> player \<Rightarrow> social_mgr \<Rightarrow> byte_buffer \<Rightarrow> bb_error + social_result" where
  "HandleSetFriendNoteOpcode truncate48 escape me mgr =
     rd (read_int False 8) (\<lambda>g :: u64.
     rd read_string (\<lambda>note b.
       Inr (case SetFriendNote truncate48 escape (ucast g) note (GetSocial mgr me) of
              (s, sql) \<Rightarrow> (SetSocial me s mgr, sql, []))))"

section \<open>What the manager relies on: commands on one list\<close>

text \<open>Flags of the list and flags in the table; the notes may differ by their escaping.\<close>

definition flags_mirror :: "player_social \<Rightarrow> social_table \<Rightarrow> bool" where
  "flags_mirror s t \<longleftrightarrow>
     (\<forall>f. map_option fst (t (ps_guid s, f)) = map_option fi_Flags (sm_find f (ps_map s)))"

definition social_inv :: "social_mgr \<times> social_table \<Rightarrow> bool" where
  "social_inv st \<longleftrightarrow> sm_wf (fst st) \<and>
     (\<forall>g s. sm_find g (fst st) = Some s \<longrightarrow> ps_guid s = g \<and> ps_wf s \<and> flags_mirror s (snd st))"

locale list_command =
  fixes cmd :: "player_social \<Rightarrow> player_social \<times> social_sql list"
    and unescape :: "string \<Rightarrow> string"
  assumes keeps_guid: "ps_guid (fst (cmd s)) = ps_guid s"
    and keeps_wf: "ps_wf s \<Longrightarrow> ps_wf (fst (cmd s))"
    and keeps_mirror: "flags_mirror s t \<Longrightarrow>
      flags_mirror (fst (cmd s)) (fold (run_social_sql unescape) (snd (cmd s)) t)"
    and only_own: "g \<noteq> ps_guid s \<Longrightarrow> fold (run_social_sql unescape) (snd (cmd s)) t (g, f) = t (g, f)"
begin

lemma server_step:
  assumes inv: "social_inv (mgr, t)" and has: "sm_has (GUID_LOPART (pl_guid me)) mgr"
  shows "social_inv (SetSocial me (fst (cmd (GetSocial mgr me))) mgr,
    fold (run_social_sql unescape) (snd (cmd (GetSocial mgr me))) t)"
proof -
  define g where "g = GUID_LOPART (pl_guid me)"
  obtain s where s: "sm_find g mgr = Some s" using has by (auto simp: sm_has_def g_def)
  have get: "GetSocial mgr me = s" using s by (simp add: GetSocial_def sm_at_def g_def)
  have ok: "ps_guid s = g" "ps_wf s" "flags_mirror s t" using inv s by (auto simp: social_inv_def)
  have "flags_mirror s' (fold (run_social_sql unescape) (snd (cmd s)) t)"
    if "flags_mirror s' t" "ps_guid s' \<noteq> g" for s'
    using that only_own[of _ s] ok(1) by (simp add: flags_mirror_def)
  then show ?thesis
    using inv keeps_guid[of s] keeps_wf[OF ok(2)] keeps_mirror[OF ok(3)] ok(1)
    by (auto simp: social_inv_def SetSocial_def get g_def[symmetric] sm.find_put sm.wf_put)
qed

end

lemma flags_mirror_at:
  assumes "flags_mirror s t" "sm_find f (ps_map s) = Some i"
  shows "\<exists>n. t (ps_guid s, f) = Some (fi_Flags i, n)"
proof -
  have "map_option fst (t (ps_guid s, f)) = Some (fi_Flags i)" using assms by (simp add: flags_mirror_def)
  then show ?thesis by auto
qed

interpretation adding: list_command "\<lambda>s. snd (AddToSocialList f ignore s)" u for f ignore u
proof unfold_locales
  fix s t g h
  show "ps_guid (fst (snd (AddToSocialList f ignore s))) = ps_guid s"
    by (simp add: AddToSocialList_def Let_def split: option.split)
  show "ps_wf s \<Longrightarrow> ps_wf (fst (snd (AddToSocialList f ignore s)))"
    using flagged_AddToSocialList[of s f ignore] by (metis prod.collapse)
  show "g \<noteq> ps_guid s \<Longrightarrow> fold (run_social_sql u) (snd (snd (AddToSocialList f ignore s))) t (g, h) = t (g, h)"
    by (auto simp: AddToSocialList_def Let_def split: option.split)
  show "flags_mirror s t \<Longrightarrow> flags_mirror (fst (snd (AddToSocialList f ignore s)))
      (fold (run_social_sql u) (snd (snd (AddToSocialList f ignore s))) t)"
    using flags_mirror_at[of s t f]
    by (cases "sm_find f (ps_map s)")
      (auto simp: AddToSocialList_def Let_def flags_mirror_def sm.find_put FriendInfo_new_def set_flag_def)
qed

interpretation removing: list_command "RemoveFromSocialList f ignore" u for f ignore u
proof unfold_locales
  fix s t g h
  show "ps_guid (fst (RemoveFromSocialList f ignore s)) = ps_guid s"
    by (simp add: RemoveFromSocialList_def Let_def split: option.split)
  show "ps_wf s \<Longrightarrow> ps_wf (fst (RemoveFromSocialList f ignore s))"
    using flagged_Remove[of s f ignore] by (metis prod.collapse)
  show "g \<noteq> ps_guid s \<Longrightarrow> fold (run_social_sql u) (snd (RemoveFromSocialList f ignore s)) t (g, h) = t (g, h)"
    by (auto simp: RemoveFromSocialList_def Let_def split: option.split)
  show "flags_mirror s t \<Longrightarrow> flags_mirror (fst (RemoveFromSocialList f ignore s))
      (fold (run_social_sql u) (snd (RemoveFromSocialList f ignore s)) t)"
    using flags_mirror_at[of s t f]
    by (cases "sm_find f (ps_map s)")
      (auto simp: RemoveFromSocialList_def Let_def flags_mirror_def sm.find_put sm.find_del)
qed

lemma flagged_note:
  "sm_wf m \<Longrightarrow> sm_find f m = Some i \<Longrightarrow>
    length (filter (\<lambda>p. has_flag (fi_Flags (snd p)) x) (sm_set f (i\<lparr>fi_Note := n\<rparr>) m))
      = length (filter (\<lambda>p. has_flag (fi_Flags (snd p)) x) m)"
  using length_filter_sm_set[of m "\<lambda>p. has_flag (fi_Flags (snd p)) x" f "i\<lparr>fi_Note := n\<rparr>"] by simp

interpretation noting: list_command "SetFriendNote tr esc f n" u for tr esc f n u
proof unfold_locales
  fix s t g h
  show "ps_guid (fst (SetFriendNote tr esc f n s)) = ps_guid s"
    by (simp add: SetFriendNote_def Let_def split: option.split)
  show "ps_wf s \<Longrightarrow> ps_wf (fst (SetFriendNote tr esc f n s))"
    by (auto simp: SetFriendNote_def Let_def ps_wf_def flagged_def flagged_note sm.wf_put split: option.split)
  show "g \<noteq> ps_guid s \<Longrightarrow> fold (run_social_sql u) (snd (SetFriendNote tr esc f n s)) t (g, h) = t (g, h)"
    by (auto simp: SetFriendNote_def Let_def split: option.split)
  show "flags_mirror s t \<Longrightarrow> flags_mirror (fst (SetFriendNote tr esc f n s))
      (fold (run_social_sql u) (snd (SetFriendNote tr esc f n s)) t)"
    using flags_mirror_at[of s t f]
    by (cases "sm_find f (ps_map s)")
      (auto simp: SetFriendNote_def Let_def flags_mirror_def sm.find_put)
qed

interpretation nothing: list_command "\<lambda>s. (s, [])" u for u
  by unfold_locales simp_all

text \<open>Two commands in a row are one.\<close>

definition seq_cmd ::
  "(player_social \<Rightarrow> player_social \<times> social_sql list) \<Rightarrow> (player_social \<Rightarrow> player_social \<times> social_sql list)
     \<Rightarrow> player_social \<Rightarrow> player_social \<times> social_sql list" where
  "seq_cmd c d s = (fst (d (fst (c s))), snd (c s) @ snd (d (fst (c s))))"

lemma list_command_seq:
  assumes "list_command c u" "list_command d u"
  shows "list_command (seq_cmd c d) u"
proof -
  note c = assms(1)[unfolded list_command_def] and d = assms(2)[unfolded list_command_def]
  show ?thesis unfolding list_command_def seq_cmd_def using c d by simp
qed

lemma contact_loop_map:
  "fst (contact_loop w mgr plr ps data) = map (\<lambda>p. (fst p, GetFriendInfo w mgr plr (fst p) (snd p))) ps"
  by (induction ps arbitrary: data) (simp_all add: Let_def case_prod_unfold)

lemma GetFriendInfo_flags [simp]: "fi_Flags (GetFriendInfo w mgr plr f i) = fi_Flags i"
  by (simp add: GetFriendInfo_def Let_def split: option.split)

definition refresh :: "world \<Rightarrow> social_mgr \<Rightarrow> player \<Rightarrow> player_social \<Rightarrow> player_social" where
  "refresh w mgr plr s = s\<lparr>ps_map := map (\<lambda>p. (fst p, GetFriendInfo w mgr plr (fst p) (snd p))) (ps_map s)\<rparr>"

lemma find_map_values: "sm_find f (map (\<lambda>p. (fst p, h (fst p) (snd p))) m) = map_option (h f) (sm_find f m)"
  unfolding sm_find_def by (induction m) auto

interpretation refreshing: list_command "\<lambda>s. (refresh w mgr plr s, [])" u for w mgr plr u
proof unfold_locales
  fix s t g h
  show "ps_guid (fst (refresh w mgr plr s, [])) = ps_guid s" by (simp add: refresh_def)
  show "ps_wf s \<Longrightarrow> ps_wf (fst (refresh w mgr plr s, []))"
    by (simp add: refresh_def ps_wf_def sm_wf_def flagged_def filter_map comp_def)
  show "flags_mirror s t \<Longrightarrow> flags_mirror (fst (refresh w mgr plr s, [])) (fold (run_social_sql u) (snd (refresh w mgr plr s, [])) t)"
    by (auto simp: refresh_def flags_mirror_def find_map_values option.map_comp comp_def)
qed simp

text \<open>What arrives from the network or the database for a player whose list is loaded.\<close>

inductive social_step ::
  "(string \<Rightarrow> string) \<Rightarrow> (string \<Rightarrow> string) \<Rightarrow> (string \<Rightarrow> string) \<Rightarrow> social_mgr \<times> social_table
     \<Rightarrow> social_mgr \<times> social_table \<Rightarrow> bool" for tr esc u where
  contact_list:
    "HandleFriendListOpcode w me mgr b = Inr (mgr', sql, es) \<Longrightarrow> sm_has (GUID_LOPART (pl_guid me)) mgr \<Longrightarrow>
     social_step tr esc u (mgr, t) (mgr', fold (run_social_sql u) sql t)"
| friend_row:
    "session_player w acc = Some me \<Longrightarrow> sm_has (GUID_LOPART (pl_guid me)) mgr \<Longrightarrow>
     HandleAddFriendOpcodeCallBack tr esc accs races w row acc note mgr = (mgr', sql, es) \<Longrightarrow>
     social_step tr esc u (mgr, t) (mgr', fold (run_social_sql u) sql t)"
| del_friend:
    "HandleDelFriendOpcode w me mgr b = Inr (mgr', sql, es) \<Longrightarrow> sm_has (GUID_LOPART (pl_guid me)) mgr \<Longrightarrow>
     social_step tr esc u (mgr, t) (mgr', fold (run_social_sql u) sql t)"
| ignore_row:
    "session_player w acc = Some me \<Longrightarrow> sm_has (GUID_LOPART (pl_guid me)) mgr \<Longrightarrow>
     HandleAddIgnoreOpcodeCallBack w irow acc mgr = (mgr', sql, es) \<Longrightarrow>
     social_step tr esc u (mgr, t) (mgr', fold (run_social_sql u) sql t)"
| del_ignore:
    "HandleDelIgnoreOpcode w me mgr b = Inr (mgr', sql, es) \<Longrightarrow> sm_has (GUID_LOPART (pl_guid me)) mgr \<Longrightarrow>
     social_step tr esc u (mgr, t) (mgr', fold (run_social_sql u) sql t)"
| set_note:
    "HandleSetFriendNoteOpcode tr esc me mgr b = Inr (mgr', sql, es) \<Longrightarrow> sm_has (GUID_LOPART (pl_guid me)) mgr \<Longrightarrow>
     social_step tr esc u (mgr, t) (mgr', fold (run_social_sql u) sql t)"
| logout:
    "social_step tr esc u (mgr, t) (RemovePlayerSocial g mgr, t)"

inductive_cases social_stepE: "social_step tr esc u (mgr, t) s'"

lemma friend_row_cmd:
  assumes "session_player w acc = Some me"
    "HandleAddFriendOpcodeCallBack tr esc accs races w row acc note mgr = (mgr', sql, es)"
  shows "mgr' = mgr \<and> sql = [] \<or>
    (\<exists>c. list_command c u \<and> mgr' = SetSocial me (fst (c (GetSocial mgr me))) mgr \<and> sql = snd (c (GetSocial mgr me)))"
proof (cases row)
  case None
  then show ?thesis using assms by (auto simp: HandleAddFriendOpcodeCallBack_def)
next
  case (Some r)
  obtain rg rr ra where r: "r = (rg, rr, ra)" by (cases r) auto
  define low where "low = GUID_LOPART (MAKE_NEW_GUID rg 0 HIGHGUID_PLAYER)"
  let ?n = "SetFriendNote tr esc low note"
  have c1: "list_command (seq_cmd (\<lambda>s. (s, [])) ?n) u"
    by (rule list_command_seq[OF nothing.list_command_axioms noting.list_command_axioms])
  have c2: "list_command (seq_cmd (\<lambda>s. snd (AddToSocialList low False s)) ?n) u"
    by (rule list_command_seq[OF adding.list_command_axioms noting.list_command_axioms])
  have "mgr' = mgr \<and> sql = []
    \<or> (mgr' = SetSocial me (fst (seq_cmd (\<lambda>s. (s, [])) ?n (GetSocial mgr me))) mgr
        \<and> sql = snd (seq_cmd (\<lambda>s. (s, [])) ?n (GetSocial mgr me)))
    \<or> (mgr' = SetSocial me (fst (seq_cmd (\<lambda>s. snd (AddToSocialList low False s)) ?n (GetSocial mgr me))) mgr
        \<and> sql = snd (seq_cmd (\<lambda>s. snd (AddToSocialList low False s)) ?n (GetSocial mgr me)))"
    using assms Some r
    by (auto simp: HandleAddFriendOpcodeCallBack_def Let_def case_prod_unfold low_def[symmetric] seq_cmd_def
        split: if_splits)
  then show ?thesis using c1 c2 by metis
qed

lemma ignore_row_cmd:
  assumes "session_player w acc = Some me"
    "HandleAddIgnoreOpcodeCallBack w row acc mgr = (mgr', sql, es)"
  shows "mgr' = mgr \<and> sql = [] \<or>
    (\<exists>c. list_command c u \<and> mgr' = SetSocial me (fst (c (GetSocial mgr me))) mgr \<and> sql = snd (c (GetSocial mgr me)))"
proof (cases row)
  case None
  then show ?thesis using assms by (auto simp: HandleAddIgnoreOpcodeCallBack_def)
next
  case (Some rg)
  define low where "low = GUID_LOPART (MAKE_NEW_GUID rg 0 HIGHGUID_PLAYER)"
  have "(mgr' = SetSocial me (fst ((\<lambda>s. (s, [])) (GetSocial mgr me))) mgr
        \<and> sql = snd ((\<lambda>s. (s, [])) (GetSocial mgr me)))
    \<or> (mgr' = SetSocial me (fst ((\<lambda>s. snd (AddToSocialList low True s)) (GetSocial mgr me))) mgr
        \<and> sql = snd ((\<lambda>s. snd (AddToSocialList low True s)) (GetSocial mgr me)))"
    using assms Some
    by (auto simp: HandleAddIgnoreOpcodeCallBack_def Let_def case_prod_unfold low_def[symmetric] split: if_splits)
  then show ?thesis using nothing.list_command_axioms adding.list_command_axioms by metis
qed

lemma command_step:
  assumes "social_inv (mgr, t)" "sm_has (GUID_LOPART (pl_guid me)) mgr"
    and "mgr' = mgr \<and> sql = [] \<or>
      (\<exists>c. list_command c u \<and> mgr' = SetSocial me (fst (c (GetSocial mgr me))) mgr \<and> sql = snd (c (GetSocial mgr me)))"
  shows "social_inv (mgr', fold (run_social_sql u) sql t)"
  using assms(3)
proof
  assume "\<exists>c. list_command c u \<and> mgr' = SetSocial me (fst (c (GetSocial mgr me))) mgr \<and> sql = snd (c (GetSocial mgr me))"
  then show ?thesis using list_command.server_step[OF _ assms(1,2)] by blast
qed (use assms(1) in simp)

lemma contact_list_cmd:
  assumes "SendSocialList w (GUID_LOPART (pl_guid me)) mgr = (mgr', es)"
  shows "mgr' = mgr \<or> (\<exists>plr. mgr' = SetSocial me (refresh w mgr plr (GetSocial mgr me)) mgr)"
proof (cases "GetPlayer w (ucast (ps_guid (GetSocial mgr me)))")
  case None
  then show ?thesis using assms by (simp add: SendSocialList_def Let_def GetSocial_def)
next
  case (Some plr)
  then have "mgr' = SetSocial me (refresh w mgr plr (GetSocial mgr me)) mgr"
    using assms by (simp add: SendSocialList_def Let_def GetSocial_def SetSocial_def refresh_def case_prod_unfold
        contact_loop_map)
  then show ?thesis by blast
qed

lemma social_step_inv:
  assumes "social_step tr esc u (mgr, t) s'" "social_inv (mgr, t)"
  shows "social_inv s'"
  using assms(1)
proof (cases rule: social_stepE [consumes 1, case_names 1 2 3 4 5 6 7])
  case (1 w me b mgr' sql es)
  have m: "mgr' = fst (SendSocialList w (GUID_LOPART (pl_guid me)) mgr)" "sql = []"
    using 1 by (auto simp: HandleFriendListOpcode_def rd_Inr case_prod_unfold)
  have "SendSocialList w (GUID_LOPART (pl_guid me)) mgr = (mgr', snd (SendSocialList w (GUID_LOPART (pl_guid me)) mgr))"
    using m by simp
  from contact_list_cmd[OF this] have "mgr' = mgr \<and> sql = [] \<or>
    (\<exists>c. list_command c u \<and> mgr' = SetSocial me (fst (c (GetSocial mgr me))) mgr \<and> sql = snd (c (GetSocial mgr me)))"
    using refreshing.list_command_axioms[of w mgr] m(2) by (metis fst_conv snd_conv)
  then show ?thesis using command_step assms(2) 1 by blast
next
  case (2 w acc me accs races row n mgr' sql es)
  then show ?thesis using command_step[OF assms(2)] friend_row_cmd by metis
next
  case (3 w me b mgr' sql es)
  then have "\<exists>f. mgr' = SetSocial me (fst (RemoveFromSocialList f False (GetSocial mgr me))) mgr
      \<and> sql = snd (RemoveFromSocialList f False (GetSocial mgr me))"
    by (auto simp: HandleDelFriendOpcode_def rd_Inr case_prod_unfold Let_def)
  then show ?thesis using command_step[OF assms(2)] removing.list_command_axioms 3 by metis
next
  case (4 w acc me irow mgr' sql es)
  then show ?thesis using command_step[OF assms(2)] ignore_row_cmd by metis
next
  case (5 w me b mgr' sql es)
  then have "\<exists>f. mgr' = SetSocial me (fst (RemoveFromSocialList f True (GetSocial mgr me))) mgr
      \<and> sql = snd (RemoveFromSocialList f True (GetSocial mgr me))"
    by (auto simp: HandleDelIgnoreOpcode_def rd_Inr case_prod_unfold Let_def)
  then show ?thesis using command_step[OF assms(2)] removing.list_command_axioms 5 by metis
next
  case (6 me b mgr' sql es)
  then have "\<exists>f n. mgr' = SetSocial me (fst (SetFriendNote tr esc f n (GetSocial mgr me))) mgr
      \<and> sql = snd (SetFriendNote tr esc f n (GetSocial mgr me))"
    by (auto simp: HandleSetFriendNoteOpcode_def rd_Inr case_prod_unfold Let_def)
  then show ?thesis using command_step[OF assms(2)] noting.list_command_axioms 6 by metis
next
  case (7 g)
  then show ?thesis using assms(2)
    by (auto simp: social_inv_def RemovePlayerSocial_def sm.find_del sm.wf_del split: if_splits)
qed

section \<open>Properties\<close>

text \<open>C7: whatever friend and ignore packets arrive, in whatever order, from loaded players of changing
  worlds: every list of the manager stays under its owner's guid and within the client's limits, and
  its flags are exactly those of its owner's rows in the table.\<close>

theorem social_packets_keep_lists:
  assumes "rtranclp (social_step tr esc u) s s'" "social_inv s"
  shows "social_inv s'"
  using assms
proof (induction rule: rtranclp_induct)
  case (step s1 s2)
  then show ?case using social_step_inv by (metis prod.collapse)
qed

definition test_social :: social_mgr where
  "test_social = [(1, PlayerSocial_new\<lparr>ps_guid := 1\<rparr>)]"

theorem social_packets_keep_lists_witness:
  "case HandleAddIgnoreOpcodeCallBack test_world (Some 2) 1 test_social of
     (mgr', sql, es) \<Rightarrow> social_inv (mgr', fold (run_social_sql id) sql Map.empty)"
proof -
  obtain mgr' sql es where r: "HandleAddIgnoreOpcodeCallBack test_world (Some 2) 1 test_social = (mgr', sql, es)"
    by (metis prod_cases3)
  have me: "session_player test_world 1 = Some (test_player 1 ''Ann'')"
    by (simp add: session_player_def test_world_def test_player_def)
  have "social_step id id id (test_social, Map.empty) (mgr', fold (run_social_sql id) sql Map.empty)"
    by (rule social_step.ignore_row[OF me _ r])
      (simp add: test_social_def sm_has_iff test_player_def GUID_LOPART_def IsGuidHaveEnPart_def GUID_HIPART_def)
  then have "rtranclp (social_step id id id) (test_social, Map.empty) (mgr', fold (run_social_sql id) sql Map.empty)"
    by (rule r_into_rtranclp)
  moreover have "social_inv (test_social, Map.empty)"
    by (auto simp: social_inv_def test_social_def sm_wf_def sm_find_def ps_wf_def flagged_def PlayerSocial_new_def
        flags_mirror_def split: if_splits)
  ultimately show ?thesis using social_packets_keep_lists r by auto
qed

lemma player_guid_low: "MAKE_NEW_GUID l 0 HIGHGUID_PLAYER = ucast l"
  by (simp add: MAKE_NEW_GUID_def)

lemma lopart_low [simp]: "GUID_LOPART (ucast (l :: u32)) = l"
proof -
  have "\<not> IsGuidHaveEnPart (MAKE_NEW_GUID l 0 HIGHGUID_PLAYER)"
    by (simp add: IsGuidHaveEnPart_kind hipart_make kind_has_entry_def)
  then show ?thesis
    using lopart_make_32[of l HIGHGUID_PLAYER] by (simp add: GUID_LOPART_def player_guid_low)
qed

lemma online_status:
  assumes "FindPlayer w (ucast f) False = Some pf"
  shows "fi_Status (GetFriendInfo w mgr q f fi) \<noteq> FRIEND_STATUS_OFFLINE \<longleftrightarrow> status_visible w q pf"
proof -
  have keep: "has_flag (flag_if b x s) FRIEND_STATUS_ONLINE \<longleftrightarrow> has_flag s FRIEND_STATUS_ONLINE"
    if "x AND 1 = 0" for b x s
    using that by (auto simp: flag_if_def flag_laws)
  have "has_flag (flag_if a FRIEND_STATUS_RAF (flag_if b FRIEND_STATUS_DND (flag_if c FRIEND_STATUS_AFK
      (set_flag s FRIEND_STATUS_ONLINE)))) FRIEND_STATUS_ONLINE" for a b c s
    by (simp add: keep has_flag_set_same)
  then have "flag_if a FRIEND_STATUS_RAF (flag_if b FRIEND_STATUS_DND (flag_if c FRIEND_STATUS_AFK
      (set_flag s FRIEND_STATUS_ONLINE))) \<noteq> 0" for a b c s
    using has_flag_zero by metis
  then show ?thesis using assms by (auto simp: GetFriendInfo_def Let_def split: option.split)
qed

text \<open>The test of the broadcast, seen from the player who would be told.\<close>

definition broadcast_visible :: "world \<Rightarrow> player \<Rightarrow> player \<Rightarrow> bool" where
  "broadcast_visible w player pFriend \<longleftrightarrow>
     pl_security pFriend > SEC_PLAYER
     \<or> (pl_team pFriend = pl_team player \<or> CONFIG_ALLOW_TWO_SIDE_WHO_LIST (w_config w))
       \<and> (pl_security player = SEC_PLAYER
          \<or> CONFIG_GM_IN_WHO_LIST (w_config w) \<and> IsVisibleGloballyFor player pFriend)"

lemma broadcast_visible_status: "broadcast_visible w p q \<longleftrightarrow> status_visible w q p"
  by (auto simp: broadcast_visible_def status_visible_def Let_def)

definition told :: "world \<Rightarrow> player \<Rightarrow> u32 \<times> player_social \<Rightarrow> player option" where
  "told w p q = (if HasFriend (GUID_LOPART (pl_guid p)) (snd q)
     then case FindPlayer w (ucast (fst q)) False of
            None \<Rightarrow> None | Some r \<Rightarrow> if broadcast_visible w p r then Some r else None
     else None)"

lemma told_guid: "told w p q = Some r \<Longrightarrow> pl_guid r = ucast (fst q)"
  by (auto simp: told_def GetPlayer_guid split: if_splits option.splits)

lemma broadcast_loop_told:
  "broadcast_loop w p pkt qs = concat (map (\<lambda>q. case told w p q of None \<Rightarrow> [] | Some r \<Rightarrow> [Send (pl_guid r) pkt]) qs)"
  by (induction qs)
    (auto simp: told_def HasFriend_def broadcast_visible_def player_guid_low dest: GetPlayer_in_world
      split: option.splits)

lemma told_set:
  "Send g pkt \<in> set (concat (map (\<lambda>q. case told w p q of None \<Rightarrow> [] | Some r \<Rightarrow> [Send (pl_guid r) pkt]) qs))
    \<longleftrightarrow> (\<exists>l s r. (l, s) \<in> set qs \<and> told w p (l, s) = Some r \<and> pl_guid r = g)"
proof -
  have one: "Send g pkt \<in> set (case told w p q of None \<Rightarrow> [] | Some r \<Rightarrow> [Send (pl_guid r) pkt])
      \<longleftrightarrow> (\<exists>r. told w p q = Some r \<and> pl_guid r = g)" for q
    by (cases "told w p q") auto
  have "Send g pkt \<in> set (concat (map (\<lambda>q. case told w p q of None \<Rightarrow> [] | Some r \<Rightarrow> [Send (pl_guid r) pkt]) qs))
      \<longleftrightarrow> (\<exists>q\<in>set qs. \<exists>r. told w p q = Some r \<and> pl_guid r = g)"
    unfolding set_concat set_map image_image UN_iff one ..
  then show ?thesis by (simp only: Bex_def split_paired_Ex ex_simps)
qed

lemma told_distinct:
  "distinct (map fst qs) \<Longrightarrow>
   distinct (concat (map (\<lambda>q. case told w p q of None \<Rightarrow> [] | Some r \<Rightarrow> [Send (pl_guid r) pkt]) qs))"
proof (induction qs)
  case (Cons q qs)
  have "Send (ucast (fst q)) pkt \<notin> set (concat (map (\<lambda>q. case told w p q of None \<Rightarrow> [] | Some r \<Rightarrow> [Send (pl_guid r) pkt]) qs))"
    using Cons.prems told_guid[of w p] by (auto split: option.splits) (metis fst_conv image_eqI lopart_low)
  then show ?case using Cons told_guid[of w p q] by (auto split: option.splits)
qed simp

text \<open>C31: the news of a player's status goes, once each, to exactly those players in the world who have
  him on their friends list and whose contact list would show him online: the visibility test of
  \<open>BroadcastToFriendListers\<close> and that of \<open>GetFriendInfo\<close> agree.\<close>

theorem broadcast_agrees_with_list:
  assumes "sm_wf mgr" "FindPlayer w (pl_guid p) False = Some p" "pl_guid p = ucast (GUID_LOPART (pl_guid p))"
  shows "distinct (BroadcastToFriendListers w mgr p pkt) \<and>
    (Send g pkt \<in> set (BroadcastToFriendListers w mgr p pkt) \<longleftrightarrow>
      (\<exists>q. FindPlayer w g False = Some q \<and> g = ucast (GUID_LOPART g)
         \<and> HasFriend (GUID_LOPART (pl_guid p)) (GetSocial mgr q)
         \<and> fi_Status (GetFriendInfo w mgr q (GUID_LOPART (pl_guid p)) fi) \<noteq> FRIEND_STATUS_OFFLINE))"
proof -
  have seen: "fi_Status (GetFriendInfo w mgr q (GUID_LOPART (pl_guid p)) fi) \<noteq> FRIEND_STATUS_OFFLINE
      \<longleftrightarrow> broadcast_visible w p q" for q
    using online_status[where f = "GUID_LOPART (pl_guid p)" and pf = p] assms(2,3)
    by (simp add: broadcast_visible_status)
  have "Send g pkt \<in> set (BroadcastToFriendListers w mgr p pkt) \<longleftrightarrow>
      (\<exists>l s r. (l, s) \<in> set mgr \<and> told w p (l, s) = Some r \<and> pl_guid r = g)"
    by (simp only: BroadcastToFriendListers_def broadcast_loop_told told_set)
  also have "\<dots> \<longleftrightarrow> (\<exists>q. FindPlayer w g False = Some q \<and> g = ucast (GUID_LOPART g)
      \<and> HasFriend (GUID_LOPART (pl_guid p)) (GetSocial mgr q) \<and> broadcast_visible w p q)"
  proof
    assume "\<exists>l s r. (l, s) \<in> set mgr \<and> told w p (l, s) = Some r \<and> pl_guid r = g"
    then obtain l s r where r: "(l, s) \<in> set mgr" "told w p (l, s) = Some r" "pl_guid r = g" by blast
    have g: "g = ucast l" using told_guid[OF r(2)] r(3) by simp
    have "GetSocial mgr r = s"
      using sm_find_in_set[OF assms(1), of l s] r(1,3) g by (simp add: GetSocial_def sm_at_def)
    then show "\<exists>q. FindPlayer w g False = Some q \<and> g = ucast (GUID_LOPART g)
        \<and> HasFriend (GUID_LOPART (pl_guid p)) (GetSocial mgr q) \<and> broadcast_visible w p q"
      using r(2) g by (auto simp: told_def split: if_splits option.splits)
  next
    assume "\<exists>q. FindPlayer w g False = Some q \<and> g = ucast (GUID_LOPART g)
        \<and> HasFriend (GUID_LOPART (pl_guid p)) (GetSocial mgr q) \<and> broadcast_visible w p q"
    then obtain q where q: "FindPlayer w g False = Some q" "g = ucast (GUID_LOPART g)"
        "HasFriend (GUID_LOPART (pl_guid p)) (GetSocial mgr q)" "broadcast_visible w p q" by blast
    have gq: "pl_guid q = g" by (rule GetPlayer_guid[OF q(1)])
    obtain s where s: "sm_find (GUID_LOPART g) mgr = Some s"
      using q(3) gq by (cases "sm_find (GUID_LOPART g) mgr")
        (auto simp: GetSocial_def sm_at_def HasFriend_def PlayerSocial_new_def)
    then have "told w p (GUID_LOPART g, s) = Some q"
      using q gq by (simp add: told_def GetSocial_def sm_at_def)
    then show "\<exists>l s r. (l, s) \<in> set mgr \<and> told w p (l, s) = Some r \<and> pl_guid r = g"
      using sm_find_someD[OF s] gq by blast
  qed
  finally show ?thesis
    using told_distinct[where qs = mgr and w = w and p = p and pkt = pkt] assms(1)
    by (simp add: seen BroadcastToFriendListers_def broadcast_loop_told sm_wf_def sorted_wrt_less_distinct)
qed

theorem broadcast_agrees_with_list_witness:
  "distinct (BroadcastToFriendListers test_world test_social (test_player 1 ''Ann'') (WorldPacket_new 0))"
proof -
  have "sm_wf test_social" by (simp add: test_social_def sm_wf_def)
  moreover have "FindPlayer test_world (pl_guid (test_player 1 ''Ann'')) False = Some (test_player 1 ''Ann'')"
    by (simp add: FindPlayer_def GetObjectInWorld_def test_world_def test_player_def)
  moreover have "pl_guid (test_player 1 ''Ann'') = ucast (GUID_LOPART (pl_guid (test_player 1 ''Ann'')))"
    using lopart_low[of 1] by (simp add: test_player_def)
  ultimately show ?thesis using broadcast_agrees_with_list by blast
qed

text \<open>when a friend who is not in the world is added, the note in the answer is empty whatever the
  list holds: \<open>GetFriendInfo\<close> returns before it copies the note.\<close>

theorem added_offline_note_empty:
  assumes "FindPlayer w (ucast f) False = None"
  shows "SendFriendStatus w mgr p FRIEND_ADDED_OFFLINE f False =
    [Send (pl_guid p) (put (WorldPacket_new SMSG_FRIEND_STATUS)
       (enc_u8 7 @ enc_u64 (ucast f) @ enc_string ''''))]"
  using assms
  by (simp add: SendFriendStatus_def MakeFriendStatusPacket_def GetFriendInfo_def FriendInfo_new_def Let_def)

theorem added_offline_note_empty_witness:
  "SendFriendStatus test_world [(1, \<lparr>ps_map = [(9, FriendInfo_of 1 ''pal'')], ps_guid = 1\<rparr>)] (test_player 1 ''Ann'')
     FRIEND_ADDED_OFFLINE 9 False
   = [Send 1 (put (WorldPacket_new SMSG_FRIEND_STATUS) (enc_u8 7 @ enc_u64 9 @ enc_string ''''))]"
proof -
  have "FindPlayer test_world (ucast (9 :: u32)) False = None"
    by (simp add: FindPlayer_def GetObjectInWorld_def test_world_def test_player_def)
  from added_offline_note_empty[OF this] show ?thesis by (simp add: test_player_def)
qed

end
