(* ===== verification/ReferAFriend.thy ===== *)
theory ReferAFriend
  imports World
begin

text \<open>
  The refer-a-friend links between accounts: the two maps of \<open>ObjectMgr\<close> and their operations
  (src/src/server/game/Globals/ObjectMgr.cpp, \<open>LoadReferredFriends\<close> to \<open>GetRAFLinkedBuddyForPlayer\<close>)
  and the console commands that change them (src/src/server/scripts/Commands/cs_misc.cpp). Every link is
  stored twice, from the referrer to the referred account and back; \<open>UnlinkFromRAF\<close> erases both
  through \<open>erase(find(k))\<close>, which is undefined for a missing key (\<open>Inl EraseEnd\<close>).
\<close>

section \<open>The maps\<close>

datatype raf_status = RAF_LINK_NONE | RAF_LINK_REFERRER | RAF_LINK_REFERRED

record raf =
  m_referrerFriends :: "(u64 \<times> u64) list"
  m_referredFriends :: "(u64 \<times> u64) list"

definition raf_empty :: raf where
  "raf_empty = \<lparr>m_referrerFriends = [], m_referredFriends = []\<rparr>"

datatype raf_error = EraseEnd

datatype raf_effect =
    SetRAFStatus guid raf_status     \<comment> \<open>on the player object\<close>
  | RefreshRestBonus guid            \<comment> \<open>\<open>SetRestBonus(GetRestBonus())\<close>\<close>
  | ReplaceReferred u64 u64          \<comment> \<open>\<open>REPLACE INTO account_referred\<close>\<close>
  | DeleteReferred u64 u64           \<comment> \<open>\<open>DELETE FROM account_referred WHERE id1, id2\<close>\<close>

fun load_links :: "(u64 \<times> u64) list \<Rightarrow> raf \<Rightarrow> raf" where
  "load_links [] r = r"
| "load_links ((Id1, Id2) # rows) r =
     (if sm_has Id2 (m_referredFriends r) then load_links rows r
      else load_links rows
        (r\<lparr>m_referrerFriends := sm_set Id1 Id2 (m_referrerFriends r),
           m_referredFriends := sm_set Id2 Id1 (m_referredFriends r)\<rparr>))"

definition LoadReferredFriends :: "(u64 \<times> u64) list option \<Rightarrow> raf \<Rightarrow> raf" where
  "LoadReferredFriends result r =
     (case result of
        None \<Rightarrow> r
      | Some rows \<Rightarrow> load_links rows (r\<lparr>m_referrerFriends := [], m_referredFriends := []\<rparr>))"

text \<open>The status of one account with the other account of the link (0 when there is none).\<close>

definition GetRAFLinkStatus :: "u64 \<Rightarrow> raf \<Rightarrow> raf_status \<times> u64" where
  "GetRAFLinkStatus account r =
     (case sm_find account (m_referrerFriends r) of
        Some b \<Rightarrow> (RAF_LINK_REFERRER, b)
      | None \<Rightarrow> (case sm_find account (m_referredFriends r) of
                  Some b \<Rightarrow> (RAF_LINK_REFERRED, b)
                | None \<Rightarrow> (RAF_LINK_NONE, 0)))"

definition GetRAFLinkStatus2 :: "u64 \<Rightarrow> u64 \<Rightarrow> raf \<Rightarrow> raf_status" where
  "GetRAFLinkStatus2 AccOne AccTwo r =
     (case sm_find AccOne (m_referrerFriends r) of
        Some i \<Rightarrow>
          (case sm_find AccTwo (m_referredFriends r) of
             None \<Rightarrow> RAF_LINK_NONE
           | Some j \<Rightarrow> if AccOne = j \<and> i = AccTwo then RAF_LINK_REFERRER else RAF_LINK_NONE)
      | None \<Rightarrow>
          (case sm_find AccOne (m_referredFriends r) of
             None \<Rightarrow> RAF_LINK_NONE
           | Some i \<Rightarrow>
               (case sm_find AccTwo (m_referrerFriends r) of
                  None \<Rightarrow> RAF_LINK_NONE
                | Some j \<Rightarrow> if AccOne = j \<and> i = AccTwo then RAF_LINK_REFERRED else RAF_LINK_NONE)))"

definition GetRAFLinkStatus_players :: "player \<Rightarrow> player \<Rightarrow> raf \<Rightarrow> raf_status" where
  "GetRAFLinkStatus_players p q r = GetRAFLinkStatus2 (pl_account p) (pl_account q) r"

definition UPDATE_PLAYER :: "player option \<Rightarrow> raf_effect list" where
  "UPDATE_PLAYER plr =
     (case plr of
        None \<Rightarrow> []
      | Some p \<Rightarrow> [SetRAFStatus (pl_guid p) RAF_LINK_NONE, RefreshRestBonus (pl_guid p)])"

definition LinkIntoRAF :: "world \<Rightarrow> u64 \<Rightarrow> u64 \<Rightarrow> raf \<Rightarrow> raf \<times> raf_effect list" where
  "LinkIntoRAF w AccOne AccTwo r =
     (r\<lparr>m_referrerFriends := sm_set AccOne AccTwo (m_referrerFriends r),
        m_referredFriends := sm_set AccTwo AccOne (m_referredFriends r)\<rparr>,
      ReplaceReferred AccOne AccTwo # UPDATE_PLAYER (FindPlayerByAccountId w AccOne False)
        @ UPDATE_PLAYER (FindPlayerByAccountId w AccTwo False))"

text \<open>\<open>m.erase(m.find(k))\<close>\<close>

definition erase_found :: "u64 \<Rightarrow> (u64 \<times> u64) list \<Rightarrow> raf_error + (u64 \<times> u64) list" where
  "erase_found k m = (if sm_has k m then Inr (sm_erase k m) else Inl EraseEnd)"

definition erase_link :: "world \<Rightarrow> u64 \<Rightarrow> u64 \<Rightarrow> u64 \<Rightarrow> u64 \<Rightarrow> raf \<Rightarrow> raf_error + (raf \<times> raf_effect list)" where
  "erase_link w referrer referred AccOne AccTwo r =
     (case erase_found referrer (m_referrerFriends r) of
        Inl e \<Rightarrow> Inl e
      | Inr m1 \<Rightarrow>
          (case erase_found referred (m_referredFriends r) of
             Inl e \<Rightarrow> Inl e
           | Inr m2 \<Rightarrow>
               Inr (r\<lparr>m_referrerFriends := m1, m_referredFriends := m2\<rparr>,
                    DeleteReferred referrer referred # UPDATE_PLAYER (FindPlayerByAccountId w AccOne False)
                      @ UPDATE_PLAYER (FindPlayerByAccountId w AccTwo False))))"

definition UnlinkFromRAF :: "world \<Rightarrow> u64 \<Rightarrow> raf \<Rightarrow> raf_error + (raf \<times> raf_effect list)" where
  "UnlinkFromRAF w AccOne r =
     (case GetRAFLinkStatus AccOne r of
        (RAF_LINK_NONE, AccTwo) \<Rightarrow> Inr (r, [])
      | (RAF_LINK_REFERRER, AccTwo) \<Rightarrow> erase_link w AccOne AccTwo AccOne AccTwo r
      | (RAF_LINK_REFERRED, AccTwo) \<Rightarrow> erase_link w AccTwo AccOne AccOne AccTwo r)"

definition GetRAFLinkedBuddyForPlayer :: "world \<Rightarrow> player \<Rightarrow> raf \<Rightarrow> player option" where
  "GetRAFLinkedBuddyForPlayer w plr1 r =
     (case sm_find (pl_account plr1) (m_referrerFriends r) of
        Some b \<Rightarrow> FindPlayerByAccountId w b False
      | None \<Rightarrow> (case sm_find (pl_account plr1) (m_referredFriends r) of
                  Some b \<Rightarrow> FindPlayerByAccountId w b False
                | None \<Rightarrow> None))"

section \<open>The commands\<close>

definition is_space :: "char \<Rightarrow> bool" where
  "is_space c \<longleftrightarrow> c \<in> {CHR '' '', CHR 0x09, CHR 0x0A, CHR 0x0B, CHR 0x0C, CHR 0x0D}"

text \<open>\<open>strtoull(s, NULL, 10)\<close>: blanks, a sign, digits; too large a number gives \<open>ULLONG_MAX\<close>, and a
  minus sign negates within 64 bits.\<close>

definition strtoull :: "string \<Rightarrow> u64" where
  "strtoull s =
     (let s = dropWhile is_space (c_str s);
          neg = (s \<noteq> [] \<and> hd s = CHR ''-'');
          s = (if s \<noteq> [] \<and> (hd s = CHR ''-'' \<or> hd s = CHR ''+'') then tl s else s);
          n = foldl (\<lambda>n c. 10 * n + (of_char c - 48)) (0::nat) (takeWhile is_digit s)
      in if n \<ge> 2 ^ 64 then - 1 else if neg then - of_nat n else of_nat n)"

definition HandleRAFLinkCommand ::
  "world \<Rightarrow> string \<Rightarrow> raf \<Rightarrow> bool \<times> raf \<times> raf_effect list \<times> string list" where
  "HandleRAFLinkCommand w args r =
     (let referrer = strtoull args
      in if referrer = 0 then (False, r, [], [])
         else let rest = dropWhile (\<lambda>c. c \<noteq> CHR '' '') (c_str args)
         in if rest = [] then (False, r, [], [])
            else let referred = strtoull rest
            in if referred = 0 then (False, r, [], [])
               else if fst (GetRAFLinkStatus referrer r) \<noteq> RAF_LINK_NONE
                    \<or> fst (GetRAFLinkStatus referred r) \<noteq> RAF_LINK_NONE
               then (True, r, [], [''First or second account is already linked with an account.''])
               else case LinkIntoRAF w referrer referred r of
                      (r', out) \<Rightarrow> (True, r', out, [''Accounts successfully linked.'']))"

definition HandleRAFUnlinkCommand ::
  "world \<Rightarrow> string \<Rightarrow> raf \<Rightarrow> raf_error + (bool \<times> raf \<times> raf_effect list \<times> string list)" where
  "HandleRAFUnlinkCommand w args r =
     (let acc = strtoull args
      in if acc = 0 then Inr (False, r, [], [])
         else case UnlinkFromRAF w acc r of
                Inl e \<Rightarrow> Inl e
              | Inr (r', out) \<Rightarrow> Inr (True, r', out, [''Account was sucessfully unlinked'']))"

section \<open>Both maps hold the same links\<close>

definition raf_inv :: "raf \<Rightarrow> bool" where
  "raf_inv r \<longleftrightarrow> (\<forall>a b. sm_find a (m_referrerFriends r) = Some b \<longleftrightarrow> sm_find b (m_referredFriends r) = Some a)"

lemma raf_invD: "raf_inv r \<Longrightarrow> sm_find b (m_referredFriends r) = Some a \<longleftrightarrow> sm_find a (m_referrerFriends r) = Some b"
  by (simp add: raf_inv_def)

lemma status_none:
  "fst (GetRAFLinkStatus a r) = RAF_LINK_NONE \<longleftrightarrow>
     sm_find a (m_referrerFriends r) = None \<and> sm_find a (m_referredFriends r) = None"
  by (simp add: GetRAFLinkStatus_def split: option.split)

lemma raf_inv_link:
  assumes "raf_inv r" "sm_find a (m_referrerFriends r) = None" "sm_find b (m_referredFriends r) = None"
  shows "raf_inv (fst (LinkIntoRAF w a b r))"
  using assms unfolding raf_inv_def LinkIntoRAF_def
  by (simp add: sm.find_put) (metis option.distinct(1) option.inject)

text \<open>The table \<open>account_referred\<close>: \<open>id1\<close> is its primary key.\<close>

type_synonym raf_table = "u64 \<Rightarrow> u64 option"

fun raf_execute :: "raf_effect list \<Rightarrow> raf_table \<Rightarrow> raf_table" where
  "raf_execute [] t = t"
| "raf_execute (ReplaceReferred a b # es) t = raf_execute es (t(a \<mapsto> b))"
| "raf_execute (DeleteReferred a b # es) t = raf_execute es (if t a = Some b then t(a := None) else t)"
| "raf_execute (SetRAFStatus g s # es) t = raf_execute es t"
| "raf_execute (RefreshRestBonus g # es) t = raf_execute es t"

lemma raf_execute_update [simp]:
  "raf_execute (UPDATE_PLAYER p @ es) t = raf_execute es t" "raf_execute (UPDATE_PLAYER p) t = t"
  by (cases p; simp add: UPDATE_PLAYER_def)+

definition raf_good :: "raf \<times> raf_table \<Rightarrow> bool" where
  "raf_good s \<longleftrightarrow> raf_inv (fst s) \<and> (\<forall>a. snd s a = sm_find a (m_referrerFriends (fst s)))"

lemma erase_link_good:
  assumes "raf_good (r, t)" "sm_find a (m_referrerFriends r) = Some b"
  shows "\<exists>r' out. erase_link w a b x y r = Inr (r', out) \<and> raf_good (r', raf_execute out t)
    \<and> (\<forall>c. sm_find c (m_referrerFriends r') = (if c = a then None else sm_find c (m_referrerFriends r)))"
proof -
  have "sm_find b (m_referredFriends r) = Some a" using assms by (simp add: raf_good_def raf_invD)
  then show ?thesis
    using assms unfolding raf_good_def raf_inv_def
    by (simp add: erase_link_def erase_found_def sm_has_def sm.find_del) (metis option.inject)
qed

text \<open>The commands of a console session.\<close>

datatype raf_command = RAFLink string | RAFUnlink string

definition raf_step :: "world \<Rightarrow> raf_command \<Rightarrow> raf \<times> raf_table \<Rightarrow> raf_error + (raf \<times> raf_table)" where
  "raf_step w c s =
     (case c of
        RAFLink args \<Rightarrow>
          (case HandleRAFLinkCommand w args (fst s) of (ok, r, out, msg) \<Rightarrow> Inr (r, raf_execute out (snd s)))
      | RAFUnlink args \<Rightarrow>
          (case HandleRAFUnlinkCommand w args (fst s) of
             Inl e \<Rightarrow> Inl e | Inr (ok, r, out, msg) \<Rightarrow> Inr (r, raf_execute out (snd s))))"

fun raf_run :: "world \<Rightarrow> raf_command list \<Rightarrow> raf \<times> raf_table \<Rightarrow> raf_error + (raf \<times> raf_table)" where
  "raf_run w [] s = Inr s"
| "raf_run w (c # cs) s = (case raf_step w c s of Inl e \<Rightarrow> Inl e | Inr s' \<Rightarrow> raf_run w cs s')"

lemma unlink_good:
  assumes "raf_good (r, t)"
  shows "\<exists>r' out. UnlinkFromRAF w a r = Inr (r', out) \<and> raf_good (r', raf_execute out t)"
proof (cases "sm_find a (m_referrerFriends r)")
  case (Some b)
  then show ?thesis
    using erase_link_good[OF assms Some, of w a b] by (auto simp: UnlinkFromRAF_def GetRAFLinkStatus_def)
next
  case None
  show ?thesis
  proof (cases "sm_find a (m_referredFriends r)")
    case None': None
    with None assms show ?thesis by (simp add: UnlinkFromRAF_def GetRAFLinkStatus_def)
  next
    case (Some b)
    then have "sm_find b (m_referrerFriends r) = Some a" using assms by (simp add: raf_good_def raf_invD)
    from erase_link_good[OF assms this, of w a b] None Some show ?thesis
      by (auto simp: UnlinkFromRAF_def GetRAFLinkStatus_def)
  qed
qed

lemma link_good:
  assumes "raf_good (r, t)"
  shows "case HandleRAFLinkCommand w args r of (ok, r', out, msg) \<Rightarrow> raf_good (r', raf_execute out t)"
proof -
  have "raf_good (fst (LinkIntoRAF w a b r), raf_execute (snd (LinkIntoRAF w a b r)) t)"
    if "fst (GetRAFLinkStatus a r) = RAF_LINK_NONE" "fst (GetRAFLinkStatus b r) = RAF_LINK_NONE" for a b
    using assms that raf_inv_link[of r a b w] unfolding status_none
    by (auto simp: raf_good_def LinkIntoRAF_def sm.find_put)
  then show ?thesis using assms by (simp add: HandleRAFLinkCommand_def Let_def case_prod_unfold)
qed

lemma raf_run_good:
  assumes "raf_good s"
  shows "\<exists>s'. raf_run w cs s = Inr s' \<and> raf_good s'"
  using assms
proof (induction cs arbitrary: s)
  case (Cons c cs)
  obtain r t where s: "s = (r, t)" by fastforce
  have "\<exists>s'. raf_step w c s = Inr s' \<and> raf_good s'"
  proof (cases c)
    case (RAFLink args)
    then show ?thesis
      using link_good[of r t w args] Cons.prems s by (auto simp: raf_step_def split: prod.splits)
  next
    case (RAFUnlink args)
    then show ?thesis
      using unlink_good[of r t w "strtoull args"] Cons.prems s
      by (auto simp: raf_step_def HandleRAFUnlinkCommand_def Let_def)
  qed
  then obtain s' where "raf_step w c s = Inr s'" "raf_good s'" by blast
  then show ?case using Cons.IH by simp
qed simp

lemma load_links_good:
  assumes "raf_good (r, t)" "distinct (map fst rows)" "distinct (map snd rows)"
    "\<forall>(a, b)\<in>set rows. t a = None \<and> sm_find b (m_referredFriends r) = None"
  shows "raf_good (load_links rows r, t ++ map_of rows)"
  using assms
proof (induction rows r arbitrary: t rule: load_links.induct)
  case (2 a b rows r)
  let ?r = "r\<lparr>m_referrerFriends := sm_set a b (m_referrerFriends r),
      m_referredFriends := sm_set b a (m_referredFriends r)\<rparr>"
  have new: "t a = None" "\<not> sm_has b (m_referredFriends r)" using "2.prems" by (auto simp: sm_has_def)
  have "raf_inv ?r"
    using raf_inv_link[of r a b undefined] "2.prems"(1) new by (simp add: raf_good_def sm_has_def LinkIntoRAF_def)
  then have good: "raf_good (?r, t(a \<mapsto> b))" using "2.prems"(1) by (auto simp: raf_good_def sm.find_put)
  have fresh: "\<forall>(c, d)\<in>set rows. (t(a \<mapsto> b)) c = None \<and> sm_find d (m_referredFriends ?r) = None"
  proof (rule ballI)
    fix q assume "q \<in> set rows"
    then have "fst q \<noteq> a" "snd q \<noteq> b" "t (fst q) = None" "sm_find (snd q) (m_referredFriends r) = None"
      using "2.prems"(2-4) by auto
    then show "case q of (c, d) \<Rightarrow> (t(a \<mapsto> b)) c = None \<and> sm_find d (m_referredFriends ?r) = None"
      by (simp add: case_prod_unfold sm.find_put)
  qed
  have "distinct (map fst rows)" "distinct (map snd rows)" using "2.prems"(2,3) by simp_all
  then have "raf_good (load_links rows ?r, t(a \<mapsto> b) ++ map_of rows)"
    by (rule "2.IH"(2)[OF new(2) good _ _ fresh])
  moreover have "map_of rows a = None" using "2.prems"(2) by (simp add: map_of_eq_None_iff)
  then have "t(a \<mapsto> b) ++ map_of rows = t ++ map_of ((a, b) # rows)"
    by (auto simp: map_add_def fun_eq_iff split: option.split)
  ultimately show ?case using new(2) by (simp only: load_links.simps if_False)
qed simp

section \<open>Properties\<close>

text \<open>C9: when the table has no two links of the same account, the console commands keep memory and
  table in step: no command erases a missing link, the table holds exactly the links of the maps, a
  status of \<open>RAF_LINK_REFERRER\<close> between two accounts means exactly that the table links them, and
  \<open>RAF_LINK_REFERRED\<close> that it links them the other way and the first refers nobody.\<close>

theorem raf_links_mirrored:
  assumes "distinct (map fst rows)" "distinct (map snd rows)"
  shows "\<exists>r tbl. raf_run w cmds (LoadReferredFriends (Some rows) r0, map_of rows) = Inr (r, tbl)
    \<and> (\<forall>a. sm_find a (m_referrerFriends r) = tbl a)
    \<and> (\<forall>a b. sm_find b (m_referredFriends r) = Some a \<longleftrightarrow> tbl a = Some b)
    \<and> (\<forall>a b. GetRAFLinkStatus2 a b r = RAF_LINK_REFERRER \<longleftrightarrow> tbl a = Some b)
    \<and> (\<forall>a b. GetRAFLinkStatus2 a b r = RAF_LINK_REFERRED \<longleftrightarrow> tbl b = Some a \<and> tbl a = None)"
proof -
  have "raf_good (load_links rows (r0\<lparr>m_referrerFriends := [], m_referredFriends := []\<rparr>), Map.empty ++ map_of rows)"
    by (rule load_links_good) (use assms in \<open>auto simp: raf_good_def raf_inv_def\<close>)
  then have "raf_good (LoadReferredFriends (Some rows) r0, map_of rows)"
    by (simp add: LoadReferredFriends_def)
  from raf_run_good[OF this, of w cmds] obtain r tbl where
    run: "raf_run w cmds (LoadReferredFriends (Some rows) r0, map_of rows) = Inr (r, tbl)" "raf_good (r, tbl)"
    by auto
  then have t: "\<forall>a. sm_find a (m_referrerFriends r) = tbl a"
    and bwd: "\<forall>a b. sm_find b (m_referredFriends r) = Some a \<longleftrightarrow> tbl a = Some b"
    by (auto simp: raf_good_def raf_inv_def)
  have none: "sm_find b (m_referredFriends r) = None \<longleftrightarrow> (\<forall>a. tbl a \<noteq> Some b)" for b
    using bwd by (metis not_None_eq)
  have inj: "tbl x = Some b \<Longrightarrow> tbl y = Some b \<Longrightarrow> x = y" for x y b
    using bwd by (metis option.inject)
  have "GetRAFLinkStatus2 a b r = RAF_LINK_REFERRER \<longleftrightarrow> tbl a = Some b" for a b
    using bwd by (auto simp: GetRAFLinkStatus2_def t none split: option.split dest: inj)
  moreover have "GetRAFLinkStatus2 a b r = RAF_LINK_REFERRED \<longleftrightarrow> tbl b = Some a \<and> tbl a = None" for a b
    using bwd by (auto simp: GetRAFLinkStatus2_def t none split: option.split dest: inj)
  ultimately show ?thesis using run(1) t bwd by blast
qed

theorem raf_links_mirrored_witness:
  "\<exists>r tbl. raf_run test_world [RAFLink ''7 8'', RAFUnlink ''2''] (LoadReferredFriends (Some [(1, 2)]) raf_empty, map_of [(1, 2)]) = Inr (r, tbl)
    \<and> (\<forall>a. sm_find a (m_referrerFriends r) = tbl a)"
proof -
  have "distinct (map fst [(1 :: u64, 2 :: u64)])" "distinct (map snd [(1 :: u64, 2 :: u64)])" by simp_all
  from raf_links_mirrored[OF this, of test_world "[RAFLink ''7 8'', RAFUnlink ''2'']" raf_empty] show ?thesis by blast
qed

text \<open>linking two accounts whose players are online leaves the status of both player objects at
  \<open>RAF_LINK_NONE\<close>, although the manager reports the first as the referrer of the second.\<close>

theorem LinkIntoRAF_resets_status:
  assumes "FindPlayerByAccountId w a False = Some p" "FindPlayerByAccountId w b False = Some q"
  shows "GetRAFLinkStatus2 a b (fst (LinkIntoRAF w a b r)) = RAF_LINK_REFERRER
    \<and> filter (\<lambda>e. \<exists>g s. e = SetRAFStatus g s) (snd (LinkIntoRAF w a b r))
        = [SetRAFStatus (pl_guid p) RAF_LINK_NONE, SetRAFStatus (pl_guid q) RAF_LINK_NONE]"
  using assms by (simp add: LinkIntoRAF_def UPDATE_PLAYER_def GetRAFLinkStatus2_def sm.find_put)

theorem LinkIntoRAF_resets_status_witness:
  "GetRAFLinkStatus2 1 2 (fst (LinkIntoRAF test_world 1 2 raf_empty)) = RAF_LINK_REFERRER
    \<and> SetRAFStatus 1 RAF_LINK_NONE \<in> set (snd (LinkIntoRAF test_world 1 2 raf_empty))"
proof -
  have "FindPlayerByAccountId test_world 1 False = Some (test_player 1 ''Ann'')"
    "FindPlayerByAccountId test_world 2 False = Some (test_player 2 ''Bob'')"
    by (simp_all add: FindPlayerByAccountId_def test_world_def test_player_def)
  from LinkIntoRAF_resets_status[OF this, of raf_empty]
  have st: "GetRAFLinkStatus2 1 2 (fst (LinkIntoRAF test_world 1 2 raf_empty)) = RAF_LINK_REFERRER"
    and e: "filter (\<lambda>e. \<exists>g s. e = SetRAFStatus g s) (snd (LinkIntoRAF test_world 1 2 raf_empty))
      = [SetRAFStatus 1 RAF_LINK_NONE, SetRAFStatus 2 RAF_LINK_NONE]"
    by (simp_all add: test_player_def)
  have "SetRAFStatus 1 RAF_LINK_NONE \<in> set (filter (\<lambda>e. \<exists>g s. e = SetRAFStatus g s)
      (snd (LinkIntoRAF test_world 1 2 raf_empty)))" by (simp add: e)
  with st show ?thesis by simp
qed

end
