(* ===== verification/ArenaTeam.thy ===== *)
theory ArenaTeam
  imports World
begin

text \<open>
  Arena teams (class \<open>ArenaTeam\<close> of src/src/server/game/Battlegrounds/ArenaTeam.h and .cpp), the map of
  teams of \<open>ObjectMgr\<close> and the packet handlers of src/src/server/game/Handlers/ArenaTeamHandler.cpp.
  The server state threads the player objects (whose arena team fields the operations set), the map
  of teams, the pending invitations and a log of everything else that is done, in order: packets
  sent, player fields written, statements executed, queues left. What other parts of the server know is in
  the environment: character rows, battleground queues and templates, the rating arithmetic, which the
  source does in \<open>float\<close> with \<open>exp\<close>.
\<close>

section \<open>Data\<close>

abbreviation ARENA_NEW_TEAM_RATING :: u32 where "ARENA_NEW_TEAM_RATING \<equiv> 1500"
abbreviation ARENA_NEW_PERSONAL_RATING :: u32 where "ARENA_NEW_PERSONAL_RATING \<equiv> 1500"

abbreviation ARENA_TEAM_2v2 :: u32 where "ARENA_TEAM_2v2 \<equiv> 2"
abbreviation ARENA_TEAM_3v3 :: u32 where "ARENA_TEAM_3v3 \<equiv> 3"
abbreviation ARENA_TEAM_5v5 :: u32 where "ARENA_TEAM_5v5 \<equiv> 5"

abbreviation SMSG_ARENA_TEAM_COMMAND_RESULT :: u16 where "SMSG_ARENA_TEAM_COMMAND_RESULT \<equiv> 0x349"
abbreviation SMSG_ARENA_TEAM_QUERY_RESPONSE :: u16 where "SMSG_ARENA_TEAM_QUERY_RESPONSE \<equiv> 0x34C"
abbreviation SMSG_ARENA_TEAM_ROSTER :: u16 where "SMSG_ARENA_TEAM_ROSTER \<equiv> 0x34E"
abbreviation SMSG_ARENA_TEAM_INVITE :: u16 where "SMSG_ARENA_TEAM_INVITE \<equiv> 0x350"
abbreviation SMSG_ARENA_TEAM_EVENT :: u16 where "SMSG_ARENA_TEAM_EVENT \<equiv> 0x357"
abbreviation SMSG_ARENA_TEAM_STATS :: u16 where "SMSG_ARENA_TEAM_STATS \<equiv> 0x35B"
abbreviation MSG_INSPECT_ARENA_TEAMS :: u16 where "MSG_INSPECT_ARENA_TEAMS \<equiv> 0x377"
abbreviation SMSG_ARENA_ERROR :: u16 where "SMSG_ARENA_ERROR \<equiv> 0x376"
abbreviation SMSG_BATTLEFIELD_STATUS :: u16 where "SMSG_BATTLEFIELD_STATUS \<equiv> 0x2D4"

datatype arena_info =
    ARENA_TEAM_ID | ARENA_TEAM_MEMBER | ARENA_TEAM_GAMES_WEEK | ARENA_TEAM_GAMES_SEASON
  | ARENA_TEAM_WINS_SEASON | ARENA_TEAM_PERSONAL_RATING

record arena_member =
  am_guid :: guid
  am_name :: string
  am_Class :: u8
  am_games_week :: u32
  am_wins_week :: u32
  am_games_season :: u32
  am_wins_season :: u32
  am_personal_rating :: u32

record arena_stats =
  st_rating :: u32
  st_games_week :: u32
  st_wins_week :: u32
  st_games_season :: u32
  st_wins_season :: u32
  st_rank :: u32

record arena_team =
  at_id :: u32
  at_type :: u32
  at_name :: string
  at_captain :: guid
  at_background_color :: u32
  at_emblem_style :: u32
  at_emblem_color :: u32
  at_border_style :: u32
  at_border_color :: u32
  at_members :: "arena_member list"
  at_stats :: arena_stats

definition ArenaTeam_new :: arena_team where
  "ArenaTeam_new = \<lparr>at_id = 0, at_type = 0, at_name = '''', at_captain = 0, at_background_color = 0,
     at_emblem_style = 0, at_emblem_color = 0, at_border_style = 0, at_border_color = 0, at_members = [],
     at_stats = \<lparr>st_rating = ARENA_NEW_TEAM_RATING, st_games_week = 0, st_wins_week = 0, st_games_season = 0,
       st_wins_season = 0, st_rank = 0\<rparr>\<rparr>"

datatype arena_sql =
    InsertTeam u32 string u32 u32 u32 u32 u32 u32 u32   \<comment> \<open>id, name, captain, type, colours and styles\<close>
  | InsertStats u32 arena_stats
  | InsertMember u32 u32 u32                            \<comment> \<open>team, guid, personal rating\<close>
  | DeleteMember u32 u32
  | DeleteTeam u32
  | DeleteMembers u32
  | DeleteStats u32
  | UpdateCaptain u32 u32
  | UpdateEmblem u32 u32 u32 u32 u32 u32
  | UpdateStat u32 u32 u32                              \<comment> \<open>team, which, value\<close>
  | UpdateStats u32 arena_stats
  | UpdateMember u32 u32 arena_member
  | AddPoints u32 u32                                   \<comment> \<open>guid, arena points\<close>

datatype arena_action =
    ASend guid packet
  | SetInfo guid nat arena_info u32      \<comment> \<open>\<open>SetArenaTeamInfoField(slot, field, value)\<close>\<close>
  | RemovePetitionsAndSigns guid u32
  | LeaveQueue guid u32                  \<comment> \<open>\<open>m_BattlegroundQueues[type].RemovePlayer\<close>\<close>
  | ASql arena_sql
  | StopServer                           \<comment> \<open>\<open>World::StopNow\<close>\<close>
  | ModifyArenaPoints guid u32           \<comment> \<open>\<open>player->ModifyArenaPoints(points, true)\<close>\<close>
  | SendGlobalText string

record arena_server =
  av_world :: world
  av_teams :: "(u32 \<times> arena_team) list"
  av_invited :: "guid \<Rightarrow> u32"
  av_next_id :: u32
  av_log :: "arena_action list"

record arena_env =
  ae_character :: "u32 \<Rightarrow> (string \<times> u8) option"
  ae_db_team :: "guid \<Rightarrow> u8 \<Rightarrow> u32"       \<comment> \<open>\<open>GetArenaTeamIdFromDB\<close>\<close>
  ae_db_side :: "guid \<Rightarrow> u32"             \<comment> \<open>\<open>GetPlayerTeamByGUID\<close>\<close>
  ae_queues :: "guid \<Rightarrow> u32 list"         \<comment> \<open>\<open>GetBattlegroundQueueId(0..2)\<close>\<close>
  ae_bg_template :: "u32 \<Rightarrow> bool option"  \<comment> \<open>battleground templates: is it an arena?\<close>
  ae_in_arena :: "guid \<Rightarrow> bool"
  ae_on_arena_map :: "guid \<Rightarrow> bool"
  ae_within_dist :: "guid \<Rightarrow> guid \<Rightarrow> bool"
  ae_hostile :: "guid \<Rightarrow> guid \<Rightarrow> bool"
  ae_norm :: "string \<Rightarrow> string option"
  ae_escape :: "string \<Rightarrow> string"
  ae_won :: "u32 \<Rightarrow> u32 \<Rightarrow> int"           \<comment> \<open>\<open>floor(32 * (1 - chance))\<close>\<close>
  ae_lost :: "u32 \<Rightarrow> u32 \<Rightarrow> int"          \<comment> \<open>\<open>ceil(32 * (0 - chance))\<close>\<close>
  ae_award :: "u32 \<Rightarrow> u32 \<Rightarrow> u32"         \<comment> \<open>points for a team type and a rating\<close>
  ae_max_level :: u32
  ae_two_side_guild :: bool

datatype arena_error = NullCaptain

section \<open>The server state\<close>

definition emit :: "arena_action \<Rightarrow> arena_server \<Rightarrow> arena_server" where
  "emit a s = s\<lparr>av_log := av_log s @ [a]\<rparr>"

text \<open>The id field of a slot is what \<open>GetArenaTeamId\<close> reads.\<close>

definition set_arena_id :: "guid \<Rightarrow> nat \<Rightarrow> u32 \<Rightarrow> world \<Rightarrow> world" where
  "set_arena_id g slot v w = w\<lparr>w_players := map (\<lambda>p. if pl_guid p = g
     then p\<lparr>pl_arena_team := (pl_arena_team p)(slot := v)\<rparr> else p) (w_players w)\<rparr>"

definition SetArenaTeamInfoField :: "guid \<Rightarrow> nat \<Rightarrow> arena_info \<Rightarrow> u32 \<Rightarrow> arena_server \<Rightarrow> arena_server" where
  "SetArenaTeamInfoField g slot field v s =
     (let s = emit (SetInfo g slot field v) s
      in if field = ARENA_TEAM_ID then s\<lparr>av_world := set_arena_id g slot v (av_world s)\<rparr> else s)"

definition SetInArenaTeam :: "guid \<Rightarrow> u32 \<Rightarrow> nat \<Rightarrow> arena_server \<Rightarrow> arena_server" where
  "SetInArenaTeam g v slot = SetArenaTeamInfoField g slot ARENA_TEAM_ID v"

definition SetArenaTeamIdInvited :: "guid \<Rightarrow> u32 \<Rightarrow> arena_server \<Rightarrow> arena_server" where
  "SetArenaTeamIdInvited g v s = s\<lparr>av_invited := (av_invited s)(g := v)\<rparr>"

definition GetArenaTeamById :: "u32 \<Rightarrow> arena_server \<Rightarrow> arena_team option" where
  "GetArenaTeamById i s = sm_find i (av_teams s)"

definition GetArenaTeamByName :: "string \<Rightarrow> arena_server \<Rightarrow> arena_team option" where
  "GetArenaTeamByName n s = map_option snd (find (\<lambda>p. at_name (snd p) = n) (av_teams s))"

definition GetArenaTeamByCaptain :: "guid \<Rightarrow> arena_server \<Rightarrow> arena_team option" where
  "GetArenaTeamByCaptain g s = map_option snd (find (\<lambda>p. at_captain (snd p) = g) (av_teams s))"

definition AddArenaTeam :: "arena_team \<Rightarrow> arena_server \<Rightarrow> arena_server" where
  "AddArenaTeam t s = s\<lparr>av_teams := sm_set (at_id t) t (av_teams s)\<rparr>"

definition RemoveArenaTeam :: "u32 \<Rightarrow> arena_server \<Rightarrow> arena_server" where
  "RemoveArenaTeam i s = s\<lparr>av_teams := sm_erase i (av_teams s)\<rparr>"

section \<open>Teams\<close>

definition GetSlotByType :: "u32 \<Rightarrow> nat" where
  "GetSlotByType ty =
     (if ty = ARENA_TEAM_2v2 then 0 else if ty = ARENA_TEAM_3v3 then 1
      else if ty = ARENA_TEAM_5v5 then 2 else 0xFF)"

definition GetSlot :: "arena_team \<Rightarrow> nat" where
  "GetSlot t = GetSlotByType (at_type t)"

definition HaveMember :: "guid \<Rightarrow> arena_team \<Rightarrow> bool" where
  "HaveMember g t \<longleftrightarrow> list_ex (\<lambda>m. am_guid m = g) (at_members t)"

definition GetMember :: "guid \<Rightarrow> arena_team \<Rightarrow> arena_member option" where
  "GetMember g t = find (\<lambda>m. am_guid m = g) (at_members t)"

definition GetMember_name :: "string \<Rightarrow> arena_team \<Rightarrow> arena_member option" where
  "GetMember_name n t = find (\<lambda>m. am_name m = n) (at_members t)"

definition new_member :: "guid \<Rightarrow> string \<Rightarrow> u8 \<Rightarrow> arena_member" where
  "new_member g n c = \<lparr>am_guid = g, am_name = n, am_Class = c, am_games_week = 0, am_wins_week = 0,
     am_games_season = 0, am_wins_season = 0, am_personal_rating = ARENA_NEW_PERSONAL_RATING\<rparr>"

text \<open>Name and class of the player, unless he is in a team of that size already.\<close>

definition admission :: "arena_env \<Rightarrow> guid \<Rightarrow> arena_team \<Rightarrow> arena_server \<Rightarrow> (string \<times> u8) option" where
  "admission env g t s =
     (case GetPlayer (av_world s) g of
        Some pl \<Rightarrow> if pl_arena_team pl (GetSlot t) \<noteq> 0 then None else Some (pl_name pl, ucast (pl_class pl))
      | None \<Rightarrow>
          (case ae_character env (GUID_LOPART g) of
             None \<Rightarrow> None
           | Some nc \<Rightarrow> if ae_db_team env g (ucast (at_type t)) \<noteq> 0 then None else Some nc))"

definition AddMember :: "arena_env \<Rightarrow> guid \<Rightarrow> arena_team \<Rightarrow> arena_server \<Rightarrow> bool \<times> arena_team \<times> arena_server" where
  "AddMember env g t s =
     (if length (at_members t) \<ge> unat (at_type t * 2) then (False, t, s)
      else case admission env g t s of
             None \<Rightarrow> (False, t, s)
           | Some (plName, plClass) \<Rightarrow>
               let s = emit (RemovePetitionsAndSigns g (at_type t)) s;
                   t = t\<lparr>at_members := at_members t @ [new_member g plName plClass]\<rparr>;
                   s = emit (ASql (InsertMember (at_id t) (GUID_LOPART g) ARENA_NEW_PERSONAL_RATING)) s
               in case GetPlayer (av_world s) g of
                    None \<Rightarrow> (True, t, s)
                  | Some pl \<Rightarrow>
                      let s = SetInArenaTeam g (at_id t) (GetSlot t) s;
                          s = SetArenaTeamIdInvited g 0 s;
                          s = SetArenaTeamInfoField g (GetSlot t) ARENA_TEAM_PERSONAL_RATING ARENA_NEW_PERSONAL_RATING s;
                          s = (if at_captain t \<noteq> g then SetArenaTeamInfoField g (GetSlot t) ARENA_TEAM_MEMBER 1 s else s)
                      in (True, t, s))"

text \<open>Running out of ids asks the server to stop, and hands out the id all the same.\<close>

definition GenerateArenaTeamId :: "arena_server \<Rightarrow> u32 \<times> arena_server" where
  "GenerateArenaTeamId s =
     (let s' = (if av_next_id s \<ge> 0xFFFFFFFE then emit StopServer s else s)
      in (av_next_id s, s'\<lparr>av_next_id := av_next_id s + 1\<rparr>))"

definition Create :: "arena_env \<Rightarrow> guid \<Rightarrow> u32 \<Rightarrow> string \<Rightarrow> arena_team \<Rightarrow> arena_server
    \<Rightarrow> bool \<times> arena_team \<times> arena_server" where
  "Create env captainGuid ty arenaTeamName t s =
     (if GetPlayer (av_world s) captainGuid = None then (False, t, s)
      else if GetArenaTeamByName arenaTeamName s \<noteq> None then (False, t, s)
      else
        let t = t\<lparr>at_captain := captainGuid, at_name := arenaTeamName, at_type := ty\<rparr>
        in case GenerateArenaTeamId s of
             (i, s) \<Rightarrow>
               let t = t\<lparr>at_id := i\<rparr>;
                   s = emit (ASql (DeleteMembers i)) s;
                   s = emit (ASql (InsertTeam i (c_str (ae_escape env arenaTeamName)) (GUID_LOPART captainGuid) ty
                         (at_background_color t) (at_emblem_style t) (at_emblem_color t) (at_border_style t)
                         (at_border_color t))) s;
                   s = emit (ASql (InsertStats i (at_stats t))) s
               in (case AddMember env captainGuid t s of (_, t, s) \<Rightarrow> (True, t, s)))"

subsection \<open>Packets\<close>

definition team_online :: "arena_team \<Rightarrow> arena_server \<Rightarrow> guid list" where
  "team_online t s = filter (\<lambda>g. GetPlayer (av_world s) g \<noteq> None) (map am_guid (at_members t))"

definition emits :: "arena_action list \<Rightarrow> arena_server \<Rightarrow> arena_server" where
  "emits as s = fold emit as s"

definition Arena_BroadcastPacket :: "packet \<Rightarrow> arena_team \<Rightarrow> arena_server \<Rightarrow> arena_server" where
  "Arena_BroadcastPacket p t s = emits (map (\<lambda>g. ASend g p) (team_online t s)) s"

definition event_packet :: "u8 \<Rightarrow> guid \<Rightarrow> string option \<Rightarrow> string option \<Rightarrow> string option \<Rightarrow> packet" where
  "event_packet event g str1 str2 str3 =
     (let strCount = (if str1 = None then 0 else if str2 = None then 1 else if str3 = None then 2 else 3);
          data = put (put (WorldPacket_new SMSG_ARENA_TEAM_EVENT) (enc_u8 event)) (enc_u8 strCount);
          cs = (\<lambda>o'. case o' of None \<Rightarrow> [] | Some x \<Rightarrow> enc_string (c_str x));
          data = (if str3 \<noteq> None then put (put (put data (cs str1)) (cs str2)) (cs str3)
                  else if str2 \<noteq> None then put (put data (cs str1)) (cs str2)
                  else if str1 \<noteq> None then put data (cs str1) else data)
      in if g \<noteq> 0 then put data (enc_u64 g) else data)"

definition BroadcastEvent ::
  "u8 \<Rightarrow> guid \<Rightarrow> string option \<Rightarrow> string option \<Rightarrow> string option \<Rightarrow> arena_team \<Rightarrow> arena_server \<Rightarrow> arena_server" where
  "BroadcastEvent event g str1 str2 str3 t s = Arena_BroadcastPacket (event_packet event g str1 str2 str3) t s"

abbreviation ERR_ARENA_TEAM_JOIN_SS :: u8 where "ERR_ARENA_TEAM_JOIN_SS \<equiv> 3"
abbreviation ERR_ARENA_TEAM_LEAVE_SS :: u8 where "ERR_ARENA_TEAM_LEAVE_SS \<equiv> 4"
abbreviation ERR_ARENA_TEAM_REMOVE_SSS :: u8 where "ERR_ARENA_TEAM_REMOVE_SSS \<equiv> 5"
abbreviation ERR_ARENA_TEAM_LEADER_CHANGED_SSS :: u8 where "ERR_ARENA_TEAM_LEADER_CHANGED_SSS \<equiv> 7"
abbreviation ERR_ARENA_TEAM_DISBANDED_S :: u8 where "ERR_ARENA_TEAM_DISBANDED_S \<equiv> 8"

definition SendArenaTeamCommandResult :: "guid \<Rightarrow> u32 \<Rightarrow> string \<Rightarrow> string \<Rightarrow> u32 \<Rightarrow> arena_server \<Rightarrow> arena_server" where
  "SendArenaTeamCommandResult to' team_action team player error_id =
     emit (ASend to' (put (put (put (put (WorldPacket_new SMSG_ARENA_TEAM_COMMAND_RESULT) (enc_u32 team_action))
       (enc_string team)) (enc_string player)) (enc_u32 error_id)))"

definition SendNotInArenaTeamPacket :: "guid \<Rightarrow> u8 \<Rightarrow> arena_server \<Rightarrow> arena_server" where
  "SendNotInArenaTeamPacket to' ty =
     (let unk = (0 :: u32); data = put (WorldPacket_new SMSG_ARENA_ERROR) (enc_u32 unk)
      in emit (ASend to' (if unk = 0 then put data (enc_u8 ty) else data)))"

definition roster_entry :: "arena_team \<Rightarrow> arena_server \<Rightarrow> arena_member \<Rightarrow> u8 list" where
  "roster_entry t s m =
     (let pl = GetPlayer (av_world s) (am_guid m)
      in enc_u64 (am_guid m) @ enc_u8 (if pl \<noteq> None then 1 else 0) @ enc_string (am_name m)
         @ enc_u32 (if am_guid m = at_captain t then 0 else 1)
         @ enc_u8 (case pl of None \<Rightarrow> 0 | Some p \<Rightarrow> ucast (pl_level p)) @ enc_u8 (am_Class m)
         @ enc_u32 (am_games_week m) @ enc_u32 (am_wins_week m) @ enc_u32 (am_games_season m)
         @ enc_u32 (am_wins_season m) @ enc_u32 (am_personal_rating m))"

definition Roster :: "guid \<Rightarrow> arena_team \<Rightarrow> arena_server \<Rightarrow> arena_server" where
  "Roster to' t s =
     emit (ASend to' (fold (\<lambda>m d. put d (roster_entry t s m)) (at_members t)
       (put (put (put (WorldPacket_new SMSG_ARENA_TEAM_ROSTER) (enc_u32 (at_id t)))
         (enc_u32 (of_nat (length (at_members t))))) (enc_u32 (at_type t))))) s"

definition Arena_Query :: "guid \<Rightarrow> arena_team \<Rightarrow> arena_server \<Rightarrow> arena_server" where
  "Arena_Query to' t =
     emit (ASend to' (put (WorldPacket_new SMSG_ARENA_TEAM_QUERY_RESPONSE)
       (enc_u32 (at_id t) @ enc_string (at_name t) @ enc_u32 (at_type t) @ enc_u32 (at_background_color t)
        @ enc_u32 (at_emblem_style t) @ enc_u32 (at_emblem_color t) @ enc_u32 (at_border_style t)
        @ enc_u32 (at_border_color t))))"

definition Arena_Stats :: "guid \<Rightarrow> arena_team \<Rightarrow> arena_server \<Rightarrow> arena_server" where
  "Arena_Stats to' t =
     (let st = at_stats t
      in emit (ASend to' (put (WorldPacket_new SMSG_ARENA_TEAM_STATS)
           (enc_u32 (at_id t) @ enc_u32 (st_rating st) @ enc_u32 (st_games_week st) @ enc_u32 (st_wins_week st)
            @ enc_u32 (st_games_season st) @ enc_u32 (st_wins_season st) @ enc_u32 (st_rank st)))))"

definition NotifyStatsChanged :: "arena_team \<Rightarrow> arena_server \<Rightarrow> arena_server" where
  "NotifyStatsChanged t s = fold (\<lambda>g. Arena_Stats g t) (team_online t s) s"

definition InspectStats :: "guid \<Rightarrow> guid \<Rightarrow> arena_team \<Rightarrow> arena_server \<Rightarrow> arena_server" where
  "InspectStats to' g t s =
     (case GetMember g t of
        None \<Rightarrow> s
      | Some m \<Rightarrow>
          emit (ASend to' (put (WorldPacket_new MSG_INSPECT_ARENA_TEAMS)
            (enc_u64 g @ enc_u8 (of_nat (GetSlot t)) @ enc_u32 (at_id t) @ enc_u32 (st_rating (at_stats t))
             @ enc_u32 (st_games_season (at_stats t)) @ enc_u32 (st_wins_season (at_stats t))
             @ enc_u32 (am_games_season m) @ enc_u32 (am_personal_rating m)))) s)"

subsection \<open>Members and captain\<close>

fun remove_first :: "guid \<Rightarrow> arena_member list \<Rightarrow> arena_member list" where
  "remove_first g [] = []"
| "remove_first g (m # ms) = (if am_guid m = g then ms else m # remove_first g ms)"

text \<open>\<open>BuildBattlegroundStatusPacket\<close> for \<open>STATUS_NONE\<close>.\<close>

definition StatusNone_packet :: "nat \<Rightarrow> packet" where
  "StatusNone_packet QueueSlot =
     put (put (WorldPacket_new SMSG_BATTLEFIELD_STATUS) (enc_u32 (of_nat QueueSlot))) (enc_u64 0)"

text \<open>The template is looked up under the queue's type; the first queue that is not an arena ends the loop.\<close>

fun leave_queues :: "arena_env \<Rightarrow> guid \<Rightarrow> u32 list \<Rightarrow> arena_server \<Rightarrow> arena_server" where
  "leave_queues env g [] s = s"
| "leave_queues env g (q # qs) s =
     (if q = 0 then leave_queues env g qs s
      else case ae_bg_template env q of
             None \<Rightarrow> s
           | Some isArena \<Rightarrow>
               if \<not> isArena then s
               else leave_queues env g qs
                 (emit (LeaveQueue g q)
                   (emit (ASend g (StatusNone_packet (length (takeWhile (\<lambda>x. x \<noteq> q) (ae_queues env g))))) s)))"

definition DelMember :: "arena_env \<Rightarrow> guid \<Rightarrow> arena_team \<Rightarrow> arena_server \<Rightarrow> arena_team \<times> arena_server" where
  "DelMember env g t s =
     (let t = t\<lparr>at_members := remove_first g (at_members t)\<rparr>;
          s = (case GetPlayer (av_world s) g of
                 None \<Rightarrow> s
               | Some pl \<Rightarrow>
                   let s = leave_queues env g (ae_queues env g) s;
                       s = SetInArenaTeam g 0 (GetSlot t) s;
                       s = SendArenaTeamCommandResult g 3 (at_name t) '''' 0 s
                   in fold (\<lambda>field. SetArenaTeamInfoField g (GetSlot t) field 0)
                        [ARENA_TEAM_ID, ARENA_TEAM_MEMBER, ARENA_TEAM_GAMES_WEEK, ARENA_TEAM_GAMES_SEASON,
                         ARENA_TEAM_WINS_SEASON, ARENA_TEAM_PERSONAL_RATING] s)
      in (t, emit (ASql (DeleteMember (at_id t) (GUID_LOPART g))) s))"

lemma at_members_DelMember [simp]: "at_members (fst (DelMember env g t s)) = remove_first g (at_members t)"
  by (simp add: DelMember_def Let_def)

text \<open>\<open>while (!m_members.empty()) DelMember(m_members.front().guid)\<close>\<close>

function disband_loop :: "arena_env \<Rightarrow> arena_team \<Rightarrow> arena_server \<Rightarrow> arena_team \<times> arena_server" where
  "disband_loop env t s =
     (case at_members t of
        [] \<Rightarrow> (t, s)
      | m # ms \<Rightarrow> (case DelMember env (am_guid m) t s of (t', s') \<Rightarrow> disband_loop env t' s'))"
  by pat_completeness auto
termination
proof (relation "measure (\<lambda>(env, t, s). length (at_members t))", goal_cases)
  case (2 env t s m ms t' s')
  then have "at_members t' = remove_first (am_guid m) (m # ms)"
    by (metis at_members_DelMember fst_conv)
  then show ?case using 2 by (simp add: 2(2)[symmetric])
qed simp

declare disband_loop.simps [simp del]

definition Disband :: "arena_env \<Rightarrow> player option \<Rightarrow> arena_team \<Rightarrow> arena_server \<Rightarrow> arena_team \<times> arena_server" where
  "Disband env session t s =
     (let s = (case session of
                 None \<Rightarrow> s
               | Some pl \<Rightarrow> BroadcastEvent ERR_ARENA_TEAM_DISBANDED_S 0 (Some (pl_name pl)) (Some (at_name t)) None t s)
      in case disband_loop env t s of
           (t, s) \<Rightarrow>
             let s = emit (ASql (DeleteTeam (at_id t))) s;
                 s = emit (ASql (DeleteMembers (at_id t))) s;
                 s = emit (ASql (DeleteStats (at_id t))) s
             in (t, RemoveArenaTeam (at_id t) s))"

text \<open>The log line of the promotion reads the old captain's name.\<close>

definition SetCaptain :: "guid \<Rightarrow> arena_team \<Rightarrow> arena_server \<Rightarrow> arena_error + (arena_team \<times> arena_server)" where
  "SetCaptain g t s =
     (let oldcaptain = GetPlayer (av_world s) (at_captain t);
          s = (if oldcaptain \<noteq> None then SetArenaTeamInfoField (at_captain t) (GetSlot t) ARENA_TEAM_MEMBER 1 s else s);
          t = t\<lparr>at_captain := g\<rparr>;
          s = emit (ASql (UpdateCaptain (GUID_LOPART g) (at_id t))) s
      in case GetPlayer (av_world s) g of
           None \<Rightarrow> Inr (t, s)
         | Some newcaptain \<Rightarrow>
             let s = SetArenaTeamInfoField g (GetSlot t) ARENA_TEAM_MEMBER 0 s
             in if oldcaptain = None then Inl NullCaptain else Inr (t, s))"

definition SetEmblem :: "u32 \<Rightarrow> u32 \<Rightarrow> u32 \<Rightarrow> u32 \<Rightarrow> u32 \<Rightarrow> arena_team \<Rightarrow> arena_server \<Rightarrow> arena_team \<times> arena_server" where
  "SetEmblem backgroundColor emblemStyle emblemColor borderStyle borderColor t s =
     (let t = t\<lparr>at_background_color := backgroundColor, at_emblem_style := emblemStyle,
                 at_emblem_color := emblemColor, at_border_style := borderStyle, at_border_color := borderColor\<rparr>
      in (t, emit (ASql (UpdateEmblem (at_id t) backgroundColor emblemStyle emblemColor borderStyle borderColor)) s))"

subsection \<open>Ratings\<close>

text \<open>\<open>int32(rating) + mod < 0 ? 0 : rating + mod\<close>\<close>

definition change_rating :: "int \<Rightarrow> u32 \<Rightarrow> u32" where
  "change_rating m r = (if sint r + m < 0 then 0 else r + word_of_int m)"

definition ModifyPersonalRating :: "guid option \<Rightarrow> int \<Rightarrow> nat \<Rightarrow> arena_member \<Rightarrow> arena_server \<Rightarrow> arena_member \<times> arena_server" where
  "ModifyPersonalRating plr m slot mem s =
     (let mem = mem\<lparr>am_personal_rating := change_rating m (am_personal_rating mem)\<rparr>
      in (mem, case plr of None \<Rightarrow> s
               | Some g \<Rightarrow> SetArenaTeamInfoField g slot ARENA_TEAM_PERSONAL_RATING (am_personal_rating mem) s))"

definition SetStats :: "u32 \<Rightarrow> u32 \<Rightarrow> arena_team \<Rightarrow> arena_server \<Rightarrow> arena_team \<times> arena_server" where
  "SetStats stat_type v t s =
     (let st = at_stats t; s' = emit (ASql (UpdateStat (at_id t) stat_type v)) s
      in if stat_type = 0 then (t\<lparr>at_stats := st\<lparr>st_rating := v\<rparr>\<rparr>, s')
         else if stat_type = 1 then (t\<lparr>at_stats := st\<lparr>st_games_week := v\<rparr>\<rparr>, s')
         else if stat_type = 2 then (t\<lparr>at_stats := st\<lparr>st_wins_week := v\<rparr>\<rparr>, s')
         else if stat_type = 3 then (t\<lparr>at_stats := st\<lparr>st_games_season := v\<rparr>\<rparr>, s')
         else if stat_type = 4 then (t\<lparr>at_stats := st\<lparr>st_wins_season := v\<rparr>\<rparr>, s')
         else if stat_type = 5 then (t\<lparr>at_stats := st\<lparr>st_rank := v\<rparr>\<rparr>, s')
         else (t, s))"

definition GetPoints :: "arena_env \<Rightarrow> u32 \<Rightarrow> arena_team \<Rightarrow> u32" where
  "GetPoints env MemberRating t =
     ae_award env (at_type t)
       (if MemberRating + 150 < st_rating (at_stats t) then MemberRating else st_rating (at_stats t))"

text \<open>The rank counts the other teams of the map with a better rating; the team's own entry is the
  team itself and never counts.\<close>

definition rank_among :: "arena_team \<Rightarrow> (u32 \<times> arena_team) list \<Rightarrow> u32" where
  "rank_among t teams =
     fold (\<lambda>p r. if fst p \<noteq> at_id t \<and> at_type (snd p) = at_type t
                    \<and> st_rating (at_stats (snd p)) > st_rating (at_stats t) then r + 1 else r) teams 1"

definition FinishGame :: "int \<Rightarrow> arena_team \<Rightarrow> arena_server \<Rightarrow> arena_team" where
  "FinishGame m t s =
     (let st = at_stats t;
          st = st\<lparr>st_rating := change_rating m (st_rating st)\<rparr>;
          st = st\<lparr>st_games_week := st_games_week st + 1, st_games_season := st_games_season st + 1\<rparr>;
          t = t\<lparr>at_stats := st\<rparr>
      in t\<lparr>at_stats := st\<lparr>st_rank := rank_among t (av_teams s)\<rparr>\<rparr>)"

definition WonAgainst :: "arena_env \<Rightarrow> u32 \<Rightarrow> arena_team \<Rightarrow> arena_server \<Rightarrow> int \<times> arena_team" where
  "WonAgainst env againstRating t s =
     (let m = ae_won env (st_rating (at_stats t)) againstRating;
          t = FinishGame m t s;
          st = at_stats t
      in (m, t\<lparr>at_stats := st\<lparr>st_wins_week := st_wins_week st + 1, st_wins_season := st_wins_season st + 1\<rparr>\<rparr>))"

definition LostAgainst :: "arena_env \<Rightarrow> u32 \<Rightarrow> arena_team \<Rightarrow> arena_server \<Rightarrow> int \<times> arena_team" where
  "LostAgainst env againstRating t s =
     (let m = ae_lost env (st_rating (at_stats t)) againstRating in (m, FinishGame m t s))"

text \<open>The loops over the members act on the first one with the guid and return.\<close>

fun on_first :: "(arena_member \<Rightarrow> arena_member) \<Rightarrow> guid \<Rightarrow> arena_member list \<Rightarrow> arena_member list" where
  "on_first f g [] = []"
| "on_first f g (m # ms) = (if am_guid m = g then f m # ms else m # on_first f g ms)"

definition write_games :: "guid \<Rightarrow> nat \<Rightarrow> arena_member \<Rightarrow> arena_server \<Rightarrow> arena_server" where
  "write_games g slot m s =
     SetArenaTeamInfoField g slot ARENA_TEAM_GAMES_SEASON (am_games_season m)
       (SetArenaTeamInfoField g slot ARENA_TEAM_GAMES_WEEK (am_games_week m) s)"

definition played :: "arena_member \<Rightarrow> arena_member" where
  "played m = m\<lparr>am_games_week := am_games_week m + 1, am_games_season := am_games_season m + 1\<rparr>"

definition MemberLost :: "arena_env \<Rightarrow> guid \<Rightarrow> u32 \<Rightarrow> arena_team \<Rightarrow> arena_server \<Rightarrow> arena_team \<times> arena_server" where
  "MemberLost env plr againstRating t s =
     (case GetMember plr t of
        None \<Rightarrow> (t, s)
      | Some m \<Rightarrow>
          (case ModifyPersonalRating (Some plr) (ae_lost env (am_personal_rating m) againstRating) (GetSlot t) m s of
             (m', s) \<Rightarrow> (t\<lparr>at_members := on_first (\<lambda>_. played m') plr (at_members t)\<rparr>,
                         write_games plr (GetSlot t) (played m') s)))"

definition OfflineMemberLost :: "arena_env \<Rightarrow> guid \<Rightarrow> u32 \<Rightarrow> arena_team \<Rightarrow> arena_team" where
  "OfflineMemberLost env g againstRating t =
     t\<lparr>at_members := on_first (\<lambda>m.
        let rating = sint (am_personal_rating m) + ae_lost env (am_personal_rating m) againstRating
        in played (m\<lparr>am_personal_rating := (if rating < 0 then 0 else word_of_int rating)\<rparr>)) g (at_members t)\<rparr>"

definition MemberWon :: "arena_env \<Rightarrow> guid \<Rightarrow> u32 \<Rightarrow> arena_team \<Rightarrow> arena_server \<Rightarrow> arena_team \<times> arena_server" where
  "MemberWon env plr againstRating t s =
     (case GetMember plr t of
        None \<Rightarrow> (t, s)
      | Some m \<Rightarrow>
          (case ModifyPersonalRating (Some plr) (ae_won env (am_personal_rating m) againstRating) (GetSlot t) m s of
             (m', s) \<Rightarrow>
               let m' = played m';
                   m' = m'\<lparr>am_wins_season := am_wins_season m' + 1, am_wins_week := am_wins_week m' + 1\<rparr>
               in (t\<lparr>at_members := on_first (\<lambda>_. m') plr (at_members t)\<rparr>, write_games plr (GetSlot t) m' s)))"

text \<open>
  \<open>ceil(games_week * 0.3)\<close> in \<open>double\<close>: for a multiple of ten the product rounds to the exact
  integer (the error of 0.3 is below half a unit in the last place), for the others the distance to
  the next integer is at least a tenth, so the result is the ceiling of the exact quotient.
\<close>

definition min_plays :: "u32 \<Rightarrow> nat" where
  "min_plays games = (3 * unat games + 9) div 10"

fun points_loop :: "arena_env \<Rightarrow> arena_team \<Rightarrow> arena_member list \<Rightarrow> (u32 \<times> u32) list \<Rightarrow> (u32 \<times> u32) list" where
  "points_loop env t [] PlayerPoints = PlayerPoints"
| "points_loop env t (m # ms) PlayerPoints =
     (let points_to_add = (if unat (am_games_week m) \<ge> min_plays (st_games_week (at_stats t))
                           then GetPoints env (am_personal_rating m) t else 0);
          low = GUID_LOPART (am_guid m)
      in points_loop env t ms
           (case sm_find low PlayerPoints of
              Some p \<Rightarrow> if p < points_to_add then sm_set low points_to_add PlayerPoints else PlayerPoints
            | None \<Rightarrow> sm_set low points_to_add PlayerPoints))"

definition UpdateArenaPointsHelper :: "arena_env \<Rightarrow> arena_team \<Rightarrow> (u32 \<times> u32) list \<Rightarrow> (u32 \<times> u32) list" where
  "UpdateArenaPointsHelper env t PlayerPoints =
     (if st_games_week (at_stats t) < 10 then PlayerPoints else points_loop env t (at_members t) PlayerPoints)"

definition Arena_SaveToDB :: "arena_team \<Rightarrow> arena_server \<Rightarrow> arena_server" where
  "Arena_SaveToDB t s =
     emits (map (\<lambda>m. ASql (UpdateMember (at_id t) (GUID_LOPART (am_guid m)) m)) (at_members t))
       (emit (ASql (UpdateStats (at_id t) (at_stats t))) s)"

definition FinishWeek :: "arena_team \<Rightarrow> arena_team" where
  "FinishWeek t = t\<lparr>at_stats := (at_stats t)\<lparr>st_games_week := 0, st_wins_week := 0\<rparr>,
     at_members := map (\<lambda>m. m\<lparr>am_games_week := 0, am_wins_week := 0\<rparr>) (at_members t)\<rparr>"

definition IsFighting :: "arena_env \<Rightarrow> arena_team \<Rightarrow> arena_server \<Rightarrow> bool" where
  "IsFighting env t s \<longleftrightarrow> list_ex (\<lambda>g. ae_on_arena_map env g) (team_online t s)"

section \<open>Loading\<close>

record team_row =
  tr_id :: u32
  tr_name :: string
  tr_captain :: u32
  tr_type :: u32
  tr_background_color :: u32
  tr_emblem_style :: u32
  tr_emblem_color :: u32
  tr_border_style :: u32
  tr_border_color :: u32
  tr_stats :: arena_stats

record member_row =
  mr_team :: u32
  mr_guid :: u32
  mr_games_week :: u32
  mr_wins_week :: u32
  mr_games_season :: u32
  mr_wins_season :: u32
  mr_personal_rating :: u32
  mr_name :: string
  mr_class :: u8

definition LoadArenaTeamFromDB :: "team_row \<Rightarrow> arena_team \<Rightarrow> arena_team" where
  "LoadArenaTeamFromDB r t =
     t\<lparr>at_id := tr_id r, at_name := tr_name r, at_captain := MAKE_NEW_GUID (tr_captain r) 0 HIGHGUID_PLAYER,
       at_type := tr_type r, at_background_color := tr_background_color r, at_emblem_style := tr_emblem_style r,
       at_emblem_color := tr_emblem_color r, at_border_style := tr_border_style r,
       at_border_color := tr_border_color r, at_stats := tr_stats r\<rparr>"

definition member_of_row :: "member_row \<Rightarrow> arena_member" where
  "member_of_row r = \<lparr>am_guid = MAKE_NEW_GUID (mr_guid r) 0 HIGHGUID_PLAYER, am_name = mr_name r,
     am_Class = mr_class r, am_games_week = mr_games_week r, am_wins_week = mr_wins_week r,
     am_games_season = mr_games_season r, am_wins_season = mr_wins_season r,
     am_personal_rating = mr_personal_rating r\<rparr>"

text \<open>The result is a cursor shared by all teams, ordered by team: the rows from the current one on.\<close>

fun load_members ::
  "arena_env \<Rightarrow> member_row list \<Rightarrow> bool \<Rightarrow> arena_team \<Rightarrow> arena_server
     \<Rightarrow> bool \<times> arena_team \<times> arena_server \<times> member_row list" where
  "load_members env [] cap t s = (cap, t, s, [])"
| "load_members env (r # rs) cap t s =
     (if mr_team r < at_id t then load_members env rs cap t (emit (ASql (DeleteMembers (mr_team r))) s)
      else if mr_team r > at_id t then (cap, t, s, r # rs)
      else
        let m = member_of_row r
        in if am_name m = [] then (case DelMember env (am_guid m) t s of (t', s') \<Rightarrow> load_members env rs cap t' s')
           else load_members env rs (cap \<or> am_guid m = at_captain t) (t\<lparr>at_members := at_members t @ [m]\<rparr>) s)"

definition LoadMembersFromDB ::
  "arena_env \<Rightarrow> member_row list option \<Rightarrow> arena_team \<Rightarrow> arena_server
     \<Rightarrow> bool \<times> arena_team \<times> arena_server \<times> member_row list option" where
  "LoadMembersFromDB env result t s =
     (case result of
        None \<Rightarrow> (False, t, s, None)
      | Some rows \<Rightarrow>
          (case load_members env rows False t s of
             (cap, t', s', rest) \<Rightarrow> (at_members t' \<noteq> [] \<and> cap, t', s', Some rest)))"

fun load_teams :: "arena_env \<Rightarrow> team_row list \<Rightarrow> member_row list option \<Rightarrow> arena_server \<Rightarrow> arena_server" where
  "load_teams env [] members s = s"
| "load_teams env (r # rs) members s =
     (case LoadMembersFromDB env members (LoadArenaTeamFromDB r ArenaTeam_new) s of
        (ok, t, s', members') \<Rightarrow>
          load_teams env rs members' (if ok then AddArenaTeam t s' else snd (Disband env None t s')))"

definition LoadArenaTeams :: "arena_env \<Rightarrow> team_row list option \<Rightarrow> member_row list option \<Rightarrow> arena_server \<Rightarrow> arena_server" where
  "LoadArenaTeams env result members s = (case result of None \<Rightarrow> s | Some rows \<Rightarrow> load_teams env rows members s)"

section \<open>Packet handlers\<close>

type_synonym arena_handler = "byte_buffer \<Rightarrow> bb_error + (arena_error + arena_server)"

text \<open>\<open>me\<close> is the guid of the session's player, who is in the world.\<close>

definition my_arena_id :: "guid \<Rightarrow> nat \<Rightarrow> arena_server \<Rightarrow> u32" where
  "my_arena_id g slot s = (case GetPlayer (av_world s) g of None \<Rightarrow> 0 | Some p \<Rightarrow> pl_arena_team p slot)"

definition InBattlegroundQueue :: "arena_env \<Rightarrow> guid \<Rightarrow> bool" where
  "InBattlegroundQueue env g \<longleftrightarrow> list_ex (\<lambda>q. q \<noteq> 0) (ae_queues env g)"

definition inspect_slots :: "guid \<Rightarrow> player \<Rightarrow> arena_server \<Rightarrow> arena_server" where
  "inspect_slots me player s =
     fold (\<lambda>i s. let a_id = pl_arena_team player i
                  in if a_id = 0 then s
                     else case GetArenaTeamById a_id s of
                            None \<Rightarrow> s | Some t \<Rightarrow> InspectStats me (pl_guid player) t s) [0, 1, 2] s"

definition HandleInspectArenaStatsOpcode :: "arena_env \<Rightarrow> guid \<Rightarrow> arena_server \<Rightarrow> arena_handler" where
  "HandleInspectArenaStatsOpcode env me s =
     rd (read_int False 8) (\<lambda>g :: guid. \<lambda>b.
       Inr (Inr (case FindPlayer (av_world s) g False of
                   None \<Rightarrow> s
                 | Some player \<Rightarrow>
                     if \<not> ae_within_dist env me g then s
                     else if ae_hostile env me g then s
                     else inspect_slots me player s)))"

definition HandleArenaTeamQueryOpcode :: "guid \<Rightarrow> arena_server \<Rightarrow> arena_handler" where
  "HandleArenaTeamQueryOpcode me s =
     rd (read_int False 4) (\<lambda>arenaTeamId. \<lambda>b.
       Inr (Inr (case GetArenaTeamById arenaTeamId s of
                   None \<Rightarrow> s | Some t \<Rightarrow> Arena_Stats me t (Arena_Query me t s))))"

definition HandleArenaTeamRosterOpcode :: "guid \<Rightarrow> arena_server \<Rightarrow> arena_handler" where
  "HandleArenaTeamRosterOpcode me s =
     rd (read_int False 4) (\<lambda>arenaTeamId. \<lambda>b.
       Inr (Inr (case GetArenaTeamById arenaTeamId s of None \<Rightarrow> s | Some t \<Rightarrow> Roster me t s)))"

definition invite :: "arena_env \<Rightarrow> player \<Rightarrow> u32 \<Rightarrow> string \<Rightarrow> arena_server \<Rightarrow> arena_server" where
  "invite env me arenaTeamId invitedName s =
     (let result = SendArenaTeamCommandResult (pl_guid me)
      in case (if invitedName = [] then None else FindPlayerByName (av_world s) invitedName False) of
           None \<Rightarrow> result 0 '''' invitedName 0x0B s
         | Some player \<Rightarrow>
             if pl_level player < ae_max_level env then result 0 '''' (pl_name player) 0x15 s
             else (case GetArenaTeamById arenaTeamId s of
                     None \<Rightarrow> result 0 '''' '''' 0x09 s
                   | Some t \<Rightarrow>
                       if pl_arena_team me (GetSlot t) \<noteq> arenaTeamId then result 0 '''' '''' 0x08 s
                       else if HasIgnore (GUID_LOPART (pl_guid me)) (pl_social player) then s
                       else if \<not> ae_two_side_guild env \<and> pl_team player \<noteq> pl_team me then result 1 '''' '''' 0x0C s
                       else if pl_arena_team player (GetSlot t) \<noteq> 0 then result 1 '''' (pl_name player) 0x03 s
                       else if av_invited s (pl_guid player) \<noteq> 0 then result 1 '''' (pl_name player) 0x05 s
                       else if length (at_members t) \<ge> unat (at_type t * 2) then result 0 (at_name t) '''' 0x16 s
                       else emit (ASend (pl_guid player) (put (put (WorldPacket_new SMSG_ARENA_TEAM_INVITE)
                              (enc_string (c_str (pl_name me)))) (enc_string (at_name t))))
                              (SetArenaTeamIdInvited (pl_guid player) (at_id t) s)))"

definition HandleArenaTeamAddMemberOpcode :: "arena_env \<Rightarrow> player \<Rightarrow> arena_server \<Rightarrow> arena_handler" where
  "HandleArenaTeamAddMemberOpcode env me s =
     rd (read_int False 4) (\<lambda>arenaTeamId.
     rd read_string (\<lambda>invitedName b.
       Inr (Inr (if invitedName = [] then invite env me arenaTeamId [] s
                 else case ae_norm env invitedName of
                        None \<Rightarrow> s | Some n \<Rightarrow> invite env me arenaTeamId n s))))"

definition HandleArenaTeamInviteAcceptOpcode :: "arena_env \<Rightarrow> player \<Rightarrow> arena_server \<Rightarrow> arena_handler" where
  "HandleArenaTeamInviteAcceptOpcode env me s = (\<lambda>b.
     Inr (Inr (case GetArenaTeamById (av_invited s (pl_guid me)) s of
                 None \<Rightarrow> s
               | Some t \<Rightarrow>
                   let result = SendArenaTeamCommandResult (pl_guid me) 0 '''' ''''
                   in if my_arena_id (pl_guid me) (GetSlot t) s \<noteq> 0 then result 0x02 s
                      else if \<not> ae_two_side_guild env \<and> pl_team me \<noteq> ae_db_side env (at_captain t) then result 0x0C s
                      else (case AddMember env (pl_guid me) t s of
                              (False, t', s') \<Rightarrow> result 0x01 s'
                            | (True, t', s') \<Rightarrow>
                                BroadcastEvent ERR_ARENA_TEAM_JOIN_SS (pl_guid me) (Some (pl_name me))
                                  (Some (at_name t')) None t' (AddArenaTeam t' s')))))"

definition HandleArenaTeamInviteDeclineOpcode :: "player \<Rightarrow> arena_server \<Rightarrow> arena_handler" where
  "HandleArenaTeamInviteDeclineOpcode me s = (\<lambda>b. Inr (Inr (SetArenaTeamIdInvited (pl_guid me) 0 s)))"

definition HandleArenaTeamLeaveOpcode :: "arena_env \<Rightarrow> player \<Rightarrow> arena_server \<Rightarrow> arena_handler" where
  "HandleArenaTeamLeaveOpcode env me s =
     rd (read_int False 4) (\<lambda>arenaTeamId. \<lambda>b.
       Inr (Inr (case GetArenaTeamById arenaTeamId s of
                   None \<Rightarrow> s
                 | Some t \<Rightarrow>
                     let result = SendArenaTeamCommandResult (pl_guid me) 3
                     in if InBattlegroundQueue env (pl_guid me) then result '''' '''' 0x01 s
                        else if ae_in_arena env (pl_guid me) then result '''' '''' 0x01 s
                        else if pl_guid me = at_captain t \<and> length (at_members t) > 1 then result '''' '''' 0x08 s
                        else if pl_guid me = at_captain t then snd (Disband env (Some me) t s)
                        else case DelMember env (pl_guid me) t s of
                               (t', s') \<Rightarrow>
                                 result (at_name t') '''' 0
                                   (BroadcastEvent ERR_ARENA_TEAM_LEAVE_SS (pl_guid me) (Some (pl_name me))
                                     (Some (at_name t')) None t' (AddArenaTeam t' s')))))"

definition HandleArenaTeamDisbandOpcode :: "arena_env \<Rightarrow> player \<Rightarrow> arena_server \<Rightarrow> arena_handler" where
  "HandleArenaTeamDisbandOpcode env me s =
     rd (read_int False 4) (\<lambda>arenaTeamId. \<lambda>b.
       Inr (Inr (if ae_in_arena env (pl_guid me) \<or> InBattlegroundQueue env (pl_guid me) then s
                 else case GetArenaTeamById arenaTeamId s of
                        None \<Rightarrow> s
                      | Some t \<Rightarrow>
                          if at_captain t \<noteq> pl_guid me then s
                          else if IsFighting env t s then s
                          else snd (Disband env (Some me) t s))))"

text \<open>What the two commands on a named member check first.\<close>

definition on_member ::
  "arena_env \<Rightarrow> player \<Rightarrow> arena_server \<Rightarrow> (arena_team \<Rightarrow> string \<Rightarrow> arena_member \<Rightarrow> arena_error + arena_server) \<Rightarrow> arena_handler" where
  "on_member env me s f =
     rd (read_int False 4) (\<lambda>arenaTeamId.
     rd read_string (\<lambda>name b.
       Inr (case GetArenaTeamById arenaTeamId s of
              None \<Rightarrow> Inr s
            | Some t \<Rightarrow>
                if at_captain t \<noteq> pl_guid me then Inr (SendArenaTeamCommandResult (pl_guid me) 0 '''' '''' 0x08 s)
                else (case ae_norm env name of
                        None \<Rightarrow> Inr s
                      | Some n \<Rightarrow>
                          (case GetMember_name n t of
                             None \<Rightarrow> Inr (SendArenaTeamCommandResult (pl_guid me) 0 '''' n 0x0B s)
                           | Some m \<Rightarrow> f t n m)))))"

definition HandleArenaTeamRemoveFromTeamOpcode :: "arena_env \<Rightarrow> player \<Rightarrow> arena_server \<Rightarrow> arena_handler" where
  "HandleArenaTeamRemoveFromTeamOpcode env me s =
     on_member env me s (\<lambda>t n m.
       Inr (if at_captain t = am_guid m then SendArenaTeamCommandResult (pl_guid me) 3 '''' '''' 0x08 s
            else if FindPlayer (av_world s) (am_guid m) False \<noteq> None \<and> ae_in_arena env (am_guid m) then s
            else case DelMember env (am_guid m) t s of
                   (t', s') \<Rightarrow> BroadcastEvent ERR_ARENA_TEAM_REMOVE_SSS 0 (Some n) (Some (at_name t'))
                                (Some (pl_name me)) t' (AddArenaTeam t' s')))"

definition HandleArenaTeamPromoteToCaptainOpcode :: "arena_env \<Rightarrow> player \<Rightarrow> arena_server \<Rightarrow> arena_handler" where
  "HandleArenaTeamPromoteToCaptainOpcode env me s =
     on_member env me s (\<lambda>t n m.
       if at_captain t = am_guid m then Inr s
       else case SetCaptain (am_guid m) t s of
              Inl e \<Rightarrow> Inl e
            | Inr (t', s') \<Rightarrow> Inr (BroadcastEvent ERR_ARENA_TEAM_LEADER_CHANGED_SSS 0 (Some (pl_name me)) (Some n)
                                 (Some (at_name t')) t' (AddArenaTeam t' s')))"

section \<open>The weekly distribution of points\<close>

text \<open>\<open>HashMapHolder<Player>::Find\<close> is asked for the low guid, which is the guid of a player.\<close>

definition give_points :: "u32 \<times> u32 \<Rightarrow> arena_server \<Rightarrow> arena_server" where
  "give_points p s =
     (case FindPlayer (av_world s) (ucast (fst p)) True of
        Some player \<Rightarrow> emit (ModifyArenaPoints (pl_guid player) (snd p)) s
      | None \<Rightarrow> emit (ASql (AddPoints (fst p) (snd p))) s)"

definition finish_team :: "arena_team \<Rightarrow> arena_server \<Rightarrow> arena_server" where
  "finish_team t s = (let t = FinishWeek t in NotifyStatsChanged t (Arena_SaveToDB t (AddArenaTeam t s)))"

definition arena_points :: "arena_env \<Rightarrow> (u32 \<times> arena_team) list \<Rightarrow> (u32 \<times> u32) list" where
  "arena_points env teams = fold (\<lambda>p PlayerPoints. UpdateArenaPointsHelper env (snd p) PlayerPoints) teams []"

definition DistributeArenaPoints :: "arena_env \<Rightarrow> arena_server \<Rightarrow> arena_server" where
  "DistributeArenaPoints env s =
     (let s = emit (SendGlobalText ''Flushing Arena points based on team ratings, this may take a few minutes. Please stand by...'') s;
          s = emit (SendGlobalText ''Distributing arena points to players...'') s;
          s = fold give_points (arena_points env (av_teams s)) s;
          s = emit (SendGlobalText ''Finished setting arena points for online players.'') s;
          s = emit (SendGlobalText ''Modifying played count, arena points etc. for loaded arena teams, sending updated stats to online players...'') s;
          s = fold (\<lambda>p. finish_team (snd p)) (av_teams s) s;
          s = emit (SendGlobalText ''Modification done.'') s
      in emit (SendGlobalText ''Done flushing Arena points.'') s)"

end
