(* ===== verification/ArenaTeamLaws.thy ===== *)
theory ArenaTeamLaws
  imports ArenaTeam
begin

text \<open>
  What holds of the arena teams: the view of each operation on teams and player fields, the invariant
  of the server (teams under their ids, no player in two teams of a size, id fields of members in the world
  right, captains members) and its preservation by every step, disbanding, ratings and points, and
  three places where the code does not do what it means to.
\<close>

section \<open>What the operations change\<close>

lemma find_map_same: "(\<And>p. Q (f p) = Q p) \<Longrightarrow> find Q (map f xs) = map_option f (find Q xs)"
  by (induction xs) auto

lemma FindPlayer_set_arena_id [simp]:
  "FindPlayer (set_arena_id g k v w) h force =
     map_option (\<lambda>p. if pl_guid p = g then p\<lparr>pl_arena_team := (pl_arena_team p)(k := v)\<rparr> else p) (FindPlayer w h force)"
  by (auto simp: FindPlayer_def GetObjectInWorld_def set_arena_id_def find_map_same split: option.split)

lemma set_arena_id_twice [simp]: "set_arena_id g k v (set_arena_id g k v w) = set_arena_id g k v w"
  by (simp add: set_arena_id_def)

lemma emit_simps [simp]:
  "av_teams (emit a s) = av_teams s" "av_world (emit a s) = av_world s" "av_invited (emit a s) = av_invited s"
  "av_next_id (emit a s) = av_next_id s" "av_log (emit a s) = av_log s @ [a]"
  by (simp_all add: emit_def)

lemma emits_simps [simp]:
  "av_teams (emits as s) = av_teams s" "av_world (emits as s) = av_world s" "av_invited (emits as s) = av_invited s"
  "av_next_id (emits as s) = av_next_id s"
  unfolding emits_def by (induction as arbitrary: s) auto

lemma set_info_simps [simp]:
  "av_teams (SetArenaTeamInfoField g k f v s) = av_teams s"
  "av_invited (SetArenaTeamInfoField g k f v s) = av_invited s"
  "av_next_id (SetArenaTeamInfoField g k f v s) = av_next_id s"
  "av_world (SetArenaTeamInfoField g k f v s) =
     (if f = ARENA_TEAM_ID then set_arena_id g k v (av_world s) else av_world s)"
  by (simp_all add: SetArenaTeamInfoField_def Let_def)

lemma sender_simps [simp]:
  "av_teams (BroadcastEvent e g a b c t s) = av_teams s" "av_world (BroadcastEvent e g a b c t s) = av_world s"
  "av_next_id (BroadcastEvent e g a b c t s) = av_next_id s"
  "av_teams (SendArenaTeamCommandResult g x y z u s) = av_teams s"
  "av_world (SendArenaTeamCommandResult g x y z u s) = av_world s"
  "av_next_id (SendArenaTeamCommandResult g x y z u s) = av_next_id s"
  "av_teams (SetArenaTeamIdInvited g v s) = av_teams s" "av_world (SetArenaTeamIdInvited g v s) = av_world s"
  "av_next_id (SetArenaTeamIdInvited g v s) = av_next_id s"
  by (simp_all add: BroadcastEvent_def Arena_BroadcastPacket_def SendArenaTeamCommandResult_def SetArenaTeamIdInvited_def)

lemma leave_queues_simps [simp]:
  "av_teams (leave_queues env g qs s) = av_teams s" "av_world (leave_queues env g qs s) = av_world s"
  "av_next_id (leave_queues env g qs s) = av_next_id s"
  by (induction env g qs s rule: leave_queues.induct) (auto split: option.split)

lemma team_map_simps [simp]:
  "av_world (AddArenaTeam t s) = av_world s" "av_world (RemoveArenaTeam i s) = av_world s"
  "av_next_id (AddArenaTeam t s) = av_next_id s" "av_next_id (RemoveArenaTeam i s) = av_next_id s"
  "av_teams (AddArenaTeam t s) = sm_set (at_id t) t (av_teams s)"
  "av_teams (RemoveArenaTeam i s) = sm_erase i (av_teams s)"
  by (simp_all add: AddArenaTeam_def RemoveArenaTeam_def)

definition online :: "guid \<Rightarrow> arena_server \<Rightarrow> bool" where
  "online g s \<longleftrightarrow> GetPlayer (av_world s) g \<noteq> None"

lemma DelMember_view:
  "fst (DelMember env g t s) = t\<lparr>at_members := remove_first g (at_members t)\<rparr>"
  "av_teams (snd (DelMember env g t s)) = av_teams s"
  "av_next_id (snd (DelMember env g t s)) = av_next_id s"
  "av_world (snd (DelMember env g t s)) =
     (if online g s then set_arena_id g (GetSlot t) 0 (av_world s) else av_world s)"
  by (auto simp: DelMember_def Let_def SetInArenaTeam_def online_def GetSlot_def split: option.split)

lemma AddMember_view:
  assumes "AddMember env g t s = (True, t', s')"
  shows "length (at_members t) < unat (at_type t * 2)"
    and "\<exists>n c. admission env g t s = Some (n, c) \<and> t' = t\<lparr>at_members := at_members t @ [new_member g n c]\<rparr>"
    and "av_teams s' = av_teams s" and "av_next_id s' = av_next_id s"
    and "av_world s' = (if online g s then set_arena_id g (GetSlot t) (at_id t) (av_world s) else av_world s)"
  using assms
  by (auto simp: AddMember_def Let_def SetInArenaTeam_def online_def GetSlot_def split: option.splits if_splits)

lemma AddMember_fail: "AddMember env g t s = (False, t', s') \<Longrightarrow> t' = t \<and> s' = s"
  by (auto simp: AddMember_def Let_def split: if_splits option.splits)

lemma online_set_arena_id [simp]: "(FindPlayer (set_arena_id g k v w) h f \<noteq> None) = (FindPlayer w h f \<noteq> None)"
  by simp

lemma my_arena_id_view:
  "av_world s' = set_arena_id g k v (av_world s) \<Longrightarrow>
     my_arena_id h l s' = (if h = g \<and> l = k \<and> online g s then v else my_arena_id h l s)"
  using GetPlayer_guid[of "av_world s" h False]
  by (cases "GetPlayer (av_world s) h") (auto simp: my_arena_id_def online_def)

lemma my_arena_id_same: "av_world s' = av_world s \<Longrightarrow> my_arena_id h l s' = my_arena_id h l s"
  by (simp add: my_arena_id_def)

lemma online_same: "av_world s' = av_world s \<Longrightarrow> online h s' = online h s"
  by (simp add: online_def)

lemma online_view: "av_world s' = set_arena_id g k v (av_world s) \<Longrightarrow> online h s' = online h s"
  by (simp add: online_def)

section \<open>The invariant\<close>

definition guids :: "arena_team \<Rightarrow> guid list" where
  "guids t = map am_guid (at_members t)"

definition team_ok :: "arena_team \<Rightarrow> bool" where
  "team_ok t \<longleftrightarrow> at_type t \<in> {2, 3, 5} \<and> distinct (guids t) \<and> length (at_members t) \<le> 2 * unat (at_type t)"

text \<open>Teams are under their id, no player is in two teams of one size, and the id field of every
  member in the world names the team.\<close>

definition arena_core :: "arena_server \<Rightarrow> bool" where
  "arena_core s \<longleftrightarrow> sm_wf (av_teams s)
     \<and> (\<forall>i t. sm_find i (av_teams s) = Some t \<longrightarrow> at_id t = i \<and> i \<noteq> 0 \<and> team_ok t)
     \<and> (\<forall>i j t u g. sm_find i (av_teams s) = Some t \<longrightarrow> sm_find j (av_teams s) = Some u \<longrightarrow>
          at_type t = at_type u \<longrightarrow> g \<in> set (guids t) \<longrightarrow> g \<in> set (guids u) \<longrightarrow> i = j)
     \<and> (\<forall>i t g. sm_find i (av_teams s) = Some t \<longrightarrow> g \<in> set (guids t) \<longrightarrow> online g s \<longrightarrow>
          my_arena_id g (GetSlot t) s = i)"

definition captains_in :: "arena_server \<Rightarrow> bool" where
  "captains_in s \<longleftrightarrow> (\<forall>i t. sm_find i (av_teams s) = Some t \<longrightarrow> at_captain t \<in> set (guids t))"

definition arena_inv :: "arena_server \<Rightarrow> bool" where
  "arena_inv s \<longleftrightarrow> arena_core s \<and> captains_in s"

lemma core_same:
  "arena_core s \<Longrightarrow> av_teams s' = av_teams s \<Longrightarrow> av_world s' = av_world s \<Longrightarrow> arena_core s'"
  unfolding arena_core_def by (simp add: my_arena_id_same[of s' s] online_same[of s' s])

lemma inv_same:
  "arena_inv s \<Longrightarrow> av_teams s' = av_teams s \<Longrightarrow> av_world s' = av_world s \<Longrightarrow> arena_inv s'"
  unfolding arena_inv_def captains_in_def using core_same[of s s'] by simp

lemma GetSlot_inj: "at_type t \<in> {2, 3, 5} \<Longrightarrow> at_type u \<in> {2, 3, 5} \<Longrightarrow> GetSlot t = GetSlot u \<Longrightarrow> at_type t = at_type u"
  unfolding GetSlot_def GetSlotByType_def by (elim insertE emptyE) simp_all

lemma set_remove_first: "distinct (map am_guid ms) \<Longrightarrow> am_guid ` set (remove_first g ms) = am_guid ` set ms - {g}"
  by (induction ms) (auto, metis image_eqI)

lemma distinct_remove_first: "distinct (map am_guid ms) \<Longrightarrow> distinct (map am_guid (remove_first g ms))"
  by (induction ms) (auto simp: set_remove_first)

lemma length_remove_first: "length (remove_first g ms) \<le> length ms"
  by (induction ms) auto

lemma coreD:
  assumes "arena_core s" "sm_find i (av_teams s) = Some t"
  shows "at_id t = i" "i \<noteq> 0" "team_ok t"
    "\<And>j u g. sm_find j (av_teams s) = Some u \<Longrightarrow> j \<noteq> i \<Longrightarrow> at_type u = at_type t \<Longrightarrow> g \<in> set (guids t) \<Longrightarrow> g \<notin> set (guids u)"
    "\<And>g. g \<in> set (guids t) \<Longrightarrow> online g s \<Longrightarrow> my_arena_id g (GetSlot t) s = i"
proof -
  have a: "\<And>i t. sm_find i (av_teams s) = Some t \<Longrightarrow> at_id t = i \<and> i \<noteq> 0 \<and> team_ok t"
    and b: "\<And>i j t u g. sm_find i (av_teams s) = Some t \<Longrightarrow> sm_find j (av_teams s) = Some u \<Longrightarrow>
      at_type t = at_type u \<Longrightarrow> g \<in> set (guids t) \<Longrightarrow> g \<in> set (guids u) \<Longrightarrow> i = j"
    and c: "\<And>i t g. sm_find i (av_teams s) = Some t \<Longrightarrow> g \<in> set (guids t) \<Longrightarrow> online g s \<Longrightarrow>
      my_arena_id g (GetSlot t) s = i"
    using assms(1) unfolding arena_core_def by simp_all
  show "at_id t = i" "i \<noteq> 0" "team_ok t" using a[OF assms(2)] by simp_all
  show "g \<notin> set (guids u)"
    if "sm_find j (av_teams s) = Some u" "j \<noteq> i" "at_type u = at_type t" "g \<in> set (guids t)" for j u g
    using b[OF assms(2) that(1) that(3)[symmetric] that(4)] that(2) by blast
  show "my_arena_id g (GetSlot t) s = i" if "g \<in> set (guids t)" "online g s" for g
    by (rule c[OF assms(2) that])
qed

lemma core_put:
  assumes core: "arena_core s" and teams: "av_teams s' = sm_set i t' (av_teams s)"
    and t': "team_ok t'" "at_id t' = i" "i \<noteq> 0"
    and alone: "\<And>j u g. sm_find j (av_teams s) = Some u \<Longrightarrow> j \<noteq> i \<Longrightarrow> at_type u = at_type t' \<Longrightarrow>
      g \<in> set (guids t') \<Longrightarrow> g \<notin> set (guids u)"
    and own: "\<And>g. g \<in> set (guids t') \<Longrightarrow> online g s \<Longrightarrow> my_arena_id g (GetSlot t') s' = i"
    and rest: "\<And>j u g. sm_find j (av_teams s) = Some u \<Longrightarrow> j \<noteq> i \<Longrightarrow> g \<in> set (guids u) \<Longrightarrow>
      my_arena_id g (GetSlot u) s' = my_arena_id g (GetSlot u) s"
    and on: "\<And>g. online g s' = online g s"
  shows "arena_core s'"
proof -
  have find: "sm_find j (av_teams s') = (if j = i then Some t' else sm_find j (av_teams s))" for j
    by (simp add: teams sm.find_put)
  have wf: "sm_wf (av_teams s')" using core by (simp add: teams sm.wf_put arena_core_def)
  have ids: "at_id u = j \<and> j \<noteq> 0 \<and> team_ok u" if "sm_find j (av_teams s') = Some u" for j u
    using that coreD(1-3)[OF core, of j u] t' by (cases "j = i") (simp_all add: find)
  have own': "my_arena_id g (GetSlot u) s' = j"
    if "sm_find j (av_teams s') = Some u" "g \<in> set (guids u)" "online g s'" for j u g
    using that coreD(5)[OF core, of j u g] own[of g] rest[of j u g] on[of g] by (cases "j = i") (simp_all add: find)
  have one: "j = k" if u: "sm_find j (av_teams s') = Some u" and v: "sm_find k (av_teams s') = Some v"
      and g: "at_type u = at_type v" "g \<in> set (guids u)" "g \<in> set (guids v)" for j k u v g
  proof (rule ccontr)
    assume jk: "j \<noteq> k"
    consider "j = i" | "k = i" | "j \<noteq> i" "k \<noteq> i" by blast
    then show False
    proof cases
      case 1 then show False using jk u v g alone[of k v g] by (simp add: find)
    next
      case 2 then show False using jk u v g alone[of j u g] by (simp add: find)
    next
      case 3 then show False using jk u v g coreD(4)[OF core, of j u k v g] by (simp add: find)
    qed
  qed
  show ?thesis
    unfolding arena_core_def using wf ids own' one by blast
qed

lemma slot_differs:
  assumes "arena_core s" "sm_find i (av_teams s) = Some t" "sm_find j (av_teams s) = Some u"
    "at_type u \<noteq> at_type t"
  shows "GetSlot u \<noteq> GetSlot t"
  using coreD(3)[OF assms(1,2)] coreD(3)[OF assms(1,3)] assms(4) GetSlot_inj unfolding team_ok_def by metis

text \<open>Writing the id field of a player leaves the members of other teams alone when he is a member of
  the written team or of no team of its size.\<close>

lemma core_del:
  assumes core: "arena_core s" and t: "sm_find i (av_teams s) = Some t" and g: "g \<in> set (guids t)"
    and del: "DelMember env g t s = (t', s')"
  shows "arena_core (AddArenaTeam t' s') \<and> guids t' = remove1 g (guids t) \<and> at_id t' = i
    \<and> (\<forall>h. online h s' = online h s) \<and> av_teams s' = av_teams s"
proof -
  have tv: "t' = t\<lparr>at_members := remove_first g (at_members t)\<rparr>" and ts: "av_teams s' = av_teams s"
    and w: "av_world s' = (if online g s then set_arena_id g (GetSlot t) 0 (av_world s) else av_world s)"
    using DelMember_view[of env g t s] del by simp_all
  have dist: "distinct (guids t)" using coreD(3)[OF core t] by (simp add: team_ok_def)
  have "map am_guid (remove_first g ms) = remove1 g (map am_guid ms)" for ms by (induction ms) auto
  then have rem: "guids t' = remove1 g (guids t)" by (simp add: tv guids_def)
  have on: "online h s' = online h s" for h by (simp add: online_def w)
  have idv: "my_arena_id h k s' = (if h = g \<and> k = GetSlot t \<and> online g s then 0 else my_arena_id h k s)" for h k
    using w my_arena_id_view[of s' g "GetSlot t" 0 s h k] my_arena_id_same[of s' s h k]
    by (cases "online g s") simp_all
  have slot: "GetSlot t' = GetSlot t" "at_type t' = at_type t" "at_id t' = i"
    using coreD(1)[OF core t] by (simp_all add: tv GetSlot_def)
  have "arena_core (AddArenaTeam t' s')"
  proof (rule core_put[OF core, of _ i t'])
    show "av_teams (AddArenaTeam t' s') = sm_set i t' (av_teams s)" using ts slot by simp
    show "team_ok t'"
      using coreD(3)[OF core t] length_remove_first[of g "at_members t"]
      by (auto simp: team_ok_def rem) (simp_all add: tv)
    show "at_id t' = i" "i \<noteq> 0" using slot coreD(2)[OF core t] by simp_all
    fix j u h
    show "online h (AddArenaTeam t' s') = online h s" using on by (simp add: online_def)
    show "my_arena_id h (GetSlot t') (AddArenaTeam t' s') = i" if "h \<in> set (guids t')" "online h s"
    proof -
      have "h \<noteq> g" "h \<in> set (guids t)" using that(1) dist by (simp_all add: rem)
      then show ?thesis using coreD(5)[OF core t] that(2) idv[of h "GetSlot t"]
        by (simp add: slot my_arena_id_same[of "AddArenaTeam t' s'" s'])
    qed
    assume u: "sm_find j (av_teams s) = Some u" and j: "j \<noteq> i"
    show "h \<notin> set (guids u)" if "at_type u = at_type t'" "h \<in> set (guids t')"
      using coreD(4)[OF core t u j] that dist by (simp add: slot rem)
    show "my_arena_id h (GetSlot u) (AddArenaTeam t' s') = my_arena_id h (GetSlot u) s" if "h \<in> set (guids u)"
    proof -
      have "h \<noteq> g \<or> GetSlot u \<noteq> GetSlot t"
        using slot_differs[OF core t u] coreD(4)[OF core t u j _ g] that by blast
      then show ?thesis using idv[of h "GetSlot u"] by (auto simp: my_arena_id_same[of "AddArenaTeam t' s'" s'])
    qed
  qed
  then show ?thesis using rem slot on ts by blast
qed

text \<open>A player is free for a team when no team of its size has him. A player in the world whose id field
  for the size is zero is free.\<close>

definition free_for :: "guid \<Rightarrow> arena_team \<Rightarrow> arena_server \<Rightarrow> bool" where
  "free_for g t s \<longleftrightarrow>
     (\<forall>j u. sm_find j (av_teams s) = Some u \<longrightarrow> at_type u = at_type t \<longrightarrow> g \<notin> set (guids u))"

lemma online_free:
  assumes "arena_core s" "online g s" "my_arena_id g (GetSlot t) s = 0"
  shows "free_for g t s"
  unfolding free_for_def
proof (intro allI impI notI)
  fix j u assume u: "sm_find j (av_teams s) = Some u" and ty: "at_type u = at_type t" and g: "g \<in> set (guids u)"
  have "GetSlot u = GetSlot t" using ty by (simp add: GetSlot_def)
  then show False using coreD(5)[OF assms(1) u g assms(2)] coreD(2)[OF assms(1) u] assms(3) by simp
qed

lemma unat_twice: "ty \<in> {2, 3, 5} \<Longrightarrow> unat ((ty :: u32) * 2) = 2 * unat ty"
  by auto

lemma core_add:
  assumes core: "arena_core s" and ok: "team_ok t" and i: "at_id t = i" "i \<noteq> 0"
    and at: "sm_find i (av_teams s) = Some t \<or> sm_find i (av_teams s) = None \<and> guids t = []"
    and free: "free_for g t s" and add: "AddMember env g t s = (True, t', s')"
  shows "arena_core (AddArenaTeam t' s') \<and> guids t' = guids t @ [g] \<and> at_id t' = i \<and> at_captain t' = at_captain t
    \<and> at_type t' = at_type t \<and> av_teams s' = av_teams s"
proof -
  obtain n c where tv: "t' = t\<lparr>at_members := at_members t @ [new_member g n c]\<rparr>"
    using AddMember_view(2)[OF add] by blast
  have ts: "av_teams s' = av_teams s" using AddMember_view(3)[OF add] .
  have w: "av_world s' = (if online g s then set_arena_id g (GetSlot t) i (av_world s) else av_world s)"
    using AddMember_view(5)[OF add] i by simp
  have on: "online h s' = online h s" for h by (simp add: online_def w)
  have idv: "my_arena_id h k s' = (if h = g \<and> k = GetSlot t \<and> online g s then i else my_arena_id h k s)" for h k
    using w my_arena_id_view[of s' g "GetSlot t" i s h k] my_arena_id_same[of s' s h k]
    by (cases "online g s") simp_all
  have gs: "guids t' = guids t @ [g]" by (simp add: tv guids_def new_member_def)
  have slot: "GetSlot t' = GetSlot t" "at_type t' = at_type t" "at_id t' = i" "at_captain t' = at_captain t"
    using i by (simp_all add: tv GetSlot_def)
  have new: "g \<notin> set (guids t)" using at free by (auto simp: free_for_def)
  have "arena_core (AddArenaTeam t' s')"
  proof (rule core_put[OF core, of _ i t'])
    show "av_teams (AddArenaTeam t' s') = sm_set i t' (av_teams s)" using ts slot by simp
    show "team_ok t'"
    proof -
      have "length (at_members t') \<le> 2 * unat (at_type t)"
        using AddMember_view(1)[OF add] ok unat_twice[of "at_type t"] by (simp add: tv team_ok_def)
      then show ?thesis using ok new by (simp add: team_ok_def gs slot)
    qed
    show "at_id t' = i" "i \<noteq> 0" using slot i by simp_all
    fix j u h
    show "online h (AddArenaTeam t' s') = online h s" using on by (simp add: online_def)
    show "my_arena_id h (GetSlot t') (AddArenaTeam t' s') = i" if h: "h \<in> set (guids t')" "online h s"
    proof (cases "h = g")
      case True
      then show ?thesis using h(2) idv[of h "GetSlot t"]
        by (simp add: slot my_arena_id_same[of "AddArenaTeam t' s'" s'])
    next
      case False
      then have "h \<in> set (guids t)" using h(1) by (simp add: gs)
      then have "sm_find i (av_teams s) = Some t" using at by auto
      then show ?thesis using coreD(5)[OF core _ \<open>h \<in> set (guids t)\<close> h(2)] idv[of h "GetSlot t"] False
        by (simp add: slot my_arena_id_same[of "AddArenaTeam t' s'" s'])
    qed
    assume u: "sm_find j (av_teams s) = Some u" and j: "j \<noteq> i"
    show "h \<notin> set (guids u)" if h: "at_type u = at_type t'" "h \<in> set (guids t')"
    proof (cases "h = g")
      case True then show ?thesis using free u h(1) by (simp add: free_for_def slot)
    next
      case False
      then have "h \<in> set (guids t)" using h(2) by (simp add: gs)
      then show ?thesis using at coreD(4)[OF core _ u j] h(1) by (auto simp: slot)
    qed
    show "my_arena_id h (GetSlot u) (AddArenaTeam t' s') = my_arena_id h (GetSlot u) s" if h: "h \<in> set (guids u)"
    proof -
      have "h \<noteq> g \<or> GetSlot u \<noteq> GetSlot t"
      proof (cases "h = g")
        case True
        then have "at_type u \<noteq> at_type t" using free u h by (auto simp: free_for_def)
        then show ?thesis using GetSlot_inj[of u t] ok coreD(3)[OF core u] by (auto simp: team_ok_def)
      qed simp
      then show ?thesis using idv[of h "GetSlot u"] by (auto simp: my_arena_id_same[of "AddArenaTeam t' s'" s'])
    qed
  qed
  then show ?thesis using gs slot ts by blast
qed

lemma core_replace:
  assumes core: "arena_core s" and t: "sm_find i (av_teams s) = Some t"
    and same: "at_id t' = at_id t" "at_type t' = at_type t" "guids t' = guids t"
    and s': "av_teams s' = av_teams s" "av_world s' = av_world s"
  shows "arena_core (AddArenaTeam t' s')"
proof (rule core_put[OF core, of _ i t'])
  have slot: "GetSlot t' = GetSlot t" using same by (simp add: GetSlot_def)
  have i: "at_id t = i" using coreD(1)[OF core t] .
  show "av_teams (AddArenaTeam t' s') = sm_set i t' (av_teams s)" using s' same i by simp
  have "length (at_members t') = length (at_members t)" using same(3) unfolding guids_def by (metis length_map)
  then show "team_ok t'" using coreD(3)[OF core t] same by (simp add: team_ok_def)
  show "at_id t' = i" "i \<noteq> 0" using same i coreD(2)[OF core t] by simp_all
  fix j u h
  show "online h (AddArenaTeam t' s') = online h s" using s' by (simp add: online_def)
  have idv: "my_arena_id h k (AddArenaTeam t' s') = my_arena_id h k s" for h k
    using s' my_arena_id_same[of "AddArenaTeam t' s'" s h k] by simp
  show "my_arena_id h (GetSlot t') (AddArenaTeam t' s') = i" if "h \<in> set (guids t')" "online h s"
    using coreD(5)[OF core t] that same idv slot by simp
  show "my_arena_id h (GetSlot u) (AddArenaTeam t' s') = my_arena_id h (GetSlot u) s" by (rule idv)
  assume "sm_find j (av_teams s) = Some u" "j \<noteq> i" "at_type u = at_type t'" "h \<in> set (guids t')"
  then show "h \<notin> set (guids u)" using coreD(4)[OF core t] same by simp
qed

section \<open>Disbanding\<close>

lemma disband_loop_view:
  "disband_loop env t s = (t', s') \<Longrightarrow> t' = t\<lparr>at_members := []\<rparr> \<and> av_teams s' = av_teams s \<and> av_next_id s' = av_next_id s
     \<and> (\<forall>h. online h s' = online h s)
     \<and> (\<forall>h k. my_arena_id h k s' = (if h \<in> set (guids t) \<and> k = GetSlot t \<and> online h s then 0 else my_arena_id h k s))"
proof (induction env t s arbitrary: t' s' rule: disband_loop.induct)
  case (1 env t s)
  show ?case
  proof (cases "at_members t")
    case Nil
    then have "t\<lparr>at_members := []\<rparr> = t" by simp
    then show ?thesis using 1(2) Nil by (simp add: disband_loop.simps[of env t s] guids_def)
  next
    case (Cons m ms)
    obtain t1 s1 where d: "DelMember env (am_guid m) t s = (t1, s1)" by (metis surj_pair)
    have v: "t1 = t\<lparr>at_members := ms\<rparr>" "av_teams s1 = av_teams s" "av_next_id s1 = av_next_id s"
      and w: "av_world s1 = (if online (am_guid m) s then set_arena_id (am_guid m) (GetSlot t) 0 (av_world s) else av_world s)"
      using DelMember_view[of env "am_guid m" t s] d Cons by simp_all
    have on: "online h s1 = online h s" for h by (simp add: online_def w)
    have idv: "my_arena_id h k s1 = (if h = am_guid m \<and> k = GetSlot t \<and> online (am_guid m) s then 0 else my_arena_id h k s)" for h k
      using w my_arena_id_view[of s1 "am_guid m" "GetSlot t" 0 s h k] my_arena_id_same[of s1 s h k]
      by (cases "online (am_guid m) s") simp_all
    have "disband_loop env t1 s1 = (t', s')" using 1(2) Cons d by (simp add: disband_loop.simps[of env t s])
    note ih = 1(1)[OF Cons d[symmetric] this]
    have g: "guids t = am_guid m # guids t1" "GetSlot t1 = GetSlot t" "t1\<lparr>at_members := []\<rparr> = t\<lparr>at_members := []\<rparr>"
      using v Cons by (simp_all add: guids_def GetSlot_def)
    have "my_arena_id h k s' = (if h \<in> set (guids t) \<and> k = GetSlot t \<and> online h s then 0 else my_arena_id h k s)" for h k
      using ih on[of h] idv[of h k] by (cases "h = am_guid m"; cases "k = GetSlot t") (simp_all add: g(1,2))
    then show ?thesis using ih v(2,3) on by (simp add: g(3))
  qed
qed

lemma Disband_view:
  assumes "Disband env pl t s = (t', s')"
  shows "at_members t' = []" and "av_teams s' = sm_erase (at_id t) (av_teams s)" and "av_next_id s' = av_next_id s"
    and "online h s' = online h s"
    and "my_arena_id h k s' = (if h \<in> set (guids t) \<and> k = GetSlot t \<and> online h s then 0 else my_arena_id h k s)"
proof -
  define s0 where "s0 = (case pl of None \<Rightarrow> s | Some pl \<Rightarrow>
    BroadcastEvent ERR_ARENA_TEAM_DISBANDED_S 0 (Some (pl_name pl)) (Some (at_name t)) None t s)"
  have s0: "av_teams s0 = av_teams s" "av_world s0 = av_world s" "av_next_id s0 = av_next_id s"
    by (simp_all add: s0_def split: option.split)
  obtain t1 s1 where l: "disband_loop env t s0 = (t1, s1)" by (metis surj_pair)
  note v = disband_loop_view[OF l]
  have s': "t' = t1" "av_teams s' = sm_erase (at_id t) (av_teams s1)" "av_world s' = av_world s1" "av_next_id s' = av_next_id s1"
    using assms l v by (auto simp: Disband_def Let_def s0_def)
  show "at_members t' = []" "av_teams s' = sm_erase (at_id t) (av_teams s)" "av_next_id s' = av_next_id s"
    using v s' s0 by simp_all
  show "online h s' = online h s" using v s' s0 by (simp add: online_same[of s' s1] online_same[of s0 s])
  show "my_arena_id h k s' = (if h \<in> set (guids t) \<and> k = GetSlot t \<and> online h s then 0 else my_arena_id h k s)"
    using v s' s0 by (simp add: my_arena_id_same[of s' s1] my_arena_id_same[of s0 s] online_same[of s0 s])
qed

lemma core_disband:
  assumes core: "arena_core s" and t: "sm_find i (av_teams s) = Some t" and d: "Disband env pl t s = (t', s')"
  shows "arena_core s'"
proof -
  have i: "at_id t = i" using coreD(1)[OF core t] .
  have wf: "sm_wf (av_teams s)" using core by (simp add: arena_core_def)
  have find: "sm_find j (av_teams s') = (if j = i then None else sm_find j (av_teams s))" for j
    using wf by (simp add: Disband_view(2)[OF d] i sm.find_del)
  have keep: "my_arena_id g (GetSlot u) s' = j"
    if u: "sm_find j (av_teams s) = Some u" and j: "j \<noteq> i" and g: "g \<in> set (guids u)" "online g s" for j u g
  proof -
    have "g \<notin> set (guids t) \<or> GetSlot u \<noteq> GetSlot t"
      using slot_differs[OF core t u] coreD(4)[OF core t u j _ ] g(1) by blast
    then show ?thesis using coreD(5)[OF core u g] by (auto simp: Disband_view(5)[OF d])
  qed
  show ?thesis
    unfolding arena_core_def
  proof (intro conjI allI impI)
    show "sm_wf (av_teams s')" using wf by (simp add: Disband_view(2)[OF d] sm.wf_del)
  next
    fix j u assume "sm_find j (av_teams s') = Some u"
    then have u: "sm_find j (av_teams s) = Some u" by (simp add: find split: if_splits)
    show "at_id u = j" "j \<noteq> 0" "team_ok u" using coreD(1-3)[OF core u] by simp_all
  next
    fix j k u v g assume "sm_find j (av_teams s') = Some u" "sm_find k (av_teams s') = Some v"
      "at_type u = at_type v" "g \<in> set (guids u)" "g \<in> set (guids v)"
    then show "j = k" using coreD(4)[OF core, of j u k v g] by (auto simp: find split: if_splits)
  next
    fix j u g assume "sm_find j (av_teams s') = Some u" and g: "g \<in> set (guids u)" "online g s'"
    then have u: "sm_find j (av_teams s) = Some u" "j \<noteq> i" by (simp_all add: find split: if_splits)
    show "my_arena_id g (GetSlot u) s' = j"
      using keep[OF u g(1)] g(2) by (simp add: Disband_view(4)[OF d])
  qed
qed

section \<open>Every operation keeps the invariant\<close>

lemma arena_invD:
  assumes "arena_inv s" "sm_find i (av_teams s) = Some t"
  shows "arena_core s" "at_captain t \<in> set (guids t)" "team_ok t" "at_id t = i" "i \<noteq> 0"
  using assms coreD(1-3)[of s i t] by (auto simp: arena_inv_def captains_in_def)

text \<open>A team stored under its id keeps the captains in when its captain is a member.\<close>

lemma captains_put:
  "captains_in s \<Longrightarrow> av_teams s' = av_teams s \<Longrightarrow> at_captain t' \<in> set (guids t') \<Longrightarrow> captains_in (AddArenaTeam t' s')"
  by (auto simp: captains_in_def sm.find_put)

lemma inv_add:
  assumes inv: "arena_inv s" and t: "sm_find i (av_teams s) = Some t" and free: "free_for g t s"
    and add: "AddMember env g t s = (True, t', s')"
  shows "arena_inv (AddArenaTeam t' s')"
proof -
  note d = arena_invD[OF inv t]
  note a = core_add[OF d(1) d(3) d(4) d(5) _ free add]
  show ?thesis
    using a t d(2) captains_put[of s s' t'] inv by (simp add: arena_inv_def)
qed

lemma inv_del:
  assumes inv: "arena_inv s" and t: "sm_find i (av_teams s) = Some t" and g: "g \<in> set (guids t)"
    and cap: "g \<noteq> at_captain t" and del: "DelMember env g t s = (t', s')"
  shows "arena_inv (AddArenaTeam t' s')"
proof -
  note d = arena_invD[OF inv t]
  note a = core_del[OF d(1) t g del]
  have "at_captain t' = at_captain t" using DelMember_view(1)[of env g t s] del by simp
  then show ?thesis
    using a d(2) cap captains_put[of s s' t'] inv by (simp add: arena_inv_def)
qed

lemma inv_replace:
  assumes inv: "arena_inv s" and t: "sm_find i (av_teams s) = Some t"
    and same: "at_id t' = at_id t" "at_type t' = at_type t" "guids t' = guids t" "at_captain t' \<in> set (guids t)"
    and s': "av_teams s' = av_teams s" "av_world s' = av_world s"
  shows "arena_inv (AddArenaTeam t' s')"
  using core_replace[OF arena_invD(1)[OF inv t] t same(1-3) s'] captains_put[of s s' t'] same s' inv
  by (simp add: arena_inv_def)

lemma inv_disband:
  assumes inv: "arena_inv s" and t: "sm_find i (av_teams s) = Some t" and d: "Disband env pl t s = (t', s')"
  shows "arena_inv s'"
proof -
  have "captains_in s'"
    using inv t Disband_view(2)[OF d] by (auto simp: arena_inv_def captains_in_def arena_core_def sm.find_del split: if_splits)
  then show ?thesis using core_disband[OF arena_invD(1)[OF inv t] t d] by (simp add: arena_inv_def)
qed

lemma HaveMember_guids: "HaveMember g t \<longleftrightarrow> g \<in> set (guids t)"
  by (auto simp: HaveMember_def guids_def list_ex_iff)

lemma find_in_guids: "find P (at_members t) = Some m \<Longrightarrow> am_guid m \<in> set (guids t)"
  by (auto simp: guids_def find_Some_iff)

lemma log_world [simp]: "av_world (s\<lparr>av_log := l\<rparr>) = av_world s"
  by simp

lemma packet_simps [simp]:
  "av_teams (Arena_Query g t s) = av_teams s" "av_world (Arena_Query g t s) = av_world s"
  "av_teams (Arena_Stats g t s) = av_teams s" "av_world (Arena_Stats g t s) = av_world s"
  "av_teams (Roster g t s) = av_teams s" "av_world (Roster g t s) = av_world s"
  "av_teams (InspectStats g h t s) = av_teams s" "av_world (InspectStats g h t s) = av_world s"
  by (simp_all add: Arena_Query_def Arena_Stats_def Let_def Roster_def InspectStats_def split: option.split)

lemma query_inv: "arena_inv s \<Longrightarrow> HandleArenaTeamQueryOpcode me s b = Inr (Inr s') \<Longrightarrow> arena_inv s'"
  by (erule inv_same) (auto simp: HandleArenaTeamQueryOpcode_def rd_Inr split: option.splits)

lemma roster_inv: "arena_inv s \<Longrightarrow> HandleArenaTeamRosterOpcode me s b = Inr (Inr s') \<Longrightarrow> arena_inv s'"
  by (erule inv_same) (auto simp: HandleArenaTeamRosterOpcode_def rd_Inr split: option.splits)

lemma invite_view: "av_teams (invite env me i n s) = av_teams s \<and> av_world (invite env me i n s) = av_world s"
  by (simp add: invite_def Let_def split: option.split)

lemma invite_inv: "arena_inv s \<Longrightarrow> HandleArenaTeamAddMemberOpcode env me s b = Inr (Inr s') \<Longrightarrow> arena_inv s'"
  by (erule inv_same) (auto simp: HandleArenaTeamAddMemberOpcode_def rd_Inr invite_view split: option.splits if_splits)

lemma decline_inv: "arena_inv s \<Longrightarrow> HandleArenaTeamInviteDeclineOpcode me s b = Inr (Inr s') \<Longrightarrow> arena_inv s'"
  by (erule inv_same) (auto simp: HandleArenaTeamInviteDeclineOpcode_def)

lemma fold_keeps: "(\<And>x s. x \<in> set xs \<Longrightarrow> P s \<Longrightarrow> P (f x s)) \<Longrightarrow> P s \<Longrightarrow> P (fold f xs s)"
  by (induction xs arbitrary: s) auto

lemma inspect_slots_view:
  "av_teams (inspect_slots me pl s) = av_teams s \<and> av_world (inspect_slots me pl s) = av_world s"
  unfolding inspect_slots_def
  by (rule fold_keeps[where P = "\<lambda>x. av_teams x = av_teams s \<and> av_world x = av_world s"])
     (simp_all add: Let_def split: option.split)

lemma inspect_inv: "arena_inv s \<Longrightarrow> HandleInspectArenaStatsOpcode env me s b = Inr (Inr s') \<Longrightarrow> arena_inv s'"
  by (erule inv_same) (auto simp: HandleInspectArenaStatsOpcode_def rd_Inr inspect_slots_view split: option.splits if_splits)

lemma accept_inv:
  assumes inv: "arena_inv s" and me: "online (pl_guid me) s"
    and h: "HandleArenaTeamInviteAcceptOpcode env me s b = Inr (Inr s')"
  shows "arena_inv s'"
proof (cases "GetArenaTeamById (av_invited s (pl_guid me)) s")
  case None
  then show ?thesis using h inv by (simp add: HandleArenaTeamInviteAcceptOpcode_def)
next
  case (Some t)
  then have t: "sm_find (av_invited s (pl_guid me)) (av_teams s) = Some t" by (simp add: GetArenaTeamById_def)
  obtain ok t1 s1 where a: "AddMember env (pl_guid me) t s = (ok, t1, s1)" by (metis surj_pair)
  note h' = h[unfolded HandleArenaTeamInviteAcceptOpcode_def Some option.case Let_def a prod.case sum.inject]
  show ?thesis
  proof (cases "my_arena_id (pl_guid me) (GetSlot t) s = 0 \<and> ok
      \<and> \<not> (\<not> ae_two_side_guild env \<and> pl_team me \<noteq> ae_db_side env (at_captain t))")
    case True
    have "free_for (pl_guid me) t s" using online_free[OF arena_invD(1)[OF inv t] me] True by blast
    moreover have "AddMember env (pl_guid me) t s = (True, t1, s1)" using a True by simp
    ultimately have "arena_inv (AddArenaTeam t1 s1)" by (rule inv_add[OF inv t])
    then show ?thesis by (rule inv_same) (use h' True in \<open>auto split: if_splits\<close>)
  next
    case False
    then have "av_teams s' = av_teams s \<and> av_world s' = av_world s"
      using h' AddMember_fail[of env "pl_guid me" t s t1 s1] a by (cases ok) (auto split: if_splits)
    then show ?thesis using inv_same[OF inv] by blast
  qed
qed

lemma on_member_cases:
  assumes "on_member env me s f b = Inr (Inr s')"
  shows "av_teams s' = av_teams s \<and> av_world s' = av_world s
    \<or> (\<exists>i t n m. sm_find i (av_teams s) = Some t \<and> am_guid m \<in> set (guids t) \<and> f t n m = Inr s')"
proof -
  obtain i name where k: "(case GetArenaTeamById i s of
              None \<Rightarrow> Inr s
            | Some t \<Rightarrow>
                if at_captain t \<noteq> pl_guid me then Inr (SendArenaTeamCommandResult (pl_guid me) 0 '''' '''' 0x08 s)
                else (case ae_norm env name of
                        None \<Rightarrow> Inr s
                      | Some n \<Rightarrow>
                          (case GetMember_name n t of
                             None \<Rightarrow> Inr (SendArenaTeamCommandResult (pl_guid me) 0 '''' n 0x0B s)
                           | Some m \<Rightarrow> f t n m))) = Inr s'"
    using assms unfolding on_member_def rd_Inr sum.inject by blast
  show ?thesis
  proof (cases "GetArenaTeamById i s")
    case (Some t)
    note t = this[unfolded GetArenaTeamById_def]
    show ?thesis
    proof (cases "at_captain t = pl_guid me \<and> ae_norm env name \<noteq> None \<and> GetMember_name (the (ae_norm env name)) t \<noteq> None")
      case True
      then obtain n m where n: "ae_norm env name = Some n" and m: "GetMember_name n t = Some m" by auto
      have "am_guid m \<in> set (guids t)" using m find_in_guids unfolding GetMember_name_def by blast
      then show ?thesis using t k Some n m True by auto
    next
      case False
      then show ?thesis using k Some by (auto split: option.splits if_splits)
    qed
  qed (use k in simp)
qed

lemma remove_inv:
  assumes inv: "arena_inv s" and h: "HandleArenaTeamRemoveFromTeamOpcode env me s b = Inr (Inr s')"
  shows "arena_inv s'"
  using on_member_cases[OF h[unfolded HandleArenaTeamRemoveFromTeamOpcode_def]]
proof (elim disjE exE conjE)
  fix i t n m
  assume t: "sm_find i (av_teams s) = Some t" and m: "am_guid m \<in> set (guids t)"
    and f: "Inr (if at_captain t = am_guid m then SendArenaTeamCommandResult (pl_guid me) 3 '''' '''' 0x08 s
            else if FindPlayer (av_world s) (am_guid m) False \<noteq> None \<and> ae_in_arena env (am_guid m) then s
            else case DelMember env (am_guid m) t s of
                   (t', s') \<Rightarrow> BroadcastEvent ERR_ARENA_TEAM_REMOVE_SSS 0 (Some n) (Some (at_name t'))
                                (Some (pl_name me)) t' (AddArenaTeam t' s')) = Inr s'"
  obtain t1 s1 where d: "DelMember env (am_guid m) t s = (t1, s1)" by (metis surj_pair)
  show ?thesis
  proof (cases "at_captain t = am_guid m")
    case True then show ?thesis using f inv_same[OF inv, of s'] by auto
  next
    case False
    then have "arena_inv (AddArenaTeam t1 s1)" using inv_del[OF inv t m _ d] by simp
    then show ?thesis using f d False inv inv_same[of "AddArenaTeam t1 s1" s'] by (auto split: if_splits)
  qed
qed (use inv_same[OF inv] in blast)

lemma SetCaptain_view:
  assumes "SetCaptain g t s = Inr (t', s')"
  shows "t' = t\<lparr>at_captain := g\<rparr> \<and> av_teams s' = av_teams s \<and> av_world s' = av_world s"
  using assms by (auto simp: SetCaptain_def Let_def split: option.splits if_splits)

lemma promote_inv:
  assumes inv: "arena_inv s" and h: "HandleArenaTeamPromoteToCaptainOpcode env me s b = Inr (Inr s')"
  shows "arena_inv s'"
  using on_member_cases[OF h[unfolded HandleArenaTeamPromoteToCaptainOpcode_def]]
proof (elim disjE exE conjE)
  fix i t n m
  assume t: "sm_find i (av_teams s) = Some t" and m: "am_guid m \<in> set (guids t)"
    and f: "(if at_captain t = am_guid m then Inr s
       else case SetCaptain (am_guid m) t s of
              Inl e \<Rightarrow> Inl e
            | Inr (t', s') \<Rightarrow> Inr (BroadcastEvent ERR_ARENA_TEAM_LEADER_CHANGED_SSS 0 (Some (pl_name me)) (Some n)
                                 (Some (at_name t')) t' (AddArenaTeam t' s'))) = Inr s'"
  show ?thesis
  proof (cases "at_captain t = am_guid m")
    case True then show ?thesis using f inv by simp
  next
    case False
    then obtain t1 s1 where c: "SetCaptain (am_guid m) t s = Inr (t1, s1)"
      and s': "s' = BroadcastEvent ERR_ARENA_TEAM_LEADER_CHANGED_SSS 0 (Some (pl_name me)) (Some n)
                 (Some (at_name t1)) t1 (AddArenaTeam t1 s1)"
      using f by (auto split: sum.splits)
    note v = SetCaptain_view[OF c]
    have "arena_inv (AddArenaTeam t1 s1)"
      by (rule inv_replace[OF inv t]) (use v m in \<open>simp_all add: guids_def\<close>)
    then show ?thesis using inv_same[of _ s'] by (simp add: s')
  qed
qed (use inv_same[OF inv] in blast)

lemma leave_inv:
  assumes inv: "arena_inv s" and h: "HandleArenaTeamLeaveOpcode env me s b = Inr (Inr s')"
    and mine: "\<And>i b' t. read_int False 4 b = Inr (i, b') \<Longrightarrow> GetArenaTeamById i s = Some t \<Longrightarrow> HaveMember (pl_guid me) t"
  shows "arena_inv s'"
proof -
  obtain i b' where r: "read_int False 4 b = Inr (i, b')"
    and k: "(case GetArenaTeamById i s of
                   None \<Rightarrow> s
                 | Some t \<Rightarrow>
                     let result = SendArenaTeamCommandResult (pl_guid me) 3
                     in if InBattlegroundQueue env (pl_guid me) then result '''' '''' 0x01 s
                        else if ae_in_arena env (pl_guid me) then result '''' '''' 0x01 s
                        else if pl_guid me = at_captain t \<and> length (at_members t) > 1 then result '''' '''' 0x08 s
                        else if pl_guid me = at_captain t then snd (Disband env (Some me) t s)
                        else case DelMember env (pl_guid me) t s of
                               (t', s') \<Rightarrow>
                                 result (at_name t') '''' 0
                                   (BroadcastEvent ERR_ARENA_TEAM_LEAVE_SS (pl_guid me) (Some (pl_name me))
                                     (Some (at_name t')) None t' (AddArenaTeam t' s'))) = s'"
    using h unfolding HandleArenaTeamLeaveOpcode_def rd_Inr sum.inject by blast
  show ?thesis
  proof (cases "GetArenaTeamById i s")
    case None then show ?thesis using k inv by simp
  next
    case (Some t)
    note t = Some[unfolded GetArenaTeamById_def]
    have m: "pl_guid me \<in> set (guids t)" using mine[OF r Some] by (simp add: HaveMember_guids)
    obtain t1 s1 where d: "DelMember env (pl_guid me) t s = (t1, s1)" by (metis surj_pair)
    obtain t2 s2 where e: "Disband env (Some me) t s = (t2, s2)" by (metis surj_pair)
    consider "av_teams s' = av_teams s \<and> av_world s' = av_world s" | "s' = s2"
      | "pl_guid me \<noteq> at_captain t" "av_teams s' = av_teams (AddArenaTeam t1 s1)" "av_world s' = av_world (AddArenaTeam t1 s1)"
      using k unfolding Some option.case Let_def d e prod.case snd_conv by (auto split: if_splits)
    then show ?thesis
    proof cases
      case 1 then show ?thesis using inv_same[OF inv] by blast
    next
      case 2 then show ?thesis using inv_disband[OF inv t e] by simp
    next
      case 3
      have "arena_inv (AddArenaTeam t1 s1)" using inv_del[OF inv t m 3(1) d] .
      then show ?thesis using inv_same 3 by blast
    qed
  qed
qed

lemma disband_inv:
  assumes inv: "arena_inv s" and h: "HandleArenaTeamDisbandOpcode env me s b = Inr (Inr s')"
  shows "arena_inv s'"
proof -
  obtain i where "s' = s \<or> (\<exists>t. GetArenaTeamById i s = Some t \<and> s' = snd (Disband env (Some me) t s))"
    using h unfolding HandleArenaTeamDisbandOpcode_def rd_Inr by (auto split: option.splits if_splits)
  then show ?thesis
    using inv inv_disband[OF inv, of i _ env "Some me"] unfolding GetArenaTeamById_def by (metis surj_pair snd_conv)
qed

lemma Create_view:
  assumes "Create env g ty n t s = (True, t', s')"
  shows "online g s \<and> GetArenaTeamByName n s = None \<and>
    (\<exists>s0 b. av_teams s0 = av_teams s \<and> av_world s0 = av_world s \<and> av_next_id s0 = av_next_id s + 1 \<and>
      AddMember env g (t\<lparr>at_captain := g, at_name := n, at_type := ty, at_id := av_next_id s\<rparr>) s0 = (b, t', s'))"
proof -
  let ?g = "snd (GenerateArenaTeamId s)"
  have v: "fst (GenerateArenaTeamId s) = av_next_id s" "av_teams ?g = av_teams s" "av_world ?g = av_world s"
    "av_next_id ?g = av_next_id s + 1"
    by (simp_all add: GenerateArenaTeamId_def Let_def)
  define t0 where "t0 = t\<lparr>at_captain := g, at_name := n, at_type := ty, at_id := av_next_id s\<rparr>"
  define s0 where "s0 = emit (ASql (InsertStats (av_next_id s) (at_stats t))) (emit (ASql (InsertTeam (av_next_id s)
      (c_str (ae_escape env n)) (GUID_LOPART g) ty (at_background_color t) (at_emblem_style t) (at_emblem_color t)
      (at_border_style t) (at_border_color t))) (emit (ASql (DeleteMembers (av_next_id s))) ?g))"
  have "online g s \<and> GetArenaTeamByName n s = None \<and> snd (AddMember env g t0 s0) = (t', s')"
    using assms by (auto simp: Create_def Let_def case_prod_beta v s0_def t0_def online_def split: if_splits)
  moreover have "av_teams s0 = av_teams s" "av_world s0 = av_world s" "av_next_id s0 = av_next_id s + 1"
    by (simp_all add: s0_def v)
  ultimately show ?thesis unfolding t0_def by (metis prod.collapse)
qed

lemma create_inv:
  assumes inv: "arena_inv s" and c: "Create env g ty n ArenaTeam_new s = (True, t, s1)"
    and ty: "ty \<in> {2, 3, 5}" and slot: "my_arena_id g (GetSlotByType ty) s = 0"
    and new: "av_next_id s \<noteq> 0" "sm_find (av_next_id s) (av_teams s) = None"
    and e: "SetEmblem c1 c2 c3 c4 c5 t s1 = (t', s')"
  shows "arena_inv (AddArenaTeam t' s')"
proof -
  let ?i = "av_next_id s"
  define t0 where "t0 = ArenaTeam_new\<lparr>at_captain := g, at_name := n, at_type := ty, at_id := ?i\<rparr>"
  obtain s0 ok where on: "online g s" and a: "AddMember env g t0 s0 = (ok, t, s1)"
    and s0: "av_teams s0 = av_teams s" "av_world s0 = av_world s"
    using Create_view[OF c] unfolding t0_def by blast
  have core: "arena_core s0" using core_same[OF _ s0] inv by (simp add: arena_inv_def)
  have on0: "online g s0" and slot0: "my_arena_id g (GetSlot t0) s0 = 0"
    using on slot s0 by (simp_all add: online_same[of s0 s] my_arena_id_same[of s0 s] t0_def GetSlot_def)
  obtain p where p: "GetPlayer (av_world s0) g = Some p" "pl_arena_team p (GetSlot t0) = 0"
    using on0 slot0 by (auto simp: online_def my_arena_id_def)
  have t0v: "at_members t0 = []" "at_type t0 = ty" by (simp_all add: t0_def ArenaTeam_new_def)
  have "0 < unat (ty * 2)" using ty by auto
  then have "fst (AddMember env g t0 s0)"
    by (simp add: AddMember_def admission_def p Let_def t0v)
  then have a: "AddMember env g t0 s0 = (True, t, s1)" using a by auto
  have t0: "team_ok t0" "at_id t0 = ?i" "guids t0 = []" "at_captain t0 = g"
    using ty by (auto simp: t0_def team_ok_def ArenaTeam_new_def guids_def)
  have free: "free_for g t0 s0" using online_free[OF core on0 slot0] .
  have b: "arena_core (AddArenaTeam t s1) \<and> guids t = guids t0 @ [g] \<and> at_id t = ?i \<and> at_captain t = at_captain t0
    \<and> at_type t = at_type t0 \<and> av_teams s1 = av_teams s0"
    by (rule core_add[OF core t0(1,2) new(1) _ free a]) (simp add: t0 s0 new)
  have t': "t' = t\<lparr>at_background_color := c1, at_emblem_style := c2, at_emblem_color := c3, at_border_style := c4,
      at_border_color := c5\<rparr>" "av_teams s' = av_teams s1" "av_world s' = av_world s1"
    using e by (auto simp: SetEmblem_def Let_def)
  have f: "sm_find ?i (av_teams (AddArenaTeam t s1)) = Some t" using b by (simp add: sm.find_put)
  have c1: "arena_core (AddArenaTeam t' (AddArenaTeam t s1))"
    by (rule core_replace[OF _ f]) (use b t' in \<open>simp_all add: guids_def\<close>)
  have "sm_set ?i t' (sm_set ?i t m) = sm_set ?i t' m" for m :: "(u32 \<times> arena_team) list"
    by (induction m) auto
  then have "arena_core (AddArenaTeam t' s')"
    by (intro core_same[OF c1]) (use b t' in simp_all)
  moreover have "captains_in (AddArenaTeam t' s')"
    by (rule captains_put[of s]) (use inv b t' s0 t0 in \<open>simp_all add: arena_inv_def guids_def\<close>)
  ultimately show ?thesis by (simp add: arena_inv_def)
qed

text \<open>Games and weeks change the statistics of a team and of its members only.\<close>

lemma guids_on_first: "(\<And>m. am_guid m = g \<Longrightarrow> am_guid (f m) = g) \<Longrightarrow> map am_guid (on_first f g ms) = map am_guid ms"
  by (induction ms) auto

lemma played_guid [simp]: "am_guid (played m) = am_guid m"
  by (simp add: played_def)

lemma write_games_simps [simp]:
  "av_teams (write_games g k m s) = av_teams s" "av_world (write_games g k m s) = av_world s"
  by (simp_all add: write_games_def)

lemma ModifyPersonalRating_view:
  "ModifyPersonalRating pl x k m s = (m', s') \<Longrightarrow> am_guid m' = am_guid m \<and> av_teams s' = av_teams s \<and> av_world s' = av_world s"
  by (auto simp: ModifyPersonalRating_def Let_def split: option.splits)

definition same_team :: "arena_team \<Rightarrow> arena_team \<Rightarrow> bool" where
  "same_team t t' \<longleftrightarrow> at_id t' = at_id t \<and> at_type t' = at_type t \<and> guids t' = guids t \<and> at_captain t' = at_captain t"

lemma FinishGame_same: "same_team t (FinishGame m t s)"
  by (simp add: same_team_def FinishGame_def Let_def guids_def)

lemma WonAgainst_same: "same_team t (snd (WonAgainst env r t s))"
  using FinishGame_same by (simp add: same_team_def WonAgainst_def Let_def guids_def)

lemma LostAgainst_same: "same_team t (snd (LostAgainst env r t s))"
  using FinishGame_same by (simp add: LostAgainst_def Let_def)

lemma FinishWeek_same: "same_team t (FinishWeek t)"
  by (simp add: same_team_def FinishWeek_def guids_def)

lemma OfflineMemberLost_same: "same_team t (OfflineMemberLost env g r t)"
  by (simp add: same_team_def OfflineMemberLost_def guids_def Let_def guids_on_first)

lemma GetMember_guid: "GetMember g t = Some m \<Longrightarrow> am_guid m = g"
  by (auto simp: GetMember_def find_Some_iff)

lemma MemberLost_same:
  assumes "MemberLost env g r t s = (t', s')"
  shows "same_team t t' \<and> av_teams s' = av_teams s \<and> av_world s' = av_world s"
proof (cases "GetMember g t")
  case None then show ?thesis using assms by (simp add: MemberLost_def same_team_def)
next
  case (Some m)
  obtain m1 s1 where m: "ModifyPersonalRating (Some g) (ae_lost env (am_personal_rating m) r) (GetSlot t) m s = (m1, s1)"
    by (metis surj_pair)
  show ?thesis using assms ModifyPersonalRating_view[OF m] GetMember_guid[OF Some]
    by (auto simp: MemberLost_def Some m same_team_def guids_def guids_on_first)
qed

lemma MemberWon_same:
  assumes "MemberWon env g r t s = (t', s')"
  shows "same_team t t' \<and> av_teams s' = av_teams s \<and> av_world s' = av_world s"
proof (cases "GetMember g t")
  case None then show ?thesis using assms by (simp add: MemberWon_def same_team_def)
next
  case (Some m)
  obtain m1 s1 where m: "ModifyPersonalRating (Some g) (ae_won env (am_personal_rating m) r) (GetSlot t) m s = (m1, s1)"
    by (metis surj_pair)
  show ?thesis using assms ModifyPersonalRating_view[OF m] GetMember_guid[OF Some]
    by (auto simp: MemberWon_def Some m same_team_def guids_def guids_on_first Let_def)
qed

lemma inv_same_team:
  assumes "arena_inv s" "sm_find i (av_teams s) = Some t" "same_team t t'" "av_teams s' = av_teams s" "av_world s' = av_world s"
  shows "arena_inv (AddArenaTeam t' s')"
  using assms arena_invD(2)[OF assms(1,2)] by (intro inv_replace) (simp_all add: same_team_def)

section \<open>The steps of the server\<close>

text \<open>
  A player who enters the world brings the ids of the teams that list him (\<open>_LoadArenaTeamInfo\<close> reads
  them from the member table). A signature on a petition is of a player in the world or of one that no
  team of the size lists (the table is asked).
\<close>

inductive arena_step :: "arena_env \<Rightarrow> arena_server \<Rightarrow> arena_server \<Rightarrow> bool" for env where
  inspect: "HandleInspectArenaStatsOpcode env g s b = Inr (Inr s') \<Longrightarrow> arena_step env s s'"
| query: "HandleArenaTeamQueryOpcode g s b = Inr (Inr s') \<Longrightarrow> arena_step env s s'"
| roster: "HandleArenaTeamRosterOpcode g s b = Inr (Inr s') \<Longrightarrow> arena_step env s s'"
| invites: "HandleArenaTeamAddMemberOpcode env me s b = Inr (Inr s') \<Longrightarrow> arena_step env s s'"
| accept: "online (pl_guid me) s \<Longrightarrow> HandleArenaTeamInviteAcceptOpcode env me s b = Inr (Inr s') \<Longrightarrow> arena_step env s s'"
| decline: "HandleArenaTeamInviteDeclineOpcode me s b = Inr (Inr s') \<Longrightarrow> arena_step env s s'"
| leave: "HandleArenaTeamLeaveOpcode env me s b = Inr (Inr s') \<Longrightarrow>
    (\<And>i b' t. read_int False 4 b = Inr (i, b') \<Longrightarrow> GetArenaTeamById i s = Some t \<Longrightarrow> HaveMember (pl_guid me) t) \<Longrightarrow>
    arena_step env s s'"
| disband: "HandleArenaTeamDisbandOpcode env me s b = Inr (Inr s') \<Longrightarrow> arena_step env s s'"
| remove: "HandleArenaTeamRemoveFromTeamOpcode env me s b = Inr (Inr s') \<Longrightarrow> arena_step env s s'"
| promote: "HandleArenaTeamPromoteToCaptainOpcode env me s b = Inr (Inr s') \<Longrightarrow> arena_step env s s'"
| petition: "Create env g ty n ArenaTeam_new s = (True, t, s1) \<Longrightarrow> ty \<in> {2, 3, 5} \<Longrightarrow>
    my_arena_id g (GetSlotByType ty) s = 0 \<Longrightarrow> av_next_id s \<noteq> 0 \<Longrightarrow> sm_find (av_next_id s) (av_teams s) = None \<Longrightarrow>
    SetEmblem c1 c2 c3 c4 c5 t s1 = (t', s') \<Longrightarrow> arena_step env s (AddArenaTeam t' s')"
| signature: "sm_find i (av_teams s) = Some t \<Longrightarrow> AddMember env g t s = (True, t', s') \<Longrightarrow>
    online g s \<or> free_for g t s \<Longrightarrow> arena_step env s (AddArenaTeam t' s')"
| won: "sm_find i (av_teams s) = Some t \<Longrightarrow> arena_step env s (AddArenaTeam (snd (WonAgainst env r t s)) s)"
| lost: "sm_find i (av_teams s) = Some t \<Longrightarrow> arena_step env s (AddArenaTeam (snd (LostAgainst env r t s)) s)"
| member_won: "sm_find i (av_teams s) = Some t \<Longrightarrow> MemberWon env g r t s = (t', s') \<Longrightarrow> arena_step env s (AddArenaTeam t' s')"
| member_lost: "sm_find i (av_teams s) = Some t \<Longrightarrow> MemberLost env g r t s = (t', s') \<Longrightarrow> arena_step env s (AddArenaTeam t' s')"
| offline_lost: "sm_find i (av_teams s) = Some t \<Longrightarrow> arena_step env s (AddArenaTeam (OfflineMemberLost env g r t) s)"
| week: "sm_find i (av_teams s) = Some t \<Longrightarrow> arena_step env s (AddArenaTeam (FinishWeek t) s)"
| players: "(\<And>i t g p. sm_find i (av_teams s) = Some t \<Longrightarrow> g \<in> set (guids t) \<Longrightarrow> GetPlayer w g = Some p \<Longrightarrow>
    pl_arena_team p (GetSlot t) = i) \<Longrightarrow> arena_step env s (s\<lparr>av_world := w\<rparr>)"

lemma players_inv:
  assumes inv: "arena_inv s" and w: "\<And>i t g p. sm_find i (av_teams s) = Some t \<Longrightarrow> g \<in> set (guids t) \<Longrightarrow>
    GetPlayer w g = Some p \<Longrightarrow> pl_arena_team p (GetSlot t) = i"
  shows "arena_inv (s\<lparr>av_world := w\<rparr>)"
proof -
  have "my_arena_id g (GetSlot t) (s\<lparr>av_world := w\<rparr>) = i"
    if "sm_find i (av_teams s) = Some t" "g \<in> set (guids t)" "online g (s\<lparr>av_world := w\<rparr>)" for i t g
    using w[OF that(1,2)] that(3) by (auto simp: online_def my_arena_id_def)
  then show ?thesis using inv unfolding arena_inv_def arena_core_def captains_in_def by simp
qed

lemma arena_step_inv: "arena_step env s s' \<Longrightarrow> arena_inv s \<Longrightarrow> arena_inv s'"
proof (induction rule: arena_step.induct)
  case (signature i s t g t' s')
  have "free_for g t s"
  proof (cases "online g s")
    case True
    have "my_arena_id g (GetSlot t) s = 0"
      using signature(2) True by (auto simp: AddMember_def admission_def online_def my_arena_id_def Let_def split: option.splits if_splits)
    then show ?thesis using online_free[OF arena_invD(1)[OF signature(4) signature(1)] True] by blast
  qed (use signature(3) in blast)
  then show ?case using inv_add signature(1,2,4) by blast
next
  case (petition g ty n s t s1 c1 c2 c3 c4 c5 t' s')
  then show ?case using create_inv by blast
next
  case (leave me s b s')
  then show ?case using leave_inv by blast
next
  case (players s w)
  then show ?case using players_inv by blast
next
  case (member_won i s t g r t' s')
  then show ?case using inv_same_team MemberWon_same by blast
next
  case (member_lost i s t g r t' s')
  then show ?case using inv_same_team MemberLost_same by blast
qed (blast intro: inspect_inv query_inv roster_inv invite_inv accept_inv decline_inv disband_inv remove_inv promote_inv
       inv_same_team WonAgainst_same LostAgainst_same OfflineMemberLost_same FinishWeek_same)+

section \<open>A server to try the operations on\<close>

definition test_arena_env :: arena_env where
  "test_arena_env = \<lparr>ae_character = (\<lambda>_. None), ae_db_team = (\<lambda>_ _. 0), ae_db_side = (\<lambda>_. 0), ae_queues = (\<lambda>_. [7, 0, 0]),
     ae_bg_template = (\<lambda>q. if q = 7 then Some False else None), ae_in_arena = (\<lambda>_. False), ae_on_arena_map = (\<lambda>_. False),
     ae_within_dist = (\<lambda>_ _. True), ae_hostile = (\<lambda>_ _. False), ae_norm = Some, ae_escape = id,
     ae_won = (\<lambda>_ _. 16), ae_lost = (\<lambda>_ _. - 16), ae_award = (\<lambda>_ r. r div 10), ae_max_level = 60, ae_two_side_guild = True\<rparr>"

definition test_team :: "u32 \<Rightarrow> guid \<Rightarrow> string \<Rightarrow> arena_team" where
  "test_team i cap n = ArenaTeam_new\<lparr>at_id := i, at_type := 2, at_name := n, at_captain := cap, at_members := [new_member cap n 1]\<rparr>"

text \<open>Ann is captain of team 1, Bob is invited there, the captain of team 2 is not in the world.\<close>

definition test_arena :: arena_server where
  "test_arena = \<lparr>av_world = set_arena_id 1 0 1 test_world, av_teams = [(1, test_team 1 1 ''Ann''), (2, test_team 2 3 ''Cid'')],
     av_invited = (\<lambda>g. if g = 2 then 1 else 0), av_next_id = 3, av_log = []\<rparr>"

lemma test_arena_inv: "arena_inv test_arena"
proof -
  have f: "sm_find i (av_teams test_arena) = Some t \<longleftrightarrow> i = 1 \<and> t = test_team 1 1 ''Ann'' \<or> i = 2 \<and> t = test_team 2 3 ''Cid''" for i t
    by (auto simp: test_arena_def sm_find_def)
  have g: "guids (test_team 1 1 ''Ann'') = [1]" "guids (test_team 2 3 ''Cid'') = [3]"
    by (simp_all add: guids_def test_team_def new_member_def)
  have o: "\<not> online 3 test_arena" "my_arena_id 1 0 test_arena = 1" by code_simp+
  have w: "sm_wf (av_teams test_arena)" by (simp add: test_arena_def sm_wf_def)
  show ?thesis
    unfolding arena_inv_def arena_core_def captains_in_def f
    using g o w by (auto simp: test_team_def team_ok_def guids_def new_member_def GetSlot_def GetSlotByType_def)
qed

definition test_accepted :: arena_server where
  "test_accepted = (case HandleArenaTeamInviteAcceptOpcode test_arena_env (test_player 2 ''Bob'') test_arena new_buffer of
     Inr (Inr s) \<Rightarrow> s | _ \<Rightarrow> test_arena)"

section \<open>Properties\<close>

text \<open>C4: Every team stays under its id with distinct members, at most twice its size, and its captain
  among them; no player is in two teams of one size; and the arena team id a player in the world carries
  for a size is that of the team that lists him. This holds under any packets of inspection, query,
  roster, invitation, accept (by players in the world), decline, disband, remove and promote; under leave
  packets of players who are members of the team they name; under wins, losses and the end of the week;
  when a player without a team of the size founds one under the next id, which is neither zero nor in use; when
  a signature of a player in the world, or of one no team of the size lists, is turned into a
  member; and when players enter the world with the ids of the teams that list them. The handler of
  leave packets does not check the membership that is asked for here, and without it the last part fails
  (\<open>leave_foreign_team\<close>).\<close>

theorem arena_teams_consistent:
  assumes "arena_inv s" and "(arena_step env)\<^sup>*\<^sup>* s s'"
  shows "arena_inv s'"
  using assms(2,1) by (induction rule: rtranclp_induct) (blast intro: arena_step_inv)+

theorem arena_teams_consistent_witness:
  "arena_inv test_accepted \<and> guids (the (GetArenaTeamById 1 test_accepted)) = [1, 2] \<and> my_arena_id 2 0 test_accepted = 1"
proof -
  have h: "HandleArenaTeamInviteAcceptOpcode test_arena_env (test_player 2 ''Bob'') test_arena new_buffer = Inr (Inr test_accepted)"
    unfolding test_accepted_def HandleArenaTeamInviteAcceptOpcode_def by simp
  have "online (pl_guid (test_player 2 ''Bob'')) test_arena" by code_simp
  then have "arena_step test_arena_env test_arena test_accepted" using h by (rule arena_step.accept)
  then have "arena_inv test_accepted" using arena_teams_consistent[OF test_arena_inv] by blast
  moreover have "guids (the (GetArenaTeamById 1 test_accepted)) = [1, 2]" by code_simp
  moreover have "my_arena_id 2 0 test_accepted = 1" by code_simp
  ultimately show ?thesis by blast
qed

text \<open>C32: A player who asks to leave a team he is not in, of the size of his own team, stays listed in
  his own team but his id field for the size is cleared: the handler checks that he is not the
  captain, not that he is a member.\<close>

theorem leave_foreign_team:
  assumes inv: "arena_inv s" and t: "GetArenaTeamById i s = Some t" and u: "GetArenaTeamById j s = Some u"
    and size: "at_type u = at_type t" and me: "HaveMember (pl_guid me) t" "\<not> HaveMember (pl_guid me) u"
    and on: "online (pl_guid me) s" and free: "\<not> InBattlegroundQueue env (pl_guid me)" "\<not> ae_in_arena env (pl_guid me)"
    and b: "ahead b (enc_u32 j)"
  shows "\<exists>s'. HandleArenaTeamLeaveOpcode env me s b = Inr (Inr s') \<and> GetArenaTeamById i s' = Some t
     \<and> my_arena_id (pl_guid me) (GetSlot t) s' = 0 \<and> \<not> arena_inv s'"
proof -
  note t' = t[unfolded GetArenaTeamById_def] and u' = u[unfolded GetArenaTeamById_def]
  note du = arena_invD[OF inv u'] and dt = arena_invD[OF inv t']
  have notin: "pl_guid me \<notin> set (guids u)" using me(2) by (simp add: HaveMember_guids)
  then have cap: "pl_guid me \<noteq> at_captain u" using du(2) by auto
  obtain u1 s1 where d: "DelMember env (pl_guid me) u s = (u1, s1)" by (metis surj_pair)
  have "remove_first g ms = ms" if "g \<notin> am_guid ` set ms" for g ms using that by (induction ms) auto
  then have u1: "u1 = u" using DelMember_view(1)[of env "pl_guid me" u s] d notin by (simp add: guids_def)
  have s1: "av_teams s1 = av_teams s" "av_world s1 = set_arena_id (pl_guid me) (GetSlot u) 0 (av_world s)"
    using DelMember_view(2,4)[of env "pl_guid me" u s] d on by simp_all
  define s' where "s' = SendArenaTeamCommandResult (pl_guid me) 3 (at_name u) '''' 0
     (BroadcastEvent ERR_ARENA_TEAM_LEAVE_SS (pl_guid me) (Some (pl_name me)) (Some (at_name u)) None u (AddArenaTeam u s1))"
  have s': "av_teams s' = sm_set j u (av_teams s)" "av_world s' = av_world s1" using s1 du(4) by (simp_all add: s'_def)
  have "HandleArenaTeamLeaveOpcode env me s b = Inr (Inr s')"
    using u free cap
    by (simp add: HandleArenaTeamLeaveOpcode_def rd_u32(1)[of b j "[]", unfolded append_Nil2, OF b] d u1 s'_def Let_def)
  moreover have ij: "i \<noteq> j" using me t u by auto
  then have f: "sm_find i (av_teams s') = Some t" using t' by (simp add: s' sm.find_put)
  moreover have slot: "GetSlot u = GetSlot t" using size by (simp add: GetSlot_def)
  have zero: "my_arena_id (pl_guid me) (GetSlot t) s' = 0"
    using s1(2) s'(2) on slot by (simp add: my_arena_id_view[of s' "pl_guid me" "GetSlot t" 0 s])
  moreover have "\<not> arena_inv s'"
  proof
    assume i': "arena_inv s'"
    have "online (pl_guid me) s'" using on s1(2) s'(2) by (simp add: online_view[of s'])
    then have "my_arena_id (pl_guid me) (GetSlot t) s' = i"
      using coreD(5)[OF arena_invD(1)[OF i' f] f] me(1) by (simp add: HaveMember_guids)
    then show False using zero dt(5) by simp
  qed
  ultimately show ?thesis by (auto simp: GetArenaTeamById_def)
qed

theorem leave_foreign_team_witness:
  "\<exists>s'. HandleArenaTeamLeaveOpcode (test_arena_env\<lparr>ae_queues := \<lambda>_. []\<rparr>) (test_player 1 ''Ann'') test_arena
         (new_buffer\<lparr>storage := enc_u32 2\<rparr>) = Inr (Inr s')
     \<and> GetArenaTeamById 1 s' = Some (test_team 1 1 ''Ann'') \<and> my_arena_id 1 0 s' = 0 \<and> \<not> arena_inv s'"
proof -
  have a: "GetArenaTeamById 1 test_arena = Some (test_team 1 1 ''Ann'')" "GetArenaTeamById 2 test_arena = Some (test_team 2 3 ''Cid'')"
    by (simp_all add: GetArenaTeamById_def test_arena_def sm_find_def)
  have p: "pl_guid (test_player 1 ''Ann'') = 1" "GetSlot (test_team 1 1 ''Ann'') = 0"
    "at_type (test_team 2 3 ''Cid'') = at_type (test_team 1 1 ''Ann'')"
    by (simp_all add: test_player_def GetSlot_def test_team_def GetSlotByType_def)
  have m: "HaveMember 1 (test_team 1 1 ''Ann'')" "\<not> HaveMember 1 (test_team 2 3 ''Cid'')"
    by (simp_all add: HaveMember_def test_team_def new_member_def)
  have o: "online 1 test_arena" by code_simp
  have q: "\<not> InBattlegroundQueue (test_arena_env\<lparr>ae_queues := \<lambda>_. []\<rparr>) 1" "\<not> ae_in_arena (test_arena_env\<lparr>ae_queues := \<lambda>_. []\<rparr>) 1"
    by (simp_all add: InBattlegroundQueue_def test_arena_env_def)
  have b: "ahead (new_buffer\<lparr>storage := enc_u32 2\<rparr>) (enc_u32 2)"
    by (simp add: ahead_def new_buffer_def length_encs)
  show ?thesis
    using leave_foreign_team[OF test_arena_inv a p(3), where me = "test_player 1 ''Ann''", unfolded p, OF m o q b] .
qed

text \<open>C23: Disbanding ends, whatever the server's state: no member is left, the team is no longer found,
  the other teams are as before, and every former member in the world has no team of the size.\<close>

theorem Disband_finishes:
  assumes "sm_wf (av_teams s)" and "Disband env pl t s = (t', s')"
  shows "at_members t' = [] \<and> GetArenaTeamById (at_id t) s' = None
     \<and> (\<forall>i. i \<noteq> at_id t \<longrightarrow> GetArenaTeamById i s' = GetArenaTeamById i s)
     \<and> (\<forall>g k. my_arena_id g k s' = (if HaveMember g t \<and> k = GetSlot t then 0 else my_arena_id g k s))"
proof -
  have "my_arena_id g k s' = (if HaveMember g t \<and> k = GetSlot t then 0 else my_arena_id g k s)" for g k
    using Disband_view(5)[OF assms(2), of g k] by (auto simp: HaveMember_guids my_arena_id_def online_def)
  then show ?thesis
    using Disband_view(1)[OF assms(2)] Disband_view(2)[OF assms(2)] assms(1)
    by (simp add: GetArenaTeamById_def sm.find_del)
qed

theorem Disband_finishes_witness:
  "case Disband test_arena_env None (test_team 1 1 ''Ann'') test_arena of (t', s') \<Rightarrow>
     at_members t' = [] \<and> GetArenaTeamById 1 s' = None \<and> my_arena_id 1 0 s' = 0"
proof -
  obtain t' s' where d: "Disband test_arena_env None (test_team 1 1 ''Ann'') test_arena = (t', s')" by (metis surj_pair)
  have wf: "sm_wf (av_teams test_arena)" by (simp add: test_arena_def sm_wf_def)
  have t: "at_id (test_team 1 1 ''Ann'') = 1" "HaveMember 1 (test_team 1 1 ''Ann'')" "GetSlot (test_team 1 1 ''Ann'') = 0"
    by (simp_all add: test_team_def HaveMember_def new_member_def GetSlot_def GetSlotByType_def)
  show ?thesis using Disband_finishes[OF wf d] by (simp add: d t)
qed

text \<open>A promotion reads the name of the old captain's player without a check: the access is through a null
  pointer exactly when the new captain is in the world and the old one is not. The promote packet never gets
  there, since its sender is the old captain.\<close>

theorem SetCaptain_null:
  "(SetCaptain g t s = Inl NullCaptain \<longleftrightarrow> online g s \<and> \<not> online (at_captain t) s)
   \<and> (online (pl_guid me) s \<longrightarrow> HandleArenaTeamPromoteToCaptainOpcode env me s b \<noteq> Inr (Inl e))"
proof -
  have null: "SetCaptain g t s = Inl NullCaptain \<longleftrightarrow> online g s \<and> \<not> online (at_captain t) s" for g t
    by (cases "GetPlayer (av_world s) (at_captain t)"; cases "GetPlayer (av_world s) g")
       (simp_all add: SetCaptain_def Let_def online_def)
  have "HandleArenaTeamPromoteToCaptainOpcode env me s b \<noteq> Inr (Inl e)" if on: "online (pl_guid me) s"
  proof -
    have "SetCaptain g t s \<noteq> Inl e" if "at_captain t = pl_guid me" for g t
      using null[of g t] on that by (cases e) simp
    then show ?thesis
      unfolding HandleArenaTeamPromoteToCaptainOpcode_def on_member_def rd_def
      by (auto split: sum.splits option.splits if_splits prod.splits)
  qed
  then show ?thesis using null by blast
qed

theorem SetCaptain_null_witness:
  "SetCaptain 1 (test_team 2 3 ''Cid'') test_arena = Inl NullCaptain
   \<and> HandleArenaTeamPromoteToCaptainOpcode test_arena_env (test_player 1 ''Ann'') test_arena new_buffer \<noteq> Inr (Inl NullCaptain)"
proof -
  have o: "online 1 test_arena" "\<not> online 3 test_arena" by code_simp+
  have "at_captain (test_team 2 3 ''Cid'') = 3" "pl_guid (test_player 1 ''Ann'') = 1"
    by (simp_all add: test_team_def test_player_def)
  then show ?thesis
    using o SetCaptain_null[of 1 "test_team 2 3 ''Cid''" test_arena "test_player 1 ''Ann''"] by simp
qed

text \<open>Who leaves a team is to leave the arena queues, but the loop asks the battleground templates with the
  type of the queue and stops at the first one that is missing or no arena. A player whose first queue is such
  a one (the 5v5 queue, 7, has the number of the Eye of the Storm template) stays in all his queues.\<close>

theorem DelMember_keeps_queues:
  assumes "ae_queues env g = q # qs" "q \<noteq> 0" "ae_bg_template env q \<noteq> Some True"
  shows "LeaveQueue h x \<in> set (av_log (snd (DelMember env g t s))) \<longleftrightarrow> LeaveQueue h x \<in> set (av_log s)"
proof -
  have q: "leave_queues env g (ae_queues env g) s = s" for s
    using assms by (auto split: option.split)
  have info: "LeaveQueue h x \<in> set (av_log (SetArenaTeamInfoField g k f v s)) \<longleftrightarrow> LeaveQueue h x \<in> set (av_log s)" for k f v s
    by (simp add: SetArenaTeamInfoField_def Let_def)
  show ?thesis
    by (cases "GetPlayer (av_world s) g")
       (simp_all add: DelMember_def Let_def q info SetInArenaTeam_def SendArenaTeamCommandResult_def)
qed

theorem DelMember_keeps_queues_witness:
  "LeaveQueue 1 7 \<notin> set (av_log (snd (DelMember test_arena_env 1 (test_team 1 1 ''Ann'') test_arena)))"
  using DelMember_keeps_queues[of test_arena_env 1 7 "[0, 0]" 1 7 "test_team 1 1 ''Ann''" test_arena]
  by (simp add: test_arena_env_def test_arena_def)

section \<open>Ratings and points\<close>

lemma rank_count:
  "rank_among t teams =
     1 + of_nat (length (filter (\<lambda>p. fst p \<noteq> at_id t \<and> at_type (snd p) = at_type t
        \<and> st_rating (at_stats (snd p)) > st_rating (at_stats t)) teams))"
proof -
  have "fold (\<lambda>p r. if P p then r + 1 else r) ps r = r + of_nat (length (filter P ps))" for P and ps :: "(u32 \<times> arena_team) list" and r :: u32
    by (induction ps arbitrary: r) auto
  then show ?thesis unfolding rank_among_def by simp
qed

lemma change_rating_value:
  assumes "unat r < 2 ^ 31" "- (2 ^ 31) \<le> m" "int (unat r) + m < 2 ^ 31"
  shows "int (unat (change_rating m r)) = max 0 (int (unat r) + m)"
proof -
  have u: "uint r = int (unat r)" by (rule uint_nat)
  have "int (unat r) < int (2 ^ 31)" using assms(1) by (simp only: of_nat_less_iff)
  moreover have "int (2 ^ 31) = 2 ^ 31" by simp
  ultimately have ub: "0 \<le> uint r" "uint r < 2 ^ 31" using u by linarith+
  have "sint r = signed_take_bit 31 (uint r)" by (simp add: sint_uint)
  also have "\<dots> = uint r" by (rule signed_take_bit_int_eq_self) (use ub in linarith)+
  finally have s: "sint r = int (unat r)" by (rule trans[OF _ u])
  show ?thesis
  proof (cases "int (unat r) + m < 0")
    case False
    have "r + word_of_int m = word_of_int (uint r + m)" by (simp add: of_int_add)
    then have "uint (r + word_of_int m) = uint (word_of_int (uint r + m) :: u32)" by (rule arg_cong)
    also have "\<dots> = (uint r + m) mod 2 ^ LENGTH(32)" by (rule uint_word_of_int)
    finally have "uint (r + word_of_int m) = (uint r + m) mod 2 ^ 32" by simp
    also have "\<dots> = uint r + m"
    proof (rule mod_pos_pos_trivial)
      have "(2 :: int) ^ 31 < 2 ^ 32" by simp
      then show "uint r + m < 2 ^ 32" using u assms(3) by linarith
    qed (use False u in linarith)
    finally have "int (unat (r + word_of_int m)) = int (unat r) + m" by (metis u uint_nat)
    then show ?thesis using False by (simp add: change_rating_def s)
  qed (simp add: change_rating_def s)
qed

text \<open>C33: A game moves the rating of a team by the modification, never below zero, counts one more game of the week
  and of the season, and ranks the team one behind the teams of its size that the server knows with a better rating.\<close>

theorem FinishGame_result:
  assumes "unat (st_rating (at_stats t)) < 2 ^ 31" "- (2 ^ 31) \<le> m" "int (unat (st_rating (at_stats t))) + m < 2 ^ 31"
    and "unat (st_games_week (at_stats t)) + 1 < 2 ^ 32" "unat (st_games_season (at_stats t)) + 1 < 2 ^ 32"
    and "length (av_teams s) + 1 < 2 ^ 32"
    and "t' = FinishGame m t s"
  shows "int (unat (st_rating (at_stats t'))) = max 0 (int (unat (st_rating (at_stats t))) + m)
     \<and> unat (st_games_week (at_stats t')) = unat (st_games_week (at_stats t)) + 1
     \<and> unat (st_games_season (at_stats t')) = unat (st_games_season (at_stats t)) + 1
     \<and> unat (st_rank (at_stats t')) = 1 + length (filter (\<lambda>p. fst p \<noteq> at_id t \<and> at_type (snd p) = at_type t
          \<and> st_rating (at_stats (snd p)) > st_rating (at_stats t')) (av_teams s))"
proof -
  have r: "st_rating (at_stats t') = change_rating m (st_rating (at_stats t))"
    and g: "st_games_week (at_stats t') = st_games_week (at_stats t) + 1"
      "st_games_season (at_stats t') = st_games_season (at_stats t) + 1"
    and k: "st_rank (at_stats t') = rank_among (t\<lparr>at_stats := (at_stats t)\<lparr>st_rating := st_rating (at_stats t'),
        st_games_week := st_games_week (at_stats t'), st_games_season := st_games_season (at_stats t')\<rparr>\<rparr>) (av_teams s)"
    by (simp_all add: assms(7) FinishGame_def Let_def)
  let ?l = "length (filter (\<lambda>p. fst p \<noteq> at_id t \<and> at_type (snd p) = at_type t
          \<and> st_rating (at_stats (snd p)) > st_rating (at_stats t')) (av_teams s))"
  have "?l \<le> length (av_teams s)" by (rule length_filter_le)
  then have l: "1 + ?l < 2 ^ 32" using assms(6) by linarith
  have "st_rank (at_stats t') = of_nat (1 + ?l)" by (simp add: k rank_count)
  then have "unat (st_rank (at_stats t')) = (1 + ?l) mod 2 ^ 32" by (simp only: unat_of_nat) simp
  then have rk: "unat (st_rank (at_stats t')) = 1 + ?l" using l by (simp only: mod_less)
  have "unat (x + 1) = unat x + 1" if "unat x + 1 < 2 ^ 32" for x :: u32
    using that by (subst unat_add_lem[THEN iffD1]) simp_all
  then show ?thesis using change_rating_value[OF assms(1-3)] rk assms(4,5) by (simp add: r g)
qed

theorem FinishGame_result_witness:
  "unat (st_rating (at_stats (FinishGame (- 1600) (test_team 1 1 ''Ann'') test_arena))) = 0
   \<and> unat (st_rank (at_stats (FinishGame (- 1600) (test_team 1 1 ''Ann'') test_arena))) = 2"
proof -
  have t: "at_stats (test_team 1 1 ''Ann'') = \<lparr>st_rating = 1500, st_games_week = 0, st_wins_week = 0, st_games_season = 0,
      st_wins_season = 0, st_rank = 0\<rparr>" "at_id (test_team 1 1 ''Ann'') = 1"
    by (simp_all add: test_team_def ArenaTeam_new_def)
  have f: "int (unat (st_rating (at_stats (FinishGame (- 1600) (test_team 1 1 ''Ann'') test_arena)))) = 0"
    and r: "unat (st_rank (at_stats (FinishGame (- 1600) (test_team 1 1 ''Ann'') test_arena))) =
      1 + length (filter (\<lambda>p. fst p \<noteq> 1 \<and> at_type (snd p) = at_type (test_team 1 1 ''Ann'')
          \<and> st_rating (at_stats (snd p)) > st_rating (at_stats (FinishGame (- 1600) (test_team 1 1 ''Ann'') test_arena))) (av_teams test_arena))"
    using FinishGame_result[of "test_team 1 1 ''Ann''" "- 1600" test_arena] by (simp_all add: t) (simp_all add: test_arena_def)
  have z: "st_rating (at_stats (FinishGame (- 1600) (test_team 1 1 ''Ann'') test_arena)) = 0" using f by (metis of_nat_eq_0_iff unat_eq_zero)
  show ?thesis using r z by (simp add: test_arena_def test_team_def ArenaTeam_new_def)
qed

text \<open>What a team offers its members: nothing with fewer than ten games, else the points of the rating to
  those who played three games in ten, and zero to the others.\<close>

definition arena_offers :: "arena_env \<Rightarrow> arena_team \<Rightarrow> (u32 \<times> u32) list" where
  "arena_offers env t =
     (if st_games_week (at_stats t) < 10 then []
      else map (\<lambda>m. (GUID_LOPART (am_guid m),
             if unat (am_games_week m) \<ge> min_plays (st_games_week (at_stats t))
             then GetPoints env (am_personal_rating m) t else 0)) (at_members t))"

definition offer :: "u32 \<times> u32 \<Rightarrow> (u32 \<times> u32) list \<Rightarrow> (u32 \<times> u32) list" where
  "offer o' PlayerPoints =
     (case sm_find (fst o') PlayerPoints of
        Some p \<Rightarrow> if p < snd o' then sm_set (fst o') (snd o') PlayerPoints else PlayerPoints
      | None \<Rightarrow> sm_set (fst o') (snd o') PlayerPoints)"

lemma points_loop_offers:
  "points_loop env t ms pp = fold offer (map (\<lambda>m. (GUID_LOPART (am_guid m),
             if unat (am_games_week m) \<ge> min_plays (st_games_week (at_stats t))
             then GetPoints env (am_personal_rating m) t else 0)) ms) pp"
proof (induction ms arbitrary: pp)
  case (Cons a ms)
  show ?case
    by (subst points_loop.simps) (simp only: Let_def list.map fold.simps o_def Cons.IH offer_def[of "(GUID_LOPART (am_guid a), _)"] fst_conv snd_conv)
qed simp

lemma arena_points_offers: "arena_points env teams = fold offer (concat (map (\<lambda>p. arena_offers env (snd p)) teams)) []"
proof -
  have "UpdateArenaPointsHelper env t pp = fold offer (arena_offers env t) pp" for t pp
    by (simp add: UpdateArenaPointsHelper_def arena_offers_def points_loop_offers)
  then have "fold (\<lambda>p pp. UpdateArenaPointsHelper env (snd p) pp) ts pp
      = fold offer (concat (map (\<lambda>p. arena_offers env (snd p)) ts)) pp" for ts :: "(u32 \<times> arena_team) list" and pp
    by (induction ts arbitrary: pp) simp_all
  then show ?thesis by (simp add: arena_points_def)
qed

definition best :: "u32 list \<Rightarrow> u32 option" where
  "best ps = (if ps = [] then None else Some (Max (set ps)))"

lemma best_snoc: "best (ps @ [p]) = Some (case best ps of None \<Rightarrow> p | Some q \<Rightarrow> max q p)"
  by (simp add: best_def max.commute)

lemma offers_best: "sm_find l (fold offer os []) = best (map snd (filter (\<lambda>o'. fst o' = l) os))"
proof (induction os rule: rev_induct)
  case (snoc x xs)
  show ?case
  proof (cases "fst x = l")
    case True
    then show ?thesis using snoc
      by (auto simp: offer_def best_snoc sm.find_put max_def split: option.split)
  next
    case False
    then show ?thesis using snoc by (auto simp: offer_def sm.find_put split: option.split)
  qed
qed (simp add: best_def sm_find_def)

lemma give_points_teams: "av_teams (fold give_points ps s) = av_teams s \<and> av_world (fold give_points ps s) = av_world s"
  by (induction ps arbitrary: s) (simp_all add: give_points_def split: option.split)

lemma NotifyStatsChanged_teams [simp]:
  "av_teams (NotifyStatsChanged t s) = av_teams s" "av_world (NotifyStatsChanged t s) = av_world s"
proof -
  have "av_teams (fold (\<lambda>g. Arena_Stats g t) gs s) = av_teams s \<and> av_world (fold (\<lambda>g. Arena_Stats g t) gs s) = av_world s" for gs
    by (induction gs arbitrary: s) simp_all
  then show "av_teams (NotifyStatsChanged t s) = av_teams s" "av_world (NotifyStatsChanged t s) = av_world s"
    by (simp_all add: NotifyStatsChanged_def)
qed

lemma finish_team_teams: "av_teams (finish_team t s) = sm_set (at_id t) (FinishWeek t) (av_teams s)"
  by (simp add: finish_team_def Let_def Arena_SaveToDB_def FinishWeek_def)

lemma finish_teams:
  "distinct (map fst ts) \<Longrightarrow> \<forall>(i, t) \<in> set ts. at_id t = i \<Longrightarrow>
     sm_find j (av_teams (fold (\<lambda>p. finish_team (snd p)) ts s)) =
       (case map_of ts j of Some t \<Rightarrow> Some (FinishWeek t) | None \<Rightarrow> sm_find j (av_teams s))"
  by (induction ts arbitrary: s) (auto simp: finish_team_teams sm.find_put image_iff split: option.split dest: map_of_SomeD)

text \<open>The action by which one entry of the map is paid out, and the recognition of payments to a player.\<close>

definition payment :: "world \<Rightarrow> u32 \<times> u32 \<Rightarrow> arena_action" where
  "payment w p = (if FindPlayer w (ucast (fst p)) True \<noteq> None then ModifyArenaPoints (ucast (fst p)) (snd p)
     else ASql (AddPoints (fst p) (snd p)))"

fun pays :: "u32 \<Rightarrow> arena_action \<Rightarrow> bool" where
  "pays l (ModifyArenaPoints g p) = (g = ucast l)"
| "pays l (ASql (AddPoints l' p)) = (l' = l)"
| "pays l a = False"

lemma av_log_emits: "av_log (emits as s) = av_log s @ as"
  unfolding emits_def by (induction as arbitrary: s) (auto simp: emit_def)

lemma give_points_log: "av_log (fold give_points ps s) = av_log s @ map (payment (av_world s)) ps"
proof (induction ps arbitrary: s)
  case (Cons p ps)
  have "give_points p s = emit (payment (av_world s) p) s"
    using GetPlayer_guid[of "av_world s" "ucast (fst p)" True] by (auto simp: give_points_def payment_def split: option.split)
  then show ?case using Cons by (simp add: emit_def)
qed simp

lemma pays_payment: "pays l (payment w p) \<longleftrightarrow> fst p = l"
proof -
  have "(ucast (ucast x :: u64) :: u32) = x" for x by (rule bit_word_eqI) (simp add: bit_simps)
  then have "(ucast x :: u64) = ucast y \<Longrightarrow> x = y" for x y :: u32 by metis
  then show ?thesis by (auto simp: payment_def)
qed

lemma find_filter:
  "sm_wf m \<Longrightarrow> filter (\<lambda>p. fst p = k) m = (case sm_find k m of None \<Rightarrow> [] | Some v \<Rightarrow> [(k, v)])"
proof (induction m)
  case (Cons a m)
  then have "\<forall>p \<in> set m. fst p \<noteq> fst a" "sm_wf m" by (auto simp: sm_wf_def)
  then show ?case using Cons.IH by (auto simp: sm_find_def filter_empty_conv)
qed simp

lemma arena_points_wf: "sm_wf (fold offer os [])"
  by (induction os rule: rev_induct) (auto simp: offer_def sm.wf_put split: option.split)

lemma finish_team_log:
  "\<exists>packets. av_log (finish_team t s) = av_log s @ ASql (UpdateStats (at_id t) (at_stats (FinishWeek t)))
     # map (\<lambda>m. ASql (UpdateMember (at_id t) (GUID_LOPART (am_guid m)) m)) (at_members (FinishWeek t)) @ packets
   \<and> (\<forall>l. filter (pays l) packets = [])"
proof -
  have "\<exists>ps. av_log (fold (\<lambda>g. Arena_Stats g t') gs s') = av_log s' @ ps \<and> (\<forall>l. filter (pays l) ps = [])" for t' gs s'
  proof (induction gs arbitrary: s')
    case (Cons g gs)
    show ?case using Cons[of "Arena_Stats g t' s'"] by (force simp: Arena_Stats_def emit_def Let_def)
  qed simp
  from this[where t' = "FinishWeek t" and gs = "team_online (FinishWeek t) (Arena_SaveToDB (FinishWeek t) (AddArenaTeam (FinishWeek t) s))"
      and s' = "Arena_SaveToDB (FinishWeek t) (AddArenaTeam (FinishWeek t) s)"]
  show ?thesis
    by (auto simp: finish_team_def Let_def NotifyStatsChanged_def Arena_SaveToDB_def av_log_emits emit_def
        AddArenaTeam_def FinishWeek_def)
qed

lemma finish_teams_log:
  "\<exists>log. av_log (fold (\<lambda>p. finish_team (snd p)) ts s) = av_log s @ log \<and> (\<forall>l. filter (pays l) log = [])
     \<and> (\<forall>p \<in> set ts. ASql (UpdateStats (at_id (snd p)) (at_stats (FinishWeek (snd p)))) \<in> set log
        \<and> (\<forall>m \<in> set (at_members (FinishWeek (snd p))).
             ASql (UpdateMember (at_id (snd p)) (GUID_LOPART (am_guid m)) m) \<in> set log))"
proof (induction ts arbitrary: s)
  case (Cons p ts)
  let ?t = "snd p"
  obtain packets where p: "av_log (finish_team ?t s) = av_log s @ ASql (UpdateStats (at_id ?t) (at_stats (FinishWeek ?t)))
      # map (\<lambda>m. ASql (UpdateMember (at_id ?t) (GUID_LOPART (am_guid m)) m)) (at_members (FinishWeek ?t)) @ packets"
    "\<forall>l. filter (pays l) packets = []"
    using finish_team_log by blast
  obtain log where l: "av_log (fold (\<lambda>p. finish_team (snd p)) ts (finish_team ?t s)) = av_log (finish_team ?t s) @ log"
      "\<forall>l. filter (pays l) log = []"
      "\<forall>p \<in> set ts. ASql (UpdateStats (at_id (snd p)) (at_stats (FinishWeek (snd p)))) \<in> set log
        \<and> (\<forall>m \<in> set (at_members (FinishWeek (snd p))).
             ASql (UpdateMember (at_id (snd p)) (GUID_LOPART (am_guid m)) m) \<in> set log)"
    using Cons.IH[of "finish_team ?t s"] by blast
  show ?case using p l by (simp add: filter_map o_def)
qed simp

lemma DistributeArenaPoints_log:
  "\<exists>start log final. av_log (DistributeArenaPoints env s)
      = av_log s @ start @ map (payment (av_world s)) (arena_points env (av_teams s)) @ log @ final
    \<and> (\<forall>l. filter (pays l) start = [] \<and> filter (pays l) log = [] \<and> filter (pays l) final = [])
    \<and> (\<forall>p \<in> set (av_teams s). ASql (UpdateStats (at_id (snd p)) (at_stats (FinishWeek (snd p)))) \<in> set log
        \<and> (\<forall>m \<in> set (at_members (FinishWeek (snd p))).
             ASql (UpdateMember (at_id (snd p)) (GUID_LOPART (am_guid m)) m) \<in> set log))"
proof -
  have texts: "av_log (emit a s) = av_log s @ [a]" "av_teams (emit a s) = av_teams s" "av_world (emit a s) = av_world s" for a s
    by (simp_all add: emit_def)
  obtain a b c d e f where d: "DistributeArenaPoints env s =
      emit (SendGlobalText f) (emit (SendGlobalText e) (fold (\<lambda>p. finish_team (snd p)) (av_teams s)
        (emit (SendGlobalText d) (emit (SendGlobalText c) (fold give_points (arena_points env (av_teams s))
          (emit (SendGlobalText b) (emit (SendGlobalText a) s)))))))"
    by (simp add: DistributeArenaPoints_def Let_def give_points_teams)
  obtain log where log: "av_log (fold (\<lambda>p. finish_team (snd p)) (av_teams s)
        (emit (SendGlobalText d) (emit (SendGlobalText c) (fold give_points (arena_points env (av_teams s))
          (emit (SendGlobalText b) (emit (SendGlobalText a) s))))))
      = av_log s @ [SendGlobalText a, SendGlobalText b] @ map (payment (av_world s)) (arena_points env (av_teams s))
        @ [SendGlobalText c, SendGlobalText d] @ log"
    "\<forall>l. filter (pays l) log = []"
    "\<forall>p \<in> set (av_teams s). ASql (UpdateStats (at_id (snd p)) (at_stats (FinishWeek (snd p)))) \<in> set log
        \<and> (\<forall>m \<in> set (at_members (FinishWeek (snd p))).
             ASql (UpdateMember (at_id (snd p)) (GUID_LOPART (am_guid m)) m) \<in> set log)"
    using finish_teams_log[of "av_teams s" "emit (SendGlobalText d) (emit (SendGlobalText c) (fold give_points
        (arena_points env (av_teams s)) (emit (SendGlobalText b) (emit (SendGlobalText a) s))))"]
    by (auto simp: texts give_points_log)
  show ?thesis
    by (rule exI[of _ "[SendGlobalText a, SendGlobalText b]"],
        rule exI[of _ "[SendGlobalText c, SendGlobalText d] @ log"],
        rule exI[of _ "[SendGlobalText e, SendGlobalText f]"]) (use log in \<open>auto simp: d texts\<close>)
qed

text \<open>C34: The weekly distribution pays each player once: the best of the offers of his teams, whatever their
  order, added to his points when he is connected and to his row otherwise; a player without an offer
  is paid nothing. Every team has its counters of the week at zero afterwards, and those of its members,
  is otherwise as before, and both are written to the tables.\<close>

theorem DistributeArenaPoints_result:
  assumes "sm_wf (av_teams s)" and "\<forall>(i, t) \<in> set (av_teams s). at_id t = i"
    and "reset = (\<lambda>t. t\<lparr>at_stats := (at_stats t)\<lparr>st_games_week := 0, st_wins_week := 0\<rparr>,
      at_members := map (\<lambda>m. m\<lparr>am_games_week := 0, am_wins_week := 0\<rparr>) (at_members t)\<rparr>)"
  shows "\<exists>log. av_log (DistributeArenaPoints env s) = av_log s @ log
    \<and> (\<forall>l. filter (pays l) log =
        (let ps = map snd (filter (\<lambda>o'. fst o' = l) (concat (map (\<lambda>p. arena_offers env (snd p)) (av_teams s))))
         in if ps = [] then [] else [payment (av_world s) (l, Max (set ps))]))
    \<and> (\<forall>i. GetArenaTeamById i (DistributeArenaPoints env s) = map_option reset (GetArenaTeamById i s))
    \<and> (\<forall>(i, t) \<in> set (av_teams s). ASql (UpdateStats i (at_stats (reset t))) \<in> set log
        \<and> (\<forall>m \<in> set (at_members (reset t)). ASql (UpdateMember i (GUID_LOPART (am_guid m)) m) \<in> set log))"
proof -
  have reset: "reset = FinishWeek" by (rule ext) (simp add: assms(3) FinishWeek_def)
  have d: "distinct (map fst (av_teams s))"
    using assms(1) by (auto simp: sm_wf_def strict_sorted_iff)
  have teams: "GetArenaTeamById i (DistributeArenaPoints env s) = map_option reset (GetArenaTeamById i s)" for i
    using give_points_teams finish_teams[OF d assms(2)]
    by (simp add: reset GetArenaTeamById_def DistributeArenaPoints_def Let_def sm_find_def split: option.split)
  let ?os = "concat (map (\<lambda>p. arena_offers env (snd p)) (av_teams s))"
  have paid: "filter (pays l) (map (payment (av_world s)) (arena_points env (av_teams s))) =
      (let ps = map snd (filter (\<lambda>o'. fst o' = l) ?os) in if ps = [] then [] else [payment (av_world s) (l, Max (set ps))])" for l
    using find_filter[OF arena_points_wf, of l ?os]
    by (simp add: filter_map o_def pays_payment arena_points_offers offers_best best_def Let_def)
  obtain start log final where log: "av_log (DistributeArenaPoints env s)
      = av_log s @ start @ map (payment (av_world s)) (arena_points env (av_teams s)) @ log @ final"
    "\<forall>l. filter (pays l) start = [] \<and> filter (pays l) log = [] \<and> filter (pays l) final = []"
    "\<forall>p \<in> set (av_teams s). ASql (UpdateStats (at_id (snd p)) (at_stats (FinishWeek (snd p)))) \<in> set log
        \<and> (\<forall>m \<in> set (at_members (FinishWeek (snd p))).
             ASql (UpdateMember (at_id (snd p)) (GUID_LOPART (am_guid m)) m) \<in> set log)"
    using DistributeArenaPoints_log by metis
  let ?log = "start @ map (payment (av_world s)) (arena_points env (av_teams s)) @ log @ final"
  have "ASql (UpdateStats i (at_stats (reset t))) \<in> set ?log
      \<and> (\<forall>m \<in> set (at_members (reset t)). ASql (UpdateMember i (GUID_LOPART (am_guid m)) m) \<in> set ?log)"
    if "(i, t) \<in> set (av_teams s)" for i t
    using bspec[OF log(3) that] bspec[OF assms(2) that] by (auto simp: reset)
  then show ?thesis
    using log(1,2) teams paid by (intro exI[of _ ?log] conjI) auto
qed

definition test_played :: arena_server where
  "test_played = test_arena\<lparr>av_teams := [(1, (test_team 1 1 ''Ann'')
     \<lparr>at_stats := (at_stats ArenaTeam_new)\<lparr>st_games_week := 10\<rparr>, at_members := [(new_member 1 ''Ann'' 1)\<lparr>am_games_week := 3\<rparr>]\<rparr>)]\<rparr>"

theorem DistributeArenaPoints_result_witness:
  "(\<exists>log. av_log (DistributeArenaPoints test_arena_env test_played) = log \<and> filter (pays 1) log = [ModifyArenaPoints 1 150])
   \<and> map_option (\<lambda>t. st_games_week (at_stats t)) (GetArenaTeamById 1 (DistributeArenaPoints test_arena_env test_played)) = Some 0"
proof -
  have wf: "sm_wf (av_teams test_played)" "\<forall>(i, t) \<in> set (av_teams test_played). at_id t = i"
    by (simp_all add: test_played_def sm_wf_def test_team_def)
  have offers: "concat (map (\<lambda>p. arena_offers test_arena_env (snd p)) (av_teams test_played)) = [(1, 150)]"
    and ann: "payment (av_world test_played) (1, 150) = ModifyArenaPoints 1 150"
    by code_simp+
  have t: "GetArenaTeamById 1 test_played \<noteq> None" "av_log test_played = []"
    by (simp_all add: test_played_def test_arena_def GetArenaTeamById_def sm_find_def)
  show ?thesis
    using DistributeArenaPoints_result[OF wf refl, of test_arena_env] t
    by (auto simp: offers ann)
qed

end
