(* ===== verification/Group.thy ===== *)
theory Group
  imports World
begin

text \<open>
  Parties and raids (class \<open>Group\<close> of src/src/server/game/Groups/Group.h and Group.cpp, the group references of a
  player in Player.cpp). A group is an object on a heap, named by its address, since players, invitations and
  the set of groups of \<open>ObjectMgr\<close> refer to it: a use after \<open>delete\<close> is an error value. The
  members are a list of slots; the players in the world (or connected) are linked to the group by one of
  their two references, \<open>m_group\<close> and \<open>m_originalGroup\<close>. Instance binds, script hooks, visibility and the
  statistics packets of members are actions of the log, in the order of the code.
\<close>

section \<open>Data\<close>

type_synonym gaddr = nat

abbreviation MAXGROUPSIZE :: nat where "MAXGROUPSIZE \<equiv> 5"
abbreviation MAXRAIDSIZE :: nat where "MAXRAIDSIZE \<equiv> 40"
abbreviation MAX_RAID_SUBGROUPS :: nat where "MAX_RAID_SUBGROUPS \<equiv> 8"
abbreviation TARGETICONCOUNT :: nat where "TARGETICONCOUNT \<equiv> 8"
abbreviation LEVELREQUIREMENT_HEROIC :: u32 where "LEVELREQUIREMENT_HEROIC \<equiv> 70"

abbreviation MASTER_LOOT :: u8 where "MASTER_LOOT \<equiv> 2"
abbreviation GROUP_LOOT :: u8 where "GROUP_LOOT \<equiv> 3"
abbreviation NEED_BEFORE_GREED :: u8 where "NEED_BEFORE_GREED \<equiv> 4"
abbreviation ITEM_QUALITY_UNCOMMON :: u8 where "ITEM_QUALITY_UNCOMMON \<equiv> 2"
abbreviation ITEM_QUALITY_ARTIFACT :: u8 where "ITEM_QUALITY_ARTIFACT \<equiv> 6"

abbreviation GROUP_ASSISTANT :: u8 where "GROUP_ASSISTANT \<equiv> 0x01"
abbreviation GROUP_MAIN_ASSISTANT :: u8 where "GROUP_MAIN_ASSISTANT \<equiv> 0x02"
abbreviation GROUP_MAIN_TANK :: u8 where "GROUP_MAIN_TANK \<equiv> 0x04"
abbreviation MEMBER_STATUS_ONLINE :: u8 where "MEMBER_STATUS_ONLINE \<equiv> 0x01"
abbreviation MEMBER_STATUS_PVP :: u8 where "MEMBER_STATUS_PVP \<equiv> 0x02"

abbreviation SMSG_GROUP_UNINVITE :: u16 where "SMSG_GROUP_UNINVITE \<equiv> 0x077"
abbreviation SMSG_GROUP_SET_LEADER :: u16 where "SMSG_GROUP_SET_LEADER \<equiv> 0x079"
abbreviation SMSG_GROUP_DESTROYED :: u16 where "SMSG_GROUP_DESTROYED \<equiv> 0x07C"
abbreviation SMSG_GROUP_LIST :: u16 where "SMSG_GROUP_LIST \<equiv> 0x07D"
abbreviation MSG_RAID_TARGET_UPDATE :: u16 where "MSG_RAID_TARGET_UPDATE \<equiv> 0x321"
abbreviation MSG_RAID_READY_CHECK_CONFIRM :: u16 where "MSG_RAID_READY_CHECK_CONFIRM \<equiv> 0x3AE"

datatype roll_vote = ROLL_PASS | ROLL_NEED | ROLL_GREED | ROLL_NOT_EMITED_YET | ROLL_NOT_VALID

datatype remove_method = GROUP_REMOVEMETHOD_DEFAULT | GROUP_REMOVEMETHOD_KICK | GROUP_REMOVEMETHOD_LEAVE

record member_slot =
  ms_guid :: guid
  ms_name :: string
  ms_group :: u8
  ms_assistant :: bool

text \<open>The votes are a \<open>std::map\<close> by player; \<open>ro_loot\<close> is the target of the validator reference.\<close>

record roll =
  ro_itemGUID :: guid
  ro_itemid :: u32
  ro_itemRandomPropId :: u32
  ro_itemRandomSuffix :: u32
  ro_loot :: "nat option"
  ro_playerVote :: "(guid \<times> roll_vote) list"
  ro_totalPlayersRolling :: u8
  ro_totalNeed :: u8
  ro_totalGreed :: u8
  ro_totalPass :: u8
  ro_itemSlot :: u8

text \<open>\<open>gp_refs\<close> is the list of linked references, the latest first: a player and whether it is his \<open>m_group\<close>.\<close>

record party =
  gp_members :: "member_slot list"
  gp_refs :: "(guid \<times> bool) list"
  gp_invitees :: "guid list"
  gp_leaderGuid :: guid
  gp_leaderName :: string
  gp_mainTank :: guid
  gp_mainAssistant :: guid
  gp_raid :: bool
  gp_difficulty :: u8
  gp_bg :: bool
  gp_targetIcons :: "guid list"
  gp_lootMethod :: u8
  gp_lootThreshold :: u8
  gp_looterGuid :: guid
  gp_masterLooterGuid :: guid
  gp_rolls :: "roll list"
  gp_subGroupsCounts :: "u8 list option"

definition Group_new :: party where
  "Group_new = \<lparr>gp_members = [], gp_refs = [], gp_invitees = [], gp_leaderGuid = 0, gp_leaderName = '''', gp_mainTank = 0,
     gp_mainAssistant = 0, gp_raid = False, gp_difficulty = 0, gp_bg = False, gp_targetIcons = replicate 8 0,
     gp_lootMethod = 0, gp_lootThreshold = ITEM_QUALITY_UNCOMMON, gp_looterGuid = 0, gp_masterLooterGuid = 0,
     gp_rolls = [], gp_subGroupsCounts = None\<rparr>"

text \<open>The references of a player; a subgroup stays in its reference when that is unlinked.\<close>

record group_refs =
  gr_group :: "gaddr option"
  gr_subgroup :: u8
  gr_original :: "gaddr option"
  gr_originalSub :: u8
  gr_invite :: "gaddr option"

record loot_item =
  li_itemid :: u32
  li_randomSuffix :: u32
  li_randomPropertyId :: u32
  li_count :: u8
  li_is_looted :: bool
  li_is_blocked :: bool
  li_freeforall :: bool
  li_is_underthreshold :: bool

record loot =
  lo_items :: "loot_item list"
  lo_quest_items :: "loot_item list"
  lo_unlootedCount :: u8

datatype group_sql =
    DeleteGroup u32
  | DeleteGroupMembers u32
  | InsertGroup u32 u32 u32 u8 u32 u8 "guid list" bool u8 guid
  | InsertGroupMember u32 u32 bool u8
  | DeleteGroupMember u32
  | UpdateRaid u32
  | UpdateLeaderInstances u32 u32
  | UpdateLeader u32 u32
  | UpdateSubgroup u8 u32
  | UpdateAssistant bool u32
  | UpdateMainTank u32 u32
  | UpdateMainAssistant u32 u32
  | UpdateDifficulty u8 u32

datatype group_action =
    GSend guid packet
  | GSql group_sql
  | GHook string gaddr                   \<comment> \<open>\<open>sScriptMgr.On...\<close>\<close>
  | UpdateVisibility guid                \<comment> \<open>\<open>UpdateObjectVisibility(false)\<close>\<close>
  | ConvertInstancesToGroup "guid option" gaddr guid
  | RemovePermanentBinds gaddr
  | ResetInstances guid
  | ResetGroupInstances gaddr
  | CheckInstanceValid guid              \<comment> \<open>the bind of the group makes the player's instance valid\<close>
  | HomebindIfInstance guid
  | SendDungeonDifficulty guid u8
  | UpdateOutOfRange guid gaddr          \<comment> \<open>\<open>SetGroupUpdateFlag(FULL)\<close> and \<open>UpdatePlayerOutOfRange\<close>\<close>
  | ForceValuesUpdate guid
  | DelayedGroupRestore guid
  | StoreNewItem guid u32 u32            \<comment> \<open>player, item, random property\<close>
  | SendEquipError guid u8
  | NotifyItemRemoved nat u8
  | SetPassOnGroupLoot guid u32
  | StartLootTimer u32 guid              \<comment> \<open>of the looted object, with the leader of the group\<close>

datatype group_error =
    DeletedGroup gaddr
  | DeletedPlayer guid                   \<comment> \<open>an invitation is a \<open>Player*\<close>, whose player has logged out\<close>
  | OutOfBounds nat
  | NullPlayer
  | NullItem
  | NullLoot

record group_server =
  gs_world :: world
  gs_refs :: "guid \<Rightarrow> group_refs"
  gs_heap :: "gaddr \<Rightarrow> party option"
  gs_next :: gaddr
  gs_set :: "gaddr list"
  gs_bgraid :: "nat \<Rightarrow> gaddr option"
  gs_difficulty :: "guid \<Rightarrow> u8"
  gs_loots :: "nat \<Rightarrow> loot option"
  gs_log :: "group_action list"

type_synonym group_result = "group_error + group_server"

text \<open>\<open>gs_bgraid\<close> holds the raid of each side of each battleground (\<open>Battleground::m_BgRaids\<close>).\<close>

section \<open>The heap and the log\<close>

definition glog :: "group_action list \<Rightarrow> group_server \<Rightarrow> group_server" where
  "glog as s = s\<lparr>gs_log := gs_log s @ as\<rparr>"

definition put_party :: "gaddr \<Rightarrow> party \<Rightarrow> group_server \<Rightarrow> group_server" where
  "put_party a g s = s\<lparr>gs_heap := (gs_heap s)(a := Some g)\<rparr>"

definition with_party :: "gaddr \<Rightarrow> group_server \<Rightarrow> (party \<Rightarrow> group_error + 'a) \<Rightarrow> group_error + 'a" where
  "with_party a s k = (case gs_heap s a of None \<Rightarrow> Inl (DeletedGroup a) | Some g \<Rightarrow> k g)"

definition and_then :: "group_error + 'a \<Rightarrow> ('a \<Rightarrow> group_error + 'b) \<Rightarrow> group_error + 'b" where
  "and_then m k = (case m of Inl e \<Rightarrow> Inl e | Inr x \<Rightarrow> k x)"

fun for_all :: "('a \<Rightarrow> group_server \<Rightarrow> group_result) \<Rightarrow> 'a list \<Rightarrow> group_server \<Rightarrow> group_result" where
  "for_all f [] s = Inr s"
| "for_all f (x # xs) s = and_then (f x s) (for_all f xs)"

definition upd_refs :: "guid \<Rightarrow> (group_refs \<Rightarrow> group_refs) \<Rightarrow> group_server \<Rightarrow> group_server" where
  "upd_refs h f s = s\<lparr>gs_refs := (gs_refs s)(h := f (gs_refs s h))\<rparr>"

abbreviation party_sql :: "group_sql \<Rightarrow> group_server \<Rightarrow> group_server" where
  "party_sql q \<equiv> glog [GSql q]"

section \<open>References of players\<close>

text \<open>\<open>Reference::link\<close> cuts the old link first and puts the reference in front of the list of its target;
  \<open>b\<close> tells \<open>m_group\<close> from \<open>m_originalGroup\<close>.\<close>

definition ref_target :: "bool \<Rightarrow> group_refs \<Rightarrow> gaddr option" where
  "ref_target b r = (if b then gr_group r else gr_original r)"

definition set_target :: "bool \<Rightarrow> gaddr option \<Rightarrow> group_refs \<Rightarrow> group_refs" where
  "set_target b t r = (if b then r\<lparr>gr_group := t\<rparr> else r\<lparr>gr_original := t\<rparr>)"

definition set_sub :: "bool \<Rightarrow> u8 \<Rightarrow> group_refs \<Rightarrow> group_refs" where
  "set_sub b k r = (if b then r\<lparr>gr_subgroup := k\<rparr> else r\<lparr>gr_originalSub := k\<rparr>)"

definition unlink :: "guid \<Rightarrow> bool \<Rightarrow> group_server \<Rightarrow> group_server" where
  "unlink h b s =
     (let s1 = (case ref_target b (gs_refs s h) of
                  None \<Rightarrow> s
                | Some a \<Rightarrow>
                    (case gs_heap s a of
                       None \<Rightarrow> s
                     | Some g \<Rightarrow> put_party a (g\<lparr>gp_refs := filter (\<lambda>x. x \<noteq> (h, b)) (gp_refs g)\<rparr>) s))
      in upd_refs h (set_target b None) s1)"

definition link :: "guid \<Rightarrow> bool \<Rightarrow> gaddr \<Rightarrow> u8 \<Rightarrow> group_server \<Rightarrow> group_result" where
  "link h b a sub s =
     (let s = (if ref_target b (gs_refs s h) \<noteq> None then unlink h b s else s)
      in with_party a s (\<lambda>g.
           Inr (upd_refs h (set_sub b sub \<circ> set_target b (Some a)) (put_party a (g\<lparr>gp_refs := (h, b) # gp_refs g\<rparr>) s))))"

definition SetGroup :: "guid \<Rightarrow> (gaddr \<times> u8) option \<Rightarrow> group_server \<Rightarrow> group_result" where
  "SetGroup h t s =
     and_then (case t of None \<Rightarrow> Inr (unlink h True s) | Some (a, sub) \<Rightarrow> link h True a sub s)
       (\<lambda>s. Inr (glog [UpdateVisibility h] s))"

definition SetOriginalGroup :: "guid \<Rightarrow> (gaddr \<times> u8) option \<Rightarrow> group_server \<Rightarrow> group_result" where
  "SetOriginalGroup h t s = (case t of None \<Rightarrow> Inr (unlink h False s) | Some (a, sub) \<Rightarrow> link h False a sub s)"

definition SetBattlegroundRaid :: "guid \<Rightarrow> gaddr \<Rightarrow> u8 \<Rightarrow> group_server \<Rightarrow> group_result" where
  "SetBattlegroundRaid h a sub s =
     and_then (SetOriginalGroup h (map_option (\<lambda>t. (t, gr_subgroup (gs_refs s h))) (gr_group (gs_refs s h))) s)
       (\<lambda>s. link h True a sub (unlink h True s))"

definition RemoveFromBattlegroundRaid :: "guid \<Rightarrow> group_server \<Rightarrow> group_result" where
  "RemoveFromBattlegroundRaid h s =
     (let s = unlink h True s; r = gs_refs s h
      in and_then (case gr_original r of None \<Rightarrow> Inr s | Some a \<Rightarrow> link h True a (gr_originalSub r) s)
           (SetOriginalGroup h None))"

definition SetGroupInvite :: "guid \<Rightarrow> gaddr option \<Rightarrow> group_server \<Rightarrow> group_server" where
  "SetGroupInvite h t = upd_refs h (\<lambda>r. r\<lparr>gr_invite := t\<rparr>)"

text \<open>\<open>Battleground::SetBgRaid\<close>: the raid that was there is a group like others from then on.\<close>

definition SetBgRaid :: "nat \<Rightarrow> gaddr option \<Rightarrow> group_server \<Rightarrow> group_server" where
  "SetBgRaid k t s =
     (let mark = (\<lambda>v a' s. case a' of
                    None \<Rightarrow> s
                  | Some a \<Rightarrow> (case gs_heap s a of None \<Rightarrow> s | Some g \<Rightarrow> put_party a (g\<lparr>gp_bg := v\<rparr>) s));
          s = mark True t (mark False (gs_bgraid s k) s)
      in s\<lparr>gs_bgraid := (gs_bgraid s)(k := t)\<rparr>)"

text \<open>\<open>delete group\<close>: the battleground forgets its raid, the reference manager cuts the links that are left.\<close>

definition forget_raid :: "gaddr \<Rightarrow> group_server \<Rightarrow> group_server" where
  "forget_raid a s = s\<lparr>gs_bgraid := (\<lambda>k. if gs_bgraid s k = Some a then None else gs_bgraid s k)\<rparr>"

definition delete_party :: "gaddr \<Rightarrow> group_server \<Rightarrow> group_server" where
  "delete_party a s =
     (let s = (case gs_heap s a of
                 None \<Rightarrow> s
               | Some g \<Rightarrow> fold (\<lambda>(h, b). upd_refs h (set_target b None)) (gp_refs g)
                             (if gp_bg g then forget_raid a s else s))
      in s\<lparr>gs_heap := (gs_heap s)(a := None)\<rparr>)"

definition AddGroup :: "gaddr \<Rightarrow> group_server \<Rightarrow> group_server" where
  "AddGroup a s = s\<lparr>gs_set := List.insert a (gs_set s)\<rparr>"

definition RemoveGroup :: "gaddr \<Rightarrow> group_server \<Rightarrow> group_server" where
  "RemoveGroup a s = s\<lparr>gs_set := removeAll a (gs_set s)\<rparr>"

section \<open>Members\<close>

definition is_member :: "guid \<Rightarrow> party \<Rightarrow> bool" where
  "is_member h g \<longleftrightarrow> list_ex (\<lambda>m. ms_guid m = h) (gp_members g)"

definition getMemberSlot :: "guid \<Rightarrow> party \<Rightarrow> member_slot option" where
  "getMemberSlot h g = find (\<lambda>m. ms_guid m = h) (gp_members g)"

definition GetMembersCount :: "party \<Rightarrow> u32" where
  "GetMembersCount g = of_nat (length (gp_members g))"

definition IsFull :: "party \<Rightarrow> bool" where
  "IsFull g \<longleftrightarrow> (if \<not> gp_raid g then length (gp_members g) \<ge> MAXGROUPSIZE else length (gp_members g) \<ge> MAXRAIDSIZE)"

definition IsLeader :: "guid \<Rightarrow> party \<Rightarrow> bool" where
  "IsLeader h g \<longleftrightarrow> gp_leaderGuid g = h"

definition IsAssistant :: "guid \<Rightarrow> party \<Rightarrow> bool" where
  "IsAssistant h g = (case getMemberSlot h g of None \<Rightarrow> False | Some m \<Rightarrow> ms_assistant m)"

definition GetMemberGUID :: "string \<Rightarrow> party \<Rightarrow> guid" where
  "GetMemberGUID n g = (case find (\<lambda>m. ms_name m = n) (gp_members g) of None \<Rightarrow> 0 | Some m \<Rightarrow> ms_guid m)"

definition GetMemberGroup :: "guid \<Rightarrow> party \<Rightarrow> u8" where
  "GetMemberGroup h g = (case getMemberSlot h g of None \<Rightarrow> 9 | Some m \<Rightarrow> ms_group m)"

text \<open>The first slot with the guid, changed or erased.\<close>

fun on_slot :: "guid \<Rightarrow> (member_slot \<Rightarrow> member_slot) \<Rightarrow> member_slot list \<Rightarrow> member_slot list" where
  "on_slot h f [] = []"
| "on_slot h f (m # ms) = (if ms_guid m = h then f m # ms else m # on_slot h f ms)"

fun erase_slot :: "guid \<Rightarrow> member_slot list \<Rightarrow> member_slot list" where
  "erase_slot h [] = []"
| "erase_slot h (m # ms) = (if ms_guid m = h then ms else m # erase_slot h ms)"

text \<open>The counters are an array of eight bytes, indexed without a check.\<close>

definition count_sub :: "u8 \<Rightarrow> u8 \<Rightarrow> party \<Rightarrow> group_error + party" where
  "count_sub d k g =
     (case gp_subGroupsCounts g of
        None \<Rightarrow> Inr g
      | Some c \<Rightarrow> if unat k < length c then Inr (g\<lparr>gp_subGroupsCounts := Some (c[unat k := c ! unat k + d])\<rparr>)
                  else Inl (OutOfBounds (unat k)))"

abbreviation SubGroupCounterIncrease :: "u8 \<Rightarrow> party \<Rightarrow> group_error + party" where
  "SubGroupCounterIncrease \<equiv> count_sub 1"

abbreviation SubGroupCounterDecrease :: "u8 \<Rightarrow> party \<Rightarrow> group_error + party" where
  "SubGroupCounterDecrease \<equiv> count_sub (- 1)"

definition HasFreeSlotSubGroup :: "u8 \<Rightarrow> party \<Rightarrow> group_error + bool" where
  "HasFreeSlotSubGroup k g =
     (case gp_subGroupsCounts g of
        None \<Rightarrow> Inr False
      | Some c \<Rightarrow> if unat k < length c then Inr (unat (c ! unat k) < MAXGROUPSIZE) else Inl (OutOfBounds (unat k)))"

fun init_counts :: "member_slot list \<Rightarrow> party \<Rightarrow> group_error + party" where
  "init_counts [] g = Inr g"
| "init_counts (m # ms) g = and_then (SubGroupCounterIncrease (ms_group m) g) (init_counts ms)"

definition initRaidSubGroupsCounter :: "party \<Rightarrow> group_error + party" where
  "initRaidSubGroupsCounter g = init_counts (gp_members g) (g\<lparr>gp_subGroupsCounts := Some (replicate MAX_RAID_SUBGROUPS 0)\<rparr>)"

definition GetFlags :: "member_slot \<Rightarrow> party \<Rightarrow> u8" where
  "GetFlags m g =
     (let f = 0; f = (if ms_assistant m then set_flag f GROUP_ASSISTANT else f);
          f = (if ms_guid m = gp_mainAssistant g then set_flag f GROUP_MAIN_ASSISTANT else f)
      in if ms_guid m = gp_mainTank g then set_flag f GROUP_MAIN_TANK else f)"

section \<open>Packets\<close>

definition list_entry :: "party \<Rightarrow> group_server \<Rightarrow> member_slot \<Rightarrow> u8 list" where
  "list_entry g s m =
     (let online = (if FindPlayer (gs_world s) (ms_guid m) True \<noteq> None then MEMBER_STATUS_ONLINE else 0)
      in enc_string (ms_name m) @ enc_u64 (ms_guid m)
         @ enc_u8 (online OR (if gp_bg g then MEMBER_STATUS_PVP else 0)) @ enc_u8 (ms_group m) @ enc_u8 (GetFlags m g))"

definition list_packet :: "party \<Rightarrow> group_server \<Rightarrow> member_slot \<Rightarrow> packet" where
  "list_packet g s m =
     put (WorldPacket_new SMSG_GROUP_LIST)
       (enc_u8 (if gp_raid g then 1 else 0) @ enc_u8 (if gp_bg g then 1 else 0) @ enc_u8 (ms_group m)
        @ enc_u8 (GetFlags m g) @ enc_u64 0x50000000FFFFFFFE @ enc_u32 (GetMembersCount g - 1)
        @ concat (map (list_entry g s) (filter (\<lambda>m2. ms_guid m \<noteq> ms_guid m2) (gp_members g)))
        @ enc_u64 (gp_leaderGuid g)
        @ (if GetMembersCount g - 1 \<noteq> 0
           then enc_u8 (gp_lootMethod g)
                @ enc_u64 (if gp_lootMethod g = MASTER_LOOT then gp_masterLooterGuid g else 0)
                @ enc_u8 (gp_lootThreshold g) @ enc_u8 (gp_difficulty g)
           else []))"

definition list_sends :: "gaddr \<Rightarrow> party \<Rightarrow> group_server \<Rightarrow> group_action list" where
  "list_sends a g s = concat (map (\<lambda>m.
     case FindPlayer (gs_world s) (ms_guid m) True of
       None \<Rightarrow> []
     | Some p \<Rightarrow>
         if gr_group (gs_refs s (ms_guid m)) \<noteq> Some a then []
         else if \<not> pl_in_world p then [DelayedGroupRestore (ms_guid m)]
         else [GSend (ms_guid m) (list_packet g s m)]) (gp_members g))"

definition SendUpdate :: "gaddr \<Rightarrow> group_server \<Rightarrow> group_result" where
  "SendUpdate a s = with_party a s (\<lambda>g. Inr (glog (list_sends a g s) s))"

text \<open>\<open>sub\<close> is \<open>None\<close> for all subgroups; the receivers are the linked players.\<close>

definition receivers :: "gaddr \<Rightarrow> party \<Rightarrow> bool \<Rightarrow> u8 option \<Rightarrow> guid \<Rightarrow> group_server \<Rightarrow> guid list" where
  "receivers a g ignorePlayersInBGRaid sub ignore s =
     map fst (filter (\<lambda>(h, b).
       \<not> (ignore \<noteq> 0 \<and> h = ignore) \<and> \<not> (ignorePlayersInBGRaid \<and> gr_group (gs_refs s h) \<noteq> Some a)
       \<and> (case sub of None \<Rightarrow> True
          | Some k \<Rightarrow> (if b then gr_subgroup (gs_refs s h) else gr_originalSub (gs_refs s h)) = k)) (gp_refs g))"

definition Group_BroadcastPacket :: "packet \<Rightarrow> bool \<Rightarrow> u8 option \<Rightarrow> guid \<Rightarrow> gaddr \<Rightarrow> group_server \<Rightarrow> group_result" where
  "Group_BroadcastPacket p ignoreBG sub ignore a s =
     with_party a s (\<lambda>g. Inr (glog (map (\<lambda>h. GSend h p) (receivers a g ignoreBG sub ignore s)) s))"

definition BroadcastReadyCheck :: "packet \<Rightarrow> gaddr \<Rightarrow> group_server \<Rightarrow> group_result" where
  "BroadcastReadyCheck p a s = with_party a s (\<lambda>g.
     Inr (glog (map (\<lambda>h. GSend h p) (filter (\<lambda>h. IsLeader h g \<or> IsAssistant h g) (map fst (gp_refs g)))) s))"

definition OfflineReadyCheck :: "gaddr \<Rightarrow> group_server \<Rightarrow> group_result" where
  "OfflineReadyCheck a s = with_party a s (\<lambda>g.
     for_all (\<lambda>m s. if FindPlayer (gs_world s) (ms_guid m) True = None
                  then BroadcastReadyCheck (put (WorldPacket_new MSG_RAID_READY_CHECK_CONFIRM)
                         (enc_u64 (ms_guid m) @ enc_u8 0)) a s
                  else Inr s) (gp_members g) s)"

definition BroadcastGroupUpdate :: "gaddr \<Rightarrow> group_server \<Rightarrow> group_result" where
  "BroadcastGroupUpdate a s = with_party a s (\<lambda>g.
     Inr (glog (map ForceValuesUpdate (filter (\<lambda>h. GetPlayer (gs_world s) h \<noteq> None) (map ms_guid (gp_members g)))) s))"

section \<open>Invitations\<close>

definition RemoveInvite :: "gaddr \<Rightarrow> guid \<Rightarrow> group_server \<Rightarrow> group_result" where
  "RemoveInvite a h s = with_party a s (\<lambda>g.
     Inr (SetGroupInvite h None (put_party a (g\<lparr>gp_invitees := removeAll h (gp_invitees g)\<rparr>) s)))"

text \<open>The invited are pointers to players.\<close>

definition uninvite_player :: "guid \<Rightarrow> group_server \<Rightarrow> group_result" where
  "uninvite_player h s =
     (if FindPlayer (gs_world s) h True = None then Inl (DeletedPlayer h) else Inr (SetGroupInvite h None s))"

definition RemoveAllInvites :: "gaddr \<Rightarrow> group_server \<Rightarrow> group_result" where
  "RemoveAllInvites a s = with_party a s (\<lambda>g.
     and_then (for_all uninvite_player (gp_invitees g) s) (\<lambda>s. Inr (put_party a (g\<lparr>gp_invitees := []\<rparr>) s)))"

text \<open>The group a player counts as being in: not his battleground raid.\<close>

definition own_group :: "guid \<Rightarrow> group_server \<Rightarrow> group_error + gaddr option" where
  "own_group h s =
     (case gr_group (gs_refs s h) of
        None \<Rightarrow> Inr None
      | Some b \<Rightarrow> with_party b s (\<lambda>g. Inr (if gp_bg g then gr_original (gs_refs s h) else Some b)))"

definition AddInvite :: "gaddr \<Rightarrow> guid \<Rightarrow> bool \<Rightarrow> group_server \<Rightarrow> group_error + bool \<times> group_server" where
  "AddInvite a h isLeader s =
     (if gr_invite (gs_refs s h) \<noteq> None then Inr (False, s)
      else and_then (own_group h s) (\<lambda>own.
        if own \<noteq> None then Inr (False, s)
        else and_then (RemoveInvite a h s) (\<lambda>s.
          with_party a s (\<lambda>g.
            let s = SetGroupInvite h (Some a) (put_party a (g\<lparr>gp_invitees := List.insert h (gp_invitees g)\<rparr>) s)
            in Inr (True, if isLeader then s else glog [GHook ''OnGroupInviteMember'' a] s)))))"

definition AddLeaderInvite :: "gaddr \<Rightarrow> player \<Rightarrow> group_server \<Rightarrow> group_error + bool \<times> group_server" where
  "AddLeaderInvite a player s =
     and_then (AddInvite a (pl_guid player) True s) (\<lambda>(ok, s).
       if \<not> ok then Inr (False, s)
       else with_party a s (\<lambda>g.
         Inr (True, put_party a (g\<lparr>gp_leaderGuid := pl_guid player, gp_leaderName := c_str (pl_name player)\<rparr>) s)))"

fun first_invited :: "(player \<Rightarrow> bool) \<Rightarrow> guid list \<Rightarrow> group_server \<Rightarrow> group_error + guid option" where
  "first_invited P [] s = Inr None"
| "first_invited P (x # xs) s =
     (case FindPlayer (gs_world s) x True of
        None \<Rightarrow> Inl (DeletedPlayer x)
      | Some p \<Rightarrow> if P p then Inr (Some x) else first_invited P xs s)"

definition GetInvited :: "gaddr \<Rightarrow> guid \<Rightarrow> group_server \<Rightarrow> group_error + guid option" where
  "GetInvited a h s = with_party a s (\<lambda>g. first_invited (\<lambda>p. pl_guid p = h) (gp_invitees g) s)"

definition GetInvited_name :: "gaddr \<Rightarrow> string \<Rightarrow> group_server \<Rightarrow> group_error + guid option" where
  "GetInvited_name a n s = with_party a s (\<lambda>g. first_invited (\<lambda>p. c_str (pl_name p) = n) (gp_invitees g) s)"

section \<open>Adding members\<close>

text \<open>The first subgroup with a free place, the first one for a party; \<open>None\<close> when a raid is full.\<close>

definition free_subgroup :: "party \<Rightarrow> u8 option" where
  "free_subgroup g =
     (case gp_subGroupsCounts g of
        None \<Rightarrow> Some 0
      | Some c \<Rightarrow> map_option of_nat (find (\<lambda>k. unat (c ! k) < MAXGROUPSIZE) [0..<MAX_RAID_SUBGROUPS]))"

text \<open>A connected player is linked to the group: with his second reference when it is not a battleground's and he is
  in another one.\<close>

definition place_member :: "guid \<Rightarrow> gaddr \<Rightarrow> bool \<Rightarrow> u8 \<Rightarrow> group_server \<Rightarrow> group_result" where
  "place_member h a bg sub s =
     (case FindPlayer (gs_world s) h True of
        None \<Rightarrow> Inr s
      | Some player \<Rightarrow>
          let s = SetGroupInvite h None s; grouped = gr_group (gs_refs s h) \<noteq> None
          in and_then (if grouped \<and> bg then SetBattlegroundRaid h a sub s
                       else if grouped then SetOriginalGroup h (Some (a, sub)) s
                       else SetGroup h (Some (a, sub)) s)
               (\<lambda>s. Inr (if pl_in_world player then glog [CheckInstanceValid h] s else s)))"

definition member_added :: "guid \<Rightarrow> gaddr \<Rightarrow> bool \<Rightarrow> u8 \<Rightarrow> group_server \<Rightarrow> group_result" where
  "member_added h a isAssistant sub s = with_party a s (\<lambda>g.
     let g = (if \<not> gp_raid g then g\<lparr>gp_targetIcons := replicate TARGETICONCOUNT 0\<rparr> else g);
         s = put_party a g s
     in Inr (if \<not> gp_bg g
             then party_sql (InsertGroupMember (GUID_LOPART (gp_leaderGuid g)) (GUID_LOPART h) isAssistant sub) s
             else s))"

definition addMember_to :: "gaddr \<Rightarrow> guid \<Rightarrow> string \<Rightarrow> bool \<Rightarrow> u8 \<Rightarrow> group_server \<Rightarrow> group_error + bool \<times> group_server" where
  "addMember_to a h name isAssistant sub s = with_party a s (\<lambda>g.
     if IsFull g then Inr (False, s)
     else if h = 0 then Inr (False, s)
     else
       let m = \<lparr>ms_guid = h, ms_name = name, ms_group = sub, ms_assistant = isAssistant\<rparr>
       in and_then (SubGroupCounterIncrease sub (g\<lparr>gp_members := gp_members g @ [m]\<rparr>)) (\<lambda>g.
          and_then (place_member h a (gp_bg g) sub (put_party a g s)) (\<lambda>s.
          and_then (member_added h a isAssistant sub s) (\<lambda>s. Inr (True, s)))))"

definition addMember :: "gaddr \<Rightarrow> guid \<Rightarrow> string \<Rightarrow> group_server \<Rightarrow> group_error + bool \<times> group_server" where
  "addMember a h name s = with_party a s (\<lambda>g.
     case free_subgroup g of None \<Rightarrow> Inr (False, s) | Some k \<Rightarrow> addMember_to a h name False k s)"

text \<open>The new member takes over the difficulty of a group that he does not lead.\<close>

definition member_joined :: "guid \<Rightarrow> gaddr \<Rightarrow> group_server \<Rightarrow> group_result" where
  "member_joined h a s =
     (case FindPlayer (gs_world s) h True of
        None \<Rightarrow> Inr s
      | Some player \<Rightarrow> with_party a s (\<lambda>g.
          let s = (if \<not> IsLeader h g \<and> \<not> gp_bg g
                   then let s = glog [ResetInstances h] s;
                            s = (if pl_level player \<ge> LEVELREQUIREMENT_HEROIC \<and> gs_difficulty s h \<noteq> gp_difficulty g
                                 then glog [SendDungeonDifficulty h (gp_difficulty g)]
                                        (s\<lparr>gs_difficulty := (gs_difficulty s)(h := gp_difficulty g)\<rparr>)
                                 else s)
                        in glog [GHook ''OnGroupMemberJoin'' a] s
                   else s)
          in Inr (glog [UpdateOutOfRange h a] s)))"

definition Group_AddMember :: "gaddr \<Rightarrow> guid \<Rightarrow> string \<Rightarrow> group_server \<Rightarrow> group_error + bool \<times> group_server" where
  "Group_AddMember a h name s =
     and_then (addMember a h name s) (\<lambda>(ok, s).
       if \<not> ok then Inr (False, s)
       else and_then (SendUpdate a s) (\<lambda>s. and_then (member_joined h a s) (\<lambda>s. Inr (True, s))))"

text \<open>The fields that \<open>Create\<close> sets first.\<close>

definition start_party :: "guid \<Rightarrow> string \<Rightarrow> party \<Rightarrow> group_error + party" where
  "start_party h name g =
     (let g = g\<lparr>gp_leaderGuid := h, gp_leaderName := name, gp_raid := gp_bg g\<rparr>
      in and_then (if gp_raid g then initRaidSubGroupsCounter g else Inr g) (\<lambda>g.
           Inr (g\<lparr>gp_lootMethod := GROUP_LOOT, gp_lootThreshold := ITEM_QUALITY_UNCOMMON, gp_looterGuid := h,
                  gp_masterLooterGuid := 0, gp_difficulty := 0\<rparr>)))"

definition create_rows :: "gaddr \<Rightarrow> guid \<Rightarrow> party \<Rightarrow> group_action list" where
  "create_rows a h g =
     (let low = GUID_LOPART h
      in [ConvertInstancesToGroup (Some h) a h, GSql (DeleteGroup low), GSql (DeleteGroupMembers low),
          GSql (InsertGroup low (GUID_LOPART (gp_mainTank g)) (GUID_LOPART (gp_mainAssistant g))
            (gp_lootMethod g) (GUID_LOPART (gp_looterGuid g)) (gp_lootThreshold g) (gp_targetIcons g)
            (gp_raid g) (gp_difficulty g) (gp_masterLooterGuid g))])"

definition Group_Create :: "gaddr \<Rightarrow> guid \<Rightarrow> string \<Rightarrow> group_server \<Rightarrow> group_error + bool \<times> group_server" where
  "Group_Create a h name s = with_party a s (\<lambda>g.
     and_then (start_party h name g) (\<lambda>g.
       if FindPlayer (gs_world s) h True = None then Inr (False, put_party a g s)
       else
         let g = (if \<not> gp_bg g then g\<lparr>gp_difficulty := gs_difficulty s h\<rparr> else g);
             s = put_party a g s;
             s = (if \<not> gp_bg g then glog (create_rows a h g) s else s)
         in and_then (Group_AddMember a h name s) (\<lambda>(ok, s).
              if \<not> ok then Inr (False, s) else Inr (True, glog [GHook ''OnGroupCreate'' a] s))))"

definition LoadMemberFromDB :: "gaddr \<Rightarrow> u32 \<Rightarrow> u8 \<Rightarrow> bool \<Rightarrow> group_server \<Rightarrow> group_error + bool \<times> group_server" where
  "LoadMemberFromDB a guidLow subgroup assistant s =
     (let h = MAKE_NEW_GUID guidLow 0 HIGHGUID_PLAYER
      in case GetPlayerNameByGUID (gs_world s) h of
           None \<Rightarrow> Inr (False, s)
         | Some n \<Rightarrow> with_party a s (\<lambda>g.
             and_then (SubGroupCounterIncrease subgroup (g\<lparr>gp_members := gp_members g @
                 [\<lparr>ms_guid = h, ms_name = n, ms_group = subgroup, ms_assistant = assistant\<rparr>]\<rparr>))
               (\<lambda>g. Inr (True, put_party a g s))))"

definition ConvertToRaid :: "gaddr \<Rightarrow> group_server \<Rightarrow> group_result" where
  "ConvertToRaid a s = with_party a s (\<lambda>g.
     and_then (initRaidSubGroupsCounter (g\<lparr>gp_raid := True\<rparr>)) (\<lambda>g.
       let s = put_party a g s
       in SendUpdate a (if \<not> gp_bg g then party_sql (UpdateRaid (GUID_LOPART (gp_leaderGuid g))) s else s)))"

section \<open>Votes on loot\<close>

definition roll_valid :: "roll \<Rightarrow> group_server \<Rightarrow> bool" where
  "roll_valid r s \<longleftrightarrow> (case ro_loot r of None \<Rightarrow> False | Some l \<Rightarrow> gs_loots s l \<noteq> None)"

text \<open>\<open>--roll->totalX\<close> for the vote of a player who goes, who also rolls no longer.\<close>

definition forget_vote :: "roll_vote \<Rightarrow> roll \<Rightarrow> roll" where
  "forget_vote v r =
     (let r = (if v = ROLL_GREED then r\<lparr>ro_totalGreed := ro_totalGreed r - 1\<rparr> else r);
          r = (if v = ROLL_NEED then r\<lparr>ro_totalNeed := ro_totalNeed r - 1\<rparr> else r);
          r = (if v = ROLL_PASS then r\<lparr>ro_totalPass := ro_totalPass r - 1\<rparr> else r)
      in if v \<noteq> ROLL_NOT_VALID then r\<lparr>ro_totalPlayersRolling := ro_totalPlayersRolling r - 1\<rparr> else r)"

text \<open>
  After the vote of the player is erased the code calls \<open>CountRollVote\<close> for him, which finds no vote of his and
  returns before it counts the roll.
\<close>

definition removeRolls :: "guid \<Rightarrow> party \<Rightarrow> party" where
  "removeRolls h g = g\<lparr>gp_rolls := map (\<lambda>r.
     case sm_find h (ro_playerVote r) of
       None \<Rightarrow> r
     | Some v \<Rightarrow> (forget_vote v r)\<lparr>ro_playerVote := sm_erase h (ro_playerVote r)\<rparr>) (gp_rolls g)\<rparr>"

section \<open>Removing members and disbanding\<close>

definition take_out :: "guid \<Rightarrow> gaddr \<Rightarrow> bool \<Rightarrow> group_server \<Rightarrow> group_result" where
  "take_out h a bg s =
     (if bg then RemoveFromBattlegroundRaid h s
      else if gr_original (gs_refs s h) = Some a then SetOriginalGroup h None s
      else SetGroup h None s)"

definition setLeader :: "gaddr \<Rightarrow> guid \<Rightarrow> group_server \<Rightarrow> group_result" where
  "setLeader a h s = with_party a s (\<lambda>g.
     case getMemberSlot h g of
       None \<Rightarrow> Inr s
     | Some m \<Rightarrow>
         let old = GUID_LOPART (gp_leaderGuid g); new = GUID_LOPART (ms_guid m);
             player = FindPlayer (gs_world s) (ms_guid m) True;
             s = (if \<not> gp_bg g
                  then glog (GSql (UpdateLeaderInstances old new) # (if player \<noteq> None then [RemovePermanentBinds a] else [])
                         @ [ConvertInstancesToGroup (map_option pl_guid player) a (ms_guid m), GSql (UpdateLeader new old)]) s
                  else s)
         in Inr (put_party a (g\<lparr>gp_leaderGuid := ms_guid m, gp_leaderName := ms_name m\<rparr>) s))"

definition erase_member :: "guid \<Rightarrow> party \<Rightarrow> group_error + party" where
  "erase_member h g =
     (case getMemberSlot h g of
        None \<Rightarrow> Inr g
      | Some m \<Rightarrow> and_then (SubGroupCounterDecrease (ms_group m) g) (\<lambda>g. Inr (g\<lparr>gp_members := erase_slot h (gp_members g)\<rparr>)))"

definition removeMember :: "gaddr \<Rightarrow> guid \<Rightarrow> group_server \<Rightarrow> group_error + bool \<times> group_server" where
  "removeMember a h s = with_party a s (\<lambda>g.
     and_then (if FindPlayer (gs_world s) h True \<noteq> None then take_out h a (gp_bg g) s else Inr s) (\<lambda>s.
     with_party a s (\<lambda>g. and_then (erase_member h (removeRolls h g)) (\<lambda>g.
       let s = put_party a g s;
           s = (if \<not> gp_bg g then party_sql (DeleteGroupMember (GUID_LOPART h)) s else s)
       in if gp_leaderGuid g = h
          then and_then (case gp_members g of [] \<Rightarrow> Inr s | m # _ \<Rightarrow> setLeader a (ms_guid m) s) (\<lambda>s. Inr (True, s))
          else Inr (False, s)))))"

definition nobody_packet :: packet where
  "nobody_packet = put (WorldPacket_new SMSG_GROUP_LIST) (enc_u64 0 @ enc_u64 0 @ enc_u64 0)"

text \<open>What the client of a player who was taken out is told: his own group, or that he has none.\<close>

definition tell_left :: "guid \<Rightarrow> group_server \<Rightarrow> group_result" where
  "tell_left h s =
     and_then (case gr_group (gs_refs s h) of Some b \<Rightarrow> SendUpdate b s | None \<Rightarrow> Inr (glog [GSend h nobody_packet] s))
       (\<lambda>s. Inr (glog [HomebindIfInstance h] s))"

definition disband_member :: "gaddr \<Rightarrow> bool \<Rightarrow> bool \<Rightarrow> member_slot \<Rightarrow> group_server \<Rightarrow> group_result" where
  "disband_member a bg hideDestroy m s =
     (case FindPlayer (gs_world s) (ms_guid m) True of
        None \<Rightarrow> Inr s
      | Some _ \<Rightarrow>
          and_then (take_out (ms_guid m) a bg s) (\<lambda>s.
            tell_left (ms_guid m) (if hideDestroy then s
              else glog [GSend (ms_guid m) (WorldPacket_new SMSG_GROUP_DESTROYED)] s)))"

definition Group_Disband :: "gaddr \<Rightarrow> bool \<Rightarrow> group_server \<Rightarrow> group_result" where
  "Group_Disband a hideDestroy s = with_party a s (\<lambda>g.
     let s = (if GetPlayer (gs_world s) (gp_leaderGuid g) \<noteq> None then glog [GHook ''OnGroupDisband'' a] s else s)
     in and_then (for_all (disband_member a (gp_bg g) hideDestroy) (gp_members g) s) (\<lambda>s.
        with_party a s (\<lambda>g.
          and_then (RemoveAllInvites a (put_party a (g\<lparr>gp_rolls := [], gp_members := []\<rparr>) s)) (\<lambda>s.
            with_party a s (\<lambda>g.
              let low = GUID_LOPART (gp_leaderGuid g);
                  s = (if \<not> gp_bg g then glog [GSql (DeleteGroup low), GSql (DeleteGroupMembers low), ResetGroupInstances a] s else s)
              in Inr (put_party a (g\<lparr>gp_leaderGuid := 0, gp_leaderName := ''''\<rparr>) s))))))"

definition leader_packet :: "string \<Rightarrow> packet" where
  "leader_packet n = put (WorldPacket_new SMSG_GROUP_SET_LEADER) (enc_string n)"

text \<open>What a removed player who is connected is told, and the others of a new leader.\<close>

definition tell_removed :: "gaddr \<Rightarrow> guid \<Rightarrow> remove_method \<Rightarrow> group_server \<Rightarrow> group_result" where
  "tell_removed a h meth s =
     (case FindPlayer (gs_world s) h True of
        None \<Rightarrow> Inr s
      | Some _ \<Rightarrow>
          let s = glog [GHook ''OnGroupRemoveMember'' a] s;
              s = (if meth = GROUP_REMOVEMETHOD_KICK then glog [GSend h (WorldPacket_new SMSG_GROUP_UNINVITE)] s else s)
          in tell_left h s)"

definition tell_new_leader :: "gaddr \<Rightarrow> bool \<Rightarrow> group_server \<Rightarrow> group_result" where
  "tell_new_leader a leaderChanged s =
     (if leaderChanged
      then with_party a s (\<lambda>g. Group_BroadcastPacket (leader_packet (ms_name (hd (gp_members g)))) True None 0 a s)
      else Inr s)"

text \<open>The size that is left; a party of two, or a raid of a battleground of one, is disbanded.\<close>

definition RemoveMember :: "gaddr \<Rightarrow> guid \<Rightarrow> remove_method \<Rightarrow> group_server \<Rightarrow> group_error + nat \<times> group_server" where
  "RemoveMember a h meth s =
     and_then (BroadcastGroupUpdate a s) (\<lambda>s. with_party a s (\<lambda>g.
       and_then
         (if length (gp_members g) > (if gp_bg g then 1 else 2)
          then and_then (removeMember a h s) (\<lambda>(leaderChanged, s).
                 and_then (tell_removed a h meth s) (\<lambda>s. and_then (tell_new_leader a leaderChanged s) (SendUpdate a)))
          else Group_Disband a True s)
         (\<lambda>s. with_party a s (\<lambda>g. Inr (length (gp_members g), s)))))"

definition ChangeLeader :: "gaddr \<Rightarrow> guid \<Rightarrow> group_server \<Rightarrow> group_result" where
  "ChangeLeader a h s = with_party a s (\<lambda>g.
     case getMemberSlot h g of
       None \<Rightarrow> Inr s
     | Some m \<Rightarrow>
         let old = GetPlayer (gs_world s) (gp_leaderGuid g)
         in and_then (setLeader a h s) (\<lambda>s.
              let s = (if old \<noteq> None \<and> GetPlayer (gs_world s) h \<noteq> None then glog [GHook ''OnGroupChangeLeader'' a] s else s)
              in and_then (Group_BroadcastPacket (leader_packet (ms_name m)) True None 0 a s) (SendUpdate a)))"

text \<open>\<open>Player::RemoveFromGroup\<close> and \<open>Player::UninviteFromGroup\<close>.\<close>

definition RemoveFromGroup :: "gaddr option \<Rightarrow> guid \<Rightarrow> remove_method \<Rightarrow> group_server \<Rightarrow> group_result" where
  "RemoveFromGroup a' h meth s =
     (case a' of
        None \<Rightarrow> Inr s
      | Some a \<Rightarrow> and_then (RemoveMember a h meth s) (\<lambda>(n, s).
          Inr (if n \<le> 1 then delete_party a (RemoveGroup a s) else s)))"

definition UninviteFromGroup :: "guid \<Rightarrow> group_server \<Rightarrow> group_result" where
  "UninviteFromGroup h s =
     (case gr_invite (gs_refs s h) of
        None \<Rightarrow> Inr s
      | Some a \<Rightarrow>
          and_then (RemoveInvite a h s) (\<lambda>s. with_party a s (\<lambda>g.
            if length (gp_members g) \<le> 1
            then and_then (if gp_members g \<noteq> []
                           then and_then (Group_Disband a True s) (\<lambda>s. Inr (RemoveGroup a s))
                           else RemoveAllInvites a s) (\<lambda>s. Inr (delete_party a s))
            else Inr s)))"

section \<open>Raids\<close>

definition setMembersGroup :: "gaddr \<Rightarrow> guid \<Rightarrow> u8 \<Rightarrow> group_server \<Rightarrow> group_error + bool \<times> group_server" where
  "setMembersGroup a h k s = with_party a s (\<lambda>g.
     if \<not> is_member h g then Inr (False, s)
     else and_then (SubGroupCounterIncrease k (g\<lparr>gp_members := on_slot h (\<lambda>m. m\<lparr>ms_group := k\<rparr>) (gp_members g)\<rparr>)) (\<lambda>g.
       let s = put_party a g s
       in Inr (True, if \<not> gp_bg g then party_sql (UpdateSubgroup k (GUID_LOPART h)) s else s)))"

text \<open>The overload for a player object, and the one for a guid; for a player who is not connected the second
  one calls the first with a null pointer.\<close>

definition ChangeMembersGroup_player :: "gaddr \<Rightarrow> guid option \<Rightarrow> u8 \<Rightarrow> group_server \<Rightarrow> group_result" where
  "ChangeMembersGroup_player a player k s = with_party a s (\<lambda>g.
     case player of
       None \<Rightarrow> Inr s
     | Some h \<Rightarrow>
         if \<not> gp_raid g then Inr s
         else and_then (setMembersGroup a h k s) (\<lambda>(ok, s).
           if \<not> ok then Inr s
           else with_party a s (\<lambda>g. and_then (SubGroupCounterDecrease (gr_subgroup (gs_refs s h)) g) (\<lambda>g.
             SendUpdate a (upd_refs h (set_sub True k) (put_party a g s))))))"

definition ChangeMembersGroup :: "gaddr \<Rightarrow> guid \<Rightarrow> u8 \<Rightarrow> group_server \<Rightarrow> group_result" where
  "ChangeMembersGroup a h k s = with_party a s (\<lambda>g.
     if \<not> gp_raid g then Inr s
     else case FindPlayer (gs_world s) h True of
            Some _ \<Rightarrow>
              let r = gs_refs s h; here = gr_group r = Some a;
                  prevSubGroup = (if here then gr_subgroup r else gr_originalSub r);
                  s = upd_refs h (set_sub here k) s
              in and_then (SubGroupCounterDecrease prevSubGroup g) (\<lambda>g.
                 and_then (setMembersGroup a h k (put_party a g s)) (\<lambda>(ok, s). if ok then SendUpdate a s else Inr s))
          | None \<Rightarrow> ChangeMembersGroup_player a None k s)"

definition SetAssistant :: "gaddr \<Rightarrow> guid \<Rightarrow> bool \<Rightarrow> group_server \<Rightarrow> group_result" where
  "SetAssistant a h state s = with_party a s (\<lambda>g.
     if \<not> gp_raid g then Inr s
     else if \<not> is_member h g then Inr s
     else let s = put_party a (g\<lparr>gp_members := on_slot h (\<lambda>m. m\<lparr>ms_assistant := state\<rparr>) (gp_members g)\<rparr>) s
          in SendUpdate a (if \<not> gp_bg g then party_sql (UpdateAssistant state (GUID_LOPART h)) s else s))"

text \<open>\<open>_setMainTank\<close> (\<open>tank\<close>) and \<open>_setMainAssistant\<close>, which call each other for guid 0; with a member of guid 0
  that would not end.\<close>

definition other_role :: "bool \<Rightarrow> party \<Rightarrow> guid" where
  "other_role tank g = (if tank then gp_mainAssistant g else gp_mainTank g)"

definition set_role :: "bool \<Rightarrow> guid \<Rightarrow> party \<Rightarrow> party \<times> group_sql list" where
  "set_role tank h g =
     (let low = GUID_LOPART (gp_leaderGuid g)
      in if tank then (g\<lparr>gp_mainTank := h\<rparr>, if gp_bg g then [] else [UpdateMainTank (GUID_LOPART h) low])
         else (g\<lparr>gp_mainAssistant := h\<rparr>, if gp_bg g then [] else [UpdateMainAssistant (GUID_LOPART h) low]))"

partial_function (option) set_main :: "bool \<Rightarrow> guid \<Rightarrow> party \<Rightarrow> (bool \<times> party \<times> group_sql list) option" where
  "set_main tank h g =
     (if \<not> is_member h g then Some (False, g, [])
      else Option.bind (if other_role tank g = h then set_main (\<not> tank) 0 g else Some (False, g, []))
             (\<lambda>(_, g, sql). case set_role tank h g of (g, q) \<Rightarrow> Some (True, g, sql @ q)))"

text \<open>\<open>None\<close>: the call does not return.\<close>

definition SetMain :: "bool \<Rightarrow> gaddr \<Rightarrow> guid \<Rightarrow> group_server \<Rightarrow> group_result option" where
  "SetMain tank a h s =
     (case gs_heap s a of
        None \<Rightarrow> Some (Inl (DeletedGroup a))
      | Some g \<Rightarrow>
          if \<not> gp_raid g then Some (Inr s)
          else map_option (\<lambda>(ok, g, sql).
                 let s = glog (map GSql sql) (put_party a g s)
                 in if ok then SendUpdate a s else Inr s) (set_main tank h g))"

section \<open>Icons, difficulty, looter\<close>

definition set_icon :: "gaddr \<Rightarrow> nat \<Rightarrow> guid \<Rightarrow> group_server \<Rightarrow> group_result" where
  "set_icon a i h s = with_party a s (\<lambda>g.
     Group_BroadcastPacket (put (WorldPacket_new MSG_RAID_TARGET_UPDATE) (enc_u8 0 @ enc_u8 (of_nat i) @ enc_u64 h)) True None 0 a
       (put_party a (g\<lparr>gp_targetIcons := (gp_targetIcons g)[i := h]\<rparr>) s))"

definition SetTargetIcon :: "gaddr \<Rightarrow> u8 \<Rightarrow> guid \<Rightarrow> group_server \<Rightarrow> group_result" where
  "SetTargetIcon a i h s =
     (if unat i \<ge> TARGETICONCOUNT then Inr s
      else and_then
        (if h \<noteq> 0
         then for_all (\<lambda>j s. with_party a s (\<lambda>g. if gp_targetIcons g ! j = h then set_icon a j 0 s else Inr s)) [0..<TARGETICONCOUNT] s
         else Inr s)
        (set_icon a (unat i) h))"

definition SendTargetIconList :: "gaddr \<Rightarrow> guid \<Rightarrow> group_server \<Rightarrow> group_result" where
  "SendTargetIconList a to' s = with_party a s (\<lambda>g.
     Inr (glog [GSend to' (put (WorldPacket_new MSG_RAID_TARGET_UPDATE)
       (enc_u8 1 @ concat (map (\<lambda>i. if gp_targetIcons g ! i = 0 then []
                                  else enc_u8 (of_nat i) @ enc_u64 (gp_targetIcons g ! i)) [0..<TARGETICONCOUNT])))] s))"

definition Group_SetDifficulty :: "gaddr \<Rightarrow> u8 \<Rightarrow> group_server \<Rightarrow> group_result" where
  "Group_SetDifficulty a d s = with_party a s (\<lambda>g.
     let g = g\<lparr>gp_difficulty := d\<rparr>; s = put_party a g s;
         s = (if \<not> gp_bg g then party_sql (UpdateDifficulty d (GUID_LOPART (gp_leaderGuid g))) s else s)
     in Inr (fold (\<lambda>(h, b) s.
          case FindPlayer (gs_world s) h True of
            Some player \<Rightarrow>
              if pl_level player < LEVELREQUIREMENT_HEROIC then s
              else glog [SendDungeonDifficulty h d] (s\<lparr>gs_difficulty := (gs_difficulty s)(h := d)\<rparr>)
          | None \<Rightarrow> s) (gp_refs g) s))"

text \<open>Round robin: the next member near the object after the present looter, else the first one from the start up to
  him. \<open>near\<close> is \<open>IsWithinDistInMap\<close> of the object.\<close>

definition next_looter :: "(guid \<Rightarrow> bool) \<Rightarrow> guid \<Rightarrow> party \<Rightarrow> group_server \<Rightarrow> guid option" where
  "next_looter near old g s =
     (let ms = map ms_guid (gp_members g); n = Suc (length (takeWhile (\<lambda>h. h \<noteq> old) ms))
      in find (\<lambda>h. GetPlayer (gs_world s) h \<noteq> None \<and> near h) (drop n ms @ take n ms))"

definition UpdateLooterGuid :: "(guid \<Rightarrow> bool) \<Rightarrow> gaddr \<Rightarrow> bool \<Rightarrow> group_server \<Rightarrow> group_result" where
  "UpdateLooterGuid near a ifneed s = with_party a s (\<lambda>g.
     let old = gp_looterGuid g
     in if gp_lootMethod g = 0 then Inr s
        else if ifneed \<and> is_member old g \<and> GetPlayer (gs_world s) old \<noteq> None \<and> near old then Inr s
        else (case next_looter near old g s of
                Some h \<Rightarrow> if old \<noteq> h then SendUpdate a (put_party a (g\<lparr>gp_looterGuid := h\<rparr>) s) else Inr s
              | None \<Rightarrow> SendUpdate a (put_party a (g\<lparr>gp_looterGuid := 0\<rparr>) s)))"

section \<open>Loot rolls\<close>

abbreviation SMSG_LOOT_START_ROLL :: u16 where "SMSG_LOOT_START_ROLL \<equiv> 0x2A1"
abbreviation SMSG_LOOT_ROLL :: u16 where "SMSG_LOOT_ROLL \<equiv> 0x2A2"
abbreviation SMSG_LOOT_ROLL_WON :: u16 where "SMSG_LOOT_ROLL_WON \<equiv> 0x29F"
abbreviation SMSG_LOOT_ALL_PASSED :: u16 where "SMSG_LOOT_ALL_PASSED \<equiv> 0x29E"
abbreviation SMSG_LOOT_MASTER_LIST :: u16 where "SMSG_LOOT_MASTER_LIST \<equiv> 0x2A4"

text \<open>To the voters of a roll who are connected (\<open>force\<close>) or in the world.\<close>

definition to_voters :: "packet \<Rightarrow> bool \<Rightarrow> roll \<Rightarrow> group_server \<Rightarrow> group_server" where
  "to_voters p force r s =
     glog (map (\<lambda>v. GSend (fst v) p)
       (filter (\<lambda>v. FindPlayer (gs_world s) (fst v) force \<noteq> None \<and> snd v \<noteq> ROLL_NOT_VALID) (ro_playerVote r))) s"

definition SendLootStartRoll :: "u32 \<Rightarrow> roll \<Rightarrow> group_server \<Rightarrow> group_server" where
  "SendLootStartRoll CountDown r =
     to_voters (put (WorldPacket_new SMSG_LOOT_START_ROLL)
       (enc_u64 (ro_itemGUID r) @ enc_u32 (ucast (ro_totalPlayersRolling r)) @ enc_u32 (ro_itemid r)
        @ enc_u32 (ro_itemRandomSuffix r) @ enc_u32 (ro_itemRandomPropId r) @ enc_u32 CountDown)) False r"

definition SendLootRoll :: "guid \<Rightarrow> guid \<Rightarrow> u8 \<Rightarrow> u8 \<Rightarrow> roll \<Rightarrow> group_server \<Rightarrow> group_server" where
  "SendLootRoll SourceGuid TargetGuid RollNumber RollType r =
     to_voters (put (WorldPacket_new SMSG_LOOT_ROLL)
       (enc_u64 SourceGuid @ enc_u32 0 @ enc_u64 TargetGuid @ enc_u32 (ro_itemid r) @ enc_u32 (ro_itemRandomSuffix r)
        @ enc_u32 (ro_itemRandomPropId r) @ enc_u8 RollNumber @ enc_u8 RollType @ enc_u8 0)) True r"

definition SendLootRollWon :: "guid \<Rightarrow> guid \<Rightarrow> u8 \<Rightarrow> u8 \<Rightarrow> roll \<Rightarrow> group_server \<Rightarrow> group_server" where
  "SendLootRollWon SourceGuid TargetGuid RollNumber RollType r =
     to_voters (put (WorldPacket_new SMSG_LOOT_ROLL_WON)
       (enc_u64 SourceGuid @ enc_u32 0 @ enc_u32 (ro_itemid r) @ enc_u32 (ro_itemRandomSuffix r)
        @ enc_u32 (ro_itemRandomPropId r) @ enc_u64 TargetGuid @ enc_u8 RollNumber @ enc_u8 RollType)) True r"

definition SendLootAllPassed :: "u32 \<Rightarrow> roll \<Rightarrow> group_server \<Rightarrow> group_server" where
  "SendLootAllPassed NumberOfPlayers r =
     to_voters (put (WorldPacket_new SMSG_LOOT_ALL_PASSED)
       (enc_u64 (ro_itemGUID r) @ enc_u32 NumberOfPlayers @ enc_u32 (ro_itemid r)
        @ enc_u32 (ro_itemRandomPropId r) @ enc_u32 (ro_itemRandomSuffix r))) True r"

text \<open>What starting the rolls asks of items, players and the looted object.\<close>

record loot_env =
  le_quality :: "u32 \<Rightarrow> u32 option"        \<comment> \<open>\<open>GetItemTemplate(itemid)->Quality\<close>\<close>
  le_allowed :: "loot_item \<Rightarrow> guid \<Rightarrow> bool"
  le_can_use :: "u32 \<Rightarrow> guid \<Rightarrow> bool"
  le_near :: "guid \<Rightarrow> bool"           \<comment> \<open>\<open>IsWithinDistInMap\<close> of the object\<close>
  le_near2d :: "guid \<Rightarrow> bool"         \<comment> \<open>by \<open>GetDistance2d\<close>\<close>
  le_low_guid :: "nat \<Rightarrow> u32"              \<comment> \<open>the low guids generated, by slot\<close>
  le_can_store :: "guid \<Rightarrow> u32 \<Rightarrow> u8 \<Rightarrow> u8" \<comment> \<open>\<open>CanStoreNewItem\<close>, 0 for \<open>EQUIP_ERR_OK\<close>\<close>
  le_random :: "guid \<Rightarrow> guid \<Rightarrow> u8"        \<comment> \<open>\<open>urand(1, 100)\<close> of a voter in the roll for an item\<close>

definition set_item :: "nat \<Rightarrow> nat \<Rightarrow> (loot_item \<Rightarrow> loot_item) \<Rightarrow> group_server \<Rightarrow> group_server" where
  "set_item l i f s =
     (case gs_loots s l of
        None \<Rightarrow> s
      | Some lo \<Rightarrow> s\<lparr>gs_loots := (gs_loots s)(l := Some (lo\<lparr>lo_items := (lo_items lo)[i := f (lo_items lo ! i)]\<rparr>))\<rparr>)"

text \<open>A new roll in which the given players vote.\<close>

definition new_roll :: "loot_env \<Rightarrow> nat \<Rightarrow> nat \<Rightarrow> loot_item \<Rightarrow> guid list \<Rightarrow> roll" where
  "new_roll env l i it voters =
     fold (\<lambda>h r. r\<lparr>ro_playerVote := sm_set h ROLL_NOT_EMITED_YET (ro_playerVote r),
                   ro_totalPlayersRolling := ro_totalPlayersRolling r + 1\<rparr>) voters
       \<lparr>ro_itemGUID = MAKE_NEW_GUID (le_low_guid env i) 0 HIGHGUID_ITEM, ro_itemid = li_itemid it,
        ro_itemRandomPropId = li_randomPropertyId it, ro_itemRandomSuffix = li_randomSuffix it, ro_loot = Some l,
        ro_playerVote = [], ro_totalPlayersRolling = 0, ro_totalNeed = 0, ro_totalGreed = 0, ro_totalPass = 0,
        ro_itemSlot = of_nat i\<rparr>"

definition push_roll :: "gaddr \<Rightarrow> roll \<Rightarrow> group_server \<Rightarrow> group_result" where
  "push_roll a r s = with_party a s (\<lambda>g. Inr (put_party a (g\<lparr>gp_rolls := gp_rolls g @ [r]\<rparr>) s))"

definition loot_at :: "nat \<Rightarrow> nat \<Rightarrow> group_server \<Rightarrow> loot_item option" where
  "loot_at l i s = (case gs_loots s l of None \<Rightarrow> None | Some lo \<Rightarrow> if i < length (lo_items lo) then Some (lo_items lo ! i) else None)"

definition loot_size :: "nat \<Rightarrow> group_server \<Rightarrow> nat" where
  "loot_size l s = (case gs_loots s l of None \<Rightarrow> 0 | Some lo \<Rightarrow> length (lo_items lo))"

definition group_loot_item :: "loot_env \<Rightarrow> gaddr \<Rightarrow> nat \<Rightarrow> nat \<Rightarrow> group_server \<Rightarrow> group_result" where
  "group_loot_item env a l i s = with_party a s (\<lambda>g.
     case loot_at l i s of
       None \<Rightarrow> Inr s
     | Some it \<Rightarrow>
         if li_freeforall it then Inr s
         else (case le_quality env (li_itemid it) of
                 None \<Rightarrow> Inr s
               | Some q \<Rightarrow>
                   if q \<ge> ucast (gp_lootThreshold g)
                   then let r = new_roll env l i it (filter (\<lambda>h. le_allowed env it h \<and> le_near env h) (map fst (gp_refs g)));
                            s = set_item l i (\<lambda>x. x\<lparr>li_is_blocked := True\<rparr>) (SendLootStartRoll 60000 r s)
                        in push_roll a r (glog [StartLootTimer 60000 (gp_leaderGuid g)] s)
                   else Inr (set_item l i (\<lambda>x. x\<lparr>li_is_underthreshold := True\<rparr>) s)))"

text \<open>Both look up the looting player first and would go through a null pointer without him.\<close>

definition GroupLoot :: "loot_env \<Rightarrow> gaddr \<Rightarrow> guid \<Rightarrow> nat \<Rightarrow> group_server \<Rightarrow> group_result" where
  "GroupLoot env a player l s =
     (if GetPlayer (gs_world s) player = None then Inl NullPlayer
      else for_all (group_loot_item env a l) [0..<loot_size l s] s)"

definition need_before_greed_item :: "loot_env \<Rightarrow> gaddr \<Rightarrow> nat \<Rightarrow> nat \<Rightarrow> group_server \<Rightarrow> group_result" where
  "need_before_greed_item env a l i s = with_party a s (\<lambda>g.
     case loot_at l i s of
       None \<Rightarrow> Inr s
     | Some it \<Rightarrow>
         (case le_quality env (li_itemid it) of
            None \<Rightarrow> Inl NullItem
          | Some q \<Rightarrow>
              if q \<ge> ucast (gp_lootThreshold g) \<and> \<not> li_freeforall it
              then let r = new_roll env l i it (filter (\<lambda>h. le_can_use env (li_itemid it) h \<and> le_allowed env it h \<and> le_near2d env h)
                             (map fst (gp_refs g)))
                   in if ro_totalPlayersRolling r > 0
                      then push_roll a r (set_item l i (\<lambda>x. x\<lparr>li_is_blocked := True\<rparr>) (SendLootStartRoll 60000 r s))
                      else Inr s
              else Inr (set_item l i (\<lambda>x. x\<lparr>li_is_underthreshold := True\<rparr>) s)))"

definition NeedBeforeGreed :: "loot_env \<Rightarrow> gaddr \<Rightarrow> guid \<Rightarrow> nat \<Rightarrow> group_server \<Rightarrow> group_result" where
  "NeedBeforeGreed env a player l s =
     (if GetPlayer (gs_world s) player = None then Inl NullPlayer
      else for_all (need_before_greed_item env a l) [0..<loot_size l s] s)"

definition MasterLoot :: "loot_env \<Rightarrow> gaddr \<Rightarrow> guid \<Rightarrow> nat \<Rightarrow> group_server \<Rightarrow> group_result" where
  "MasterLoot env a player l s =
     (if GetPlayer (gs_world s) player = None then Inr s
      else with_party a s (\<lambda>g.
        let block = (\<lambda>i. i\<lparr>li_is_blocked := \<not> li_is_underthreshold i\<rparr>);
            s = (case gs_loots s l of
                   None \<Rightarrow> s
                 | Some lo \<Rightarrow> s\<lparr>gs_loots := (gs_loots s)(l := Some (lo\<lparr>
                     lo_items := map (\<lambda>i. if li_freeforall i then i else block i) (lo_items lo),
                     lo_quest_items := map block (lo_quest_items lo)\<rparr>))\<rparr>);
            near = filter (le_near2d env) (map fst (gp_refs g));
            looters = filter (\<lambda>h. GetPlayer (gs_world s) h \<noteq> None) near;
            data = put (WorldPacket_new SMSG_LOOT_MASTER_LIST)
                     (enc_u8 (of_nat (length looters)) @ concat (map enc_u64 looters))
        in Inr (glog (map (\<lambda>h. GSend h data) near) s)))"

text \<open>The votes of a kind roll in the order of the map; the first highest number wins, starting from the first voter
  of all with zero.\<close>

definition best_roll :: "(guid \<Rightarrow> u8) \<Rightarrow> roll_vote \<Rightarrow> (guid \<times> roll_vote) list \<Rightarrow> guid \<times> u8" where
  "best_roll rnd v votes =
     fold (\<lambda>x (maxguid, maxresul). if maxresul < rnd (fst x) then (fst x, rnd (fst x)) else (maxguid, maxresul))
       (filter (\<lambda>x. snd x = v) votes) (fst (hd votes), 0)"

definition award :: "loot_env \<Rightarrow> guid \<Rightarrow> roll \<Rightarrow> nat \<Rightarrow> group_server \<Rightarrow> group_result" where
  "award env h r l s =
     (if GetPlayer (gs_world s) h = None then Inr s
      else case loot_at l (unat (ro_itemSlot r)) s of
             None \<Rightarrow> Inl (OutOfBounds (unat (ro_itemSlot r)))
           | Some it \<Rightarrow>
               let i = unat (ro_itemSlot r); msg = le_can_store env h (ro_itemid r) (li_count it)
               in if msg = 0
                  then let s = set_item l i (\<lambda>x. x\<lparr>li_is_looted := True\<rparr>) s;
                           s = (case gs_loots s l of
                                  None \<Rightarrow> s
                                | Some lo \<Rightarrow> s\<lparr>gs_loots := (gs_loots s)(l := Some (lo\<lparr>lo_unlootedCount := lo_unlootedCount lo - 1\<rparr>))\<rparr>)
                       in Inr (glog [NotifyItemRemoved l (ro_itemSlot r), StoreNewItem h (ro_itemid r) (li_randomPropertyId it)] s)
                  else Inr (glog [SendEquipError h msg] (set_item l i (\<lambda>x. x\<lparr>li_is_blocked := False\<rparr>) s)))"

definition decide :: "loot_env \<Rightarrow> roll_vote \<Rightarrow> u8 \<Rightarrow> roll \<Rightarrow> nat \<Rightarrow> group_server \<Rightarrow> group_result" where
  "decide env v code r l s =
     (if ro_playerVote r = [] then Inr s
      else
        let rnd = le_random env (ro_itemGUID r);
            s = fold (\<lambda>x. SendLootRoll 0 (fst x) (rnd (fst x)) code r) (filter (\<lambda>x. snd x = v) (ro_playerVote r)) s
        in case best_roll rnd v (ro_playerVote r) of
             (maxguid, maxresul) \<Rightarrow> award env maxguid r l (SendLootRollWon 0 maxguid maxresul code r s))"

definition unblock :: "roll \<Rightarrow> nat \<Rightarrow> group_server \<Rightarrow> group_result" where
  "unblock r l s =
     (case gs_loots s l of
        None \<Rightarrow> Inl NullLoot
      | Some lo \<Rightarrow>
          let i = unat (ro_itemSlot r); n = length (lo_items lo)
          in if i < n then Inr (set_item l i (\<lambda>x. x\<lparr>li_is_blocked := False\<rparr>) s)
             else if i - n < length (lo_quest_items lo)
             then Inr (s\<lparr>gs_loots := (gs_loots s)(l := Some (lo\<lparr>lo_quest_items :=
                    (lo_quest_items lo)[i - n := (lo_quest_items lo ! (i - n))\<lparr>li_is_blocked := False\<rparr>]\<rparr>))\<rparr>)
             else Inl (OutOfBounds (i - n)))"

definition erase_roll :: "gaddr \<Rightarrow> nat \<Rightarrow> group_server \<Rightarrow> group_result" where
  "erase_roll a p s = with_party a s (\<lambda>g. Inr (put_party a (g\<lparr>gp_rolls := take p (gp_rolls g) @ drop (Suc p) (gp_rolls g)\<rparr>) s))"

text \<open>\<open>p\<close> is the position of the roll.\<close>

definition CountTheRoll :: "loot_env \<Rightarrow> gaddr \<Rightarrow> nat \<Rightarrow> u32 \<Rightarrow> group_server \<Rightarrow> group_result" where
  "CountTheRoll env a p NumberOfPlayers s = with_party a s (\<lambda>g.
     let r = gp_rolls g ! p
     in case ro_loot r of
          None \<Rightarrow> erase_roll a p s
        | Some l \<Rightarrow>
            if \<not> roll_valid r s then erase_roll a p s
            else and_then (if ro_totalNeed r > 0 then decide env ROLL_NEED 1 r l s
                           else if ro_totalGreed r > 0 then decide env ROLL_GREED 2 r l s
                           else unblock r l (SendLootAllPassed NumberOfPlayers r s))
                   (erase_roll a p))"

fun roll_index :: "guid \<Rightarrow> group_server \<Rightarrow> roll list \<Rightarrow> nat option" where
  "roll_index item s [] = None"
| "roll_index item s (r # rs) =
     (if ro_itemGUID r = item \<and> roll_valid r s then Some 0 else map_option Suc (roll_index item s rs))"

text \<open>A vote is counted and recorded; nothing asks whether the player has voted before.\<close>

definition cast_vote :: "u8 \<Rightarrow> guid \<Rightarrow> roll \<Rightarrow> roll" where
  "cast_vote Choice h r =
     (if Choice = 0 then r\<lparr>ro_totalPass := ro_totalPass r + 1, ro_playerVote := sm_set h ROLL_PASS (ro_playerVote r)\<rparr>
      else if Choice = 1 then r\<lparr>ro_totalNeed := ro_totalNeed r + 1, ro_playerVote := sm_set h ROLL_NEED (ro_playerVote r)\<rparr>
      else if Choice = 2 then r\<lparr>ro_totalGreed := ro_totalGreed r + 1, ro_playerVote := sm_set h ROLL_GREED (ro_playerVote r)\<rparr>
      else r)"

definition tell_vote :: "u8 \<Rightarrow> guid \<Rightarrow> roll \<Rightarrow> group_server \<Rightarrow> group_server" where
  "tell_vote Choice h r =
     (if Choice = 0 then SendLootRoll 0 h 128 128 r
      else if Choice = 1 then SendLootRoll 0 h 0 0 r
      else if Choice = 2 then SendLootRoll 0 h 128 2 r
      else id)"

definition CountRollVote :: "loot_env \<Rightarrow> gaddr \<Rightarrow> guid \<Rightarrow> guid \<Rightarrow> u32 \<Rightarrow> u8 \<Rightarrow> group_server \<Rightarrow> group_result" where
  "CountRollVote env a h item NumberOfPlayers Choice s = with_party a s (\<lambda>g.
     case roll_index item s (gp_rolls g) of
       None \<Rightarrow> Inr s
     | Some p \<Rightarrow>
         let r = gp_rolls g ! p
         in if sm_find h (ro_playerVote r) = None then Inr s
            else if (case ro_loot r of None \<Rightarrow> False | Some l \<Rightarrow> loot_size l s = 0) then Inr s
            else
              let r' = cast_vote Choice h r;
                  s = put_party a (g\<lparr>gp_rolls := (gp_rolls g)[p := r']\<rparr>) (tell_vote Choice h r s)
              in if unat (ro_totalPass r') + unat (ro_totalGreed r') + unat (ro_totalNeed r') \<ge> unat (ro_totalPlayersRolling r')
                 then CountTheRoll env a p NumberOfPlayers s
                 else Inr s)"

text \<open>\<open>while (!RollId.empty()) CountTheRoll(RollId.begin(), GetMembersCount())\<close>\<close>

partial_function (option) EndRoll :: "loot_env \<Rightarrow> gaddr \<Rightarrow> group_server \<Rightarrow> group_result option" where
  "EndRoll env a s =
     (case gs_heap s a of
        None \<Rightarrow> Some (Inl (DeletedGroup a))
      | Some g \<Rightarrow>
          if gp_rolls g = [] then Some (Inr s)
          else (case CountTheRoll env a 0 (GetMembersCount g) s of
                  Inl e \<Rightarrow> Some (Inl e)
                | Inr s' \<Rightarrow> EndRoll env a s'))"

end
