(* ===== verification/GroupHandler.thy ===== *)
theory GroupHandler
  imports Group
begin

text \<open>
  The packet handlers of parties and raids (src/src/server/game/Groups/GroupHandler.cpp). \<open>me\<close> is the player of
  the session, who is in the world. The packets with the statistics of members are not modelled: they read the unit.
\<close>

abbreviation SMSG_GROUP_INVITE :: u16 where "SMSG_GROUP_INVITE \<equiv> 0x06F"
abbreviation SMSG_GROUP_DECLINE :: u16 where "SMSG_GROUP_DECLINE \<equiv> 0x074"
abbreviation SMSG_PARTY_COMMAND_RESULT :: u16 where "SMSG_PARTY_COMMAND_RESULT \<equiv> 0x07F"
abbreviation MSG_MINIMAP_PING :: u16 where "MSG_MINIMAP_PING \<equiv> 0x1D5"
abbreviation MSG_RANDOM_ROLL :: u16 where "MSG_RANDOM_ROLL \<equiv> 0x1FB"
abbreviation MSG_RAID_READY_CHECK :: u16 where "MSG_RAID_READY_CHECK \<equiv> 0x322"

datatype party_op = PARTY_OP_INVITE | PARTY_OP_LEAVE

definition op_code :: "party_op \<Rightarrow> u32" where
  "op_code o' = (case o' of PARTY_OP_INVITE \<Rightarrow> 0 | PARTY_OP_LEAVE \<Rightarrow> 2)"

datatype party_result =
    PARTY_RESULT_OK | PARTY_RESULT_CANT_FIND_TARGET | PARTY_RESULT_NOT_IN_YOUR_PARTY | PARTY_RESULT_NOT_IN_YOUR_INSTANCE
  | PARTY_RESULT_PARTY_FULL | PARTY_RESULT_ALREADY_IN_GROUP | PARTY_RESULT_YOU_NOT_IN_GROUP | PARTY_RESULT_YOU_NOT_LEADER
  | PARTY_RESULT_TARGET_UNFRIENDLY | PARTY_RESULT_TARGET_IGNORE_YOU | PARTY_RESULT_PENDING_MATCH
  | PARTY_RESULT_INVITE_RESTRICTED

definition party_code :: "party_result \<Rightarrow> u32" where
  "party_code r = (case r of
     PARTY_RESULT_OK \<Rightarrow> 0 | PARTY_RESULT_CANT_FIND_TARGET \<Rightarrow> 1 | PARTY_RESULT_NOT_IN_YOUR_PARTY \<Rightarrow> 2
   | PARTY_RESULT_NOT_IN_YOUR_INSTANCE \<Rightarrow> 3 | PARTY_RESULT_PARTY_FULL \<Rightarrow> 4 | PARTY_RESULT_ALREADY_IN_GROUP \<Rightarrow> 5
   | PARTY_RESULT_YOU_NOT_IN_GROUP \<Rightarrow> 6 | PARTY_RESULT_YOU_NOT_LEADER \<Rightarrow> 7 | PARTY_RESULT_TARGET_UNFRIENDLY \<Rightarrow> 8
   | PARTY_RESULT_TARGET_IGNORE_YOU \<Rightarrow> 9 | PARTY_RESULT_PENDING_MATCH \<Rightarrow> 12 | PARTY_RESULT_INVITE_RESTRICTED \<Rightarrow> 13)"

record party_env =
  pe_norm :: "string \<Rightarrow> string option"    \<comment> \<open>\<open>normalizePlayerName\<close>\<close>
  pe_in_bg :: "guid \<Rightarrow> bool"
  pe_gm :: "guid \<Rightarrow> bool"
  pe_instance :: "guid \<Rightarrow> u32"
  pe_map :: "guid \<Rightarrow> u32"
  pe_gm_group :: bool                      \<comment> \<open>\<open>CONFIG_ALLOW_GM_GROUP\<close>\<close>
  pe_two_side_group :: bool
  pe_guid_by_name :: "string \<Rightarrow> guid"       \<comment> \<open>\<open>GetPlayerGUIDByName\<close>\<close>
  pe_urand :: "u32 \<Rightarrow> u32 \<Rightarrow> u32"

type_synonym party_handler = "byte_buffer \<Rightarrow> bb_error + group_result"

definition SendPartyResult :: "guid \<Rightarrow> party_op \<Rightarrow> string \<Rightarrow> party_result \<Rightarrow> group_server \<Rightarrow> group_server" where
  "SendPartyResult to' operation member res =
     glog [GSend to' (put (WorldPacket_new SMSG_PARTY_COMMAND_RESULT)
       (enc_u32 (op_code operation) @ enc_string member @ enc_u32 (party_code res)))]"

text \<open>Why an invitation is refused before groups are looked at.\<close>

definition invite_refused :: "party_env \<Rightarrow> player \<Rightarrow> player \<Rightarrow> group_server \<Rightarrow> party_result option" where
  "invite_refused env me player s =
     (let i = pe_instance env; x = pl_guid me; y = pl_guid player
      in if y = x then Some PARTY_RESULT_CANT_FIND_TARGET
         else if \<not> pe_gm_group env \<and> \<not> pe_gm env x \<and> pe_gm env y then Some PARTY_RESULT_CANT_FIND_TARGET
         else if \<not> pe_gm env x \<and> \<not> pe_two_side_group env \<and> pl_team me \<noteq> pl_team player
         then Some PARTY_RESULT_TARGET_UNFRIENDLY
         else if i x \<noteq> 0 \<and> i y \<noteq> 0 \<and> i x \<noteq> i y \<and> pe_map env x = pe_map env y then Some PARTY_RESULT_NOT_IN_YOUR_INSTANCE
         else if i y \<noteq> 0 \<and> gs_difficulty s y \<noteq> gs_difficulty s x then Some PARTY_RESULT_NOT_IN_YOUR_INSTANCE
         else if HasIgnore (GUID_LOPART x) (pl_social player) then Some PARTY_RESULT_TARGET_IGNORE_YOU
         else None)"

definition invited :: "player \<Rightarrow> player \<Rightarrow> string \<Rightarrow> group_server \<Rightarrow> group_server" where
  "invited me player membername s =
     SendPartyResult (pl_guid me) PARTY_OP_INVITE membername PARTY_RESULT_OK
       (glog [GSend (pl_guid player) (put (WorldPacket_new SMSG_GROUP_INVITE) (enc_string (c_str (pl_name me))))] s)"

text \<open>\<open>new Group\<close>, both invited, or deleted again.\<close>

definition invite_new :: "player \<Rightarrow> player \<Rightarrow> string \<Rightarrow> group_server \<Rightarrow> group_result" where
  "invite_new me player membername s =
     (let a = gs_next s; s = put_party a Group_new (s\<lparr>gs_next := a + 1\<rparr>)
      in and_then (AddLeaderInvite a me s) (\<lambda>(ok, s).
           if \<not> ok then Inr (delete_party a s)
           else and_then (AddInvite a (pl_guid player) False s) (\<lambda>(ok, s).
             if \<not> ok then and_then (RemoveAllInvites a s) (\<lambda>s. Inr (delete_party a s))
             else Inr (invited me player membername s))))"

definition invite_player :: "party_env \<Rightarrow> player \<Rightarrow> player \<Rightarrow> string \<Rightarrow> group_server \<Rightarrow> group_result" where
  "invite_player env me player membername s =
     (let result = SendPartyResult (pl_guid me) PARTY_OP_INVITE; x = pl_guid me
      in and_then (own_group x s) (\<lambda>own. and_then (own_group (pl_guid player) s) (\<lambda>group2.
         if group2 \<noteq> None \<or> gr_invite (gs_refs s (pl_guid player)) \<noteq> None
         then Inr (result membername PARTY_RESULT_ALREADY_IN_GROUP s)
         else case own of
                Some a \<Rightarrow> with_party a s (\<lambda>g.
                  if \<not> IsLeader x g \<and> \<not> IsAssistant x g then Inr (result '''' PARTY_RESULT_YOU_NOT_LEADER s)
                  else if IsFull g then Inr (result '''' PARTY_RESULT_PARTY_FULL s)
                  else and_then (AddInvite a (pl_guid player) False s) (\<lambda>(ok, s).
                    Inr (if ok then invited me player membername s else s)))
              | None \<Rightarrow>
                  (case gr_invite (gs_refs s x) of
                     None \<Rightarrow> invite_new me player membername s
                   | Some a \<Rightarrow> with_party a s (\<lambda>g.
                       if gp_members g = [] \<and> \<not> IsLeader x g then invite_new me player membername s
                       else and_then (AddInvite a (pl_guid player) False s) (\<lambda>(ok, s).
                         Inr (if ok then invited me player membername s else s)))))))"

definition HandleGroupInviteOpcode :: "party_env \<Rightarrow> player \<Rightarrow> group_server \<Rightarrow> party_handler" where
  "HandleGroupInviteOpcode env me s =
     rd read_string (\<lambda>name b. Inr (
       let result = SendPartyResult (pl_guid me) PARTY_OP_INVITE
       in case pe_norm env name of
            None \<Rightarrow> Inr (result name PARTY_RESULT_CANT_FIND_TARGET s)
          | Some membername \<Rightarrow>
              if pe_in_bg env (pl_guid me) then Inr (result membername PARTY_RESULT_OK s)
              else (case FindPlayerByName (gs_world s) membername True of
                      None \<Rightarrow> Inr (result membername PARTY_RESULT_CANT_FIND_TARGET s)
                    | Some player \<Rightarrow>
                        (case invite_refused env me player s of
                           Some e \<Rightarrow> Inr (result membername e s)
                         | None \<Rightarrow> invite_player env me player membername s))))"

text \<open>The result of \<open>Create\<close> is not looked at.\<close>

definition HandleGroupAcceptOpcode :: "player \<Rightarrow> group_server \<Rightarrow> party_handler" where
  "HandleGroupAcceptOpcode me s = (\<lambda>b. Inr (
     let x = pl_guid me
     in case gr_invite (gs_refs s x) of
          None \<Rightarrow> Inr s
        | Some a \<Rightarrow>
            if gr_group (gs_refs s x) \<noteq> None
            then Inr (SendPartyResult x PARTY_OP_INVITE (c_str (pl_name me)) PARTY_RESULT_ALREADY_IN_GROUP s)
            else with_party a s (\<lambda>g.
              if gp_leaderGuid g = x then Inr s
              else and_then (RemoveInvite a x s) (\<lambda>s.
                if IsFull g then Inr (SendPartyResult x PARTY_OP_INVITE '''' PARTY_RESULT_PARTY_FULL s)
                else and_then
                  (if gp_members g = []
                   then and_then (case GetPlayer (gs_world s) (gp_leaderGuid g) of
                                    None \<Rightarrow> Inr s | Some l \<Rightarrow> RemoveInvite a (pl_guid l) s) (\<lambda>s.
                        and_then (Group_Create a (gp_leaderGuid g) (gp_leaderName g) s) (\<lambda>(ok, s). Inr (AddGroup a s)))
                   else Inr s) (\<lambda>s.
                and_then (Group_AddMember a x (c_str (pl_name me)) s) (\<lambda>(ok, s).
                  if ok then BroadcastGroupUpdate a s else Inr s))))))"

definition HandleGroupDeclineOpcode :: "player \<Rightarrow> group_server \<Rightarrow> party_handler" where
  "HandleGroupDeclineOpcode me s = (\<lambda>b. Inr (
     case gr_invite (gs_refs s (pl_guid me)) of
       None \<Rightarrow> Inr s
     | Some a \<Rightarrow> with_party a s (\<lambda>g.
         and_then (UninviteFromGroup (pl_guid me) s) (\<lambda>s'.
           Inr (case FindPlayer (gs_world s) (gp_leaderGuid g) True of
                  None \<Rightarrow> s'
                | Some leader \<Rightarrow> glog [GSend (pl_guid leader) (put (WorldPacket_new SMSG_GROUP_DECLINE)
                                   (enc_string (c_str (pl_name me))))] s')))))"

definition CanUninviteFromGroup :: "party_env \<Rightarrow> guid \<Rightarrow> group_server \<Rightarrow> group_error + party_result" where
  "CanUninviteFromGroup env x s =
     (case gr_group (gs_refs s x) of
        None \<Rightarrow> Inr PARTY_RESULT_YOU_NOT_IN_GROUP
      | Some a \<Rightarrow> with_party a s (\<lambda>g. Inr (
          if \<not> IsLeader x g \<and> \<not> IsAssistant x g then PARTY_RESULT_YOU_NOT_LEADER
          else if pe_in_bg env x then PARTY_RESULT_INVITE_RESTRICTED else PARTY_RESULT_OK)))"

text \<open>What both forms of uninviting do once permission is given: \<open>h\<close> is a member to kick; without one the invited
  player is looked up.\<close>

definition uninvite :: "guid \<Rightarrow> gaddr \<Rightarrow> guid option \<Rightarrow> group_error + guid option \<Rightarrow> string \<Rightarrow> group_server \<Rightarrow> group_result" where
  "uninvite x a h pending name s =
     (case h of
        Some k \<Rightarrow> RemoveFromGroup (Some a) k GROUP_REMOVEMETHOD_KICK s
      | None \<Rightarrow> and_then pending (\<lambda>p'.
          case p' of
            Some p \<Rightarrow> UninviteFromGroup p s
          | None \<Rightarrow> Inr (SendPartyResult x PARTY_OP_LEAVE name PARTY_RESULT_NOT_IN_YOUR_PARTY s)))"

definition permitted :: "party_env \<Rightarrow> guid \<Rightarrow> group_server \<Rightarrow> (gaddr \<Rightarrow> party \<Rightarrow> group_result) \<Rightarrow> group_result" where
  "permitted env x s k =
     and_then (CanUninviteFromGroup env x s) (\<lambda>res.
       if res \<noteq> PARTY_RESULT_OK then Inr (SendPartyResult x PARTY_OP_LEAVE '''' res s)
       else case gr_group (gs_refs s x) of None \<Rightarrow> Inr s | Some a \<Rightarrow> with_party a s (k a))"

definition HandleGroupUninviteGuidOpcode :: "party_env \<Rightarrow> player \<Rightarrow> group_server \<Rightarrow> party_handler" where
  "HandleGroupUninviteGuidOpcode env me s =
     rd (read_int False 8) (\<lambda>h b. Inr (
       if h = pl_guid me then Inr s
       else permitted env (pl_guid me) s (\<lambda>a g.
         if IsLeader h g then Inr (SendPartyResult (pl_guid me) PARTY_OP_LEAVE '''' PARTY_RESULT_YOU_NOT_LEADER s)
         else uninvite (pl_guid me) a (if is_member h g then Some h else None) (GetInvited a h s) '''' s)))"

definition HandleGroupUninviteNameOpcode :: "party_env \<Rightarrow> player \<Rightarrow> group_server \<Rightarrow> party_handler" where
  "HandleGroupUninviteNameOpcode env me s =
     rd read_string (\<lambda>n b. Inr (
       case pe_norm env n of
         None \<Rightarrow> Inr s
       | Some membername \<Rightarrow>
           if c_str (pl_name me) = membername then Inr s
           else permitted env (pl_guid me) s (\<lambda>a g.
             let h = GetMemberGUID membername g
             in if h \<noteq> 0 \<and> IsLeader h g
                then Inr (SendPartyResult (pl_guid me) PARTY_OP_LEAVE '''' PARTY_RESULT_YOU_NOT_LEADER s)
                else uninvite (pl_guid me) a (if h \<noteq> 0 then Some h else None) (GetInvited_name a membername s) membername s)))"

text \<open>Handlers of members: nothing without a group.\<close>

definition in_group :: "player \<Rightarrow> group_server \<Rightarrow> (gaddr \<Rightarrow> party \<Rightarrow> party_handler) \<Rightarrow> party_handler" where
  "in_group me s k = (\<lambda>b.
     case gr_group (gs_refs s (pl_guid me)) of
       None \<Rightarrow> Inr (Inr s)
     | Some a \<Rightarrow> (case gs_heap s a of None \<Rightarrow> Inr (Inl (DeletedGroup a)) | Some g \<Rightarrow> k a g b))"

definition HandleGroupSetLeaderOpcode :: "player \<Rightarrow> group_server \<Rightarrow> party_handler" where
  "HandleGroupSetLeaderOpcode me s = in_group me s (\<lambda>a g.
     rd (read_int False 8) (\<lambda>h b. Inr (
       if FindPlayer (gs_world s) h True = None \<or> \<not> IsLeader (pl_guid me) g \<or> gr_group (gs_refs s h) \<noteq> Some a then Inr s
       else ChangeLeader a h s)))"

definition HandleGroupLeaveOpcode :: "party_env \<Rightarrow> player \<Rightarrow> group_server \<Rightarrow> party_handler" where
  "HandleGroupLeaveOpcode env me s = in_group me s (\<lambda>a g b. Inr (
     if pe_in_bg env (pl_guid me)
     then Inr (SendPartyResult (pl_guid me) PARTY_OP_INVITE '''' PARTY_RESULT_INVITE_RESTRICTED s)
     else RemoveFromGroup (Some a) (pl_guid me) GROUP_REMOVEMETHOD_DEFAULT
            (SendPartyResult (pl_guid me) PARTY_OP_LEAVE (c_str (pl_name me)) PARTY_RESULT_OK s)))"

text \<open>The packet is read before the group is looked at.\<close>

definition HandleLootMethodOpcode :: "player \<Rightarrow> group_server \<Rightarrow> party_handler" where
  "HandleLootMethodOpcode me s =
     rd (read_int False 4) (\<lambda>lootMethod :: u32. rd (read_int False 8) (\<lambda>lootMaster. rd (read_int False 4) (\<lambda>lootThreshold :: u32.
       in_group me s (\<lambda>a g b. Inr (
         if \<not> IsLeader (pl_guid me) g \<or> lootMethod > 4 \<or> lootThreshold < 2 \<or> lootThreshold > 6 then Inr s
         else if lootMethod = 2 \<and> \<not> is_member lootMaster g then Inr s
         else SendUpdate a (put_party a (g\<lparr>gp_lootMethod := ucast lootMethod, gp_masterLooterGuid := lootMaster,
                gp_lootThreshold := ucast lootThreshold\<rparr>) s))))))"

definition HandleLootRoll :: "loot_env \<Rightarrow> player \<Rightarrow> group_server \<Rightarrow> party_handler" where
  "HandleLootRoll env me s = in_group me s (\<lambda>a g.
     rd (read_int False 8) (\<lambda>item. rd (read_int False 4) (\<lambda>NumberOfPlayers. rd (read_int False 1) (\<lambda>Choice b.
       Inr (CountRollVote env a (pl_guid me) item NumberOfPlayers Choice s)))))"

text \<open>The two floats are passed on as they came.\<close>

definition HandleMinimapPingOpcode :: "player \<Rightarrow> group_server \<Rightarrow> party_handler" where
  "HandleMinimapPingOpcode me s = in_group me s (\<lambda>a g.
     rd (read_int False 4) (\<lambda>x :: u32. rd (read_int False 4) (\<lambda>y :: u32. \<lambda>b.
       Inr (Group_BroadcastPacket (put (WorldPacket_new MSG_MINIMAP_PING) (enc_u64 (pl_guid me) @ enc_u32 x @ enc_u32 y))
              True None (pl_guid me) a s))))"

definition HandleRandomRollOpcode :: "party_env \<Rightarrow> player \<Rightarrow> group_server \<Rightarrow> party_handler" where
  "HandleRandomRollOpcode env me s =
     rd (read_int False 4) (\<lambda>minimum. rd (read_int False 4) (\<lambda>maximum b.
       if minimum > maximum \<or> maximum > 10000 then Inr (Inr s)
       else
         let data = put (WorldPacket_new MSG_RANDOM_ROLL)
                      (enc_u32 minimum @ enc_u32 maximum @ enc_u32 (pe_urand env minimum maximum) @ enc_u64 (pl_guid me))
         in Inr (case gr_group (gs_refs s (pl_guid me)) of
                   None \<Rightarrow> Inr (glog [GSend (pl_guid me) data] s)
                 | Some a \<Rightarrow> Group_BroadcastPacket data False None 0 a s)))"

definition HandleRaidIconTargetOpcode :: "player \<Rightarrow> group_server \<Rightarrow> party_handler" where
  "HandleRaidIconTargetOpcode me s = in_group me s (\<lambda>a g.
     rd (read_int False 1) (\<lambda>x.
       if x = 0xFF then (\<lambda>b. Inr (SendTargetIconList a (pl_guid me) s))
       else if \<not> IsLeader (pl_guid me) g \<and> \<not> IsAssistant (pl_guid me) g then (\<lambda>b. Inr (Inr s))
       else rd (read_int False 8) (\<lambda>h b. Inr (SetTargetIcon a x h s))))"

definition HandleRaidConvertOpcode :: "party_env \<Rightarrow> player \<Rightarrow> group_server \<Rightarrow> party_handler" where
  "HandleRaidConvertOpcode env me s = in_group me s (\<lambda>a g b. Inr (
     if pe_in_bg env (pl_guid me) then Inr s
     else if \<not> IsLeader (pl_guid me) g \<or> length (gp_members g) < 2 then Inr s
     else ConvertToRaid a (SendPartyResult (pl_guid me) PARTY_OP_INVITE '''' PARTY_RESULT_OK s)))"

definition change_subgroup :: "party_env \<Rightarrow> player \<Rightarrow> gaddr \<Rightarrow> party \<Rightarrow> string \<Rightarrow> u8 \<Rightarrow> group_server \<Rightarrow> group_result" where
  "change_subgroup env me a g name groupNr s =
     (if \<not> IsLeader (pl_guid me) g \<and> \<not> IsAssistant (pl_guid me) g then Inr s
      else and_then (HasFreeSlotSubGroup groupNr g) (\<lambda>free.
        if \<not> free then Inr s
        else case FindPlayerByName (gs_world s) (c_str name) False of
               Some player \<Rightarrow> ChangeMembersGroup_player a (Some (pl_guid player)) groupNr s
             | None \<Rightarrow> ChangeMembersGroup a (pe_guid_by_name env (c_str name)) groupNr s))"

definition HandleGroupChangeSubGroupOpcode :: "party_env \<Rightarrow> player \<Rightarrow> group_server \<Rightarrow> party_handler" where
  "HandleGroupChangeSubGroupOpcode env me s = in_group me s (\<lambda>a g.
     rd read_string (\<lambda>name. rd (read_int False 1) (\<lambda>groupNr b. Inr (change_subgroup env me a g name groupNr s))))"

definition HandleGroupAssistantOpcode :: "player \<Rightarrow> group_server \<Rightarrow> party_handler" where
  "HandleGroupAssistantOpcode me s = in_group me s (\<lambda>a g.
     rd (read_int False 8) (\<lambda>h. rd (read_int False 1) (\<lambda>flag :: u8. \<lambda>b. Inr (
       if \<not> IsLeader (pl_guid me) g then Inr s else SetAssistant a h (flag \<noteq> 0) s))))"

text \<open>\<open>None\<close> when the role setters call each other for ever.\<close>

definition HandleGroupPromoteOpcode :: "player \<Rightarrow> group_server \<Rightarrow> byte_buffer \<Rightarrow> bb_error + group_result option" where
  "HandleGroupPromoteOpcode me s = (\<lambda>b.
     case gr_group (gs_refs s (pl_guid me)) of
       None \<Rightarrow> Inr (Some (Inr s))
     | Some a \<Rightarrow> (case gs_heap s a of
         None \<Rightarrow> Inr (Some (Inl (DeletedGroup a)))
       | Some g \<Rightarrow>
           rd (read_int False 1) (\<lambda>role :: u8. rd (read_int False 1) (\<lambda>apply' :: u8. rd (read_int False 8) (\<lambda>h b. Inr (
             if \<not> IsLeader (pl_guid me) g \<or> apply' = 0 then Some (Inr s)
             else if role = 0 then SetMain True a h s
             else if role = 1 then SetMain False a h s
             else Some (Inr s))))) b))"

text \<open>An empty packet asks, one with a byte answers.\<close>

definition HandleRaidReadyCheckOpcode :: "player \<Rightarrow> group_server \<Rightarrow> party_handler" where
  "HandleRaidReadyCheckOpcode me s = in_group me s (\<lambda>a g b.
     if length (storage b) = 0
     then Inr (if \<not> IsLeader (pl_guid me) g \<and> \<not> IsAssistant (pl_guid me) g then Inr s
               else and_then (Group_BroadcastPacket (put (WorldPacket_new MSG_RAID_READY_CHECK) (enc_u64 (pl_guid me)))
                                False None 0 a s) (OfflineReadyCheck a))
     else rd (read_int False 1) (\<lambda>state b.
            Inr (BroadcastReadyCheck (put (WorldPacket_new MSG_RAID_READY_CHECK_CONFIRM) (enc_u64 (pl_guid me) @ enc_u8 state)) a s)) b)"

definition HandleGroupPassOnLootOpcode :: "player \<Rightarrow> group_server \<Rightarrow> party_handler" where
  "HandleGroupPassOnLootOpcode me s =
     rd (read_int False 4) (\<lambda>passOnLoot b. Inr (Inr (glog [SetPassOnGroupLoot (pl_guid me) passOnLoot] s)))"

definition slot_info :: "string \<Rightarrow> party \<Rightarrow> (u8 \<times> guid) option" where
  "slot_info name g = map_option (\<lambda>m. (ms_group m, ms_guid m))
     (find (\<lambda>m. ms_guid m \<noteq> 0 \<and> ms_name m = name) (gp_members g))"

definition HandleGroupSwapSubGroupOpcode :: "player \<Rightarrow> group_server \<Rightarrow> party_handler" where
  "HandleGroupSwapSubGroupOpcode me s =
     rd read_string (\<lambda>n1. rd read_string (\<lambda>n2. in_group me s (\<lambda>a g b. Inr (
       if \<not> gp_raid g \<or> \<not> IsLeader (pl_guid me) g \<and> \<not> IsAssistant (pl_guid me) g then Inr s
       else case (slot_info n1 g, slot_info n2 g) of
              (Some (k1, h1), Some (k2, h2)) \<Rightarrow>
                if k1 = k2 then Inr s
                else and_then (ChangeMembersGroup a h1 k2 s) (ChangeMembersGroup a h2 k1)
            | _ \<Rightarrow> Inr s))))"

end
