(* ===== verification/GroupLife.thy ===== *)
theory GroupLife
  imports GroupHandler
begin

text \<open>
  What happens to parties and raids outside their packet handlers: players log in, log out and are deleted
  (Player.cpp, WorldSession.cpp), enter and leave battlegrounds, where each side has a raid of its own (Player.cpp,
  Battleground.cpp), and the server loads the groups of the database at its start (Group.cpp,
  ObjectMgr.cpp). Only the parts of these functions that concern groups are modelled.
\<close>

section \<open>Players come and go\<close>

definition GetGroupByLeader :: "guid \<Rightarrow> group_server \<Rightarrow> gaddr option" where
  "GetGroupByLeader h s =
     find (\<lambda>a. case gs_heap s a of None \<Rightarrow> False | Some g \<Rightarrow> gp_leaderGuid g = h) (gs_set s)"

text \<open>\<open>row\<close> is the leader in the row of the table \<open>group_member\<close> of the player, if there is one.\<close>

definition LoadGroup_player :: "player \<Rightarrow> u32 option \<Rightarrow> group_server \<Rightarrow> group_result" where
  "LoadGroup_player p row s =
     (case row of
        None \<Rightarrow> Inr s
      | Some low \<Rightarrow>
          (case GetGroupByLeader (MAKE_NEW_GUID low 0 HIGHGUID_PLAYER) s of
             None \<Rightarrow> Inr s
           | Some a \<Rightarrow> with_party a s (\<lambda>g.
               and_then (SetGroup (pl_guid p) (Some (a, GetMemberGroup (pl_guid p) g)) s) (\<lambda>s.
                 Inr (if pl_level p \<ge> LEVELREQUIREMENT_HEROIC
                      then s\<lparr>gs_difficulty := (gs_difficulty s)(pl_guid p := gp_difficulty g)\<rparr> else s)))))"

definition set_players :: "(player list \<Rightarrow> player list) \<Rightarrow> group_server \<Rightarrow> group_server" where
  "set_players f s = s\<lparr>gs_world := (gs_world s)\<lparr>w_players := f (w_players (gs_world s))\<rparr>\<rparr>"

text \<open>A new \<open>Player\<close> is in no group and invited by none; he is found by his guid once he is loaded.\<close>

definition no_refs :: group_refs where
  "no_refs = \<lparr>gr_group = None, gr_subgroup = 0, gr_original = None, gr_originalSub = 0, gr_invite = None\<rparr>"

definition player_login :: "player \<Rightarrow> u32 option \<Rightarrow> group_server \<Rightarrow> group_result" where
  "player_login p row s =
     and_then (LoadGroup_player p row (upd_refs (pl_guid p) (\<lambda>_. no_refs) s)) (\<lambda>s. Inr (set_players ((#) p) s))"

text \<open>An invitation is declined; the destructors of the references of the \<open>Player\<close> unlink them.\<close>

definition player_logout :: "guid \<Rightarrow> group_server \<Rightarrow> group_result" where
  "player_logout h s =
     and_then (UninviteFromGroup h s) (\<lambda>s.
       Inr (set_players (filter (\<lambda>p. pl_guid p \<noteq> h)) (unlink h False (unlink h True s))))"

text \<open>A far teleport takes a player out of the world and puts him in again; he is connected throughout.\<close>

definition player_moved :: "guid \<Rightarrow> bool \<Rightarrow> group_server \<Rightarrow> group_server" where
  "player_moved h inside = set_players (map (\<lambda>p. if pl_guid p = h then p\<lparr>pl_in_world := inside\<rparr> else p))"

text \<open>\<open>Player::DeleteFromDB\<close> removes a character, who is not connected, from his group.\<close>

definition delete_character :: "guid \<Rightarrow> u32 option \<Rightarrow> group_server \<Rightarrow> group_result" where
  "delete_character h row s =
     (case row of
        None \<Rightarrow> Inr s
      | Some low \<Rightarrow>
          (case GetGroupByLeader (MAKE_NEW_GUID low 0 HIGHGUID_PLAYER) s of
             None \<Rightarrow> Inr s
           | Some a \<Rightarrow> RemoveFromGroup (Some a) h GROUP_REMOVEMETHOD_DEFAULT s))"

section \<open>Raids of battlegrounds\<close>

text \<open>The end of \<open>SendInitialPacketsAfterAddToMap\<close>: \<open>k\<close> is the side of the battleground of the player.\<close>

definition enter_bg_raid :: "nat \<Rightarrow> player \<Rightarrow> group_server \<Rightarrow> group_result" where
  "enter_bg_raid k me s =
     (case gs_bgraid s k of
        None \<Rightarrow>
          let a = gs_next s; s = SetBgRaid k (Some a) (put_party a Group_new (s\<lparr>gs_next := a + 1\<rparr>))
          in and_then (Group_Create a (ucast (GUID_LOPART (pl_guid me))) (c_str (pl_name me)) s) (\<lambda>(ok, s). Inr s)
      | Some a \<Rightarrow> with_party a s (\<lambda>g.
          if is_member (pl_guid me) g then SetBattlegroundRaid (pl_guid me) a (GetMemberGroup (pl_guid me) g) s
          else and_then (Group_AddMember a (pl_guid me) (c_str (pl_name me)) s) (\<lambda>(ok, s). Inr s)))"

text \<open>The end of \<open>RemovePlayerAtLeave\<close>, for a player of the side who may be offline.\<close>

definition leave_bg_raid :: "nat \<Rightarrow> guid \<Rightarrow> group_server \<Rightarrow> group_result" where
  "leave_bg_raid k h s =
     (case gs_bgraid s k of
        None \<Rightarrow> Inr s
      | Some a \<Rightarrow> and_then (RemoveMember a h GROUP_REMOVEMETHOD_DEFAULT s) (\<lambda>(n, s).
          Inr (if n = 0 then delete_party a (SetBgRaid k None s) else s)))"

section \<open>Loading\<close>

text \<open>A row of the table \<open>groups\<close> as the queries return it: the last column is the master looter in the query of
  \<open>LoadGroupFromDB\<close>, the leader in the one of \<open>LoadGroups\<close>.\<close>

record group_row =
  gw_mainTank :: u64
  gw_mainAssistant :: u64
  gw_lootMethod :: u8
  gw_looter :: u32
  gw_lootThreshold :: u16
  gw_icons :: "u64 list"
  gw_isRaid :: bool
  gw_difficulty :: u8
  gw_column15 :: u32

definition read_group_row :: "guid \<Rightarrow> string \<Rightarrow> group_row \<Rightarrow> party \<Rightarrow> group_error + party" where
  "read_group_row leader name row g =
     (let g = g\<lparr>gp_leaderGuid := leader, gp_leaderName := name, gp_raid := gw_isRaid row\<rparr>
      in and_then (if gp_raid g then initRaidSubGroupsCounter g else Inr g) (\<lambda>g. Inr (g\<lparr>
           gp_difficulty := gw_difficulty row, gp_mainTank := gw_mainTank row, gp_mainAssistant := gw_mainAssistant row,
           gp_lootMethod := gw_lootMethod row, gp_looterGuid := MAKE_NEW_GUID (gw_looter row) 0 HIGHGUID_PLAYER,
           gp_lootThreshold := ucast (gw_lootThreshold row),
           gp_masterLooterGuid := MAKE_NEW_GUID (gw_column15 row) 0 HIGHGUID_PLAYER, gp_targetIcons := gw_icons row\<rparr>)))"

text \<open>A row of \<open>group_member\<close>: member, assistant, subgroup, leader.\<close>

record group_member_row =
  gm_member :: u32
  gm_assistant :: bool
  gm_subgroup :: u8
  gm_leader :: u32

fun load_member_rows :: "gaddr \<Rightarrow> group_member_row list \<Rightarrow> group_server \<Rightarrow> group_result" where
  "load_member_rows a [] s = Inr s"
| "load_member_rows a (m # ms) s =
     and_then (LoadMemberFromDB a (gm_member m) (gm_subgroup m) (gm_assistant m) s) (\<lambda>(ok, s). load_member_rows a ms s)"

text \<open>\<open>result\<close> is the row passed, or what the query of the function returns; \<open>members\<close> the rows of the leader.\<close>

definition LoadGroupFromDB ::
    "gaddr \<Rightarrow> guid \<Rightarrow> group_row option \<Rightarrow> group_member_row list \<Rightarrow> bool \<Rightarrow> group_server \<Rightarrow> group_error + bool \<times> group_server" where
  "LoadGroupFromDB a leader result members loadMembers s = with_party a s (\<lambda>g.
     if gp_bg g then Inr (False, s)
     else case result of
            None \<Rightarrow> Inr (False, s)
          | Some row \<Rightarrow>
              (case GetPlayerNameByGUID (gs_world s) leader of
                 None \<Rightarrow> Inr (False, put_party a (g\<lparr>gp_leaderGuid := leader\<rparr>) s)
               | Some name \<Rightarrow>
                   and_then (read_group_row leader name row g) (\<lambda>g.
                     let s = put_party a g s
                     in if \<not> loadMembers then Inr (True, s)
                        else if members = [] then Inr (False, s)
                        else and_then (load_member_rows a members s) (\<lambda>s.
                          with_party a s (\<lambda>g. Inr (length (gp_members g) \<ge> 2, s))))))"

definition load_group :: "group_row \<Rightarrow> group_server \<Rightarrow> group_result" where
  "load_group row s =
     (let a = gs_next s; s = put_party a Group_new (s\<lparr>gs_next := a + 1\<rparr>)
      in and_then (LoadGroupFromDB a (MAKE_NEW_GUID (gw_column15 row) 0 HIGHGUID_PLAYER) (Some row) [] False s) (\<lambda>(ok, s).
           if ok then Inr (AddGroup a s)
           else and_then (Group_Disband a False s) (\<lambda>s. Inr (delete_party a s))))"

text \<open>\<open>cur\<close> is the group of the row before; a row that cannot be loaded is deleted.\<close>

fun load_group_members :: "gaddr option \<Rightarrow> group_member_row list \<Rightarrow> group_server \<Rightarrow> group_result" where
  "load_group_members cur [] s = Inr s"
| "load_group_members cur (m # ms) s =
     (let leader = MAKE_NEW_GUID (gm_leader m) 0 HIGHGUID_PLAYER;
          same = (case cur of None \<Rightarrow> False
                  | Some a \<Rightarrow> (case gs_heap s a of None \<Rightarrow> False | Some g \<Rightarrow> gp_leaderGuid g = leader));
          cur = (if same then cur else GetGroupByLeader leader s)
      in case cur of
           None \<Rightarrow> load_group_members None ms (party_sql (DeleteGroupMember (gm_member m)) s)
         | Some a \<Rightarrow>
             and_then (LoadMemberFromDB a (gm_member m) (gm_subgroup m) (gm_assistant m) s) (\<lambda>(ok, s).
               load_group_members cur ms (if ok then s else party_sql (DeleteGroupMember (gm_member m)) s)))"

definition clean_group :: "gaddr \<Rightarrow> group_server \<Rightarrow> group_result" where
  "clean_group a s = with_party a s (\<lambda>g.
     if length (gp_members g) < 2
     then and_then (Group_Disband a False s) (\<lambda>s. Inr (RemoveGroup a (delete_party a s)))
     else Inr s)"

definition LoadGroups :: "group_row list \<Rightarrow> group_member_row list \<Rightarrow> group_server \<Rightarrow> group_result" where
  "LoadGroups rows members s =
     (if rows = [] then Inr s
      else and_then (for_all load_group rows s) (\<lambda>s.
           and_then (load_group_members None members s) (\<lambda>s. for_all clean_group (gs_set s) s)))"

section \<open>Loot and difficulty\<close>

text \<open>The end of the timer that \<open>GroupLoot\<close> starts on a corpse or chest, with the leader it noted.\<close>

definition loot_timer_ends :: "loot_env \<Rightarrow> guid \<Rightarrow> group_server \<Rightarrow> group_result option" where
  "loot_timer_ends env leader s =
     (case GetGroupByLeader leader s of None \<Rightarrow> Some (Inr s) | Some a \<Rightarrow> EndRoll env a s)"

text \<open>\<open>Loot::clear\<close> makes the references of rolls invalid: the loot filled in afterwards has another name here.\<close>

definition Loot_clear :: "nat \<Rightarrow> group_server \<Rightarrow> group_server" where
  "Loot_clear l s = s\<lparr>gs_loots := (gs_loots s)(l := None)\<rparr>"

definition Loot_filled :: "nat \<Rightarrow> loot \<Rightarrow> group_server \<Rightarrow> group_server" where
  "Loot_filled l lo s = s\<lparr>gs_loots := (gs_loots s)(l := Some lo)\<rparr>"

text \<open>Which rolls the loot method starts, for \<open>h\<close> who opens the loot with the right to it.\<close>

definition start_loot :: "loot_env \<Rightarrow> guid \<Rightarrow> nat \<Rightarrow> group_server \<Rightarrow> group_result" where
  "start_loot env h l s =
     (case gr_group (gs_refs s h) of
        None \<Rightarrow> Inr s
      | Some a \<Rightarrow> and_then (UpdateLooterGuid (le_near env) a True s) (\<lambda>s. with_party a s (\<lambda>g.
          if gp_lootMethod g = GROUP_LOOT then GroupLoot env a h l s
          else if gp_lootMethod g = NEED_BEFORE_GREED then NeedBeforeGreed env a h l s
          else if gp_lootMethod g = MASTER_LOOT then MasterLoot env a h l s
          else Inr s)))"

definition HandleDungeonDifficultyOpcode :: "bool \<Rightarrow> player \<Rightarrow> group_server \<Rightarrow> party_handler" where
  "HandleDungeonDifficultyOpcode in_dungeon me s =
     rd (read_int False 4) (\<lambda>mode :: u32. \<lambda>b. Inr (
       let x = pl_guid me
       in if mode = ucast (gs_difficulty s x) \<or> mode > 1 \<or> in_dungeon \<or> pl_level me < LEVELREQUIREMENT_HEROIC then Inr s
          else case gr_group (gs_refs s x) of
                 Some a \<Rightarrow> with_party a s (\<lambda>g.
                   if IsLeader x g then Group_SetDifficulty a (ucast mode) (glog [ResetGroupInstances a] s) else Inr s)
               | None \<Rightarrow> Inr ((glog [ResetInstances x] s)\<lparr>gs_difficulty := (gs_difficulty s)(x := ucast mode)\<rparr>)))"

end
