(* ===== verification/GroupSafe.thy ===== *)
theory GroupSafe
  imports GroupLife
begin

text \<open>
  Memory safety of parties and raids: the pointers between players, groups and battlegrounds. \<open>parties_ok\<close> is the
  invariant, and each operation of Group keeps it without failing. \<open>party_call\<close> in GroupRuns are the calls that
  keep it; two calls left out there, with the errors they lead to, are in GroupLaws.
\<close>

section \<open>Results\<close>

definition ok :: "('a \<Rightarrow> bool) \<Rightarrow> group_error + 'a \<Rightarrow> bool" where
  "ok P r = (case r of Inl e \<Rightarrow> False | Inr x \<Rightarrow> P x)"

lemma ok_simps [simp]: "ok P (Inr x) = P x" "\<not> ok P (Inl e)"
  by (simp_all add: ok_def)

lemma ok_Inr_iff: "ok P r \<longleftrightarrow> (\<exists>x. r = Inr x \<and> P x)"
  by (cases r) auto

lemma and_then_simps [simp]: "and_then (Inr x) k = k x" "and_then (Inl e) k = Inl e"
  by (simp_all add: and_then_def)

lemma and_then_assoc: "and_then (and_then m k) f = and_then m (\<lambda>x. and_then (k x) f)"
  by (cases m) simp_all

lemma ok_bind: "ok P m \<Longrightarrow> (\<And>x. P x \<Longrightarrow> ok Q (k x)) \<Longrightarrow> ok Q (and_then m k)"
  by (cases m) auto

lemma ok_bind2: "ok (\<lambda>(x, y). P x y) m \<Longrightarrow> (\<And>x y. P x y \<Longrightarrow> ok Q (k x y)) \<Longrightarrow> ok Q (and_then m (\<lambda>(x, y). k x y))"
  by (cases m) auto

lemma ok_mono: "ok P m \<Longrightarrow> (\<And>x. P x \<Longrightarrow> Q x) \<Longrightarrow> ok Q m"
  by (cases m) auto

lemma with_party_Some [simp]: "gs_heap s a = Some g \<Longrightarrow> with_party a s k = k g"
  by (simp add: with_party_def)

lemma ok_for_all:
  assumes "\<And>x s. x \<in> set xs \<Longrightarrow> P s \<Longrightarrow> ok P (f x s)" and "P s"
  shows "ok P (for_all f xs s)"
  using assms by (induction xs arbitrary: s) (auto intro: ok_bind)

section \<open>What most operations leave alone\<close>

text \<open>Of a group: whether it is a battleground's, its size, its leader and whether it is a raid, its invitations.\<close>

abbreviation lead :: "party \<Rightarrow> guid \<times> bool" where
  "lead g \<equiv> (gp_leaderGuid g, gp_raid g)"

definition sig :: "group_server \<Rightarrow> gaddr \<Rightarrow> (bool \<times> nat \<times> (guid \<times> bool) \<times> guid list) option" where
  "sig s a = map_option (\<lambda>g. (gp_bg g, length (gp_members g), lead g, gp_invitees g)) (gs_heap s a)"

definition loot_len :: "group_server \<Rightarrow> nat \<Rightarrow> nat option" where
  "loot_len s l = map_option (\<lambda>lo. length (lo_items lo)) (gs_loots s l)"

definition frame :: "group_server \<Rightarrow> world \<times> gaddr list \<times> gaddr \<times> (nat \<Rightarrow> gaddr option) \<times> (nat \<Rightarrow> nat option)
    \<times> (gaddr \<Rightarrow> (bool \<times> nat \<times> (guid \<times> bool) \<times> guid list) option)" where
  "frame s = (gs_world s, gs_set s, gs_next s, gs_bgraid s, loot_len s, sig s)"

definition refs_at :: "group_server \<Rightarrow> gaddr \<Rightarrow> (guid \<times> bool) set" where
  "refs_at s a = (case gs_heap s a of None \<Rightarrow> {} | Some g \<Rightarrow> set (gp_refs g))"

definition invited_at :: "group_server \<Rightarrow> gaddr \<Rightarrow> guid set" where
  "invited_at s a = (case sig s a of None \<Rightarrow> {} | Some (_, _, _, is) \<Rightarrow> set is)"

definition connected :: "guid \<Rightarrow> group_server \<Rightarrow> bool" where
  "connected h s \<longleftrightarrow> FindPlayer (gs_world s) h True \<noteq> None"

section \<open>The invariant\<close>

text \<open>Every reference of a player is in the list of its group and the other way round, and so are invitations, of
  players who are connected; nobody is invited to the raid of a battleground.\<close>

definition links_ok :: "group_server \<Rightarrow> bool" where
  "links_ok s \<longleftrightarrow> (\<forall>h b a. ref_target b (gs_refs s h) = Some a \<longleftrightarrow> (h, b) \<in> refs_at s a)
     \<and> (\<forall>h b. ref_target b (gs_refs s h) \<noteq> None \<longrightarrow> connected h s)"

definition invites_ok :: "group_server \<Rightarrow> bool" where
  "invites_ok s \<longleftrightarrow>
     (\<forall>h a. gr_invite (gs_refs s h) = Some a \<longleftrightarrow> h \<in> invited_at s a)
     \<and> (\<forall>h. gr_invite (gs_refs s h) \<noteq> None \<longrightarrow> connected h s)
     \<and> (\<forall>a n l is. sig s a = Some (True, n, l, is) \<longrightarrow> is = [])"

text \<open>Indices that the code uses without a check: subgroups and the slots of the items rolled for.\<close>

definition slots_ok :: "party \<Rightarrow> bool" where
  "slots_ok g \<longleftrightarrow> (\<forall>m \<in> set (gp_members g). unat (ms_group m) < 8 \<and> ms_guid m \<noteq> 0)
     \<and> (\<forall>c. gp_subGroupsCounts g = Some c \<longrightarrow> length c = 8) \<and> (\<not> gp_raid g \<longrightarrow> gp_subGroupsCounts g = None)"

definition rolls_ok :: "(nat \<Rightarrow> nat option) \<Rightarrow> party \<Rightarrow> bool" where
  "rolls_ok L g \<longleftrightarrow> (\<forall>r \<in> set (gp_rolls g). \<forall>l n. ro_loot r = Some l \<longrightarrow> L l = Some n \<longrightarrow> unat (ro_itemSlot r) < n)"

text \<open>The raids of battlegrounds: each belongs to one side, and none is the group a player goes back to.\<close>

definition plain :: "group_server \<Rightarrow> gaddr \<Rightarrow> bool" where
  "plain s a \<longleftrightarrow> map_option fst (sig s a) = Some False"

definition raids_ok :: "group_server \<Rightarrow> bool" where
  "raids_ok s \<longleftrightarrow> (\<forall>k a. gs_bgraid s k = Some a \<longrightarrow> (\<exists>n l is. sig s a = Some (True, n, l, is)))
     \<and> (\<forall>k k' a. gs_bgraid s k = Some a \<longrightarrow> gs_bgraid s k' = Some a \<longrightarrow> k = k')
     \<and> (\<forall>h a. ref_target False (gs_refs s h) = Some a \<longrightarrow> plain s a)"

definition core :: "group_server \<Rightarrow> bool" where
  "core s \<longleftrightarrow> links_ok s \<and> invites_ok s \<and> raids_ok s
     \<and> (\<forall>a g. gs_heap s a = Some g \<longrightarrow> a < gs_next s \<and> slots_ok g \<and> rolls_ok (loot_len s) g)
     \<and> (\<forall>h. unat (gr_subgroup (gs_refs s h)) < 8 \<and> unat (gr_originalSub (gs_refs s h)) < 8)"

text \<open>Between operations a group of the set has members and is no battleground's, and the leader of a group being formed is invited to it.\<close>

definition seat_ok :: "bool \<times> nat \<times> (guid \<times> bool) \<times> guid list \<Rightarrow> bool" where
  "seat_ok x \<longleftrightarrow> (\<not> fst x \<and> fst (snd x) = 0 \<longrightarrow> fst (fst (snd (snd x))) \<in> set (snd (snd (snd x))) \<and> \<not> snd (fst (snd (snd x))))"

definition formed :: "group_server \<Rightarrow> bool" where
  "formed s \<longleftrightarrow> (\<forall>a \<in> set (gs_set s). \<exists>x. sig s a = Some x \<and> fst (snd x) \<noteq> 0) \<and> (\<forall>a x. sig s a = Some x \<longrightarrow> seat_ok x)
     \<and> (\<forall>k a. gs_bgraid s k = Some a \<longrightarrow> a \<notin> set (gs_set s))"

definition parties_ok :: "group_server \<Rightarrow> bool" where
  "parties_ok s \<longleftrightarrow> core s \<and> formed s"

section \<open>Updates that the invariant does not see\<close>

lemma frame_eqD:
  assumes "frame s' = frame s"
  shows "gs_world s' = gs_world s" "gs_set s' = gs_set s" "gs_next s' = gs_next s" "gs_bgraid s' = gs_bgraid s"
    "loot_len s' = loot_len s" "sig s' = sig s"
  using assms by (simp_all add: frame_def)

lemma sig_Some: "sig s a = Some (bg, n, l, is) \<longleftrightarrow>
    (\<exists>g. gs_heap s a = Some g \<and> gp_bg g = bg \<and> length (gp_members g) = n \<and> lead g = l \<and> gp_invitees g = is)"
  by (auto simp: sig_def)

lemma sig_None [simp]: "sig s a = None \<longleftrightarrow> gs_heap s a = None"
  by (simp add: sig_def)

lemma alive_sig: "sig s a = Some x \<Longrightarrow> \<exists>g. gs_heap s a = Some g"
  by (auto simp: sig_def)

lemma glog_sel [simp]:
  "gs_world (glog as s) = gs_world s" "gs_refs (glog as s) = gs_refs s" "gs_heap (glog as s) = gs_heap s"
  "gs_next (glog as s) = gs_next s" "gs_set (glog as s) = gs_set s" "gs_bgraid (glog as s) = gs_bgraid s"
  "gs_difficulty (glog as s) = gs_difficulty s" "gs_loots (glog as s) = gs_loots s"
  by (simp_all add: glog_def)

lemma put_party_sel [simp]:
  "gs_world (put_party a g s) = gs_world s" "gs_refs (put_party a g s) = gs_refs s"
  "gs_heap (put_party a g s) = (gs_heap s)(a := Some g)"
  "gs_next (put_party a g s) = gs_next s" "gs_set (put_party a g s) = gs_set s" "gs_bgraid (put_party a g s) = gs_bgraid s"
  "gs_difficulty (put_party a g s) = gs_difficulty s" "gs_loots (put_party a g s) = gs_loots s"
  by (simp_all add: put_party_def)

lemma upd_refs_sel [simp]:
  "gs_world (upd_refs h f s) = gs_world s" "gs_refs (upd_refs h f s) = (gs_refs s)(h := f (gs_refs s h))"
  "gs_heap (upd_refs h f s) = gs_heap s"
  "gs_next (upd_refs h f s) = gs_next s" "gs_set (upd_refs h f s) = gs_set s" "gs_bgraid (upd_refs h f s) = gs_bgraid s"
  "gs_difficulty (upd_refs h f s) = gs_difficulty s" "gs_loots (upd_refs h f s) = gs_loots s"
  by (simp_all add: upd_refs_def)

lemma view_glog [simp]:
  "sig (glog as s) = sig s" "refs_at (glog as s) = refs_at s" "loot_len (glog as s) = loot_len s"
  "connected h (glog as s) = connected h s" "frame (glog as s) = frame s"
  by (auto simp: sig_def refs_at_def loot_len_def connected_def frame_def fun_eq_iff)

lemma view_upd_refs [simp]:
  "sig (upd_refs h f s) = sig s" "refs_at (upd_refs h f s) = refs_at s" "loot_len (upd_refs h f s) = loot_len s"
  "connected k (upd_refs h f s) = connected k s" "frame (upd_refs h f s) = frame s"
  by (auto simp: sig_def refs_at_def loot_len_def connected_def frame_def fun_eq_iff)

lemma view_put_party:
  "sig (put_party a g s) = (sig s)(a \<mapsto> (gp_bg g, length (gp_members g), lead g, gp_invitees g))"
  "refs_at (put_party a g s) = (refs_at s)(a := set (gp_refs g))"
  "loot_len (put_party a g s) = loot_len s" "connected h (put_party a g s) = connected h s"
  by (auto simp: sig_def refs_at_def loot_len_def connected_def fun_eq_iff)

lemma core_glog [simp]: "core (glog as s) = core s"
  by (simp add: core_def links_ok_def invites_ok_def invited_at_def raids_ok_def plain_def)

text \<open>The parts of the invariant speak of the group only through its view, its slots and its rolls.\<close>

lemma core_cong:
  assumes "core s" and "gs_refs s' = gs_refs s" and "refs_at s' = refs_at s" and "frame s' = frame s"
    and "\<And>a g. gs_heap s' a = Some g \<Longrightarrow> slots_ok g \<and> rolls_ok (loot_len s') g"
  shows "core s'"
proof -
  have "gs_heap s' a = Some g \<Longrightarrow> a < gs_next s" for a g
    using assms(1) frame_eqD(6)[OF assms(4)] by (metis core_def sig_None not_None_eq)
  moreover have "invited_at s' = invited_at s" "connected h s' = connected h s" "plain s' = plain s" for h
    using frame_eqD[OF assms(4)] by (simp_all add: invited_at_def connected_def plain_def fun_eq_iff)
  ultimately show ?thesis
    using assms(1,5) frame_eqD(1-5)[OF assms(4)]
    by (simp add: core_def links_ok_def invites_ok_def raids_ok_def assms(2,3) frame_eqD(6)[OF assms(4)])
qed

lemma party_core_put:
  assumes "core s" and "gs_heap s a = Some g"
    and "gp_refs g' = gp_refs g" and "gp_invitees g' = gp_invitees g" and "gp_bg g' = gp_bg g"
    and "lead g' = lead g" and "length (gp_members g') = length (gp_members g)"
    and "slots_ok g'" and "rolls_ok (loot_len s) g'"
  shows "core (put_party a g' s)" and "frame (put_party a g' s) = frame s"
proof -
  have sig: "sig (put_party a g' s) = sig s" and refs: "refs_at (put_party a g' s) = refs_at s"
    using assms by (auto simp: view_put_party fun_eq_iff sig_def refs_at_def)
  then show fr: "frame (put_party a g' s) = frame s"
    by (simp add: frame_def view_put_party)
  show "core (put_party a g' s)"
    using assms(1,8,9) refs fr
    by (intro core_cong[OF assms(1) _ refs fr]) (auto simp: view_put_party core_def split: if_splits)
qed

lemma party_coreD:
  assumes "core s" and "gs_heap s a = Some g"
  shows "a < gs_next s" "slots_ok g" "rolls_ok (loot_len s) g"
  using assms by (auto simp: core_def)

lemma core_subs: "core s \<Longrightarrow> unat (gr_subgroup (gs_refs s h)) < 8 \<and> unat (gr_originalSub (gs_refs s h)) < 8"
  by (simp add: core_def)

lemma core_alive: "core s \<Longrightarrow> ref_target b (gs_refs s h) = Some a \<Longrightarrow> \<exists>g. gs_heap s a = Some g \<and> (h, b) \<in> set (gp_refs g)"
  by (auto simp: core_def links_ok_def refs_at_def split: option.splits)

lemma core_group: "core s \<Longrightarrow> gr_group (gs_refs s h) = Some a \<Longrightarrow> \<exists>g. gs_heap s a = Some g"
  using core_alive[of s True h a] by (auto simp: ref_target_def)

lemma core_original: "core s \<Longrightarrow> gr_original (gs_refs s h) = Some a \<Longrightarrow> \<exists>g. gs_heap s a = Some g"
  using core_alive[of s False h a] by (auto simp: ref_target_def)

lemma invited_at_Some [simp]: "gs_heap s a = Some g \<Longrightarrow> invited_at s a = set (gp_invitees g)"
  by (simp add: invited_at_def sig_def)

lemma invited_at_None [simp]: "gs_heap s a = None \<Longrightarrow> invited_at s a = {}"
  by (simp add: invited_at_def sig_def)

lemma core_invites:
  assumes "core s"
  shows "gr_invite (gs_refs s h) = Some a \<longleftrightarrow> h \<in> invited_at s a"
    and "gr_invite (gs_refs s h) \<noteq> None \<Longrightarrow> connected h s"
    and "gs_heap s a = Some g \<Longrightarrow> gp_bg g \<Longrightarrow> gp_invitees g = []"
proof -
  have I: "invites_ok s" using assms by (simp add: core_def)
  then show "gr_invite (gs_refs s h) = Some a \<longleftrightarrow> h \<in> invited_at s a"
    and "gr_invite (gs_refs s h) \<noteq> None \<Longrightarrow> connected h s" unfolding invites_ok_def by blast+
  assume "gs_heap s a = Some g" "gp_bg g"
  then have "sig s a = Some (True, length (gp_members g), lead g, gp_invitees g)" by (simp add: sig_def)
  with I show "gp_invitees g = []" unfolding invites_ok_def by blast
qed

lemma core_invite:
  assumes "core s" and "gr_invite (gs_refs s h) = Some a"
  shows "\<exists>g. gs_heap s a = Some g \<and> h \<in> set (gp_invitees g) \<and> \<not> gp_bg g"
proof -
  have m: "h \<in> invited_at s a" using assms by (simp add: core_invites)
  then obtain g where g: "gs_heap s a = Some g" by (cases "gs_heap s a") auto
  with m have "h \<in> set (gp_invitees g)" by simp
  with g core_invites(3)[OF assms(1) g] show ?thesis by auto
qed

lemma core_invited:
  assumes "core s" and "gs_heap s a = Some g" and "h \<in> set (gp_invitees g)"
  shows "gr_invite (gs_refs s h) = Some a" and "connected h s"
proof -
  show i: "gr_invite (gs_refs s h) = Some a" using assms by (simp add: core_invites(1))
  then show "connected h s" using core_invites(2)[OF assms(1), of h] by simp
qed

lemma core_fresh: "core s \<Longrightarrow> gs_heap s (gs_next s) = None"
  by (metis party_coreD(1) less_irrefl not_None_eq)

section \<open>References\<close>

lemma slots_ok_cong:
  "gp_members g' = gp_members g \<Longrightarrow> gp_subGroupsCounts g' = gp_subGroupsCounts g \<Longrightarrow> gp_raid g' = gp_raid g \<Longrightarrow> slots_ok g' = slots_ok g"
  by (simp add: slots_ok_def)

lemma rolls_ok_cong: "gp_rolls g' = gp_rolls g \<Longrightarrow> rolls_ok L g' = rolls_ok L g"
  by (simp add: rolls_ok_def)

text \<open>A change of references keeps the invariant when it keeps the agreement of the two sides.\<close>

lemma core_links:
  assumes c: "core s" and fr: "frame s' = frame s" and links: "links_ok s'"
    and same: "\<And>a g. gs_heap s' a = Some g \<Longrightarrow> \<exists>g0. gs_heap s a = Some g0 \<and> gp_members g = gp_members g0
      \<and> gp_subGroupsCounts g = gp_subGroupsCounts g0 \<and> gp_raid g = gp_raid g0 \<and> gp_rolls g = gp_rolls g0"
    and inv: "\<And>h. gr_invite (gs_refs s' h) = gr_invite (gs_refs s h)"
    and subs: "\<And>h. unat (gr_subgroup (gs_refs s' h)) < 8 \<and> unat (gr_originalSub (gs_refs s' h)) < 8"
    and orig: "\<And>h a. ref_target False (gs_refs s' h) = Some a \<Longrightarrow> plain s a"
  shows "core s'"
proof -
  have party: "a < gs_next s \<and> slots_ok g \<and> rolls_ok (loot_len s) g" if g: "gs_heap s' a = Some g" for a g
  proof -
    obtain g0 where "gs_heap s a = Some g0" "gp_members g = gp_members g0"
      "gp_subGroupsCounts g = gp_subGroupsCounts g0" "gp_raid g = gp_raid g0" "gp_rolls g = gp_rolls g0" using same[OF g] by blast
    then show ?thesis using party_coreD[OF c] slots_ok_cong[of g g0] rolls_ok_cong[of g g0] by auto
  qed
  have "invited_at s' = invited_at s" "connected h s' = connected h s" "plain s' = plain s" for h
    using frame_eqD[OF fr] by (simp_all add: invited_at_def connected_def plain_def fun_eq_iff)
  moreover have "invites_ok s" "raids_ok s" using c by (simp_all add: core_def)
  ultimately show ?thesis
    using links party subs orig frame_eqD(1-5)[OF fr]
    by (simp add: core_def invites_ok_def raids_ok_def inv frame_eqD(6)[OF fr])
qed

lemma ref_target_set [simp]:
  "ref_target b (set_target b' t r) = (if b = b' then t else ref_target b r)"
  "ref_target b (set_sub b' k r) = ref_target b r"
  "gr_invite (set_target b t r) = gr_invite r" "gr_invite (set_sub b k r) = gr_invite r"
  by (auto simp: ref_target_def set_target_def set_sub_def)

lemma subs_set [simp]:
  "gr_subgroup (set_target b t r) = gr_subgroup r" "gr_originalSub (set_target b t r) = gr_originalSub r"
  "gr_subgroup (set_sub b k r) = (if b then k else gr_subgroup r)"
  "gr_originalSub (set_sub b k r) = (if b then gr_originalSub r else k)"
  by (auto simp: set_target_def set_sub_def)

lemma core_plain: "core s \<Longrightarrow> ref_target False (gs_refs s h) = Some a \<Longrightarrow> plain s a"
  by (simp add: core_def raids_ok_def)

lemma plain_Some: "plain s a \<longleftrightarrow> (\<exists>g. gs_heap s a = Some g \<and> \<not> gp_bg g)"
  by (auto simp: plain_def sig_def)

lemma keeps_frame_plain: "frame s' = frame s \<Longrightarrow> plain s' = plain s"
  using frame_eqD(6)[of s' s] by (simp add: plain_def fun_eq_iff)

lemma links_okD: "core s \<Longrightarrow> ref_target b (gs_refs s h) = Some a \<longleftrightarrow> (h, b) \<in> refs_at s a"
  by (simp add: core_def links_ok_def)

lemma core_linked: "core s \<Longrightarrow> ref_target b (gs_refs s h) \<noteq> None \<Longrightarrow> connected h s"
  unfolding core_def links_ok_def by blast

lemma core_grouped:
  assumes "core s"
  shows "gr_group (gs_refs s h) \<noteq> None \<Longrightarrow> connected h s" and "gr_original (gs_refs s h) \<noteq> None \<Longrightarrow> connected h s"
  using core_linked[OF assms, of True h] core_linked[OF assms, of False h] by (simp_all add: ref_target_def)

lemma links_ok_view:
  assumes "core s" and "gs_world s' = gs_world s" and "refs_at s' = refs_at s"
    and "\<And>h b. ref_target b (gs_refs s' h) = ref_target b (gs_refs s h)"
  shows "links_ok s'"
  using assms(1) by (simp add: core_def links_ok_def connected_def assms(2-4))

lemma frame_connected: "frame s' = frame s \<Longrightarrow> connected h s' = connected h s"
  using frame_eqD(1)[of s' s] by (simp add: connected_def)

lemma unlink_views:
  assumes "core s"
  shows "gs_refs (unlink h b s) = (gs_refs s)(h := set_target b None (gs_refs s h))"
    and "refs_at (unlink h b s) a = refs_at s a - {(h, b)}"
    and "frame (unlink h b s) = frame s"
    and "gs_heap (unlink h b s) a = Some g \<Longrightarrow> \<exists>g0. gs_heap s a = Some g0 \<and> gp_members g = gp_members g0
      \<and> gp_subGroupsCounts g = gp_subGroupsCounts g0 \<and> gp_raid g = gp_raid g0 \<and> gp_rolls g = gp_rolls g0"
proof -
  have out: "(h, b) \<notin> refs_at s c" if "ref_target b (gs_refs s h) \<noteq> Some c" for c
    using links_okD[OF assms, of b h c] that by simp
  show "gs_refs (unlink h b s) = (gs_refs s)(h := set_target b None (gs_refs s h))"
    by (simp add: unlink_def Let_def split: option.splits)
  show "refs_at (unlink h b s) a = refs_at s a - {(h, b)}"
    using out[of a] links_okD[OF assms, of b h a]
    by (auto simp: unlink_def Let_def view_put_party refs_at_def split: option.splits if_splits)
  show "frame (unlink h b s) = frame s"
    by (auto simp: unlink_def Let_def frame_def view_put_party sig_def fun_eq_iff split: option.splits)
  show "gs_heap (unlink h b s) a = Some g \<Longrightarrow> \<exists>g0. gs_heap s a = Some g0 \<and> gp_members g = gp_members g0
      \<and> gp_subGroupsCounts g = gp_subGroupsCounts g0 \<and> gp_raid g = gp_raid g0 \<and> gp_rolls g = gp_rolls g0"
    by (auto simp: unlink_def Let_def split: option.splits if_splits)
qed

lemma core_unlink [simp]: "core s \<Longrightarrow> core (unlink h b s)"
proof (rule core_links[of s])
  assume c: "core s"
  then show "frame (unlink h b s) = frame s" by (rule unlink_views)
  show "links_ok (unlink h b s)"
    unfolding links_ok_def frame_connected[OF unlink_views(3)[OF c]]
  proof (intro conjI allI impI)
    show "(ref_target b' (gs_refs (unlink h b s) k) = Some x) = ((k, b') \<in> refs_at (unlink h b s) x)" for k b' x
      using links_okD[OF c] by (auto simp: unlink_views[OF c])
    show "connected k s" if "ref_target b' (gs_refs (unlink h b s) k) \<noteq> None" for k b'
      using that core_linked[OF c, of b' k] by (auto simp: unlink_views[OF c] split: if_splits)
  qed
  show "gr_invite (gs_refs (unlink h b s) k) = gr_invite (gs_refs s k)" for k
    by (simp add: unlink_views[OF c])
  show "unat (gr_subgroup (gs_refs (unlink h b s) k)) < 8 \<and> unat (gr_originalSub (gs_refs (unlink h b s) k)) < 8" for k
    using core_subs[OF c] by (simp add: unlink_views[OF c])
  show "ref_target False (gs_refs (unlink h b s) k) = Some a \<Longrightarrow> plain s a" for k a
    using core_plain[OF c, of k a] by (simp add: unlink_views[OF c] split: if_splits)
qed (auto dest: unlink_views(4))

lemma frame_unlink [simp]: "core s \<Longrightarrow> frame (unlink h b s) = frame s"
  by (rule unlink_views)

lemma frame_alive: "frame s' = frame s \<Longrightarrow> gs_heap s' a = None \<longleftrightarrow> gs_heap s a = None"
  using frame_eqD(6)[of s' s] sig_None by metis

definition keeps :: "group_server \<Rightarrow> group_server \<Rightarrow> bool" where
  "keeps s s' \<longleftrightarrow> core s' \<and> frame s' = frame s"

lemma keepsI: "core s' \<Longrightarrow> frame s' = frame s \<Longrightarrow> keeps s s'"
  by (simp add: keeps_def)

lemma keeps_refl: "core s \<Longrightarrow> keeps s s"
  by (simp add: keeps_def)

lemma keeps_trans: "keeps s s' \<Longrightarrow> keeps s' s'' \<Longrightarrow> keeps s s''"
  by (simp add: keeps_def)

lemma keeps_alive: "keeps s s' \<Longrightarrow> gs_heap s' a = None \<longleftrightarrow> gs_heap s a = None"
  using frame_alive keeps_def by blast

lemma keeps_glog [simp]: "keeps s (glog as s') = keeps s s'"
  by (simp add: keeps_def)

lemma keeps_glog_left [simp]: "keeps (glog as s) = keeps s"
  by (simp add: keeps_def fun_eq_iff)

lemma ok_keeps_bind:
  assumes "ok (keeps s) m" and "\<And>s'. keeps s s' \<Longrightarrow> ok (keeps s') (k s')"
  shows "ok (keeps s) (and_then m k)"
proof (rule ok_bind[OF assms(1)])
  fix x assume x: "keeps s x"
  show "ok (keeps s) (k x)" by (rule ok_mono[OF assms(2)[OF x]]) (rule keeps_trans[OF x])
qed

lemma link_one:
  assumes c: "core s" and none: "ref_target b (gs_refs s h) = None" and g: "gs_heap s a = Some g" and sub: "unat sub < 8"
    and bg: "b \<or> plain s a" and conn: "connected h s"
  shows "keeps s (upd_refs h (set_sub b sub \<circ> set_target b (Some a)) (put_party a (g\<lparr>gp_refs := (h, b) # gp_refs g\<rparr>) s))"
    (is "keeps s ?s'")
proof (rule keepsI)
  show fr: "frame ?s' = frame s" using g by (auto simp: frame_def view_put_party fun_eq_iff sig_def)
  have no: "(h, b) \<notin> refs_at s c" for c using links_okD[OF c, of b h c] none by simp
  show "core ?s'"
  proof (rule core_links[OF c fr])
    show "links_ok ?s'"
      unfolding links_ok_def
    proof (intro conjI allI impI)
      show "(ref_target b' (gs_refs ?s' k) = Some x) = ((k, b') \<in> refs_at ?s' x)" for k b' x
        using links_okD[OF c] no g by (auto simp: view_put_party refs_at_def)
      show "connected k ?s'" if "ref_target b' (gs_refs ?s' k) \<noteq> None" for k b'
        using that conn core_linked[OF c, of b' k] by (auto simp: view_put_party split: if_splits)
    qed
  next
    show "unat (gr_subgroup (gs_refs ?s' k)) < 8 \<and> unat (gr_originalSub (gs_refs ?s' k)) < 8" for k
      using core_subs[OF c] sub by simp
  next
    show "ref_target False (gs_refs ?s' k) = Some x \<Longrightarrow> plain s x" for k x
      using core_plain[OF c, of k x] bg by (auto split: if_splits)
  qed (use g in \<open>auto split: if_splits\<close>)
qed

lemma ok_link:
  assumes c: "core s" and a: "gs_heap s a \<noteq> None" and sub: "unat sub < 8" and bg: "b \<or> plain s a" and conn: "connected h s"
  shows "ok (keeps s) (link h b a sub s)"
proof -
  let ?s = "if ref_target b (gs_refs s h) \<noteq> None then unlink h b s else s"
  have c': "core ?s" and fr: "frame ?s = frame s" using c by auto
  have none: "ref_target b (gs_refs ?s h) = None" by (simp add: unlink_views[OF c])
  obtain g where g: "gs_heap ?s a = Some g" using a frame_alive[OF fr, of a] by (cases "gs_heap ?s a") auto
  have "b \<or> plain ?s a" using bg keeps_frame_plain[OF fr] by simp
  from link_one[OF c' none g sub this] conn frame_connected[OF fr] show ?thesis using fr g by (simp add: link_def keeps_def)
qed

lemma keepsD: "keeps s s' \<Longrightarrow> core s' \<and> (\<forall>a. (\<exists>g. gs_heap s' a = Some g) = (\<exists>g. gs_heap s a = Some g))"
  using keeps_alive[of s s'] by (auto simp: keeps_def) (metis not_None_eq)+

text \<open>\<open>party_ok\<close> collects what each operation on references and packets does to the invariant: it succeeds and keeps it.\<close>

named_theorems party_ok "operations that succeed and keep the invariant and the frame"

lemma keeps_core: "keeps s s' \<Longrightarrow> core s'"
  by (simp add: keeps_def)

lemma keeps_frame: "keeps s s' \<Longrightarrow> frame s' = frame s"
  by (simp add: keeps_def)

lemma keeps_Some: "keeps s s' \<Longrightarrow> gs_heap s a \<noteq> None \<Longrightarrow> \<exists>g. gs_heap s' a = Some g"
  using keeps_alive[of s s' a] by auto

lemma ok_SetGroup [party_ok]:
  "core s \<Longrightarrow> (\<And>a k. t = Some (a, k) \<Longrightarrow> gs_heap s a \<noteq> None \<and> unat k < 8 \<and> connected h s) \<Longrightarrow> ok (keeps s) (SetGroup h t s)"
  unfolding SetGroup_def
  by (rule ok_bind[where P = "keeps s"]) (auto simp: keeps_def intro: ok_link split: option.splits)

lemma ok_SetOriginalGroup [party_ok]:
  "core s \<Longrightarrow> (\<And>a k. t = Some (a, k) \<Longrightarrow> plain s a \<and> unat k < 8 \<and> connected h s) \<Longrightarrow> ok (keeps s) (SetOriginalGroup h t s)"
  unfolding SetOriginalGroup_def
  by (auto simp: keeps_def plain_Some intro!: ok_link split: option.splits)

lemma ok_SetBattlegroundRaid [party_ok]:
  assumes c: "core s" and a: "gs_heap s a \<noteq> None" and sub: "unat sub < 8"
    and own: "\<And>b. gr_group (gs_refs s h) = Some b \<Longrightarrow> plain s b" and conn: "connected h s"
  shows "ok (keeps s) (SetBattlegroundRaid h a sub s)"
  unfolding SetBattlegroundRaid_def
proof (rule ok_keeps_bind)
  show "ok (keeps s) (SetOriginalGroup h (map_option (\<lambda>t. (t, gr_subgroup (gs_refs s h))) (gr_group (gs_refs s h))) s)"
    using own conn core_subs[OF c, of h] by (auto intro!: ok_SetOriginalGroup[OF c])
next
  fix s' assume k: "keeps s s'"
  have c': "core s'" by (rule keeps_core[OF k])
  have "gs_heap (unlink h True s') a \<noteq> None"
    using frame_alive[OF frame_unlink[OF c']] keeps_alive[OF k] a by simp
  then have "ok (keeps (unlink h True s')) (link h True a sub (unlink h True s'))"
    using c' sub conn frame_connected[OF frame_unlink[OF c']] frame_connected[OF keeps_frame[OF k]] by (intro ok_link) simp_all
  then show "ok (keeps s') (link h True a sub (unlink h True s'))"
    using c' by (auto intro: ok_mono simp: keeps_def)
qed

lemma ok_RemoveFromBattlegroundRaid [party_ok]:
  assumes c: "core s"
  shows "ok (keeps s) (RemoveFromBattlegroundRaid h s)"
proof -
  let ?s = "unlink h True s"
  have c': "core ?s" using c by simp
  have "ok (keeps ?s) (and_then (case gr_original (gs_refs ?s h) of None \<Rightarrow> Inr ?s
      | Some a \<Rightarrow> link h True a (gr_originalSub (gs_refs ?s h)) ?s) (SetOriginalGroup h None))"
  proof (rule ok_keeps_bind)
    show "ok (keeps ?s) (case gr_original (gs_refs ?s h) of None \<Rightarrow> Inr ?s
      | Some a \<Rightarrow> link h True a (gr_originalSub (gs_refs ?s h)) ?s)"
      using core_original[OF c'] core_subs[OF c', of h] core_grouped(2)[OF c', of h]
      by (auto simp: keeps_refl c' intro!: ok_link split: option.splits)
  next
    fix s' assume "keeps ?s s'"
    then show "ok (keeps s') (SetOriginalGroup h None s')" by (intro ok_SetOriginalGroup) (auto simp: keeps_def)
  qed
  then show ?thesis
    unfolding RemoveFromBattlegroundRaid_def Let_def using c by (auto intro: ok_mono simp: keeps_def)
qed

lemma ok_take_out [party_ok]: "core s \<Longrightarrow> ok (keeps s) (take_out h a bg s)"
  by (auto simp: take_out_def intro!: party_ok)

text \<open>Packets.\<close>

lemma ok_SendUpdate [party_ok]: "core s \<Longrightarrow> gs_heap s a \<noteq> None \<Longrightarrow> ok (keeps s) (SendUpdate a s)"
  by (auto simp: SendUpdate_def keeps_refl)

lemma ok_Group_BroadcastPacket [party_ok]:
  "core s \<Longrightarrow> gs_heap s a \<noteq> None \<Longrightarrow> ok (keeps s) (Group_BroadcastPacket p i sub h a s)"
  by (auto simp: Group_BroadcastPacket_def keeps_refl)

lemma ok_BroadcastReadyCheck [party_ok]:
  "core s \<Longrightarrow> gs_heap s a \<noteq> None \<Longrightarrow> ok (keeps s) (BroadcastReadyCheck p a s)"
  by (auto simp: BroadcastReadyCheck_def keeps_refl)

lemma ok_BroadcastGroupUpdate [party_ok]:
  "core s \<Longrightarrow> gs_heap s a \<noteq> None \<Longrightarrow> ok (keeps s) (BroadcastGroupUpdate a s)"
  by (auto simp: BroadcastGroupUpdate_def keeps_refl)

lemma ok_keeps_for_all:
  assumes c: "core s" and f: "\<And>x s'. x \<in> set xs \<Longrightarrow> keeps s s' \<Longrightarrow> ok (keeps s') (f x s')"
  shows "ok (keeps s) (for_all f xs s)"
proof (rule ok_for_all[where P = "keeps s"])
  fix x s' assume x: "x \<in> set xs" and k: "keeps s s'"
  show "ok (keeps s) (f x s')" by (rule ok_mono[OF f[OF x k]]) (rule keeps_trans[OF k])
qed (rule keeps_refl[OF c])

lemma ok_OfflineReadyCheck [party_ok]:
  assumes "core s" and "gs_heap s a \<noteq> None"
  shows "ok (keeps s) (OfflineReadyCheck a s)"
  using assms unfolding OfflineReadyCheck_def
  by (auto intro!: ok_keeps_for_all ok_BroadcastReadyCheck keeps_refl dest!: keepsD)

lemma ok_tell_left [party_ok]:
  assumes "core s"
  shows "ok (keeps s) (tell_left h s)"
  unfolding tell_left_def
  by (rule ok_keeps_bind)
     (auto simp: keeps_refl assms dest: keeps_core dest!: core_group[OF assms] intro!: party_ok keeps_refl split: option.splits)

section \<open>Operations that change the view of one group\<close>

definition turns :: "gaddr \<Rightarrow> (bool \<times> nat \<times> (guid \<times> bool) \<times> guid list) option \<Rightarrow> group_server \<Rightarrow> group_server \<Rightarrow> bool" where
  "turns a x s s' \<longleftrightarrow> core s' \<and> gs_world s' = gs_world s \<and> gs_set s' = gs_set s \<and> gs_next s' = gs_next s
     \<and> gs_bgraid s' = gs_bgraid s \<and> loot_len s' = loot_len s \<and> sig s' = (sig s)(a := x)"

lemma turns_glog [simp]: "turns a x s (glog as s') = turns a x s s'"
  by (simp add: turns_def)

lemma turns_core: "turns a x s s' \<Longrightarrow> core s'"
  by (simp add: turns_def)

lemma turns_keeps: "turns a x s s' \<Longrightarrow> keeps s' s'' \<Longrightarrow> turns a x s s''"
  by (simp add: turns_def keeps_def frame_def)

lemma keeps_turns: "keeps s s' \<Longrightarrow> turns a x s' s'' \<Longrightarrow> turns a x s s''"
  by (simp add: turns_def keeps_def frame_def)

lemma turns_turns: "turns a y s s' \<Longrightarrow> turns a x s' s'' \<Longrightarrow> turns a x s s''"
  by (simp add: turns_def)

lemma turns_same: "turns a (sig s a) s s' \<longleftrightarrow> keeps s s'"
  by (auto simp: turns_def keeps_def frame_def)

lemma turns_Some: "turns a (Some (bg, n, l, is)) s s' \<Longrightarrow>
    \<exists>g. gs_heap s' a = Some g \<and> gp_bg g = bg \<and> length (gp_members g) = n \<and> lead g = l \<and> gp_invitees g = is"
proof -
  assume "turns a (Some (bg, n, l, is)) s s'"
  then have "sig s' a = Some (bg, n, l, is)" by (simp add: turns_def)
  then show ?thesis by (simp add: sig_Some)
qed

text \<open>The view of a group determines the invitations of players.\<close>

lemma core_change:
  assumes c: "core s" and same: "gs_world s' = gs_world s" "gs_next s' = gs_next s" "gs_bgraid s' = gs_bgraid s"
    "loot_len s' = loot_len s"
    and links: "links_ok s'" and inv: "invites_ok s'"
    and bg: "\<And>a. map_option fst (sig s' a) = map_option fst (sig s a)"
    and orig: "\<And>h. ref_target False (gs_refs s' h) = ref_target False (gs_refs s h)"
    and party: "\<And>a g. gs_heap s' a = Some g \<Longrightarrow> slots_ok g \<and> rolls_ok (loot_len s) g"
    and subs: "\<And>h. unat (gr_subgroup (gs_refs s' h)) < 8 \<and> unat (gr_originalSub (gs_refs s' h)) < 8"
  shows "core s'"
proof -
  have next': "a < gs_next s" if "gs_heap s' a = Some g" for a g
  proof -
    have "gs_heap s a \<noteq> None" using that bg[of a] by (cases "gs_heap s a") (auto simp: sig_def)
    then show ?thesis using c by (auto simp: core_def)
  qed
  have r: "raids_ok s" using c by (simp add: core_def)
  have "raids_ok s'" unfolding raids_ok_def same
  proof (intro conjI allI impI)
    fix k a assume "gs_bgraid s k = Some a"
    then have "map_option fst (sig s a) = Some True" using r by (fastforce simp: raids_ok_def)
    then have "map_option fst (sig s' a) = Some True" by (simp add: bg)
    then show "\<exists>n l is. sig s' a = Some (True, n, l, is)" by auto
  next
    fix k k' a assume "gs_bgraid s k = Some a" "gs_bgraid s k' = Some a"
    then show "k = k'" using r unfolding raids_ok_def by blast
  next
    fix h a assume "ref_target False (gs_refs s' h) = Some a"
    then show "plain s' a" using core_plain[OF c, of h a] by (simp add: orig plain_def bg)
  qed
  then show ?thesis using links inv party subs next' by (simp add: core_def same)
qed

lemma turns_invitees:
  assumes c: "core s" and g: "gs_heap s a = Some g"
    and heap: "gs_heap s' = (gs_heap s)(a \<mapsto> g\<lparr>gp_invitees := is\<rparr>)"
    and same: "gs_world s' = gs_world s" "gs_set s' = gs_set s" "gs_next s' = gs_next s" "gs_bgraid s' = gs_bgraid s"
      "gs_loots s' = gs_loots s"
    and refs: "\<And>k. \<exists>t. gs_refs s' k = (gs_refs s k)\<lparr>gr_invite := t\<rparr>"
    and inv: "\<And>k c. gr_invite (gs_refs s' k) = Some c \<longleftrightarrow> (if c = a then k \<in> set is else k \<in> invited_at s c)"
    and conn: "\<And>k. k \<in> set is \<Longrightarrow> connected k s" and bg: "gp_bg g \<Longrightarrow> is = []"
  shows "turns a (Some (gp_bg g, length (gp_members g), lead g, is)) s s'"
proof -
  have sig: "sig s' = (sig s)(a \<mapsto> (gp_bg g, length (gp_members g), lead g, is))"
    by (auto simp: sig_def heap fun_eq_iff)
  have L: "loot_len s' = loot_len s" by (simp add: loot_len_def same fun_eq_iff)
  have ref: "ref_target b (gs_refs s' k) = ref_target b (gs_refs s k)"
    and sub: "gr_subgroup (gs_refs s' k) = gr_subgroup (gs_refs s k)" "gr_originalSub (gs_refs s' k) = gr_originalSub (gs_refs s k)"
    for b k using refs[of k] by (auto simp: ref_target_def)
  have at: "refs_at s' = refs_at s" using g by (auto simp: refs_at_def heap fun_eq_iff)
  have "core s'"
  proof (rule core_change[OF c same(1,3,4) L])
    show "links_ok s'" by (rule links_ok_view[OF c same(1) at ref])
    show "invites_ok s'"
      unfolding invites_ok_def
    proof (intro conjI allI impI)
      fix h c' show "gr_invite (gs_refs s' h) = Some c' \<longleftrightarrow> h \<in> invited_at s' c'"
        by (simp add: inv invited_at_def sig)
    next
      fix h assume "gr_invite (gs_refs s' h) \<noteq> None"
      then obtain c' where "gr_invite (gs_refs s' h) = Some c'" by blast
      then have "h \<in> set is \<or> h \<in> invited_at s c'" by (auto simp: inv split: if_splits)
      then have "connected h s" using conn core_invites(1,2)[OF c, of h] by fastforce
      then show "connected h s'" by (simp add: connected_def same)
    next
      fix a' n l is' assume "sig s' a' = Some (True, n, l, is')"
      then show "is' = []" using bg core_invites(3)[OF c] by (auto simp: sig sig_Some split: if_splits)
    qed
    show "map_option fst (sig s' a') = map_option fst (sig s a')" for a' using g by (simp add: sig) (simp add: sig_def)
    show "ref_target False (gs_refs s' h) = ref_target False (gs_refs s h)" for h by (rule ref)
    show "slots_ok g' \<and> rolls_ok (loot_len s) g'" if "gs_heap s' a' = Some g'" for a' g'
      using that party_coreD[OF c] g by (auto simp: heap slots_ok_def rolls_ok_def split: if_splits)
    show "unat (gr_subgroup (gs_refs s' h)) < 8 \<and> unat (gr_originalSub (gs_refs s' h)) < 8" for h
      using core_subs[OF c] by (simp add: sub)
  qed
  then show ?thesis by (simp add: turns_def same L sig)
qed

section \<open>Invitations\<close>

lemma SetGroupInvite_sel [simp]:
  "gs_world (SetGroupInvite h t s) = gs_world s" "gs_heap (SetGroupInvite h t s) = gs_heap s"
  "gs_refs (SetGroupInvite h t s) = (gs_refs s)(h := (gs_refs s h)\<lparr>gr_invite := t\<rparr>)"
  "gs_next (SetGroupInvite h t s) = gs_next s" "gs_set (SetGroupInvite h t s) = gs_set s"
  "gs_bgraid (SetGroupInvite h t s) = gs_bgraid s" "gs_loots (SetGroupInvite h t s) = gs_loots s"
  by (simp_all add: SetGroupInvite_def)

lemma gr_invite_id: "gr_invite r = t \<Longrightarrow> r\<lparr>gr_invite := t\<rparr> = r"
  by (cases r) simp

lemma gr_invite_triv [simp]: "\<exists>t. r = r\<lparr>gr_invite := t\<rparr>"
  by (rule exI[of _ "gr_invite r"]) (simp add: gr_invite_id)

lemma SetGroupInvite_None_id: "gr_invite (gs_refs s h) = None \<Longrightarrow> SetGroupInvite h None s = s"
  by (simp add: SetGroupInvite_def upd_refs_def gr_invite_id)

lemma ok_RemoveInvite:
  assumes c: "core s" and g: "gs_heap s a = Some g" and h: "\<And>c. gr_invite (gs_refs s h) = Some c \<Longrightarrow> c = a"
  shows "ok (turns a (Some (gp_bg g, length (gp_members g), lead g, removeAll h (gp_invitees g))) s) (RemoveInvite a h s)"
proof -
  have inv: "gr_invite (gs_refs s k) = Some c' \<longleftrightarrow> k \<in> invited_at s c'" for k c' by (rule core_invites(1)[OF c])
  have "h \<notin> invited_at s c'" if "c' \<noteq> a" for c' using inv[of h c'] h that by blast
  then show ?thesis
    unfolding RemoveInvite_def with_party_Some[OF g] ok_simps
    using g core_invited[OF c g] core_invites(3)[OF c g] inv
    by (intro turns_invitees[OF c g]) (auto split: if_splits)
qed

lemma for_all_uninvite:
  "(\<And>x. x \<in> set xs \<Longrightarrow> connected x s) \<Longrightarrow>
   for_all uninvite_player xs s = Inr (fold (\<lambda>h. SetGroupInvite h None) xs s)"
  by (induction xs arbitrary: s) (auto simp: uninvite_player_def connected_def)

lemma fold_uninvite:
  "gs_world (fold (\<lambda>h. SetGroupInvite h None) xs s) = gs_world s"
  "gs_heap (fold (\<lambda>h. SetGroupInvite h None) xs s) = gs_heap s"
  "gs_next (fold (\<lambda>h. SetGroupInvite h None) xs s) = gs_next s"
  "gs_set (fold (\<lambda>h. SetGroupInvite h None) xs s) = gs_set s"
  "gs_bgraid (fold (\<lambda>h. SetGroupInvite h None) xs s) = gs_bgraid s"
  "gs_loots (fold (\<lambda>h. SetGroupInvite h None) xs s) = gs_loots s"
  "gs_refs (fold (\<lambda>h. SetGroupInvite h None) xs s) k =
     (if k \<in> set xs then (gs_refs s k)\<lparr>gr_invite := None\<rparr> else gs_refs s k)"
  by (induction xs arbitrary: s) auto

lemma ok_RemoveAllInvites:
  assumes c: "core s" and g: "gs_heap s a = Some g"
  shows "ok (turns a (Some (gp_bg g, length (gp_members g), lead g, [])) s) (RemoveAllInvites a s)"
proof -
  have inv: "gr_invite (gs_refs s k) = Some c' \<longleftrightarrow> k \<in> invited_at s c'" for k c' by (rule core_invites(1)[OF c])
  have mine: "gr_invite (gs_refs s k) = Some a" if "k \<in> set (gp_invitees g)" for k using core_invited[OF c g that] by blast
  have all: "for_all uninvite_player (gp_invitees g) s = Inr (fold (\<lambda>h. SetGroupInvite h None) (gp_invitees g) s)"
    using core_invited(2)[OF c g] by (rule for_all_uninvite)
  have other: "k \<notin> invited_at s c'" if "k \<in> set (gp_invitees g)" "c' \<noteq> a" for k c'
    using mine[OF that(1)] inv[of k c'] that(2) by simp
  show ?thesis
    unfolding RemoveAllInvites_def with_party_Some[OF g] all and_then_simps ok_simps
    using g inv mine other
    by (intro turns_invitees[OF c g]) (auto simp: fold_uninvite split: if_splits)
qed

lemma ok_own_group:
  assumes "core s"
  shows "ok (\<lambda>r. \<forall>a. r = Some a \<longrightarrow> (\<exists>g. gs_heap s a = Some g)) (own_group h s)"
  using core_group[OF assms, of h] core_original[OF assms, of h]
  by (cases "gr_group (gs_refs s h)") (auto simp: own_group_def split: if_splits)

lemma turns_sig: "turns a x s s' \<Longrightarrow> sig s a = x \<Longrightarrow> keeps s s'"
  using turns_same[of a s s'] by simp

lemma keeps_view:
  assumes k: "keeps s s'" and g: "gs_heap s a = Some g"
  shows "\<exists>g'. gs_heap s' a = Some g' \<and> gp_bg g' = gp_bg g \<and> length (gp_members g') = length (gp_members g)
      \<and> lead g' = lead g \<and> gp_invitees g' = gp_invitees g"
proof -
  have "sig s' a = sig s a" using keeps_frame[OF k] by (simp add: frame_def)
  then show ?thesis using g by (auto simp: sig_def)
qed

lemma keeps_invite: "keeps s s' \<Longrightarrow> core s \<Longrightarrow> gr_invite (gs_refs s' h) = gr_invite (gs_refs s h)"
proof -
  assume k: "keeps s s'" and c: "core s"
  have "invited_at s' = invited_at s" using keeps_frame[OF k] by (simp add: invited_at_def frame_def fun_eq_iff)
  then have "gr_invite (gs_refs s' h) = Some a \<longleftrightarrow> gr_invite (gs_refs s h) = Some a" for a
    using core_invites(1)[OF c] core_invites(1)[OF keeps_core[OF k]] by simp
  then show ?thesis by (metis not_None_eq)
qed

lemma keeps_connected: "keeps s s' \<Longrightarrow> connected h s' = connected h s"
  by (simp add: keeps_def frame_def connected_def)

lemma add_invitee:
  assumes c: "core s" and g: "gs_heap s a = Some g" and bg: "\<not> gp_bg g" and conn: "connected h s"
    and no: "gr_invite (gs_refs s h) = None"
  shows "turns a (Some (False, length (gp_members g), lead g, List.insert h (gp_invitees g))) s
           (SetGroupInvite h (Some a) (put_party a (g\<lparr>gp_invitees := List.insert h (gp_invitees g)\<rparr>) s))"
proof -
  have inv: "gr_invite (gs_refs s k) = Some c' \<longleftrightarrow> k \<in> invited_at s c'" for k c' by (rule core_invites(1)[OF c])
  have out: "h \<notin> invited_at s c'" for c' using no by (simp add: core_invites(1)[OF c, symmetric])
  have "turns a (Some (gp_bg g, length (gp_members g), lead g, List.insert h (gp_invitees g))) s
           (SetGroupInvite h (Some a) (put_party a (g\<lparr>gp_invitees := List.insert h (gp_invitees g)\<rparr>) s))"
    using g bg inv out conn core_invited(2)[OF c g] by (intro turns_invitees[OF c g]) (auto split: if_splits)
  then show ?thesis using bg by simp
qed

text \<open>An invitation that is not refused is to a player without one, and adds it.\<close>

lemma ok_AddInvite:
  assumes c: "core s" and g: "gs_heap s a = Some g" and bg: "\<not> gp_bg g" and conn: "connected h s"
  shows "ok (\<lambda>(b, s'). if b then turns a (Some (False, length (gp_members g), lead g, List.insert h (gp_invitees g))) s s'
                       else s' = s) (AddInvite a h l s)" (is "ok ?P _")
proof (cases "gr_invite (gs_refs s h) = None")
  case False
  then show ?thesis by (simp add: AddInvite_def)
next
  case True
  have not: "h \<notin> set (gp_invitees g)" using True core_invited(1)[OF c g] by auto
  have rem: "ok (keeps s) (RemoveInvite a h s)"
    by (rule ok_mono[OF ok_RemoveInvite[OF c g]]) (use True not g in \<open>auto simp: sig_def intro: turns_sig\<close>)
  have "ok ?P (and_then (RemoveInvite a h s) (\<lambda>s. with_party a s (\<lambda>g.
      let s = SetGroupInvite h (Some a) (put_party a (g\<lparr>gp_invitees := List.insert h (gp_invitees g)\<rparr>) s)
      in Inr (True, if l then s else glog [GHook ''OnGroupInviteMember'' a] s))))"
  proof (rule ok_bind[OF rem])
    fix s1 assume k: "keeps s s1"
    obtain g1 where g1: "gs_heap s1 a = Some g1" "\<not> gp_bg g1" "length (gp_members g1) = length (gp_members g)"
      "lead g1 = lead g" "gp_invitees g1 = gp_invitees g" using keeps_view[OF k g] bg by auto
    have conn1: "connected h s1" and no1: "gr_invite (gs_refs s1 h) = None"
      using conn True by (simp_all add: keeps_connected[OF k] keeps_invite[OF k c])
    show "ok ?P (with_party a s1 (\<lambda>g.
        let s = SetGroupInvite h (Some a) (put_party a (g\<lparr>gp_invitees := List.insert h (gp_invitees g)\<rparr>) s1)
        in Inr (True, if l then s else glog [GHook ''OnGroupInviteMember'' a] s)))"
      using keeps_turns[OF k add_invitee[OF keeps_core[OF k] g1(1,2) conn1 no1]] g1 by (simp add: Let_def)
  qed
  then have "ok ?P (if own \<noteq> None then Inr (False, s) else and_then (RemoveInvite a h s) (\<lambda>s. with_party a s (\<lambda>g.
      let s = SetGroupInvite h (Some a) (put_party a (g\<lparr>gp_invitees := List.insert h (gp_invitees g)\<rparr>) s)
      in Inr (True, if l then s else glog [GHook ''OnGroupInviteMember'' a] s))))" for own
    by (cases own) simp_all
  then show ?thesis
    unfolding AddInvite_def using True by (simp only: refl if_False not_True_eq_False) (rule ok_bind[OF ok_own_group[OF c]])
qed

text \<open>Other fields of a group change without touching references.\<close>

lemma turns_put:
  assumes c: "core s" and g: "gs_heap s a = Some g"
    and same: "gp_refs g' = gp_refs g" "gp_invitees g' = gp_invitees g" "gp_bg g' = gp_bg g"
    and slots: "slots_ok g'" and rolls: "rolls_ok (loot_len s) g'"
  shows "turns a (Some (gp_bg g, length (gp_members g'), lead g', gp_invitees g)) s (put_party a g' s)"
proof -
  have "core (put_party a g' s)" (is "core ?s")
  proof (rule core_change[OF c])
    have at: "refs_at ?s = refs_at s" using g same by (auto simp: view_put_party refs_at_def fun_eq_iff)
    show "links_ok ?s" by (rule links_ok_view[OF c _ at]) simp_all
    have "invited_at ?s = invited_at s" using g same by (auto simp: invited_at_def view_put_party sig_def fun_eq_iff)
    moreover have "invites_ok s" using c by (simp add: core_def)
    ultimately show "invites_ok ?s"
      using core_invites(3)[OF c g] same by (auto simp: invites_ok_def view_put_party)
    show "map_option fst (sig ?s b) = map_option fst (sig s b)" for b using g same by (simp add: view_put_party sig_def)
    show "slots_ok x \<and> rolls_ok (loot_len s) x" if "gs_heap ?s b = Some x" for b x
      using that party_coreD[OF c] slots rolls by (auto split: if_splits)
  qed (use core_subs[OF c] in \<open>simp_all add: view_put_party\<close>)
  then show ?thesis using same by (simp add: turns_def view_put_party)
qed

lemma turns_put_leader:
  assumes t: "turns a (Some (bg, n, l, is)) s s1" and g: "gs_heap s1 a = Some g"
  shows "turns a (Some (bg, n, (l', snd l), is)) s (put_party a (g\<lparr>gp_leaderGuid := l', gp_leaderName := nm\<rparr>) s1)"
proof -
  have c: "core s1" by (rule turns_core[OF t])
  have sig: "sig s1 a = Some (bg, n, l, is)" using t by (simp add: turns_def)
  then have g': "gp_bg g = bg" "length (gp_members g) = n" "gp_invitees g = is" "gp_raid g = snd l" using g by (auto simp: sig_def)
  show ?thesis
    using turns_turns[OF t turns_put[OF c g, of "g\<lparr>gp_leaderGuid := l', gp_leaderName := nm\<rparr>"]] party_coreD[OF c g] g'
    by (simp add: slots_ok_def rolls_ok_def)
qed

lemma ok_AddLeaderInvite:
  assumes c: "core s" and g: "gs_heap s a = Some g" and bg: "\<not> gp_bg g" and conn: "connected (pl_guid p) s"
  shows "ok (\<lambda>(b, s'). if b then turns a (Some (False, length (gp_members g), (pl_guid p, gp_raid g), List.insert (pl_guid p) (gp_invitees g))) s s'
                       else s' = s) (AddLeaderInvite a p s)"
  unfolding AddLeaderInvite_def
proof (rule ok_bind2[OF ok_AddInvite[OF c g bg conn]])
  fix b s1
  assume t: "if b then turns a (Some (False, length (gp_members g), lead g, List.insert (pl_guid p) (gp_invitees g))) s s1
             else s1 = s"
  show "ok (\<lambda>(b, s'). if b then turns a (Some (False, length (gp_members g), (pl_guid p, gp_raid g),
          List.insert (pl_guid p) (gp_invitees g))) s s' else s' = s)
      (if \<not> b then Inr (False, s1) else with_party a s1 (\<lambda>g.
         Inr (True, put_party a (g\<lparr>gp_leaderGuid := pl_guid p, gp_leaderName := c_str (pl_name p)\<rparr>) s1)))"
  proof (cases b)
    case True
    with t have t': "turns a (Some (False, length (gp_members g), lead g, List.insert (pl_guid p) (gp_invitees g))) s s1"
      by simp
    obtain g1 where "gs_heap s1 a = Some g1" using turns_Some[OF t'] by blast
    then show ?thesis using turns_put_leader[OF t'] True by simp
  qed (use t in simp)
qed

lemma ok_first_invited:
  "(\<And>x. x \<in> set xs \<Longrightarrow> connected x s) \<Longrightarrow> ok (\<lambda>r. \<forall>x. r = Some x \<longrightarrow> x \<in> set xs) (first_invited P xs s)"
proof (induction xs)
  case (Cons x xs)
  then have ih: "ok (\<lambda>r. \<forall>y. r = Some y \<longrightarrow> y \<in> set xs) (first_invited P xs s)" by simp
  obtain p where "FindPlayer (gs_world s) x True = Some p" using Cons.prems[of x] by (auto simp: connected_def)
  then show ?case using ok_mono[OF ih] by simp
qed simp

lemma ok_GetInvited:
  assumes c: "core s" and g: "gs_heap s a = Some g"
  shows "ok (\<lambda>r. \<forall>x. r = Some x \<longrightarrow> x \<in> set (gp_invitees g)) (GetInvited a h s)"
    and "ok (\<lambda>r. \<forall>x. r = Some x \<longrightarrow> x \<in> set (gp_invitees g)) (GetInvited_name a n s)"
  using core_invited(2)[OF c g] by (auto simp: GetInvited_def GetInvited_name_def g intro: ok_first_invited)

section \<open>Deleting a group\<close>

lemma fold_unlink_refs:
  "gs_refs (fold (\<lambda>(h, b). upd_refs h (set_target b None)) xs s) k =
     fold (\<lambda>(h, b) r. if h = k then set_target b None r else r) xs (gs_refs s k)"
  by (induction xs arbitrary: s) auto

lemma fold_unlink_sel:
  "gs_world (fold (\<lambda>(h, b). upd_refs h (set_target b None)) xs s) = gs_world s"
  "gs_heap (fold (\<lambda>(h, b). upd_refs h (set_target b None)) xs s) = gs_heap s"
  "gs_next (fold (\<lambda>(h, b). upd_refs h (set_target b None)) xs s) = gs_next s"
  "gs_set (fold (\<lambda>(h, b). upd_refs h (set_target b None)) xs s) = gs_set s"
  "gs_bgraid (fold (\<lambda>(h, b). upd_refs h (set_target b None)) xs s) = gs_bgraid s"
  "gs_loots (fold (\<lambda>(h, b). upd_refs h (set_target b None)) xs s) = gs_loots s"
  by (induction xs arbitrary: s) auto

lemma fold_unlink_target:
  "ref_target b (fold (\<lambda>(h, b) r. if h = k then set_target b None r else r) xs r) =
     (if (k, b) \<in> set xs then None else ref_target b r)"
  "gr_invite (fold (\<lambda>(h, b) r. if h = k then set_target b None r else r) xs r) = gr_invite r"
  "gr_subgroup (fold (\<lambda>(h, b) r. if h = k then set_target b None r else r) xs r) = gr_subgroup r"
  "gr_originalSub (fold (\<lambda>(h, b) r. if h = k then set_target b None r else r) xs r) = gr_originalSub r"
  by (induction xs arbitrary: r) (auto split: if_splits)

lemma forget_raid_sel [simp]:
  "gs_world (forget_raid a s) = gs_world s" "gs_heap (forget_raid a s) = gs_heap s" "gs_refs (forget_raid a s) = gs_refs s"
  "gs_next (forget_raid a s) = gs_next s" "gs_set (forget_raid a s) = gs_set s" "gs_loots (forget_raid a s) = gs_loots s"
  "gs_bgraid (forget_raid a s) k = (if gs_bgraid s k = Some a then None else gs_bgraid s k)"
  by (simp_all add: forget_raid_def)

text \<open>Deleting a group that nobody is invited to cuts every pointer to it.\<close>

lemma core_delete:
  assumes c: "core s" and g: "gs_heap s a = Some g" and inv: "gp_invitees g = []"
  shows "core (delete_party a s)"
    and "gs_world (delete_party a s) = gs_world s" "gs_set (delete_party a s) = gs_set s"
    and "sig (delete_party a s) = (sig s)(a := None)"
    and "\<And>k c. gs_bgraid (delete_party a s) k = Some c \<Longrightarrow> gs_bgraid s k = Some c"
proof -
  let ?s = "delete_party a s"
  have heap: "gs_heap ?s = (gs_heap s)(a := None)" and same: "gs_world ?s = gs_world s" "gs_set ?s = gs_set s"
    "gs_next ?s = gs_next s" "gs_loots ?s = gs_loots s"
    using g by (auto simp: delete_party_def Let_def fold_unlink_sel)
  have bgraid: "gs_bgraid ?s k = (if gp_bg g \<and> gs_bgraid s k = Some a then None else gs_bgraid s k)" for k
    using g by (simp add: delete_party_def Let_def fold_unlink_sel)
  then show "gs_bgraid ?s k = Some c \<Longrightarrow> gs_bgraid s k = Some c" for k c by (auto split: if_splits)
  have refs: "ref_target b (gs_refs ?s k) = (if (k, b) \<in> set (gp_refs g) then None else ref_target b (gs_refs s k))"
    "gr_invite (gs_refs ?s k) = gr_invite (gs_refs s k)"
    "gr_subgroup (gs_refs ?s k) = gr_subgroup (gs_refs s k)" "gr_originalSub (gs_refs ?s k) = gr_originalSub (gs_refs s k)" for k b
    using g by (simp_all add: delete_party_def Let_def fold_unlink_refs fold_unlink_target)
  show "gs_world ?s = gs_world s" "gs_set ?s = gs_set s" by (rule same)+
  show sig: "sig ?s = (sig s)(a := None)" by (auto simp: sig_def heap fun_eq_iff)
  have at: "refs_at ?s = (refs_at s)(a := {})" by (auto simp: refs_at_def heap fun_eq_iff)
  have "links_ok ?s"
    unfolding links_ok_def
  proof (intro conjI allI impI)
    show "connected h ?s" if "ref_target b (gs_refs ?s h) \<noteq> None" for h b
      using that core_linked[OF c, of b h] by (auto simp: refs same connected_def split: if_splits)
  next
    fix h b a'
    have l: "ref_target b (gs_refs s h) = Some x \<longleftrightarrow> (h, b) \<in> refs_at s x" for x by (rule links_okD[OF c])
    show "ref_target b (gs_refs ?s h) = Some a' \<longleftrightarrow> (h, b) \<in> refs_at ?s a'"
      using l[of a] l[of a'] g by (auto simp: refs at refs_at_def)
  qed
  moreover have "invites_ok ?s"
  proof -
    have "invited_at ?s = invited_at s" using g inv by (auto simp: invited_at_def sig fun_eq_iff sig_def)
    moreover have "invites_ok s" using c by (simp add: core_def)
    ultimately show ?thesis by (auto simp: invites_ok_def refs sig connected_def same)
  qed
  moreover have "raids_ok ?s"
  proof -
    have r: "raids_ok s" using c by (simp add: core_def)
    have "gs_bgraid s k = Some a \<Longrightarrow> gp_bg g" for k using r g by (fastforce simp: raids_ok_def sig_def)
    moreover have "plain ?s x" if t: "ref_target False (gs_refs ?s h) = Some x" for h x
    proof -
      have t': "(h, False) \<notin> set (gp_refs g)" "ref_target False (gs_refs s h) = Some x" using t by (auto simp: refs split: if_splits)
      then have "x \<noteq> a" using links_okD[OF c, of False h a] g by (auto simp: refs_at_def)
      then show ?thesis using core_plain[OF c t'(2)] by (simp add: plain_def sig)
    qed
    ultimately show ?thesis using r by (auto simp: raids_ok_def bgraid sig split: if_splits)
  qed
  moreover have "loot_len ?s = loot_len s" by (simp add: loot_len_def same fun_eq_iff)
  ultimately show "core ?s"
    using c by (auto simp: core_def heap same refs split: if_splits)
qed

section \<open>Members\<close>

text \<open>The counters change, and nothing else of this, when the subgroup is one of the eight.\<close>

definition recounted :: "party \<Rightarrow> party \<Rightarrow> bool" where
  "recounted g g' \<longleftrightarrow> slots_ok g' \<and> gp_refs g' = gp_refs g \<and> gp_invitees g' = gp_invitees g \<and> gp_bg g' = gp_bg g
     \<and> gp_leaderGuid g' = gp_leaderGuid g \<and> gp_raid g' = gp_raid g \<and> gp_members g' = gp_members g \<and> gp_rolls g' = gp_rolls g"

lemma recounted_trans: "recounted g g' \<Longrightarrow> recounted g' g'' \<Longrightarrow> recounted g g''"
  by (simp add: recounted_def)

lemma ok_count_sub:
  assumes "slots_ok g" and "unat k < 8"
  shows "ok (recounted g) (count_sub d k g)"
proof (cases "gp_subGroupsCounts g")
  case None
  then show ?thesis using assms by (simp add: count_sub_def recounted_def)
next
  case (Some c)
  with assms have "length c = 8" "gp_raid g" by (auto simp: slots_ok_def)
  with assms Some show ?thesis by (simp add: count_sub_def slots_ok_def recounted_def)
qed

lemma ok_init_counts:
  "slots_ok g \<Longrightarrow> (\<And>m. m \<in> set ms \<Longrightarrow> unat (ms_group m) < 8) \<Longrightarrow> ok (recounted g) (init_counts ms g)"
proof (induction ms arbitrary: g)
  case (Cons m ms)
  have "ok (recounted g) (SubGroupCounterIncrease (ms_group m) g)" using Cons.prems by (intro ok_count_sub) auto
  then show ?case
    unfolding init_counts.simps
  proof (rule ok_bind)
    fix g' assume g': "recounted g g'"
    show "ok (recounted g) (init_counts ms g')"
      using Cons.prems g' recounted_trans[OF g'] by (intro ok_mono[OF Cons.IH[of g']]) (auto simp: recounted_def)
  qed
qed (simp add: recounted_def)

lemma ok_initRaidSubGroupsCounter:
  assumes "\<forall>m \<in> set (gp_members g). unat (ms_group m) < 8 \<and> ms_guid m \<noteq> 0" and "gp_raid g"
  shows "ok (recounted g) (initRaidSubGroupsCounter g)"
  unfolding initRaidSubGroupsCounter_def
  by (rule ok_mono[OF ok_init_counts]) (use assms in \<open>auto simp: slots_ok_def recounted_def\<close>)

lemma turns_view:
  assumes "turns a (Some (bg, n, l, is)) s s'"
  shows "\<exists>g. gs_heap s' a = Some g \<and> gp_bg g = bg \<and> length (gp_members g) = n \<and> lead g = l \<and> gp_invitees g = is"
  using turns_Some[OF assms] by blast

lemma turns_again:
  assumes t: "turns a (Some (bg, n, l, is)) s s'" and g: "gs_heap s' a = Some g"
    and same: "gp_refs g' = gp_refs g" "gp_invitees g' = gp_invitees g" "gp_bg g' = gp_bg g" "lead g' = lead g"
      "gp_members g' = gp_members g" "gp_subGroupsCounts g' = gp_subGroupsCounts g" "gp_rolls g' = gp_rolls g"
  shows "turns a (Some (bg, n, l, is)) s (put_party a g' s')"
proof -
  have c: "core s'" by (rule turns_core[OF t])
  obtain "gp_bg g = bg" "length (gp_members g) = n" "lead g = l" "gp_invitees g = is" using turns_view[OF t] g by auto
  moreover have "slots_ok g'" "rolls_ok (loot_len s') g'"
    using party_coreD[OF c g] same slots_ok_cong[of g' g] rolls_ok_cong[of g' g] by auto
  then have "turns a (Some (gp_bg g, length (gp_members g'), lead g', gp_invitees g)) s' (put_party a g' s')"
    by (rule turns_put[OF c g same(1-3)])
  ultimately show ?thesis using turns_turns[OF t] same by simp
qed

lemma ok_place_member [party_ok]:
  assumes c: "core s" and a: "gs_heap s a \<noteq> None" and sub: "unat sub < 8" and no: "gr_invite (gs_refs s h) = None"
    and bg: "\<not> bg \<Longrightarrow> plain s a" and own: "\<And>b. bg \<Longrightarrow> gr_group (gs_refs s h) = Some b \<Longrightarrow> plain s b"
  shows "ok (keeps s) (place_member h a bg sub s)"
proof -
  have linked: "connected h s \<Longrightarrow> ok (keeps s) (if gr_group (gs_refs s h) \<noteq> None \<and> bg then SetBattlegroundRaid h a sub s
      else if gr_group (gs_refs s h) \<noteq> None then SetOriginalGroup h (Some (a, sub)) s else SetGroup h (Some (a, sub)) s)"
    using c a sub bg own by (auto intro!: party_ok)
  show ?thesis
    unfolding place_member_def SetGroupInvite_None_id[OF no] Let_def
  proof (cases "FindPlayer (gs_world s) h True")
    case (Some p)
    show "ok (keeps s) (case FindPlayer (gs_world s) h True of None \<Rightarrow> Inr s
      | Some player \<Rightarrow> and_then (if gr_group (gs_refs s h) \<noteq> None \<and> bg then SetBattlegroundRaid h a sub s
          else if gr_group (gs_refs s h) \<noteq> None then SetOriginalGroup h (Some (a, sub)) s else SetGroup h (Some (a, sub)) s)
        (\<lambda>s. Inr (if pl_in_world player then glog [CheckInstanceValid h] s else s)))"
      unfolding Some option.case by (rule ok_bind[OF linked]) (simp_all add: connected_def Some)
  qed (simp add: keeps_refl[OF c])
qed

lemma ok_member_added:
  assumes t: "turns a (Some (bg, n, l, is)) s s'"
  shows "ok (turns a (Some (bg, n, l, is)) s) (member_added h a assist sub s')"
proof -
  obtain g where g: "gs_heap s' a = Some g" using turns_view[OF t] by blast
  show ?thesis using g turns_again[OF t g] by (simp add: member_added_def Let_def)
qed

lemma ok_addMember_to:
  assumes c: "core s" and g: "gs_heap s a = Some g" and sub: "unat sub < 8" and no: "gr_invite (gs_refs s h) = None"
    and own: "\<And>b. gp_bg g \<Longrightarrow> gr_group (gs_refs s h) = Some b \<Longrightarrow> plain s b"
  shows "ok (\<lambda>(b, s'). b = (\<not> IsFull g \<and> h \<noteq> 0)
      \<and> (if b then turns a (Some (gp_bg g, Suc (length (gp_members g)), lead g, gp_invitees g)) s s' else s' = s))
    (addMember_to a h name assist sub s)" (is "ok ?P _")
proof (cases "IsFull g \<or> h = 0")
  case True
  then show ?thesis by (auto simp: addMember_to_def g)
next
  case False
  let ?g = "g\<lparr>gp_members := gp_members g @ [\<lparr>ms_guid = h, ms_name = name, ms_group = sub, ms_assistant = assist\<rparr>]\<rparr>"
  let ?x = "Some (gp_bg g, Suc (length (gp_members g)), lead g, gp_invitees g)"
  have slots: "slots_ok ?g" using party_coreD(2)[OF c g] sub False by (auto simp: slots_ok_def)
  have "ok (\<lambda>s'. turns a ?x s s') (and_then (SubGroupCounterIncrease sub ?g) (\<lambda>g.
      and_then (place_member h a (gp_bg g) sub (put_party a g s)) (member_added h a assist sub)))"
  proof (rule ok_bind[OF ok_count_sub[OF slots sub]])
    fix g1 assume g1: "recounted ?g g1"
    have t: "turns a ?x s (put_party a g1 s)"
      using turns_put[OF c g, of g1] party_coreD(3)[OF c g] g1 rolls_ok_cong[of g1 g] by (simp add: recounted_def)
    have "ok (keeps (put_party a g1 s)) (place_member h a (gp_bg g1) sub (put_party a g1 s))"
    proof (rule ok_place_member[OF turns_core[OF t]])
      show "\<not> gp_bg g1 \<Longrightarrow> plain (put_party a g1 s) a" by (simp add: plain_Some)
      show "plain (put_party a g1 s) b" if "gp_bg g1" "gr_group (gs_refs (put_party a g1 s) h) = Some b" for b
      proof -
        have bg: "gp_bg g" using that g1 by (simp add: recounted_def)
        have "plain s b" using own[OF bg] that by simp
        moreover have "b \<noteq> a" using calculation g bg by (auto simp: plain_Some)
        ultimately show ?thesis by (simp add: plain_Some)
      qed
    qed (use sub no in simp_all)
    then show "ok (turns a ?x s) (and_then (place_member h a (gp_bg g1) sub (put_party a g1 s)) (member_added h a assist sub))"
      by (rule ok_bind) (rule ok_member_added, rule turns_keeps[OF t])
  qed
  then have "ok ?P (and_then (and_then (SubGroupCounterIncrease sub ?g) (\<lambda>g.
      and_then (place_member h a (gp_bg g) sub (put_party a g s)) (member_added h a assist sub))) (\<lambda>s. Inr (True, s)))"
    by (rule ok_bind) (use False in simp)
  moreover have "addMember_to a h name assist sub s = and_then (SubGroupCounterIncrease sub ?g) (\<lambda>g.
      and_then (place_member h a (gp_bg g) sub (put_party a g s)) (\<lambda>s. and_then (member_added h a assist sub s) (\<lambda>s. Inr (True, s))))"
    using False by (simp add: addMember_to_def g)
  ultimately show ?thesis by (simp only: and_then_assoc)
qed

lemma view_difficulty [simp]:
  "sig (s\<lparr>gs_difficulty := d\<rparr>) = sig s" "refs_at (s\<lparr>gs_difficulty := d\<rparr>) = refs_at s"
  "loot_len (s\<lparr>gs_difficulty := d\<rparr>) = loot_len s" "connected h (s\<lparr>gs_difficulty := d\<rparr>) = connected h s"
  "frame (s\<lparr>gs_difficulty := d\<rparr>) = frame s"
  by (auto simp: sig_def refs_at_def loot_len_def connected_def frame_def fun_eq_iff)

lemma core_difficulty [simp]: "core (s\<lparr>gs_difficulty := d\<rparr>) = core s"
  by (simp add: core_def links_ok_def invites_ok_def invited_at_def raids_ok_def plain_def)

lemma turns_difficulty [simp]: "turns a x s (s'\<lparr>gs_difficulty := d\<rparr>) = turns a x s s'" "keeps s (s'\<lparr>gs_difficulty := d\<rparr>) = keeps s s'"
  by (simp_all add: turns_def keeps_def)

lemma free_subgroup_less: "free_subgroup g = Some k \<Longrightarrow> unat k < 8"
  by (auto simp: free_subgroup_def find_Some_iff unat_of_nat split: option.splits)

lemma ok_addMember:
  assumes c: "core s" and g: "gs_heap s a = Some g" and no: "gr_invite (gs_refs s h) = None"
    and own: "\<And>b. gp_bg g \<Longrightarrow> gr_group (gs_refs s h) = Some b \<Longrightarrow> plain s b"
  shows "ok (\<lambda>(b, s'). (\<not> gp_raid g \<and> \<not> IsFull g \<and> h \<noteq> 0 \<longrightarrow> b)
      \<and> (if b then turns a (Some (gp_bg g, Suc (length (gp_members g)), lead g, gp_invitees g)) s s' else s' = s))
    (addMember a h name s)"
proof (cases "free_subgroup g")
  case None
  then have "gp_raid g" using party_coreD(2)[OF c g] by (auto simp: free_subgroup_def slots_ok_def split: option.splits)
  with None show ?thesis by (simp add: addMember_def g)
next
  case (Some k)
  show ?thesis
    unfolding addMember_def with_party_Some[OF g] Some option.case
    by (rule ok_mono[OF ok_addMember_to[OF c g free_subgroup_less[OF Some] no own]]) (auto split: if_splits)
qed

lemma ok_member_joined [party_ok]:
  assumes c: "core s" and a: "gs_heap s a \<noteq> None"
  shows "ok (keeps s) (member_joined h a s)"
  using a keeps_refl[OF c] by (auto simp: member_joined_def Let_def split: option.split)

lemma ok_Group_AddMember:
  assumes c: "core s" and g: "gs_heap s a = Some g" and no: "gr_invite (gs_refs s h) = None"
    and own: "\<And>b. gp_bg g \<Longrightarrow> gr_group (gs_refs s h) = Some b \<Longrightarrow> plain s b"
  shows "ok (\<lambda>(b, s'). (\<not> gp_raid g \<and> \<not> IsFull g \<and> h \<noteq> 0 \<longrightarrow> b)
      \<and> (if b then turns a (Some (gp_bg g, Suc (length (gp_members g)), lead g, gp_invitees g)) s s' else s' = s))
    (Group_AddMember a h name s)" (is "ok ?P _")
  unfolding Group_AddMember_def
proof (rule ok_bind2[OF ok_addMember[OF c g no own]])
  fix b s1
  let ?x = "Some (gp_bg g, Suc (length (gp_members g)), lead g, gp_invitees g)"
  assume b: "(\<not> gp_raid g \<and> \<not> IsFull g \<and> h \<noteq> 0 \<longrightarrow> b) \<and> (if b then turns a ?x s s1 else s1 = s)"
  show "ok ?P (if \<not> b then Inr (False, s1)
      else and_then (SendUpdate a s1) (\<lambda>s. and_then (member_joined h a s) (\<lambda>s. Inr (True, s))))"
  proof (cases b)
    case True
    with b have t: "turns a ?x s s1" by simp
    have c1: "core s1" and a1: "gs_heap s1 a \<noteq> None" using turns_core[OF t] turns_view[OF t] by auto
    have "ok (keeps s1) (and_then (SendUpdate a s1) (member_joined h a))"
      using c1 a1 by (intro ok_keeps_bind party_ok) (auto dest!: keepsD)
    then have "ok ?P (and_then (and_then (SendUpdate a s1) (member_joined h a)) (\<lambda>s. Inr (True, s)))"
      by (rule ok_bind) (simp add: turns_keeps[OF t])
    then show ?thesis using True by (simp add: and_then_assoc)
  qed (use b in simp)
qed

lemma ok_start_party:
  assumes slots: "slots_ok g" and raid: "gp_raid g \<longrightarrow> gp_bg g"
  shows "ok (\<lambda>g'. slots_ok g' \<and> gp_refs g' = gp_refs g \<and> gp_invitees g' = gp_invitees g \<and> gp_bg g' = gp_bg g
      \<and> lead g' = (h, gp_bg g) \<and> gp_members g' = gp_members g \<and> gp_rolls g' = gp_rolls g) (start_party h name g)"
proof (cases "gp_bg g")
  case True
  let ?g = "g\<lparr>gp_leaderGuid := h, gp_leaderName := name, gp_raid := gp_bg g\<rparr>"
  have "ok (recounted ?g) (initRaidSubGroupsCounter ?g)"
    using slots True by (intro ok_initRaidSubGroupsCounter) (auto simp: slots_ok_def)
  then show ?thesis
    unfolding start_party_def Let_def using True by (auto intro!: ok_bind simp: recounted_def slots_ok_def)
next
  case False
  with raid slots have "gp_subGroupsCounts g = None" "\<not> gp_raid g" by (auto simp: slots_ok_def)
  with slots False show ?thesis by (simp add: start_party_def Let_def slots_ok_def)
qed

lemma ok_Group_Create:
  assumes c: "core s" and g: "gs_heap s a = Some g" and no: "gr_invite (gs_refs s h) = None" and raid: "gp_raid g \<longrightarrow> gp_bg g"
    and own: "\<And>b. gp_bg g \<Longrightarrow> gr_group (gs_refs s h) = Some b \<Longrightarrow> plain s b"
  shows "ok (\<lambda>(b, s'). \<exists>n. turns a (Some (gp_bg g, n, (h, gp_bg g), gp_invitees g)) s s'
      \<and> (\<not> gp_bg g \<and> gp_members g = [] \<and> connected h s \<and> h \<noteq> 0 \<longrightarrow> n \<noteq> 0)) (Group_Create a h name s)" (is "ok ?P _")
  unfolding Group_Create_def with_party_Some[OF g]
proof (rule ok_bind[OF ok_start_party[OF party_coreD(2)[OF c g] raid]])
  fix g1
  assume g1: "slots_ok g1 \<and> gp_refs g1 = gp_refs g \<and> gp_invitees g1 = gp_invitees g \<and> gp_bg g1 = gp_bg g
      \<and> lead g1 = (h, gp_bg g) \<and> gp_members g1 = gp_members g \<and> gp_rolls g1 = gp_rolls g"
  have t: "turns a (Some (gp_bg g, length (gp_members g), (h, gp_bg g), gp_invitees g)) s (put_party a g2 s)"
    if "g2 = g1 \<or> g2 = g1\<lparr>gp_difficulty := d\<rparr>" for g2 d
    using that turns_put[OF c g, of g2] g1 party_coreD(3)[OF c g] by (auto simp: slots_ok_def rolls_ok_def)
  show "ok ?P (if FindPlayer (gs_world s) h True = None then Inr (False, put_party a g1 s)
       else
         let g = (if \<not> gp_bg g1 then g1\<lparr>gp_difficulty := gs_difficulty s h\<rparr> else g1);
             s = put_party a g s;
             s = (if \<not> gp_bg g then glog (create_rows a h g) s else s)
         in and_then (Group_AddMember a h name s) (\<lambda>(ok, s).
              if \<not> ok then Inr (False, s) else Inr (True, glog [GHook ''OnGroupCreate'' a] s)))"
  proof (cases "FindPlayer (gs_world s) h True")
    case None
    then show ?thesis using t[of g1] by (auto simp: connected_def)
  next
    case (Some p)
    define g2 where "g2 = (if \<not> gp_bg g1 then g1\<lparr>gp_difficulty := gs_difficulty s h\<rparr> else g1)"
    define s1 where "s1 = (if \<not> gp_bg g2 then glog (create_rows a h g2) (put_party a g2 s) else put_party a g2 s)"
    have t1: "turns a (Some (gp_bg g, length (gp_members g), (h, gp_bg g), gp_invitees g)) s s1"
      using t[of g2 "gs_difficulty s h"] by (auto simp: s1_def g2_def)
    have h1: "gs_heap s1 a = Some g2" and refs: "gs_refs s1 = gs_refs s" by (simp_all add: s1_def)
    have v: "gp_bg g2 = gp_bg g" "gp_members g2 = gp_members g" "lead g2 = (h, gp_bg g)" "gp_invitees g2 = gp_invitees g"
      using g1 by (auto simp: g2_def)
    have no1: "gr_invite (gs_refs s1 h) = None" using no by (simp add: refs)
    have own1: "plain s1 b" if "gp_bg g2" "gr_group (gs_refs s1 h) = Some b" for b
    proof -
      have bg: "gp_bg g" "gr_group (gs_refs s h) = Some b" using that v by (simp_all add: refs)
      have "plain s b" using own[OF bg] .
      then have "b \<noteq> a" using g bg by (auto simp: plain_Some)
      then show ?thesis using \<open>plain s b\<close> by (auto simp: plain_Some s1_def)
    qed
    have "ok ?P (and_then (Group_AddMember a h name s1) (\<lambda>(ok, s).
        if \<not> ok then Inr (False, s) else Inr (True, glog [GHook ''OnGroupCreate'' a] s)))"
    proof (rule ok_bind2[OF ok_Group_AddMember[OF turns_core[OF t1] h1 no1 own1]])
      fix b s2
      assume b: "(\<not> gp_raid g2 \<and> \<not> IsFull g2 \<and> h \<noteq> 0 \<longrightarrow> b)
        \<and> (if b then turns a (Some (gp_bg g2, Suc (length (gp_members g2)), lead g2, gp_invitees g2)) s1 s2 else s2 = s1)"
      have full: "\<not> gp_bg g \<and> gp_members g = [] \<and> h \<noteq> 0 \<Longrightarrow> b" using b v by (auto simp: IsFull_def)
      show "ok ?P (if \<not> b then Inr (False, s2) else Inr (True, glog [GHook ''OnGroupCreate'' a] s2))"
      proof (cases b)
        case True
        then have "turns a (Some (gp_bg g, Suc (length (gp_members g)), (h, gp_bg g), gp_invitees g)) s s2"
          using b v turns_turns[OF t1] by simp
        then show ?thesis using True by (auto intro!: exI[of _ "Suc (length (gp_members g))"])
      next
        case False
        then show ?thesis using b t1 full by (auto intro!: exI[of _ "length (gp_members g)"])
      qed
    qed
    then show ?thesis using Some unfolding g2_def s1_def Let_def by simp
  qed
qed

section \<open>Removing members\<close>

lemma set_on_slot: "m \<in> set (on_slot h f ms) \<Longrightarrow> m \<in> set ms \<or> (\<exists>m0 \<in> set ms. ms_guid m0 = h \<and> m = f m0)"
  by (induction ms) (auto split: if_splits)

lemma length_on_slot [simp]: "length (on_slot h f ms) = length ms"
  by (induction ms) auto

lemma set_erase_slot: "set (erase_slot h ms) \<subseteq> set ms"
  by (induction ms) auto

lemma length_erase_slot: "length ms - 1 \<le> length (erase_slot h ms)"
  by (induction ms) auto

lemma getMemberSlot_in: "getMemberSlot h g = Some m \<Longrightarrow> m \<in> set (gp_members g)"
  by (auto simp: getMemberSlot_def find_Some_iff)

lemma ok_setLeader:
  assumes c: "core s" and g: "gs_heap s a = Some g"
  shows "ok (\<lambda>s'. \<exists>l. turns a (Some (gp_bg g, length (gp_members g), (l, gp_raid g), gp_invitees g)) s s') (setLeader a h s)"
proof (cases "getMemberSlot h g")
  case None
  have "turns a (Some (gp_bg g, length (gp_members g), lead g, gp_invitees g)) s s"
    using turns_same[of a s s] keeps_refl[OF c] g by (simp add: sig_def)
  with None show ?thesis by (auto simp: setLeader_def g)
next
  case (Some m)
  have "turns a (Some (gp_bg g, length (gp_members g), (ms_guid m, gp_raid g), gp_invitees g)) s
      (put_party a (g\<lparr>gp_leaderGuid := ms_guid m, gp_leaderName := ms_name m\<rparr>) s)"
    using turns_put[OF c g, of "g\<lparr>gp_leaderGuid := ms_guid m, gp_leaderName := ms_name m\<rparr>"] party_coreD[OF c g]
    by (simp add: slots_ok_def rolls_ok_def)
  moreover have "put_party a g' (glog as s) = glog as (put_party a g' s)" for g' as
    by (simp add: put_party_def glog_def)
  ultimately show ?thesis using Some by (auto simp: setLeader_def g Let_def simp del: view_glog)
qed

lemma forget_vote_keeps [simp]:
  "ro_loot (forget_vote v r) = ro_loot r" "ro_itemSlot (forget_vote v r) = ro_itemSlot r"
  by (simp_all add: forget_vote_def Let_def)

lemma removeRolls_keeps [simp]:
  "gp_members (removeRolls h g) = gp_members g" "gp_refs (removeRolls h g) = gp_refs g" "gp_bg (removeRolls h g) = gp_bg g"
  "gp_invitees (removeRolls h g) = gp_invitees g" "gp_leaderGuid (removeRolls h g) = gp_leaderGuid g"
  "gp_raid (removeRolls h g) = gp_raid g" "gp_subGroupsCounts (removeRolls h g) = gp_subGroupsCounts g"
  "rolls_ok L g \<Longrightarrow> rolls_ok L (removeRolls h g)"
  by (auto simp: removeRolls_def rolls_ok_def split: option.split)

lemma ok_erase_member:
  assumes slots: "slots_ok g"
  shows "ok (\<lambda>g'. slots_ok g' \<and> gp_refs g' = gp_refs g \<and> gp_invitees g' = gp_invitees g \<and> gp_bg g' = gp_bg g
      \<and> lead g' = lead g \<and> gp_rolls g' = gp_rolls g \<and> length (gp_members g) - 1 \<le> length (gp_members g')) (erase_member h g)"
proof (cases "getMemberSlot h g")
  case None
  then show ?thesis using slots by (simp add: erase_member_def)
next
  case (Some m)
  have "unat (ms_group m) < 8" using slots getMemberSlot_in[OF Some] by (simp add: slots_ok_def)
  then show ?thesis
    unfolding erase_member_def Some option.case
  proof (rule ok_bind[OF ok_count_sub[OF slots]])
    fix g' assume "recounted g g'"
    then show "ok (\<lambda>g'. slots_ok g' \<and> gp_refs g' = gp_refs g \<and> gp_invitees g' = gp_invitees g \<and> gp_bg g' = gp_bg g
      \<and> lead g' = lead g \<and> gp_rolls g' = gp_rolls g \<and> length (gp_members g) - 1 \<le> length (gp_members g'))
      (Inr (g'\<lparr>gp_members := erase_slot h (gp_members g')\<rparr>))"
      using set_erase_slot[of h "gp_members g"] length_erase_slot[of "gp_members g" h]
      by (auto simp: recounted_def slots_ok_def)
  qed
qed

lemma ok_removeMember:
  assumes c: "core s" and g: "gs_heap s a = Some g"
  shows "ok (\<lambda>(b, s'). \<exists>n l. length (gp_members g) - 1 \<le> n
      \<and> turns a (Some (gp_bg g, n, (l, gp_raid g), gp_invitees g)) s s') (removeMember a h s)" (is "ok ?P _")
  unfolding removeMember_def with_party_Some[OF g]
proof (rule ok_bind[where P = "keeps s"])
  show "ok (keeps s) (if FindPlayer (gs_world s) h True \<noteq> None then take_out h a (gp_bg g) s else Inr s)"
    using ok_take_out[OF c] keeps_refl[OF c] by simp
next
  fix s1 assume k: "keeps s s1"
  have c1: "core s1" by (rule keeps_core[OF k])
  obtain g1 where g1: "gs_heap s1 a = Some g1" "gp_bg g1 = gp_bg g" "length (gp_members g1) = length (gp_members g)"
    "lead g1 = lead g" "gp_invitees g1 = gp_invitees g" using keeps_view[OF k g] by blast
  have sl: "slots_ok (removeRolls h g1)" using party_coreD(2)[OF c1 g1(1)] slots_ok_cong[of "removeRolls h g1" g1] by simp
  show "ok ?P (with_party a s1 (\<lambda>g. and_then (erase_member h (removeRolls h g)) (\<lambda>g.
       let s = put_party a g s1;
           s = (if \<not> gp_bg g then party_sql (DeleteGroupMember (GUID_LOPART h)) s else s)
       in if gp_leaderGuid g = h
          then and_then (case gp_members g of [] \<Rightarrow> Inr s | m # _ \<Rightarrow> setLeader a (ms_guid m) s) (\<lambda>s. Inr (True, s))
          else Inr (False, s))))"
    unfolding with_party_Some[OF g1(1)]
  proof (rule ok_bind[OF ok_erase_member[OF sl]])
    fix g2
    assume g2: "slots_ok g2 \<and> gp_refs g2 = gp_refs (removeRolls h g1) \<and> gp_invitees g2 = gp_invitees (removeRolls h g1)
      \<and> gp_bg g2 = gp_bg (removeRolls h g1) \<and> lead g2 = lead (removeRolls h g1) \<and> gp_rolls g2 = gp_rolls (removeRolls h g1)
      \<and> length (gp_members (removeRolls h g1)) - 1 \<le> length (gp_members g2)"
    define s2 where "s2 = (if \<not> gp_bg g2 then party_sql (DeleteGroupMember (GUID_LOPART h)) (put_party a g2 s1) else put_party a g2 s1)"
    have rl: "rolls_ok (loot_len s1) g2"
      using rolls_ok_cong[of g2 "removeRolls h g1"] g2 removeRolls_keeps(8)[OF party_coreD(3)[OF c1 g1(1)]] by simp
    have "turns a (Some (gp_bg g1, length (gp_members g2), lead g2, gp_invitees g1)) s1 (put_party a g2 s1)"
      by (rule turns_put[OF c1 g1(1)]) (use g2 rl in simp_all)
    then have "turns a (Some (gp_bg g, length (gp_members g2), lead g, gp_invitees g)) s1 (put_party a g2 s1)"
      using g1 g2 by simp
    then have "turns a (Some (gp_bg g, length (gp_members g2), lead g, gp_invitees g)) s1 s2" by (simp add: s2_def)
    then have t: "turns a (Some (gp_bg g, length (gp_members g2), lead g, gp_invitees g)) s s2" by (rule keeps_turns[OF k])
    have len: "length (gp_members g) - 1 \<le> length (gp_members g2)" using g1 g2 by simp
    have h2: "gs_heap s2 a = Some g2" by (simp add: s2_def)
    have lead2: "ok (\<lambda>s'. \<exists>l. turns a (Some (gp_bg g, length (gp_members g2), (l, gp_raid g), gp_invitees g)) s s') (setLeader a k' s2)" for k'
    proof (rule ok_mono[OF ok_setLeader[OF turns_core[OF t] h2]])
      fix s3 assume "\<exists>l. turns a (Some (gp_bg g2, length (gp_members g2), (l, gp_raid g2), gp_invitees g2)) s2 s3"
      then show "\<exists>l. turns a (Some (gp_bg g, length (gp_members g2), (l, gp_raid g), gp_invitees g)) s s3"
        using g1 g2 turns_turns[OF t] by auto
    qed
    have "ok (\<lambda>s'. \<exists>l. turns a (Some (gp_bg g, length (gp_members g2), (l, gp_raid g), gp_invitees g)) s s')
        (case gp_members g2 of [] \<Rightarrow> Inr s2 | m # _ \<Rightarrow> setLeader a (ms_guid m) s2)"
      using t lead2 by (auto split: list.split)
    then have "ok ?P (and_then (case gp_members g2 of [] \<Rightarrow> Inr s2 | m # _ \<Rightarrow> setLeader a (ms_guid m) s2) (\<lambda>s. Inr (True, s)))"
      by (rule ok_bind) (use len in auto)
    moreover have "ok ?P (Inr (False, s2))" using len t by auto
    ultimately show "ok ?P (let s = put_party a g2 s1;
           s = (if \<not> gp_bg g2 then party_sql (DeleteGroupMember (GUID_LOPART h)) s else s)
       in if gp_leaderGuid g2 = h
          then and_then (case gp_members g2 of [] \<Rightarrow> Inr s | m # _ \<Rightarrow> setLeader a (ms_guid m) s) (\<lambda>s. Inr (True, s))
          else Inr (False, s))"
      unfolding Let_def s2_def[symmetric] by simp
  qed
qed

lemma ok_disband_member [party_ok]:
  assumes c: "core s"
  shows "ok (keeps s) (disband_member a bg hide m s)"
proof (cases "FindPlayer (gs_world s) (ms_guid m) True")
  case None
  then show ?thesis by (simp add: disband_member_def keeps_refl[OF c])
next
  case (Some p)
  show ?thesis
    unfolding disband_member_def Some option.case
  proof (rule ok_keeps_bind[OF ok_take_out[OF c]])
    fix s' assume "keeps s s'"
    then have c': "core s'" by (rule keeps_core)
    then show "ok (keeps s') (tell_left (ms_guid m) (if hide then s'
        else glog [GSend (ms_guid m) (WorldPacket_new SMSG_GROUP_DESTROYED)] s'))"
      using ok_tell_left[OF c'] ok_tell_left[of "glog [GSend (ms_guid m) (WorldPacket_new SMSG_GROUP_DESTROYED)] s'"]
      by simp
  qed
qed

lemma ok_Group_Disband:
  assumes c: "core s" and g: "gs_heap s a = Some g"
  shows "ok (turns a (Some (gp_bg g, 0, (0, gp_raid g), [])) s) (Group_Disband a hide s)" (is "ok ?P _")
proof -
  define s1 where "s1 = (if GetPlayer (gs_world s) (gp_leaderGuid g) \<noteq> None then glog [GHook ''OnGroupDisband'' a] s else s)"
  have k1: "keeps s s1" using keeps_refl[OF c] by (simp add: s1_def)
  have "ok (keeps s1) (for_all (disband_member a (gp_bg g) hide) (gp_members g) s1)"
    by (rule ok_keeps_for_all[OF keeps_core[OF k1]]) (auto intro: ok_disband_member dest: keeps_core)
  then have "ok ?P (and_then (for_all (disband_member a (gp_bg g) hide) (gp_members g) s1) (\<lambda>s.
        with_party a s (\<lambda>g.
          and_then (RemoveAllInvites a (put_party a (g\<lparr>gp_rolls := [], gp_members := []\<rparr>) s)) (\<lambda>s.
            with_party a s (\<lambda>g.
              let low = GUID_LOPART (gp_leaderGuid g);
                  s = (if \<not> gp_bg g then glog [GSql (DeleteGroup low), GSql (DeleteGroupMembers low), ResetGroupInstances a] s else s)
              in Inr (put_party a (g\<lparr>gp_leaderGuid := 0, gp_leaderName := ''''\<rparr>) s))))))"
  proof (rule ok_bind)
    fix s2 assume "keeps s1 s2"
    then have k: "keeps s s2" by (rule keeps_trans[OF k1])
    have c2: "core s2" by (rule keeps_core[OF k])
    obtain g2 where g2: "gs_heap s2 a = Some g2" "gp_bg g2 = gp_bg g" "lead g2 = lead g" "gp_invitees g2 = gp_invitees g"
      using keeps_view[OF k g] by blast
    let ?g = "g2\<lparr>gp_rolls := [], gp_members := []\<rparr>" and ?s = "put_party a (g2\<lparr>gp_rolls := [], gp_members := []\<rparr>) s2"
    have t: "turns a (Some (gp_bg g, 0, lead g, gp_invitees g)) s ?s"
      using turns_put[OF c2 g2(1), of ?g] party_coreD[OF c2 g2(1)] g2 keeps_turns[OF k] by (simp add: slots_ok_def rolls_ok_def)
    have inv: "ok (turns a (Some (gp_bg g, 0, lead g, [])) ?s) (RemoveAllInvites a ?s)"
      using ok_RemoveAllInvites[OF turns_core[OF t], of a ?g] g2 by simp
    show "ok ?P (with_party a s2 (\<lambda>g.
          and_then (RemoveAllInvites a (put_party a (g\<lparr>gp_rolls := [], gp_members := []\<rparr>) s2)) (\<lambda>s.
            with_party a s (\<lambda>g.
              let low = GUID_LOPART (gp_leaderGuid g);
                  s = (if \<not> gp_bg g then glog [GSql (DeleteGroup low), GSql (DeleteGroupMembers low), ResetGroupInstances a] s else s)
              in Inr (put_party a (g\<lparr>gp_leaderGuid := 0, gp_leaderName := ''''\<rparr>) s)))))"
      unfolding with_party_Some[OF g2(1)]
    proof (rule ok_bind[OF inv])
      fix s3 assume "turns a (Some (gp_bg g, 0, lead g, [])) ?s s3"
      then have t3: "turns a (Some (gp_bg g, 0, lead g, [])) s s3" by (rule turns_turns[OF t])
      obtain g3 where g3: "gs_heap s3 a = Some g3" using turns_view[OF t3] by blast
      have "put_party a x (glog as s) = glog as (put_party a x s)" for x as s by (simp add: put_party_def glog_def)
      then show "ok ?P (with_party a s3 (\<lambda>g.
              let low = GUID_LOPART (gp_leaderGuid g);
                  s = (if \<not> gp_bg g then glog [GSql (DeleteGroup low), GSql (DeleteGroupMembers low), ResetGroupInstances a] s3 else s3)
              in Inr (put_party a (g\<lparr>gp_leaderGuid := 0, gp_leaderName := ''''\<rparr>) s)))"
        using turns_put_leader[OF t3 g3, of 0 "''''"] g3 by (simp add: Let_def)
    qed
  qed
  then show ?thesis unfolding Group_Disband_def with_party_Some[OF g] Let_def s1_def .
qed

lemma ok_tell_removed [party_ok]: "core s \<Longrightarrow> ok (keeps s) (tell_removed a h meth s)"
  using ok_tell_left[of "glog [GHook ''OnGroupRemoveMember'' a] s" h] keeps_refl[of s]
    ok_tell_left[of "glog [GSend h (WorldPacket_new SMSG_GROUP_UNINVITE)] (glog [GHook ''OnGroupRemoveMember'' a] s)" h]
  by (auto simp: tell_removed_def Let_def split: option.split)

lemma ok_tell_new_leader [party_ok]: "core s \<Longrightarrow> gs_heap s a \<noteq> None \<Longrightarrow> ok (keeps s) (tell_new_leader a c s)"
  using keeps_refl[of s] by (auto simp: tell_new_leader_def intro!: party_ok)

lemma turns_refl: "core s \<Longrightarrow> gs_heap s a = Some g \<Longrightarrow> turns a (Some (gp_bg g, length (gp_members g), lead g, gp_invitees g)) s s"
  using turns_same[of a s s] keeps_refl[of s] by (simp add: sig_def)

text \<open>Nobody is invited to a group that is left with one member or none.\<close>

lemma ok_RemoveMember:
  assumes c: "core s" and g: "gs_heap s a = Some g"
  shows "ok (\<lambda>(n, s'). \<exists>l is. turns a (Some (gp_bg g, n, (l, gp_raid g), is)) s s' \<and> (n \<le> 1 \<longrightarrow> is = [])) (RemoveMember a h meth s)"
    (is "ok ?P _")
  unfolding RemoveMember_def
proof (rule ok_bind)
  show "ok (keeps s) (BroadcastGroupUpdate a s)" using g by (intro party_ok c) simp
next
  fix s1 assume k: "keeps s s1"
  have c1: "core s1" by (rule keeps_core[OF k])
  obtain g1 where g1: "gs_heap s1 a = Some g1" "gp_bg g1 = gp_bg g" "length (gp_members g1) = length (gp_members g)"
    "lead g1 = lead g" "gp_invitees g1 = gp_invitees g" using keeps_view[OF k g] by blast
  let ?Q = "\<lambda>s'. \<exists>n l is. turns a (Some (gp_bg g, n, (l, gp_raid g), is)) s s' \<and> (n \<le> 1 \<longrightarrow> is = [])"
  have many: "ok ?Q (and_then (removeMember a h s1) (\<lambda>(leaderChanged, s).
      and_then (tell_removed a h meth s) (\<lambda>s. and_then (tell_new_leader a leaderChanged s) (SendUpdate a))))"
    if len: "length (gp_members g1) > (if gp_bg g1 then 1 else 2)"
  proof (rule ok_bind2[OF ok_removeMember[OF c1 g1(1)]])
    fix b s2
    assume "\<exists>n l. length (gp_members g1) - 1 \<le> n \<and> turns a (Some (gp_bg g1, n, (l, gp_raid g1), gp_invitees g1)) s1 s2"
    then obtain n l where n: "length (gp_members g) - 1 \<le> n" and "turns a (Some (gp_bg g, n, (l, gp_raid g), gp_invitees g)) s1 s2"
      using g1 by auto
    then have t: "turns a (Some (gp_bg g, n, (l, gp_raid g), gp_invitees g)) s s2" by (rule_tac keeps_turns[OF k])
    have c2: "core s2" and a2: "gs_heap s2 a \<noteq> None" using turns_core[OF t] turns_view[OF t] by auto
    have inv: "n \<le> 1 \<longrightarrow> gp_invitees g = []" using len g1 n core_invites(3)[OF c g] by (auto split: if_splits)
    have "ok (keeps s2) (and_then (tell_removed a h meth s2) (\<lambda>s. and_then (tell_new_leader a b s) (SendUpdate a)))"
      using c2 a2 by (intro ok_keeps_bind party_ok) (auto dest!: keepsD)
    then show "ok ?Q (and_then (tell_removed a h meth s2) (\<lambda>s. and_then (tell_new_leader a b s) (SendUpdate a)))"
      by (rule ok_mono) (use turns_keeps[OF t] inv in blast)
  qed
  have few: "ok ?Q (Group_Disband a True s1)"
  proof (rule ok_mono[OF ok_Group_Disband[OF c1 g1(1)]])
    fix s' assume "turns a (Some (gp_bg g1, 0, (0, gp_raid g1), [])) s1 s'"
    then have "turns a (Some (gp_bg g, 0, (0, gp_raid g), [])) s s'" using g1 keeps_turns[OF k] by simp
    then show "?Q s'" by blast
  qed
  show "ok ?P (with_party a s1 (\<lambda>g. and_then
         (if length (gp_members g) > (if gp_bg g then 1 else 2)
          then and_then (removeMember a h s1) (\<lambda>(leaderChanged, s).
                 and_then (tell_removed a h meth s) (\<lambda>s. and_then (tell_new_leader a leaderChanged s) (SendUpdate a)))
          else Group_Disband a True s1)
         (\<lambda>s. with_party a s (\<lambda>g. Inr (length (gp_members g), s)))))"
    unfolding with_party_Some[OF g1(1)]
  proof (rule ok_bind[where P = ?Q])
    show "ok ?Q (if length (gp_members g1) > (if gp_bg g1 then 1 else 2)
          then and_then (removeMember a h s1) (\<lambda>(leaderChanged, s).
                 and_then (tell_removed a h meth s) (\<lambda>s. and_then (tell_new_leader a leaderChanged s) (SendUpdate a)))
          else Group_Disband a True s1)"
      using few by (cases "(if gp_bg g1 then 1 else 2) < length (gp_members g1)") (simp_all only: if_True if_False many)
  next
    fix s3 assume "?Q s3"
    then obtain n l "is" where t: "turns a (Some (gp_bg g, n, (l, gp_raid g), is)) s s3" and "n \<le> 1 \<longrightarrow> is = []" by blast
    moreover obtain g3 where "gs_heap s3 a = Some g3" "length (gp_members g3) = n" using turns_view[OF t] by blast
    ultimately show "ok ?P (with_party a s3 (\<lambda>g. Inr (length (gp_members g), s3)))" by auto
  qed
qed

section \<open>Whole operations\<close>

text \<open>An operation is done: the invariant holds again and the players are the same.\<close>

definition settled :: "group_server \<Rightarrow> group_server \<Rightarrow> bool" where
  "settled s s' \<longleftrightarrow> core s' \<and> (formed s \<longrightarrow> formed s') \<and> gs_world s' = gs_world s"

lemma settled_glog [simp]: "settled s (glog as s') = settled s s'" "settled (glog as s) = settled s"
  by (auto simp: settled_def formed_def fun_eq_iff)

lemma settled_trans: "settled s s' \<Longrightarrow> settled s' s'' \<Longrightarrow> settled s s''"
  by (auto simp: settled_def)

lemma keeps_settled: "keeps s s' \<Longrightarrow> settled s s'"
  by (simp add: settled_def keeps_def frame_def formed_def)

lemma settled_refl: "core s \<Longrightarrow> settled s s"
  by (simp add: settled_def)

lemma formedD:
  assumes "formed s"
  shows "c \<in> set (gs_set s) \<Longrightarrow> \<exists>x. sig s c = Some x \<and> fst (snd x) \<noteq> 0" and "sig s c = Some x \<Longrightarrow> seat_ok x"
    and "gs_bgraid s k = Some c \<Longrightarrow> c \<notin> set (gs_set s)"
  using assms unfolding formed_def by blast+

lemma formedI:
  assumes "formed s"
    and "\<And>c. c \<in> set (gs_set s') \<Longrightarrow> c \<in> set (gs_set s) \<and> (\<exists>x. sig s' c = Some x \<and> fst (snd x) \<noteq> 0)"
    and "\<And>c x. sig s' c = Some x \<Longrightarrow> seat_ok x" and "\<And>k c. gs_bgraid s' k = Some c \<Longrightarrow> gs_bgraid s k = Some c"
  shows "formed s'"
  using assms unfolding formed_def by blast

lemma formed_upd:
  assumes "formed s" and "gs_set s' = gs_set s" and "sig s' = (sig s)(a := Some x)" and "seat_ok x"
    and "fst (snd x) \<noteq> 0 \<or> a \<notin> set (gs_set s)" and "\<And>k c. gs_bgraid s' k = Some c \<Longrightarrow> gs_bgraid s k = Some c"
  shows "formed s'"
proof (rule formedI[OF assms(1)])
  show "c \<in> set (gs_set s) \<and> (\<exists>x. sig s' c = Some x \<and> fst (snd x) \<noteq> 0)" if "c \<in> set (gs_set s')" for c
    using that formedD(1)[OF assms(1), of c] assms(2,3,5) by (cases "c = a") auto
  show "seat_ok y" if "sig s' c = Some y" for c y
    using that formedD(2)[OF assms(1), of c y] assms(3,4) by (cases "c = a") auto
qed (rule assms(6))

lemma turns_settled: "turns a (Some (bg, Suc n, l, is)) s s' \<Longrightarrow> settled s s'"
  unfolding settled_def turns_def
  by (auto intro!: formed_upd[of s s' a "(bg, Suc n, l, is)"] simp: seat_ok_def)

lemma keeps_ok_settled: "ok (keeps s) r \<Longrightarrow> ok (settled s) r"
  by (erule ok_mono) (rule keeps_settled)

lemma view_set [simp]:
  "sig (s\<lparr>gs_set := d\<rparr>) = sig s" "refs_at (s\<lparr>gs_set := d\<rparr>) = refs_at s"
  "loot_len (s\<lparr>gs_set := d\<rparr>) = loot_len s" "connected h (s\<lparr>gs_set := d\<rparr>) = connected h s"
  by (auto simp: sig_def refs_at_def loot_len_def connected_def fun_eq_iff)

lemma core_set [simp]: "core (s\<lparr>gs_set := d\<rparr>) = core s"
  by (simp add: core_def links_ok_def invites_ok_def invited_at_def raids_ok_def plain_def)

lemma RemoveGroup_sel [simp]:
  "gs_world (RemoveGroup a s) = gs_world s" "gs_heap (RemoveGroup a s) = gs_heap s" "gs_refs (RemoveGroup a s) = gs_refs s"
  "gs_set (RemoveGroup a s) = removeAll a (gs_set s)" "gs_bgraid (RemoveGroup a s) = gs_bgraid s" "core (RemoveGroup a s) = core s" "sig (RemoveGroup a s) = sig s"
  by (simp_all add: RemoveGroup_def)

lemma AddGroup_sel [simp]:
  "gs_world (AddGroup a s) = gs_world s" "gs_heap (AddGroup a s) = gs_heap s" "gs_refs (AddGroup a s) = gs_refs s"
  "gs_set (AddGroup a s) = List.insert a (gs_set s)" "gs_bgraid (AddGroup a s) = gs_bgraid s" "core (AddGroup a s) = core s" "sig (AddGroup a s) = sig s"
  by (simp_all add: AddGroup_def)

text \<open>A group without invitations may be deleted when it is in the set no longer.\<close>

lemma settled_delete:
  assumes t: "turns a (Some (bg, n, l, [])) s s'" and out: "b \<or> a \<notin> set (gs_set s)"
  shows "settled s (delete_party a (if b then RemoveGroup a s' else s'))"
    and "sig (delete_party a (if b then RemoveGroup a s' else s')) = (sig s)(a := None)"
proof -
  let ?s = "if b then RemoveGroup a s' else s'"
  obtain g where g: "gs_heap s' a = Some g" "gp_invitees g = []" using turns_view[OF t] by blast
  have c: "core ?s" and h: "gs_heap ?s a = Some g" using turns_core[OF t] g by simp_all
  have "gs_set ?s = (if b then removeAll a (gs_set s) else gs_set s)" "sig ?s = (sig s)(a := Some (bg, n, l, []))"
    "gs_world ?s = gs_world s" "gs_bgraid ?s = gs_bgraid s"
    using t by (simp_all add: turns_def)
  moreover from this have "formed (delete_party a ?s)" if f: "formed s"
  proof (intro formedI[OF f])
    show "d \<in> set (gs_set s) \<and> (\<exists>x. sig (delete_party a ?s) d = Some x \<and> fst (snd x) \<noteq> 0)"
      if "d \<in> set (gs_set (delete_party a ?s))" for d
      using that formedD(1)[OF f, of d] core_delete(3,4)[OF c h g(2)] calculation out by (cases "d = a") (auto split: if_splits)
    show "seat_ok y" if "sig (delete_party a ?s) d = Some y" for d y
      using that formedD(2)[OF f, of d y] core_delete(4)[OF c h g(2)] calculation by (cases "d = a") auto
  qed (use core_delete(5)[OF c h g(2)] calculation in auto)
  ultimately show "settled s (delete_party a ?s)" "sig (delete_party a ?s) = (sig s)(a := None)"
    using core_delete[OF c h g(2)] by (simp_all add: settled_def)
qed

lemma ok_RemoveFromGroup:
  assumes c: "core s" and a: "\<And>a. a' = Some a \<Longrightarrow> gs_heap s a \<noteq> None"
  shows "ok (settled s) (RemoveFromGroup a' h meth s)"
proof (cases a')
  case None
  then show ?thesis by (simp add: RemoveFromGroup_def settled_refl[OF c])
next
  case (Some a)
  obtain g where g: "gs_heap s a = Some g" using a[OF Some] by blast
  show ?thesis
    unfolding RemoveFromGroup_def Some option.case
  proof (rule ok_bind2[OF ok_RemoveMember[OF c g]])
    fix n s1 assume "\<exists>l is. turns a (Some (gp_bg g, n, (l, gp_raid g), is)) s s1 \<and> (n \<le> 1 \<longrightarrow> is = [])"
    then obtain l "is" where t: "turns a (Some (gp_bg g, n, (l, gp_raid g), is)) s s1" and inv: "n \<le> 1 \<longrightarrow> is = []" by blast
    show "ok (settled s) (Inr (if n \<le> 1 then delete_party a (RemoveGroup a s1) else s1))"
    proof (cases "n \<le> 1")
      case True
      then show ?thesis using settled_delete[of a _ _ _ s s1 True] t inv by auto
    next
      case False
      then obtain m where "n = Suc m" by (cases n) auto
      then show ?thesis using turns_settled t False by auto
    qed
  qed
qed

lemma formed_empty:
  assumes f: "formed s" and g: "gs_heap s a = Some g" and none: "gp_members g = []"
  shows "a \<notin> set (gs_set s)" and "\<not> gp_bg g \<Longrightarrow> gp_leaderGuid g \<in> set (gp_invitees g) \<and> \<not> gp_raid g"
proof -
  have sig: "sig s a = Some (gp_bg g, 0, lead g, gp_invitees g)" using g none by (simp add: sig_def)
  show "a \<notin> set (gs_set s)" using f sig unfolding formed_def by fastforce
  have "seat_ok (gp_bg g, 0, lead g, gp_invitees g)" using f sig unfolding formed_def by blast
  then show "\<not> gp_bg g \<Longrightarrow> gp_leaderGuid g \<in> set (gp_invitees g) \<and> \<not> gp_raid g" by (simp add: seat_ok_def)
qed

lemma no_invite_after:
  assumes c: "core s" and c': "core s'" and sig: "sig s' = (sig s)(a := v)"
    and mine: "\<And>b. gr_invite (gs_refs s x) = Some b \<Longrightarrow> b = a" and out: "\<And>bg n l is. v = Some (bg, n, l, is) \<Longrightarrow> x \<notin> set is"
  shows "gr_invite (gs_refs s' x) = None"
proof (rule ccontr)
  assume "gr_invite (gs_refs s' x) \<noteq> None"
  then obtain b where b: "x \<in> invited_at s' b" using core_invites(1)[OF c', of x] by auto
  then have "b \<noteq> a" using out by (cases v) (auto simp: invited_at_def sig simp del: sig_None)
  then have "x \<in> invited_at s b" using b by (simp add: invited_at_def sig)
  with mine core_invites(1)[OF c, of x b] \<open>b \<noteq> a\<close> show False by blast
qed

text \<open>The invitation is gone afterwards, and with it a group that is too small.\<close>

lemma ok_UninviteFromGroup:
  assumes c: "core s" and f: "formed s"
  shows "ok (\<lambda>s'. settled s s' \<and> gr_invite (gs_refs s' h) = None) (UninviteFromGroup h s)" (is "ok ?P _")
proof (cases "gr_invite (gs_refs s h)")
  case None
  then show ?thesis by (simp add: UninviteFromGroup_def settled_refl[OF c])
next
  case (Some a)
  obtain g where g: "gs_heap s a = Some g" using core_invite[OF c Some] by blast
  let ?t = "\<lambda>s'. turns a (Some (gp_bg g, length (gp_members g), lead g, removeAll h (gp_invitees g))) s s'"
  have gone: "gr_invite (gs_refs s' h) = None" if "core s'" "sig s' = (sig s)(a := v)" "\<And>bg n l is. v = Some (bg, n, l, is) \<Longrightarrow> h \<notin> set is" for s' v
    by (rule no_invite_after[OF c that(1,2)]) (use Some that(3) in auto)
  show ?thesis
    unfolding UninviteFromGroup_def Some option.case
  proof (rule ok_bind)
    show "ok ?t (RemoveInvite a h s)" using Some by (intro ok_RemoveInvite[OF c g]) simp
  next
    fix s1 assume t: "?t s1"
    have c1: "core s1" by (rule turns_core[OF t])
    obtain g1 where g1: "gs_heap s1 a = Some g1" "gp_bg g1 = gp_bg g" "length (gp_members g1) = length (gp_members g)"
      using turns_view[OF t] by blast
    have many: "?P s1" if big: "length (gp_members g1) > 1"
    proof -
      obtain n where "length (gp_members g) = Suc n" using big g1 by (cases "length (gp_members g)") auto
      then show ?thesis using t turns_settled gone[OF c1, of "Some (gp_bg g, length (gp_members g), lead g, removeAll h (gp_invitees g))"]
        by (simp add: turns_def)
    qed
    have one: "ok ?P (and_then (and_then (Group_Disband a True s1) (\<lambda>s. Inr (RemoveGroup a s))) (\<lambda>s. Inr (delete_party a s)))"
      unfolding and_then_assoc and_then_simps
    proof (rule ok_bind[OF ok_Group_Disband[OF c1 g1(1)]])
      fix s2 assume "turns a (Some (gp_bg g1, 0, (0, gp_raid g1), [])) s1 s2"
      then have "turns a (Some (gp_bg g1, 0, (0, gp_raid g1), [])) s s2" by (rule turns_turns[OF t])
      then show "ok ?P (Inr (delete_party a (RemoveGroup a s2)))"
        using settled_delete[of a _ _ _ s s2 True] gone[of _ None] by (simp add: settled_def)
    qed
    have none: "ok ?P (and_then (RemoveAllInvites a s1) (\<lambda>s. Inr (delete_party a s)))" if "gp_members g1 = []"
    proof (rule ok_bind[OF ok_RemoveAllInvites[OF c1 g1(1)]])
      fix s2 assume t2: "turns a (Some (gp_bg g1, length (gp_members g1), lead g1, [])) s1 s2"
      have "gp_members g = []" using that g1(3) by simp
      then have "a \<notin> set (gs_set s)" using formed_empty(1)[OF f g] by simp
      then show "ok ?P (Inr (delete_party a s2))"
        using settled_delete[of a _ _ _ s s2 False] turns_turns[OF t t2] gone[of _ None] by (simp add: settled_def)
    qed
    show "ok ?P (with_party a s1 (\<lambda>g.
            if length (gp_members g) \<le> 1
            then and_then (if gp_members g \<noteq> []
                           then and_then (Group_Disband a True s1) (\<lambda>s. Inr (RemoveGroup a s))
                           else RemoveAllInvites a s1) (\<lambda>s. Inr (delete_party a s))
            else Inr s1))"
      unfolding with_party_Some[OF g1(1)]
      using many one none by (cases "length (gp_members g1) \<le> 1"; cases "gp_members g1 = []") simp_all
  qed
qed

lemma ok_Uninvite_settled: "core s \<Longrightarrow> formed s \<Longrightarrow> ok (settled s) (UninviteFromGroup h s)"
  by (rule ok_mono[OF ok_UninviteFromGroup]) auto

section \<open>Raids, icons, roles and loot\<close>

text \<open>What changes one group otherwise: its view stays, and its subgroups stay in range.\<close>

lemma keeps_put:
  assumes c: "core s" and g: "gs_heap s a = Some g"
    and same: "gp_refs g' = gp_refs g" "gp_invitees g' = gp_invitees g" "gp_bg g' = gp_bg g" "lead g' = lead g"
      "length (gp_members g') = length (gp_members g)"
    and slots: "slots_ok g'" and rolls: "rolls_ok (loot_len s) g'"
  shows "keeps s (put_party a g' s)"
  using turns_put[OF c g same(1-3) slots rolls] same(4,5) turns_same[of a s "put_party a g' s"] g by (simp add: sig_def)

lemma keeps_sub:
  assumes c: "core s" and k: "unat k < 8"
  shows "keeps s (upd_refs h (set_sub b k) s)"
proof (rule keepsI)
  show "core (upd_refs h (set_sub b k) s)"
  proof (rule core_links[OF c])
    show "links_ok (upd_refs h (set_sub b k) s)" by (rule links_ok_view[OF c]) simp_all
    show "ref_target False (gs_refs (upd_refs h (set_sub b k) s) x) = Some a \<Longrightarrow> plain s a" for x a
      using core_plain[OF c, of x a] by (auto split: if_splits)
  qed (use core_subs[OF c] k in auto)
qed simp

lemma slots_on_slot:
  assumes "slots_ok g" and "\<And>m. unat (ms_group m) < 8 \<Longrightarrow> ms_guid m \<noteq> 0 \<Longrightarrow> unat (ms_group (f m)) < 8 \<and> ms_guid (f m) \<noteq> 0"
  shows "slots_ok (g\<lparr>gp_members := on_slot h f (gp_members g)\<rparr>)"
  using assms by (auto simp: slots_ok_def dest!: set_on_slot)

lemma ok_setMembersGroup [party_ok]:
  assumes c: "core s" and g: "gs_heap s a = Some g" and k: "unat k < 8"
  shows "ok (\<lambda>(b, s'). keeps s s') (setMembersGroup a h k s)"
proof (cases "is_member h g")
  case False
  then show ?thesis by (simp add: setMembersGroup_def g keeps_refl[OF c])
next
  case True
  let ?g = "g\<lparr>gp_members := on_slot h (\<lambda>m. m\<lparr>ms_group := k\<rparr>) (gp_members g)\<rparr>"
  have sl: "slots_ok ?g" using party_coreD(2)[OF c g] k by (intro slots_on_slot) simp_all
  have "ok (\<lambda>(b, s'). keeps s s') (and_then (SubGroupCounterIncrease k ?g) (\<lambda>g.
       let s = put_party a g s
       in Inr (True, if \<not> gp_bg g then party_sql (UpdateSubgroup k (GUID_LOPART h)) s else s)))"
  proof (rule ok_bind[OF ok_count_sub[OF sl k]])
    fix g1 assume "recounted ?g g1"
    then have "keeps s (put_party a g1 s)"
      using party_coreD(3)[OF c g] rolls_ok_cong[of g1 g] by (intro keeps_put[OF c g]) (auto simp: recounted_def)
    then show "ok (\<lambda>(b, s'). keeps s s') (let s = put_party a g1 s
       in Inr (True, if \<not> gp_bg g1 then party_sql (UpdateSubgroup k (GUID_LOPART h)) s else s))" by (simp add: Let_def)
  qed
  then show ?thesis using True by (simp add: setMembersGroup_def g)
qed

lemma ok_count_put:
  assumes c: "core s" and g: "gs_heap s a = Some g" and k: "unat k < 8"
  shows "ok (\<lambda>g'. keeps s (put_party a g' s)) (count_sub d k g)"
proof (rule ok_mono[OF ok_count_sub[OF party_coreD(2)[OF c g] k]])
  fix g' assume "recounted g g'"
  then show "keeps s (put_party a g' s)"
    using party_coreD(3)[OF c g] rolls_ok_cong[of g' g] by (intro keeps_put[OF c g]) (auto simp: recounted_def)
qed

lemma ok_ChangeMembersGroup_player [party_ok]:
  assumes c: "core s" and a: "gs_heap s a \<noteq> None" and k: "unat k < 8"
  shows "ok (keeps s) (ChangeMembersGroup_player a p k s)"
proof -
  obtain g where g: "gs_heap s a = Some g" using a by blast
  have moved: "ok (keeps s) (and_then (setMembersGroup a h k s) (\<lambda>(ok, s). if \<not> ok then Inr s
      else with_party a s (\<lambda>g. and_then (SubGroupCounterDecrease (gr_subgroup (gs_refs s h)) g) (\<lambda>g.
             SendUpdate a (upd_refs h (set_sub True k) (put_party a g s))))))" for h
  proof (rule ok_bind2[OF ok_setMembersGroup[OF c g k]])
    fix b s1 assume k1: "keeps s s1"
    have c1: "core s1" by (rule keeps_core[OF k1])
    obtain g1 where g1: "gs_heap s1 a = Some g1" using keeps_view[OF k1 g] by blast
    have sub: "unat (gr_subgroup (gs_refs s1 h)) < 8" using core_subs[OF c1] by blast
    have "ok (keeps s) (and_then (SubGroupCounterDecrease (gr_subgroup (gs_refs s1 h)) g1) (\<lambda>g.
             SendUpdate a (upd_refs h (set_sub True k) (put_party a g s1))))"
    proof (rule ok_bind[OF ok_count_put[OF c1 g1 sub]])
      fix g2 assume k2: "keeps s1 (put_party a g2 s1)"
      have k3: "keeps s (upd_refs h (set_sub True k) (put_party a g2 s1))" (is "keeps s ?s")
        by (rule keeps_trans[OF keeps_trans[OF k1 k2] keeps_sub[OF keeps_core[OF k2] k]])
      have "ok (keeps ?s) (SendUpdate a ?s)" by (rule ok_SendUpdate[OF keeps_core[OF k3]]) simp
      then show "ok (keeps s) (SendUpdate a ?s)" by (rule ok_mono) (rule keeps_trans[OF k3])
    qed
    then show "ok (keeps s) (if \<not> b then Inr s1
      else with_party a s1 (\<lambda>g. and_then (SubGroupCounterDecrease (gr_subgroup (gs_refs s1 h)) g) (\<lambda>g.
             SendUpdate a (upd_refs h (set_sub True k) (put_party a g s1)))))"
      using k1 g1 by simp
  qed
  show ?thesis
    using moved keeps_refl[OF c] by (simp add: ChangeMembersGroup_player_def g split: option.split)
qed

end
