(* ===== verification/GroupSteps.thy ===== *)
theory GroupSteps
  imports GroupSafe
begin

text \<open>
  The calls that keep the invariant of GroupSafe: the packet handlers of GroupHandler.cpp and the events of players,
  battlegrounds and loot, as a relation \<open>party_call\<close> between a state and the result of a call.
\<close>

section \<open>Operations on one group\<close>

lemma turns_settled_pos: "turns a (Some (bg, n, l, is)) s s' \<Longrightarrow> n \<noteq> 0 \<Longrightarrow> settled s s'"
  by (cases n) (auto intro: turns_settled)

lemma ok_ChangeMembersGroup [party_ok]:
  assumes c: "core s" and a: "gs_heap s a \<noteq> None" and k: "unat k < 8"
  shows "ok (keeps s) (ChangeMembersGroup a h k s)"
proof -
  obtain g where g: "gs_heap s a = Some g" using a by blast
  define here where "here = (gr_group (gs_refs s h) = Some a)"
  let ?s = "upd_refs h (set_sub here k) s"
  let ?prev = "if here then gr_subgroup (gs_refs s h) else gr_originalSub (gs_refs s h)"
  have k1: "keeps s ?s" by (rule keeps_sub[OF c k])
  have g1: "gs_heap ?s a = Some g" using g by simp
  have sub: "unat ?prev < 8" using core_subs[OF c, of h] by simp
  have "ok (keeps s) (and_then (SubGroupCounterDecrease ?prev g) (\<lambda>g.
          and_then (setMembersGroup a h k (put_party a g ?s)) (\<lambda>(ok, s). if ok then SendUpdate a s else Inr s)))"
  proof (rule ok_bind[OF ok_count_put[OF keeps_core[OF k1] g1 sub]])
    fix g2 assume k2: "keeps ?s (put_party a g2 ?s)"
    then have k3: "keeps s (put_party a g2 ?s)" by (rule keeps_trans[OF k1])
    have g3: "gs_heap (put_party a g2 ?s) a = Some g2" by simp
    show "ok (keeps s) (and_then (setMembersGroup a h k (put_party a g2 ?s)) (\<lambda>(ok, s). if ok then SendUpdate a s else Inr s))"
    proof (rule ok_bind2[OF ok_setMembersGroup[OF keeps_core[OF k3] g3 k]])
      fix b s4 assume "keeps (put_party a g2 ?s) s4"
      then have k4: "keeps s s4" by (rule keeps_trans[OF k3])
      have "gs_heap s4 a \<noteq> None" using keeps_view[OF k4 g] by auto
      then have "ok (keeps s4) (SendUpdate a s4)" by (rule ok_SendUpdate[OF keeps_core[OF k4]])
      then have "ok (keeps s) (SendUpdate a s4)" by (rule ok_mono) (rule keeps_trans[OF k4])
      then show "ok (keeps s) (if b then SendUpdate a s4 else Inr s4)" using k4 by simp
    qed
  qed
  moreover have "ok (keeps s) (ChangeMembersGroup_player a None k s)" by (rule ok_ChangeMembersGroup_player[OF c a k])
  ultimately show ?thesis
    using keeps_refl[OF c] by (simp add: ChangeMembersGroup_def g Let_def here_def split: option.split)
qed

text \<open>A change of a group that leaves its view alone, then a packet.\<close>

lemma put_then:
  assumes k: "keeps s s'" and r: "\<And>s'. core s' \<Longrightarrow> gs_heap s' a \<noteq> None \<Longrightarrow> ok (keeps s') (f s')" and a: "gs_heap s a \<noteq> None"
  shows "ok (keeps s) (f s')"
  using ok_mono[OF r[OF keeps_core[OF k]]] keeps_alive[OF k, of a] a keeps_trans[OF k] by blast

lemma ok_SendUpdate_after: "keeps s s' \<Longrightarrow> gs_heap s a \<noteq> None \<Longrightarrow> ok (keeps s) (SendUpdate a s')"
  by (rule put_then[OF _ ok_SendUpdate])

lemma keeps_same:
  assumes c: "core s" and g: "gs_heap s a = Some g"
    and same: "gp_refs g' = gp_refs g" "gp_invitees g' = gp_invitees g" "gp_bg g' = gp_bg g" "gp_leaderGuid g' = gp_leaderGuid g"
      "gp_raid g' = gp_raid g" "gp_members g' = gp_members g" "gp_subGroupsCounts g' = gp_subGroupsCounts g" "gp_rolls g' = gp_rolls g"
  shows "keeps s (put_party a g' s)"
  using party_coreD[OF c g] same slots_ok_cong[of g' g] rolls_ok_cong[of g' g] by (intro keeps_put[OF c g]) auto

lemma ok_SetAssistant [party_ok]:
  assumes c: "core s" and a: "gs_heap s a \<noteq> None"
  shows "ok (keeps s) (SetAssistant a h v s)"
proof -
  obtain g where g: "gs_heap s a = Some g" using a by blast
  let ?g = "g\<lparr>gp_members := on_slot h (\<lambda>m. m\<lparr>ms_assistant := v\<rparr>) (gp_members g)\<rparr>"
  have "slots_ok ?g" using party_coreD(2)[OF c g] by (intro slots_on_slot) simp_all
  then have k: "keeps s (put_party a ?g s)"
    using party_coreD(3)[OF c g] rolls_ok_cong[of ?g g] by (intro keeps_put[OF c g]) auto
  then show ?thesis using keeps_refl[OF c] ok_SendUpdate_after[OF _ a] by (simp add: SetAssistant_def g Let_def)
qed

lemma set_main_ends:
  assumes z: "\<not> is_member 0 g"
  shows "\<exists>ok g' sql. set_main tank h g = Some (ok, g', sql) \<and> g' = g\<lparr>gp_mainTank := gp_mainTank g', gp_mainAssistant := gp_mainAssistant g'\<rparr>"
proof -
  have zero: "set_main t 0 g = Some (False, g, [])" for t using z by (simp add: set_main.simps)
  show ?thesis by (simp add: set_main.simps[of tank h g] zero set_role_def Let_def) auto
qed

lemma slots_nonzero: "slots_ok g \<Longrightarrow> \<not> is_member 0 g"
  by (auto simp: slots_ok_def is_member_def list_ex_iff)

text \<open>The setters of the roles end, since no member has guid 0.\<close>

lemma ok_SetMain:
  assumes c: "core s" and a: "gs_heap s a \<noteq> None"
  shows "\<exists>r. SetMain tank a h s = Some r \<and> ok (keeps s) r"
proof -
  obtain g where g: "gs_heap s a = Some g" using a by blast
  obtain b g' sql where m: "set_main tank h g = Some (b, g', sql)"
    and g': "g' = g\<lparr>gp_mainTank := gp_mainTank g', gp_mainAssistant := gp_mainAssistant g'\<rparr>"
    using set_main_ends[OF slots_nonzero[OF party_coreD(2)[OF c g]]] by blast
  have "keeps s (put_party a (g\<lparr>gp_mainTank := gp_mainTank g', gp_mainAssistant := gp_mainAssistant g'\<rparr>) s)"
    by (rule keeps_same[OF c g]) simp_all
  then have k: "keeps s (put_party a g' s)" using g' by simp
  then show ?thesis using keeps_refl[OF c] ok_SendUpdate_after[OF _ a] by (simp add: SetMain_def g m Let_def)
qed

lemma ok_set_icon [party_ok]:
  assumes c: "core s" and a: "gs_heap s a \<noteq> None"
  shows "ok (keeps s) (set_icon a i h s)"
proof -
  obtain g where g: "gs_heap s a = Some g" using a by blast
  have k: "keeps s (put_party a (g\<lparr>gp_targetIcons := (gp_targetIcons g)[i := h]\<rparr>) s)" by (rule keeps_same[OF c g]) simp_all
  show ?thesis unfolding set_icon_def with_party_Some[OF g] by (rule put_then[OF k ok_Group_BroadcastPacket a])
qed

lemma ok_SetTargetIcon [party_ok]:
  assumes c: "core s" and a: "gs_heap s a \<noteq> None"
  shows "ok (keeps s) (SetTargetIcon a i h s)"
proof -
  have one: "ok (keeps s') (with_party a s' (\<lambda>g. if gp_targetIcons g ! j = h then set_icon a j 0 s' else Inr s'))"
    if "keeps s s'" for s' j
    using keeps_core[OF that] keeps_alive[OF that, of a] a by (auto intro!: party_ok keeps_refl)
  have "ok (keeps s) (and_then (if h \<noteq> 0
         then for_all (\<lambda>j s. with_party a s (\<lambda>g. if gp_targetIcons g ! j = h then set_icon a j 0 s else Inr s)) [0..<TARGETICONCOUNT] s
         else Inr s) (set_icon a (unat i) h))"
  proof (rule ok_keeps_bind)
    have "ok (keeps s) (for_all (\<lambda>j s. with_party a s (\<lambda>g. if gp_targetIcons g ! j = h then set_icon a j 0 s else Inr s)) [0..<TARGETICONCOUNT] s)"
      by (rule ok_keeps_for_all[OF c]) (rule one)
    then show "ok (keeps s) (if h \<noteq> 0
         then for_all (\<lambda>j s. with_party a s (\<lambda>g. if gp_targetIcons g ! j = h then set_icon a j 0 s else Inr s)) [0..<TARGETICONCOUNT] s
         else Inr s)" using keeps_refl[OF c] by simp
  next
    fix s' assume k: "keeps s s'"
    show "ok (keeps s') (set_icon a (unat i) h s')"
      by (rule ok_set_icon[OF keeps_core[OF k]]) (use keeps_alive[OF k, of a] a in simp)
  qed
  then show ?thesis using keeps_refl[OF c] by (simp add: SetTargetIcon_def)
qed

lemma ok_SendTargetIconList [party_ok]: "core s \<Longrightarrow> gs_heap s a \<noteq> None \<Longrightarrow> ok (keeps s) (SendTargetIconList a h s)"
  by (auto simp: SendTargetIconList_def keeps_refl)

lemma ok_UpdateLooterGuid [party_ok]:
  assumes c: "core s" and a: "gs_heap s a \<noteq> None"
  shows "ok (keeps s) (UpdateLooterGuid near a ifneed s)"
proof -
  obtain g where g: "gs_heap s a = Some g" using a by blast
  have "keeps s (put_party a (g\<lparr>gp_looterGuid := h\<rparr>) s)" for h by (rule keeps_same[OF c g]) simp_all
  then have "ok (keeps s) (SendUpdate a (put_party a (g\<lparr>gp_looterGuid := h\<rparr>) s))" for h by (rule put_then[OF _ ok_SendUpdate a])
  then show ?thesis using keeps_refl[OF c] by (simp add: UpdateLooterGuid_def g Let_def split: option.split)
qed

lemma ok_Group_SetDifficulty [party_ok]:
  assumes c: "core s" and a: "gs_heap s a \<noteq> None"
  shows "ok (keeps s) (Group_SetDifficulty a d s)"
proof -
  obtain g where g: "gs_heap s a = Some g" using a by blast
  have k: "keeps s (put_party a (g\<lparr>gp_difficulty := d\<rparr>) s)" by (rule keeps_same[OF c g]) simp_all
  have F: "keeps s (fold (\<lambda>(h, b) s. case FindPlayer (gs_world s) h True of
            Some player \<Rightarrow> if pl_level player < LEVELREQUIREMENT_HEROIC then s
              else glog [SendDungeonDifficulty h d] (s\<lparr>gs_difficulty := (gs_difficulty s)(h := d)\<rparr>)
          | None \<Rightarrow> s) xs s')" if "keeps s s'" for xs s'
    using that by (induction xs arbitrary: s') (auto split: option.split)
  define s1 where "s1 = (if \<not> gp_bg g then party_sql (UpdateDifficulty d (GUID_LOPART (gp_leaderGuid g)))
      (put_party a (g\<lparr>gp_difficulty := d\<rparr>) s) else put_party a (g\<lparr>gp_difficulty := d\<rparr>) s)"
  have "keeps s s1" using k by (simp add: s1_def)
  from F[OF this, of "gp_refs g"] show ?thesis
    unfolding s1_def by (cases "gp_bg g") (simp_all add: Group_SetDifficulty_def g Let_def)
qed

lemma ok_ConvertToRaid:
  assumes c: "core s" and g: "gs_heap s a = Some g" and mem: "gp_members g \<noteq> []"
  shows "ok (settled s) (ConvertToRaid a s)"
proof -
  let ?g = "g\<lparr>gp_raid := True\<rparr>"
  have "ok (recounted ?g) (initRaidSubGroupsCounter ?g)"
    using party_coreD(2)[OF c g] by (intro ok_initRaidSubGroupsCounter) (auto simp: slots_ok_def)
  then show ?thesis
    unfolding ConvertToRaid_def with_party_Some[OF g]
  proof (rule ok_bind)
    fix g1 assume g1: "recounted ?g g1"
    let ?x = "Some (gp_bg g, length (gp_members g), (gp_leaderGuid g, True), gp_invitees g)"
    have t: "turns a ?x s (put_party a g1 s)"
      using turns_put[OF c g, of g1] party_coreD(3)[OF c g] g1 rolls_ok_cong[of g1 g] by (simp add: recounted_def)
    define s1 where "s1 = (if \<not> gp_bg g1 then party_sql (UpdateRaid (GUID_LOPART (gp_leaderGuid g1))) (put_party a g1 s) else put_party a g1 s)"
    have t1: "turns a ?x s s1" using t by (simp add: s1_def)
    have "ok (keeps s1) (SendUpdate a s1)" by (rule ok_SendUpdate[OF turns_core[OF t1]]) (simp add: s1_def)
    then have "ok (settled s) (SendUpdate a s1)"
      by (rule ok_mono) (use mem turns_settled_pos[OF turns_keeps[OF t1]] in simp)
    then show "ok (settled s) (let s = put_party a g1 s
       in SendUpdate a (if \<not> gp_bg g1 then party_sql (UpdateRaid (GUID_LOPART (gp_leaderGuid g1))) s else s))"
      by (simp add: s1_def Let_def)
  qed
qed

lemma ok_ChangeLeader:
  assumes c: "core s" and a: "gs_heap s a \<noteq> None"
  shows "ok (settled s) (ChangeLeader a h s)"
proof -
  obtain g where g: "gs_heap s a = Some g" using a by blast
  show ?thesis
  proof (cases "getMemberSlot h g")
    case None
    then show ?thesis by (simp add: ChangeLeader_def g settled_refl[OF c])
  next
    case (Some m)
    then have mem: "length (gp_members g) \<noteq> 0" using getMemberSlot_in by fastforce
    show ?thesis
      unfolding ChangeLeader_def with_party_Some[OF g] Some option.case Let_def
    proof (rule ok_bind[OF ok_setLeader[OF c g]])
      fix s1 assume "\<exists>l. turns a (Some (gp_bg g, length (gp_members g), (l, gp_raid g), gp_invitees g)) s s1"
      then obtain l where t: "turns a (Some (gp_bg g, length (gp_members g), (l, gp_raid g), gp_invitees g)) s s1" by blast
      define s2 where "s2 = (if GetPlayer (gs_world s) (gp_leaderGuid g) \<noteq> None \<and> GetPlayer (gs_world s1) h \<noteq> None
        then glog [GHook ''OnGroupChangeLeader'' a] s1 else s1)"
      have t2: "turns a (Some (gp_bg g, length (gp_members g), (l, gp_raid g), gp_invitees g)) s s2" using t by (simp add: s2_def)
      have "ok (keeps s2) (and_then (Group_BroadcastPacket (leader_packet (ms_name m)) True None 0 a s2) (SendUpdate a))"
        using turns_core[OF t2] turns_view[OF t2] by (intro ok_keeps_bind party_ok) (auto dest!: keepsD)
      then have "ok (settled s) (and_then (Group_BroadcastPacket (leader_packet (ms_name m)) True None 0 a s2) (SendUpdate a))"
        by (rule ok_mono) (rule turns_settled_pos[OF turns_keeps[OF t2] mem])
      then show "ok (settled s) (and_then (Group_BroadcastPacket (leader_packet (ms_name m)) True None 0 a
          (if GetPlayer (gs_world s) (gp_leaderGuid g) \<noteq> None \<and> GetPlayer (gs_world s1) h \<noteq> None
           then glog [GHook ''OnGroupChangeLeader'' a] s1 else s1)) (SendUpdate a))"
        unfolding s2_def .
    qed
  qed
qed

section \<open>Loot\<close>

lemma keeps_loots:
  assumes c: "core s" and same: "gs_world s' = gs_world s" "gs_refs s' = gs_refs s" "gs_heap s' = gs_heap s"
    "gs_set s' = gs_set s" "gs_next s' = gs_next s" "gs_bgraid s' = gs_bgraid s" and len: "loot_len s' = loot_len s"
  shows "keeps s s'"
proof -
  have "sig s' = sig s" "refs_at s' = refs_at s" using same by (auto simp: sig_def refs_at_def fun_eq_iff)
  moreover from this have "frame s' = frame s" using same len by (simp add: frame_def)
  ultimately show ?thesis
    using party_coreD[OF c] same len by (auto simp: keeps_def intro!: core_cong[OF c])
qed

lemma keeps_set_item:
  assumes k: "keeps s s'"
  shows "keeps s (set_item l i f s')"
proof -
  have "keeps s' (set_item l i f s')"
    by (rule keeps_loots[OF keeps_core[OF k]]) (auto simp: set_item_def loot_len_def fun_eq_iff split: option.split)
  then show ?thesis by (rule keeps_trans[OF k])
qed

lemma loot_at_len: "loot_at l i s = Some it \<Longrightarrow> \<exists>n. loot_len s l = Some n \<and> i < n"
  by (auto simp: loot_at_def loot_len_def split: option.splits if_splits)

lemma loot_len_at: "loot_len s l = Some n \<Longrightarrow> i < n \<Longrightarrow> \<exists>it. loot_at l i s = Some it"
  by (auto simp: loot_at_def loot_len_def)

lemma new_roll_keeps:
  "ro_loot (new_roll env l i it voters) = Some l" "ro_itemSlot (new_roll env l i it voters) = of_nat i"
proof -
  have "ro_loot (fold (\<lambda>h r. r\<lparr>ro_playerVote := sm_set h ROLL_NOT_EMITED_YET (ro_playerVote r),
      ro_totalPlayersRolling := ro_totalPlayersRolling r + 1\<rparr>) vs r) = ro_loot r"
    "ro_itemSlot (fold (\<lambda>h r. r\<lparr>ro_playerVote := sm_set h ROLL_NOT_EMITED_YET (ro_playerVote r),
      ro_totalPlayersRolling := ro_totalPlayersRolling r + 1\<rparr>) vs r) = ro_itemSlot r" for vs and r :: roll
    by (induction vs arbitrary: r) auto
  then show "ro_loot (new_roll env l i it voters) = Some l" "ro_itemSlot (new_roll env l i it voters) = of_nat i"
    by (simp_all add: new_roll_def)
qed

lemma ok_push_roll:
  assumes k: "keeps s s'" and a: "gs_heap s a \<noteq> None" and n: "loot_len s l = Some n" and i: "i < n"
  shows "ok (keeps s) (push_roll a (new_roll env l i it voters) s')"
proof -
  have c: "core s'" by (rule keeps_core[OF k])
  obtain g where g: "gs_heap s' a = Some g" using keeps_Some[OF k a] by blast
  have len: "loot_len s' l = Some n" using keeps_frame[OF k] n by (simp add: frame_def)
  have "unat (of_nat i :: u8) \<le> i" by (simp add: unat_of_nat)
  then have "rolls_ok (loot_len s') (g\<lparr>gp_rolls := gp_rolls g @ [new_roll env l i it voters]\<rparr>)"
    using party_coreD(3)[OF c g] i len by (auto simp: rolls_ok_def new_roll_keeps)
  then have "keeps s' (put_party a (g\<lparr>gp_rolls := gp_rolls g @ [new_roll env l i it voters]\<rparr>) s')"
    using party_coreD(2)[OF c g] by (intro keeps_put[OF c g]) (auto simp: slots_ok_def)
  then show ?thesis using keeps_trans[OF k] by (simp add: push_roll_def g)
qed

lemma keeps_to_voters [simp]: "keeps s (to_voters p b r s') = keeps s s'"
  by (simp add: to_voters_def)

lemma keeps_votes [simp]:
  "keeps s (SendLootStartRoll n r s') = keeps s s'" "keeps s (SendLootRoll x y i j r s') = keeps s s'"
  "keeps s (SendLootRollWon x y i j r s') = keeps s s'" "keeps s (SendLootAllPassed k r s') = keeps s s'"
  by (simp_all add: SendLootStartRoll_def SendLootRoll_def SendLootRollWon_def SendLootAllPassed_def)

lemma ok_group_loot_item [party_ok]:
  assumes c: "core s" and a: "gs_heap s a \<noteq> None"
  shows "ok (keeps s) (group_loot_item env a l i s)"
proof -
  obtain g where g: "gs_heap s a = Some g" using a by blast
  show ?thesis
  proof (cases "loot_at l i s")
    case None
    then show ?thesis by (simp add: group_loot_item_def g keeps_refl[OF c])
  next
    case (Some it)
    obtain n where n: "loot_len s l = Some n" "i < n" using loot_at_len[OF Some] by blast
    have "ok (keeps s) (push_roll a (new_roll env l i it vs) s')" if "keeps s s'" for vs s' by (rule ok_push_roll[OF that a n])
    then show ?thesis
      using keeps_refl[OF c] by (auto simp: group_loot_item_def g Some Let_def keeps_set_item split: option.split)
  qed
qed

lemma ok_need_before_greed_item [party_ok]:
  assumes c: "core s" and a: "gs_heap s a \<noteq> None" and q: "\<And>i. le_quality env i \<noteq> None"
  shows "ok (keeps s) (need_before_greed_item env a l i s)"
proof -
  obtain g where g: "gs_heap s a = Some g" using a by blast
  show ?thesis
  proof (cases "loot_at l i s")
    case None
    then show ?thesis by (simp add: need_before_greed_item_def g keeps_refl[OF c])
  next
    case (Some it)
    obtain n where n: "loot_len s l = Some n" "i < n" using loot_at_len[OF Some] by blast
    have "ok (keeps s) (push_roll a (new_roll env l i it vs) s')" if "keeps s s'" for vs s' by (rule ok_push_roll[OF that a n])
    then show ?thesis
      using keeps_refl[OF c] q[of "li_itemid it"]
      by (auto simp: need_before_greed_item_def g Some Let_def keeps_set_item split: option.split)
  qed
qed

lemma ok_start_rolls:
  assumes c: "core s" and a: "gs_heap s a \<noteq> None" and p: "GetPlayer (gs_world s) h \<noteq> None"
  shows "ok (keeps s) (GroupLoot env a h l s)"
    and "(\<And>i. le_quality env i \<noteq> None) \<Longrightarrow> ok (keeps s) (NeedBeforeGreed env a h l s)"
  using p a by (auto simp: GroupLoot_def NeedBeforeGreed_def intro!: ok_keeps_for_all[OF c] party_ok dest!: keepsD)

lemma ok_MasterLoot [party_ok]:
  assumes c: "core s" and a: "gs_heap s a \<noteq> None"
  shows "ok (keeps s) (MasterLoot env a h l s)"
proof -
  obtain g where g: "gs_heap s a = Some g" using a by blast
  have "keeps s (s\<lparr>gs_loots := (gs_loots s)(l := Some x)\<rparr>)" if "gs_loots s l = Some lo" "length (lo_items x) = length (lo_items lo)" for lo x
    using that by (intro keeps_loots[OF c]) (auto simp: loot_len_def fun_eq_iff)
  then show ?thesis
    using keeps_refl[OF c] by (auto simp: MasterLoot_def g Let_def split: option.split)
qed

lemma keeps_loot_len: "keeps s s' \<Longrightarrow> loot_len s' = loot_len s"
  by (simp add: keeps_def frame_def)

lemma keeps_unlooted:
  assumes k: "keeps s s'" and lo: "gs_loots s' l = Some lo" and len: "length (lo_items x) = length (lo_items lo)"
  shows "keeps s (s'\<lparr>gs_loots := (gs_loots s')(l := Some x)\<rparr>)"
proof -
  have "keeps s' (s'\<lparr>gs_loots := (gs_loots s')(l := Some x)\<rparr>)"
    by (rule keeps_loots[OF keeps_core[OF k]]) (use lo len in \<open>auto simp: loot_len_def fun_eq_iff\<close>)
  then show ?thesis by (rule keeps_trans[OF k])
qed

lemma ok_award:
  assumes k: "keeps s s'" and n: "loot_len s l = Some n" "unat (ro_itemSlot r) < n"
  shows "ok (keeps s) (award env h r l s')"
proof -
  obtain it where it: "loot_at l (unat (ro_itemSlot r)) s' = Some it"
    using loot_len_at[of s' l n] n by (auto simp: keeps_loot_len[OF k])
  have f: "keeps s (set_item l i f s')" for i f by (rule keeps_set_item[OF k])
  show ?thesis
    unfolding award_def it option.case
    using k f keeps_unlooted[OF f] by (auto simp: Let_def split: option.split)
qed

lemma ok_decide:
  assumes k: "keeps s s'" and n: "loot_len s l = Some n" "unat (ro_itemSlot r) < n"
  shows "ok (keeps s) (decide env v code r l s')"
proof -
  have "keeps s (fold (\<lambda>x. SendLootRoll 0 (fst x) (m x) code r) xs s')" for m xs
    using k by (induction xs arbitrary: s') auto
  then show ?thesis
    using k by (auto simp: decide_def Let_def split: prod.split intro!: ok_award[OF _ n])
qed

lemma ok_unblock:
  assumes k: "keeps s s'" and n: "loot_len s l = Some n" "unat (ro_itemSlot r) < n"
  shows "ok (keeps s) (unblock r l s')"
proof -
  have "loot_len s' l = Some n" using n keeps_loot_len[OF k] by simp
  then obtain lo where "gs_loots s' l = Some lo" "length (lo_items lo) = n" by (auto simp: loot_len_def)
  then show ?thesis using n keeps_set_item[OF k] by (simp add: unblock_def Let_def)
qed

lemma rolls_ok_subset: "rolls_ok L g \<Longrightarrow> set (gp_rolls g') \<subseteq> set (gp_rolls g) \<Longrightarrow> rolls_ok L g'"
  by (auto simp: rolls_ok_def)

lemma ok_erase_roll:
  assumes k: "keeps s s'" and a: "gs_heap s a \<noteq> None"
  shows "ok (keeps s) (erase_roll a p s')"
proof -
  have c: "core s'" by (rule keeps_core[OF k])
  obtain g where g: "gs_heap s' a = Some g" using keeps_Some[OF k a] by blast
  have "set (take p (gp_rolls g) @ drop (Suc p) (gp_rolls g)) \<subseteq> set (gp_rolls g)"
    using set_take_subset[of p "gp_rolls g"] set_drop_subset[of "Suc p" "gp_rolls g"] by auto
  then have "rolls_ok (loot_len s') (g\<lparr>gp_rolls := take p (gp_rolls g) @ drop (Suc p) (gp_rolls g)\<rparr>)"
    by (intro rolls_ok_subset[OF party_coreD(3)[OF c g]]) simp
  then have "keeps s' (put_party a (g\<lparr>gp_rolls := take p (gp_rolls g) @ drop (Suc p) (gp_rolls g)\<rparr>) s')"
    using party_coreD(2)[OF c g] by (intro keeps_put[OF c g]) (auto simp: slots_ok_def)
  then show ?thesis using keeps_trans[OF k] by (simp add: erase_roll_def g)
qed

lemma ok_CountTheRoll:
  assumes k: "keeps s s'" and g: "gs_heap s' a = Some g" and p: "p < length (gp_rolls g)" and a: "gs_heap s a \<noteq> None"
  shows "ok (keeps s) (CountTheRoll env a p N s')"
proof -
  let ?r = "gp_rolls g ! p"
  show ?thesis
  proof (cases "ro_loot ?r")
    case None
    then show ?thesis using ok_erase_roll[OF k a] by (simp add: CountTheRoll_def g Let_def)
  next
    case (Some l)
    show ?thesis
    proof (cases "roll_valid ?r s'")
      case False
      then show ?thesis using ok_erase_roll[OF k a] Some by (simp add: CountTheRoll_def g Let_def)
    next
      case True
      then obtain n where n: "loot_len s' l = Some n" using Some by (auto simp: roll_valid_def loot_len_def)
      have slot: "unat (ro_itemSlot ?r) < n"
        using party_coreD(3)[OF keeps_core[OF k] g] p Some n unfolding rolls_ok_def by (meson nth_mem)
      have n': "loot_len s l = Some n" using n keeps_loot_len[OF k] by simp
      have ka: "keeps s (SendLootAllPassed N ?r s')" using k by simp
      have out: "ok (keeps s) (if ro_totalNeed ?r > 0 then decide env ROLL_NEED 1 ?r l s'
                           else if ro_totalGreed ?r > 0 then decide env ROLL_GREED 2 ?r l s'
                           else unblock ?r l (SendLootAllPassed N ?r s'))"
        using ok_decide[OF k n' slot] ok_unblock[OF ka n' slot] by simp
      show ?thesis
        unfolding CountTheRoll_def with_party_Some[OF g] Let_def Some option.case if_not_P[OF True[THEN not_not[THEN iffD2]]]
        by (rule ok_bind[OF out]) (rule ok_erase_roll[OF _ a])
    qed
  qed
qed

lemma roll_index_less: "roll_index item s rs = Some p \<Longrightarrow> p < length rs"
  by (induction rs arbitrary: p) (auto split: if_splits)

lemma cast_vote_keeps [simp]: "ro_loot (cast_vote ch h r) = ro_loot r" "ro_itemSlot (cast_vote ch h r) = ro_itemSlot r"
  by (simp_all add: cast_vote_def)

lemma keeps_tell_vote [simp]: "keeps s (tell_vote ch h r s') = keeps s s'"
  by (simp add: tell_vote_def)

lemma tell_vote_heap [simp]: "gs_heap (tell_vote ch h r s) = gs_heap s"
  by (simp add: tell_vote_def SendLootRoll_def to_voters_def)

lemma ok_CountRollVote [party_ok]:
  assumes c: "core s" and a: "gs_heap s a \<noteq> None"
  shows "ok (keeps s) (CountRollVote env a h item N ch s)"
proof -
  obtain g where g: "gs_heap s a = Some g" using a by blast
  show ?thesis
  proof (cases "roll_index item s (gp_rolls g)")
    case None
    then show ?thesis by (simp add: CountRollVote_def g keeps_refl[OF c])
  next
    case (Some p)
    have p: "p < length (gp_rolls g)" by (rule roll_index_less[OF Some])
    let ?r = "cast_vote ch h (gp_rolls g ! p)" and ?s = "tell_vote ch h (gp_rolls g ! p) s"
    let ?g = "g\<lparr>gp_rolls := (gp_rolls g)[p := cast_vote ch h (gp_rolls g ! p)]\<rparr>"
    have k1: "keeps s ?s" using keeps_refl[OF c] by simp
    have c1: "core ?s" by (rule keeps_core[OF k1])
    have g1: "gs_heap ?s a = Some g" using g by simp
    have "rolls_ok (loot_len ?s) ?g"
      using party_coreD(3)[OF c1 g1] p by (auto simp: rolls_ok_def dest!: set_update_subset_insert[THEN subsetD])
    then have "keeps ?s (put_party a ?g ?s)" using party_coreD(2)[OF c1 g1] by (intro keeps_put[OF c1 g1]) (auto simp: slots_ok_def)
    then have k: "keeps s (put_party a ?g ?s)" by (rule keeps_trans[OF k1])
    have "ok (keeps s) (CountTheRoll env a p N (put_party a ?g ?s))"
      by (rule ok_CountTheRoll[OF k, of a ?g]) (use p a in simp_all)
    then show ?thesis
      using k keeps_refl[OF c] by (simp add: CountRollVote_def g Some Let_def)
  qed
qed

section \<open>Handlers\<close>

lemma ok_HandleGroupDecline:
  assumes c: "core s" and f: "formed s" and r: "HandleGroupDeclineOpcode me s b = Inr r"
  shows "ok (settled s) r"
proof (cases "gr_invite (gs_refs s (pl_guid me))")
  case None
  then show ?thesis using r settled_refl[OF c] by (auto simp: HandleGroupDeclineOpcode_def)
next
  case (Some a)
  obtain g where g: "gs_heap s a = Some g" using core_invite[OF c Some] by blast
  have "ok (settled s) (and_then (UninviteFromGroup (pl_guid me) s) (\<lambda>s'.
           Inr (case FindPlayer (gs_world s) (gp_leaderGuid g) True of
                  None \<Rightarrow> s'
                | Some leader \<Rightarrow> glog [GSend (pl_guid leader) (put (WorldPacket_new SMSG_GROUP_DECLINE)
                                   (enc_string (c_str (pl_name me))))] s')))"
    by (rule ok_bind[OF ok_Uninvite_settled[OF c f]]) (simp split: option.split)
  then show ?thesis using r Some g by (auto simp: HandleGroupDeclineOpcode_def)
qed

text \<open>A handler answers: whatever the packet, when it can be read the call succeeds and the invariant holds again.\<close>

definition answers :: "group_server \<Rightarrow> party_handler \<Rightarrow> bool" where
  "answers s h \<longleftrightarrow> (\<forall>b r. h b = Inr r \<longrightarrow> ok (settled s) r)"

named_theorems answer "how handlers are put together"

lemma answers_rd [answer]: "(\<And>x. answers s (k x)) \<Longrightarrow> answers s (rd f k)"
  by (auto simp: answers_def rd_Inr)

lemma answers_done [answer]: "(\<And>b. ok (settled s) (r b)) \<Longrightarrow> answers s (\<lambda>b. Inr (r b))"
  by (simp add: answers_def)

lemma answers_if [answer]: "(c \<Longrightarrow> answers s h) \<Longrightarrow> (\<not> c \<Longrightarrow> answers s h') \<Longrightarrow> answers s (if c then h else h')"
  by simp

lemma answers_in_group [answer]:
  assumes c: "core s" and k: "\<And>a g. gs_heap s a = Some g \<Longrightarrow> gr_group (gs_refs s (pl_guid me)) = Some a \<Longrightarrow> answers s (k a g)"
  shows "answers s (in_group me s k)"
  using k core_group[OF c, of "pl_guid me"] settled_refl[OF c] by (auto simp: answers_def in_group_def split: option.splits)

lemma keeps_answer [answer]: "ok (keeps s) r \<Longrightarrow> ok (settled s) r"
  by (rule keeps_ok_settled)

lemma SendPartyResult_settled [simp]:
  "settled s (SendPartyResult x op n e s') = settled s s'" "keeps s (SendPartyResult x op n e s') = keeps s s'"
  by (simp_all add: SendPartyResult_def)

lemma answers_Decline [answer]: "core s \<Longrightarrow> formed s \<Longrightarrow> answers s (HandleGroupDeclineOpcode me s)"
  using ok_HandleGroupDecline by (simp add: answers_def)

lemma answers_LootMethod [answer]:
  assumes c: "core s"
  shows "answers s (HandleLootMethodOpcode me s)"
  unfolding HandleLootMethodOpcode_def
proof (intro answer c)
  fix m th :: u32 and lm a g assume g: "gs_heap s a = Some g"
  have a: "gs_heap s a \<noteq> None" using g by simp
  have "keeps s (put_party a (g\<lparr>gp_lootMethod := ucast m, gp_masterLooterGuid := lm, gp_lootThreshold := ucast th\<rparr>) s)"
    by (rule keeps_same[OF c g]) simp_all
  then show "ok (keeps s) (if \<not> IsLeader (pl_guid me) g \<or> m > 4 \<or> th < 2 \<or> th > 6 then Inr s
      else if m = 2 \<and> \<not> is_member lm g then Inr s
      else SendUpdate a (put_party a (g\<lparr>gp_lootMethod := ucast m, gp_masterLooterGuid := lm, gp_lootThreshold := ucast th\<rparr>) s))"
    using ok_SendUpdate_after[OF _ a] keeps_refl[OF c] by simp
qed

lemma answers_simple [answer]:
  assumes c: "core s"
  shows "answers s (HandleLootRoll lenv me s)" "answers s (HandleMinimapPingOpcode me s)" "answers s (HandleRandomRollOpcode env me s)"
    "answers s (HandleRaidIconTargetOpcode me s)" "answers s (HandleGroupAssistantOpcode me s)"
    "answers s (HandleRaidReadyCheckOpcode me s)" "answers s (HandleGroupPassOnLootOpcode me s)"
proof -
  note r = keeps_refl[OF c]
  show "answers s (HandleLootRoll lenv me s)"
    unfolding HandleLootRoll_def by (intro answer ok_CountRollVote c) auto
  show "answers s (HandleMinimapPingOpcode me s)"
    unfolding HandleMinimapPingOpcode_def by (intro answer party_ok c) auto
  show "answers s (HandleRandomRollOpcode env me s)"
    unfolding HandleRandomRollOpcode_def Let_def
    using core_group[OF c] r by (intro answer) (auto intro!: answer party_ok c split: option.split)
  show "answers s (HandleRaidIconTargetOpcode me s)"
    unfolding HandleRaidIconTargetOpcode_def using r by (intro answer party_ok c) auto
  show "answers s (HandleGroupAssistantOpcode me s)"
    unfolding HandleGroupAssistantOpcode_def using r by (intro answer c) (auto intro!: party_ok c)
  show "answers s (HandleRaidReadyCheckOpcode me s)"
    unfolding HandleRaidReadyCheckOpcode_def
  proof (intro answers_in_group[OF c])
    fix a g assume g: "gs_heap s a = Some g"
    have "ok (keeps s) (and_then (Group_BroadcastPacket p False None 0 a s) (OfflineReadyCheck a))" for p
      using g by (intro ok_keeps_bind party_ok c) (auto dest!: keepsD)
    then have asked: "ok (settled s) (if \<not> IsLeader (pl_guid me) g \<and> \<not> IsAssistant (pl_guid me) g then Inr s
        else and_then (Group_BroadcastPacket p False None 0 a s) (OfflineReadyCheck a))" for p
      using r by (intro keeps_ok_settled) simp
    have told: "answers s (rd (read_int False 1) (\<lambda>state b. Inr (BroadcastReadyCheck (f state) a s)))" for f :: "u8 \<Rightarrow> packet"
      using g by (intro answer party_ok c) simp
    show "answers s (\<lambda>b. if length (storage b) = 0
     then Inr (if \<not> IsLeader (pl_guid me) g \<and> \<not> IsAssistant (pl_guid me) g then Inr s
               else and_then (Group_BroadcastPacket (put (WorldPacket_new MSG_RAID_READY_CHECK) (enc_u64 (pl_guid me)))
                                False None 0 a s) (OfflineReadyCheck a))
     else rd (read_int False 1) (\<lambda>state b.
            Inr (BroadcastReadyCheck (put (WorldPacket_new MSG_RAID_READY_CHECK_CONFIRM) (enc_u64 (pl_guid me) @ enc_u8 state)) a s)) b)"
      unfolding answers_def
    proof (intro allI impI)
      fix b x
      assume x: "(if length (storage b) = 0
     then Inr (if \<not> IsLeader (pl_guid me) g \<and> \<not> IsAssistant (pl_guid me) g then Inr s
               else and_then (Group_BroadcastPacket (put (WorldPacket_new MSG_RAID_READY_CHECK) (enc_u64 (pl_guid me)))
                                False None 0 a s) (OfflineReadyCheck a))
     else rd (read_int False 1) (\<lambda>state b.
            Inr (BroadcastReadyCheck (put (WorldPacket_new MSG_RAID_READY_CHECK_CONFIRM) (enc_u64 (pl_guid me) @ enc_u8 state)) a s)) b) = Inr x"
      show "ok (settled s) x"
      proof (cases "length (storage b) = 0")
        case True
        then show ?thesis using x asked by auto
      next
        case False
        then show ?thesis using x told[unfolded answers_def, rule_format] by simp
      qed
    qed
  qed
  show "answers s (HandleGroupPassOnLootOpcode me s)"
    unfolding HandleGroupPassOnLootOpcode_def using r by (intro answer) simp
qed

lemma answers_leader [answer]:
  assumes c: "core s"
  shows "answers s (HandleGroupSetLeaderOpcode me s)" "answers s (HandleGroupLeaveOpcode env me s)"
    "answers s (HandleRaidConvertOpcode env me s)" "answers s (HandleGroupSwapSubGroupOpcode me s)"
proof -
  note r = settled_refl[OF c]
  show "answers s (HandleGroupSetLeaderOpcode me s)"
    unfolding HandleGroupSetLeaderOpcode_def using r
    by (intro answers_in_group[OF c] answers_rd answers_done) (auto intro!: ok_ChangeLeader[OF c])
  show "answers s (HandleGroupLeaveOpcode env me s)"
    unfolding HandleGroupLeaveOpcode_def
  proof (intro answers_in_group[OF c] answers_done)
    fix a g assume g: "gs_heap s a = Some g"
    let ?s = "SendPartyResult (pl_guid me) PARTY_OP_LEAVE (c_str (pl_name me)) PARTY_RESULT_OK s"
    have "ok (settled ?s) (RemoveFromGroup (Some a) (pl_guid me) GROUP_REMOVEMETHOD_DEFAULT ?s)"
      by (rule ok_RemoveFromGroup) (use c g in \<open>auto simp: SendPartyResult_def\<close>)
    then show "ok (settled s) (if pe_in_bg env (pl_guid me)
       then Inr (SendPartyResult (pl_guid me) PARTY_OP_INVITE '''' PARTY_RESULT_INVITE_RESTRICTED s)
       else RemoveFromGroup (Some a) (pl_guid me) GROUP_REMOVEMETHOD_DEFAULT ?s)"
      using r by (simp add: SendPartyResult_def)
  qed
  show "answers s (HandleRaidConvertOpcode env me s)"
    unfolding HandleRaidConvertOpcode_def
  proof (intro answers_in_group[OF c] answers_done)
    fix a g assume g: "gs_heap s a = Some g"
    let ?s = "SendPartyResult (pl_guid me) PARTY_OP_INVITE '''' PARTY_RESULT_OK s"
    have cs: "core ?s" "gs_heap ?s a = Some g" using c g by (simp_all add: SendPartyResult_def)
    show "ok (settled s) (if pe_in_bg env (pl_guid me) then Inr s
     else if \<not> IsLeader (pl_guid me) g \<or> length (gp_members g) < 2 then Inr s else ConvertToRaid a ?s)"
      using ok_ConvertToRaid[OF cs] r by (cases "gp_members g") (auto simp: SendPartyResult_def)
  qed
  show "answers s (HandleGroupSwapSubGroupOpcode me s)"
    unfolding HandleGroupSwapSubGroupOpcode_def
  proof (intro answers_in_group[OF c] answers_rd answers_done)
    fix n1 n2 a g assume g: "gs_heap s a = Some g"
    have sub: "unat k < 8" if "slot_info n g = Some (k, h)" for n k h
      using that party_coreD(2)[OF c g] by (auto simp: slot_info_def slots_ok_def find_Some_iff)
    have "ok (keeps s) (and_then (ChangeMembersGroup a h1 k2 s) (ChangeMembersGroup a h2 k1))"
      if "unat k1 < 8" "unat k2 < 8" for h1 h2 k1 k2
      using that g by (intro ok_keeps_bind party_ok c) (auto dest!: keepsD)
    then show "ok (settled s) (if \<not> gp_raid g \<or> \<not> IsLeader (pl_guid me) g \<and> \<not> IsAssistant (pl_guid me) g then Inr s
       else case (slot_info n1 g, slot_info n2 g) of
              (Some (k1, h1), Some (k2, h2)) \<Rightarrow>
                if k1 = k2 then Inr s
                else and_then (ChangeMembersGroup a h1 k2 s) (ChangeMembersGroup a h2 k1)
            | _ \<Rightarrow> Inr s)"
      using r sub[of n1] sub[of n2] by (auto intro!: keeps_ok_settled split: option.split)
  qed
qed

lemma ok_uninvite:
  assumes c: "core s" and f: "formed s" and g: "gs_heap s a = Some g" and p: "ok (\<lambda>_. True) pending"
  shows "ok (settled s) (uninvite x a h pending n s)"
proof (cases h)
  case None
  have "ok (settled s) (and_then pending (\<lambda>p'. case p' of Some p \<Rightarrow> UninviteFromGroup p s
      | None \<Rightarrow> Inr (SendPartyResult x PARTY_OP_LEAVE n PARTY_RESULT_NOT_IN_YOUR_PARTY s)))"
    by (rule ok_bind[OF p]) (use settled_refl[OF c] ok_Uninvite_settled[OF c f] in \<open>simp split: option.split\<close>)
  with None show ?thesis by (simp add: uninvite_def)
next
  case (Some k)
  have "ok (settled s) (RemoveFromGroup (Some a) k GROUP_REMOVEMETHOD_KICK s)"
    by (rule ok_RemoveFromGroup[OF c]) (use g in auto)
  with Some show ?thesis by (simp add: uninvite_def)
qed

lemma ok_permitted:
  assumes c: "core s" and k: "\<And>a g. gs_heap s a = Some g \<Longrightarrow> ok (settled s) (k a g)"
  shows "ok (settled s) (permitted env x s k)"
proof (cases "gr_group (gs_refs s x)")
  case None
  then show ?thesis using settled_refl[OF c] by (simp add: permitted_def CanUninviteFromGroup_def)
next
  case (Some a)
  obtain g where g: "gs_heap s a = Some g" using core_group[OF c Some] by blast
  show ?thesis using settled_refl[OF c] k[OF g] Some g by (simp add: permitted_def CanUninviteFromGroup_def)
qed

lemma answers_uninvite [answer]:
  assumes c: "core s" and f: "formed s"
  shows "answers s (HandleGroupUninviteGuidOpcode env me s)" "answers s (HandleGroupUninviteNameOpcode env me s)"
proof -
  note r = settled_refl[OF c]
  have looked: "ok (\<lambda>_. True) (GetInvited a h s)" "ok (\<lambda>_. True) (GetInvited_name a n s)" if "gs_heap s a = Some g" for a g h n
    using ok_GetInvited(1)[OF c that, of h] ok_GetInvited(2)[OF c that, of n] by (auto simp: ok_Inr_iff)
  show "answers s (HandleGroupUninviteGuidOpcode env me s)"
    unfolding HandleGroupUninviteGuidOpcode_def
  proof (intro answers_rd answers_done)
    fix h
    have "ok (settled s) (permitted env (pl_guid me) s (\<lambda>a g.
        if IsLeader h g then Inr (SendPartyResult (pl_guid me) PARTY_OP_LEAVE '''' PARTY_RESULT_YOU_NOT_LEADER s)
        else uninvite (pl_guid me) a (if is_member h g then Some h else None) (GetInvited a h s) '''' s))"
      using r by (intro ok_permitted[OF c]) (auto intro!: ok_uninvite[OF c f] looked)
    then show "ok (settled s) (if h = pl_guid me then Inr s else permitted env (pl_guid me) s (\<lambda>a g.
        if IsLeader h g then Inr (SendPartyResult (pl_guid me) PARTY_OP_LEAVE '''' PARTY_RESULT_YOU_NOT_LEADER s)
        else uninvite (pl_guid me) a (if is_member h g then Some h else None) (GetInvited a h s) '''' s))"
      using r by simp
  qed
  show "answers s (HandleGroupUninviteNameOpcode env me s)"
    unfolding HandleGroupUninviteNameOpcode_def
  proof (intro answers_rd answers_done)
    fix nm
    have "ok (settled s) (permitted env (pl_guid me) s (\<lambda>a g. let h = GetMemberGUID n g
       in if h \<noteq> 0 \<and> IsLeader h g then Inr (SendPartyResult (pl_guid me) PARTY_OP_LEAVE '''' PARTY_RESULT_YOU_NOT_LEADER s)
          else uninvite (pl_guid me) a (if h \<noteq> 0 then Some h else None) (GetInvited_name a n s) n s))" for n
      using r by (intro ok_permitted[OF c]) (auto simp: Let_def intro!: ok_uninvite[OF c f] looked)
    then show "ok (settled s) (case pe_norm env nm of None \<Rightarrow> Inr s
       | Some n \<Rightarrow> if c_str (pl_name me) = n then Inr s
         else permitted env (pl_guid me) s (\<lambda>a g. let h = GetMemberGUID n g
       in if h \<noteq> 0 \<and> IsLeader h g then Inr (SendPartyResult (pl_guid me) PARTY_OP_LEAVE '''' PARTY_RESULT_YOU_NOT_LEADER s)
          else uninvite (pl_guid me) a (if h \<noteq> 0 then Some h else None) (GetInvited_name a n s) n s))"
      using r by (simp split: option.split)
  qed
qed

subsection \<open>Invitations and new groups\<close>

text \<open>A new object at the next address, to which nothing points.\<close>

definition new_party :: "group_server \<Rightarrow> group_server" where
  "new_party s = put_party (gs_next s) Group_new (s\<lparr>gs_next := gs_next s + 1\<rparr>)"

lemma new_party_sel:
  "gs_world (new_party s) = gs_world s" "gs_refs (new_party s) = gs_refs s" "gs_set (new_party s) = gs_set s"
  "gs_heap (new_party s) = (gs_heap s)(gs_next s \<mapsto> Group_new)" "gs_next (new_party s) = Suc (gs_next s)"
  "gs_bgraid (new_party s) = gs_bgraid s" "gs_loots (new_party s) = gs_loots s"
  by (simp_all add: new_party_def)

lemma core_new:
  assumes c: "core s"
  shows "core (new_party s)" and "sig (new_party s) = (sig s)(gs_next s \<mapsto> (False, 0, (0, False), []))"
proof -
  let ?s = "new_party s"
  have fresh: "gs_heap s (gs_next s) = None" by (rule core_fresh[OF c])
  show sig: "sig ?s = (sig s)(gs_next s \<mapsto> (False, 0, (0, False), []))"
    by (auto simp: sig_def new_party_sel Group_new_def fun_eq_iff)
  have at: "refs_at ?s = refs_at s" using fresh by (auto simp: refs_at_def new_party_sel Group_new_def fun_eq_iff)
  have "sig s (gs_next s) = None" using fresh by simp
  then have inv: "invited_at ?s = invited_at s" by (auto simp: invited_at_def sig fun_eq_iff simp del: sig_None)
  have old: "plain s a \<Longrightarrow> plain ?s a" for a using fresh by (auto simp: plain_Some new_party_sel)
  have len: "loot_len ?s = loot_len s" by (simp add: loot_len_def new_party_sel fun_eq_iff)
  have "links_ok ?s" by (rule links_ok_view[OF c _ at]) (simp_all add: new_party_sel)
  moreover have "invites_ok ?s"
  proof -
    have "invites_ok s" using c by (simp add: core_def)
    then show ?thesis by (auto simp: invites_ok_def inv sig new_party_sel connected_def)
  qed
  moreover have "raids_ok ?s"
  proof -
    have R: "raids_ok s" using c by (simp add: core_def)
    moreover have "gs_bgraid s k \<noteq> Some (gs_next s)" for k
      using R[unfolded raids_ok_def, THEN conjunct1, rule_format, of k "gs_next s"] fresh by (auto simp: sig_def)
    ultimately show ?thesis using old by (auto simp: raids_ok_def sig new_party_sel)
  qed
  moreover have "a < Suc (gs_next s) \<and> slots_ok g \<and> rolls_ok (loot_len s) g" if "gs_heap ?s a = Some g" for a g
    using that party_coreD[OF c, of a g] by (auto simp: new_party_sel Group_new_def slots_ok_def rolls_ok_def split: if_splits)
  ultimately show "core ?s" using core_subs[OF c] by (auto simp: core_def new_party_sel len)
qed

lemma formed_new:
  assumes c: "core s" and f: "formed s" and t: "turns (gs_next s) (Some x) (new_party s) s'" and x: "seat_ok x"
  shows "settled s s'"
proof -
  have "gs_next s \<notin> set (gs_set s)" using f core_fresh[OF c] by (auto simp: formed_def sig_def)
  moreover have "sig s' = (sig s)(gs_next s \<mapsto> x)" using t core_new(2)[OF c] by (simp add: turns_def)
  moreover have "gs_set s' = gs_set s" "gs_world s' = gs_world s" "core s'" "gs_bgraid s' = gs_bgraid s"
    using t by (simp_all add: turns_def new_party_sel)
  ultimately show ?thesis using formed_upd[of s s' "gs_next s" x] x f by (simp add: settled_def)
qed

lemma settled_delete_new:
  assumes c: "core s" and t: "turns (gs_next s) (Some (bg, n, l, [])) (new_party s) s'"
  shows "settled s (delete_party (gs_next s) s')"
proof -
  obtain g where g: "gs_heap s' (gs_next s) = Some g" "gp_invitees g = []" using turns_view[OF t] by blast
  have "sig s' = (sig s)(gs_next s \<mapsto> (bg, n, l, []))" "gs_set s' = gs_set s" "gs_world s' = gs_world s" "gs_bgraid s' = gs_bgraid s"
    using t core_new(2)[OF c] by (simp_all add: turns_def new_party_sel)
  moreover have "(sig s)(gs_next s := None) = sig s" using core_fresh[OF c] by (auto simp: fun_eq_iff sig_def)
  ultimately have "sig (delete_party (gs_next s) s') = sig s" "gs_set (delete_party (gs_next s) s') = gs_set s"
    "gs_world (delete_party (gs_next s) s') = gs_world s" "gs_bgraid (delete_party (gs_next s) s') k = Some c \<Longrightarrow> gs_bgraid s k = Some c" for k c
    using core_delete[OF turns_core[OF t] g] by auto
  moreover from this have "formed (delete_party (gs_next s) s')" if f: "formed s"
    by (intro formedI[OF f]) (simp_all only: formedD[OF f] simp_thms)
  ultimately show ?thesis using core_delete(1)[OF turns_core[OF t] g] by (simp add: settled_def)
qed

lemma ok_invite_new:
  assumes c: "core s" and f: "formed s" and me: "connected (pl_guid me) s" and p: "connected (pl_guid player) s"
  shows "ok (settled s) (invite_new me player n s)"
proof -
  let ?s = "new_party s" and ?a = "gs_next s"
  have c0: "core ?s" by (rule core_new(1)[OF c])
  have g0: "gs_heap ?s ?a = Some Group_new" by (simp add: new_party_sel)
  have bg0: "\<not> gp_bg Group_new" by (simp add: Group_new_def)
  have me0: "connected (pl_guid me) ?s" using me by (simp add: connected_def new_party_sel)
  have t0: "turns ?a (Some (False, 0, (0, False), [])) ?s ?s" using turns_refl[OF c0 g0] by (simp add: Group_new_def)
  have "ok (settled s) (and_then (AddLeaderInvite ?a me ?s) (\<lambda>(ok, s).
           if \<not> ok then Inr (delete_party ?a s)
           else and_then (AddInvite ?a (pl_guid player) False s) (\<lambda>(ok, s).
             if \<not> ok then and_then (RemoveAllInvites ?a s) (\<lambda>s. Inr (delete_party ?a s))
             else Inr (invited me player n s))))"
  proof (rule ok_bind2[OF ok_AddLeaderInvite[OF c0 g0 bg0 me0]])
    fix b s1
    assume b: "if b then turns ?a (Some (False, length (gp_members Group_new), (pl_guid me, gp_raid Group_new),
        List.insert (pl_guid me) (gp_invitees Group_new))) ?s s1 else s1 = ?s"
    show "ok (settled s) (if \<not> b then Inr (delete_party ?a s1)
           else and_then (AddInvite ?a (pl_guid player) False s1) (\<lambda>(ok, s).
             if \<not> ok then and_then (RemoveAllInvites ?a s) (\<lambda>s. Inr (delete_party ?a s))
             else Inr (invited me player n s)))"
    proof (cases b)
      case False
      then show ?thesis using b settled_delete_new[OF c t0] by simp
    next
      case True
      with b have t1: "turns ?a (Some (False, 0, (pl_guid me, False), [pl_guid me])) ?s s1" by (simp add: Group_new_def)
      have c1: "core s1" by (rule turns_core[OF t1])
      obtain g1 where g1: "gs_heap s1 ?a = Some g1" "\<not> gp_bg g1" "length (gp_members g1) = 0" "lead g1 = (pl_guid me, False)"
        "gp_invitees g1 = [pl_guid me]" using turns_view[OF t1] by auto
      have p1: "connected (pl_guid player) s1" using p t1 by (simp add: turns_def connected_def new_party_sel)
      have "ok (settled s) (and_then (AddInvite ?a (pl_guid player) False s1) (\<lambda>(ok, s).
             if \<not> ok then and_then (RemoveAllInvites ?a s) (\<lambda>s. Inr (delete_party ?a s)) else Inr (invited me player n s)))"
      proof (rule ok_bind2[OF ok_AddInvite[OF c1 g1(1,2) p1]])
        fix d s2
        assume d: "if d then turns ?a (Some (False, length (gp_members g1), lead g1, List.insert (pl_guid player) (gp_invitees g1))) s1 s2
                   else s2 = s1"
        have undo: "ok (settled s) (and_then (RemoveAllInvites ?a s1) (\<lambda>s. Inr (delete_party ?a s)))"
        proof (rule ok_bind[OF ok_RemoveAllInvites[OF c1 g1(1)]])
          fix s3 assume "turns ?a (Some (gp_bg g1, length (gp_members g1), lead g1, [])) s1 s3"
          then show "ok (settled s) (Inr (delete_party ?a s3))" using settled_delete_new[OF c turns_turns[OF t1]] by simp
        qed
        show "ok (settled s) (if \<not> d then and_then (RemoveAllInvites ?a s2) (\<lambda>s. Inr (delete_party ?a s))
             else Inr (invited me player n s2))"
        proof (cases d)
          case False
          with d undo show ?thesis by simp
        next
          case True
          with d have t2: "turns ?a (Some (False, 0, (pl_guid me, False), List.insert (pl_guid player) [pl_guid me])) ?s s2"
            using g1 turns_turns[OF t1] by simp
          have "settled s s2" by (rule formed_new[OF c f t2]) (simp add: seat_ok_def)
          with True show ?thesis by (simp add: invited_def)
        qed
      qed
      with True show ?thesis by simp
    qed
  qed
  then show ?thesis by (simp add: invite_new_def Let_def new_party_def)
qed

lemma ok_invite_existing:
  assumes c: "core s" and f: "formed s" and g: "gs_heap s a = Some g" and bg: "\<not> gp_bg g" and p: "connected (pl_guid player) s"
  shows "ok (settled s) (and_then (AddInvite a (pl_guid player) False s) (\<lambda>(ok, s). Inr (if ok then invited me player n s else s)))"
proof (rule ok_bind2[OF ok_AddInvite[OF c g bg p]])
  fix b s1
  assume b: "if b then turns a (Some (False, length (gp_members g), lead g, List.insert (pl_guid player) (gp_invitees g))) s s1 else s1 = s"
  have "settled s s1" if t: "turns a (Some (False, length (gp_members g), lead g, List.insert (pl_guid player) (gp_invitees g))) s s1"
  proof -
    have seat: "seat_ok (False, length (gp_members g), lead g, List.insert (pl_guid player) (gp_invitees g))"
      using formed_empty(2)[OF f g _ bg] by (simp add: seat_ok_def)
    have "length (gp_members g) \<noteq> 0 \<or> a \<notin> set (gs_set s)" using formed_empty(1)[OF f g] by auto
    then show ?thesis
      using t formed_upd[OF f _ _ seat, of s1 a] by (simp add: settled_def turns_def)
  qed
  then show "ok (settled s) (Inr (if b then invited me player n s1 else s1))"
    using b settled_refl[OF c] by (simp add: invited_def split: if_splits)
qed

lemma ok_own_plain: "core s \<Longrightarrow> ok (\<lambda>r. \<forall>a. r = Some a \<longrightarrow> plain s a) (own_group h s)"
  using core_group[of s h] core_plain[of s h]
  by (cases "gr_group (gs_refs s h)") (auto simp: own_group_def plain_Some ref_target_def split: if_splits)

lemma ok_invite_player:
  assumes c: "core s" and f: "formed s" and me: "connected (pl_guid me) s" and p: "connected (pl_guid player) s"
  shows "ok (settled s) (invite_player env me player n s)"
  unfolding invite_player_def Let_def
proof (rule ok_bind[OF ok_own_plain[OF c]], rule ok_bind[OF ok_own_plain[OF c]])
  fix own group2
  assume own: "\<forall>a. own = Some a \<longrightarrow> plain s a"
  note r = settled_refl[OF c] and new = ok_invite_new[OF c f me p]
  have old: "ok (settled s) (with_party a s (\<lambda>g.
      if \<not> IsLeader (pl_guid me) g \<and> \<not> IsAssistant (pl_guid me) g
      then Inr (SendPartyResult (pl_guid me) PARTY_OP_INVITE '''' PARTY_RESULT_YOU_NOT_LEADER s)
      else if IsFull g then Inr (SendPartyResult (pl_guid me) PARTY_OP_INVITE '''' PARTY_RESULT_PARTY_FULL s)
      else and_then (AddInvite a (pl_guid player) False s) (\<lambda>(ok, s). Inr (if ok then invited me player n s else s))))"
    if "own = Some a" for a
  proof -
    obtain g where g: "gs_heap s a = Some g" "\<not> gp_bg g" using own \<open>own = Some a\<close> by (auto simp: plain_Some)
    show ?thesis using r ok_invite_existing[OF c f g p, of me n] g(1) by simp
  qed
  have being: "ok (settled s) (with_party a s (\<lambda>g.
      if gp_members g = [] \<and> \<not> IsLeader (pl_guid me) g then invite_new me player n s
      else and_then (AddInvite a (pl_guid player) False s) (\<lambda>(ok, s). Inr (if ok then invited me player n s else s))))"
    if i: "gr_invite (gs_refs s (pl_guid me)) = Some a" for a
  proof -
    obtain g where g: "gs_heap s a = Some g" "\<not> gp_bg g" using core_invite[OF c i] by blast
    show ?thesis using new ok_invite_existing[OF c f g p, of me n] g(1) by simp
  qed
  show "ok (settled s) (if group2 \<noteq> None \<or> gr_invite (gs_refs s (pl_guid player)) \<noteq> None
         then Inr (SendPartyResult (pl_guid me) PARTY_OP_INVITE n PARTY_RESULT_ALREADY_IN_GROUP s)
         else case own of
                Some a \<Rightarrow> with_party a s (\<lambda>g.
                  if \<not> IsLeader (pl_guid me) g \<and> \<not> IsAssistant (pl_guid me) g
                  then Inr (SendPartyResult (pl_guid me) PARTY_OP_INVITE '''' PARTY_RESULT_YOU_NOT_LEADER s)
                  else if IsFull g then Inr (SendPartyResult (pl_guid me) PARTY_OP_INVITE '''' PARTY_RESULT_PARTY_FULL s)
                  else and_then (AddInvite a (pl_guid player) False s) (\<lambda>(ok, s). Inr (if ok then invited me player n s else s)))
              | None \<Rightarrow>
                  (case gr_invite (gs_refs s (pl_guid me)) of
                     None \<Rightarrow> invite_new me player n s
                   | Some a \<Rightarrow> with_party a s (\<lambda>g.
                       if gp_members g = [] \<and> \<not> IsLeader (pl_guid me) g then invite_new me player n s
                       else and_then (AddInvite a (pl_guid player) False s) (\<lambda>(ok, s).
                         Inr (if ok then invited me player n s else s)))))"
  proof (cases "group2 \<noteq> None \<or> gr_invite (gs_refs s (pl_guid player)) \<noteq> None")
    case True
    then show ?thesis using r by simp
  next
    case False
    show ?thesis
    proof (cases own)
      case None
      then show ?thesis using False new being by (cases "gr_invite (gs_refs s (pl_guid me))") auto
    next
      case (Some a)
      then show ?thesis using False old[OF Some] by simp
    qed
  qed
qed

lemma FindPlayerByName_connected: "FindPlayerByName (gs_world s) n v = Some p \<Longrightarrow> connected (pl_guid p) s"
proof -
  assume "FindPlayerByName (gs_world s) n v = Some p"
  then have "p \<in> set (w_players (gs_world s))" by (auto simp: FindPlayerByName_def find_Some_iff)
  then show ?thesis by (force simp: connected_def FindPlayer_def find_None_iff)
qed

lemma answers_Invite [answer]:
  assumes c: "core s" and f: "formed s" and me: "connected (pl_guid me) s"
  shows "answers s (HandleGroupInviteOpcode env me s)"
  unfolding HandleGroupInviteOpcode_def Let_def
proof (intro answers_rd answers_done)
  fix nm
  have inv: "ok (settled s) (invite_player env me p n s)" if "FindPlayerByName (gs_world s) n True = Some p" for p n
    by (rule ok_invite_player[OF c f me FindPlayerByName_connected[OF that]])
  show "ok (settled s) (case pe_norm env nm of
            None \<Rightarrow> Inr (SendPartyResult (pl_guid me) PARTY_OP_INVITE nm PARTY_RESULT_CANT_FIND_TARGET s)
          | Some membername \<Rightarrow>
              if pe_in_bg env (pl_guid me) then Inr (SendPartyResult (pl_guid me) PARTY_OP_INVITE membername PARTY_RESULT_OK s)
              else (case FindPlayerByName (gs_world s) membername True of
                      None \<Rightarrow> Inr (SendPartyResult (pl_guid me) PARTY_OP_INVITE membername PARTY_RESULT_CANT_FIND_TARGET s)
                    | Some player \<Rightarrow>
                        (case invite_refused env me player s of
                           Some e \<Rightarrow> Inr (SendPartyResult (pl_guid me) PARTY_OP_INVITE membername e s)
                         | None \<Rightarrow> invite_player env me player membername s)))"
    using settled_refl[OF c] inv by (simp split: option.split)
qed

text \<open>A player accepts: the leader of a group that is created is in the world.\<close>

definition leader_ready :: "guid \<Rightarrow> group_server \<Rightarrow> bool" where
  "leader_ready h s \<longleftrightarrow> (\<forall>a g. gr_invite (gs_refs s h) = Some a \<longrightarrow> gs_heap s a = Some g \<longrightarrow> gp_members g = [] \<longrightarrow>
     GetPlayer (gs_world s) (gp_leaderGuid g) \<noteq> None)"

lemma ok_join:
  assumes c: "core s" and g: "gs_heap s a = Some g" and bg: "\<not> gp_bg g" and mem: "gp_members g \<noteq> []"
    and no: "gr_invite (gs_refs s x) = None"
  shows "ok (settled s) (and_then (Group_AddMember a x n s) (\<lambda>(ok, s). if ok then BroadcastGroupUpdate a s else Inr s))"
proof (rule ok_bind2[OF ok_Group_AddMember[OF c g no]])
  fix b s1
  assume b: "(\<not> gp_raid g \<and> \<not> IsFull g \<and> x \<noteq> 0 \<longrightarrow> b)
      \<and> (if b then turns a (Some (gp_bg g, Suc (length (gp_members g)), lead g, gp_invitees g)) s s1 else s1 = s)"
  have "ok (settled s) (BroadcastGroupUpdate a s1)"
    if t: "turns a (Some (gp_bg g, Suc (length (gp_members g)), lead g, gp_invitees g)) s s1"
  proof -
    have "ok (keeps s1) (BroadcastGroupUpdate a s1)" using turns_core[OF t] turns_view[OF t] by (intro party_ok) auto
    then show ?thesis by (rule ok_mono) (rule turns_settled[OF turns_keeps[OF t]])
  qed
  then show "ok (settled s) (if b then BroadcastGroupUpdate a s1 else Inr s1)" using b settled_refl[OF c] by simp
qed (use bg in simp)

text \<open>Creating a group: the leader's invitation is withdrawn, he becomes its first member, and it is put in the set.\<close>

lemma ok_create_group:
  assumes c: "core s" and t: "turns a (Some (False, 0, (l, False), is)) s s1" and out: "x \<notin> set is"
    and mine: "\<And>b. gr_invite (gs_refs s x) = Some b \<Longrightarrow> b = a"
    and l: "l \<in> set is" and p: "GetPlayer (gs_world s) l = Some p" and l0: "l \<noteq> 0"
  shows "ok (\<lambda>s'. \<exists>n r is'. core s' \<and> gs_world s' = gs_world s \<and> gs_bgraid s' = gs_bgraid s \<and> gs_set s' = List.insert a (gs_set s)
      \<and> sig s' = (sig s)(a := Some (False, Suc n, r, is')) \<and> x \<notin> set is')
    (and_then (RemoveInvite a (pl_guid p) s1) (\<lambda>s. and_then (Group_Create a l nm s) (\<lambda>(ok, s). Inr (AddGroup a s))))"
proof -
  have c1: "core s1" by (rule turns_core[OF t])
  obtain g1 where g1: "gs_heap s1 a = Some g1" "\<not> gp_bg g1" "length (gp_members g1) = 0" "lead g1 = (l, False)" "gp_invitees g1 = is"
    using turns_view[OF t] by auto
  have pl: "pl_guid p = l" by (rule GetPlayer_guid[OF p])
  have inv: "gr_invite (gs_refs s1 l) = Some a" using core_invited(1)[OF c1 g1(1)] l g1(5) by blast
  show ?thesis unfolding pl
  proof (rule ok_bind[OF ok_RemoveInvite[OF c1 g1(1)]])
    fix b assume "gr_invite (gs_refs s1 l) = Some b" then show "b = a" using inv by simp
  next
    fix s2
    assume "turns a (Some (gp_bg g1, length (gp_members g1), lead g1, removeAll l (gp_invitees g1))) s1 s2"
    then have t2: "turns a (Some (False, 0, (l, False), removeAll l is)) s1 s2" using g1 by simp
    have c2: "core s2" by (rule turns_core[OF t2])
    obtain g2 where g2: "gs_heap s2 a = Some g2" "\<not> gp_bg g2" "length (gp_members g2) = 0" "lead g2 = (l, False)"
      "gp_invitees g2 = removeAll l is" using turns_view[OF t2] by auto
    have no: "gr_invite (gs_refs s2 l) = None"
      by (rule no_invite_after[OF c1 c2, of a "Some (False, 0, (l, False), removeAll l is)"]) (use t2 inv in \<open>auto simp: turns_def\<close>)
    have raid: "gp_raid g2 \<longrightarrow> gp_bg g2" using g2 by simp
    have conn: "connected l s2" using GetPlayer_connected[OF p] t t2 by (simp add: connected_def turns_def)
    show "ok (\<lambda>s'. \<exists>n r is'. core s' \<and> gs_world s' = gs_world s \<and> gs_bgraid s' = gs_bgraid s \<and> gs_set s' = List.insert a (gs_set s)
      \<and> sig s' = (sig s)(a := Some (False, Suc n, r, is')) \<and> x \<notin> set is')
      (and_then (Group_Create a l nm s2) (\<lambda>(ok, s). Inr (AddGroup a s)))"
    proof (rule ok_bind2[OF ok_Group_Create[OF c2 g2(1) no raid]])
      fix b s3
      assume "\<exists>n. turns a (Some (gp_bg g2, n, (l, gp_bg g2), gp_invitees g2)) s2 s3
        \<and> (\<not> gp_bg g2 \<and> gp_members g2 = [] \<and> connected l s2 \<and> l \<noteq> 0 \<longrightarrow> n \<noteq> 0)"
      then obtain n where "turns a (Some (False, n, (l, False), removeAll l is)) s2 s3" "n \<noteq> 0"
        using g2 conn l0 by auto
      then obtain m where t3: "turns a (Some (False, Suc m, (l, False), removeAll l is)) s2 s3" by (cases n) auto
      have "turns a (Some (False, Suc m, (l, False), removeAll l is)) s s3" by (rule turns_turns[OF t turns_turns[OF t2 t3]])
      then show "ok (\<lambda>s'. \<exists>n r is'. core s' \<and> gs_world s' = gs_world s \<and> gs_bgraid s' = gs_bgraid s \<and> gs_set s' = List.insert a (gs_set s)
        \<and> sig s' = (sig s)(a := Some (False, Suc n, r, is')) \<and> x \<notin> set is') (Inr (AddGroup a s3))"
        using out by (auto simp: turns_def intro!: exI[of _ m] exI[of _ l] exI[of _ False] exI[of _ "removeAll l is"])
    qed (use g2 in simp)
  qed
qed

lemma settled_created:
  assumes "core s'" and "gs_world s' = gs_world s" and "gs_bgraid s' = gs_bgraid s" and "gs_set s' = List.insert a (gs_set s)"
    and "sig s' = (sig s)(a := Some (False, Suc n, r, is))"
  shows "settled s s'"
proof -
  have "seat_ok (False, Suc n, r, is)" by (simp add: seat_ok_def)
  moreover have "gs_bgraid s' k \<noteq> Some a" for k using assms(1,5) by (fastforce simp: core_def raids_ok_def)
  ultimately have "formed s \<Longrightarrow> formed s'" unfolding formed_def assms(3,4,5) by (cases r) auto
  then show ?thesis using assms(1,2) by (simp add: settled_def)
qed

lemma answers_Accept [answer]:
  assumes c: "core s" and f: "formed s" and ready: "leader_ready (pl_guid me) s"
    and ids: "\<And>p. p \<in> set (w_players (gs_world s)) \<Longrightarrow> pl_guid p \<noteq> 0"
  shows "answers s (HandleGroupAcceptOpcode me s)"
  unfolding HandleGroupAcceptOpcode_def Let_def
proof (rule answers_done)
  let ?x = "pl_guid me"
  show "ok (settled s) (case gr_invite (gs_refs s ?x) of
          None \<Rightarrow> Inr s
        | Some a \<Rightarrow>
            if gr_group (gs_refs s ?x) \<noteq> None
            then Inr (SendPartyResult ?x PARTY_OP_INVITE (c_str (pl_name me)) PARTY_RESULT_ALREADY_IN_GROUP s)
            else with_party a s (\<lambda>g.
              if gp_leaderGuid g = ?x then Inr s
              else and_then (RemoveInvite a ?x s) (\<lambda>s.
                if IsFull g then Inr (SendPartyResult ?x PARTY_OP_INVITE '''' PARTY_RESULT_PARTY_FULL s)
                else and_then
                  (if gp_members g = []
                   then and_then (case GetPlayer (gs_world s) (gp_leaderGuid g) of
                                    None \<Rightarrow> Inr s | Some l \<Rightarrow> RemoveInvite a (pl_guid l) s) (\<lambda>s.
                        and_then (Group_Create a (gp_leaderGuid g) (gp_leaderName g) s) (\<lambda>(ok, s). Inr (AddGroup a s)))
                   else Inr s) (\<lambda>s.
                and_then (Group_AddMember a ?x (c_str (pl_name me)) s) (\<lambda>(ok, s).
                  if ok then BroadcastGroupUpdate a s else Inr s)))))"
  proof (cases "gr_invite (gs_refs s ?x)")
    case None
    then show ?thesis using settled_refl[OF c] by simp
  next
    case (Some a)
    obtain g where g: "gs_heap s a = Some g" "?x \<in> set (gp_invitees g)" "\<not> gp_bg g" using core_invite[OF c Some] by blast
    let ?is = "removeAll ?x (gp_invitees g)"
    have main: "ok (settled s) (and_then (RemoveInvite a ?x s) (\<lambda>s.
                if IsFull g then Inr (SendPartyResult ?x PARTY_OP_INVITE '''' PARTY_RESULT_PARTY_FULL s)
                else and_then
                  (if gp_members g = []
                   then and_then (case GetPlayer (gs_world s) (gp_leaderGuid g) of
                                    None \<Rightarrow> Inr s | Some l \<Rightarrow> RemoveInvite a (pl_guid l) s) (\<lambda>s.
                        and_then (Group_Create a (gp_leaderGuid g) (gp_leaderName g) s) (\<lambda>(ok, s). Inr (AddGroup a s)))
                   else Inr s) (\<lambda>s.
                and_then (Group_AddMember a ?x (c_str (pl_name me)) s) (\<lambda>(ok, s).
                  if ok then BroadcastGroupUpdate a s else Inr s))))"
      if other: "gp_leaderGuid g \<noteq> ?x"
    proof (rule ok_bind[OF ok_RemoveInvite[OF c g(1)]])
      fix b assume "gr_invite (gs_refs s ?x) = Some b" then show "b = a" using Some by simp
    next
      fix s1 assume "turns a (Some (gp_bg g, length (gp_members g), lead g, ?is)) s s1"
      then have t: "turns a (Some (False, length (gp_members g), lead g, ?is)) s s1" using g by simp
      have c1: "core s1" by (rule turns_core[OF t])
      have w1: "gs_world s1 = gs_world s" using t by (simp add: turns_def)
      have mine: "b = a" if "gr_invite (gs_refs s ?x) = Some b" for b using that Some by simp
      have joined: "ok (settled s) (and_then (Group_AddMember a ?x (c_str (pl_name me)) s2) (\<lambda>(ok, s).
                  if ok then BroadcastGroupUpdate a s else Inr s))"
        if sig: "sig s2 = (sig s)(a := Some (False, Suc n, r, is'))" and "core s2" and st: "settled s s2" and "?x \<notin> set is'" for s2 n r is'
      proof -
        have no: "gr_invite (gs_refs s2 ?x) = None" by (rule no_invite_after[OF c \<open>core s2\<close> sig mine]) (use \<open>?x \<notin> set is'\<close> in auto)
        have "sig s2 a = Some (False, Suc n, r, is')" using sig by simp
        then obtain g2 where g2: "gs_heap s2 a = Some g2" "\<not> gp_bg g2" "length (gp_members g2) = Suc n" by (auto simp: sig_Some)
        then have "gp_members g2 \<noteq> []" by auto
        from ok_join[OF \<open>core s2\<close> g2(1,2) this no] show ?thesis by (rule ok_mono) (rule settled_trans[OF st])
      qed
      show "ok (settled s) (if IsFull g then Inr (SendPartyResult ?x PARTY_OP_INVITE '''' PARTY_RESULT_PARTY_FULL s1)
                else and_then
                  (if gp_members g = []
                   then and_then (case GetPlayer (gs_world s1) (gp_leaderGuid g) of
                                    None \<Rightarrow> Inr s1 | Some l \<Rightarrow> RemoveInvite a (pl_guid l) s1) (\<lambda>s.
                        and_then (Group_Create a (gp_leaderGuid g) (gp_leaderName g) s) (\<lambda>(ok, s). Inr (AddGroup a s)))
                   else Inr s1) (\<lambda>s.
                and_then (Group_AddMember a ?x (c_str (pl_name me)) s) (\<lambda>(ok, s).
                  if ok then BroadcastGroupUpdate a s else Inr s)))"
      proof (cases "gp_members g = []")
        case False
        then obtain n where n: "length (gp_members g) = Suc n" by (cases "gp_members g") auto
        have st: "settled s s1" using t n turns_settled by simp
        have "sig s1 = (sig s)(a := Some (False, Suc n, lead g, ?is))" using t n by (simp add: turns_def)
        from joined[OF this c1 st] show ?thesis using st False by simp
      next
        case True
        have notfull: "\<not> IsFull g" using True by (simp add: IsFull_def)
        have lead: "gp_leaderGuid g \<in> set (gp_invitees g)" "\<not> gp_raid g" using formed_empty(2)[OF f g(1) True g(3)] by simp_all
        obtain p where p: "GetPlayer (gs_world s) (gp_leaderGuid g) = Some p"
          using ready Some g(1) True by (auto simp: leader_ready_def)
        have "p \<in> set (w_players (gs_world s))" using GetPlayer_connected[OF p] by (auto simp: FindPlayer_def find_Some_iff)
        with ids GetPlayer_guid[OF p] have l0: "gp_leaderGuid g \<noteq> 0" by auto
        have t': "turns a (Some (False, 0, (gp_leaderGuid g, False), ?is)) s s1" using t True lead by simp
        have l: "gp_leaderGuid g \<in> set ?is" using lead other by simp
        have "ok (settled s) (and_then (and_then (RemoveInvite a (pl_guid p) s1) (\<lambda>s.
            and_then (Group_Create a (gp_leaderGuid g) (gp_leaderName g) s) (\<lambda>(ok, s). Inr (AddGroup a s))))
            (\<lambda>s. and_then (Group_AddMember a ?x (c_str (pl_name me)) s) (\<lambda>(ok, s). if ok then BroadcastGroupUpdate a s else Inr s)))"
        proof (rule ok_bind[OF ok_create_group[OF c t' _ mine l p l0]])
          fix s2 assume "\<exists>n r is'. core s2 \<and> gs_world s2 = gs_world s \<and> gs_bgraid s2 = gs_bgraid s \<and> gs_set s2 = List.insert a (gs_set s)
            \<and> sig s2 = (sig s)(a \<mapsto> (False, Suc n, r, is')) \<and> ?x \<notin> set is'"
          then show "ok (settled s) (and_then (Group_AddMember a ?x (c_str (pl_name me)) s2) (\<lambda>(ok, s). if ok then BroadcastGroupUpdate a s else Inr s))"
            using joined settled_created by blast
        qed simp_all
        then show ?thesis using True notfull p w1 by simp
      qed
    qed
    show ?thesis using main settled_refl[OF c] Some g(1) by simp
  qed
qed

end
