(* ===== verification/GroupRuns.thy ===== *)
theory GroupRuns
  imports GroupSteps
begin

text \<open>
  Everything that can happen to parties and raids as one relation, \<open>party_call\<close>: a state and the result of a call of a
  packet handler, of the login and logout of players, of battlegrounds and of loot. From every state that such
  calls reach from a server without groups each of them succeeds and ends in a good state: no null or
  deleted pointer is followed, no array is left, and the loops end.
\<close>

section \<open>The remaining handlers\<close>

lemma ok_change_subgroup [party_ok]:
  assumes c: "core s" and g: "gs_heap s a = Some g" and k: "unat k < 8"
  shows "ok (keeps s) (change_subgroup env me a g n k s)"
proof -
  have free: "ok (\<lambda>_. True) (HasFreeSlotSubGroup k g)"
    using party_coreD(2)[OF c g] k by (auto simp: HasFreeSlotSubGroup_def slots_ok_def split: option.split)
  have "ok (keeps s) (and_then (HasFreeSlotSubGroup k g) (\<lambda>free.
        if \<not> free then Inr s
        else case FindPlayerByName (gs_world s) (c_str n) False of
               Some player \<Rightarrow> ChangeMembersGroup_player a (Some (pl_guid player)) k s
             | None \<Rightarrow> ChangeMembersGroup a (pe_guid_by_name env (c_str n)) k s))"
    by (rule ok_bind[OF free]) (use c g k in \<open>auto intro!: party_ok keeps_refl split: option.split\<close>)
  then show ?thesis using keeps_refl[OF c] by (simp add: change_subgroup_def)
qed

lemma ok_Promote:
  assumes c: "core s" and r: "HandleGroupPromoteOpcode me s b = Inr r"
  shows "\<exists>r'. r = Some r' \<and> ok (keeps s) r'"
proof (cases "gr_group (gs_refs s (pl_guid me))")
  case None
  then show ?thesis using r keeps_refl[OF c] by (auto simp: HandleGroupPromoteOpcode_def)
next
  case (Some a)
  obtain g where g: "gs_heap s a = Some g" using core_group[OF c Some] by blast
  have "\<exists>r'. SetMain tank a h s = Some r' \<and> ok (keeps s) r'" for tank h using g by (intro ok_SetMain[OF c]) simp
  then show ?thesis
    using r keeps_refl[OF c] Some g by (auto simp: HandleGroupPromoteOpcode_def rd_Inr split: if_splits)
qed

section \<open>The end of the rolls\<close>

lemma set_item_heap [simp]: "gs_heap (set_item l i f s) = gs_heap s"
  by (simp add: set_item_def split: option.split)

lemma award_heap: "award env h r l s = Inr s' \<Longrightarrow> gs_heap s' = gs_heap s"
  by (auto simp: award_def Let_def split: if_splits option.splits)

lemma to_voters_heap [simp]: "gs_heap (to_voters p f r s) = gs_heap s"
  by (simp add: to_voters_def)

lemma decide_heap: "decide env v code r l s = Inr s' \<Longrightarrow> gs_heap s' = gs_heap s"
proof -
  have sent: "gs_heap (fold (\<lambda>x. SendLootRoll 0 (fst x) (f x) code r) xs s) = gs_heap s" for f xs s
    by (induction xs arbitrary: s) (simp_all add: SendLootRoll_def)
  show "decide env v code r l s = Inr s' \<Longrightarrow> gs_heap s' = gs_heap s"
    by (auto simp: decide_def Let_def SendLootRollWon_def sent dest: award_heap split: if_splits prod.splits)
qed

lemma unblock_heap: "unblock r l s = Inr s' \<Longrightarrow> gs_heap s' = gs_heap s"
  by (auto simp: unblock_def Let_def split: if_splits option.splits)

lemma CountTheRoll_rolls:
  assumes "CountTheRoll env a 0 N s = Inr s'" and "gs_heap s a = Some g"
  shows "\<exists>g'. gs_heap s' a = Some g' \<and> gp_rolls g' = tl (gp_rolls g)"
proof -
  have e: "\<exists>g'. gs_heap s2 a = Some g' \<and> gp_rolls g' = tl (gp_rolls g)" if "erase_roll a 0 s1 = Inr s2" "gs_heap s1 = gs_heap s" for s1 s2
    using that assms(2) by (auto simp: erase_roll_def drop_Suc)
  have b: "\<exists>g'. gs_heap s' a = Some g' \<and> gp_rolls g' = tl (gp_rolls g)"
    if "and_then m (erase_roll a 0) = Inr s'" "\<And>s1. m = Inr s1 \<Longrightarrow> gs_heap s1 = gs_heap s" for m
    using that e by (cases m) auto
  show ?thesis
    using assms e[of s s'] b
    by (auto simp: CountTheRoll_def Let_def SendLootAllPassed_def split: option.splits if_splits
        dest: decide_heap unblock_heap intro!: b)
qed

text \<open>The loop over the rolls ends: each pass removes one.\<close>

lemma ok_EndRoll:
  assumes "core s" and "gs_heap s a \<noteq> None"
  shows "\<exists>r. EndRoll env a s = Some r \<and> ok (\<lambda>s'. keeps s s' \<and> (\<exists>g. gs_heap s' a = Some g \<and> gp_rolls g = [])) r"
proof -
  have "gs_heap s a = Some g \<Longrightarrow> length (gp_rolls g) = n \<Longrightarrow> core s \<Longrightarrow> ?thesis" for n g
  proof (induction n arbitrary: s g)
    case 0
    then show ?case using keeps_refl[of s] by (simp add: EndRoll.simps)
  next
    case (Suc n)
    then have ne: "gp_rolls g \<noteq> []" "0 < length (gp_rolls g)" by auto
    have "ok (keeps s) (CountTheRoll env a 0 (GetMembersCount g) s)"
      using Suc.prems(1) ne(2) by (intro ok_CountTheRoll[OF keeps_refl[OF Suc.prems(3)]]) simp_all
    then obtain s1 where s1: "CountTheRoll env a 0 (GetMembersCount g) s = Inr s1" "keeps s s1" by (auto simp: ok_Inr_iff)
    obtain g1 where g1: "gs_heap s1 a = Some g1" "gp_rolls g1 = tl (gp_rolls g)" using CountTheRoll_rolls[OF s1(1) Suc.prems(1)] by blast
    obtain r where r: "EndRoll env a s1 = Some r" "ok (\<lambda>s'. keeps s1 s' \<and> (\<exists>g. gs_heap s' a = Some g \<and> gp_rolls g = [])) r"
      using Suc.IH[OF g1(1) _ keeps_core[OF s1(2)]] g1(2) Suc.prems(2) by auto
    have "EndRoll env a s = Some r" using Suc.prems(1) ne(1) s1(1) r(1) by (simp add: EndRoll.simps[of env a s])
    moreover have "ok (\<lambda>s'. keeps s s' \<and> (\<exists>g. gs_heap s' a = Some g \<and> gp_rolls g = [])) r"
      by (rule ok_mono[OF r(2)]) (auto intro: keeps_trans[OF s1(2)])
    ultimately show ?case by blast
  qed
  then show ?thesis using assms by blast
qed

section \<open>Players come and go\<close>

definition ids_ok :: "group_server \<Rightarrow> bool" where
  "ids_ok s \<longleftrightarrow> (\<forall>p \<in> set (w_players (gs_world s)). pl_guid p \<noteq> 0)"

lemma connected_iff: "connected h s \<longleftrightarrow> h \<in> pl_guid ` set (w_players (gs_world s))"
  by (auto simp: connected_def FindPlayer_def find_None_iff)

lemma set_players_sel [simp]:
  "gs_refs (set_players f s) = gs_refs s" "gs_heap (set_players f s) = gs_heap s" "gs_set (set_players f s) = gs_set s"
  "gs_next (set_players f s) = gs_next s" "gs_difficulty (set_players f s) = gs_difficulty s" "gs_bgraid (set_players f s) = gs_bgraid s" "gs_loots (set_players f s) = gs_loots s"
  "w_players (gs_world (set_players f s)) = f (w_players (gs_world s))"
  by (simp_all add: set_players_def)

lemma view_set_players [simp]:
  "sig (set_players f s) = sig s" "refs_at (set_players f s) = refs_at s" "loot_len (set_players f s) = loot_len s"
  by (simp_all add: sig_def refs_at_def loot_len_def fun_eq_iff)

lemma formed_set_players [simp]: "formed (set_players f s) = formed s"
  by (simp add: formed_def)

text \<open>Only those whom nothing refers to go.\<close>

lemma core_set_players:
  assumes c: "core s"
    and gone: "\<And>h. connected h s \<Longrightarrow> \<not> connected h (set_players f s) \<Longrightarrow>
      ref_target True (gs_refs s h) = None \<and> ref_target False (gs_refs s h) = None \<and> gr_invite (gs_refs s h) = None"
  shows "core (set_players f s)"
proof -
  have "connected h (set_players f s)" if "ref_target b (gs_refs s h) \<noteq> None" for h b
  proof (rule ccontr)
    assume "\<not> connected h (set_players f s)"
    then show False using that gone[OF core_linked[OF c that]] by (cases b) auto
  qed
  moreover have "connected h (set_players f s)" if "gr_invite (gs_refs s h) \<noteq> None" for h
    using that gone[OF core_invites(2)[OF c that]] by (cases "connected h (set_players f s)") simp_all
  moreover have "links_ok s" "invites_ok s" "raids_ok s" using c by (simp_all add: core_def)
  ultimately show ?thesis
    using c unfolding core_def links_ok_def invites_ok_def raids_ok_def invited_at_def plain_def by simp
qed

lemma set_players_glog: "set_players f (glog as s) = glog as (set_players f s)"
  by (simp add: set_players_def glog_def)

lemma set_players_put: "set_players f (put_party a g s) = put_party a g (set_players f s)"
  by (simp add: set_players_def put_party_def)

lemma set_players_upd: "set_players f (upd_refs h u s) = upd_refs h u (set_players f s)"
  by (simp add: set_players_def upd_refs_def)

lemma set_players_unlink: "set_players f (unlink h b s) = unlink h b (set_players f s)"
  by (simp add: unlink_def Let_def set_players_upd set_players_put split: option.split)

lemma set_players_link: "link h b a k (set_players f s) = and_then (link h b a k s) (\<lambda>s. Inr (set_players f s))"
  by (cases "ref_target b (gs_refs s h) = None")
     (simp_all add: link_def Let_def set_players_unlink[symmetric] with_party_def set_players_upd set_players_put split: option.split)

lemma set_players_difficulty: "set_players f (s\<lparr>gs_difficulty := d\<rparr>) = (set_players f s)\<lparr>gs_difficulty := d\<rparr>"
  by (simp add: set_players_def)

lemma set_players_LoadGroup:
  "LoadGroup_player p row (set_players f s) = and_then (LoadGroup_player p row s) (\<lambda>s. Inr (set_players f s))"
proof -
  have set: "SetGroup h (Some (a, k)) (set_players f s) = and_then (SetGroup h (Some (a, k)) s) (\<lambda>s. Inr (set_players f s))" for h a k s
    by (simp add: SetGroup_def set_players_link and_then_assoc set_players_glog)
  have leader: "GetGroupByLeader h (set_players f s) = GetGroupByLeader h s" for h
    by (simp add: GetGroupByLeader_def)
  show ?thesis
    by (simp add: LoadGroup_player_def leader set and_then_assoc with_party_def set_players_difficulty if_distrib[of "set_players f"]
        cong: if_cong split: option.split)
qed

definition server_ok :: "group_server \<Rightarrow> bool" where
  "server_ok s \<longleftrightarrow> parties_ok s \<and> ids_ok s"

lemma server_okD: "server_ok s \<Longrightarrow> core s" "server_ok s \<Longrightarrow> formed s" "server_ok s \<Longrightarrow> ids_ok s"
  by (simp_all add: server_ok_def parties_ok_def)

lemma settled_server: "server_ok s \<Longrightarrow> settled s s' \<Longrightarrow> server_ok s'"
  by (simp add: server_ok_def parties_ok_def settled_def ids_ok_def)

lemma ok_server: "server_ok s \<Longrightarrow> ok (settled s) r \<Longrightarrow> ok server_ok r"
  by (erule ok_mono) (rule settled_server)

lemma ok_server_keeps: "server_ok s \<Longrightarrow> ok (keeps s) r \<Longrightarrow> ok server_ok r"
  by (erule ok_server, erule keeps_ok_settled)

lemma GetGroupByLeader_set: "GetGroupByLeader h s = Some a \<Longrightarrow> a \<in> set (gs_set s)"
  by (auto simp: GetGroupByLeader_def find_Some_iff)

lemma formed_alive: "formed s \<Longrightarrow> a \<in> set (gs_set s) \<Longrightarrow> \<exists>g. gs_heap s a = Some g"
  using formedD(1)[of s a] by (auto simp: sig_def)

lemma GetMemberGroup_less:
  assumes "slots_ok g" and "is_member h g"
  shows "unat (GetMemberGroup h g) < 8"
proof -
  obtain m where m: "getMemberSlot h g = Some m"
    using assms(2) by (cases "getMemberSlot h g") (auto simp: getMemberSlot_def is_member_def find_None_iff list_ex_iff)
  then have "m \<in> set (gp_members g)" by (auto simp: getMemberSlot_def find_Some_iff)
  then show ?thesis using assms(1) m by (simp add: GetMemberGroup_def slots_ok_def)
qed

text \<open>The table of members agrees with the groups in memory.\<close>

definition row_ok :: "guid \<Rightarrow> u32 option \<Rightarrow> group_server \<Rightarrow> bool" where
  "row_ok h row s \<longleftrightarrow> (\<forall>low a g. row = Some low \<longrightarrow> GetGroupByLeader (MAKE_NEW_GUID low 0 HIGHGUID_PLAYER) s = Some a \<longrightarrow>
     gs_heap s a = Some g \<longrightarrow> is_member h g)"

lemma keeps_no_refs:
  assumes c: "core s" and new: "\<not> connected h s"
  shows "keeps s (upd_refs h (\<lambda>_. no_refs) s)"
proof (rule keepsI)
  have none: "ref_target b (gs_refs s h) = None" for b using core_linked[OF c, of b h] new by blast
  have inv: "gr_invite (gs_refs s h) = None" using core_invites(2)[OF c, of h] new by blast
  have zero: "ref_target b no_refs = None" "gr_invite no_refs = None" "gr_subgroup no_refs = 0" "gr_originalSub no_refs = 0" for b
    by (simp_all add: no_refs_def ref_target_def)
  show "core (upd_refs h (\<lambda>_. no_refs) s)"
  proof (rule core_links[OF c])
    show "links_ok (upd_refs h (\<lambda>_. no_refs) s)" by (rule links_ok_view[OF c]) (simp_all add: zero none)
    show "ref_target False (gs_refs (upd_refs h (\<lambda>_. no_refs) s) k) = Some a \<Longrightarrow> plain s a" for k a
      using core_plain[OF c, of k a] by (simp add: zero split: if_splits)
  qed (use core_subs[OF c] in \<open>simp_all add: zero inv\<close>)
qed simp

lemma ok_player_login:
  assumes s: "server_ok s" and new: "\<not> connected (pl_guid p) s" and id: "pl_guid p \<noteq> 0" and row: "row_ok (pl_guid p) row s"
  shows "ok server_ok (player_login p row s)"
proof -
  note c = server_okD(1)[OF s] and f = server_okD(2)[OF s]
  let ?h = "pl_guid p"
  let ?clean = "upd_refs ?h (\<lambda>_. no_refs) s"
  let ?s = "set_players ((#) p) ?clean"
  have k0: "keeps s ?clean" by (rule keeps_no_refs[OF c new])
  have c1: "core ?s" by (rule core_set_players[OF keeps_core[OF k0]]) (simp add: connected_iff)
  have f1: "formed ?s" using f keeps_settled[OF k0] by (simp add: settled_def)
  have s1: "server_ok ?s" using c1 f1 server_okD(3)[OF s] id by (simp add: server_ok_def parties_ok_def ids_ok_def)
  have "ok (keeps ?s) (LoadGroup_player p row ?s)"
  proof (cases row)
    case None
    then show ?thesis using keeps_refl[OF c1] by (simp add: LoadGroup_player_def)
  next
    case (Some low)
    show ?thesis
    proof (cases "GetGroupByLeader (MAKE_NEW_GUID low 0 HIGHGUID_PLAYER) s")
      case None
      then show ?thesis using Some keeps_refl[OF c1] by (simp add: LoadGroup_player_def GetGroupByLeader_def)
    next
      case (Some a)
      then have lead: "GetGroupByLeader (MAKE_NEW_GUID low 0 HIGHGUID_PLAYER) ?s = Some a" by (simp add: GetGroupByLeader_def)
      obtain g where g: "gs_heap s a = Some g" using formed_alive[OF f GetGroupByLeader_set[OF Some]] by blast
      have "is_member ?h g" using row \<open>row = Some low\<close> Some g by (auto simp: row_ok_def)
      then have k: "unat (GetMemberGroup ?h g) < 8" by (rule GetMemberGroup_less[OF party_coreD(2)[OF c g]])
      have "ok (keeps ?s) (and_then (SetGroup ?h (Some (a, GetMemberGroup ?h g)) ?s) (\<lambda>s.
          Inr (if pl_level p \<ge> LEVELREQUIREMENT_HEROIC then s\<lparr>gs_difficulty := (gs_difficulty s)(?h := gp_difficulty g)\<rparr> else s)))"
        by (rule ok_bind[OF ok_SetGroup[OF c1]]) (use g k in \<open>auto simp: connected_iff keeps_def frame_def\<close>)
      then show ?thesis using \<open>row = Some low\<close> lead g by (simp add: LoadGroup_player_def)
    qed
  qed
  then have "ok server_ok (LoadGroup_player p row ?s)" by (rule ok_server_keeps[OF s1])
  then show ?thesis by (simp add: player_login_def set_players_LoadGroup)
qed

text \<open>A player who logs out is not invited any more, and the destructors of his references unlink them.\<close>

lemma unlink_invite: "core s \<Longrightarrow> gr_invite (gs_refs (unlink h b s) k) = gr_invite (gs_refs s k)"
  by (simp add: unlink_views(1))

lemma ok_player_logout:
  assumes s: "server_ok s"
  shows "ok server_ok (player_logout h s)"
  unfolding player_logout_def
proof (rule ok_bind[OF ok_UninviteFromGroup[OF server_okD(1,2)[OF s]]])
  fix s1 assume s1: "settled s s1 \<and> gr_invite (gs_refs s1 h) = None"
  have ok1: "server_ok s1" by (rule settled_server[OF s]) (use s1 in blast)
  let ?u = "unlink h True s1"
  let ?s = "unlink h False ?u"
  let ?t = "set_players (filter (\<lambda>p. pl_guid p \<noteq> h)) ?s"
  have c1: "core s1" and cu: "core ?u" and cs: "core ?s" using server_okD(1)[OF ok1] by simp_all
  have fr: "frame ?s = frame s1" using frame_unlink[OF cu] frame_unlink[OF c1] by simp
  have ok2: "server_ok ?s" by (rule settled_server[OF ok1]) (rule keeps_settled[OF keepsI[OF cs fr]])
  have refs: "ref_target True (gs_refs ?s h) = None \<and> ref_target False (gs_refs ?s h) = None \<and> gr_invite (gs_refs ?s h) = None"
    using s1 c1 cu by (simp add: unlink_views(1))
  have "core ?t"
    by (rule core_set_players[OF cs]) (use refs in \<open>auto simp: connected_iff\<close>)
  then show "ok server_ok (Inr ?t)"
    using server_okD[OF ok2] by (auto simp: server_ok_def parties_ok_def ids_ok_def)
qed

lemma ok_player_moved:
  assumes s: "server_ok s"
  shows "server_ok (player_moved h inside s)"
proof -
  have "map pl_guid (w_players (gs_world (player_moved h inside s))) = map pl_guid (w_players (gs_world s))"
    by (simp add: player_moved_def)
  then have "connected k (player_moved h inside s) = connected k s" for k
    unfolding connected_iff by (metis set_map)
  then have "core (player_moved h inside s)"
    using server_okD(1)[OF s] unfolding player_moved_def by (intro core_set_players) auto
  then show ?thesis using server_okD[OF s] by (auto simp: server_ok_def parties_ok_def ids_ok_def player_moved_def)
qed

lemma ok_delete_character:
  assumes s: "server_ok s"
  shows "ok server_ok (delete_character h row s)"
proof (rule ok_server[OF s])
  note c = server_okD(1)[OF s]
  have "ok (settled s) (RemoveFromGroup (Some a) h GROUP_REMOVEMETHOD_DEFAULT s)" if "GetGroupByLeader k s = Some a" for k a
    using formed_alive[OF server_okD(2)[OF s] GetGroupByLeader_set[OF that]] by (intro ok_RemoveFromGroup[OF c]) auto
  then show "ok (settled s) (delete_character h row s)"
    using settled_refl[OF c] by (simp add: delete_character_def split: option.split)
qed

section \<open>Battlegrounds\<close>

text \<open>A raid that no side has yet.\<close>

lemma new_raid:
  assumes c: "core s" and k: "gs_bgraid s k = None"
  shows "core (SetBgRaid k (Some (gs_next s)) (new_party s))" (is "core ?s")
    and "sig (SetBgRaid k (Some (gs_next s)) (new_party s)) = (sig s)(gs_next s \<mapsto> (True, 0, (0, False), []))"
    and "gs_heap (SetBgRaid k (Some (gs_next s)) (new_party s)) (gs_next s) = Some (Group_new\<lparr>gp_bg := True\<rparr>)"
    and "gs_world (SetBgRaid k (Some (gs_next s)) (new_party s)) = gs_world s"
    and "gs_refs (SetBgRaid k (Some (gs_next s)) (new_party s)) = gs_refs s"
    and "gs_set (SetBgRaid k (Some (gs_next s)) (new_party s)) = gs_set s"
    and "gs_bgraid (SetBgRaid k (Some (gs_next s)) (new_party s)) = (gs_bgraid s)(k \<mapsto> gs_next s)"
proof -
  let ?n = "gs_next s"
  have eq: "?s = (put_party ?n (Group_new\<lparr>gp_bg := True\<rparr>) (new_party s))\<lparr>gs_bgraid := (gs_bgraid s)(k \<mapsto> ?n)\<rparr>"
    using k by (simp add: SetBgRaid_def Let_def new_party_sel)
  show heap: "gs_heap ?s ?n = Some (Group_new\<lparr>gp_bg := True\<rparr>)" and world: "gs_world ?s = gs_world s"
    and refs: "gs_refs ?s = gs_refs s" and set: "gs_set ?s = gs_set s" and bgraid: "gs_bgraid ?s = (gs_bgraid s)(k \<mapsto> ?n)"
    unfolding eq by (simp_all add: new_party_sel)
  have heaps: "gs_heap ?s = (gs_heap s)(?n \<mapsto> Group_new\<lparr>gp_bg := True\<rparr>)" unfolding eq by (auto simp: new_party_sel)
  show sig: "sig ?s = (sig s)(?n \<mapsto> (True, 0, (0, False), []))"
    by (auto simp: sig_def heaps Group_new_def fun_eq_iff)
  have fresh: "gs_heap s ?n = None" by (rule core_fresh[OF c])
  have at: "refs_at ?s = refs_at s" using fresh by (auto simp: refs_at_def heaps Group_new_def fun_eq_iff)
  have "sig s ?n = None" using fresh by simp
  then have inv: "invited_at ?s = invited_at s" by (auto simp: invited_at_def sig fun_eq_iff simp del: sig_None)
  have len: "loot_len ?s = loot_len s" unfolding eq by (simp add: loot_len_def new_party_sel fun_eq_iff)
  have "links_ok ?s" by (rule links_ok_view[OF c world at]) (simp add: refs)
  moreover have "invites_ok ?s"
  proof -
    have "invites_ok s" using c by (simp add: core_def)
    then show ?thesis by (auto simp: invites_ok_def inv sig refs world connected_def)
  qed
  moreover have "raids_ok ?s"
  proof -
    have R: "raids_ok s" using c by (simp add: core_def)
    have "gs_bgraid s j \<noteq> Some ?n" for j
      using R[unfolded raids_ok_def, THEN conjunct1, rule_format, of j ?n] fresh by (auto simp: sig_def)
    moreover have "plain s a \<Longrightarrow> plain ?s a" for a using fresh by (auto simp: plain_Some heaps)
    ultimately show ?thesis using R by (auto simp: raids_ok_def sig refs bgraid split: if_splits)
  qed
  moreover have "a < gs_next ?s \<and> slots_ok g \<and> rolls_ok (loot_len ?s) g" if "gs_heap ?s a = Some g" for a g
    using that party_coreD[OF c, of a g] unfolding eq by (auto simp: new_party_sel Group_new_def slots_ok_def rolls_ok_def loot_len_def split: if_splits)
  ultimately show "core ?s" using core_subs[OF c] by (simp add: core_def refs)
qed

lemma core_raid: "core s \<Longrightarrow> gs_bgraid s k = Some a \<Longrightarrow> \<exists>g. gs_heap s a = Some g \<and> gp_bg g"
  by (fastforce simp: core_def raids_ok_def sig_def)

lemma new_raid_server:
  assumes s: "server_ok s" and k: "gs_bgraid s k = None"
    and t: "turns (gs_next s) (Some (True, n, l, [])) (SetBgRaid k (Some (gs_next s)) (new_party s)) s'"
  shows "server_ok s'"
proof -
  let ?n = "gs_next s"
  note c = server_okD(1)[OF s] and f = server_okD(2)[OF s]
  have world: "gs_world s' = gs_world s" and set: "gs_set s' = gs_set s" and raid: "gs_bgraid s' = (gs_bgraid s)(k \<mapsto> ?n)"
    and sig: "sig s' = (sig s)(?n \<mapsto> (True, n, l, []))"
    using t new_raid[OF c k] by (simp_all add: turns_def)
  have out: "?n \<notin> List.set (gs_set s)" using formed_alive[OF f, of ?n] core_fresh[OF c] by auto
  have "formed s'"
    unfolding formed_def
  proof (intro conjI ballI allI impI)
    show "\<exists>x. sig s' a = Some x \<and> fst (snd x) \<noteq> 0" if "a \<in> List.set (gs_set s')" for a
      using that out formedD(1)[OF f, of a] by (cases "a = ?n") (auto simp: sig set)
    show "seat_ok x" if "sig s' a = Some x" for a x
      using that formedD(2)[OF f, of a x] by (cases "a = ?n") (auto simp: sig seat_ok_def)
    show "a \<notin> List.set (gs_set s')" if "gs_bgraid s' j = Some a" for j a
      using that out formedD(3)[OF f, of j a] by (cases "j = k") (auto simp: raid set)
  qed
  then show ?thesis using turns_core[OF t] server_okD(3)[OF s] by (simp add: server_ok_def parties_ok_def ids_ok_def world)
qed

text \<open>A raid that its side gives up is a group like others, which nobody is invited to.\<close>

lemma old_raid:
  assumes c: "core s" and k: "gs_bgraid s k = Some a" and g: "gs_heap s a = Some g" and inv: "gp_invitees g = []"
  shows "core (SetBgRaid k None s)" (is "core ?s")
    and "gs_heap (SetBgRaid k None s) a = Some (g\<lparr>gp_bg := False\<rparr>)"
    and "gs_world (SetBgRaid k None s) = gs_world s" and "gs_set (SetBgRaid k None s) = gs_set s"
    and "sig (SetBgRaid k None s) = (sig s)(a \<mapsto> (False, length (gp_members g), lead g, []))"
    and "\<And>j b. gs_bgraid (SetBgRaid k None s) j = Some b \<Longrightarrow> gs_bgraid s j = Some b"
proof -
  have eq: "?s = (put_party a (g\<lparr>gp_bg := False\<rparr>) s)\<lparr>gs_bgraid := (gs_bgraid s)(k := None)\<rparr>"
    using k g by (simp add: SetBgRaid_def Let_def)
  have heap: "gs_heap ?s = (gs_heap s)(a \<mapsto> g\<lparr>gp_bg := False\<rparr>)" and refs: "gs_refs ?s = gs_refs s"
    and raid: "gs_bgraid ?s = (gs_bgraid s)(k := None)" and rest: "gs_next ?s = gs_next s" "loot_len ?s = loot_len s"
    unfolding eq by (auto simp: loot_len_def)
  then show "gs_heap ?s a = Some (g\<lparr>gp_bg := False\<rparr>)" by simp
  show "gs_bgraid ?s j = Some b \<Longrightarrow> gs_bgraid s j = Some b" for j b by (simp add: raid split: if_splits)
  show world: "gs_world ?s = gs_world s" and "gs_set ?s = gs_set s" unfolding eq by simp_all
  show sig: "sig ?s = (sig s)(a \<mapsto> (False, length (gp_members g), lead g, []))"
    by (auto simp: sig_def heap inv fun_eq_iff)
  have at: "refs_at ?s = refs_at s" using g by (auto simp: refs_at_def heap fun_eq_iff)
  have invs: "invited_at ?s = invited_at s" using g inv by (auto simp: invited_at_def sig fun_eq_iff sig_def)
  have "links_ok ?s" by (rule links_ok_view[OF c world at]) (simp add: refs)
  moreover have "invites_ok ?s"
  proof -
    have "invites_ok s" using c by (simp add: core_def)
    then show ?thesis by (auto simp: invites_ok_def invs sig refs world connected_def)
  qed
  moreover have "raids_ok ?s"
  proof -
    have R: "raids_ok s" using c by (simp add: core_def)
    have "j = k" if "gs_bgraid s j = Some a" for j using R that k unfolding raids_ok_def by blast
    moreover have "plain s b \<Longrightarrow> plain ?s b" for b by (auto simp: plain_Some heap)
    ultimately show ?thesis using R by (auto simp: raids_ok_def sig refs raid split: if_splits)
  qed
  moreover have "b < gs_next s \<and> slots_ok h \<and> rolls_ok (loot_len s) h" if "gs_heap ?s b = Some h" for b h
    using that party_coreD[OF c, of b] g by (auto simp: heap slots_ok_def rolls_ok_def split: if_splits)
  ultimately show "core ?s" using core_subs[OF c] by (simp add: core_def refs rest)
qed

text \<open>A player enters whose only group is his own, and who is not invited; the code passes his low guid for his guid.\<close>

lemma ok_enter_bg_raid:
  assumes s: "server_ok s" and me: "connected (pl_guid me) s" and no: "gr_invite (gs_refs s (pl_guid me)) = None"
    and own: "\<And>b. gr_group (gs_refs s (pl_guid me)) = Some b \<Longrightarrow> plain s b"
    and low: "ucast (GUID_LOPART (pl_guid me)) = pl_guid me"
  shows "ok server_ok (enter_bg_raid k me s)"
proof (cases "gs_bgraid s k")
  case None
  let ?s = "SetBgRaid k (Some (gs_next s)) (new_party s)"
  note c = server_okD(1)[OF s] and R = new_raid[OF server_okD(1)[OF s] None]
  have grp: "gr_invite (gs_refs ?s (pl_guid me)) = None" "gr_group (gs_refs ?s (pl_guid me)) = Some b \<Longrightarrow> plain ?s b" for b
    using no own[of b] core_fresh[OF c] by (auto simp: R(5) plain_def R(2) sig_def)
  have "ok server_ok (and_then (Group_Create (gs_next s) (pl_guid me) (c_str (pl_name me)) ?s) (\<lambda>(ok, s). Inr s))"
  proof (rule ok_bind2[OF ok_Group_Create[OF R(1,3) grp(1) _ grp(2)]])
    fix b s1
    assume "\<exists>n. turns (gs_next s) (Some (gp_bg (Group_new\<lparr>gp_bg := True\<rparr>), n, (pl_guid me, gp_bg (Group_new\<lparr>gp_bg := True\<rparr>)),
        gp_invitees (Group_new\<lparr>gp_bg := True\<rparr>))) ?s s1
      \<and> (\<not> gp_bg (Group_new\<lparr>gp_bg := True\<rparr>) \<and> gp_members (Group_new\<lparr>gp_bg := True\<rparr>) = [] \<and> connected (pl_guid me) ?s
        \<and> pl_guid me \<noteq> 0 \<longrightarrow> n \<noteq> 0)"
    then obtain n where "turns (gs_next s) (Some (True, n, (pl_guid me, True), [])) ?s s1" by (auto simp: Group_new_def)
    then show "ok server_ok (Inr s1)" using new_raid_server[OF s None] by simp
  qed auto
  then show ?thesis using None by (simp add: enter_bg_raid_def Let_def low new_party_def)
next
  case (Some a)
  note c = server_okD(1)[OF s]
  obtain g where g: "gs_heap s a = Some g" using core_raid[OF c Some] by blast
  have again: "ok (settled s) (SetBattlegroundRaid (pl_guid me) a (GetMemberGroup (pl_guid me) g) s)" if "is_member (pl_guid me) g"
    using GetMemberGroup_less[OF party_coreD(2)[OF c g] that] me own g
    by (intro keeps_ok_settled ok_SetBattlegroundRaid[OF c]) auto
  have join: "ok (settled s) (and_then (Group_AddMember a (pl_guid me) (c_str (pl_name me)) s) (\<lambda>(ok, s). Inr s))"
  proof (rule ok_bind2[OF ok_Group_AddMember[OF c g no own]])
    fix b s1
    assume "(\<not> gp_raid g \<and> \<not> IsFull g \<and> pl_guid me \<noteq> 0 \<longrightarrow> b)
      \<and> (if b then turns a (Some (gp_bg g, Suc (length (gp_members g)), lead g, gp_invitees g)) s s1 else s1 = s)"
    then show "ok (settled s) (Inr s1)" using turns_settled settled_refl[OF c] by (auto split: if_splits)
  qed
  show ?thesis using ok_server[OF s] again join Some g by (simp add: enter_bg_raid_def)
qed

lemma ok_leave_bg_raid:
  assumes s: "server_ok s"
  shows "ok server_ok (leave_bg_raid k h s)"
proof (cases "gs_bgraid s k")
  case None
  then show ?thesis using s by (simp add: leave_bg_raid_def)
next
  case (Some a)
  note c = server_okD(1)[OF s] and f = server_okD(2)[OF s]
  obtain g where g: "gs_heap s a = Some g" "gp_bg g" using core_raid[OF c Some] by blast
  have out: "a \<notin> set (gs_set s)" by (rule formedD(3)[OF f Some])
  show ?thesis
    unfolding leave_bg_raid_def Some option.case
  proof (rule ok_bind2[OF ok_RemoveMember[OF c g(1)]])
    fix n s1
    assume "\<exists>l is. turns a (Some (gp_bg g, n, (l, gp_raid g), is)) s s1 \<and> (n \<le> 1 \<longrightarrow> is = [])"
    then obtain l "is" where t: "turns a (Some (gp_bg g, n, (l, gp_raid g), is)) s s1" and inv: "n \<le> 1 \<longrightarrow> is = []" by blast
    show "ok server_ok (Inr (if n = 0 then delete_party a (SetBgRaid k None s1) else s1))"
    proof (cases "n = 0")
      case False
      then show ?thesis using turns_settled_pos[OF t] settled_server[OF s] by simp
    next
      case True
      have c1: "core s1" by (rule turns_core[OF t])
      obtain g1 where g1: "gs_heap s1 a = Some g1" "length (gp_members g1) = 0" "gp_invitees g1 = []"
        using turns_view[OF t] inv True by auto
      have k1: "gs_bgraid s1 k = Some a" using t Some by (simp add: turns_def)
      let ?s = "SetBgRaid k None s1"
      have s2: "core ?s" "gs_heap ?s a = Some (g1\<lparr>gp_bg := False\<rparr>)" "gs_world ?s = gs_world s1" "gs_set ?s = gs_set s1"
        "sig ?s = (sig s1)(a \<mapsto> (False, 0, lead g1, []))" "\<And>j b. gs_bgraid ?s j = Some b \<Longrightarrow> gs_bgraid s1 j = Some b"
        using old_raid[OF c1 k1 g1(1,3)] g1(2) by simp_all
      have d: "core (delete_party a ?s)" "gs_world (delete_party a ?s) = gs_world s" "gs_set (delete_party a ?s) = gs_set s"
        "sig (delete_party a ?s) = (sig s)(a := None)" "gs_bgraid (delete_party a ?s) j = Some b \<Longrightarrow> gs_bgraid s j = Some b" for j b
        using core_delete[OF s2(1,2)] s2(3-6) g1(3) t by (simp_all add: turns_def)
      have "formed (delete_party a ?s)"
      proof (rule formedI[OF f])
        show "b \<in> set (gs_set s) \<and> (\<exists>x. sig (delete_party a ?s) b = Some x \<and> fst (snd x) \<noteq> 0)"
          if "b \<in> set (gs_set (delete_party a ?s))" for b
          using that out formedD(1)[OF f, of b] d(3,4) by (cases "b = a") auto
        show "seat_ok x" if "sig (delete_party a ?s) b = Some x" for b x
          using that formedD(2)[OF f, of b x] d(4) by (cases "b = a") auto
      qed (rule d(5))
      then show ?thesis using True d(1,2) server_okD(3)[OF s] by (simp add: server_ok_def parties_ok_def ids_ok_def)
    qed
  qed
qed

section \<open>Loot and difficulty\<close>

lemma ok_loots:
  assumes s: "server_ok s" and new: "\<And>a g r. v \<noteq> None \<Longrightarrow> gs_heap s a = Some g \<Longrightarrow> r \<in> set (gp_rolls g) \<Longrightarrow> ro_loot r \<noteq> Some l"
  shows "server_ok (s\<lparr>gs_loots := (gs_loots s)(l := v)\<rparr>)" (is "server_ok ?s")
proof -
  note c = server_okD(1)[OF s]
  have views: "sig ?s = sig s" "refs_at ?s = refs_at s" "invited_at ?s = invited_at s" "connected h ?s = connected h s" "plain ?s = plain s" for h
    by (simp_all add: sig_def refs_at_def invited_at_def connected_def plain_def fun_eq_iff)
  have rolls: "rolls_ok (loot_len ?s) g" if "gs_heap s a = Some g" for a g
    using party_coreD(3)[OF c that] new[OF _ that] unfolding rolls_ok_def loot_len_def
    by (cases v) (fastforce split: if_splits)+
  have "links_ok s" "invites_ok s" "raids_ok s" using c by (simp_all add: core_def)
  then have "core ?s"
    using c rolls by (simp add: core_def links_ok_def invites_ok_def raids_ok_def views)
  moreover have "formed ?s" using server_okD(2)[OF s] by (simp add: formed_def views)
  ultimately show ?thesis using server_okD(3)[OF s] by (simp add: server_ok_def parties_ok_def ids_ok_def)
qed

lemma ok_loot_timer_ends:
  assumes s: "server_ok s"
  shows "\<exists>r. loot_timer_ends env leader s = Some r \<and> ok server_ok r"
proof (cases "GetGroupByLeader leader s")
  case None
  then show ?thesis using s by (simp add: loot_timer_ends_def)
next
  case (Some a)
  have "gs_heap s a \<noteq> None" using formed_alive[OF server_okD(2)[OF s] GetGroupByLeader_set[OF Some]] by auto
  from ok_EndRoll[OF server_okD(1)[OF s] this, of env] obtain r where "EndRoll env a s = Some r"
    and "ok (\<lambda>s'. keeps s s' \<and> (\<exists>g. gs_heap s' a = Some g \<and> gp_rolls g = [])) r" by blast
  moreover from this(2) have "ok server_ok r" by (intro ok_server_keeps[OF s]) (rule ok_mono, assumption, simp)
  ultimately show ?thesis using Some by (simp add: loot_timer_ends_def)
qed

lemma ok_start_loot:
  assumes c: "core s" and p: "GetPlayer (gs_world s) h \<noteq> None" and q: "\<And>i. le_quality env i \<noteq> None"
  shows "ok (keeps s) (start_loot env h l s)"
proof (cases "gr_group (gs_refs s h)")
  case None
  then show ?thesis using keeps_refl[OF c] by (simp add: start_loot_def)
next
  case (Some a)
  have a: "gs_heap s a \<noteq> None" using core_group[OF c Some] by auto
  show ?thesis
    unfolding start_loot_def Some option.case
  proof (rule ok_keeps_bind[OF ok_UpdateLooterGuid[OF c a]])
    fix s1 assume k: "keeps s s1"
    obtain g where g: "gs_heap s1 a = Some g" using keeps_Some[OF k a] by blast
    have c1: "core s1" by (rule keeps_core[OF k])
    have a1: "gs_heap s1 a \<noteq> None" and p1: "GetPlayer (gs_world s1) h \<noteq> None"
      using g p frame_eqD(1)[OF keeps_frame[OF k]] by simp_all
    show "ok (keeps s1) (with_party a s1 (\<lambda>g.
          if gp_lootMethod g = GROUP_LOOT then GroupLoot env a h l s1
          else if gp_lootMethod g = NEED_BEFORE_GREED then NeedBeforeGreed env a h l s1
          else if gp_lootMethod g = MASTER_LOOT then MasterLoot env a h l s1 else Inr s1))"
      using ok_start_rolls[OF c1 a1 p1] q ok_MasterLoot[OF c1 a1] keeps_refl[OF c1] by (simp add: g)
  qed
qed

lemma answers_Difficulty [answer]:
  assumes c: "core s"
  shows "answers s (HandleDungeonDifficultyOpcode in_dungeon me s)"
  unfolding HandleDungeonDifficultyOpcode_def Let_def
proof (intro answers_rd answers_done keeps_ok_settled)
  fix mode :: u32
  have set: "ok (keeps s) (Group_SetDifficulty a d (glog [ResetGroupInstances a] s))" if "gs_heap s a = Some g" for a g d
    using ok_Group_SetDifficulty[of "glog [ResetGroupInstances a] s" a d] that c by simp
  show "ok (keeps s) (if mode = ucast (gs_difficulty s (pl_guid me)) \<or> mode > 1 \<or> in_dungeon \<or> pl_level me < LEVELREQUIREMENT_HEROIC then Inr s
          else case gr_group (gs_refs s (pl_guid me)) of
                 Some a \<Rightarrow> with_party a s (\<lambda>g.
                   if IsLeader (pl_guid me) g then Group_SetDifficulty a (ucast mode) (glog [ResetGroupInstances a] s) else Inr s)
               | None \<Rightarrow> Inr ((glog [ResetInstances (pl_guid me)] s)\<lparr>gs_difficulty := (gs_difficulty s)(pl_guid me := ucast mode)\<rparr>))"
    using keeps_refl[OF c] set core_group[OF c, of "pl_guid me"] by (auto split: option.split)
qed

section \<open>All calls\<close>

definition party_handlers :: "party_env \<Rightarrow> loot_env \<Rightarrow> bool \<Rightarrow> player \<Rightarrow> group_server \<Rightarrow> party_handler list" where
  "party_handlers env lenv dungeon me s =
     [HandleGroupInviteOpcode env me s, HandleGroupDeclineOpcode me s, HandleGroupUninviteGuidOpcode env me s,
      HandleGroupUninviteNameOpcode env me s, HandleGroupSetLeaderOpcode me s, HandleGroupLeaveOpcode env me s,
      HandleLootMethodOpcode me s, HandleLootRoll lenv me s, HandleMinimapPingOpcode me s, HandleRandomRollOpcode env me s,
      HandleRaidIconTargetOpcode me s, HandleRaidConvertOpcode env me s, HandleGroupAssistantOpcode me s,
      HandleRaidReadyCheckOpcode me s, HandleGroupPassOnLootOpcode me s, HandleGroupSwapSubGroupOpcode me s,
      HandleDungeonDifficultyOpcode dungeon me s]"

text \<open>
  The calls, with their results. Four of them are left out in some states, in which they do fail: accepting an
  invitation while the leader is between two maps (he stays invited to his own group), a subgroup number of more than
  eight, the login of a player whose row names a group that does not have him, and entering a battleground with
  an invitation pending.
\<close>

inductive party_call :: "group_server \<Rightarrow> group_result option \<Rightarrow> bool" where
  packet: "me \<in> set (w_players (gs_world s)) \<Longrightarrow> h \<in> set (party_handlers env lenv dungeon me s) \<Longrightarrow> h b = Inr r \<Longrightarrow> party_call s (Some r)"
| accept: "me \<in> set (w_players (gs_world s)) \<Longrightarrow> leader_ready (pl_guid me) s \<Longrightarrow> HandleGroupAcceptOpcode me s b = Inr r \<Longrightarrow>
    party_call s (Some r)"
| subgroup: "gr_group (gs_refs s (pl_guid me)) = Some a \<Longrightarrow> gs_heap s a = Some g \<Longrightarrow> unat k < 8 \<Longrightarrow>
    party_call s (Some (change_subgroup env me a g n k s))"
| promote: "HandleGroupPromoteOpcode me s b = Inr r \<Longrightarrow> party_call s r"
| login: "\<not> connected (pl_guid p) s \<Longrightarrow> pl_guid p \<noteq> 0 \<Longrightarrow> row_ok (pl_guid p) row s \<Longrightarrow> party_call s (Some (player_login p row s))"
| logout: "party_call s (Some (player_logout h s))"
| moved: "party_call s (Some (Inr (player_moved h inside s)))"
| deleted: "party_call s (Some (delete_character h row s))"
| enter: "me \<in> set (w_players (gs_world s)) \<Longrightarrow> gr_invite (gs_refs s (pl_guid me)) = None \<Longrightarrow>
    (\<And>a. gr_group (gs_refs s (pl_guid me)) = Some a \<Longrightarrow> plain s a) \<Longrightarrow> ucast (GUID_LOPART (pl_guid me)) = pl_guid me \<Longrightarrow>
    party_call s (Some (enter_bg_raid k me s))"
| leave: "party_call s (Some (leave_bg_raid k h s))"
| filled: "(\<And>a g r. gs_heap s a = Some g \<Longrightarrow> r \<in> set (gp_rolls g) \<Longrightarrow> ro_loot r \<noteq> Some l) \<Longrightarrow>
    party_call s (Some (Inr (Loot_filled l lo s)))"
| cleared: "party_call s (Some (Inr (Loot_clear l s)))"
| looted: "GetPlayer (gs_world s) h \<noteq> None \<Longrightarrow> (\<And>i. le_quality lenv i \<noteq> None) \<Longrightarrow> party_call s (Some (start_loot lenv h l s))"
| timer: "party_call s (loot_timer_ends lenv leader s)"

lemma answers_server: "server_ok s \<Longrightarrow> answers s h \<Longrightarrow> h b = Inr r \<Longrightarrow> ok server_ok r"
  unfolding answers_def by (rule ok_server) blast+

lemma party_handlers_answer:
  assumes s: "server_ok s" and me: "me \<in> set (w_players (gs_world s))" and h: "h \<in> set (party_handlers env lenv dungeon me s)"
  shows "answers s h"
proof -
  note c = server_okD(1)[OF s] and f = server_okD(2)[OF s]
  have "connected (pl_guid me) s" using me by (auto simp: connected_iff)
  then have "answers s x" if "x \<in> set (party_handlers env lenv dungeon me s)" for x
    using that by (auto simp: party_handlers_def intro!: answers_Invite answers_Decline answers_uninvite answers_leader answers_LootMethod
        answers_simple answers_Difficulty c f)
  then show ?thesis using h by blast
qed

lemma party_call_ok:
  assumes call: "party_call s r" and s: "server_ok s"
  shows "\<exists>r'. r = Some r' \<and> ok server_ok r'"
  using call
proof cases
  case packet
  then show ?thesis using answers_server[OF s party_handlers_answer[OF s]] by blast
next
  case (accept me b r)
  have "answers s (HandleGroupAcceptOpcode me s)"
    using server_okD[OF s] accept(3) by (intro answers_Accept) (auto simp: ids_ok_def)
  then show ?thesis using answers_server[OF s] accept by blast
next
  case (subgroup me a g k)
  then show ?thesis using ok_server_keeps[OF s ok_change_subgroup[OF server_okD(1)[OF s]]] by blast
next
  case (promote me b)
  then show ?thesis using ok_Promote[OF server_okD(1)[OF s]] ok_server_keeps[OF s] by blast
next
  case (enter me k)
  have "ok server_ok (enter_bg_raid k me s)"
    by (rule ok_enter_bg_raid[OF s]) (use enter in \<open>auto simp: connected_iff\<close>)
  then show ?thesis using enter(1) by blast
next
  case (looted h lenv l)
  have "ok server_ok (start_loot lenv h l s)"
    by (rule ok_server_keeps[OF s ok_start_loot[OF server_okD(1)[OF s]]]) (use looted in auto)
  then show ?thesis using looted(1) by blast
next
  case (filled l lo)
  have "server_ok (Loot_filled l lo s)" unfolding Loot_filled_def by (rule ok_loots[OF s]) (use filled(2) in blast)
  then show ?thesis using filled(1) by simp
next
  case (cleared l)
  have "server_ok (Loot_clear l s)" unfolding Loot_clear_def by (rule ok_loots[OF s]) simp
  then show ?thesis using cleared(1) by simp
qed (use ok_player_login[OF s] ok_player_logout[OF s] ok_player_moved[OF s] ok_delete_character[OF s] ok_leave_bg_raid[OF s]
       ok_loot_timer_ends[OF s] in auto)

end
