(* ===== verification/GroupLoad.thy ===== *)
theory GroupLoad
  imports GroupRuns
begin

text \<open>
  The start of the server: the groups that \<open>LoadGroups\<close> builds from the two tables are in a good state, when the rows
  of members name subgroups that exist.
\<close>

text \<open>No player is connected yet, and the groups are those of the set.\<close>

definition unused :: "group_server \<Rightarrow> bool" where
  "unused s \<longleftrightarrow> w_players (gs_world s) = [] \<and> gs_refs s = (\<lambda>_. no_refs) \<and> gs_bgraid s = (\<lambda>_. None) \<and> distinct (gs_set s)
     \<and> (\<forall>a. gs_heap s a \<noteq> None \<longleftrightarrow> a \<in> set (gs_set s))
     \<and> (\<forall>a g. gs_heap s a = Some g \<longrightarrow> a < gs_next s \<and> slots_ok g \<and> gp_refs g = [] \<and> gp_invitees g = [] \<and> gp_rolls g = [] \<and> \<not> gp_bg g)"

lemma unusedD:
  assumes "unused s"
  shows "FindPlayer (gs_world s) h True = None" "gs_refs s = (\<lambda>_. no_refs)" "gs_bgraid s = (\<lambda>_. None)" "distinct (gs_set s)"
    "gs_heap s a \<noteq> None \<longleftrightarrow> a \<in> set (gs_set s)"
    "gs_heap s a = Some g \<Longrightarrow> a < gs_next s \<and> slots_ok g \<and> gp_refs g = [] \<and> gp_invitees g = [] \<and> gp_rolls g = [] \<and> \<not> gp_bg g"
  using assms by (auto simp: unused_def FindPlayer_def)

lemma no_refs_sel [simp]: "ref_target b no_refs = None" "gr_invite no_refs = None" "gr_subgroup no_refs = 0" "gr_originalSub no_refs = 0"
  by (simp_all add: no_refs_def ref_target_def)

lemma unused_core:
  assumes u: "unused s"
  shows "core s"
proof -
  have at: "refs_at s a = {}" and inv: "invited_at s a = {}" for a
    using unusedD(6)[OF u, of a] by (auto simp: refs_at_def invited_at_def sig_def split: option.splits)
  have "\<not> gp_bg g" if "gs_heap s a = Some g" for a g using unusedD(6)[OF u that] by simp
  then have "links_ok s" "invites_ok s" "raids_ok s"
    by (auto simp: links_ok_def invites_ok_def raids_ok_def at inv unusedD(2,3)[OF u] sig_Some)
  moreover have "a < gs_next s \<and> slots_ok g \<and> rolls_ok (loot_len s) g" if "gs_heap s a = Some g" for a g
    using unusedD(6)[OF u that] by (auto simp: rolls_ok_def)
  ultimately show ?thesis by (auto simp: core_def unusedD(2)[OF u])
qed

lemma unused_server:
  assumes u: "unused s" and big: "\<And>a g. gs_heap s a = Some g \<Longrightarrow> gp_members g \<noteq> []"
  shows "server_ok s"
proof -
  have "\<exists>x. sig s a = Some x \<and> fst (snd x) \<noteq> 0" if "a \<in> set (gs_set s)" for a
    using that unusedD(5)[OF u, of a] big[of a] by (auto simp: sig_def)
  moreover have "seat_ok x" if "sig s a = Some x" for a x using that big[of a] by (auto simp: sig_def seat_ok_def)
  ultimately have "formed s" by (auto simp: formed_def unusedD(3)[OF u])
  then show ?thesis using unused_core[OF u] u by (simp add: server_ok_def parties_ok_def ids_ok_def unused_def)
qed

lemma unused_log [simp]: "unused (glog as s) = unused s"
  by (simp add: unused_def)

lemma unused_put:
  assumes u: "unused s" and a: "gs_heap s a = Some g" and g': "slots_ok g'" "gp_refs g' = []" "gp_invitees g' = []" "gp_rolls g' = []" "\<not> gp_bg g'"
  shows "unused (put_party a g' s)"
  using u a g' unfolding unused_def by (auto split: if_splits)

lemma unused_new:
  assumes u: "unused s" and s': "s' = s\<lparr>gs_heap := (gs_heap s)(gs_next s \<mapsto> g), gs_next := Suc (gs_next s), gs_set := List.insert (gs_next s) (gs_set s)\<rparr>"
    and g: "slots_ok g" "gp_refs g = []" "gp_invitees g = []" "gp_rolls g = []" "\<not> gp_bg g"
  shows "unused s'"
  using u g unfolding unused_def s' by (auto split: if_splits simp: less_Suc_eq)

text \<open>Disbanding and deleting a group that nobody is connected of.\<close>

lemma Disband_unused:
  assumes w: "\<And>h. FindPlayer (gs_world s) h True = None" and a: "gs_heap s a = Some g" and g: "gp_invitees g = []" "\<not> gp_bg g" "gp_refs g = []"
  shows "Group_Disband a hide s = Inr (glog [GSql (DeleteGroup (GUID_LOPART (gp_leaderGuid g))),
      GSql (DeleteGroupMembers (GUID_LOPART (gp_leaderGuid g))), ResetGroupInstances a]
      (put_party a (g\<lparr>gp_rolls := [], gp_members := [], gp_invitees := [], gp_leaderGuid := 0, gp_leaderName := ''''\<rparr>) s))"
proof -
  have none: "for_all (disband_member a bg hide) ms s = Inr s" for bg ms
    using w by (induction ms) (simp_all add: disband_member_def)
  have "GetPlayer (gs_world s) h = None" for h using w[of h] GetPlayer_connected[of "gs_world s" h] by (cases "GetPlayer (gs_world s) h") auto
  then show ?thesis
    using a g by (simp add: Group_Disband_def none RemoveAllInvites_def Let_def) (simp add: put_party_def glog_def)
qed

lemma delete_unused:
  assumes "gp_refs g = []" and "\<not> gp_bg g"
  shows "delete_party a (glog as (put_party a g s)) = glog as (s\<lparr>gs_heap := (gs_heap s)(a := None)\<rparr>)"
  using assms by (simp add: delete_party_def Let_def) (simp add: put_party_def glog_def)

lemma disband_delete:
  assumes w: "\<And>h. FindPlayer (gs_world s) h True = None" and a: "gs_heap s a = Some g" and g: "gp_invitees g = []" "\<not> gp_bg g" "gp_refs g = []"
  shows "\<exists>as. and_then (Group_Disband a hide s) (\<lambda>s. Inr (delete_party a s)) = Inr (glog as (s\<lparr>gs_heap := (gs_heap s)(a := None)\<rparr>))"
  using g by (simp add: Disband_unused[OF assms] delete_unused) blast

section \<open>Rows of groups\<close>

lemma ok_read_group_row:
  assumes "slots_ok g" and "gp_members g = []" and "gp_subGroupsCounts g = None"
  shows "ok (\<lambda>g'. slots_ok g' \<and> gp_refs g' = gp_refs g \<and> gp_invitees g' = gp_invitees g \<and> gp_rolls g' = gp_rolls g \<and> gp_bg g' = gp_bg g)
    (read_group_row leader name row g)"
  using assms by (auto simp: read_group_row_def Let_def initRaidSubGroupsCounter_def slots_ok_def)

lemma ok_load_group:
  assumes u: "unused s"
  shows "ok unused (load_group row s)"
proof -
  let ?a = "gs_next s" and ?t = "new_party s" and ?lead = "MAKE_NEW_GUID (gw_column15 row) 0 HIGHGUID_PLAYER"
  have fresh: "gs_heap s ?a = None" by (rule core_fresh[OF unused_core[OF u]])
  have new: "gs_heap ?t ?a = Some Group_new" by (simp add: new_party_sel)
  have sel: "slots_ok Group_new" "gp_members Group_new = []" "gp_refs Group_new = []" "gp_invitees Group_new = []" "gp_rolls Group_new = []"
    "\<not> gp_bg Group_new" "gp_subGroupsCounts Group_new = None" by (simp_all add: Group_new_def slots_ok_def)
  show ?thesis
  proof (cases "GetPlayerNameByGUID (gs_world s) ?lead")
    case None
    let ?g = "Group_new\<lparr>gp_leaderGuid := ?lead\<rparr>"
    let ?u = "put_party ?a ?g ?t"
    have "\<exists>as. and_then (Group_Disband ?a False ?u) (\<lambda>s. Inr (delete_party ?a s)) = Inr (glog as (?u\<lparr>gs_heap := (gs_heap ?u)(?a := None)\<rparr>))"
      by (rule disband_delete[of _ _ ?g]) (use unusedD(1)[OF u] sel in \<open>simp_all add: new_party_sel\<close>)
    moreover have "?u\<lparr>gs_heap := (gs_heap ?u)(?a := None)\<rparr> = s\<lparr>gs_next := Suc (gs_next s)\<rparr>"
      using fresh by (simp add: put_party_def new_party_def fun_upd_idem)
    moreover have "unused (s\<lparr>gs_next := Suc (gs_next s)\<rparr>)" using u by (auto simp: unused_def less_Suc_eq)
    moreover have "load_group row s = and_then (Group_Disband ?a False ?u) (\<lambda>s. Inr (delete_party ?a s))"
      using None sel by (simp add: load_group_def Let_def new_party_def LoadGroupFromDB_def)
    ultimately show ?thesis by auto
  next
    case (Some name)
    have load: "ok unused (and_then (read_group_row ?lead name row Group_new) (\<lambda>g. Inr (AddGroup ?a (put_party ?a g ?t))))"
    proof (rule ok_bind[OF ok_read_group_row[OF sel(1,2,7)]])
      fix g assume g: "slots_ok g \<and> gp_refs g = gp_refs Group_new \<and> gp_invitees g = gp_invitees Group_new \<and> gp_rolls g = gp_rolls Group_new
          \<and> gp_bg g = gp_bg Group_new"
      have "unused (AddGroup ?a (put_party ?a g ?t))"
        by (rule unused_new[OF u, of _ g]) (use g sel in \<open>simp_all add: AddGroup_def put_party_def new_party_def\<close>)
      then show "ok unused (Inr (AddGroup ?a (put_party ?a g ?t)))" by simp
    qed
    have "load_group row s = and_then (read_group_row ?lead name row Group_new) (\<lambda>g. Inr (AddGroup ?a (put_party ?a g ?t)))"
      using Some sel by (simp add: load_group_def Let_def new_party_def LoadGroupFromDB_def and_then_assoc)
    then show ?thesis using load by simp
  qed
qed

section \<open>Rows of members\<close>

definition member_row_ok :: "group_member_row \<Rightarrow> bool" where
  "member_row_ok m \<longleftrightarrow> unat (gm_subgroup m) < 8 \<and> gm_member m \<noteq> 0"

lemma player_guid_nonzero: "l \<noteq> 0 \<Longrightarrow> MAKE_NEW_GUID l 0 HIGHGUID_PLAYER \<noteq> 0"
  using lopart_make_32[of l HIGHGUID_PLAYER] by auto

lemma ok_LoadMember:
  assumes u: "unused s" and a: "a \<in> set (gs_set s)" and k: "unat k < 8" and low: "low \<noteq> 0"
  shows "ok (\<lambda>(b, s'). unused s' \<and> gs_set s' = gs_set s) (LoadMemberFromDB a low k asst s)"
proof -
  let ?h = "MAKE_NEW_GUID low 0 HIGHGUID_PLAYER"
  obtain g where g: "gs_heap s a = Some g" using unusedD(5)[OF u, of a] a by blast
  note G = unusedD(6)[OF u g]
  show ?thesis
  proof (cases "GetPlayerNameByGUID (gs_world s) ?h")
    case None
    then show ?thesis using u by (simp add: LoadMemberFromDB_def Let_def)
  next
    case (Some n)
    let ?g = "g\<lparr>gp_members := gp_members g @ [\<lparr>ms_guid = ?h, ms_name = n, ms_group = k, ms_assistant = asst\<rparr>]\<rparr>"
    have "slots_ok ?g" using G k player_guid_nonzero[OF low] by (auto simp: slots_ok_def)
    then have "ok (\<lambda>(b, s'). unused s' \<and> gs_set s' = gs_set s)
        (and_then (SubGroupCounterIncrease k ?g) (\<lambda>g. Inr (True, put_party a g s)))"
      using G by (intro ok_bind[OF ok_count_sub[OF _ k]]) (auto simp: recounted_def intro!: unused_put[OF u g])
    then show ?thesis using Some g by (simp add: LoadMemberFromDB_def Let_def)
  qed
qed

lemma ok_load_group_members:
  assumes "\<And>m. m \<in> set ms \<Longrightarrow> member_row_ok m" and "unused s" and "\<And>a. cur = Some a \<Longrightarrow> a \<in> set (gs_set s)"
  shows "ok unused (load_group_members cur ms s)"
  using assms
proof (induction ms arbitrary: cur s)
  case Nil
  then show ?case by simp
next
  case (Cons m ms)
  let ?lead = "MAKE_NEW_GUID (gm_leader m) 0 HIGHGUID_PLAYER"
  define same where "same = (case cur of None \<Rightarrow> False
      | Some a \<Rightarrow> (case gs_heap s a of None \<Rightarrow> False | Some g \<Rightarrow> gp_leaderGuid g = ?lead))"
  define cur' where "cur' = (if same then cur else GetGroupByLeader ?lead s)"
  have m: "member_row_ok m" and ms: "\<And>m. m \<in> set ms \<Longrightarrow> member_row_ok m" using Cons.prems(1) by auto
  have in': "a \<in> set (gs_set s)" if "cur' = Some a" for a
    using that Cons.prems(3) GetGroupByLeader_set by (auto simp: cur'_def split: if_splits)
  have eq: "load_group_members cur (m # ms) s = (case cur' of
           None \<Rightarrow> load_group_members None ms (party_sql (DeleteGroupMember (gm_member m)) s)
         | Some a \<Rightarrow>
             and_then (LoadMemberFromDB a (gm_member m) (gm_subgroup m) (gm_assistant m) s) (\<lambda>(ok, s).
               load_group_members cur' ms (if ok then s else party_sql (DeleteGroupMember (gm_member m)) s)))"
    unfolding load_group_members.simps Let_def same_def[symmetric] cur'_def[symmetric] by (rule refl)
  show ?case
  proof (cases cur')
    case None
    then show ?thesis using Cons.IH[OF ms, of "party_sql (DeleteGroupMember (gm_member m)) s" None] Cons.prems(2) by (simp add: eq del: load_group_members.simps)
  next
    case (Some a)
    have "ok unused (and_then (LoadMemberFromDB a (gm_member m) (gm_subgroup m) (gm_assistant m) s) (\<lambda>(ok, s).
        load_group_members cur' ms (if ok then s else party_sql (DeleteGroupMember (gm_member m)) s)))"
    proof (rule ok_bind2[OF ok_LoadMember[OF Cons.prems(2) in'[OF Some]]])
      show "unat (gm_subgroup m) < 8" "gm_member m \<noteq> 0" using m by (simp_all add: member_row_ok_def)
      fix b s1 assume "unused s1 \<and> gs_set s1 = gs_set s"
      then show "ok unused (load_group_members cur' ms (if b then s1 else party_sql (DeleteGroupMember (gm_member m)) s1))"
        using in' by (intro Cons.IH[OF ms]) auto
    qed
    then show ?thesis using Some by (simp add: eq del: load_group_members.simps)
  qed
qed

section \<open>Groups that are too small\<close>

definition small :: "party option \<Rightarrow> bool" where
  "small g' \<longleftrightarrow> (case g' of None \<Rightarrow> False | Some g \<Rightarrow> length (gp_members g) < 2)"

lemma ok_clean_group:
  assumes u: "unused s" and a: "a \<in> set (gs_set s)"
  shows "ok (\<lambda>s'. unused s' \<and> gs_heap s' = (if small (gs_heap s a) then (gs_heap s)(a := None) else gs_heap s)) (clean_group a s)"
proof -
  obtain g where g: "gs_heap s a = Some g" using unusedD(5)[OF u, of a] a by blast
  note G = unusedD(6)[OF u g]
  show ?thesis
  proof (cases "length (gp_members g) < 2")
    case False
    then show ?thesis using u g by (simp add: clean_group_def small_def)
  next
    case True
    obtain as where "and_then (Group_Disband a False s) (\<lambda>s. Inr (delete_party a s)) = Inr (glog as (s\<lparr>gs_heap := (gs_heap s)(a := None)\<rparr>))"
      using disband_delete[OF unusedD(1)[OF u] g, of False] G by blast
    then have "clean_group a s = Inr (RemoveGroup a (glog as (s\<lparr>gs_heap := (gs_heap s)(a := None)\<rparr>)))"
      using g True by (cases "Group_Disband a False s") (auto simp: clean_group_def)
    moreover have "unused (RemoveGroup a (s\<lparr>gs_heap := (gs_heap s)(a := None)\<rparr>))"
      using u by (auto simp: unused_def RemoveGroup_def distinct_removeAll split: if_splits)
    ultimately show ?thesis using g True by (simp add: small_def RemoveGroup_def glog_def unused_def)
  qed
qed

lemma ok_clean_groups:
  assumes "distinct xs" and "unused s" and "set xs \<subseteq> set (gs_set s)"
  shows "ok (\<lambda>s'. unused s' \<and> gs_heap s' = (\<lambda>a. if a \<in> set xs \<and> small (gs_heap s a) then None else gs_heap s a)) (for_all clean_group xs s)"
  using assms
proof (induction xs arbitrary: s)
  case Nil
  then show ?case by simp
next
  case (Cons a xs)
  show ?case
    unfolding for_all.simps
  proof (rule ok_bind[OF ok_clean_group[OF Cons.prems(2)]])
    show "a \<in> set (gs_set s)" using Cons.prems(3) by simp
    fix s1 assume s1: "unused s1 \<and> gs_heap s1 = (if small (gs_heap s a) then (gs_heap s)(a := None) else gs_heap s)"
    have "set xs \<subseteq> set (gs_set s1)"
    proof
      fix b assume b: "b \<in> set xs"
      then have "gs_heap s b \<noteq> None" "b \<noteq> a" using Cons.prems unusedD(5)[OF Cons.prems(2), of b] by auto
      then show "b \<in> set (gs_set s1)" using s1 unusedD(5)[of s1 b] by auto
    qed
    from Cons.IH[OF _ _ this] s1 Cons.prems(1)
    have "ok (\<lambda>s'. unused s' \<and> gs_heap s' = (\<lambda>b. if b \<in> set xs \<and> small (gs_heap s1 b) then None else gs_heap s1 b)) (for_all clean_group xs s1)"
      by simp
    then show "ok (\<lambda>s'. unused s' \<and> gs_heap s' = (\<lambda>b. if b \<in> set (a # xs) \<and> small (gs_heap s b) then None else gs_heap s b)) (for_all clean_group xs s1)"
      by (rule ok_mono) (use s1 Cons.prems(1) in \<open>auto simp: fun_eq_iff\<close>)
  qed
qed

lemma ok_LoadGroups:
  assumes u: "unused s" and none: "gs_set s = []" and rows: "\<And>m. m \<in> set members \<Longrightarrow> member_row_ok m"
  shows "ok (\<lambda>s'. server_ok s' \<and> (\<forall>a g. gs_heap s' a = Some g \<longrightarrow> a \<in> set (gs_set s') \<and> length (gp_members g) \<ge> 2)) (LoadGroups rows members s)"
    (is "ok ?P _")
proof (cases "rows = []")
  case True
  have "gs_heap s a = None" for a using unusedD(5)[OF u, of a] none by simp
  then show ?thesis using True unused_server[OF u] by (simp add: LoadGroups_def)
next
  case False
  have loaded: "ok unused (for_all load_group rows s)" by (rule ok_for_all[OF ok_load_group u])
  have "ok ?P (and_then (for_all load_group rows s) (\<lambda>s.
      and_then (load_group_members None members s) (\<lambda>s. for_all clean_group (gs_set s) s)))"
  proof (rule ok_bind[OF loaded], rule ok_bind)
    fix s1 assume u1: "unused s1"
    show "ok unused (load_group_members None members s1)" by (rule ok_load_group_members[OF rows u1]) simp_all
  next
    fix s2 assume u2: "unused s2"
    show "ok ?P (for_all clean_group (gs_set s2) s2)"
    proof (rule ok_mono[OF ok_clean_groups[OF unusedD(4)[OF u2] u2]])
      fix s3 assume s3: "unused s3 \<and> gs_heap s3 = (\<lambda>a. if a \<in> set (gs_set s2) \<and> small (gs_heap s2 a) then None else gs_heap s2 a)"
      have big: "a \<in> set (gs_set s3) \<and> length (gp_members g) \<ge> 2" if "gs_heap s3 a = Some g" for a g
        using that s3 unusedD(5)[OF u2, of a] unusedD(5)[of s3 a] by (auto simp: small_def split: if_splits)
      then have "gp_members g \<noteq> []" if "gs_heap s3 a = Some g" for a g using that by fastforce
      then have "server_ok s3" using unused_server s3 by blast
      then show "?P s3" using big by blast
    qed simp
  qed
  then show ?thesis using False by (simp add: LoadGroups_def)
qed

end
