(* ===== verification/GroupLaws.thy ===== *)
theory GroupLaws
  imports GroupLoad
begin

text \<open>
  The laws of parties and raids: the calls of \<open>party_call\<close> are safe, what rolls, subgroups, icons and roles do, and what
  the calls left out of \<open>party_call\<close> lead to, each on a server with a few players.
\<close>

section \<open>A server with a few players\<close>

definition test_server :: group_server where
  "test_server = \<lparr>gs_world = test_world\<lparr>w_players := []\<rparr>, gs_refs = (\<lambda>_. no_refs), gs_heap = (\<lambda>_. None), gs_next = 0, gs_set = [],
     gs_bgraid = (\<lambda>_. None), gs_difficulty = (\<lambda>_. 0), gs_loots = (\<lambda>_. None), gs_log = []\<rparr>"

definition test_party_env :: party_env where
  "test_party_env = \<lparr>pe_norm = Some, pe_in_bg = (\<lambda>_. False), pe_gm = (\<lambda>_. False), pe_instance = (\<lambda>_. 0), pe_map = (\<lambda>_. 0),
     pe_gm_group = False, pe_two_side_group = False, pe_guid_by_name = (\<lambda>_. 0), pe_urand = (\<lambda>lo hi. lo)\<rparr>"

definition Ann :: player where "Ann = test_player 1 ''Ann''"
definition Bob :: player where "Bob = test_player 2 ''Bob''"
definition Cid :: player where "Cid = test_player 3 ''Cid''"

lemma test_guids [simp]: "pl_guid Ann = 1" "pl_guid Bob = 2" "pl_guid Cid = 3"
  by (simp_all add: Ann_def Bob_def Cid_def test_player_def)

fun run_calls :: "(group_server \<Rightarrow> group_result) list \<Rightarrow> group_server \<Rightarrow> group_result" where
  "run_calls [] s = Inr s"
| "run_calls (f # fs) s = and_then (f s) (run_calls fs)"

definition packet_of :: "u8 list \<Rightarrow> byte_buffer" where
  "packet_of bs = \<lparr>storage = bs, rpos = 0, wpos = length bs\<rparr>"

definition invites :: "player \<Rightarrow> string \<Rightarrow> group_server \<Rightarrow> group_result" where
  "invites me n s =
     (case FindPlayerByName (gs_world s) n True of
        None \<Rightarrow> Inr (SendPartyResult (pl_guid me) PARTY_OP_INVITE n PARTY_RESULT_CANT_FIND_TARGET s)
      | Some player \<Rightarrow>
          (case invite_refused test_party_env me player s of
             Some e \<Rightarrow> Inr (SendPartyResult (pl_guid me) PARTY_OP_INVITE n e s)
           | None \<Rightarrow> invite_player test_party_env me player n s))"

lemma invites_packet:
  assumes "no_nul n" and "length n < 100"
  shows "HandleGroupInviteOpcode test_party_env me s (packet_of (enc_string n)) = Inr (invites me n s)"
proof -
  have "ahead (packet_of (enc_string n)) (enc_string n @ [])"
    using assms(2) by (simp add: ahead_def packet_of_def length_encs)
  from rd_string(1)[OF this assms(1)]
  have "rd read_string k (packet_of (enc_string n)) = k n (advance (length n + 1) (packet_of (enc_string n)))" for k .
  moreover have "pe_norm test_party_env = Some" "\<not> pe_in_bg test_party_env x" for x by (simp_all add: test_party_env_def)
  ultimately show ?thesis by (simp add: HandleGroupInviteOpcode_def invites_def Let_def)
qed

definition accepts :: "player \<Rightarrow> group_server \<Rightarrow> group_result" where
  "accepts me s = (case HandleGroupAcceptOpcode me s (packet_of []) of Inl e \<Rightarrow> Inr s | Inr r \<Rightarrow> r)"

definition log_in :: "player \<Rightarrow> group_server \<Rightarrow> group_result" where
  "log_in p = player_login p None"

section \<open>All calls succeed\<close>

text \<open>The states that calls lead to from the start of the server.\<close>

inductive party_reachable :: "group_server \<Rightarrow> bool" where
  start: "unused s \<Longrightarrow> gs_set s = [] \<Longrightarrow> (\<And>m. m \<in> set members \<Longrightarrow> member_row_ok m) \<Longrightarrow> LoadGroups rows members s = Inr s' \<Longrightarrow>
    party_reachable s'"
| call: "party_reachable s \<Longrightarrow> party_call s (Some (Inr s')) \<Longrightarrow> party_reachable s'"

lemma reachable_server_ok: "party_reachable s \<Longrightarrow> server_ok s"
proof (induction rule: party_reachable.induct)
  case (start s members rows s')
  then show ?case using ok_LoadGroups[of s members rows] by simp
next
  case (call s s')
  then show ?case using party_call_ok by fastforce
qed

lemma party_calls_reach: "party_reachable s \<Longrightarrow> party_call s (Some r) \<Longrightarrow> \<exists>s'. r = Inr s'"
  using party_call_ok[OF _ reachable_server_ok] by (fastforce simp: ok_Inr_iff)

text \<open>C1: From every state that the calls of \<open>party_call\<close> reach, each of these calls returns, follows no null
  or deleted pointer and leaves no array, and players, invitations, groups, battlegrounds and the set of
  groups refer to each other correctly again. The server starts with tables whose member rows
  have a guid and one of the eight subgroups. The calls are all the packets of connected players, logouts, moves between
  maps, deletions, battleground raids and loot, except those that do fail, and their like: an invitation is
  accepted only while its leader is not between two maps (see \<open>invited_leader_deleted\<close>), a subgroup packet names
  one of the eight (see \<open>subgroup_overrun\<close>), a player who logs in is a member of the group his row names, nobody enters
  a battleground with an invitation pending or from a battleground's raid, a loot is filled anew when no roll is
  for it, and looted items have a template.\<close>

theorem party_calls_succeed:
  assumes "party_reachable s" and "party_call s r"
  shows "\<exists>s'. r = Some (Inr s') \<and> parties_ok s'"
  using party_call_ok[OF assms(2) reachable_server_ok[OF assms(1)]] by (auto simp: ok_Inr_iff server_ok_def)

lemma test_server_unused: "unused test_server" "gs_set test_server = []"
  by (simp_all add: unused_def test_server_def)

lemma test_reachable: "party_reachable test_server"
  using party_reachable.start[OF test_server_unused, of "[]" "[]"] by (simp add: LoadGroups_def)

text \<open>Runs of calls, which all succeed.\<close>

definition result :: "group_result \<Rightarrow> group_server" where
  "result r = (case r of Inr s \<Rightarrow> s | Inl e \<Rightarrow> test_server)"

lemma reach_call: "party_reachable s \<Longrightarrow> party_call s (Some r) \<Longrightarrow> party_reachable (result r)"
  using party_reachable.call[of s] party_calls_reach[of s r] by (auto simp: result_def)

lemma reach_login:
  "party_reachable s \<Longrightarrow> \<not> connected (pl_guid p) s \<Longrightarrow> pl_guid p \<noteq> 0 \<Longrightarrow> party_reachable (result (log_in p s))"
  unfolding log_in_def by (rule reach_call, assumption, rule party_call.login) (simp_all add: row_ok_def)

lemma invite_answers:
  assumes "party_reachable s" and "me \<in> set (w_players (gs_world s))" and "no_nul n" and "length n < 100"
  shows "party_call s (Some (invites me n s))" and "gs_world (result (invites me n s)) = gs_world s"
proof -
  have h: "HandleGroupInviteOpcode test_party_env me s \<in> set (party_handlers test_party_env undefined False me s)"
    by (simp add: party_handlers_def)
  show "party_call s (Some (invites me n s))" by (rule party_call.packet[OF assms(2) h invites_packet[OF assms(3,4)]])
  have "answers s (HandleGroupInviteOpcode test_party_env me s)"
    by (rule party_handlers_answer[OF reachable_server_ok[OF assms(1)] assms(2) h])
  then have "ok (settled s) (invites me n s)" using invites_packet[OF assms(3,4)] unfolding answers_def by blast
  then show "gs_world (result (invites me n s)) = gs_world s" by (auto simp: ok_Inr_iff settled_def result_def)
qed

definition two_logged_in :: group_server where
  "two_logged_in = result (log_in Bob (result (log_in Ann test_server)))"

definition two_invited :: group_server where
  "two_invited = result (invites Ann ''Bob'' two_logged_in)"

lemma two_logged_in_reachable: "party_reachable two_logged_in" "w_players (gs_world two_logged_in) = [Bob, Ann]"
proof -
  have one: "w_players (gs_world (result (log_in Ann test_server))) = [Ann]"
    by (simp add: log_in_def player_login_def LoadGroup_player_def result_def test_server_def)
  show "w_players (gs_world two_logged_in) = [Bob, Ann]"
    using one by (simp add: two_logged_in_def log_in_def player_login_def LoadGroup_player_def result_def)
  have "party_reachable (result (log_in Ann test_server))"
    by (rule reach_login[OF test_reachable]) (simp_all add: connected_iff test_server_def)
  then show "party_reachable two_logged_in"
    unfolding two_logged_in_def by (rule reach_login) (simp_all add: connected_iff one)
qed

lemma two_invited_reachable: "party_reachable two_invited"
  unfolding two_invited_def
  by (rule reach_call[OF two_logged_in_reachable(1)], rule invite_answers(1)[OF two_logged_in_reachable(1)])
     (simp_all add: two_logged_in_reachable(2) no_nul_def)

lemma two_invited_players: "w_players (gs_world two_invited) = [Bob, Ann]"
  using invite_answers(2)[OF two_logged_in_reachable(1), of Ann "''Bob''"]
  by (simp add: two_invited_def two_logged_in_reachable(2) no_nul_def)

text \<open>Ann and Bob log in, Ann invites Bob, and he accepts.\<close>

lemma Bob_accepts: "party_call two_invited (Some (accepts Bob two_invited))"
proof -
  have "(case gr_invite (gs_refs two_invited 2) of Some a \<Rightarrow> (case gs_heap two_invited a of Some g \<Rightarrow>
      gp_leaderGuid g = 1 | None \<Rightarrow> False) | None \<Rightarrow> False)" by code_simp
  then have lead: "leader_ready (pl_guid Bob) two_invited"
    by (auto simp: leader_ready_def FindPlayer_def GetObjectInWorld_def two_invited_players Ann_def Bob_def test_player_def split: option.splits)
  obtain r where r: "HandleGroupAcceptOpcode Bob two_invited (packet_of []) = Inr r" by (simp add: HandleGroupAcceptOpcode_def)
  have "Bob \<in> set (w_players (gs_world two_invited))" by (simp add: two_invited_players)
  from party_call.accept[OF this lead r] show ?thesis using r by (simp add: accepts_def)
qed

definition two_grouped :: group_server where
  "two_grouped = result (accepts Bob two_invited)"

lemma two_grouped_reachable: "party_reachable two_grouped"
  unfolding two_grouped_def by (rule reach_call[OF two_invited_reachable Bob_accepts])

lemma two_grouped_size: "map_option (length \<circ> gp_members) (gs_heap two_grouped 0) = Some 2"
  by code_simp

theorem party_calls_succeed_witness:
  "\<exists>s'. accepts Bob two_invited = Inr s' \<and> parties_ok s' \<and> map_option (length \<circ> gp_members) (gs_heap s' 0) = Some 2"
  using party_calls_succeed[OF two_invited_reachable Bob_accepts] two_grouped_size by (auto simp: two_grouped_def result_def)

text \<open>In every reachable state a group is well formed: its members have guids and one of the eight subgroups, the
  counters of the subgroups are an array of eight that only raids have, and a roll whose loot is still there is for one of its items.\<close>

theorem party_types:
  assumes "party_reachable s" and "gs_heap s a = Some g"
  shows "(\<forall>m \<in> set (gp_members g). ms_guid m \<noteq> 0 \<and> unat (ms_group m) < 8)
    \<and> (case gp_subGroupsCounts g of None \<Rightarrow> True | Some c \<Rightarrow> gp_raid g \<and> length c = 8)
    \<and> (\<forall>r \<in> set (gp_rolls g). case ro_loot r of None \<Rightarrow> True
         | Some l \<Rightarrow> gs_loots s l \<noteq> None \<longrightarrow> loot_at l (unat (ro_itemSlot r)) s \<noteq> None)"
proof -
  have c: "core s" by (rule server_okD(1)[OF reachable_server_ok[OF assms(1)]])
  show ?thesis
    using party_coreD(2,3)[OF c assms(2)]
    by (auto simp: slots_ok_def rolls_ok_def loot_len_def loot_at_def split: option.splits)
qed

lemma two_invited_group: "\<exists>g. gs_heap two_invited 0 = Some g"
proof -
  have "(case gs_heap two_invited 0 of None \<Rightarrow> False | Some g \<Rightarrow> True)" by code_simp
  then show ?thesis by (cases "gs_heap two_invited 0") simp_all
qed

theorem party_types_witness:
  "\<exists>g. gs_heap two_invited 0 = Some g \<and> (case gp_subGroupsCounts g of None \<Rightarrow> True | Some c \<Rightarrow> gp_raid g \<and> length c = 8)"
  using two_invited_group party_types[OF two_invited_reachable, of 0] by blast

section \<open>Loading\<close>

lemma LoadGroups_fine:
  assumes "unused s" and "gs_set s = []" and "\<And>m. m \<in> set members \<Longrightarrow> unat (gm_subgroup m) < 8 \<and> gm_member m \<noteq> 0"
  shows "\<exists>s'. LoadGroups rows members s = Inr s' \<and> parties_ok s'
    \<and> (\<forall>a. gs_heap s' a \<noteq> None \<longleftrightarrow> a \<in> set (gs_set s'))
    \<and> (\<forall>a g. gs_heap s' a = Some g \<longrightarrow> length (gp_members g) \<ge> 2)"
proof -
  obtain s' where s': "LoadGroups rows members s = Inr s'" "server_ok s'"
    "\<And>a g. gs_heap s' a = Some g \<Longrightarrow> a \<in> set (gs_set s') \<and> length (gp_members g) \<ge> 2"
    using ok_LoadGroups[OF assms(1,2), of members rows] assms(3) by (auto simp: ok_Inr_iff member_row_ok_def)
  have "gs_heap s' a \<noteq> None" if "a \<in> set (gs_set s')" for a
    using formed_alive[OF server_okD(2)[OF s'(2)] that] by auto
  then show ?thesis using s' by (auto simp: server_ok_def)
qed

text \<open>C19: When the server starts with tables whose member rows have a guid and one of the eight subgroups (the
  database does not enforce the latter, and the loading code does not check it), the groups of
  the tables are loaded without error into a good state, in which exactly the groups of the set exist and
  each has at least two members: those without a leader's name and those that are too small are gone.\<close>

theorem LoadGroups_good:
  assumes "unused s" and "gs_set s = []" and "\<And>m. m \<in> set members \<Longrightarrow> unat (gm_subgroup m) < 8 \<and> gm_member m \<noteq> 0"
  shows "\<exists>s'. LoadGroups rows members s = Inr s' \<and> parties_ok s'
    \<and> (\<forall>a. gs_heap s' a \<noteq> None \<longleftrightarrow> a \<in> set (gs_set s'))
    \<and> (\<forall>a g. gs_heap s' a = Some g \<longrightarrow> length (gp_members g) \<ge> 2)"
  by (rule LoadGroups_fine[OF assms])

definition test_row :: group_row where
  "test_row = \<lparr>gw_mainTank = 0, gw_mainAssistant = 0, gw_lootMethod = 2, gw_looter = 1, gw_lootThreshold = 2,
     gw_icons = replicate 8 0, gw_isRaid = True, gw_difficulty = 0, gw_column15 = 1\<rparr>"

definition test_rows :: "group_member_row list" where
  "test_rows = map (\<lambda>m. \<lparr>gm_member = m, gm_assistant = False, gm_subgroup = 0, gm_leader = 1\<rparr>) [1, 2, 9]"

definition named_server :: group_server where
  "named_server = test_server\<lparr>gs_world := (gs_world test_server)\<lparr>w_names :=
     (\<lambda>l. if l = 1 then Some ''Ann'' else if l = 2 then Some ''Bob'' else None)\<rparr>\<rparr>"

lemma named_server_unused: "unused named_server" "gs_set named_server = []"
  by (simp_all add: unused_def named_server_def test_server_def)

theorem LoadGroups_good_witness:
  "\<exists>s'. LoadGroups [test_row] test_rows named_server = Inr s' \<and> parties_ok s' \<and> map_option (length \<circ> gp_members) (gs_heap s' 0) = Some 2"
proof -
  have two: "(case LoadGroups [test_row] test_rows named_server of Inr s \<Rightarrow> map_option (length \<circ> gp_members) (gs_heap s 0) = Some 2 | _ \<Rightarrow> False)"
    by code_simp
  have "unat (gm_subgroup m) < 8 \<and> gm_member m \<noteq> 0" if "m \<in> set test_rows" for m using that by (auto simp: test_rows_def)
  from LoadGroups_good[where rows = "[test_row]", OF named_server_unused this] obtain s' where
    "LoadGroups [test_row] test_rows named_server = Inr s'" "parties_ok s'" by blast
  with two show ?thesis by simp
qed

text \<open>A group that the server loads has its leader as master looter, whoever was: the query of \<open>LoadGroups\<close> has the
  leader in the column that \<open>LoadGroupFromDB\<close> reads the master looter of.\<close>

theorem loaded_master_looter:
  assumes "unused s" and "GetPlayerNameByGUID (gs_world s) (MAKE_NEW_GUID (gw_column15 row) 0 HIGHGUID_PLAYER) = Some name"
  shows "\<exists>s' g. load_group row s = Inr s' \<and> gs_heap s' (gs_next s) = Some g \<and> gp_leaderName g = name
    \<and> gp_lootMethod g = gw_lootMethod row \<and> gp_masterLooterGuid g = gp_leaderGuid g"
  using assms(2)
  by (auto simp: load_group_def Let_def LoadGroupFromDB_def read_group_row_def initRaidSubGroupsCounter_def Group_new_def)

theorem loaded_master_looter_witness:
  "\<exists>s' g. load_group test_row named_server = Inr s' \<and> gs_heap s' (gs_next named_server) = Some g \<and> gp_lootMethod g = MASTER_LOOT
    \<and> gp_masterLooterGuid g = gp_leaderGuid g"
proof -
  have name: "GetPlayerNameByGUID (gs_world named_server) (MAKE_NEW_GUID (gw_column15 test_row) 0 HIGHGUID_PLAYER) = Some ''Ann''"
    by code_simp
  have "gw_lootMethod test_row = MASTER_LOOT" by (simp add: test_row_def)
  with loaded_master_looter[OF named_server_unused(1) name] show ?thesis by metis
qed

section \<open>Icons\<close>

text \<open>The loop that takes the target's old icon away.\<close>

lemma clear_icons:
  "gs_heap s a = Some g \<Longrightarrow> \<exists>s'. for_all (\<lambda>j s. with_party a s (\<lambda>g. if gp_targetIcons g ! j = h then set_icon a j 0 s else Inr s)) js s = Inr s'
    \<and> gs_heap s' a = Some (g\<lparr>gp_targetIcons := fold (\<lambda>j ic. if ic ! j = h then ic[j := 0] else ic) js (gp_targetIcons g)\<rparr>)"
proof (induction js arbitrary: s g)
  case (Cons j js)
  show ?case
  proof (cases "gp_targetIcons g ! j = h")
    case True
    obtain s1 where "set_icon a j 0 s = Inr s1" "gs_heap s1 a = Some (g\<lparr>gp_targetIcons := (gp_targetIcons g)[j := 0]\<rparr>)"
      using Cons.prems by (simp add: set_icon_def Group_BroadcastPacket_def)
    with Cons.IH[OF this(2)] Cons.prems True show ?thesis by simp
  next
    case False
    with Cons.IH[OF Cons.prems] Cons.prems show ?thesis by simp
  qed
qed simp

lemma clear_icons_upto:
  "n \<le> length ic \<Longrightarrow> (h :: guid) \<noteq> 0 \<Longrightarrow> fold (\<lambda>j ic. if ic ! j = h then ic[j := 0] else ic) [0..<n] ic
    = map (\<lambda>x. if x = h then 0 else x) (take n ic) @ drop n ic"
proof (induction n)
  case (Suc n)
  then have "drop n ic = ic ! n # drop (Suc n) ic" "take (Suc n) ic = take n ic @ [ic ! n]" by (simp_all add: Cons_nth_drop_Suc take_Suc_conv_app_nth)
  with Suc show ?case by (simp add: nth_append list_update_append)
qed simp

text \<open>Setting one of the eight target icons gives it to the target and takes it from the target that had it; a target that had
  another icon loses that one. The other icons stay.\<close>

theorem SetTargetIcon_icons:
  assumes "gs_heap s a = Some g" and "length (gp_targetIcons g) = TARGETICONCOUNT" and "unat i < TARGETICONCOUNT"
  shows "\<exists>s'. SetTargetIcon a i h s = Inr s' \<and> gs_heap s' a = Some (g\<lparr>gp_targetIcons :=
    (if h = 0 then gp_targetIcons g else map (\<lambda>x. if x = h then 0 else x) (gp_targetIcons g))[unat i := h]\<rparr>)"
proof (cases "h = 0")
  case True
  then show ?thesis using assms by (simp add: SetTargetIcon_def set_icon_def Group_BroadcastPacket_def)
next
  case False
  from clear_icons[OF assms(1), of h "[0..<TARGETICONCOUNT]"] clear_icons_upto[of TARGETICONCOUNT "gp_targetIcons g" h] False assms(2)
  obtain s1 where "for_all (\<lambda>j s. with_party a s (\<lambda>g. if gp_targetIcons g ! j = h then set_icon a j 0 s else Inr s)) [0..<TARGETICONCOUNT] s = Inr s1"
    "gs_heap s1 a = Some (g\<lparr>gp_targetIcons := map (\<lambda>x. if x = h then 0 else x) (gp_targetIcons g)\<rparr>)" by auto
  then show ?thesis using False assms(3) by (simp add: SetTargetIcon_def set_icon_def Group_BroadcastPacket_def del: upt_rec_numeral)
qed

theorem SetTargetIcon_icons_witness:
  "\<exists>s' g. SetTargetIcon 0 3 77 (put_party 0 (Group_new\<lparr>gp_targetIcons := [77, 0, 5, 9, 0, 0, 0, 0]\<rparr>) test_server) = Inr s'
    \<and> gs_heap s' 0 = Some g \<and> gp_targetIcons g = [0, 0, 5, 77, 0, 0, 0, 0]"
  using SetTargetIcon_icons[of "put_party 0 (Group_new\<lparr>gp_targetIcons := [77, 0, 5, 9, 0, 0, 0, 0]\<rparr>) test_server" 0 _ 3 77] by auto

section \<open>What the calls leave out\<close>

text \<open>C37: The number of the subgroup in a packet of a raid's leader or assistant is not checked: with eight or more the server reads
  the counters of the subgroups outside their array.\<close>

theorem subgroup_overrun:
  assumes "party_reachable s" and "gr_group (gs_refs s (pl_guid me)) = Some a" and "gs_heap s a = Some g"
    and "gp_subGroupsCounts g \<noteq> None" and "IsLeader (pl_guid me) g \<or> IsAssistant (pl_guid me) g"
    and "8 \<le> unat k" and "no_nul n" and "length n < 100"
  shows "HandleGroupChangeSubGroupOpcode env me s (packet_of (enc_string n @ enc_u8 k)) = Inr (Inl (OutOfBounds (unat k)))"
proof -
  obtain c where c: "gp_subGroupsCounts g = Some c" using assms(4) by blast
  have "slots_ok g" by (rule party_coreD(2)[OF server_okD(1)[OF reachable_server_ok[OF assms(1)]] assms(3)])
  then have "length c = 8" using c by (simp add: slots_ok_def)
  then have over: "HasFreeSlotSubGroup k g = Inl (OutOfBounds (unat k))" using c assms(6) by (simp add: HasFreeSlotSubGroup_def)
  have "ahead (packet_of (enc_string n @ enc_u8 k)) (enc_string n @ (enc_u8 k @ []))"
    using assms(8) by (simp add: ahead_def packet_of_def length_encs)
  note str = rd_string[OF this assms(7)]
  show ?thesis
    using assms(2,3,5) over by (simp add: HandleGroupChangeSubGroupOpcode_def in_group_def str(1) rd_u8(1)[OF str(2), simplified] change_subgroup_def)
qed

text \<open>Ann logs in, who leads the raid that was loaded.\<close>

definition raid_loaded :: group_server where
  "raid_loaded = result (LoadGroups [test_row] test_rows named_server)"

definition raid_led :: group_server where
  "raid_led = result (player_login Ann (Some 1) raid_loaded)"

lemma raid_loaded_reachable: "party_reachable raid_loaded"
proof -
  have "unat (gm_subgroup m) < 8 \<and> gm_member m \<noteq> 0" if "m \<in> set test_rows" for m using that by (auto simp: test_rows_def)
  from LoadGroups_fine[where rows = "[test_row]", OF named_server_unused this] obtain s' where
    s': "LoadGroups [test_row] test_rows named_server = Inr s'" by blast
  have "member_row_ok m" if "m \<in> set test_rows" for m using that by (auto simp: test_rows_def member_row_ok_def)
  from party_reachable.start[OF named_server_unused this s'] show ?thesis using s' by (simp add: raid_loaded_def result_def)
qed

lemma raid_led_reachable: "party_reachable raid_led"
proof -
  have lead: "GetGroupByLeader 1 raid_loaded = Some 0" and nobody: "w_players (gs_world raid_loaded) = []"
    and mem: "(case gs_heap raid_loaded 0 of None \<Rightarrow> False | Some g \<Rightarrow> is_member 1 g)" by code_simp+
  have "MAKE_NEW_GUID 1 0 HIGHGUID_PLAYER = 1" by code_simp
  with lead mem have "row_ok (pl_guid Ann) (Some 1) raid_loaded" by (auto simp: row_ok_def split: option.splits)
  then show ?thesis unfolding raid_led_def
    by (intro reach_call[OF raid_loaded_reachable] party_call.login) (simp_all add: connected_iff nobody)
qed

theorem subgroup_overrun_witness:
  "HandleGroupChangeSubGroupOpcode test_party_env Ann raid_led (packet_of (enc_string ''Bob'' @ enc_u8 200)) = Inr (Inl (OutOfBounds 200))"
proof -
  have "(case gs_heap raid_led 0 of None \<Rightarrow> False | Some g \<Rightarrow> (case gp_subGroupsCounts g of None \<Rightarrow> False | Some c \<Rightarrow> IsLeader 1 g))" by code_simp
  then obtain g where g: "gs_heap raid_led 0 = Some g" "gp_subGroupsCounts g \<noteq> None" "IsLeader 1 g" by (auto split: option.splits)
  have "gr_group (gs_refs raid_led 1) = Some 0" by code_simp
  with subgroup_overrun[OF raid_led_reachable, of Ann 0 g 200 "''Bob''" test_party_env] g show ?thesis by (simp add: no_nul_def)
qed

definition leaves :: "player \<Rightarrow> group_server \<Rightarrow> group_result" where
  "leaves me s = (case HandleGroupLeaveOpcode test_party_env me s (packet_of []) of Inl e \<Rightarrow> Inr s | Inr r \<Rightarrow> r)"

text \<open>A party, not a raid, that has room for two.\<close>

definition pair_party :: "party \<Rightarrow> bool" where
  "pair_party g \<longleftrightarrow> \<not> gp_raid g \<and> \<not> gp_bg g \<and> gp_subGroupsCounts g = None \<and> length (gp_members g) < 2"

lemma AddMember_pair:
  assumes g: "gs_heap s a = Some g" "pair_party g" and h: "h \<noteq> 0" "FindPlayer (gs_world s) h True \<noteq> None" "gr_group (gs_refs s h) = None"
  shows "\<exists>s' g'. Group_AddMember a h n s = Inr (True, s') \<and> gs_world s' = gs_world s \<and> gs_heap s' a = Some g'
    \<and> map ms_guid (gp_members g') = map ms_guid (gp_members g) @ [h] \<and> gp_invitees g' = gp_invitees g
    \<and> \<not> gp_bg g' \<and> \<not> gp_raid g' \<and> gp_subGroupsCounts g' = None
    \<and> gs_refs s' = (gs_refs s)(h := (gs_refs s h)\<lparr>gr_invite := None, gr_group := Some a, gr_subgroup := 0\<rparr>)"
proof -
  obtain p where p: "FindPlayer (gs_world s) h True = Some p" using h(2) by blast
  show ?thesis
    using g h(1,3) p
    by (simp add: Group_AddMember_def addMember_def addMember_to_def free_subgroup_def pair_party_def IsFull_def count_sub_def place_member_def
      SetGroup_def SetGroupInvite_def link_def ref_target_def set_target_def set_sub_def member_added_def SendUpdate_def member_joined_def Let_def)
qed

lemma Create_pair:
  assumes g: "gs_heap s a = Some g" "pair_party g" "gp_members g = []"
    and h: "h \<noteq> 0" "FindPlayer (gs_world s) h True \<noteq> None" "gr_group (gs_refs s h) = None"
  shows "\<exists>s' g'. Group_Create a h n s = Inr (True, s') \<and> gs_world s' = gs_world s \<and> gs_heap s' a = Some g'
    \<and> map ms_guid (gp_members g') = [h] \<and> gp_invitees g' = gp_invitees g \<and> pair_party g'
    \<and> gs_refs s' = (gs_refs s)(h := (gs_refs s h)\<lparr>gr_invite := None, gr_group := Some a, gr_subgroup := 0\<rparr>)"
proof -
  let ?g = "g\<lparr>gp_leaderGuid := h, gp_leaderName := n, gp_raid := False, gp_lootMethod := GROUP_LOOT,
    gp_lootThreshold := ITEM_QUALITY_UNCOMMON, gp_looterGuid := h, gp_masterLooterGuid := 0, gp_difficulty := gs_difficulty s h\<rparr>"
  let ?s = "glog (create_rows a h ?g) (put_party a ?g s)"
  have "gs_heap ?s a = Some ?g" "pair_party ?g" "FindPlayer (gs_world ?s) h True \<noteq> None" "gr_group (gs_refs ?s h) = None"
    using g h by (simp_all add: pair_party_def)
  from AddMember_pair[OF this(1,2) h(1) this(3,4), of n] obtain s' g' where s': "Group_AddMember a h n ?s = Inr (True, s')"
    "gs_world s' = gs_world s" "gs_heap s' a = Some g'" "map ms_guid (gp_members g') = map ms_guid (gp_members g) @ [h]"
    "gp_invitees g' = gp_invitees g" "\<not> gp_bg g'" "\<not> gp_raid g'" "gp_subGroupsCounts g' = None"
    "gs_refs s' = (gs_refs s)(h := (gs_refs s h)\<lparr>gr_invite := None, gr_group := Some a, gr_subgroup := 0\<rparr>)" by auto
  have "length (gp_members g') < 2" using s'(4) g(3) by (metis length_map length_append_singleton list.size(3) lessI numeral_2_eq_2)
  moreover have "Group_Create a h n s = Inr (True, glog [GHook ''OnGroupCreate'' a] s')"
    using g h(2) s'(1) by (simp add: Group_Create_def start_party_def pair_party_def Let_def)
  ultimately show ?thesis using s' g(3) by (simp add: pair_party_def)
qed

text \<open>Accepting the invitation of a leader who is between two maps: he stays in the list of invitees.\<close>

lemma accept_of_absent:
  assumes me: "gr_invite (gs_refs s (pl_guid me)) = Some a" "gr_group (gs_refs s (pl_guid me)) = None" "pl_guid me \<noteq> 0"
      "FindPlayer (gs_world s) (pl_guid me) True \<noteq> None"
    and g: "gs_heap s a = Some g" "pair_party g" "gp_members g = []" "gp_leaderGuid g = h"
    and h: "h \<noteq> pl_guid me" "h \<noteq> 0" "FindPlayer (gs_world s) h True \<noteq> None" "GetPlayer (gs_world s) h = None" "gr_group (gs_refs s h) = None"
  shows "\<exists>s' g'. accepts me s = Inr s' \<and> gs_world s' = gs_world s \<and> gs_heap s' a = Some g' \<and> map ms_guid (gp_members g') = [h, pl_guid me]
    \<and> gp_invitees g' = removeAll (pl_guid me) (gp_invitees g) \<and> \<not> gp_bg g'
    \<and> gs_refs s' h = (gs_refs s h)\<lparr>gr_invite := None, gr_group := Some a, gr_subgroup := 0\<rparr>
    \<and> gs_refs s' (pl_guid me) = (gs_refs s (pl_guid me))\<lparr>gr_invite := None, gr_group := Some a, gr_subgroup := 0\<rparr>"
proof -
  let ?b = "pl_guid me"
  let ?g = "g\<lparr>gp_invitees := removeAll ?b (gp_invitees g)\<rparr>"
  let ?s = "SetGroupInvite ?b None (put_party a ?g s)"
  have out: "RemoveInvite a ?b s = Inr ?s" using g(1) by (simp add: RemoveInvite_def)
  have "gs_heap ?s a = Some ?g" "pair_party ?g" "gp_members ?g = []" "FindPlayer (gs_world ?s) h True \<noteq> None" "gr_group (gs_refs ?s h) = None"
    using g h by (simp_all add: SetGroupInvite_def pair_party_def)
  from Create_pair[OF this(1-3) h(2) this(4,5), of "gp_leaderName g"] obtain s1 g1 where s1: "Group_Create a h (gp_leaderName g) ?s = Inr (True, s1)"
    "gs_world s1 = gs_world s" "gs_heap s1 a = Some g1" "map ms_guid (gp_members g1) = [h]" "gp_invitees g1 = removeAll ?b (gp_invitees g)"
    "pair_party g1" "gs_refs s1 = (gs_refs ?s)(h := (gs_refs ?s h)\<lparr>gr_invite := None, gr_group := Some a, gr_subgroup := 0\<rparr>)"
    by (auto simp: SetGroupInvite_def)
  have "gs_heap (AddGroup a s1) a = Some g1" "FindPlayer (gs_world (AddGroup a s1)) ?b True \<noteq> None"
    "gr_group (gs_refs (AddGroup a s1) ?b) = None"
    using s1(2,3,7) me h(1) by (simp_all add: AddGroup_def SetGroupInvite_def)
  from AddMember_pair[OF this(1) s1(6) me(3) this(2,3), of "c_str (pl_name me)"] obtain s2 g2 where s2:
    "Group_AddMember a ?b (c_str (pl_name me)) (AddGroup a s1) = Inr (True, s2)" "gs_world s2 = gs_world s" "gs_heap s2 a = Some g2"
    "map ms_guid (gp_members g2) = [h, ?b]" "gp_invitees g2 = removeAll ?b (gp_invitees g)" "\<not> gp_bg g2"
    "gs_refs s2 = (gs_refs s1)(?b := (gs_refs s1 ?b)\<lparr>gr_invite := None, gr_group := Some a, gr_subgroup := 0\<rparr>)"
    using s1(2,4,5) by (auto simp: AddGroup_def)
  have "accepts me s = BroadcastGroupUpdate a s2"
    using me(1,2) g h(1,4) out s1(1) s2(1)
    by (simp add: accepts_def HandleGroupAcceptOpcode_def IsFull_def pair_party_def SetGroupInvite_def Let_def)
  then show ?thesis using s2 s1(7) h(1) by (simp add: BroadcastGroupUpdate_def SetGroupInvite_def)
qed

lemma leave_pair:
  assumes r: "gr_group (gs_refs s (pl_guid me)) = Some a" "gr_original (gs_refs s (pl_guid me)) = None" and g: "gs_heap s a = Some g" "\<not> gp_bg g"
    and m: "gp_members g = [m, m']" "FindPlayer (gs_world s) (ms_guid m) True = None" "ms_guid m' = pl_guid me"
    and p: "FindPlayer (gs_world s) (pl_guid me) True \<noteq> None" and i: "gp_invitees g = [ms_guid m]"
  shows "leaves me s = Inl (DeletedPlayer (ms_guid m))"
  using assms
  by (simp add: leaves_def HandleGroupLeaveOpcode_def in_group_def test_party_env_def RemoveFromGroup_def RemoveMember_def BroadcastGroupUpdate_def
    SendPartyResult_def Group_Disband_def disband_member_def take_out_def SetGroup_def unlink_def ref_target_def set_target_def tell_left_def RemoveAllInvites_def
    uninvite_player_def Let_def split: option.splits)

text \<open>C36: A player who invites another and is between two maps when the other accepts stays in the list of invitees of the group that
  is formed; when he then logs out, the list has a pointer to a deleted player, which is followed when the other
  leaves and the group is disbanded.\<close>

theorem invited_leader_deleted:
  assumes "gr_invite (gs_refs s (pl_guid me)) = Some a" and "gr_group (gs_refs s (pl_guid me)) = None" and "gr_original (gs_refs s (pl_guid me)) = None"
    and "pl_guid me \<noteq> 0" and "FindPlayer (gs_world s) (pl_guid me) True \<noteq> None"
    and "gs_heap s a = Some g" and "pair_party g" and "gp_members g = []" and "gp_leaderGuid g = h"
    and "removeAll (pl_guid me) (gp_invitees g) = [h]"
    and "h \<noteq> 0" and "FindPlayer (gs_world s) h True \<noteq> None" and "GetPlayer (gs_world s) h = None"
    and "gr_group (gs_refs s h) = None" and "gr_original (gs_refs s h) = None"
  shows "run_calls [accepts me, player_logout h, leaves me] s = Inl (DeletedPlayer h)"
proof -
  have "h \<in> set (removeAll (pl_guid me) (gp_invitees g))" by (simp only: assms(10)) simp
  then have ne: "h \<noteq> pl_guid me" by simp
  obtain s1 g1 where s1: "accepts me s = Inr s1" "gs_world s1 = gs_world s" "gs_heap s1 a = Some g1"
    "map ms_guid (gp_members g1) = [h, pl_guid me]" "gp_invitees g1 = [h]" "\<not> gp_bg g1"
    "gs_refs s1 h = (gs_refs s h)\<lparr>gr_invite := None, gr_group := Some a, gr_subgroup := 0\<rparr>"
    "gs_refs s1 (pl_guid me) = (gs_refs s (pl_guid me))\<lparr>gr_invite := None, gr_group := Some a, gr_subgroup := 0\<rparr>"
    using accept_of_absent[OF assms(1,2,4,5,6,7,8,9) ne assms(11-14)] assms(10) by auto
  obtain m m' where m: "gp_members g1 = [m, m']" "ms_guid m = h" "ms_guid m' = pl_guid me" using s1(4) by auto
  let ?g = "g1\<lparr>gp_refs := filter (\<lambda>x. x \<noteq> (h, True)) (gp_refs g1)\<rparr>"
  obtain s2 where s2: "player_logout h s1 = Inr s2" "gs_heap s2 a = Some ?g" "gs_refs s2 (pl_guid me) = gs_refs s1 (pl_guid me)"
    "gs_world s2 = (gs_world s)\<lparr>w_players := filter (\<lambda>p. pl_guid p \<noteq> h) (w_players (gs_world s))\<rparr>"
    using s1 assms(15) ne
    by (simp add: player_logout_def UninviteFromGroup_def unlink_def ref_target_def set_target_def Let_def set_players_def)
  have "FindPlayer (gs_world s2) h True = None" "FindPlayer (gs_world s2) (pl_guid me) True \<noteq> None"
    using assms(5) ne by (auto simp: s2(4) FindPlayer_def find_None_iff)
  then have "leaves me s2 = Inl (DeletedPlayer h)"
    using leave_pair[of s2 me a ?g m m'] s2(2,3) s1(5,6,8) assms(3) m by simp
  then show ?thesis using s1(1) s2(1) by simp
qed

text \<open>Ann has invited Bob and is on her way to another map.\<close>

theorem invited_leader_deleted_witness:
  "party_reachable two_invited
    \<and> run_calls [\<lambda>s. Inr (player_moved 1 False s), accepts Bob, player_logout 1, leaves Bob] two_invited = Inl (DeletedPlayer 1)"
proof -
  let ?s = "player_moved 1 False two_invited"
  have world: "w_players (gs_world ?s) = [Bob, Ann\<lparr>pl_in_world := False\<rparr>]"
    by (simp add: player_moved_def two_invited_players)
  have facts: "gr_invite (gs_refs two_invited 2) = Some 0 \<and> gr_group (gs_refs two_invited 2) = None \<and> gr_original (gs_refs two_invited 2) = None
    \<and> gr_group (gs_refs two_invited 1) = None \<and> gr_original (gs_refs two_invited 1) = None" by code_simp
  have group: "(case gs_heap two_invited 0 of None \<Rightarrow> False | Some g \<Rightarrow> pair_party g \<and> gp_members g = [] \<and> gp_leaderGuid g = 1
    \<and> removeAll 2 (gp_invitees g) = [1])" by code_simp
  then obtain g where g: "gs_heap two_invited 0 = Some g" "pair_party g" "gp_members g = []" "gp_leaderGuid g = 1"
    "removeAll 2 (gp_invitees g) = [1]" by (auto split: option.splits)
  have "run_calls [accepts Bob, player_logout 1, leaves Bob] ?s = Inl (DeletedPlayer 1)"
    by (rule invited_leader_deleted[where a = 0 and g = g])
       (use facts g in \<open>simp_all add: player_moved_def FindPlayer_def GetObjectInWorld_def two_invited_players Ann_def Bob_def test_player_def\<close>)
  then show ?thesis using two_invited_reachable by simp
qed

end
