(* ===== verification/GroupRolls.thy ===== *)
theory GroupRolls
  imports GroupLaws
begin

text \<open>
  The rolls for loot: the highest number of the stronger kind of vote wins, the timer ends all rolls of a group, a
  player who votes often enough decides a roll alone, and one loot method starts no timer.
\<close>

section \<open>The winner\<close>

definition better :: "(guid \<Rightarrow> u8) \<Rightarrow> guid \<times> roll_vote \<Rightarrow> guid \<times> u8 \<Rightarrow> guid \<times> u8" where
  "better rnd x = (\<lambda>(maxguid, maxresul). if maxresul < rnd (fst x) then (fst x, rnd (fst x)) else (maxguid, maxresul))"

lemma best_below: "\<forall>x \<in> set xs. rnd (fst x) < m \<Longrightarrow> snd b < m \<Longrightarrow> snd (fold (better rnd) xs b) < m"
  by (induction xs arbitrary: b) (auto simp: better_def split: prod.split)

lemma best_stays: "\<forall>x \<in> set xs. rnd (fst x) \<le> snd b \<Longrightarrow> fold (better rnd) xs b = b"
proof (induction xs)
  case (Cons x xs)
  have "better rnd x b = b" using Cons.prems by (cases b) (simp add: better_def leD)
  with Cons show ?case by simp
qed simp

lemma best_roll_wins:
  assumes votes: "filter (\<lambda>x. snd x = v) votes = xs @ (h, v) # ys" and pos: "0 < rnd h"
    and before: "\<forall>x \<in> set xs. rnd (fst x) < rnd h" and after: "\<forall>x \<in> set ys. rnd (fst x) \<le> rnd h"
  shows "best_roll rnd v votes = (h, rnd h)"
proof -
  let ?b = "fold (better rnd) xs (fst (hd votes), 0)"
  have "snd ?b < rnd h" by (rule best_below[OF before]) (simp add: pos)
  then have "better rnd (h, v) ?b = (h, rnd h)" by (cases ?b) (simp add: better_def)
  moreover have "best_roll rnd v votes = fold (better rnd) (filter (\<lambda>x. snd x = v) votes) (fst (hd votes), 0)"
    by (simp add: best_roll_def better_def[abs_def])
  ultimately show ?thesis using best_stays[of ys rnd "(h, rnd h)"] after by (simp add: votes)
qed

definition stores :: "group_action list \<Rightarrow> group_action list" where
  "stores = filter (\<lambda>x. case x of StoreNewItem h i p \<Rightarrow> True | _ \<Rightarrow> False)"

lemma stores_glog: "stores (gs_log (glog as s)) = stores (gs_log s) @ stores as"
  by (simp add: stores_def glog_def)

lemma stores_sends: "stores (map (\<lambda>v. GSend (f v) p) xs) = []"
  by (simp add: stores_def filter_empty_conv)

text \<open>Messages to the voters change nothing but the log.\<close>

definition only_sends :: "group_server \<Rightarrow> group_server \<Rightarrow> bool" where
  "only_sends s s' \<longleftrightarrow> (\<exists>as. s' = glog as s \<and> stores as = [])"

lemma only_sends_refl: "only_sends s s"
  unfolding only_sends_def by (rule exI[of _ "[]"]) (simp add: stores_def glog_def)

lemma only_sends_trans:
  assumes "only_sends s s1" and "only_sends s1 s2"
  shows "only_sends s s2"
proof -
  obtain as bs where "s1 = glog as s" "stores as = []" "s2 = glog bs s1" "stores bs = []"
    using assms by (auto simp: only_sends_def)
  then show ?thesis unfolding only_sends_def by (intro exI[of _ "as @ bs"]) (simp add: glog_def stores_def)
qed

lemma only_sends_voters: "only_sends s (to_voters p f r s)"
  by (auto simp: only_sends_def to_voters_def stores_sends)

lemma only_sends_rolls: "only_sends s (fold (\<lambda>x. SendLootRoll 0 (fst x) (rnd (fst x)) code r) xs s)"
  by (induction xs arbitrary: s)
     (auto simp: SendLootRoll_def intro: only_sends_refl only_sends_trans[OF only_sends_voters])

lemma only_sendsD:
  assumes "only_sends s s'"
  shows "gs_world s' = gs_world s" "gs_heap s' = gs_heap s" "gs_loots s' = gs_loots s" "stores (gs_log s') = stores (gs_log s)"
    "loot_at l i s' = loot_at l i s"
  using assms by (auto simp: only_sends_def stores_glog loot_at_def)

lemma award_won:
  assumes conn: "GetPlayer (gs_world s) h \<noteq> None" and it: "loot_at l (unat (ro_itemSlot r)) s = Some it"
    and room: "le_can_store env h (ro_itemid r) (li_count it) = 0"
  shows "\<exists>s'. award env h r l s = Inr s' \<and> gs_heap s' = gs_heap s \<and> gs_world s' = gs_world s
    \<and> loot_at l (unat (ro_itemSlot r)) s' = Some (it\<lparr>li_is_looted := True\<rparr>)
    \<and> stores (gs_log s') = stores (gs_log s) @ [StoreNewItem h (ro_itemid r) (li_randomPropertyId it)]"
proof -
  obtain lo where lo: "gs_loots s l = Some lo" "unat (ro_itemSlot r) < length (lo_items lo)" "it = lo_items lo ! unat (ro_itemSlot r)"
    using it by (auto simp: loot_at_def split: option.splits if_splits)
  then show ?thesis
    using conn it room by (auto simp: award_def Let_def set_item_def loot_at_def stores_glog) (auto simp: stores_def glog_def)
qed

lemma log_put: "gs_log (put_party a g s) = gs_log s"
  by (simp add: put_party_def)

lemma loot_at_put: "loot_at l i (put_party a g s) = loot_at l i s"
  by (simp add: put_party_def loot_at_def)

text \<open>How a roll for an item that is still there ends.\<close>

lemma roll_won:
  assumes g: "gs_heap s a = Some g" and r: "r = gp_rolls g ! p" and l: "ro_loot r = Some l"
    and it: "loot_at l (unat (ro_itemSlot r)) s = Some it"
    and kind: "v = (if ro_totalNeed r > 0 then ROLL_NEED else ROLL_GREED)" "ro_totalNeed r > 0 \<or> ro_totalGreed r > 0"
    and votes: "filter (\<lambda>x. snd x = v) (ro_playerVote r) = xs @ (h, v) # ys"
    and best: "0 < le_random env (ro_itemGUID r) h" "\<forall>x \<in> set xs. le_random env (ro_itemGUID r) (fst x) < le_random env (ro_itemGUID r) h"
      "\<forall>x \<in> set ys. le_random env (ro_itemGUID r) (fst x) \<le> le_random env (ro_itemGUID r) h"
    and conn: "GetPlayer (gs_world s) h \<noteq> None" and room: "le_can_store env h (ro_itemid r) (li_count it) = 0"
  shows "\<exists>s'. CountTheRoll env a p N s = Inr s'
    \<and> stores (gs_log s') = stores (gs_log s) @ [StoreNewItem h (ro_itemid r) (li_randomPropertyId it)]
    \<and> loot_at l (unat (ro_itemSlot r)) s' = Some (it\<lparr>li_is_looted := True\<rparr>)
    \<and> gs_heap s' a = Some (g\<lparr>gp_rolls := take p (gp_rolls g) @ drop (Suc p) (gp_rolls g)\<rparr>)"
proof -
  let ?code = "if ro_totalNeed r > 0 then 1 else 2 :: u8"
  let ?rnd = "le_random env (ro_itemGUID r)"
  have valid: "roll_valid r s" using it l by (auto simp: roll_valid_def loot_at_def split: option.splits)
  have ne: "ro_playerVote r \<noteq> []" using votes by auto
  let ?s = "SendLootRollWon 0 h (?rnd h) ?code r (fold (\<lambda>x. SendLootRoll 0 (fst x) (?rnd (fst x)) ?code r)
    (filter (\<lambda>x. snd x = v) (ro_playerVote r)) s)"
  have sends: "only_sends s ?s"
    unfolding SendLootRollWon_def by (rule only_sends_trans[OF only_sends_rolls only_sends_voters])
  have dec: "decide env v ?code r l s = award env h r l ?s"
    using ne best_roll_wins[OF votes, of ?rnd] best by (simp add: decide_def Let_def)
  obtain s1 where s1: "award env h r l ?s = Inr s1" "gs_heap s1 = gs_heap s" "gs_world s1 = gs_world s"
    "loot_at l (unat (ro_itemSlot r)) s1 = Some (it\<lparr>li_is_looted := True\<rparr>)"
    "stores (gs_log s1) = stores (gs_log s) @ [StoreNewItem h (ro_itemid r) (li_randomPropertyId it)]"
    using award_won[of ?s h l r it env] only_sendsD[OF sends] conn it room by auto
  have "CountTheRoll env a p N s = and_then (decide env v ?code r l s) (erase_roll a p)"
    using g r[symmetric] l valid kind by (auto simp: CountTheRoll_def Let_def)
  then show ?thesis using dec s1(1,2,4,5) g by (simp add: erase_roll_def loot_at_put log_put)
qed

section \<open>A vote counts as often as it is sent\<close>

definition needy :: "guid \<Rightarrow> nat \<Rightarrow> roll \<Rightarrow> roll" where
  "needy h k r = (if k = 0 then r else r\<lparr>ro_totalNeed := of_nat k, ro_playerVote := sm_set h ROLL_NEED (ro_playerVote r)\<rparr>)"

lemma needy_sel [simp]:
  "ro_itemGUID (needy h k r) = ro_itemGUID r" "ro_loot (needy h k r) = ro_loot r" "ro_itemSlot (needy h k r) = ro_itemSlot r"
  "ro_itemid (needy h k r) = ro_itemid r" "ro_totalPass (needy h k r) = ro_totalPass r" "ro_totalGreed (needy h k r) = ro_totalGreed r"
  "ro_totalPlayersRolling (needy h k r) = ro_totalPlayersRolling r"
  by (simp_all add: needy_def)

lemma sm_set_again: "sm_set h v (sm_set h w m) = sm_set h v m"
  by (induction m) auto

lemma sm_set_other: "\<forall>x \<in> set m. snd x \<noteq> v \<Longrightarrow> filter (\<lambda>x. snd x = v) (sm_set h v m) = [(h, v)]"
  by (induction m) (auto simp: filter_empty_conv)

lemma cast_needy:
  "ro_totalNeed r = 0 \<Longrightarrow> cast_vote 1 h (needy h k r) = needy h (Suc k) r"
  by (simp add: cast_vote_def needy_def sm_set_again add.commute)

lemma needy_votes: "sm_find h (ro_playerVote r) \<noteq> None \<Longrightarrow> sm_find h (ro_playerVote (needy h k r)) \<noteq> None"
  by (simp add: needy_def sm.find_put)

lemma roll_index_update:
  "gs_loots s' = gs_loots s \<Longrightarrow> roll_index item s rs = Some p \<Longrightarrow> ro_itemGUID x = ro_itemGUID (rs ! p) \<Longrightarrow> ro_loot x = ro_loot (rs ! p) \<Longrightarrow>
    roll_index item s' (rs[p := x]) = Some p"
proof (induction rs arbitrary: p)
  case (Cons r rs)
  then show ?case by (cases p) (auto simp: roll_valid_def split: if_splits option.splits)
qed simp

lemma u8_count: "n \<le> unat (x :: u8) \<Longrightarrow> unat (of_nat n :: u8) = n"
proof -
  assume "n \<le> unat x"
  moreover have "unat x < 2 ^ LENGTH(8)" by (rule unsigned_less)
  ultimately show ?thesis by (simp add: unsigned_of_nat take_bit_nat_eq_self)
qed

text \<open>What a voter who has the item's roll alone in his hands needs.\<close>

definition roll_open :: "loot_env \<Rightarrow> guid \<Rightarrow> guid \<Rightarrow> party \<Rightarrow> nat \<Rightarrow> nat \<Rightarrow> loot_item \<Rightarrow> group_server \<Rightarrow> bool" where
  "roll_open env h item g p l it s \<longleftrightarrow>
     (let r = gp_rolls g ! p
      in roll_index item s (gp_rolls g) = Some p \<and> ro_loot r = Some l \<and> loot_at l (unat (ro_itemSlot r)) s = Some it
         \<and> sm_find h (ro_playerVote r) \<noteq> None \<and> (\<forall>x \<in> set (ro_playerVote r). snd x = ROLL_NOT_EMITED_YET)
         \<and> ro_totalPass r = 0 \<and> ro_totalGreed r = 0 \<and> ro_totalNeed r = 0 \<and> 0 < ro_totalPlayersRolling r
         \<and> 0 < le_random env (ro_itemGUID r) h \<and> GetPlayer (gs_world s) h \<noteq> None
         \<and> le_can_store env h (ro_itemid r) (li_count it) = 0)"

lemma roll_open_same:
  "roll_open env h item g p l it s \<Longrightarrow> gs_world s' = gs_world s \<Longrightarrow> gs_loots s' = gs_loots s \<Longrightarrow> roll_open env h item g p l it s'"
  using roll_index_update[of s' s item "gp_rolls g" p "gp_rolls g ! p"] by (simp add: roll_open_def Let_def loot_at_def)

lemma need_vote:
  assumes o: "roll_open env h item g p l it s" and g: "gs_heap s a = Some (g\<lparr>gp_rolls := (gp_rolls g)[p := needy h k (gp_rolls g ! p)]\<rparr>)"
    and k: "Suc k \<le> unat (ro_totalPlayersRolling (gp_rolls g ! p))"
  shows "\<exists>s'. CountRollVote env a h item N 1 s =
        (if Suc k = unat (ro_totalPlayersRolling (gp_rolls g ! p)) then CountTheRoll env a p N s' else Inr s')
      \<and> gs_heap s' a = Some (g\<lparr>gp_rolls := (gp_rolls g)[p := needy h (Suc k) (gp_rolls g ! p)]\<rparr>)
      \<and> gs_world s' = gs_world s \<and> gs_loots s' = gs_loots s \<and> stores (gs_log s') = stores (gs_log s)"
proof -
  let ?r = "gp_rolls g ! p"
  let ?g = "g\<lparr>gp_rolls := (gp_rolls g)[p := needy h k ?r]\<rparr>"
  let ?s = "put_party a (g\<lparr>gp_rolls := (gp_rolls g)[p := needy h (Suc k) ?r]\<rparr>) (tell_vote 1 h (needy h k ?r) s)"
  have p: "p < length (gp_rolls g)" using o by (auto simp: roll_open_def Let_def dest: roll_index_less)
  have idx: "roll_index item s (gp_rolls ?g) = Some p" using o by (auto simp: roll_open_def Let_def intro: roll_index_update)
  have sends: "only_sends s (tell_vote 1 h (needy h k ?r) s)"
    by (simp add: tell_vote_def SendLootRoll_def only_sends_voters)
  have "unat (of_nat (Suc k) :: u8) = Suc k"
    by (rule u8_count[OF k])
  then have total: "unat (ro_totalNeed (needy h (Suc k) ?r)) = Suc k" by (simp add: needy_def)
  have size: "loot_size l s \<noteq> 0" using o by (auto simp: roll_open_def Let_def loot_size_def loot_at_def split: option.splits if_splits)
  have "CountRollVote env a h item N 1 s =
      (if Suc k = unat (ro_totalPlayersRolling ?r) then CountTheRoll env a p N ?s else Inr ?s)"
    using o g p idx total size k cast_needy[of ?r h k] needy_votes[of h ?r k]
    by (auto simp: CountRollVote_def roll_open_def Let_def)
  then show ?thesis using only_sendsD[OF sends] by (intro exI[of _ ?s]) (simp add: log_put put_party_def)
qed

lemma need_votes:
  assumes "roll_open env h item g p l it s" and "gs_heap s a = Some (g\<lparr>gp_rolls := (gp_rolls g)[p := needy h k (gp_rolls g ! p)]\<rparr>)"
    and "k + Suc m = unat (ro_totalPlayersRolling (gp_rolls g ! p))"
  shows "\<exists>s'. run_calls (replicate (Suc m) (CountRollVote env a h item N 1)) s = Inr s'
    \<and> stores (gs_log s') = stores (gs_log s) @ [StoreNewItem h (ro_itemid (gp_rolls g ! p)) (li_randomPropertyId it)]
    \<and> gs_heap s' a = Some (g\<lparr>gp_rolls := take p (gp_rolls g) @ drop (Suc p) (gp_rolls g)\<rparr>)"
  using assms
proof (induction m arbitrary: k s)
  case 0
  let ?r = "gp_rolls g ! p"
  from need_vote[OF 0(1,2)] 0(3) obtain s' where s': "CountRollVote env a h item N 1 s = CountTheRoll env a p N s'"
    "gs_heap s' a = Some (g\<lparr>gp_rolls := (gp_rolls g)[p := needy h (Suc k) ?r]\<rparr>)" "gs_world s' = gs_world s" "gs_loots s' = gs_loots s"
    "stores (gs_log s') = stores (gs_log s)" by fastforce
  note o = 0(1)[unfolded roll_open_def Let_def]
  have p: "p < length (gp_rolls g)" using o by (auto dest: roll_index_less)
  let ?x = "needy h (Suc k) ?r"
  let ?g = "g\<lparr>gp_rolls := (gp_rolls g)[p := ?x]\<rparr>"
  have pos: "ro_totalNeed ?x > 0"
  proof -
    have "unat (of_nat (Suc k) :: u8) = Suc k"
      using 0(3) by (intro u8_count[of _ "ro_totalPlayersRolling ?r"]) simp
    then have "0 < unat (ro_totalNeed ?x)" by (simp add: needy_def)
    then show ?thesis by (cases "ro_totalNeed ?x = 0") (auto simp: word_gt_0)
  qed
  have votes: "filter (\<lambda>x. snd x = ROLL_NEED) (ro_playerVote ?x) = [] @ (h, ROLL_NEED) # []"
    using o by (simp add: needy_def sm_set_other)
  have "\<exists>s2. CountTheRoll env a p N s' = Inr s2
    \<and> stores (gs_log s2) = stores (gs_log s') @ [StoreNewItem h (ro_itemid ?x) (li_randomPropertyId it)]
    \<and> loot_at l (unat (ro_itemSlot ?x)) s2 = Some (it\<lparr>li_is_looted := True\<rparr>)
    \<and> gs_heap s2 a = Some (?g\<lparr>gp_rolls := take p (gp_rolls ?g) @ drop (Suc p) (gp_rolls ?g)\<rparr>)"
  proof (rule roll_won[OF s'(2) _ _ _ _ _ votes])
    show "loot_at l (unat (ro_itemSlot ?x)) s' = Some it" using o s'(4) by (simp add: loot_at_def)
  qed (use pos o p s'(3) in simp_all)
  then show ?case using s'(1,5) by (auto simp: and_then_def)
next
  case (Suc m)
  from need_vote[OF Suc.prems(1,2), where N = N] Suc.prems(3) obtain s' where s': "CountRollVote env a h item N 1 s = Inr s'"
    "gs_heap s' a = Some (g\<lparr>gp_rolls := (gp_rolls g)[p := needy h (Suc k) (gp_rolls g ! p)]\<rparr>)" "gs_world s' = gs_world s"
    "gs_loots s' = gs_loots s" "stores (gs_log s') = stores (gs_log s)" by fastforce
  have "roll_open env h item g p l it s'" by (rule roll_open_same[OF Suc.prems(1) s'(3,4)])
  from Suc.IH[OF this s'(2)] Suc.prems(3) show ?case using s'(1,5) by (simp add: and_then_def)
qed

section \<open>Rolls and timers\<close>

definition timers :: "group_action list \<Rightarrow> group_action list" where
  "timers = filter (\<lambda>x. case x of StartLootTimer t h \<Rightarrow> True | _ \<Rightarrow> False)"

lemma for_all_keeps:
  "(\<And>x s s'. P s \<Longrightarrow> f x s = Inr s' \<Longrightarrow> P s') \<Longrightarrow> P s \<Longrightarrow> for_all f xs s = Inr s' \<Longrightarrow> P s'"
proof (induction xs arbitrary: s)
  case (Cons x xs)
  then show ?case by (cases "f x s") auto
qed simp

lemma set_item_sel [simp]: "gs_log (set_item l i f s) = gs_log s" "gs_world (set_item l i f s) = gs_world s"
  by (simp_all add: set_item_def split: option.split)

lemma timers_voters: "timers (gs_log (to_voters p force r s)) = timers (gs_log s)"
  by (simp add: timers_def to_voters_def glog_def filter_empty_conv)

lemma timers_start: "timers (gs_log (glog [StartLootTimer t h] s)) = timers (gs_log s) @ [StartLootTimer t h]"
  by (simp add: timers_def glog_def)

lemma group_loot_item_timed:
  "gs_heap s a = Some g \<Longrightarrow> group_loot_item env a l i s = Inr s' \<Longrightarrow> \<exists>g'. gs_heap s' a = Some g'
    \<and> length (timers (gs_log s')) + length (gp_rolls g) = length (timers (gs_log s)) + length (gp_rolls g')"
  by (auto simp: group_loot_item_def Let_def push_roll_def SendLootStartRoll_def timers_voters timers_start log_put
      split: option.splits if_splits)

lemma need_before_greed_item_timers:
  "gs_heap s a = Some g \<Longrightarrow> need_before_greed_item env a l i s = Inr s' \<Longrightarrow> timers (gs_log s') = timers (gs_log s) \<and> (\<exists>g'. gs_heap s' a = Some g')"
  by (auto simp: need_before_greed_item_def Let_def push_roll_def SendLootStartRoll_def timers_voters log_put split: option.splits if_splits)

lemma GroupLoot_timed:
  assumes g: "gs_heap s a = Some g" and run: "GroupLoot env a h l s = Inr s'"
  shows "\<exists>g'. gs_heap s' a = Some g'
    \<and> length (timers (gs_log s')) + length (gp_rolls g) = length (timers (gs_log s)) + length (gp_rolls g')"
proof -
  have "for_all (group_loot_item env a l) [0..<loot_size l s] s = Inr s'" using run by (simp add: GroupLoot_def split: if_splits)
  then show ?thesis
  proof (rule for_all_keeps[rotated 2])
    show "\<exists>g'. gs_heap s2 a = Some g'
      \<and> length (timers (gs_log s2)) + length (gp_rolls g) = length (timers (gs_log s)) + length (gp_rolls g')"
      if "\<exists>g'. gs_heap s1 a = Some g'
        \<and> length (timers (gs_log s1)) + length (gp_rolls g) = length (timers (gs_log s)) + length (gp_rolls g')"
        and "group_loot_item env a l i s1 = Inr s2" for i s1 s2
      using that group_loot_item_timed[of s1 a _ env l i s2] by fastforce
  qed (use g in simp)
qed

lemma NeedBeforeGreed_timers:
  assumes g: "gs_heap s a = Some g" and run: "NeedBeforeGreed env a h l s = Inr s'"
  shows "timers (gs_log s') = timers (gs_log s)"
proof -
  have "for_all (need_before_greed_item env a l) [0..<loot_size l s] s = Inr s'"
    using run by (simp add: NeedBeforeGreed_def split: if_splits)
  then have "timers (gs_log s') = timers (gs_log s) \<and> (\<exists>g. gs_heap s' a = Some g)"
  proof (rule for_all_keeps[rotated 2])
    show "timers (gs_log s2) = timers (gs_log s) \<and> (\<exists>g. gs_heap s2 a = Some g)"
      if "timers (gs_log s1) = timers (gs_log s) \<and> (\<exists>g. gs_heap s1 a = Some g)" "need_before_greed_item env a l i s1 = Inr s2" for i s1 s2
      using that need_before_greed_item_timers[of s1 a _ env l i s2] by fastforce
  qed (use g in simp)
  then show ?thesis by simp
qed

section \<open>Two players and a chest\<close>

definition test_item :: loot_item where
  "test_item = \<lparr>li_itemid = 25, li_randomSuffix = 0, li_randomPropertyId = 0, li_count = 1, li_is_looted = False,
     li_is_blocked = False, li_freeforall = False, li_is_underthreshold = False\<rparr>"

definition test_loot_env :: loot_env where
  "test_loot_env = \<lparr>le_quality = (\<lambda>i. Some 4), le_allowed = (\<lambda>it h. True), le_can_use = (\<lambda>i h. True), le_near = (\<lambda>h. True),
     le_near2d = (\<lambda>h. True), le_low_guid = (\<lambda>i. 7), le_can_store = (\<lambda>h i c. 0), le_random = (\<lambda>item h. if h = 2 then 90 else 10)\<rparr>"

definition chest_filled :: group_server where
  "chest_filled = Loot_filled 0 \<lparr>lo_items = [test_item], lo_quest_items = [], lo_unlootedCount = 1\<rparr> two_grouped"

definition rolling :: group_server where
  "rolling = result (start_loot test_loot_env 1 0 chest_filled)"

lemma chest_filled_reachable: "party_reachable chest_filled"
proof -
  have c: "core two_grouped" by (rule server_okD(1)[OF reachable_server_ok[OF two_grouped_reachable]])
  have one: "gs_next two_grouped = 1" by code_simp
  have "(case gs_heap two_grouped 0 of Some g \<Rightarrow> gp_rolls g = [] | None \<Rightarrow> False)" by code_simp
  then have no: "ro_loot r \<noteq> Some 0" if "gs_heap two_grouped a = Some g" "r \<in> set (gp_rolls g)" for a g r
    using that party_coreD(1)[OF c that(1)] one by auto
  have "party_call two_grouped (Some (Inr chest_filled))"
    unfolding chest_filled_def by (rule party_call.filled) (rule no)
  then show ?thesis by (rule party_reachable.call[OF two_grouped_reachable])
qed

lemma rolling_reachable: "party_reachable rolling"
proof -
  have "GetPlayer (gs_world chest_filled) 1 \<noteq> None"
  proof -
    have "(case GetPlayer (gs_world chest_filled) 1 of None \<Rightarrow> False | Some p \<Rightarrow> True)" by code_simp
    then show ?thesis by (auto split: option.splits)
  qed
  then show ?thesis unfolding rolling_def
    by (intro reach_call[OF chest_filled_reachable] party_call.looted) (simp_all add: test_loot_env_def)
qed

lemma rolling_roll: "(case gs_heap rolling 0 of None \<Rightarrow> False | Some g \<Rightarrow> (case gp_rolls g of
    [r] \<Rightarrow> ro_loot r = Some 0 \<and> ro_totalPlayersRolling r = 2 \<and> ro_playerVote r = [(1, ROLL_NOT_EMITED_YET), (2, ROLL_NOT_EMITED_YET)]
      \<and> ro_itemSlot r = 0 \<and> ro_itemid r = 25 \<and> ro_itemGUID r = MAKE_NEW_GUID 7 0 HIGHGUID_ITEM
      \<and> ro_totalPass r = 0 \<and> ro_totalGreed r = 0 \<and> ro_totalNeed r = 0 \<and> loot_at 0 0 rolling \<noteq> None
  | _ \<Rightarrow> False))"
  by code_simp

lemma rolling_open:
  obtains g r it where "gs_heap rolling 0 = Some g" "gp_rolls g = [r]" "ro_totalPlayersRolling r = 2" "loot_at 0 0 rolling = Some it"
    "ro_itemid r = 25" "roll_open test_loot_env 2 (MAKE_NEW_GUID 7 0 HIGHGUID_ITEM) g 0 0 it rolling"
proof -
  have conn: "GetPlayer (gs_world rolling) 2 \<noteq> None"
  proof -
    have "(case GetPlayer (gs_world rolling) 2 of None \<Rightarrow> False | Some p \<Rightarrow> True)" by code_simp
    then show ?thesis by (auto split: option.splits)
  qed
  obtain g r it where facts: "gs_heap rolling 0 = Some g" "gp_rolls g = [r]" "ro_totalPlayersRolling r = 2" "loot_at 0 0 rolling = Some it"
    "ro_itemid r = 25" "ro_loot r = Some 0" "ro_playerVote r = [(1, ROLL_NOT_EMITED_YET), (2, ROLL_NOT_EMITED_YET)]"
    "ro_itemSlot r = 0" "ro_itemGUID r = MAKE_NEW_GUID 7 0 HIGHGUID_ITEM" "ro_totalPass r = 0" "ro_totalGreed r = 0" "ro_totalNeed r = 0"
    using rolling_roll by (auto split: option.splits list.splits)
  then have "roll_valid r rolling" by (auto simp: roll_valid_def loot_at_def split: option.splits)
  then have "roll_open test_loot_env 2 (MAKE_NEW_GUID 7 0 HIGHGUID_ITEM) g 0 0 it rolling"
    using facts conn by (simp add: roll_open_def sm_find_def test_loot_env_def)
  then show ?thesis using that facts by blast
qed

section \<open>What rolls do\<close>

text \<open>C15: When a roll for an item is counted, the player with the highest number of those who need it, or of those who want it
  when nobody needs it, gets the item if he is in the world and has room: it is stored for him and nobody else, marked as looted, and
  the roll is gone; of equal numbers the first in the order of the guids wins.\<close>

theorem highest_roll_wins:
  assumes "gs_heap s a = Some g" and "r = gp_rolls g ! p" and "ro_loot r = Some l"
    and "loot_at l (unat (ro_itemSlot r)) s = Some it"
    and "v = (if ro_totalNeed r > 0 then ROLL_NEED else ROLL_GREED)" and "ro_totalNeed r > 0 \<or> ro_totalGreed r > 0"
    and "filter (\<lambda>x. snd x = v) (ro_playerVote r) = xs @ (h, v) # ys"
    and "0 < le_random env (ro_itemGUID r) h" and "\<forall>x \<in> set xs. le_random env (ro_itemGUID r) (fst x) < le_random env (ro_itemGUID r) h"
    and "\<forall>x \<in> set ys. le_random env (ro_itemGUID r) (fst x) \<le> le_random env (ro_itemGUID r) h"
    and "GetPlayer (gs_world s) h \<noteq> None" and "le_can_store env h (ro_itemid r) (li_count it) = 0"
  shows "\<exists>s'. CountTheRoll env a p N s = Inr s'
    \<and> stores (gs_log s') = stores (gs_log s) @ [StoreNewItem h (ro_itemid r) (li_randomPropertyId it)]
    \<and> loot_at l (unat (ro_itemSlot r)) s' = Some (it\<lparr>li_is_looted := True\<rparr>)
    \<and> gs_heap s' a = Some (g\<lparr>gp_rolls := take p (gp_rolls g) @ drop (Suc p) (gp_rolls g)\<rparr>)"
  by (rule roll_won[OF assms])

text \<open>Ann and Bob both want the item, and Bob has 90 where Ann has 10.\<close>

theorem highest_roll_wins_witness:
  "\<exists>g r s' i. gs_heap rolling 0 = Some g \<and> gp_rolls g = [r]
    \<and> CountTheRoll test_loot_env 0 0 2 (put_party 0 (g\<lparr>gp_rolls := [cast_vote 2 1 (cast_vote 2 2 r)]\<rparr>) rolling) = Inr s'
    \<and> stores (gs_log s') = stores (gs_log rolling) @ [StoreNewItem 2 25 i]"
proof -
  obtain g r it where o: "gs_heap rolling 0 = Some g" "gp_rolls g = [r]" "loot_at 0 0 rolling = Some it" "ro_itemid r = 25"
    "roll_open test_loot_env 2 (MAKE_NEW_GUID 7 0 HIGHGUID_ITEM) g 0 0 it rolling" by (rule rolling_open)
  let ?r = "cast_vote 2 1 (cast_vote 2 2 r)"
  let ?g = "g\<lparr>gp_rolls := [?r]\<rparr>"
  let ?s = "put_party 0 ?g rolling"
  have r: "ro_loot ?r = Some 0" "ro_itemSlot ?r = 0" "ro_totalNeed ?r = 0" "ro_totalGreed ?r = 2" "ro_itemid ?r = 25"
    "ro_playerVote ?r = [(1, ROLL_GREED), (2, ROLL_GREED)]" "GetPlayer (gs_world rolling) 2 \<noteq> None"
    using rolling_roll o by (auto simp: cast_vote_def roll_open_def)
  have "\<exists>s'. CountTheRoll test_loot_env 0 0 2 ?s = Inr s'
    \<and> stores (gs_log s') = stores (gs_log ?s) @ [StoreNewItem 2 (ro_itemid ?r) (li_randomPropertyId it)]
    \<and> loot_at 0 (unat (ro_itemSlot ?r)) s' = Some (it\<lparr>li_is_looted := True\<rparr>)
    \<and> gs_heap s' 0 = Some (?g\<lparr>gp_rolls := take 0 (gp_rolls ?g) @ drop (Suc 0) (gp_rolls ?g)\<rparr>)"
    by (rule highest_roll_wins[where v = ROLL_GREED and xs = "[(1, ROLL_GREED)]" and ys = "[]"])
       (use r o(3) in \<open>simp_all add: loot_at_put test_loot_env_def\<close>)
  then show ?thesis using o(1,2) r(5) log_put by metis
qed

text \<open>C35: A player who sends his need vote as often as there are players in the roll wins it at once: nothing asks whether he
  has voted, so his votes are counted as those of the others, who have not voted yet, and the item is his whatever he rolled.\<close>

theorem need_votes_win:
  assumes "gs_heap s a = Some g" and "roll_open env h item g p l it s"
  shows "\<exists>s'. run_calls (replicate (unat (ro_totalPlayersRolling (gp_rolls g ! p))) (CountRollVote env a h item N 1)) s = Inr s'
    \<and> stores (gs_log s') = stores (gs_log s) @ [StoreNewItem h (ro_itemid (gp_rolls g ! p)) (li_randomPropertyId it)]
    \<and> gs_heap s' a = Some (g\<lparr>gp_rolls := take p (gp_rolls g) @ drop (Suc p) (gp_rolls g)\<rparr>)"
proof -
  have "0 < unat (ro_totalPlayersRolling (gp_rolls g ! p))" using assms(2) by (simp add: roll_open_def Let_def unat_gt_0 word_gt_0)
  then obtain m where m: "unat (ro_totalPlayersRolling (gp_rolls g ! p)) = Suc m" by (cases "unat (ro_totalPlayersRolling (gp_rolls g ! p))") auto
  have "gs_heap s a = Some (g\<lparr>gp_rolls := (gp_rolls g)[p := needy h 0 (gp_rolls g ! p)]\<rparr>)" using assms(1) by (simp add: needy_def)
  from need_votes[OF assms(2) this, of m] m show ?thesis by simp
qed

text \<open>Bob votes twice, Ann not at all.\<close>

theorem need_votes_win_witness:
  "\<exists>s' i. run_calls (replicate 2 (CountRollVote test_loot_env 0 2 (MAKE_NEW_GUID 7 0 HIGHGUID_ITEM) 2 1)) rolling = Inr s'
    \<and> stores (gs_log s') = stores (gs_log rolling) @ [StoreNewItem 2 25 i]"
proof -
  obtain g r it where o: "gs_heap rolling 0 = Some g" "gp_rolls g = [r]" "ro_totalPlayersRolling r = 2" "loot_at 0 0 rolling = Some it"
    "ro_itemid r = 25" "roll_open test_loot_env 2 (MAKE_NEW_GUID 7 0 HIGHGUID_ITEM) g 0 0 it rolling" by (rule rolling_open)
  from need_votes_win[OF o(1,6), of 2] o(2,3,5) show ?thesis by auto
qed

text \<open>C22: In every reachable state the loop over the rolls that the end of the loot timer starts ends, without error, and leaves no roll
  of the group whose leader the looted object noted.\<close>

theorem loot_timer_ends_rolls:
  assumes "party_reachable s"
  shows "\<exists>s'. loot_timer_ends env leader s = Some (Inr s') \<and> parties_ok s'
    \<and> (\<forall>a. GetGroupByLeader leader s = Some a \<longrightarrow> (\<exists>g. gs_heap s' a = Some g \<and> gp_rolls g = []))"
proof -
  have s: "server_ok s" by (rule reachable_server_ok[OF assms])
  obtain r where r: "loot_timer_ends env leader s = Some r" "ok server_ok r" using ok_loot_timer_ends[OF s] by blast
  then obtain s' where s': "r = Inr s'" "parties_ok s'" by (auto simp: ok_Inr_iff server_ok_def)
  moreover have "\<exists>g. gs_heap s' a = Some g \<and> gp_rolls g = []" if a: "GetGroupByLeader leader s = Some a" for a
  proof -
    have "gs_heap s a \<noteq> None" using formed_alive[OF server_okD(2)[OF s] GetGroupByLeader_set[OF a]] by auto
    from ok_EndRoll[OF server_okD(1)[OF s] this, of env] show ?thesis
      using r(1) s'(1) a by (auto simp: loot_timer_ends_def ok_Inr_iff)
  qed
  ultimately show ?thesis using r(1) by blast
qed

theorem loot_timer_ends_rolls_witness:
  "\<exists>g s' g'. gs_heap rolling 0 = Some g \<and> gp_rolls g \<noteq> [] \<and> loot_timer_ends test_loot_env 1 rolling = Some (Inr s')
    \<and> gs_heap s' 0 = Some g' \<and> gp_rolls g' = []"
proof -
  obtain g r where g: "gs_heap rolling 0 = Some g" "gp_rolls g = [r]" by (rule rolling_open)
  have "GetGroupByLeader 1 rolling = Some 0" by code_simp
  with loot_timer_ends_rolls[OF rolling_reachable, of test_loot_env 1] g show ?thesis by auto
qed

text \<open>The method \<open>GROUP_LOOT\<close> starts a timer with each roll, so every roll ends; \<open>NEED_BEFORE_GREED\<close> starts rolls but
  no timer, so a roll in which one player never votes stays open.\<close>

theorem rolls_and_timers:
  assumes "gs_heap s a = Some g"
  shows "(case GroupLoot env a h l s of Inl e \<Rightarrow> True | Inr s' \<Rightarrow> \<exists>g'. gs_heap s' a = Some g'
      \<and> length (timers (gs_log s')) + length (gp_rolls g) = length (timers (gs_log s)) + length (gp_rolls g'))
    \<and> (case NeedBeforeGreed env a h l s of Inl e \<Rightarrow> True | Inr s' \<Rightarrow> timers (gs_log s') = timers (gs_log s))"
  using GroupLoot_timed[OF assms] NeedBeforeGreed_timers[OF assms] by (auto split: sum.split)

text \<open>The chest of Ann and Bob, opened under the second method.\<close>

theorem rolls_and_timers_witness:
  "\<exists>s' g. NeedBeforeGreed test_loot_env 0 1 0 chest_filled = Inr s' \<and> gs_heap s' 0 = Some g \<and> length (gp_rolls g) = 1
    \<and> timers (gs_log s') = timers (gs_log chest_filled)"
proof -
  have ran: "(case NeedBeforeGreed test_loot_env 0 1 0 chest_filled of Inl e \<Rightarrow> False | Inr s' \<Rightarrow>
      (case gs_heap s' 0 of None \<Rightarrow> False | Some g \<Rightarrow> length (gp_rolls g) = 1))" by code_simp
  have "(case gs_heap chest_filled 0 of None \<Rightarrow> False | Some g \<Rightarrow> True)" by code_simp
  then obtain g where "gs_heap chest_filled 0 = Some g" by (auto split: option.splits)
  from rolls_and_timers[OF this, of test_loot_env 1 0] ran show ?thesis by (auto split: sum.splits option.splits)
qed

end
