(* ===== verification/Guild.thy ===== *)
theory Guild
  imports World
begin

text \<open>
  Guilds (class \<open>Guild\<close> of src/src/server/game/Guilds/Guild.h and .cpp) without the items and tabs of their bank: ranks and
  their rights, members, leader, texts, the event log, the money of the bank with the limits for a day, loading and
  the map of guilds of \<open>ObjectMgr\<close>. An operation takes the guild object and the server and returns both;
  \<open>None\<close> is an object that has deleted itself.
\<close>

section \<open>Data\<close>

abbreviation WITHDRAW_MONEY_UNLIMITED :: u32 where "WITHDRAW_MONEY_UNLIMITED \<equiv> 0xFFFFFFFF"
abbreviation WITHDRAW_SLOT_UNLIMITED :: u32 where "WITHDRAW_SLOT_UNLIMITED \<equiv> 0xFFFFFFFF"
abbreviation GUILD_RANKS_MIN_COUNT :: nat where "GUILD_RANKS_MIN_COUNT \<equiv> 5"
abbreviation GUILD_MAX_RANKS :: nat where "GUILD_MAX_RANKS \<equiv> 10"
abbreviation GUILD_BANK_MAX_TABS :: nat where "GUILD_BANK_MAX_TABS \<equiv> 6"
abbreviation GUILD_BANK_MAX_LOGS :: nat where "GUILD_BANK_MAX_LOGS \<equiv> 24"
abbreviation GUILD_EVENTLOG_MAX_ENTRIES :: nat where "GUILD_EVENTLOG_MAX_ENTRIES \<equiv> 100"

abbreviation GR_GUILDMASTER :: u32 where "GR_GUILDMASTER \<equiv> 0"
abbreviation GR_OFFICER :: u32 where "GR_OFFICER \<equiv> 1"

abbreviation GR_RIGHT_EMPTY :: u32 where "GR_RIGHT_EMPTY \<equiv> 0x40"
abbreviation GR_RIGHT_GCHATLISTEN :: u32 where "GR_RIGHT_GCHATLISTEN \<equiv> 0x41"
abbreviation GR_RIGHT_GCHATSPEAK :: u32 where "GR_RIGHT_GCHATSPEAK \<equiv> 0x42"
abbreviation GR_RIGHT_OFFCHATLISTEN :: u32 where "GR_RIGHT_OFFCHATLISTEN \<equiv> 0x44"
abbreviation GR_RIGHT_OFFCHATSPEAK :: u32 where "GR_RIGHT_OFFCHATSPEAK \<equiv> 0x48"
abbreviation GR_RIGHT_PROMOTE :: u32 where "GR_RIGHT_PROMOTE \<equiv> 0xC0"
abbreviation GR_RIGHT_DEMOTE :: u32 where "GR_RIGHT_DEMOTE \<equiv> 0x140"
abbreviation GR_RIGHT_INVITE :: u32 where "GR_RIGHT_INVITE \<equiv> 0x50"
abbreviation GR_RIGHT_REMOVE :: u32 where "GR_RIGHT_REMOVE \<equiv> 0x60"
abbreviation GR_RIGHT_SETMOTD :: u32 where "GR_RIGHT_SETMOTD \<equiv> 0x1040"
abbreviation GR_RIGHT_EPNOTE :: u32 where "GR_RIGHT_EPNOTE \<equiv> 0x2040"
abbreviation GR_RIGHT_EOFFNOTE :: u32 where "GR_RIGHT_EOFFNOTE \<equiv> 0x8040"
abbreviation GR_RIGHT_MODIFY_GUILD_INFO :: u32 where "GR_RIGHT_MODIFY_GUILD_INFO \<equiv> 0x10040"
abbreviation GR_RIGHT_WITHDRAW_GOLD :: u32 where "GR_RIGHT_WITHDRAW_GOLD \<equiv> 0x80000"
abbreviation GR_RIGHT_ALL :: u32 where "GR_RIGHT_ALL \<equiv> 0xDF1FF"

abbreviation GE_PROMOTION :: u8 where "GE_PROMOTION \<equiv> 0"
abbreviation GE_DEMOTION :: u8 where "GE_DEMOTION \<equiv> 1"
abbreviation GE_MOTD :: u8 where "GE_MOTD \<equiv> 2"
abbreviation GE_JOINED :: u8 where "GE_JOINED \<equiv> 3"
abbreviation GE_LEFT :: u8 where "GE_LEFT \<equiv> 4"
abbreviation GE_REMOVED :: u8 where "GE_REMOVED \<equiv> 5"
abbreviation GE_LEADER_CHANGED :: u8 where "GE_LEADER_CHANGED \<equiv> 7"
abbreviation GE_DISBANDED :: u8 where "GE_DISBANDED \<equiv> 8"
abbreviation GE_SIGNED_OFF :: u8 where "GE_SIGNED_OFF \<equiv> 13"

abbreviation GUILD_BANK_RIGHT_VIEW_TAB :: u32 where "GUILD_BANK_RIGHT_VIEW_TAB \<equiv> 1"
abbreviation GUILD_BANK_RIGHT_FULL :: u32 where "GUILD_BANK_RIGHT_FULL \<equiv> 0xFF"

abbreviation GUILD_BANK_LOG_DEPOSIT_MONEY :: u8 where "GUILD_BANK_LOG_DEPOSIT_MONEY \<equiv> 4"
abbreviation GUILD_BANK_LOG_WITHDRAW_MONEY :: u8 where "GUILD_BANK_LOG_WITHDRAW_MONEY \<equiv> 5"
abbreviation GUILD_BANK_LOG_REPAIR_MONEY :: u8 where "GUILD_BANK_LOG_REPAIR_MONEY \<equiv> 6"

abbreviation GUILD_EVENT_LOG_INVITE_PLAYER :: u8 where "GUILD_EVENT_LOG_INVITE_PLAYER \<equiv> 1"
abbreviation GUILD_EVENT_LOG_JOIN_GUILD :: u8 where "GUILD_EVENT_LOG_JOIN_GUILD \<equiv> 2"
abbreviation GUILD_EVENT_LOG_PROMOTE_PLAYER :: u8 where "GUILD_EVENT_LOG_PROMOTE_PLAYER \<equiv> 3"
abbreviation GUILD_EVENT_LOG_DEMOTE_PLAYER :: u8 where "GUILD_EVENT_LOG_DEMOTE_PLAYER \<equiv> 4"
abbreviation GUILD_EVENT_LOG_UNINVITE_PLAYER :: u8 where "GUILD_EVENT_LOG_UNINVITE_PLAYER \<equiv> 5"
abbreviation GUILD_EVENT_LOG_LEAVE_GUILD :: u8 where "GUILD_EVENT_LOG_LEAVE_GUILD \<equiv> 6"

abbreviation SMSG_GUILD_QUERY_RESPONSE :: u16 where "SMSG_GUILD_QUERY_RESPONSE \<equiv> 0x55"
abbreviation SMSG_GUILD_ROSTER :: u16 where "SMSG_GUILD_ROSTER \<equiv> 0x8A"
abbreviation SMSG_GUILD_EVENT :: u16 where "SMSG_GUILD_EVENT \<equiv> 0x92"
abbreviation SMSG_GUILD_BANK_LIST :: u16 where "SMSG_GUILD_BANK_LIST \<equiv> 0x3E7"
abbreviation MSG_GUILD_BANK_LOG_QUERY :: u16 where "MSG_GUILD_BANK_LOG_QUERY \<equiv> 0x3ED"
abbreviation MSG_GUILD_BANK_MONEY_WITHDRAWN :: u16 where "MSG_GUILD_BANK_MONEY_WITHDRAWN \<equiv> 0x3FD"
abbreviation MSG_GUILD_EVENT_LOG_QUERY :: u16 where "MSG_GUILD_EVENT_LOG_QUERY \<equiv> 0x3FE"

record guild_event =
  ev_LogGuid :: u32
  ev_EventType :: u8
  ev_PlayerGuid1 :: u32
  ev_PlayerGuid2 :: u32
  ev_NewRank :: u8
  ev_TimeStamp :: u64

text \<open>The code never sets \<open>TabId\<close> of the bank's events: it is the index of the list.\<close>

record bank_event =
  be_LogGuid :: u32
  be_LogEntry :: u8
  be_PlayerGuid :: u32
  be_ItemOrMoney :: u32
  be_ItemStackCount :: u8
  be_DestTabId :: u8
  be_TimeStamp :: u64

record guild_member =
  mb_accountId :: u32
  mb_Name :: string
  mb_RankId :: u32
  mb_Level :: u8
  mb_Class :: u8
  mb_ZoneId :: u32
  mb_LogoutTime :: u64
  mb_Pnote :: string
  mb_OFFnote :: string
  mb_BankResetTimeMoney :: u32
  mb_BankRemMoney :: u32
  mb_BankResetTimeTab :: "u32 list"
  mb_BankRemSlotsTab :: "u32 list"

record rank_info =
  rk_Name :: string
  rk_Rights :: u32
  rk_BankMoneyPerDay :: u32
  rk_TabRight :: "u32 list"
  rk_TabSlotPerDay :: "u32 list"

definition RankInfo_new :: "string \<Rightarrow> u32 \<Rightarrow> u32 \<Rightarrow> rank_info" where
  "RankInfo_new name rights money = \<lparr>rk_Name = name, rk_Rights = rights, rk_BankMoneyPerDay = money,
     rk_TabRight = replicate GUILD_BANK_MAX_TABS 0, rk_TabSlotPerDay = replicate GUILD_BANK_MAX_TABS 0\<rparr>"

text \<open>Fields that the constructor does not set have some value.\<close>

record guild_junk =
  ju_bankloaded :: bool
  ju_eventlogloaded :: bool
  ju_onlinemembers :: u32
  ju_LogMaxGuid :: u32
  ju_EventMaxGuid :: u32
  ju_rem :: u32

record guild =
  gu_Id :: u32
  gu_Name :: string
  gu_LeaderGuid :: guid
  gu_MOTD :: string
  gu_GINFO :: string
  gu_Created :: "u32 \<times> u32 \<times> u32"          \<comment> \<open>day, month, year\<close>
  gu_Emblem :: "u32 list"                 \<comment> \<open>emblem style and color, border style and color, background\<close>
  gu_accountsNumber :: u32
  gu_Ranks :: "rank_info list"
  gu_members :: "(u32 \<times> guild_member) list"
  gu_Eventlog :: "guild_event list"
  gu_BankLog_Money :: "bank_event list"
  gu_BankLog_Item :: "bank_event list list"
  gu_bankloaded :: bool
  gu_eventlogloaded :: bool
  gu_onlinemembers :: u32
  gu_BankMoney :: u64
  gu_PurchasedTabs :: u8
  gu_LogMaxGuid :: u32
  gu_EventMaxGuid :: u32

definition Guild_new :: "guild_junk \<Rightarrow> guild" where
  "Guild_new j = \<lparr>gu_Id = 0, gu_Name = '''', gu_LeaderGuid = 0, gu_MOTD = '''', gu_GINFO = '''', gu_Created = (0, 0, 0),
     gu_Emblem = replicate 5 0, gu_accountsNumber = 0, gu_Ranks = [], gu_members = [], gu_Eventlog = [],
     gu_BankLog_Money = [], gu_BankLog_Item = replicate GUILD_BANK_MAX_TABS [], gu_bankloaded = ju_bankloaded j,
     gu_eventlogloaded = ju_eventlogloaded j, gu_onlinemembers = ju_onlinemembers j, gu_BankMoney = 0, gu_PurchasedTabs = 0,
     gu_LogMaxGuid = ju_LogMaxGuid j, gu_EventMaxGuid = ju_EventMaxGuid j\<rparr>"

datatype (plugins only: code size) guild_sql =
    InsertGuild u32 string u32 string string "u32 list" u64
  | InsertGuildMember u32 u32 u32 string string
  | DeleteGuildMember u32
  | DeleteMembersOf u32
  | UpdateGuildRank u32 u32                   \<comment> \<open>rank, guid\<close>
  | UpdateGuildLeader u32 u32                 \<comment> \<open>guid, guild\<close>
  | UpdateMotd string u32
  | UpdateInfo string u32
  | UpdatePnote string u32
  | UpdateOffnote string u32
  | UpdateEmblem "u32 list" u32
  | DeleteRanksOf u32
  | InsertRank u32 u32 string u32             \<comment> \<open>guild, rid, name, rights\<close>
  | DeleteRanksFrom u32 u32                   \<comment> \<open>rid, guild\<close>
  | DeleteBankRightsFrom u32 u32
  | DeleteBankRightsOf u32
  | SetRankName_sql string u32 u32
  | SetRankRights_sql u32 u32 u32
  | DeleteBankRight u32 u32 u32               \<comment> \<open>guild, tab, rank\<close>
  | InsertBankRight u32 u32 u32 u32 u32       \<comment> \<open>guild, tab, rank, right, slots\<close>
  | DeleteGuildRows u32                       \<comment> \<open>the seven statements of \<open>Disband\<close>\<close>
  | InsertEvent u32 guild_event
  | DeleteEvent u32 u32
  | DeleteEventsBelow u32 u32
  | RenumberEvents u32 u32
  | InsertBankEvent u32 u32 bank_event        \<comment> \<open>guild, tab\<close>
  | DeleteBankEvent u32 u32
  | DeleteBankEventsBelow u32 u32
  | RenumberBankEvents u32 u32
  | InsertBankTab u32 u32                     \<comment> \<open>deleted and inserted: guild, tab\<close>
  | UpdateBankMoney u64 u32
  | UpdateRemMoney u32 u32 u32                \<comment> \<open>value, guild, guid\<close>
  | UpdateResetMoney u32 u32 u32 u32          \<comment> \<open>time, value, guild, guid\<close>
  | UpdateRemSlots u32 u32 u32 u32            \<comment> \<open>tab, value, guild, guid\<close>
  | UpdateResetSlots u32 u32 u32 u32 u32      \<comment> \<open>tab, time, value, guild, guid\<close>
  | UpdateMoneyPerDay u32 u32 u32             \<comment> \<open>money, rid, guild\<close>
  | ResetMoneyTimes u32 u32                   \<comment> \<open>guild, rank\<close>
  | ResetSlotTimes u32 u32 u32                \<comment> \<open>tab, guild, rank\<close>

datatype (plugins only: code size) guild_action =
    GuSend guid packet
  | GuSql guild_sql
  | GuHook string u32                         \<comment> \<open>\<open>sScriptMgr.On...\<close>\<close>
  | RemovePetitions guid u32
  | GuStopServer
  | TooMuchGold guid                          \<comment> \<open>\<open>SendEquipError(EQUIP_ERR_TOO_MUCH_GOLD)\<close>\<close>
  | ShowBank guid                             \<comment> \<open>\<open>DisplayGuildBankTabsInfo\<close> and \<open>DisplayGuildBankContent\<close>\<close>
  | RemoveFeignDeath guid
  | SendEmblemResult guid u32

text \<open>\<open>PLAYER_GUILDID\<close>, \<open>PLAYER_GUILDRANK\<close> and \<open>m_GuildIdInvited\<close> of a player object.\<close>

record guild_refs =
  ri_guild :: u32
  ri_rank :: u32
  ri_invited :: u32

text \<open>\<open>gd_money\<close> is the copper a player carries. \<open>gd_rows\<close> is the table \<open>guild_member\<close>: guid, guild, rank. It has no unique key.\<close>

record guild_server =
  gd_world :: world
  gd_refs :: "guid \<Rightarrow> guild_refs"
  gd_money :: "guid \<Rightarrow> u32"
  gd_map :: "(u32 \<times> guild) list"
  gd_next :: u32
  gd_rows :: "(u32 \<times> u32 \<times> u32) list"
  gd_log :: "guild_action list"

record guild_env =
  ge_now :: u64
  ge_date :: "u32 \<times> u32 \<times> u32"
  ge_escape :: "string \<Rightarrow> string"
  ge_norm :: "string \<Rightarrow> string option"      \<comment> \<open>\<open>normalizePlayerName\<close>\<close>
  ge_character :: "u32 \<Rightarrow> (string \<times> u32 \<times> u32 \<times> u32 \<times> u32) option"
    \<comment> \<open>name, level, zone, class, account of the row of \<open>characters\<close>\<close>
  ge_db_zone :: "guid \<Rightarrow> u32"               \<comment> \<open>\<open>GetZoneIdFromDB\<close>\<close>
  ge_account :: "guid \<Rightarrow> u32"               \<comment> \<open>\<open>GetPlayerAccountIdByGUID\<close>, 0 for no character\<close>
  ge_db_side :: "guid \<Rightarrow> u32"               \<comment> \<open>\<open>GetPlayerTeamByGUID\<close>\<close>
  ge_two_side_guild :: bool
  ge_rank_names :: "string list"          \<comment> \<open>the five localised names of the default ranks\<close>
  ge_max_level :: u32                     \<comment> \<open>\<open>STRONG_MAX_LEVEL\<close>\<close>
  ge_days :: "u64 \<Rightarrow> u8 list"             \<comment> \<open>a time as days in a \<open>float\<close>\<close>
  ge_junk :: guild_junk

datatype guild_error = DeletedGuildObject u32

type_synonym guild_result = "guild_error + guild_server"

section \<open>The server state\<close>

abbreviation player_guid :: "u32 \<Rightarrow> guid" where
  "player_guid low \<equiv> MAKE_NEW_GUID low 0 HIGHGUID_PLAYER"

definition gdo :: "guild_action list \<Rightarrow> guild_server \<Rightarrow> guild_server" where
  "gdo as s = s\<lparr>gd_log := gd_log s @ as\<rparr>"

definition set_refs :: "guid \<Rightarrow> (guild_refs \<Rightarrow> guild_refs) \<Rightarrow> guild_server \<Rightarrow> guild_server" where
  "set_refs h f s = s\<lparr>gd_refs := (gd_refs s)(h := f (gd_refs s h))\<rparr>"

text \<open>The fields of a player object, when there is one in the world.\<close>

definition set_online :: "guid \<Rightarrow> (guild_refs \<Rightarrow> guild_refs) \<Rightarrow> guild_server \<Rightarrow> guild_server" where
  "set_online h f s = (if GetPlayer (gd_world s) h \<noteq> None then set_refs h f s else s)"

definition set_rows :: "((u32 \<times> u32 \<times> u32) list \<Rightarrow> (u32 \<times> u32 \<times> u32) list) \<Rightarrow> guild_server \<Rightarrow> guild_server" where
  "set_rows f s = s\<lparr>gd_rows := f (gd_rows s)\<rparr>"

definition set_map :: "((u32 \<times> guild) list \<Rightarrow> (u32 \<times> guild) list) \<Rightarrow> guild_server \<Rightarrow> guild_server" where
  "set_map f s = s\<lparr>gd_map := f (gd_map s)\<rparr>"

definition GetGuildIdFromDB :: "guid \<Rightarrow> guild_server \<Rightarrow> u32" where
  "GetGuildIdFromDB h s = (case find (\<lambda>r. ucast (fst r) = h) (gd_rows s) of None \<Rightarrow> 0 | Some (l, i, k) \<Rightarrow> i)"

definition GetGuildById :: "u32 \<Rightarrow> guild_server \<Rightarrow> guild option" where
  "GetGuildById i s = sm_find i (gd_map s)"

definition GetGuildByName :: "string \<Rightarrow> guild_server \<Rightarrow> guild option" where
  "GetGuildByName n s = map_option snd (find (\<lambda>p. gu_Name (snd p) = n) (gd_map s))"

definition AddGuild :: "guild \<Rightarrow> guild_server \<Rightarrow> guild_server" where
  "AddGuild g = set_map (sm_set (gu_Id g) g)"

definition RemoveGuild :: "u32 \<Rightarrow> guild_server \<Rightarrow> guild_server" where
  "RemoveGuild i = set_map (sm_erase i)"

definition GenerateGuildId :: "guild_server \<Rightarrow> u32 \<times> guild_server" where
  "GenerateGuildId s =
     (gd_next s, (if gd_next s \<ge> 0xFFFFFFFE then gdo [GuStopServer] s else s)\<lparr>gd_next := gd_next s + 1\<rparr>)"

text \<open>\<open>Player::ModifyMoney(int32)\<close>: a player carries at most \<open>MAX_MONEY_AMOUNT\<close>.\<close>

abbreviation MAX_MONEY_AMOUNT :: u32 where "MAX_MONEY_AMOUNT \<equiv> 0x7FFFFFFE"

definition ModifyMoney :: "guid \<Rightarrow> u32 \<Rightarrow> guild_server \<Rightarrow> guild_server" where
  "ModifyMoney h d s =
     (let money = gd_money s h;
          money = (if sint d < 0 then (if money > - d then money + d else 0)
                   else if money < MAX_MONEY_AMOUNT - d then money + d else MAX_MONEY_AMOUNT);
          s = s\<lparr>gd_money := (gd_money s)(h := money)\<rparr>
      in if money \<ge> MAX_MONEY_AMOUNT then gdo [TooMuchGold h] s else s)"

section \<open>Packets to members\<close>

definition to_members :: "(u32 \<times> guild_member \<Rightarrow> bool) \<Rightarrow> packet \<Rightarrow> guild \<Rightarrow> guild_server \<Rightarrow> guild_server" where
  "to_members P p g s =
     gdo (map (\<lambda>x. GuSend (player_guid (fst x)) p)
       (filter (\<lambda>x. P x \<and> FindPlayer (gd_world s) (player_guid (fst x)) True \<noteq> None) (gu_members g))) s"

definition Guild_BroadcastPacket :: "packet \<Rightarrow> guild \<Rightarrow> guild_server \<Rightarrow> guild_server" where
  "Guild_BroadcastPacket = to_members (\<lambda>_. True)"

definition BroadcastPacketToRank :: "packet \<Rightarrow> u32 \<Rightarrow> guild \<Rightarrow> guild_server \<Rightarrow> guild_server" where
  "BroadcastPacketToRank p rank = to_members (\<lambda>x. mb_RankId (snd x) = rank) p"

definition guild_event_packet :: "u8 \<Rightarrow> guid \<Rightarrow> string list \<Rightarrow> packet" where
  "guild_event_packet e h strs =
     put (WorldPacket_new SMSG_GUILD_EVENT)
       (enc_u8 e @ enc_u8 (of_nat (length strs)) @ concat (map enc_string strs) @ (if h \<noteq> 0 then enc_u64 h else []))"

text \<open>The strings are \<open>char const*\<close>.\<close>

definition Guild_BroadcastEvent :: "u8 \<Rightarrow> guid \<Rightarrow> string list \<Rightarrow> guild \<Rightarrow> guild_server \<Rightarrow> guild_server" where
  "Guild_BroadcastEvent e h strs = Guild_BroadcastPacket (guild_event_packet e h (map c_str strs))"

section \<open>Ranks\<close>

definition GetNrRanks :: "guild \<Rightarrow> u32" where
  "GetNrRanks g = of_nat (length (gu_Ranks g))"

definition GetLowestRank :: "guild \<Rightarrow> u32" where
  "GetLowestRank g = GetNrRanks g - 1"

definition GetRankName :: "u32 \<Rightarrow> guild \<Rightarrow> string" where
  "GetRankName rank g = (if unat rank \<ge> length (gu_Ranks g) then ''<unknown>'' else rk_Name (gu_Ranks g ! unat rank))"

definition GetRankRights :: "u32 \<Rightarrow> guild \<Rightarrow> u32" where
  "GetRankRights rank g = (if unat rank \<ge> length (gu_Ranks g) then 0 else rk_Rights (gu_Ranks g ! unat rank))"

definition HasRankRight :: "u32 \<Rightarrow> u32 \<Rightarrow> guild \<Rightarrow> bool" where
  "HasRankRight rank right g \<longleftrightarrow> GetRankRights rank g AND right \<noteq> GR_RIGHT_EMPTY"

definition on_rank :: "u32 \<Rightarrow> (rank_info \<Rightarrow> rank_info) \<Rightarrow> guild \<Rightarrow> guild" where
  "on_rank rank f g = g\<lparr>gu_Ranks := (gu_Ranks g)[unat rank := f (gu_Ranks g ! unat rank)]\<rparr>"

definition AddRank :: "string \<Rightarrow> u32 \<Rightarrow> u32 \<Rightarrow> guild \<Rightarrow> guild" where
  "AddRank name rights money g = g\<lparr>gu_Ranks := gu_Ranks g @ [RankInfo_new name rights money]\<rparr>"

definition set_tab :: "nat \<Rightarrow> u32 \<Rightarrow> u32 \<Rightarrow> rank_info \<Rightarrow> rank_info" where
  "set_tab tab right slots k = k\<lparr>rk_TabRight := (rk_TabRight k)[tab := right], rk_TabSlotPerDay := (rk_TabSlotPerDay k)[tab := slots]\<rparr>"

definition CreateBankRightForTab :: "u32 \<Rightarrow> u8 \<Rightarrow> guild \<times> guild_server \<Rightarrow> guild \<times> guild_server" where
  "CreateBankRightForTab rank tab = (\<lambda>(g, s).
     if unat rank \<ge> length (gu_Ranks g) \<or> unat tab \<ge> GUILD_BANK_MAX_TABS then (g, s)
     else (on_rank rank (set_tab (unat tab) 0 0) g,
           gdo [GuSql (DeleteBankRight (gu_Id g) (ucast tab) rank), GuSql (InsertBankRight (gu_Id g) (ucast tab) rank 0 0)] s))"

definition CreateRank :: "guild_env \<Rightarrow> string \<Rightarrow> u32 \<Rightarrow> guild \<times> guild_server \<Rightarrow> guild \<times> guild_server" where
  "CreateRank env name rights = (\<lambda>(g, s).
     if length (gu_Ranks g) \<ge> GUILD_MAX_RANKS then (g, s)
     else
       let g = AddRank name rights 0 g;
           (g, s) = fold (\<lambda>i. CreateBankRightForTab (GetNrRanks g - 1) (of_nat i)) [0..<unat (gu_PurchasedTabs g)] (g, s)
       in (g, gdo [GuSql (InsertRank (gu_Id g) (GetNrRanks g) (ge_escape env name) rights)] s))"

definition CreateDefaultGuildRanks :: "guild_env \<Rightarrow> guild \<times> guild_server \<Rightarrow> guild \<times> guild_server" where
  "CreateDefaultGuildRanks env = (\<lambda>(g, s).
     let low = GR_RIGHT_GCHATLISTEN OR GR_RIGHT_GCHATSPEAK
     in fold (\<lambda>(i, rights). CreateRank env (ge_rank_names env ! i) rights)
          [(0, GR_RIGHT_ALL), (1, GR_RIGHT_ALL), (2, low), (3, low), (4, low)]
          (g, gdo [GuSql (DeleteRanksOf (gu_Id g)), GuSql (DeleteBankRightsOf (gu_Id g))] s))"

definition DelRank :: "guild \<times> guild_server \<Rightarrow> guild \<times> guild_server" where
  "DelRank = (\<lambda>(g, s).
     if gu_Ranks g = [] then (g, s)
     else let rank = GetNrRanks g - 1
          in (g\<lparr>gu_Ranks := butlast (gu_Ranks g)\<rparr>,
              gdo [GuSql (DeleteRanksFrom (rank + 1) (gu_Id g)), GuSql (DeleteBankRightsFrom rank (gu_Id g))] s))"

definition SetRankName :: "guild_env \<Rightarrow> u32 \<Rightarrow> string \<Rightarrow> guild \<times> guild_server \<Rightarrow> guild \<times> guild_server" where
  "SetRankName env rank name = (\<lambda>(g, s).
     if unat rank \<ge> length (gu_Ranks g) then (g, s)
     else (on_rank rank (\<lambda>k. k\<lparr>rk_Name := name\<rparr>) g, gdo [GuSql (SetRankName_sql (ge_escape env name) (rank + 1) (gu_Id g))] s))"

definition SetRankRights :: "u32 \<Rightarrow> u32 \<Rightarrow> guild \<times> guild_server \<Rightarrow> guild \<times> guild_server" where
  "SetRankRights rank rights = (\<lambda>(g, s).
     if unat rank \<ge> length (gu_Ranks g) then (g, s)
     else (on_rank rank (\<lambda>k. k\<lparr>rk_Rights := rights\<rparr>) g, gdo [GuSql (SetRankRights_sql rights (rank + 1) (gu_Id g))] s))"

section \<open>Members\<close>

definition on_guild_member :: "u32 \<Rightarrow> (guild_member \<Rightarrow> guild_member) \<Rightarrow> guild \<Rightarrow> guild" where
  "on_guild_member low f g = (case sm_find low (gu_members g) of None \<Rightarrow> g | Some m \<Rightarrow> g\<lparr>gu_members := sm_set low (f m) (gu_members g)\<rparr>)"

definition Guild_GetMemberSlot :: "string \<Rightarrow> guild \<Rightarrow> (u32 \<times> guild_member) option" where
  "Guild_GetMemberSlot n g = find (\<lambda>x. mb_Name (snd x) = n) (gu_members g)"

definition UpdateAccountsNumber :: "guild \<Rightarrow> guild" where
  "UpdateAccountsNumber g = g\<lparr>gu_accountsNumber := of_nat (length (remdups (map (mb_accountId \<circ> snd) (gu_members g))))\<rparr>"

text \<open>Account, name, level, zone and class.\<close>

definition FillPlayerData :: "guild_env \<Rightarrow> guid \<Rightarrow> guild_server \<Rightarrow> (u32 \<times> string \<times> u32 \<times> u32 \<times> u32) option" where
  "FillPlayerData env h s =
     (case GetPlayer (gd_world s) h of
        Some pl \<Rightarrow> Some (ucast (pl_account pl), c_str (pl_name pl), pl_level pl, pl_zone pl, pl_class pl)
      | None \<Rightarrow>
          (case ge_character env (GUID_LOPART h) of
             None \<Rightarrow> None
           | Some (name, level, zone, cls, account) \<Rightarrow>
               if level < 1 \<or> level > ge_max_level env then None
               else let zone = (if zone = 0 then ge_db_zone env h else zone)
                    in if cls < 1 \<or> cls \<ge> 12 then None else Some (account, name, level, zone, cls)))"

definition new_guild_member :: "guild_env \<Rightarrow> u32 \<Rightarrow> u32 \<times> string \<times> u32 \<times> u32 \<times> u32 \<Rightarrow> guild_member" where
  "new_guild_member env rank = (\<lambda>(account, name, level, zone, cls).
     \<lparr>mb_accountId = account, mb_Name = name, mb_RankId = rank, mb_Level = ucast level, mb_Class = ucast cls, mb_ZoneId = zone,
      mb_LogoutTime = ge_now env, mb_Pnote = '''', mb_OFFnote = '''', mb_BankResetTimeMoney = 0, mb_BankRemMoney = ju_rem (ge_junk env),
      mb_BankResetTimeTab = replicate GUILD_BANK_MAX_TABS 0,
      mb_BankRemSlotsTab = replicate GUILD_BANK_MAX_TABS (ju_rem (ge_junk env))\<rparr>)"

definition Guild_AddMember :: "guild_env \<Rightarrow> guid \<Rightarrow> u32 \<Rightarrow> guild \<times> guild_server \<Rightarrow> bool \<times> guild \<times> guild_server" where
  "Guild_AddMember env h rank = (\<lambda>(g, s).
     if (if GetPlayer (gd_world s) h \<noteq> None then ri_guild (gd_refs s h) \<noteq> 0 else GetGuildIdFromDB h s \<noteq> 0) then (False, g, s)
     else
       let s = gdo [RemovePetitions h 9] s
       in case FillPlayerData env h s of
            None \<Rightarrow> (False, g, s)
          | Some d \<Rightarrow>
              let low = GUID_LOPART h; g = g\<lparr>gu_members := sm_set low (new_guild_member env rank d) (gu_members g)\<rparr>;
                  s = gdo [GuSql (InsertGuildMember (gu_Id g) low rank (ge_escape env '''') (ge_escape env ''''))]
                        (set_rows (\<lambda>rs. rs @ [(low, gu_Id g, rank)]) s);
                  s = set_online h (\<lambda>r. r\<lparr>ri_guild := gu_Id g, ri_rank := rank, ri_invited := 0\<rparr>) s
              in (True, UpdateAccountsNumber g, gdo [GuHook ''OnGuildAddMember'' (gu_Id g)] s))"

definition LoadPlayerStatsByGuid :: "guid \<Rightarrow> guild \<times> guild_server \<Rightarrow> guild \<times> guild_server" where
  "LoadPlayerStatsByGuid h = (\<lambda>(g, s).
     case GetPlayer (gd_world s) h of
       None \<Rightarrow> (g, s)
     | Some pl \<Rightarrow> (on_guild_member (GUID_LOPART h) (\<lambda>m. m\<lparr>mb_Name := c_str (pl_name pl), mb_Level := ucast (pl_level pl),
                    mb_Class := ucast (pl_class pl)\<rparr>) g, s))"

definition ChangeRank :: "guid \<Rightarrow> u32 \<Rightarrow> guild \<times> guild_server \<Rightarrow> guild \<times> guild_server" where
  "ChangeRank h rank = (\<lambda>(g, s).
     (on_guild_member (GUID_LOPART h) (\<lambda>m. m\<lparr>mb_RankId := rank\<rparr>) g,
      gdo [GuSql (UpdateGuildRank rank (GUID_LOPART h))]
        (set_rows (map (\<lambda>(l, i, k). if l = GUID_LOPART h then (l, i, rank) else (l, i, k)))
          (set_online h (\<lambda>r. r\<lparr>ri_rank := rank\<rparr>) s))))"

definition SetLeader :: "guid \<Rightarrow> guild \<times> guild_server \<Rightarrow> guild \<times> guild_server" where
  "SetLeader h = (\<lambda>(g, s).
     let (g, s) = ChangeRank h GR_GUILDMASTER (g\<lparr>gu_LeaderGuid := h\<rparr>, s)
     in (g, gdo [GuSql (UpdateGuildLeader (GUID_LOPART h) (gu_Id g))] s))"

text \<open>The end of \<open>DelMember\<close>.\<close>

definition erase_guild_member :: "guid \<Rightarrow> guild \<times> guild_server \<Rightarrow> guild \<times> guild_server" where
  "erase_guild_member h = (\<lambda>(g, s).
     (g\<lparr>gu_members := sm_erase (GUID_LOPART h) (gu_members g)\<rparr>,
      gdo [GuSql (DeleteGuildMember (GUID_LOPART h)), GuHook ''OnGuildRemoveMember'' (gu_Id g)]
        (set_rows (filter (\<lambda>r. fst r \<noteq> GUID_LOPART h))
          (set_online h (\<lambda>r. r\<lparr>ri_guild := 0, ri_rank := 0\<rparr>) s))))"

lemma lopart_player_guid [simp]: "GUID_LOPART (player_guid low) = low"
proof -
  have "GUID_HIPART (player_guid low) = HIGHGUID_PLAYER" by (rule hipart_make) simp_all
  then show ?thesis by (simp add: GUID_LOPART_def IsGuidHaveEnPart_def lopart_make_32)
qed

text \<open>\<open>while (!members.empty()) DelMember(first, true)\<close>\<close>

function erase_all_members :: "guild \<times> guild_server \<Rightarrow> guild \<times> guild_server" where
  "erase_all_members (g, s) =
     (case gu_members g of [] \<Rightarrow> (g, s) | (low, m) # ms \<Rightarrow> erase_all_members (erase_guild_member (player_guid low) (g, s)))"
  by pat_completeness auto

termination
  by (relation "measure (\<lambda>(g, s). length (gu_members g))")
     (auto simp: erase_guild_member_def sm_erase_def le_imp_less_Suc)

definition Guild_Disband :: "guild \<times> guild_server \<Rightarrow> guild \<times> guild_server" where
  "Guild_Disband = (\<lambda>(g, s).
     let (g, s) = erase_all_members (g, Guild_BroadcastEvent GE_DISBANDED 0 [] g s)
     in (g, RemoveGuild (gu_Id g) (gdo [GuSql (DeleteGuildRows (gu_Id g)), GuHook ''OnGuildDisband'' (gu_Id g)] s)))"

text \<open>The first of the other members with the lowest rank number.\<close>

definition best_heir :: "u32 \<Rightarrow> (u32 \<times> guild_member) list \<Rightarrow> (u32 \<times> guild_member) option" where
  "best_heir low ms =
     fold (\<lambda>x best. if fst x = low then best
                    else case best of None \<Rightarrow> Some x
                         | Some b \<Rightarrow> if mb_RankId (snd b) > mb_RankId (snd x) then Some x else best) ms None"

text \<open>\<open>SetLeader\<close> gets the low guid of the new leader. Without one the guild is disbanded and deletes itself.\<close>

definition Guild_DelMember :: "guid \<Rightarrow> guild \<times> guild_server \<Rightarrow> guild option \<times> guild_server" where
  "Guild_DelMember h = (\<lambda>(g, s).
     if gu_LeaderGuid g = h
     then (case best_heir (GUID_LOPART h) (gu_members g) of
             None \<Rightarrow> (None, snd (Guild_Disband (g, s)))
           | Some (new, best) \<Rightarrow>
               let old = sm_find (GUID_LOPART h) (gu_members g);
                   (g, s) = SetLeader (ucast new) (g, s);
                   s = set_online (ucast new) (\<lambda>r. r\<lparr>ri_rank := GR_GUILDMASTER\<rparr>) s;
                   s = (case old of
                          None \<Rightarrow> s
                        | Some m \<Rightarrow> Guild_BroadcastEvent GE_LEFT h [mb_Name m] g
                                    (Guild_BroadcastEvent GE_LEADER_CHANGED 0 [mb_Name m, mb_Name best] g s));
                   (g, s) = erase_guild_member h (g, s)
               in (Some g, s))
     else let (g, s) = erase_guild_member h (g, s) in (Some g, s))"

section \<open>Texts\<close>

definition SetMOTD :: "guild_env \<Rightarrow> string \<Rightarrow> guild \<times> guild_server \<Rightarrow> guild \<times> guild_server" where
  "SetMOTD env t = (\<lambda>(g, s). (g\<lparr>gu_MOTD := t\<rparr>, gdo [GuSql (UpdateMotd (ge_escape env t) (gu_Id g))] s))"

definition SetGINFO :: "guild_env \<Rightarrow> string \<Rightarrow> guild \<times> guild_server \<Rightarrow> guild \<times> guild_server" where
  "SetGINFO env t = (\<lambda>(g, s). (g\<lparr>gu_GINFO := t\<rparr>, gdo [GuSql (UpdateInfo (ge_escape env t) (gu_Id g))] s))"

definition SetPNOTE :: "guild_env \<Rightarrow> guid \<Rightarrow> string \<Rightarrow> guild \<times> guild_server \<Rightarrow> guild \<times> guild_server" where
  "SetPNOTE env h t = (\<lambda>(g, s).
     if sm_find (GUID_LOPART h) (gu_members g) = None then (g, s)
     else (on_guild_member (GUID_LOPART h) (\<lambda>m. m\<lparr>mb_Pnote := t\<rparr>) g, gdo [GuSql (UpdatePnote (ge_escape env t) (GUID_LOPART h))] s))"

definition SetOFFNOTE :: "guild_env \<Rightarrow> guid \<Rightarrow> string \<Rightarrow> guild \<times> guild_server \<Rightarrow> guild \<times> guild_server" where
  "SetOFFNOTE env h t = (\<lambda>(g, s).
     if sm_find (GUID_LOPART h) (gu_members g) = None then (g, s)
     else (on_guild_member (GUID_LOPART h) (\<lambda>m. m\<lparr>mb_OFFnote := t\<rparr>) g, gdo [GuSql (UpdateOffnote (ge_escape env t) (GUID_LOPART h))] s))"

definition Guild_SetEmblem :: "u32 list \<Rightarrow> guild \<times> guild_server \<Rightarrow> guild \<times> guild_server" where
  "Guild_SetEmblem e = (\<lambda>(g, s). (g\<lparr>gu_Emblem := e\<rparr>, gdo [GuSql (UpdateEmblem e (gu_Id g))] s))"

section \<open>Roster and query\<close>

text \<open>To a session or, without one, to all members.\<close>

definition answer_or_all :: "guid option \<Rightarrow> packet \<Rightarrow> guild \<Rightarrow> guild_server \<Rightarrow> guild_server" where
  "answer_or_all to' p g s = (case to' of Some h \<Rightarrow> gdo [GuSend h p] s | None \<Rightarrow> Guild_BroadcastPacket p g s)"

definition rank_bytes :: "rank_info \<Rightarrow> u8 list" where
  "rank_bytes k = enc_u32 (rk_Rights k) @ enc_u32 (rk_BankMoneyPerDay k)
     @ concat (map (\<lambda>i. enc_u32 (rk_TabRight k ! i) @ enc_u32 (rk_TabSlotPerDay k ! i)) [0..<GUILD_BANK_MAX_TABS])"

definition guild_roster_entry :: "guild_env \<Rightarrow> world \<Rightarrow> u32 \<times> guild_member \<Rightarrow> u8 list" where
  "guild_roster_entry env w = (\<lambda>(low, m).
     case GetPlayer w (player_guid low) of
       Some pl \<Rightarrow>
         enc_u64 (pl_guid pl) @ enc_u8 1 @ enc_string (c_str (pl_name pl)) @ enc_u32 (mb_RankId m) @ enc_u8 (ucast (pl_level pl))
         @ enc_u8 (ucast (pl_class pl)) @ enc_u8 0 @ enc_u32 (pl_zone pl) @ enc_string (mb_Pnote m) @ enc_string (mb_OFFnote m)
     | None \<Rightarrow>
         enc_u64 (player_guid low) @ enc_u8 0 @ enc_string (mb_Name m) @ enc_u32 (mb_RankId m) @ enc_u8 (mb_Level m)
         @ enc_u8 (mb_Class m) @ enc_u8 0 @ enc_u32 (mb_ZoneId m) @ ge_days env (ge_now env - mb_LogoutTime m)
         @ enc_string (mb_Pnote m) @ enc_string (mb_OFFnote m))"

definition Guild_Roster :: "guild_env \<Rightarrow> guid option \<Rightarrow> guild \<Rightarrow> guild_server \<Rightarrow> guild_server" where
  "Guild_Roster env to' g s =
     answer_or_all to' (put (WorldPacket_new SMSG_GUILD_ROSTER)
       (enc_u32 (of_nat (length (gu_members g))) @ enc_string (gu_MOTD g) @ enc_string (gu_GINFO g)
        @ enc_u32 (of_nat (length (gu_Ranks g))) @ concat (map rank_bytes (gu_Ranks g))
        @ concat (map (guild_roster_entry env (gd_world s)) (gu_members g)))) g s"

definition Guild_Query :: "guid \<Rightarrow> guild \<Rightarrow> guild_server \<Rightarrow> guild_server" where
  "Guild_Query to' g s = gdo [GuSend to' (put (WorldPacket_new SMSG_GUILD_QUERY_RESPONSE)
     (enc_u32 (gu_Id g) @ enc_string (gu_Name g)
      @ concat (map (\<lambda>i. if i < length (gu_Ranks g) then enc_string (rk_Name (gu_Ranks g ! i)) else enc_u8 0) [0..<10])
      @ concat (map enc_u32 (gu_Emblem g))))] s"

section \<open>The event log\<close>

text \<open>\<open>rows\<close> is what the query returns: the latest first, at most the limit.\<close>

definition LoadGuildEventLogFromDB :: "guild_event list \<Rightarrow> guild \<times> guild_server \<Rightarrow> guild \<times> guild_server" where
  "LoadGuildEventLogFromDB rows = (\<lambda>(g, s).
     if gu_eventlogloaded g \<or> rows = [] then (g, s)
     else let g = fold (\<lambda>e g. g\<lparr>gu_Eventlog := e # gu_Eventlog g\<rparr>) rows g
          in (g\<lparr>gu_eventlogloaded := True\<rparr>, gdo [GuSql (DeleteEventsBelow (gu_Id g) (ev_LogGuid (hd (gu_Eventlog g))))] s))"

definition UnloadGuildEventlog :: "guild \<Rightarrow> guild" where
  "UnloadGuildEventlog g = (if \<not> gu_eventlogloaded g then g else g\<lparr>gu_Eventlog := [], gu_eventlogloaded := False\<rparr>)"

definition event_bytes :: "guild_env \<Rightarrow> guild_event \<Rightarrow> u8 list" where
  "event_bytes env e =
     enc_u8 (ev_EventType e) @ enc_u64 (ucast (ev_PlayerGuid1 e))
     @ (if ev_EventType e \<noteq> GUILD_EVENT_LOG_JOIN_GUILD \<and> ev_EventType e \<noteq> GUILD_EVENT_LOG_LEAVE_GUILD
        then enc_u64 (ucast (ev_PlayerGuid2 e)) else [])
     @ (if ev_EventType e = GUILD_EVENT_LOG_PROMOTE_PLAYER \<or> ev_EventType e = GUILD_EVENT_LOG_DEMOTE_PLAYER
        then enc_u8 (ev_NewRank e) else [])
     @ enc_u32 (ucast (ge_now env - ev_TimeStamp e))"

definition DisplayGuildEventlog :: "guild_env \<Rightarrow> guild_event list \<Rightarrow> guid \<Rightarrow> guild \<times> guild_server \<Rightarrow> guild \<times> guild_server" where
  "DisplayGuildEventlog env rows to' x =
     (let (g, s) = LoadGuildEventLogFromDB rows x
      in (g, gdo [GuSend to' (put (WorldPacket_new MSG_GUILD_EVENT_LOG_QUERY)
           (enc_u8 (of_nat (length (gu_Eventlog g))) @ concat (map (event_bytes env) (gu_Eventlog g))))] s))"

definition RenumGuildEventlog :: "(u32 \<times> u32) option \<Rightarrow> guild \<times> guild_server \<Rightarrow> guild \<times> guild_server" where
  "RenumGuildEventlog minmax = (\<lambda>(g, s).
     case minmax of
       None \<Rightarrow> (g, s)
     | Some (lo, hi) \<Rightarrow> (g\<lparr>gu_EventMaxGuid := hi + 1\<rparr>, gdo [GuSql (RenumberEvents lo (gu_Id g))] s))"

definition LogGuildEvent :: "guild_env \<Rightarrow> u8 \<Rightarrow> u32 \<Rightarrow> u32 \<Rightarrow> u8 \<Rightarrow> guild \<times> guild_server \<Rightarrow> guild \<times> guild_server" where
  "LogGuildEvent env t p1 p2 rank = (\<lambda>(g, s).
     let e = \<lparr>ev_LogGuid = gu_EventMaxGuid g, ev_EventType = t, ev_PlayerGuid1 = p1, ev_PlayerGuid2 = p2, ev_NewRank = rank,
              ev_TimeStamp = ucast (ucast (ge_now env) :: u32)\<rparr>;
         g = g\<lparr>gu_EventMaxGuid := gu_EventMaxGuid g + 1\<rparr>;
         (g, s) = (if length (gu_Eventlog g) > GUILD_EVENTLOG_MAX_ENTRIES
                   then (g\<lparr>gu_Eventlog := tl (gu_Eventlog g)\<rparr>,
                         gdo [GuSql (DeleteEvent (gu_Id g) (ev_LogGuid (hd (gu_Eventlog g))))] s)
                   else (g, s))
     in (g\<lparr>gu_Eventlog := gu_Eventlog g @ [e]\<rparr>, gdo [GuSql (InsertEvent (gu_Id g) e)] s))"

section \<open>The money of the bank and the limits of a day\<close>

definition GetBankRights :: "u32 \<Rightarrow> u8 \<Rightarrow> guild \<Rightarrow> u32" where
  "GetBankRights rank tab g =
     (if unat rank \<ge> length (gu_Ranks g) \<or> unat tab \<ge> GUILD_BANK_MAX_TABS then 0 else rk_TabRight (gu_Ranks g ! unat rank) ! unat tab)"

definition GetBankMoneyPerDay :: "u32 \<Rightarrow> guild \<Rightarrow> u32" where
  "GetBankMoneyPerDay rank g =
     (if unat rank \<ge> length (gu_Ranks g) then 0
      else if rank = GR_GUILDMASTER then WITHDRAW_MONEY_UNLIMITED else rk_BankMoneyPerDay (gu_Ranks g ! unat rank))"

definition GetBankSlotPerDay :: "u32 \<Rightarrow> u8 \<Rightarrow> guild \<Rightarrow> u32" where
  "GetBankSlotPerDay rank tab g =
     (if unat rank \<ge> length (gu_Ranks g) \<or> unat tab \<ge> GUILD_BANK_MAX_TABS then 0
      else if rank = GR_GUILDMASTER then WITHDRAW_SLOT_UNLIMITED else rk_TabSlotPerDay (gu_Ranks g ! unat rank) ! unat tab)"

definition IsMemberHaveRights :: "u32 \<Rightarrow> u8 \<Rightarrow> u32 \<Rightarrow> guild \<Rightarrow> bool" where
  "IsMemberHaveRights low tab rights g \<longleftrightarrow>
     (case sm_find low (gu_members g) of
        None \<Rightarrow> False
      | Some m \<Rightarrow> mb_RankId m = GR_GUILDMASTER \<or> GetBankRights (mb_RankId m) tab g AND rights = rights)"

text \<open>Minutes, as \<open>uint32\<close>.\<close>

definition minutes :: "guild_env \<Rightarrow> u32" where
  "minutes env = ucast (ge_now env div 60)"

definition GetMemberMoneyWithdrawRem :: "guild_env \<Rightarrow> u32 \<Rightarrow> guild \<times> guild_server \<Rightarrow> u32 \<times> guild \<times> guild_server" where
  "GetMemberMoneyWithdrawRem env low = (\<lambda>(g, s).
     case sm_find low (gu_members g) of
       None \<Rightarrow> (0, g, s)
     | Some m \<Rightarrow>
         if mb_RankId m = GR_GUILDMASTER then (WITHDRAW_MONEY_UNLIMITED, g, s)
         else if minutes env > mb_BankResetTimeMoney m + 1440
         then let rem = GetBankMoneyPerDay (mb_RankId m) g
              in (rem, on_guild_member low (\<lambda>m. m\<lparr>mb_BankResetTimeMoney := minutes env, mb_BankRemMoney := rem\<rparr>) g,
                  gdo [GuSql (UpdateResetMoney (minutes env) rem (gu_Id g) low)] s)
         else (mb_BankRemMoney m, g, s))"

definition GetMemberSlotWithdrawRem :: "guild_env \<Rightarrow> u32 \<Rightarrow> u8 \<Rightarrow> guild \<times> guild_server \<Rightarrow> u32 \<times> guild \<times> guild_server" where
  "GetMemberSlotWithdrawRem env low tab = (\<lambda>(g, s).
     case sm_find low (gu_members g) of
       None \<Rightarrow> (0, g, s)
     | Some m \<Rightarrow>
         if mb_RankId m = GR_GUILDMASTER then (WITHDRAW_SLOT_UNLIMITED, g, s)
         else if GetBankRights (mb_RankId m) tab g AND GUILD_BANK_RIGHT_VIEW_TAB \<noteq> GUILD_BANK_RIGHT_VIEW_TAB then (0, g, s)
         else if minutes env - mb_BankResetTimeTab m ! unat tab \<ge> 1440
         then let rem = GetBankSlotPerDay (mb_RankId m) tab g
              in (rem, on_guild_member low (\<lambda>m. m\<lparr>mb_BankResetTimeTab := (mb_BankResetTimeTab m)[unat tab := minutes env],
                                            mb_BankRemSlotsTab := (mb_BankRemSlotsTab m)[unat tab := rem]\<rparr>) g,
                  gdo [GuSql (UpdateResetSlots (ucast tab) (minutes env) rem (gu_Id g) low)] s)
         else (mb_BankRemSlotsTab m ! unat tab, g, s))"

text \<open>The parameter is an \<open>int64\<close>.\<close>

definition SetBankMoney :: "u64 \<Rightarrow> guild \<times> guild_server \<Rightarrow> guild \<times> guild_server" where
  "SetBankMoney money = (\<lambda>(g, s).
     let money = (if sint money < 0 then 0 else money)
     in (g\<lparr>gu_BankMoney := money\<rparr>, gdo [GuSql (UpdateBankMoney money (gu_Id g))] s))"

definition MemberMoneyWithdraw :: "guild_env \<Rightarrow> u32 \<Rightarrow> u32 \<Rightarrow> guild \<times> guild_server \<Rightarrow> bool \<times> guild \<times> guild_server" where
  "MemberMoneyWithdraw env amount low x =
     (let (right, g, s) = GetMemberMoneyWithdrawRem env low x
      in if right < amount \<or> gu_BankMoney g < ucast amount then (False, g, s)
         else
           let (g, s) = SetBankMoney (gu_BankMoney g - ucast amount) (g, s)
           in if right < WITHDRAW_MONEY_UNLIMITED
              then (case sm_find low (gu_members g) of
                      None \<Rightarrow> (False, g, s)
                    | Some m \<Rightarrow> (True, on_guild_member low (\<lambda>m. m\<lparr>mb_BankRemMoney := mb_BankRemMoney m - amount\<rparr>) g,
                                 gdo [GuSql (UpdateRemMoney (mb_BankRemMoney m - amount) (gu_Id g) low)] s))
              else (True, g, s))"

definition MemberItemWithdraw :: "guild_env \<Rightarrow> u8 \<Rightarrow> u32 \<Rightarrow> guild \<times> guild_server \<Rightarrow> bool \<times> guild \<times> guild_server" where
  "MemberItemWithdraw env tab low x =
     (let (right, g, s) = GetMemberSlotWithdrawRem env low tab x
      in if right = 0 then (False, g, s)
         else if right < WITHDRAW_SLOT_UNLIMITED
         then (case sm_find low (gu_members g) of
                 None \<Rightarrow> (False, g, s)
               | Some m \<Rightarrow>
                   let left = mb_BankRemSlotsTab m ! unat tab - 1
                   in (True, on_guild_member low (\<lambda>m. m\<lparr>mb_BankRemSlotsTab := (mb_BankRemSlotsTab m)[unat tab := left]\<rparr>) g,
                       gdo [GuSql (UpdateRemSlots (ucast tab) left (gu_Id g) low)] s))
         else (True, g, s))"

definition SetBankMoneyPerDay :: "u32 \<Rightarrow> u32 \<Rightarrow> guild \<times> guild_server \<Rightarrow> guild \<times> guild_server" where
  "SetBankMoneyPerDay rank money = (\<lambda>(g, s).
     if unat rank \<ge> length (gu_Ranks g) then (g, s)
     else
       let money = (if rank = GR_GUILDMASTER then WITHDRAW_MONEY_UNLIMITED else money);
           g = on_rank rank (\<lambda>k. k\<lparr>rk_BankMoneyPerDay := money\<rparr>) g;
           g = g\<lparr>gu_members := map (\<lambda>(low, m). (low, if mb_RankId m = rank then m\<lparr>mb_BankResetTimeMoney := 0\<rparr> else m)) (gu_members g)\<rparr>
       in (g, gdo [GuSql (UpdateMoneyPerDay money (rank + 1) (gu_Id g)), GuSql (ResetMoneyTimes (gu_Id g) rank)] s))"

definition SetBankRightsAndSlots :: "u32 \<Rightarrow> u8 \<Rightarrow> u32 \<Rightarrow> u32 \<Rightarrow> bool \<Rightarrow> guild \<times> guild_server \<Rightarrow> guild \<times> guild_server" where
  "SetBankRightsAndSlots rank tab right slots db = (\<lambda>(g, s).
     if unat rank \<ge> length (gu_Ranks g) \<or> unat tab \<ge> GUILD_BANK_MAX_TABS \<or> tab \<ge> gu_PurchasedTabs g
     then (g, gdo [GuSql (DeleteBankRight (gu_Id g) (ucast tab) rank)] s)
     else
       let (slots, right) = (if rank = GR_GUILDMASTER then (WITHDRAW_SLOT_UNLIMITED, GUILD_BANK_RIGHT_FULL) else (slots, right));
           g = on_rank rank (set_tab (unat tab) right slots) g
       in if \<not> db then (g, s)
          else (g\<lparr>gu_members := map (\<lambda>(low, m). (low, if mb_RankId m = rank
                  then m\<lparr>mb_BankResetTimeTab := replicate GUILD_BANK_MAX_TABS 0\<rparr> else m)) (gu_members g)\<rparr>,
                gdo [GuSql (DeleteBankRight (gu_Id g) (ucast tab) rank), GuSql (InsertBankRight (gu_Id g) (ucast tab) rank right slots),
                     GuSql (ResetSlotTimes (ucast tab) (gu_Id g) rank)] s))"

definition SendMoneyInfo :: "guild_env \<Rightarrow> guid \<Rightarrow> guild \<times> guild_server \<Rightarrow> guild \<times> guild_server" where
  "SendMoneyInfo env h x =
     (let (rem, g, s) = GetMemberMoneyWithdrawRem env (GUID_LOPART h) x
      in (g, gdo [GuSend h (put (WorldPacket_new MSG_GUILD_BANK_MONEY_WITHDRAWN) (enc_u32 rem))] s))"

definition DisplayGuildBankMoneyUpdate :: "guild \<times> guild_server \<Rightarrow> guild \<times> guild_server" where
  "DisplayGuildBankMoneyUpdate = (\<lambda>(g, s). (g, Guild_BroadcastPacket (put (WorldPacket_new SMSG_GUILD_BANK_LIST)
     (enc_u64 (gu_BankMoney g) @ enc_u8 0 @ enc_u32 0 @ enc_u8 0 @ enc_u8 0)) g s))"

text \<open>The tab itself is not modelled.\<close>

definition CreateNewBankTab :: "guild \<times> guild_server \<Rightarrow> guild \<times> guild_server" where
  "CreateNewBankTab = (\<lambda>(g, s).
     if unat (gu_PurchasedTabs g) \<ge> GUILD_BANK_MAX_TABS then (g, s)
     else (g\<lparr>gu_PurchasedTabs := gu_PurchasedTabs g + 1\<rparr>, gdo [GuSql (InsertBankTab (gu_Id g) (ucast (gu_PurchasedTabs g)))] s))"

section \<open>The log of the bank\<close>

definition isMoneyEvent :: "bank_event \<Rightarrow> bool" where
  "isMoneyEvent e \<longleftrightarrow> be_LogEntry e = GUILD_BANK_LOG_DEPOSIT_MONEY \<or> be_LogEntry e = GUILD_BANK_LOG_WITHDRAW_MONEY
     \<or> be_LogEntry e = GUILD_BANK_LOG_REPAIR_MONEY"

definition set_item_log :: "nat \<Rightarrow> (bank_event list \<Rightarrow> bank_event list) \<Rightarrow> guild \<Rightarrow> guild" where
  "set_item_log tab f g = g\<lparr>gu_BankLog_Item := (gu_BankLog_Item g)[tab := f (gu_BankLog_Item g ! tab)]\<rparr>"

text \<open>\<open>tab\<close> is a tab of the bank.\<close>

definition LogBankEvent :: "guild_env \<Rightarrow> u8 \<Rightarrow> u8 \<Rightarrow> u32 \<Rightarrow> u32 \<Rightarrow> u8 \<Rightarrow> u8 \<Rightarrow> guild \<times> guild_server \<Rightarrow> guild \<times> guild_server" where
  "LogBankEvent env entry tab low itemOrMoney stack dest = (\<lambda>(g, s).
     let e = \<lparr>be_LogGuid = gu_LogMaxGuid g, be_LogEntry = entry, be_PlayerGuid = low, be_ItemOrMoney = itemOrMoney,
              be_ItemStackCount = stack, be_DestTabId = dest, be_TimeStamp = ucast (ucast (ge_now env) :: u32)\<rparr>;
         g = g\<lparr>gu_LogMaxGuid := gu_LogMaxGuid g + 1\<rparr>;
         log = (if isMoneyEvent e then gu_BankLog_Money g else gu_BankLog_Item g ! unat tab);
         full = length log > GUILD_BANK_MAX_LOGS;
         s = (if full then gdo [GuSql (DeleteBankEvent (gu_Id g) (be_LogGuid (hd log)))] s else s);
         log = (if full then tl log else log) @ [e];
         g = (if isMoneyEvent e then g\<lparr>gu_BankLog_Money := log\<rparr> else set_item_log (unat tab) (\<lambda>_. log) g)
     in (g, gdo [GuSql (InsertBankEvent (gu_Id g) (ucast tab) e)] s))"

text \<open>\<open>rows\<close>: the events with their tabs, the latest first.\<close>

definition load_bank_event :: "u8 \<times> bank_event \<Rightarrow> guild \<Rightarrow> guild" where
  "load_bank_event = (\<lambda>(tab, e) g.
     if unat tab \<ge> GUILD_BANK_MAX_TABS then g
     else if (isMoneyEvent e \<and> length (gu_BankLog_Money g) \<ge> GUILD_BANK_MAX_LOGS)
        \<or> length (gu_BankLog_Item g ! unat tab) \<ge> GUILD_BANK_MAX_LOGS then g
     else if isMoneyEvent e then g\<lparr>gu_BankLog_Money := e # gu_BankLog_Money g\<rparr>
     else set_item_log (unat tab) ((#) e) g)"

definition LoadGuildBankEventLogFromDB :: "(u8 \<times> bank_event) list \<Rightarrow> guild \<times> guild_server \<Rightarrow> guild \<times> guild_server" where
  "LoadGuildBankEventLogFromDB rows = (\<lambda>(g, s).
     if rows = [] then (g, s)
     else
       let g = fold load_bank_event rows g;
           below = (\<lambda>log. if log = [] then [] else [GuSql (DeleteBankEventsBelow (gu_Id g) (be_LogGuid (hd log)))])
       in (g, gdo (concat (map below (gu_BankLog_Money g # gu_BankLog_Item g))) s))"

definition UnloadGuildBankEventLog :: "guild \<Rightarrow> guild" where
  "UnloadGuildBankEventLog g = g\<lparr>gu_BankLog_Money := [], gu_BankLog_Item := replicate GUILD_BANK_MAX_TABS []\<rparr>"

text \<open>The part of loading and unloading the bank that does not concern items.\<close>

definition LoadGuildBankFromDB :: "(u8 \<times> bank_event) list \<Rightarrow> bool \<Rightarrow> guild \<times> guild_server \<Rightarrow> guild \<times> guild_server" where
  "LoadGuildBankFromDB rows has_tabs = (\<lambda>(g, s).
     if gu_bankloaded g then (g, s)
     else let (g, s) = LoadGuildBankEventLogFromDB rows (g\<lparr>gu_bankloaded := True\<rparr>, s)
          in (if has_tabs then g else g\<lparr>gu_PurchasedTabs := 0\<rparr>, s))"

definition UnloadGuildBank :: "guild \<Rightarrow> guild" where
  "UnloadGuildBank g = (if \<not> gu_bankloaded g then g else (UnloadGuildBankEventLog g)\<lparr>gu_bankloaded := False\<rparr>)"

definition UpdateLogoutTime :: "guild_env \<Rightarrow> guid \<Rightarrow> guild \<Rightarrow> guild" where
  "UpdateLogoutTime env h g =
     (if sm_find (GUID_LOPART h) (gu_members g) = None then g
      else let g = on_guild_member (GUID_LOPART h) (\<lambda>m. m\<lparr>mb_LogoutTime := ge_now env\<rparr>) g
           in if gu_onlinemembers g > 0 then g\<lparr>gu_onlinemembers := gu_onlinemembers g - 1\<rparr>
              else UnloadGuildEventlog (UnloadGuildBank g))"

definition bank_event_bytes :: "guild_env \<Rightarrow> bool \<Rightarrow> bank_event \<Rightarrow> u8 list" where
  "bank_event_bytes env money e =
     enc_u8 (be_LogEntry e) @ enc_u64 (player_guid (be_PlayerGuid e)) @ enc_u32 (be_ItemOrMoney e)
     @ (if money then [] else enc_u8 (be_ItemStackCount e) @ (if be_LogEntry e = 3 \<or> be_LogEntry e = 7 then enc_u8 (be_DestTabId e) else []))
     @ enc_u32 (ucast (ge_now env - be_TimeStamp e))"

definition DisplayGuildBankLogs :: "guild_env \<Rightarrow> guid \<Rightarrow> u8 \<Rightarrow> guild \<times> guild_server \<Rightarrow> guild \<times> guild_server" where
  "DisplayGuildBankLogs env to' tab = (\<lambda>(g, s).
     if unat tab > GUILD_BANK_MAX_TABS then (g, s)
     else
       let money = (unat tab = GUILD_BANK_MAX_TABS); log = (if money then gu_BankLog_Money g else gu_BankLog_Item g ! unat tab)
       in (g, gdo [GuSend to' (put (WorldPacket_new MSG_GUILD_BANK_LOG_QUERY)
            (enc_u8 tab @ enc_u8 (of_nat (length log)) @ concat (map (bank_event_bytes env money) log)))] s))"

definition RenumBankLogs :: "(u32 \<times> u32) option \<Rightarrow> guild \<times> guild_server \<Rightarrow> guild \<times> guild_server" where
  "RenumBankLogs minmax = (\<lambda>(g, s).
     case minmax of
       None \<Rightarrow> (g, s)
     | Some (lo, hi) \<Rightarrow> (g\<lparr>gu_LogMaxGuid := hi + 1\<rparr>, gdo [GuSql (RenumberBankEvents lo (gu_Id g))] s))"

end
