(* ===== verification/GuildHandler.thy ===== *)
theory GuildHandler
  imports Guild
begin

text \<open>
  How players reach their guild: founding it, invitations and chat (src/src/server/game/Guilds/Guild.cpp), the packet handlers
  of src/src/server/game/Handlers/GuildHandler.cpp, and what logging in, logging out and deleting a character do to a guild.
  \<open>me\<close> is the player of the session, who is in the world. A handler gives the exception of a packet that ends too early
  together with the state it leaves behind; \<open>Inl\<close> stands for the use of a guild that has deleted itself.
\<close>

section \<open>Results\<close>

abbreviation SMSG_GUILD_INVITE :: u16 where "SMSG_GUILD_INVITE \<equiv> 0x083"
abbreviation SMSG_GUILD_INFO :: u16 where "SMSG_GUILD_INFO \<equiv> 0x088"
abbreviation SMSG_GUILD_COMMAND_RESULT :: u16 where "SMSG_GUILD_COMMAND_RESULT \<equiv> 0x093"
abbreviation MSG_SAVE_GUILD_EMBLEM :: u16 where "MSG_SAVE_GUILD_EMBLEM \<equiv> 0x1F1"
abbreviation MSG_GUILD_PERMISSIONS :: u16 where "MSG_GUILD_PERMISSIONS \<equiv> 0x3FC"
abbreviation GE_SIGNED_ON :: u8 where "GE_SIGNED_ON \<equiv> 12"

datatype guild_command = GUILD_CREATE_S | GUILD_INVITE_S | GUILD_QUIT_S | GUILD_BANK_S

definition guild_command_code :: "guild_command \<Rightarrow> u32" where
  "guild_command_code c = (case c of GUILD_CREATE_S \<Rightarrow> 0x00 | GUILD_INVITE_S \<Rightarrow> 0x01 | GUILD_QUIT_S \<Rightarrow> 0x03 | GUILD_BANK_S \<Rightarrow> 0x15)"

datatype command_error =
    ERR_PLAYER_NO_MORE_IN_GUILD | ERR_ALREADY_IN_GUILD_S | ERR_ALREADY_INVITED_TO_GUILD_S | ERR_GUILD_NAME_INVALID
  | ERR_GUILD_LEADER_LEAVE | ERR_GUILD_PERMISSIONS | ERR_GUILD_PLAYER_NOT_IN_GUILD | ERR_GUILD_PLAYER_NOT_IN_GUILD_S
  | ERR_GUILD_PLAYER_NOT_FOUND_S | ERR_GUILD_NOT_ALLIED

definition command_error_code :: "command_error \<Rightarrow> u32" where
  "command_error_code e = (case e of
     ERR_PLAYER_NO_MORE_IN_GUILD \<Rightarrow> 0x00 | ERR_ALREADY_IN_GUILD_S \<Rightarrow> 0x03 | ERR_ALREADY_INVITED_TO_GUILD_S \<Rightarrow> 0x05
   | ERR_GUILD_NAME_INVALID \<Rightarrow> 0x06 | ERR_GUILD_LEADER_LEAVE \<Rightarrow> 0x08 | ERR_GUILD_PERMISSIONS \<Rightarrow> 0x08
   | ERR_GUILD_PLAYER_NOT_IN_GUILD \<Rightarrow> 0x09 | ERR_GUILD_PLAYER_NOT_IN_GUILD_S \<Rightarrow> 0x0A
   | ERR_GUILD_PLAYER_NOT_FOUND_S \<Rightarrow> 0x0B | ERR_GUILD_NOT_ALLIED \<Rightarrow> 0x0C)"

definition SendGuildCommandResult :: "guid \<Rightarrow> guild_command \<Rightarrow> string \<Rightarrow> command_error \<Rightarrow> guild_server \<Rightarrow> guild_server" where
  "SendGuildCommandResult to' c str e =
     gdo [GuSend to' (put (WorldPacket_new SMSG_GUILD_COMMAND_RESULT)
       (enc_u32 (guild_command_code c) @ enc_string str @ enc_u32 (command_error_code e)))]"

definition SendSaveGuildEmblem :: "guid \<Rightarrow> u32 \<Rightarrow> guild_server \<Rightarrow> guild_server" where
  "SendSaveGuildEmblem to' m = gdo [GuSend to' (put (WorldPacket_new MSG_SAVE_GUILD_EMBLEM) (enc_u32 m))]"

text \<open>What the rest of the server and the database answer during a packet.\<close>

record guild_io =
  gi_near :: "guid \<Rightarrow> bool"                  \<comment> \<open>an object of the right kind that the player can interact with\<close>
  gi_feigning :: bool                      \<comment> \<open>\<open>UNIT_STATE_DIED\<close>\<close>
  gi_events :: "guild_event list"          \<comment> \<open>the rows of \<open>guild_eventlog\<close>, the latest first, at most 100\<close>
  gi_bank_events :: "(u8 \<times> bank_event) list"
  gi_has_tabs :: bool                      \<comment> \<open>\<open>guild_bank_tab\<close> has rows of the guild\<close>
  gi_tab :: "u8 \<Rightarrow> bool"                    \<comment> \<open>\<open>GetBankTab\<close> finds the tab\<close>

type_synonym guild_handler = "byte_buffer \<Rightarrow> bb_error option \<times> guild_result"

text \<open>Reading the next value; a packet that is too short leaves \<open>s\<close> behind.\<close>

definition rdg :: "(byte_buffer \<Rightarrow> bb_error + ('a \<times> byte_buffer)) \<Rightarrow> guild_server \<Rightarrow> ('a \<Rightarrow> guild_handler) \<Rightarrow> guild_handler" where
  "rdg r s k b = (case r b of Inl e \<Rightarrow> (Some e, Inr s) | Inr (x, b') \<Rightarrow> k x b')"

abbreviation fine :: "guild_server \<Rightarrow> guild_handler" where
  "fine s \<equiv> (\<lambda>b. (None, Inr s))"

definition own_guild :: "guid \<Rightarrow> guild_server \<Rightarrow> guild option" where
  "own_guild me s = GetGuildById (ri_guild (gd_refs s me)) s"

definition tell_guild :: "u8 \<Rightarrow> string list \<Rightarrow> guild \<Rightarrow> guild_server \<Rightarrow> guild_server" where
  "tell_guild e strs = Guild_BroadcastPacket (guild_event_packet e 0 strs)"

text \<open>An object reached through the map stays there while its guild is in the map.\<close>

definition keep_guild :: "guild \<times> guild_server \<Rightarrow> guild_server" where
  "keep_guild = (\<lambda>(g, s). if sm_has (gu_Id g) (gd_map s) then AddGuild g s else s)"

text \<open>A guild that deletes itself has left the map before.\<close>

definition keep_if_alive :: "u32 \<Rightarrow> (guild \<Rightarrow> guild_server \<Rightarrow> guild_server) \<Rightarrow> guild option \<times> guild_server \<Rightarrow> guild_result" where
  "keep_if_alive i f = (\<lambda>(og, s). case og of None \<Rightarrow> Inl (DeletedGuildObject i) | Some g \<Rightarrow> Inr (f g s))"

section \<open>Founding a guild\<close>

abbreviation default_MOTD :: string where "default_MOTD \<equiv> ''No message set.''"

definition Guild_Create :: "guild_env \<Rightarrow> guid \<Rightarrow> string \<Rightarrow> guild \<times> guild_server \<Rightarrow> bool \<times> guild \<times> guild_server" where
  "Guild_Create env leader gname = (\<lambda>(g, s).
     if GetGuildByName gname s \<noteq> None then (False, g, s)
     else
       let (i, s) = GenerateGuildId s;
           g = g\<lparr>gu_LeaderGuid := leader, gu_Name := gname, gu_GINFO := '''', gu_MOTD := default_MOTD, gu_BankMoney := 0,
                 gu_PurchasedTabs := 0, gu_Id := i, gu_Created := ge_date env\<rparr>;
           s = gdo [GuSql (DeleteRanksOf i), GuSql (DeleteMembersOf i),
                    GuSql (InsertGuild i (ge_escape env gname) (GUID_LOPART leader) (ge_escape env '''') (ge_escape env default_MOTD)
                      (gu_Emblem g) (gu_BankMoney g))]
                 (set_rows (filter (\<lambda>(l, j, k). j \<noteq> i)) s);
           (g, s) = CreateDefaultGuildRanks env (g, s)
       in Guild_AddMember env leader GR_GUILDMASTER (g, gdo [GuHook ''OnGuildCreate'' i] s))"

definition HandleGuildCreateOpcode :: "guild_env \<Rightarrow> player \<Rightarrow> guild_server \<Rightarrow> guild_handler" where
  "HandleGuildCreateOpcode env me s =
     rdg read_string s (\<lambda>gname. fine (
       if ri_guild (gd_refs s (pl_guid me)) \<noteq> 0 then s
       else let (ok, g, s) = Guild_Create env (pl_guid me) gname (Guild_new (ge_junk env), s)
            in if ok then AddGuild g s else s))"

section \<open>Invitations\<close>

text \<open>The common end of \<open>HandleGuildInviteOpcode\<close> and \<open>Guild::HandleInviteMember\<close>.\<close>

definition invite_to_guild :: "guild_env \<Rightarrow> player \<Rightarrow> string \<Rightarrow> player option \<Rightarrow> guild_server \<Rightarrow> guild_server" where
  "invite_to_guild env me name target s =
     (let result = SendGuildCommandResult (pl_guid me)
      in case target of
           None \<Rightarrow> result GUILD_INVITE_S name ERR_GUILD_PLAYER_NOT_FOUND_S s
         | Some player \<Rightarrow>
             (case own_guild (pl_guid me) s of
                None \<Rightarrow> result GUILD_CREATE_S '''' ERR_GUILD_PLAYER_NOT_IN_GUILD s
              | Some g \<Rightarrow>
                  let r = gd_refs s (pl_guid player); mine = gd_refs s (pl_guid me)
                  in if HasIgnore (GUID_LOPART (pl_guid me)) (pl_social player) then s
                     else if \<not> ge_two_side_guild env \<and> pl_team player \<noteq> pl_team me
                     then result GUILD_INVITE_S name ERR_GUILD_NOT_ALLIED s
                     else if ri_guild r \<noteq> 0 then result GUILD_INVITE_S (c_str (pl_name player)) ERR_ALREADY_IN_GUILD_S s
                     else if ri_invited r \<noteq> 0
                     then result GUILD_INVITE_S (c_str (pl_name player)) ERR_ALREADY_INVITED_TO_GUILD_S s
                     else if \<not> HasRankRight (ri_rank mine) GR_RIGHT_INVITE g then result GUILD_INVITE_S '''' ERR_GUILD_PERMISSIONS s
                     else
                       let s = set_refs (pl_guid player) (\<lambda>r. r\<lparr>ri_invited := ri_guild mine\<rparr>) s;
                           s = keep_guild (LogGuildEvent env GUILD_EVENT_LOG_INVITE_PLAYER (GUID_LOPART (pl_guid me))
                                 (GUID_LOPART (pl_guid player)) 0 (g, s))
                       in gdo [GuSend (pl_guid player) (put (WorldPacket_new SMSG_GUILD_INVITE)
                            (enc_string (c_str (pl_name me)) @ enc_string (gu_Name g)))] s))"

definition HandleInviteMember :: "guild_env \<Rightarrow> player \<Rightarrow> string \<Rightarrow> guild_server \<Rightarrow> guild_server" where
  "HandleInviteMember env me name s = invite_to_guild env me name (FindPlayerByName (gd_world s) name False) s"

definition HandleGuildInviteOpcode :: "guild_env \<Rightarrow> player \<Rightarrow> guild_server \<Rightarrow> guild_handler" where
  "HandleGuildInviteOpcode env me s =
     rdg read_string s (\<lambda>name. fine (
       case ge_norm env name of
         None \<Rightarrow> invite_to_guild env me name None s
       | Some n \<Rightarrow> invite_to_guild env me n (FindPlayerByName (gd_world s) n False) s))"

definition HandleGuildAcceptOpcode :: "guild_env \<Rightarrow> player \<Rightarrow> guild_server \<Rightarrow> guild_handler" where
  "HandleGuildAcceptOpcode env me s = fine (
     let r = gd_refs s (pl_guid me)
     in case GetGuildById (ri_invited r) s of
          None \<Rightarrow> s
        | Some g \<Rightarrow>
            if ri_guild r \<noteq> 0 then s
            else if \<not> ge_two_side_guild env \<and> pl_team me \<noteq> ge_db_side env (gu_LeaderGuid g) then s
            else
              let (ok, g, s) = Guild_AddMember env (pl_guid me) (GetLowestRank g) (g, s)
              in if \<not> ok then s
                 else let (g, s) = LogGuildEvent env GUILD_EVENT_LOG_JOIN_GUILD (GUID_LOPART (pl_guid me)) 0 0 (g, s)
                      in keep_guild (g, tell_guild GE_JOINED [c_str (pl_name me)] g s))"

definition HandleGuildDeclineOpcode :: "player \<Rightarrow> guild_server \<Rightarrow> guild_handler" where
  "HandleGuildDeclineOpcode me s = fine (set_refs (pl_guid me) (\<lambda>r. r\<lparr>ri_invited := 0, ri_guild := 0\<rparr>) s)"

section \<open>Members\<close>

text \<open>The checks before a handler works on a member it names: \<open>Inl\<close> if it is over.\<close>

definition named_member :: "guild_env \<Rightarrow> player \<Rightarrow> (guild \<Rightarrow> bool) \<Rightarrow> string \<Rightarrow> guild_server
    \<Rightarrow> guild_server + string \<times> guild \<times> u32 \<times> guild_member" where
  "named_member env me permitted name s =
     (let result = SendGuildCommandResult (pl_guid me)
      in case ge_norm env name of
           None \<Rightarrow> Inl s
         | Some n \<Rightarrow>
             (case own_guild (pl_guid me) s of
                None \<Rightarrow> Inl (result GUILD_CREATE_S '''' ERR_GUILD_PLAYER_NOT_IN_GUILD s)
              | Some g \<Rightarrow>
                  if \<not> permitted g then Inl (result GUILD_INVITE_S '''' ERR_GUILD_PERMISSIONS s)
                  else (case Guild_GetMemberSlot n g of
                          None \<Rightarrow> Inl (result GUILD_INVITE_S n ERR_GUILD_PLAYER_NOT_IN_GUILD_S s)
                        | Some (low, m) \<Rightarrow> Inr (n, g, low, m))))"

definition my_right :: "player \<Rightarrow> guild_server \<Rightarrow> u32 \<Rightarrow> guild \<Rightarrow> bool" where
  "my_right me s right = HasRankRight (ri_rank (gd_refs s (pl_guid me))) right"

definition HandleGuildRemoveOpcode :: "guild_env \<Rightarrow> player \<Rightarrow> guild_server \<Rightarrow> guild_handler" where
  "HandleGuildRemoveOpcode env me s =
     rdg read_string s (\<lambda>name b. (None,
       case named_member env me (my_right me s GR_RIGHT_REMOVE) name s of
         Inl s \<Rightarrow> Inr s
       | Inr (n, g, low, m) \<Rightarrow>
           if mb_RankId m = GR_GUILDMASTER
           then Inr (SendGuildCommandResult (pl_guid me) GUILD_QUIT_S '''' ERR_GUILD_LEADER_LEAVE s)
           else keep_if_alive (gu_Id g) (\<lambda>g s.
                  let (g, s) = LogGuildEvent env GUILD_EVENT_LOG_UNINVITE_PLAYER (GUID_LOPART (pl_guid me)) low 0 (g, s)
                  in keep_guild (g, tell_guild GE_REMOVED [n, c_str (pl_name me)] g s))
                (Guild_DelMember (ucast low) (g, s))))"

definition HandleGuildPromoteOpcode :: "guild_env \<Rightarrow> player \<Rightarrow> guild_server \<Rightarrow> guild_handler" where
  "HandleGuildPromoteOpcode env me s =
     rdg read_string s (\<lambda>name. fine (
       case named_member env me (my_right me s GR_RIGHT_PROMOTE) name s of
         Inl s \<Rightarrow> s
       | Inr (n, g, low, m) \<Rightarrow>
           if ucast low = pl_guid me then SendGuildCommandResult (pl_guid me) GUILD_INVITE_S '''' ERR_GUILD_NAME_INVALID s
           else if mb_RankId m < 2 \<or> mb_RankId m - 1 < ri_rank (gd_refs s (pl_guid me)) then s
           else
             let newRankId = (if mb_RankId m < GetNrRanks g then mb_RankId m - 1 else GetNrRanks g - 1);
                 (g, s) = ChangeRank (ucast low) newRankId (g, s);
                 (g, s) = LogGuildEvent env GUILD_EVENT_LOG_PROMOTE_PLAYER (GUID_LOPART (pl_guid me)) low (ucast newRankId) (g, s)
             in keep_guild (g, tell_guild GE_PROMOTION [c_str (pl_name me), n, GetRankName newRankId g] g s)))"

text \<open>After \<open>ChangeRank\<close> the slot holds the new rank.\<close>

definition HandleGuildDemoteOpcode :: "guild_env \<Rightarrow> player \<Rightarrow> guild_server \<Rightarrow> guild_handler" where
  "HandleGuildDemoteOpcode env me s =
     rdg read_string s (\<lambda>name. fine (
       case named_member env me (my_right me s GR_RIGHT_DEMOTE) name s of
         Inl s \<Rightarrow> s
       | Inr (n, g, low, m) \<Rightarrow>
           if ucast low = pl_guid me then SendGuildCommandResult (pl_guid me) GUILD_INVITE_S '''' ERR_GUILD_NAME_INVALID s
           else if mb_RankId m + 1 \<ge> GetNrRanks g \<or> mb_RankId m \<le> ri_rank (gd_refs s (pl_guid me)) then s
           else
             let newRankId = mb_RankId m + 1;
                 (g, s) = ChangeRank (ucast low) newRankId (g, s);
                 (g, s) = LogGuildEvent env GUILD_EVENT_LOG_DEMOTE_PLAYER (GUID_LOPART (pl_guid me)) low (ucast newRankId) (g, s)
             in keep_guild (g, tell_guild GE_DEMOTION [c_str (pl_name me), n, GetRankName newRankId g] g s)))"

text \<open>The answer to a player without a guild.\<close>

definition no_guild :: "guid \<Rightarrow> guild_server \<Rightarrow> guild_server" where
  "no_guild me = SendGuildCommandResult me GUILD_CREATE_S '''' ERR_GUILD_PLAYER_NOT_IN_GUILD"

text \<open>The leader of a guild of one disbands it; the object is not deleted.\<close>

definition HandleGuildLeaveOpcode :: "guild_env \<Rightarrow> player \<Rightarrow> guild_server \<Rightarrow> guild_handler" where
  "HandleGuildLeaveOpcode env me s = (\<lambda>b. (None,
     case own_guild (pl_guid me) s of
       None \<Rightarrow> Inr (no_guild (pl_guid me) s)
     | Some g \<Rightarrow>
         if pl_guid me = gu_LeaderGuid g
         then Inr (if length (gu_members g) > 1 then SendGuildCommandResult (pl_guid me) GUILD_QUIT_S '''' ERR_GUILD_LEADER_LEAVE s
                   else snd (Guild_Disband (g, s)))
         else keep_if_alive (gu_Id g) (\<lambda>g s.
                let (g, s) = LogGuildEvent env GUILD_EVENT_LOG_LEAVE_GUILD (GUID_LOPART (pl_guid me)) 0 0 (g, s)
                in SendGuildCommandResult (pl_guid me) GUILD_QUIT_S (gu_Name g) ERR_PLAYER_NO_MORE_IN_GUILD
                     (keep_guild (g, tell_guild GE_LEFT [c_str (pl_name me)] g s)))
              (Guild_DelMember (pl_guid me) (g, s))))"

text \<open>Handlers of the leader: the guild, if the player leads one, or the answer.\<close>

definition as_leader :: "player \<Rightarrow> guild_server \<Rightarrow> (guild \<Rightarrow> guild_server) \<Rightarrow> guild_server" where
  "as_leader me s f =
     (case own_guild (pl_guid me) s of
        None \<Rightarrow> no_guild (pl_guid me) s
      | Some g \<Rightarrow> if pl_guid me \<noteq> gu_LeaderGuid g
                  then SendGuildCommandResult (pl_guid me) GUILD_INVITE_S '''' ERR_GUILD_PERMISSIONS s else f g)"

definition HandleGuildDisbandOpcode :: "player \<Rightarrow> guild_server \<Rightarrow> guild_handler" where
  "HandleGuildDisbandOpcode me s = fine (as_leader me s (\<lambda>g. snd (Guild_Disband (g, s))))"

definition HandleGuildLeaderOpcode :: "guild_env \<Rightarrow> player \<Rightarrow> guild_server \<Rightarrow> guild_handler" where
  "HandleGuildLeaderOpcode env me s =
     rdg read_string s (\<lambda>name. fine (
       case named_member env me (\<lambda>g. pl_guid me = gu_LeaderGuid g) name s of
         Inl s \<Rightarrow> s
       | Inr (n, g, low, m) \<Rightarrow>
           let (g, s) = ChangeRank (pl_guid me) GR_OFFICER (SetLeader (ucast low) (g, s))
           in keep_guild (g, tell_guild GE_LEADER_CHANGED [c_str (pl_name me), n] g s)))"

section \<open>Texts and notes\<close>

definition HandleGuildQueryOpcode :: "player \<Rightarrow> guild_server \<Rightarrow> guild_handler" where
  "HandleGuildQueryOpcode me s =
     rdg (read_int False 4) s (\<lambda>guildId. fine (
       case GetGuildById guildId s of None \<Rightarrow> no_guild (pl_guid me) s | Some g \<Rightarrow> Guild_Query (pl_guid me) g s))"

definition HandleGuildInfoOpcode :: "player \<Rightarrow> guild_server \<Rightarrow> guild_handler" where
  "HandleGuildInfoOpcode me s = fine (
     case own_guild (pl_guid me) s of
       None \<Rightarrow> no_guild (pl_guid me) s
     | Some g \<Rightarrow> let (d, m, y) = gu_Created g
                in gdo [GuSend (pl_guid me) (put (WorldPacket_new SMSG_GUILD_INFO)
                     (enc_string (gu_Name g) @ enc_u32 d @ enc_u32 m @ enc_u32 y @ enc_u32 (of_nat (length (gu_members g)))
                      @ enc_u32 (gu_accountsNumber g)))] s)"

definition HandleGuildRosterOpcode :: "guild_env \<Rightarrow> player \<Rightarrow> guild_server \<Rightarrow> guild_handler" where
  "HandleGuildRosterOpcode env me s = fine (
     case own_guild (pl_guid me) s of None \<Rightarrow> s | Some g \<Rightarrow> Guild_Roster env (Some (pl_guid me)) g s)"

definition HandleGuildMOTDOpcode :: "guild_env \<Rightarrow> player \<Rightarrow> guild_server \<Rightarrow> guild_handler" where
  "HandleGuildMOTDOpcode env me s = (\<lambda>b.
     case own_guild (pl_guid me) s of
       None \<Rightarrow> fine (no_guild (pl_guid me) s) b
     | Some g \<Rightarrow>
         if \<not> my_right me s GR_RIGHT_SETMOTD g
         then fine (SendGuildCommandResult (pl_guid me) GUILD_INVITE_S '''' ERR_GUILD_PERMISSIONS s) b
         else
           let go = (\<lambda>motd. let (g, s) = SetMOTD env motd (g, s) in fine (keep_guild (g, tell_guild GE_MOTD [motd] g s)))
           in if storage b = [] then go '''' b else rdg read_string s go b)"

definition HandleGuildChangeInfoOpcode :: "guild_env \<Rightarrow> player \<Rightarrow> guild_server \<Rightarrow> guild_handler" where
  "HandleGuildChangeInfoOpcode env me s =
     rdg read_string s (\<lambda>ginfo. fine (
       case own_guild (pl_guid me) s of
         None \<Rightarrow> no_guild (pl_guid me) s
       | Some g \<Rightarrow>
           if \<not> my_right me s GR_RIGHT_MODIFY_GUILD_INFO g
           then SendGuildCommandResult (pl_guid me) GUILD_CREATE_S '''' ERR_GUILD_PERMISSIONS s
           else keep_guild (SetGINFO env ginfo (g, s))))"

text \<open>The note is read after the checks.\<close>

definition set_note :: "guild_env \<Rightarrow> u32 \<Rightarrow> (guid \<Rightarrow> string \<Rightarrow> guild \<times> guild_server \<Rightarrow> guild \<times> guild_server)
    \<Rightarrow> player \<Rightarrow> guild_server \<Rightarrow> guild_handler" where
  "set_note env right setter me s =
     rdg read_string s (\<lambda>name.
       case named_member env me (my_right me s right) name s of
         Inl s \<Rightarrow> fine s
       | Inr (n, g, low, m) \<Rightarrow>
           rdg read_string s (\<lambda>t.
             let (g, s) = setter (ucast low) t (g, s) in fine (keep_guild (g, Guild_Roster env (Some (pl_guid me)) g s))))"

definition HandleGuildSetPublicNoteOpcode :: "guild_env \<Rightarrow> player \<Rightarrow> guild_server \<Rightarrow> guild_handler" where
  "HandleGuildSetPublicNoteOpcode env = set_note env GR_RIGHT_EPNOTE (SetPNOTE env)"

definition HandleGuildSetOfficerNoteOpcode :: "guild_env \<Rightarrow> player \<Rightarrow> guild_server \<Rightarrow> guild_handler" where
  "HandleGuildSetOfficerNoteOpcode env = set_note env GR_RIGHT_EOFFNOTE (SetOFFNOTE env)"

section \<open>Ranks and the emblem\<close>

text \<open>The tabs' rights are set while the packet is read.\<close>

definition show_ranks :: "guild_env \<Rightarrow> guid \<Rightarrow> guild \<times> guild_server \<Rightarrow> guild_server" where
  "show_ranks env me = (\<lambda>(g, s). keep_guild (g, Guild_Roster env None g (Guild_Query me g s)))"

fun read_tab_rights :: "u32 \<Rightarrow> nat list \<Rightarrow> (guild \<times> guild_server \<Rightarrow> guild_handler) \<Rightarrow> guild \<times> guild_server \<Rightarrow> guild_handler" where
  "read_tab_rights rank [] k x = k x"
| "read_tab_rights rank (i # is') k x =
     rdg (read_int False 4) (keep_guild x) (\<lambda>rights. rdg (read_int False 4) (keep_guild x) (\<lambda>slots :: u32.
       read_tab_rights rank is' k
         (SetBankRightsAndSlots rank (of_nat i) (ucast (ucast (rights AND 0xFF :: u32) :: u16)) (ucast (ucast slots :: u16)) True x)))"

definition HandleGuildRankOpcode :: "guild_env \<Rightarrow> player \<Rightarrow> guild_server \<Rightarrow> guild_handler" where
  "HandleGuildRankOpcode env me s = (\<lambda>b.
     case own_guild (pl_guid me) s of
       None \<Rightarrow> fine (no_guild (pl_guid me) s) b
     | Some g \<Rightarrow>
         if pl_guid me \<noteq> gu_LeaderGuid g
         then fine (SendGuildCommandResult (pl_guid me) GUILD_INVITE_S '''' ERR_GUILD_PERMISSIONS s) b
         else
           rdg (read_int False 4) s (\<lambda>rank. rdg (read_int False 4) s (\<lambda>rights. rdg read_string s (\<lambda>rankname.
           rdg (read_int False 4) s (\<lambda>money. read_tab_rights rank [0..<GUILD_BANK_MAX_TABS] (\<lambda>x.
             let x = SetRankName env rank rankname (SetBankMoneyPerDay rank money x);
                 rights = (if rank = GR_GUILDMASTER then rights OR GR_RIGHT_ALL else rights)
             in fine (show_ranks env (pl_guid me) (SetRankRights rank rights x))) (g, s))))) b)"

definition HandleGuildAddRankOpcode :: "guild_env \<Rightarrow> player \<Rightarrow> guild_server \<Rightarrow> guild_handler" where
  "HandleGuildAddRankOpcode env me s = (\<lambda>b.
     case own_guild (pl_guid me) s of
       None \<Rightarrow> fine (no_guild (pl_guid me) s) b
     | Some g \<Rightarrow>
         if pl_guid me \<noteq> gu_LeaderGuid g
         then fine (SendGuildCommandResult (pl_guid me) GUILD_INVITE_S '''' ERR_GUILD_PERMISSIONS s) b
         else if unat (GetNrRanks g) \<ge> GUILD_MAX_RANKS then fine s b
         else rdg read_string s (\<lambda>rankname.
           fine (show_ranks env (pl_guid me) (CreateRank env rankname (GR_RIGHT_GCHATLISTEN OR GR_RIGHT_GCHATSPEAK) (g, s)))) b)"

definition HandleGuildDelRankOpcode :: "guild_env \<Rightarrow> player \<Rightarrow> guild_server \<Rightarrow> guild_handler" where
  "HandleGuildDelRankOpcode env me s = fine (as_leader me s (\<lambda>g. show_ranks env (pl_guid me) (DelRank (g, s))))"

abbreviation emblem_price :: u32 where "emblem_price \<equiv> 100000"     \<comment> \<open>\<open>10 * GOLD\<close>\<close>

definition HandleGuildSaveEmblemOpcode :: "guild_io \<Rightarrow> player \<Rightarrow> guild_server \<Rightarrow> guild_handler" where
  "HandleGuildSaveEmblemOpcode io me s =
     rdg (read_int False 8) s (\<lambda>vendorGuid.
       if \<not> gi_near io vendorGuid then fine (SendSaveGuildEmblem (pl_guid me) 5 s)
       else
         let s = (if gi_feigning io then gdo [RemoveFeignDeath (pl_guid me)] s else s)
         in rdg (read_int False 4) s (\<lambda>es. rdg (read_int False 4) s (\<lambda>ec. rdg (read_int False 4) s (\<lambda>bs.
            rdg (read_int False 4) s (\<lambda>bc. rdg (read_int False 4) s (\<lambda>bg. fine (
              case own_guild (pl_guid me) s of
                None \<Rightarrow> SendSaveGuildEmblem (pl_guid me) 2 s
              | Some g \<Rightarrow>
                  if gu_LeaderGuid g \<noteq> pl_guid me then SendSaveGuildEmblem (pl_guid me) 3 s
                  else if gd_money s (pl_guid me) < emblem_price then SendSaveGuildEmblem (pl_guid me) 4 s
                  else
                    let (g, s) = Guild_SetEmblem [es, ec, bs, bc, bg] (g, ModifyMoney (pl_guid me) (- emblem_price) s)
                    in keep_guild (g, Guild_Query (pl_guid me) g (SendSaveGuildEmblem (pl_guid me) 0 s)))))))))"

section \<open>The bank\<close>

text \<open>Handlers that do nothing for a player without a guild.\<close>

definition with_own_guild :: "player \<Rightarrow> guild_server \<Rightarrow> (guild \<Rightarrow> guild_server) \<Rightarrow> guild_server" where
  "with_own_guild me s f =
     (if ri_guild (gd_refs s (pl_guid me)) = 0 then s else case own_guild (pl_guid me) s of None \<Rightarrow> s | Some g \<Rightarrow> f g)"

definition HandleGuildEventLogOpcode :: "guild_env \<Rightarrow> guild_io \<Rightarrow> player \<Rightarrow> guild_server \<Rightarrow> guild_handler" where
  "HandleGuildEventLogOpcode env io me s = fine (
     with_own_guild me s (\<lambda>g. keep_guild (DisplayGuildEventlog env (gi_events io) (pl_guid me) (g, s))))"

definition HandleGuildBankGetMoneyAmount :: "guild_env \<Rightarrow> player \<Rightarrow> guild_server \<Rightarrow> guild_handler" where
  "HandleGuildBankGetMoneyAmount env me s = fine (with_own_guild me s (\<lambda>g. keep_guild (SendMoneyInfo env (pl_guid me) (g, s))))"

definition HandleGuildBankGetRights :: "guild_env \<Rightarrow> player \<Rightarrow> guild_server \<Rightarrow> guild_handler" where
  "HandleGuildBankGetRights env me s = fine (with_own_guild me s (\<lambda>g.
     let low = GUID_LOPART (pl_guid me); rank = ri_rank (gd_refs s (pl_guid me));
         (money, x) = GetMemberMoneyWithdrawRem env low (g, s);
         (bs, x) = fold (\<lambda>i (bs, x).
             let right = GetBankRights rank (of_nat i) (fst x); (rem, x) = GetMemberSlotWithdrawRem env low (of_nat i) x
             in (bs @ enc_u32 right @ enc_u32 rem, x)) [0..<GUILD_BANK_MAX_TABS] ([], x)
     in keep_guild (fst x, gdo [GuSend (pl_guid me) (put (WorldPacket_new MSG_GUILD_PERMISSIONS)
          (enc_u32 rank @ enc_u32 (GetRankRights rank g) @ enc_u32 money @ enc_u8 (gu_PurchasedTabs g) @ bs))] (snd x))))"

text \<open>\<open>DisplayGuildBankTabsInfo\<close> and \<open>DisplayGuildBankContent\<close>: the packets are the action \<open>ShowBank\<close>.\<close>

definition DisplayGuildBankTabsInfo :: "guild_io \<Rightarrow> guid \<Rightarrow> guild \<times> guild_server \<Rightarrow> guild \<times> guild_server" where
  "DisplayGuildBankTabsInfo io me x =
     (let (g, s) = LoadGuildBankFromDB (gi_bank_events io) (gi_has_tabs io) x in (g, gdo [ShowBank me] s))"

definition DisplayGuildBankContent :: "guild_env \<Rightarrow> guild_io \<Rightarrow> guid \<Rightarrow> u8 \<Rightarrow> guild \<times> guild_server \<Rightarrow> guild \<times> guild_server" where
  "DisplayGuildBankContent env io me tab = (\<lambda>(g, s).
     if \<not> gi_tab io tab \<or> \<not> IsMemberHaveRights (GUID_LOPART me) tab GUILD_BANK_RIGHT_VIEW_TAB g then (g, s)
     else let (rem, g, s) = GetMemberSlotWithdrawRem env (GUID_LOPART me) tab (g, s) in (g, gdo [ShowBank me] s))"

definition HandleGuildBankQuery :: "guild_io \<Rightarrow> player \<Rightarrow> guild_server \<Rightarrow> guild_handler" where
  "HandleGuildBankQuery io me s =
     rdg (read_int False 8) s (\<lambda>GoGuid. rdg (read_int False 1) s (\<lambda>unk :: u8. fine (
       if \<not> gi_near io GoGuid then s
       else
         let bank = SendGuildCommandResult (pl_guid me) GUILD_BANK_S '''' ERR_GUILD_PLAYER_NOT_IN_GUILD s
         in if ri_guild (gd_refs s (pl_guid me)) = 0 then bank
            else (case own_guild (pl_guid me) s of
                    None \<Rightarrow> bank
                  | Some g \<Rightarrow> keep_guild (DisplayGuildBankTabsInfo io (pl_guid me) (g, s))))))"

definition HandleGuildBankTabColon :: "guild_env \<Rightarrow> guild_io \<Rightarrow> player \<Rightarrow> guild_server \<Rightarrow> guild_handler" where
  "HandleGuildBankTabColon env io me s =
     rdg (read_int False 8) s (\<lambda>GoGuid. rdg (read_int False 1) s (\<lambda>TabId. rdg (read_int False 1) s (\<lambda>unk :: u8. fine (
       if \<not> gi_near io GoGuid then s
       else with_own_guild me s (\<lambda>g. keep_guild
         (DisplayGuildBankContent env io (pl_guid me) TabId (SendMoneyInfo env (pl_guid me) (g, s))))))))"

text \<open>What the player sees after money went in or out.\<close>

definition show_money :: "guild_env \<Rightarrow> guild_io \<Rightarrow> guid \<Rightarrow> guild \<times> guild_server \<Rightarrow> guild_server" where
  "show_money env io me x =
     keep_guild (DisplayGuildBankMoneyUpdate (DisplayGuildBankContent env io me 0 (DisplayGuildBankTabsInfo io me x)))"

definition HandleGuildBankDeposit :: "guild_env \<Rightarrow> guild_io \<Rightarrow> player \<Rightarrow> guild_server \<Rightarrow> guild_handler" where
  "HandleGuildBankDeposit env io me s =
     rdg (read_int False 8) s (\<lambda>GoGuid. rdg (read_int False 4) s (\<lambda>money. fine (
       if money = 0 \<or> \<not> gi_near io GoGuid then s
       else with_own_guild me s (\<lambda>g.
         if gd_money s (pl_guid me) < money then s
         else
           let (g, s) = SetBankMoney (gu_BankMoney g + ucast money) (g, s);
               s = ModifyMoney (pl_guid me) (- money) s
           in show_money env io (pl_guid me)
                (LogBankEvent env GUILD_BANK_LOG_DEPOSIT_MONEY 0 (GUID_LOPART (pl_guid me)) money 0 0 (g, s))))))"

definition HandleGuildBankWithdraw :: "guild_env \<Rightarrow> guild_io \<Rightarrow> player \<Rightarrow> guild_server \<Rightarrow> guild_handler" where
  "HandleGuildBankWithdraw env io me s =
     rdg (read_int False 8) s (\<lambda>GoGuid. rdg (read_int False 4) s (\<lambda>money. fine (
       if money = 0 \<or> \<not> gi_near io GoGuid then s
       else with_own_guild me s (\<lambda>g.
         if gu_BankMoney g < ucast money then s
         else if \<not> my_right me s GR_RIGHT_WITHDRAW_GOLD g then s
         else
           let (ok, g, s) = MemberMoneyWithdraw env money (GUID_LOPART (pl_guid me)) (g, s)
           in if \<not> ok then keep_guild (g, s)
              else
                let s = ModifyMoney (pl_guid me) money s;
                    x = LogBankEvent env GUILD_BANK_LOG_WITHDRAW_MONEY 0 (GUID_LOPART (pl_guid me)) money 0 0 (g, s)
                in show_money env io (pl_guid me) (SendMoneyInfo env (pl_guid me) x)))))"

text \<open>In gold.\<close>

definition GetGuildBankTabPrice :: "u8 \<Rightarrow> u32" where
  "GetGuildBankTabPrice i = (if unat i < GUILD_BANK_MAX_TABS then [100, 250, 500, 1000, 2500, 5000] ! unat i else 0)"

definition HandleGuildBankBuyTab :: "guild_env \<Rightarrow> guild_io \<Rightarrow> player \<Rightarrow> guild_server \<Rightarrow> guild_handler" where
  "HandleGuildBankBuyTab env io me s =
     rdg (read_int False 8) s (\<lambda>GoGuid. rdg (read_int False 1) s (\<lambda>TabId. fine (
       if \<not> gi_near io GoGuid then s
       else with_own_guild me s (\<lambda>g.
         let cost = GetGuildBankTabPrice TabId * 10000; rank = ri_rank (gd_refs s (pl_guid me))
         in if cost = 0 \<or> unat (gu_PurchasedTabs g) \<ge> GUILD_BANK_MAX_TABS \<or> TabId \<noteq> gu_PurchasedTabs g
               \<or> gd_money s (pl_guid me) < cost then s
            else
              let (g, s) = CreateNewBankTab (g, s);
                  s = ModifyMoney (pl_guid me) (- cost) s;
                  (g, s) = SetBankMoneyPerDay rank WITHDRAW_MONEY_UNLIMITED (g, s);
                  (g, s) = SetBankRightsAndSlots rank TabId GUILD_BANK_RIGHT_FULL WITHDRAW_SLOT_UNLIMITED True (g, s)
              in keep_guild (DisplayGuildBankTabsInfo io (pl_guid me) (g, Guild_Roster env None g s))))))"

definition HandleGuildBankLog :: "guild_env \<Rightarrow> player \<Rightarrow> guild_server \<Rightarrow> guild_handler" where
  "HandleGuildBankLog env me s = (\<lambda>b.
     if ri_guild (gd_refs s (pl_guid me)) = 0 then fine s b
     else case own_guild (pl_guid me) s of
            None \<Rightarrow> fine s b
          | Some g \<Rightarrow> rdg (read_int False 1) s (\<lambda>TabId. fine (keep_guild (DisplayGuildBankLogs env (pl_guid me) TabId (g, s)))) b)"

section \<open>Chat\<close>

text \<open>\<open>p\<close> is the packet that \<open>FillMessageData\<close> builds.\<close>

definition chat_to :: "u32 \<Rightarrow> u32 \<Rightarrow> bool \<Rightarrow> player \<Rightarrow> packet \<Rightarrow> guild \<Rightarrow> guild_server \<Rightarrow> guild_server" where
  "chat_to speak listen force me p g s =
     (if HasRankRight (ri_rank (gd_refs s (pl_guid me))) speak g
      then gdo (concat (map (\<lambda>x. case FindPlayer (gd_world s) (player_guid (fst x)) force of
                                    None \<Rightarrow> []
                                  | Some pl \<Rightarrow> if HasRankRight (ri_rank (gd_refs s (pl_guid pl))) listen g
                                                  \<and> \<not> HasIgnore (GUID_LOPART (pl_guid me)) (pl_social pl)
                                               then [GuSend (pl_guid pl) p] else [])
               (gu_members g))) s
      else s)"

definition BroadcastToGuild :: "player \<Rightarrow> packet \<Rightarrow> guild \<Rightarrow> guild_server \<Rightarrow> guild_server" where
  "BroadcastToGuild = chat_to GR_RIGHT_GCHATSPEAK GR_RIGHT_GCHATLISTEN False"

definition BroadcastToOfficers :: "player \<Rightarrow> packet \<Rightarrow> guild \<Rightarrow> guild_server \<Rightarrow> guild_server" where
  "BroadcastToOfficers = chat_to GR_RIGHT_OFFCHATSPEAK GR_RIGHT_OFFCHATLISTEN True"

section \<open>Login, logout and deletion of characters\<close>

text \<open>The player object is new, with the guild its row of \<open>characters\<close> had; the first row of \<open>guild_member\<close> corrects it.\<close>

definition load_membership :: "guid \<Rightarrow> guild_server \<Rightarrow> guild_server" where
  "load_membership h s =
     (case find (\<lambda>r. fst r = GUID_LOPART h) (gd_rows s) of
        Some (l, i, k) \<Rightarrow> set_refs h (\<lambda>r. r\<lparr>ri_guild := i, ri_rank := k\<rparr>) s
      | None \<Rightarrow> if ri_guild (gd_refs s h) \<noteq> 0 then set_refs h (\<lambda>r. r\<lparr>ri_guild := 0, ri_rank := 0\<rparr>) s else s)"

definition guild_login :: "player \<Rightarrow> guild_server \<Rightarrow> guild_server" where
  "guild_login me s =
     (let h = pl_guid me; s = load_membership h (set_refs h (\<lambda>r. r\<lparr>ri_invited := 0\<rparr>) s)
      in if ri_guild (gd_refs s h) = 0 then s
         else case own_guild h s of
                None \<Rightarrow> set_refs h (\<lambda>r. r\<lparr>ri_guild := 0\<rparr>) s
              | Some g \<Rightarrow>
                  let s = gdo [GuSend h (guild_event_packet GE_MOTD 0 [gu_MOTD g])] s;
                      s = Guild_BroadcastPacket (guild_event_packet GE_SIGNED_ON h [c_str (pl_name me)]) g s
                  in keep_guild (g\<lparr>gu_onlinemembers := gu_onlinemembers g + 1\<rparr>, s))"

definition guild_logout :: "guild_env \<Rightarrow> player \<Rightarrow> guild_server \<Rightarrow> guild_server" where
  "guild_logout env me s =
     (case own_guild (pl_guid me) s of
        None \<Rightarrow> s
      | Some g \<Rightarrow>
          let (g, s) = LoadPlayerStatsByGuid (pl_guid me) (g, s);
              g = UpdateLogoutTime env (pl_guid me) g
          in keep_guild (g, Guild_BroadcastEvent GE_SIGNED_OFF (pl_guid me) [pl_name me] g s))"

text \<open>The test of \<open>HandleCharDeleteOpcode\<close>, and the guild part of \<open>Player::DeleteFromDB\<close>, which other callers reach without it.\<close>

definition GetGuildByLeader :: "guid \<Rightarrow> guild_server \<Rightarrow> guild option" where
  "GetGuildByLeader h s = map_option snd (find (\<lambda>p. gu_LeaderGuid (snd p) = h) (gd_map s))"

definition delete_from_guild :: "guid \<Rightarrow> guild_server \<Rightarrow> guild_server" where
  "delete_from_guild h s =
     (let i = GetGuildIdFromDB h s
      in if i = 0 then s
         else case GetGuildById i s of
                None \<Rightarrow> s
              | Some g \<Rightarrow> (case Guild_DelMember (ucast (GUID_LOPART h)) (g, s) of
                             (None, s) \<Rightarrow> s | (Some g, s) \<Rightarrow> keep_guild (g, s)))"

end
