(* ===== verification/GuildLoad.thy ===== *)
theory GuildLoad
  imports GuildHandler
begin

text \<open>
  Loading the guilds when the server starts: \<open>LoadGuildFromDB\<close>, \<open>LoadRanksFromDB\<close>, \<open>LoadMembersFromDB\<close>,
  \<open>LoadBankRightsFromDB\<close> and \<open>CheckGuildStructure\<close> of src/src/server/game/Guilds/Guild.cpp, called for every guild by
  \<open>ObjectMgr::LoadGuilds\<close>. The results of the three queries over all guilds are read once, guild by guild: the rows
  that are left are passed on. No result and a result that is used up behave alike.
\<close>

record guild_row =
  gw_id :: u32
  gw_name :: string
  gw_leader :: u32
  gw_emblem :: "u32 list"
  gw_info :: string
  gw_motd :: string
  gw_created :: u64
  gw_money :: u64
  gw_tabs :: u32

type_synonym rank_row = "u32 \<times> u32 \<times> string \<times> u32 \<times> u32"          \<comment> \<open>guild, rid, name, rights, money for a day\<close>
type_synonym member_row = "u32 \<times> u32 \<times> guild_member"                \<comment> \<open>guild, guid, the rest\<close>
type_synonym right_row = "u32 \<times> u8 \<times> u32 \<times> u16 \<times> u16"               \<comment> \<open>guild, tab, rid, right, slots\<close>

text \<open>What other queries return for a guild.\<close>

record guild_db =
  db_localtime :: "u64 \<Rightarrow> u32 \<times> u32 \<times> u32"
  db_bank_minmax :: "u32 \<Rightarrow> (u32 \<times> u32) option"
  db_event_minmax :: "u32 \<Rightarrow> (u32 \<times> u32) option"
  db_events :: "u32 \<Rightarrow> guild_event list"
  db_bank_events :: "u32 \<Rightarrow> (u8 \<times> bank_event) list"
  db_has_tabs :: "u32 \<Rightarrow> bool"

definition LoadGuildFromDB :: "guild_db \<Rightarrow> guild_row \<Rightarrow> guild \<Rightarrow> guild" where
  "LoadGuildFromDB db r g =
     (let tabs = ucast (gw_tabs r);
          g = g\<lparr>gu_Id := gw_id r, gu_Name := gw_name r, gu_LeaderGuid := player_guid (gw_leader r), gu_Emblem := gw_emblem r,
                gu_GINFO := gw_info r, gu_MOTD := gw_motd r, gu_BankMoney := gw_money r,
                gu_PurchasedTabs := (if unat (tabs :: u8) > GUILD_BANK_MAX_TABS then of_nat GUILD_BANK_MAX_TABS else tabs)\<rparr>
      in if sint (gw_created r) > 0 then g\<lparr>gu_Created := db_localtime db (gw_created r)\<rparr> else g)"

section \<open>Ranks\<close>

text \<open>The rows left, whether the numbers were wrong, the guild.\<close>

fun load_rank_rows :: "rank_row list \<Rightarrow> bool \<Rightarrow> guild \<times> guild_server \<Rightarrow> rank_row list \<times> bool \<times> guild \<times> guild_server" where
  "load_rank_rows [] broken x = ([], broken, x)"
| "load_rank_rows ((i, rid, name, rights, money) # rows) broken (g, s) =
     (if i < gu_Id g then load_rank_rows rows broken (g, gdo [GuSql (DeleteRanksOf i)] s)
      else if i > gu_Id g then ((i, rid, name, rights, money) # rows, broken, g, s)
      else
        let broken = (broken \<or> unat rid \<noteq> length (gu_Ranks g) + 1);
            rights = (if gu_Ranks g = [] then rights OR GR_RIGHT_ALL else rights)
        in load_rank_rows rows broken (AddRank name rights money g, s))"

text \<open>The ranks are written again, without the money for a day, with numbers from 0.\<close>

definition repair_ranks :: "guild_env \<Rightarrow> guild \<times> guild_server \<Rightarrow> guild \<times> guild_server" where
  "repair_ranks env = (\<lambda>(g, s).
     (g, gdo (GuSql (DeleteRanksOf (gu_Id g)) #
          map (\<lambda>i. GuSql (InsertRank (gu_Id g) (of_nat i) (ge_escape env (rk_Name (gu_Ranks g ! i))) (rk_Rights (gu_Ranks g ! i))))
            [0..<length (gu_Ranks g)]) s))"

definition LoadRanksFromDB :: "guild_env \<Rightarrow> rank_row list \<Rightarrow> guild \<times> guild_server \<Rightarrow> rank_row list \<times> guild \<times> guild_server" where
  "LoadRanksFromDB env rows x =
     (let (rows, broken, g, s) = load_rank_rows rows False x
      in if length (gu_Ranks g) < GUILD_RANKS_MIN_COUNT then (rows, CreateDefaultGuildRanks env (g\<lparr>gu_Ranks := []\<rparr>, s))
         else if broken then (rows, repair_ranks env (g, s)) else (rows, g, s))"

section \<open>Members and rights\<close>

definition drop_member_row :: "u32 \<Rightarrow> guild_server \<Rightarrow> guild_server" where
  "drop_member_row low s = gdo [GuSql (DeleteGuildMember low)] (set_rows (filter (\<lambda>r. fst r \<noteq> low)) s)"

fun load_guild_member_rows :: "guild_env \<Rightarrow> member_row list \<Rightarrow> guild \<times> guild_server \<Rightarrow> member_row list \<times> guild \<times> guild_server" where
  "load_guild_member_rows env [] x = ([], x)"
| "load_guild_member_rows env ((i, low, m) # rows) (g, s) =
     (if i < gu_Id g
      then load_guild_member_rows env rows (g, gdo [GuSql (DeleteMembersOf i)] (set_rows (filter (\<lambda>(l, j, k). j \<noteq> i)) s))
      else if i > gu_Id g then ((i, low, m) # rows, g, s)
      else
        let m = (if unat (mb_RankId m) \<ge> length (gu_Ranks g) then m\<lparr>mb_RankId := GetLowestRank g\<rparr> else m)
        in if mb_Level m < 1 then load_guild_member_rows env rows (g, drop_member_row low s)
           else
             let m = (if mb_ZoneId m = 0 then m\<lparr>mb_ZoneId := ge_db_zone env (player_guid low)\<rparr> else m)
             in if mb_Class m < 1 \<or> mb_Class m \<ge> 12 then load_guild_member_rows env rows (g, drop_member_row low s)
                else load_guild_member_rows env rows (g\<lparr>gu_members := sm_set low m (gu_members g)\<rparr>, s))"

definition Guild_LoadMembersFromDB :: "guild_env \<Rightarrow> member_row list \<Rightarrow> guild \<times> guild_server
    \<Rightarrow> bool \<times> member_row list \<times> guild \<times> guild_server" where
  "Guild_LoadMembersFromDB env rows x =
     (let (rows, g, s) = load_guild_member_rows env rows x
      in if gu_members g = [] then (False, rows, g, s) else (True, rows, UpdateAccountsNumber g, s))"

fun LoadBankRightsFromDB :: "right_row list \<Rightarrow> guild \<times> guild_server \<Rightarrow> right_row list \<times> guild \<times> guild_server" where
  "LoadBankRightsFromDB [] x = ([], x)"
| "LoadBankRightsFromDB ((i, tab, rank, right, slots) # rows) (g, s) =
     (if i < gu_Id g then LoadBankRightsFromDB rows (g, gdo [GuSql (DeleteBankRightsOf i)] s)
      else if i > gu_Id g then ((i, tab, rank, right, slots) # rows, g, s)
      else LoadBankRightsFromDB rows (SetBankRightsAndSlots rank tab (ucast right) (ucast slots) False (g, s)))"

section \<open>The whole\<close>

text \<open>A missing leader is replaced. Without an heir the guild deletes itself, and its members are looked at all the same.\<close>

definition CheckGuildStructure :: "guild_env \<Rightarrow> guild_db \<Rightarrow> guild \<times> guild_server \<Rightarrow> guild_error + bool \<times> guild \<times> guild_server" where
  "CheckGuildStructure env db = (\<lambda>(g, s).
     let finish = (\<lambda>g s. (True, RenumGuildEventlog (db_event_minmax db (gu_Id g)) (RenumBankLogs (db_bank_minmax db (gu_Id g))
           (g\<lparr>gu_bankloaded := False, gu_eventlogloaded := False, gu_onlinemembers := 0\<rparr>, s))))
     in if ge_account env (gu_LeaderGuid g) \<noteq> 0 then Inr (finish g s)
        else case Guild_DelMember (gu_LeaderGuid g) (g, s) of
               (None, s) \<Rightarrow> Inl (DeletedGuildObject (gu_Id g))
             | (Some g, s) \<Rightarrow> if gu_members g = [] then Inr (False, g, s) else Inr (finish g s))"

definition guild_then :: "guild_error + 'a \<Rightarrow> ('a \<Rightarrow> guild_error + 'b) \<Rightarrow> guild_error + 'b" where
  "guild_then x f = (case x of Inl e \<Rightarrow> Inl e | Inr y \<Rightarrow> f y)"

type_synonym guild_cursors = "rank_row list \<times> member_row list \<times> right_row list"

definition load_guild :: "guild_env \<Rightarrow> guild_db \<Rightarrow> guild_row \<Rightarrow> guild_cursors \<times> guild_server
    \<Rightarrow> guild_error + guild_cursors \<times> guild_server" where
  "load_guild env db r = (\<lambda>((ranks, members, rights), s).
     let (ranks, g, s) = LoadRanksFromDB env ranks (LoadGuildFromDB db r (Guild_new (ge_junk env)), s);
         (ok, members, g, s) = Guild_LoadMembersFromDB env members (g, s)
     in if \<not> ok then Inr ((ranks, members, rights), snd (Guild_Disband (g, s)))
        else
          let (rights, g, s) = LoadBankRightsFromDB rights (g, s)
          in guild_then (CheckGuildStructure env db (g, s)) (\<lambda>(ok, g, s).
               if \<not> ok then Inr ((ranks, members, rights), snd (Guild_Disband (g, s)))
               else
                 let (g, s) = LoadGuildEventLogFromDB (db_events db (gu_Id g)) (g, s);
                     (g, s) = LoadGuildBankFromDB (db_bank_events db (gu_Id g)) (db_has_tabs db (gu_Id g)) (g, s)
                 in Inr ((ranks, members, rights), AddGuild g s)))"

definition LoadGuilds :: "guild_env \<Rightarrow> guild_db \<Rightarrow> guild_row list \<Rightarrow> guild_cursors \<Rightarrow> guild_server \<Rightarrow> guild_result" where
  "LoadGuilds env db rows c s =
     map_sum id snd (fold (\<lambda>r x. guild_then x (load_guild env db r)) rows (Inr (c, s)))"

end
