(* ===== verification/GuildQuiet.thy ===== *)
theory GuildQuiet
  imports GuildLoad
begin

text \<open>
  The operations on a guild that leave alone who is in it: they keep the id, the leader and the set of members of the
  object (\<open>gkey\<close>), and the players' guild fields, the map of guilds and the guilds in the table \<open>guild_member\<close>
  of the server (\<open>skey\<close>).
\<close>

section \<open>The server's parts\<close>

lemma gdo_simps [simp]:
  "gd_world (gdo as s) = gd_world s" "gd_refs (gdo as s) = gd_refs s" "gd_map (gdo as s) = gd_map s"
  "gd_rows (gdo as s) = gd_rows s" "gd_money (gdo as s) = gd_money s" "gd_next (gdo as s) = gd_next s"
  "gd_log (gdo as s) = gd_log s @ as"
  by (simp_all add: gdo_def)

lemma set_refs_simps [simp]:
  "gd_world (set_refs h f s) = gd_world s" "gd_refs (set_refs h f s) = (gd_refs s)(h := f (gd_refs s h))"
  "gd_map (set_refs h f s) = gd_map s" "gd_rows (set_refs h f s) = gd_rows s" "gd_money (set_refs h f s) = gd_money s"
  "gd_next (set_refs h f s) = gd_next s" "gd_log (set_refs h f s) = gd_log s"
  by (simp_all add: set_refs_def)

lemma set_online_simps [simp]:
  "gd_world (set_online h f s) = gd_world s"
  "gd_refs (set_online h f s) = (if GetPlayer (gd_world s) h \<noteq> None then (gd_refs s)(h := f (gd_refs s h)) else gd_refs s)"
  "gd_map (set_online h f s) = gd_map s" "gd_rows (set_online h f s) = gd_rows s" "gd_money (set_online h f s) = gd_money s"
  "gd_next (set_online h f s) = gd_next s" "gd_log (set_online h f s) = gd_log s"
  by (auto simp: set_online_def)

lemma set_rows_simps [simp]:
  "gd_world (set_rows f s) = gd_world s" "gd_refs (set_rows f s) = gd_refs s" "gd_map (set_rows f s) = gd_map s"
  "gd_rows (set_rows f s) = f (gd_rows s)" "gd_money (set_rows f s) = gd_money s" "gd_next (set_rows f s) = gd_next s"
  "gd_log (set_rows f s) = gd_log s"
  by (simp_all add: set_rows_def)

lemma set_map_simps [simp]:
  "gd_world (set_map f s) = gd_world s" "gd_refs (set_map f s) = gd_refs s" "gd_map (set_map f s) = f (gd_map s)"
  "gd_rows (set_map f s) = gd_rows s" "gd_money (set_map f s) = gd_money s" "gd_next (set_map f s) = gd_next s"
  "gd_log (set_map f s) = gd_log s"
  by (simp_all add: set_map_def)

section \<open>Quiet operations\<close>

definition row_guild :: "u32 \<times> u32 \<times> u32 \<Rightarrow> u32 \<times> u32" where
  "row_guild r = (fst r, fst (snd r))"

definition gkey :: "guild \<Rightarrow> u32 \<times> guid \<times> u32 list" where
  "gkey g = (gu_Id g, gu_LeaderGuid g, map fst (gu_members g))"

definition skey :: "guild_server \<Rightarrow> world \<times> (u32 \<times> guild) list \<times> (guid \<Rightarrow> u32) \<times> (u32 \<times> u32) list \<times> u32" where
  "skey s = (gd_world s, gd_map s, \<lambda>h. ri_guild (gd_refs s h), map row_guild (gd_rows s), gd_next s)"

definition quiet :: "(guild \<times> guild_server \<Rightarrow> guild \<times> guild_server) \<Rightarrow> bool" where
  "quiet f \<longleftrightarrow> (\<forall>g s. sm_wf (gu_members g) \<longrightarrow> gkey (fst (f (g, s))) = gkey g \<and> skey (snd (f (g, s))) = skey s)"

named_theorems quiet_intros

lemma quietI: "(\<And>g s. sm_wf (gu_members g) \<Longrightarrow> gkey (fst (f (g, s))) = gkey g \<and> skey (snd (f (g, s))) = skey s) \<Longrightarrow> quiet f"
  by (simp add: quiet_def)

lemma quietD:
  assumes "quiet f" "f (g, s) = (g', s')" "sm_wf (gu_members g)"
  shows "gkey g' = gkey g" "skey s' = skey s"
  using assms(1)[unfolded quiet_def, rule_format, of g s] assms(2,3) by simp_all

lemma gkey_wf: "gkey g' = gkey g \<Longrightarrow> sm_wf (gu_members g') = sm_wf (gu_members g)"
  by (simp add: gkey_def sm_wf_def)

lemma quiet_wf: "quiet f \<Longrightarrow> f (g, s) = (g', s') \<Longrightarrow> sm_wf (gu_members g) \<Longrightarrow> sm_wf (gu_members g')"
  using quietD(1) gkey_wf by blast

lemma quiet_id [quiet_intros]: "quiet (\<lambda>x. x)"
  by (simp add: quiet_def)

lemma quiet_comp:
  assumes "quiet f" "quiet h"
  shows "quiet (\<lambda>x. f (h x))"
proof (rule quietI)
  fix g :: guild and s :: guild_server assume w: "sm_wf (gu_members g)"
  obtain g1 s1 where h: "h (g, s) = (g1, s1)" by force
  obtain g2 s2 where f: "f (g1, s1) = (g2, s2)" by force
  show "gkey (fst (f (h (g, s)))) = gkey g \<and> skey (snd (f (h (g, s)))) = skey s"
    using quietD[OF assms(2) h w] quietD[OF assms(1) f quiet_wf[OF assms(2) h w]] by (simp add: h f)
qed

lemma quiet_fold: "(\<And>i. i \<in> set xs \<Longrightarrow> quiet (f i)) \<Longrightarrow> quiet (fold f xs)"
proof (induction xs)
  case (Cons a xs)
  show ?case using quiet_comp[of "fold f xs" "f a"] Cons by (simp add: comp_def)
qed (simp add: quiet_def)

lemma skey_simps [simp]:
  "skey (gdo as s) = skey s" "skey (set_refs h (\<lambda>r. r\<lparr>ri_invited := i\<rparr>) s) = skey s"
  "skey (set_online h (\<lambda>r. r\<lparr>ri_rank := k\<rparr>) s) = skey s"
  by (auto simp: skey_def fun_eq_iff)

lemma skey_money [simp]: "skey (ModifyMoney h d s) = skey s" "gd_map (ModifyMoney h d s) = gd_map s"
  "gd_next (ModifyMoney h d s) = gd_next s" "gd_refs (ModifyMoney h d s) = gd_refs s" "gd_rows (ModifyMoney h d s) = gd_rows s" "gd_world (ModifyMoney h d s) = gd_world s"
  by (simp_all add: skey_def ModifyMoney_def Let_def)

lemma skey_send [simp]:
  "skey (to_members P p g s) = skey s" "skey (Guild_BroadcastPacket p g s) = skey s"
  "skey (Guild_BroadcastEvent e h strs g s) = skey s" "skey (tell_guild e strs g s) = skey s"
  "skey (SendGuildCommandResult a c t e' s) = skey s" "skey (Guild_Query a g s) = skey s"
  "skey (Guild_Roster env to' g s) = skey s" "skey (SendSaveGuildEmblem a m s) = skey s"
  by (simp_all add: to_members_def Guild_BroadcastPacket_def Guild_BroadcastEvent_def tell_guild_def SendGuildCommandResult_def
        Guild_Query_def Guild_Roster_def answer_or_all_def SendSaveGuildEmblem_def split: option.split)

lemma keys_sm_set_present: "sm_wf m \<Longrightarrow> sm_has k m \<Longrightarrow> map fst (sm_set k v m) = map fst m"
proof (induction m)
  case (Cons p m)
  have "k < fst p \<Longrightarrow> k \<notin> fst ` set m" using Cons.prems by (auto simp: sm_wf_def)
  with Cons show ?case by (auto simp: sm_wf_def sm_has_iff)
qed simp

lemma gkey_on_guild_member [simp]:
  assumes "sm_wf (gu_members g)"
  shows "gkey (on_guild_member low f g) = gkey g"
proof -
  have "sm_find low (gu_members g) = Some m \<Longrightarrow> sm_has low (gu_members g)" for m by (simp add: sm_has_def)
  then show ?thesis using assms
    by (auto simp: on_guild_member_def gkey_def keys_sm_set_present split: option.split)
qed

lemma gkey_rank_simps [simp]: "gkey (on_rank k f g) = gkey g" "gkey (AddRank n r' m g) = gkey g"
  by (simp_all add: gkey_def on_rank_def AddRank_def)

section \<open>Which operations are\<close>

lemma quiet_ranks [quiet_intros]:
  "quiet (CreateBankRightForTab rank tab)" "quiet DelRank" "quiet (SetRankName env rank name)" "quiet (SetRankRights rank rights)"
  by (auto simp: quiet_def CreateBankRightForTab_def DelRank_def SetRankName_def SetRankRights_def gkey_def on_rank_def Let_def)

lemma quiet_texts [quiet_intros]:
  "quiet (SetMOTD env t)" "quiet (SetGINFO env t)" "quiet (SetPNOTE env h t)" "quiet (SetOFFNOTE env h t)" "quiet (Guild_SetEmblem e)"
  by (simp_all add: quiet_def SetMOTD_def SetGINFO_def SetPNOTE_def SetOFFNOTE_def Guild_SetEmblem_def)
     (simp_all add: gkey_def)

lemma quiet_CreateRank [quiet_intros]: "quiet (CreateRank env name rights)"
proof (rule quietI)
  fix g :: guild and s :: guild_server assume w: "sm_wf (gu_members g)"
  let ?F = "fold (\<lambda>i. CreateBankRightForTab (GetNrRanks (AddRank name rights 0 g) - 1) (of_nat i)) [0..<unat (gu_PurchasedTabs (AddRank name rights 0 g))]"
  obtain g1 s1 where f: "?F (AddRank name rights 0 g, s) = (g1, s1)" by force
  have q: "quiet ?F" by (intro quiet_fold quiet_ranks)
  have w1: "sm_wf (gu_members (AddRank name rights 0 g))" using w by (simp add: AddRank_def)
  show "gkey (fst (CreateRank env name rights (g, s))) = gkey g \<and> skey (snd (CreateRank env name rights (g, s))) = skey s"
    using quietD[OF q f w1] f by (simp add: CreateRank_def Let_def)
qed

lemma quiet_CreateDefaultGuildRanks [quiet_intros]: "quiet (CreateDefaultGuildRanks env)"
proof -
  let ?low = "GR_RIGHT_GCHATLISTEN OR GR_RIGHT_GCHATSPEAK"
  have q: "quiet (fold (\<lambda>(i, rights). CreateRank env (ge_rank_names env ! i) rights)
     [(0, GR_RIGHT_ALL), (1, GR_RIGHT_ALL), (2, ?low), (3, ?low), (4, ?low)])" (is "quiet ?F")
    by (rule quiet_fold) (auto intro: quiet_CreateRank)
  have p: "quiet (\<lambda>(g, s). (g, gdo [GuSql (DeleteRanksOf (gu_Id g)), GuSql (DeleteBankRightsOf (gu_Id g))] s))" (is "quiet ?P")
    by (simp add: quiet_def)
  have "CreateDefaultGuildRanks env = (\<lambda>x. ?F (?P x))"
    by (simp add: CreateDefaultGuildRanks_def Let_def fun_eq_iff)
  then show ?thesis using quiet_comp[OF q p] by simp
qed

lemma quiet_ChangeRank [quiet_intros]: "quiet (ChangeRank h rank)"
  by (auto simp: quiet_def ChangeRank_def skey_def row_guild_def fun_eq_iff)

lemma quiet_logs [quiet_intros]:
  "quiet (LogGuildEvent env t p1 p2 k)" "quiet (RenumGuildEventlog mm)" "quiet (RenumBankLogs mm)"
  "quiet (LogBankEvent env e tab low i st d)"
  by (auto simp: quiet_def LogGuildEvent_def RenumGuildEventlog_def RenumBankLogs_def LogBankEvent_def Let_def gkey_def
        set_item_log_def split: option.split)

lemma quiet_money [quiet_intros]:
  "quiet (SetBankMoney m)" "quiet CreateNewBankTab" "quiet DisplayGuildBankMoneyUpdate" "quiet (LoadPlayerStatsByGuid h)"
  by (auto simp: quiet_def SetBankMoney_def CreateNewBankTab_def DisplayGuildBankMoneyUpdate_def LoadPlayerStatsByGuid_def Let_def
      split: option.split) (simp_all add: gkey_def)

lemma map_members_keys: "map fst (map (\<lambda>(low, m). (low, f m)) ms) = map fst ms"
  by (induction ms) auto

lemma quiet_limits [quiet_intros]: "quiet (SetBankMoneyPerDay rank money)" "quiet (SetBankRightsAndSlots rank tab right slots db)"
  by (auto simp: quiet_def SetBankMoneyPerDay_def SetBankRightsAndSlots_def Let_def gkey_def on_rank_def comp_def split_beta)

lemma quiet_MoneyRem: "quiet (\<lambda>x. snd (GetMemberMoneyWithdrawRem env low x))"
  by (auto simp: quiet_def GetMemberMoneyWithdrawRem_def Let_def split: option.split)

lemma quiet_SlotRem: "quiet (\<lambda>x. snd (GetMemberSlotWithdrawRem env low tab x))"
  by (auto simp: quiet_def GetMemberSlotWithdrawRem_def Let_def split: option.split)

lemma quiet_fetch [quiet_intros]:
  "quiet (LoadGuildEventLogFromDB es)" "quiet (LoadGuildBankEventLogFromDB rows)"
proof -
  have e: "gkey (fold (\<lambda>e g. g\<lparr>gu_Eventlog := e # gu_Eventlog g\<rparr>) es g) = gkey g" for es g
    by (induction es arbitrary: g) (simp_all add: gkey_def)
  show "quiet (LoadGuildEventLogFromDB es)"
    by (simp add: quiet_def LoadGuildEventLogFromDB_def Let_def) (simp add: gkey_def e[unfolded gkey_def, simplified])
  have b: "gkey (load_bank_event x g) = gkey g" for x g
    by (auto simp: load_bank_event_def gkey_def set_item_log_def split: prod.split)
  have f: "gkey (fold load_bank_event rows g) = gkey g" for g
    by (induction rows arbitrary: g) (simp_all add: b)
  show "quiet (LoadGuildBankEventLogFromDB rows)"
    by (simp add: quiet_def LoadGuildBankEventLogFromDB_def Let_def f)
qed

lemma quiet_LoadGuildBankFromDB [quiet_intros]: "quiet (LoadGuildBankFromDB rows tabs)"
proof (rule quietI)
  fix g :: guild and s :: guild_server assume w: "sm_wf (gu_members g)"
  obtain g1 s1 where f: "LoadGuildBankEventLogFromDB rows (g\<lparr>gu_bankloaded := True\<rparr>, s) = (g1, s1)" by force
  have "sm_wf (gu_members (g\<lparr>gu_bankloaded := True\<rparr>))" using w by simp
  from quietD[OF quiet_fetch(2) f this]
  show "gkey (fst (LoadGuildBankFromDB rows tabs (g, s))) = gkey g \<and> skey (snd (LoadGuildBankFromDB rows tabs (g, s))) = skey s"
    by (auto simp: LoadGuildBankFromDB_def f gkey_def)
qed

text \<open>An operation followed by packets.\<close>

lemma quiet_then:
  assumes "quiet f" "\<And>g s. skey (p g s) = skey s"
  shows "quiet (\<lambda>x. let (g, s) = f x in (g, p g s))"
proof (rule quietI)
  fix g :: guild and s :: guild_server assume w: "sm_wf (gu_members g)"
  obtain g1 s1 where f: "f (g, s) = (g1, s1)" by force
  show "gkey (fst (let (g, s) = f (g, s) in (g, p g s))) = gkey g \<and> skey (snd (let (g, s) = f (g, s) in (g, p g s))) = skey s"
    using quietD[OF assms(1) f w] by (simp add: f assms(2))
qed

lemma quiet_shows [quiet_intros]:
  "quiet (DisplayGuildEventlog env es h)" "quiet (SendMoneyInfo env h)" "quiet (DisplayGuildBankLogs env h tab)"
  "quiet (DisplayGuildBankTabsInfo io h)" "quiet (DisplayGuildBankContent env io h tab)"
proof -
  show "quiet (DisplayGuildEventlog env es h)"
    unfolding DisplayGuildEventlog_def by (rule quiet_then) (simp_all add: quiet_fetch)
  have "SendMoneyInfo env h = (\<lambda>x. let (g, s) = snd (GetMemberMoneyWithdrawRem env (GUID_LOPART h) x) in
      (g, gdo [GuSend h (put (WorldPacket_new MSG_GUILD_BANK_MONEY_WITHDRAWN) (enc_u32 (fst (GetMemberMoneyWithdrawRem env (GUID_LOPART h) x))))] s))"
    by (simp add: SendMoneyInfo_def fun_eq_iff split_beta Let_def)
  moreover have "quiet \<dots>"
    using quiet_MoneyRem[of env "GUID_LOPART h"] by (simp add: quiet_def split_beta Let_def)
  ultimately show "quiet (SendMoneyInfo env h)" by simp
  show "quiet (DisplayGuildBankLogs env h tab)"
    by (simp add: quiet_def DisplayGuildBankLogs_def Let_def)
  show "quiet (DisplayGuildBankTabsInfo io h)"
    unfolding DisplayGuildBankTabsInfo_def by (rule quiet_then) (simp_all add: quiet_LoadGuildBankFromDB)
  show "quiet (DisplayGuildBankContent env io h tab)"
    using quiet_SlotRem[of env "GUID_LOPART h" tab] by (auto simp: quiet_def DisplayGuildBankContent_def split_beta Let_def)
qed

lemma gkey_unload: "gkey (UnloadGuildEventlog g) = gkey g" "gkey (UnloadGuildBank g) = gkey g"
  "gkey (g\<lparr>gu_onlinemembers := n\<rparr>) = gkey g"
  by (simp_all add: gkey_def UnloadGuildEventlog_def UnloadGuildBank_def UnloadGuildBankEventLog_def)

lemma quiet_UpdateLogoutTime:
  assumes "sm_wf (gu_members g)"
  shows "gkey (UpdateLogoutTime env h g) = gkey g"
  using gkey_on_guild_member[OF assms] by (simp add: UpdateLogoutTime_def Let_def gkey_unload)

lemma quiet_MemberMoneyWithdraw:
  assumes "MemberMoneyWithdraw env a low (g, s) = (ok, g', s')" "sm_wf (gu_members g)"
  shows "gkey g' = gkey g \<and> skey s' = skey s"
proof -
  obtain r g1 s1 where m: "GetMemberMoneyWithdrawRem env low (g, s) = (r, g1, s1)" by (cases "GetMemberMoneyWithdrawRem env low (g, s)")
  have f: "snd (GetMemberMoneyWithdrawRem env low (g, s)) = (g1, s1)" by (simp add: m)
  note k = quietD[OF quiet_MoneyRem f assms(2)] and w = quiet_wf[OF quiet_MoneyRem f assms(2)]
  obtain g2 s2 where b: "SetBankMoney (gu_BankMoney g1 - ucast a) (g1, s1) = (g2, s2)" by force
  note k2 = quietD[OF quiet_money(1) b w] and w2 = quiet_wf[OF quiet_money(1) b w]
  show ?thesis
  proof (cases "sm_find low (gu_members g2)")
    case None
    then show ?thesis using assms(1) k k2 by (simp add: MemberMoneyWithdraw_def m b split: if_splits)
  next
    case (Some mem)
    then show ?thesis using assms(1) k k2 gkey_on_guild_member[OF w2] by (auto simp: MemberMoneyWithdraw_def m b split: if_splits)
  qed
qed

lemma find_on_guild_member: "sm_find l (gu_members (on_guild_member low f g)) =
    (if l = low then map_option f (sm_find low (gu_members g)) else sm_find l (gu_members g))"
  by (auto simp: on_guild_member_def sm.find_put split: option.split)

lemma on_guild_member_simps [simp]:
  "gu_Ranks (on_guild_member low f g) = gu_Ranks g" "gu_BankMoney (on_guild_member low f g) = gu_BankMoney g"
  "gu_Id (on_guild_member low f g) = gu_Id g"
  by (simp_all add: on_guild_member_def split: option.split)

end
