(* ===== verification/GuildBook.thy ===== *)
theory GuildBook
  imports GuildQuiet
begin

text \<open>
  Who is in which guild, said three times: by the members of the guild objects, by the table \<open>guild_member\<close> and by the guild
  fields of the players in the world. This theory is the specification: the view of a server that has these three, what it is
  for them to agree, and the few ways a membership changes, which all keep them in agreement.
\<close>

record guild_view =
  vw_online :: "guid \<Rightarrow> bool"
  vw_guilds :: "(u32 \<times> guid \<times> u32 list) list"     \<comment> \<open>id, leader, members\<close>
  vw_field :: "guid \<Rightarrow> u32"
  vw_rows :: "(u32 \<times> u32) list"                  \<comment> \<open>guid, guild\<close>
  vw_next :: u32

definition guild_of_row :: "(u32 \<times> u32) list \<Rightarrow> u32 \<Rightarrow> u32" where
  "guild_of_row rows l = (case map_of rows l of None \<Rightarrow> 0 | Some i \<Rightarrow> i)"

definition guild_agrees :: "u32 \<Rightarrow> (u32 \<times> u32) list \<Rightarrow> u32 \<times> guid \<times> u32 list \<Rightarrow> bool" where
  "guild_agrees nx rows = (\<lambda>(i, L, ls). i \<noteq> 0 \<and> i < nx \<and> sorted_wrt (<) ls \<and> (\<exists>l \<in> set ls. L = player_guid l)
     \<and> (\<forall>l. (l, i) \<in> set rows \<longleftrightarrow> l \<in> set ls))"

definition consistent :: "guild_view \<Rightarrow> bool" where
  "consistent v \<longleftrightarrow>
     sm_wf (vw_guilds v) \<and> distinct (map fst (vw_rows v))
     \<and> (\<forall>e \<in> set (vw_guilds v). guild_agrees (vw_next v) (vw_rows v) e)
     \<and> (\<forall>r \<in> set (vw_rows v). sm_has (snd r) (vw_guilds v))
     \<and> (\<forall>l. vw_online v (player_guid l) \<longrightarrow> vw_field v (player_guid l) = guild_of_row (vw_rows v) l)"

section \<open>Changes\<close>

definition v_join :: "u32 \<Rightarrow> u32 \<Rightarrow> guid \<times> u32 list \<Rightarrow> guild_view \<Rightarrow> guild_view" where
  "v_join i l e v = v\<lparr>vw_guilds := sm_set i e (vw_guilds v), vw_rows := vw_rows v @ [(l, i)],
     vw_field := (if vw_online v (player_guid l) then (vw_field v)(player_guid l := i) else vw_field v)\<rparr>"

definition v_drop :: "u32 list \<Rightarrow> guild_view \<Rightarrow> guild_view" where
  "v_drop ls v = v\<lparr>vw_rows := filter (\<lambda>r. fst r \<notin> set ls) (vw_rows v),
     vw_field := (\<lambda>h. if vw_online v h \<and> h \<in> player_guid ` set ls then 0 else vw_field v h)\<rparr>"

definition v_leave :: "u32 \<Rightarrow> u32 \<Rightarrow> guid \<times> u32 list \<Rightarrow> guild_view \<Rightarrow> guild_view" where
  "v_leave i l e v = (v_drop [l] v)\<lparr>vw_guilds := sm_set i e (vw_guilds v)\<rparr>"

definition v_disband :: "u32 \<Rightarrow> u32 list \<Rightarrow> guild_view \<Rightarrow> guild_view" where
  "v_disband i ls v = (v_drop ls v)\<lparr>vw_guilds := sm_erase i (vw_guilds v)\<rparr>"

definition v_lead :: "u32 \<Rightarrow> guid \<times> u32 list \<Rightarrow> guild_view \<Rightarrow> guild_view" where
  "v_lead i e v = v\<lparr>vw_guilds := sm_set i e (vw_guilds v)\<rparr>"

definition v_create :: "u32 \<Rightarrow> guild_view \<Rightarrow> guild_view" where
  "v_create l v = (let i = vw_next v in v_join i l (player_guid l, [l])
     (v\<lparr>vw_rows := filter (\<lambda>r. snd r \<noteq> i) (vw_rows v), vw_next := i + 1\<rparr>))"

section \<open>They keep the books in agreement\<close>

lemma player_guid_ucast: "player_guid low = ucast low"
  by (simp add: MAKE_NEW_GUID_def)

lemma player_guid_eq [simp]: "player_guid a = player_guid b \<longleftrightarrow> a = b"
  using lopart_player_guid by metis

lemma sm_set_entry:
  assumes "sm_wf m" "e \<in> set (sm_set i x m)"
  shows "e = (i, x) \<or> e \<in> set m \<and> fst e \<noteq> i"
  using sm.find_put[of "fst e" i x m] sm.wf_put[OF assms(1)] assms sm_find_in_set[of "sm_set i x m" "fst e" "snd e"]
    sm_find_in_set[OF assms(1), of "fst e" "snd e"]
  by (cases e) (auto split: if_splits)

lemma map_of_filter_key: "map_of (filter (\<lambda>p. P (fst p)) m) k = (if P k then map_of m k else None)"
  by (induction m) auto

lemma consistent_sm_set:
  assumes "vw_guilds v = sm_set i x m" "sm_wf m" "distinct (map fst (vw_rows v))" "guild_agrees (vw_next v) (vw_rows v) (i, x)"
    "\<And>e. e \<in> set m \<Longrightarrow> fst e \<noteq> i \<Longrightarrow> guild_agrees (vw_next v) (vw_rows v) e"
    "\<And>r. r \<in> set (vw_rows v) \<Longrightarrow> snd r = i \<or> sm_has (snd r) m"
    "\<And>l. vw_online v (player_guid l) \<Longrightarrow> vw_field v (player_guid l) = guild_of_row (vw_rows v) l"
  shows "consistent v"
proof -
  have "guild_agrees (vw_next v) (vw_rows v) e" if "e \<in> set (vw_guilds v)" for e
    using sm_set_entry[OF assms(2), of e i x] that assms(1,4) assms(5)[of e] by auto
  moreover have "\<forall>r \<in> set (vw_rows v). sm_has (snd r) (vw_guilds v)" using assms(1,6) by auto
  ultimately show ?thesis using assms(1-3,7) unfolding consistent_def by (simp add: sm.wf_put)
qed

lemma row_of_guild: "consistent v \<Longrightarrow> (l, i) \<in> set (vw_rows v) \<Longrightarrow> map_of (vw_rows v) l = Some i"
  by (simp add: consistent_def)

lemma consistent_entry:
  assumes "consistent v" "sm_find i (vw_guilds v) = Some (L, ls)"
  shows "guild_agrees (vw_next v) (vw_rows v) (i, L, ls)"
  using assms sm_find_someD[OF assms(2)] by (auto simp: consistent_def)

lemma consistent_lead:
  assumes c: "consistent v" and f: "sm_find i (vw_guilds v) = Some (L, ls)" and "l \<in> set ls"
  shows "consistent (v_lead i (player_guid l, ls) v)"
proof -
  have "guild_agrees (vw_next v) (vw_rows v) (i, player_guid l, ls)"
    using consistent_entry[OF c f] assms(3) by (auto simp: guild_agrees_def)
  then show ?thesis using c
    by (intro consistent_sm_set[of _ i "(player_guid l, ls)" "vw_guilds v"]) (auto simp: consistent_def v_lead_def)
qed

lemma consistent_join:
  assumes c: "consistent v" and f: "sm_find i (vw_guilds v) = Some (L, ls)"
    and l: "l \<notin> fst ` set (vw_rows v)" and ls: "sorted_wrt (<) ls'" "set ls' = insert l (set ls)"
  shows "consistent (v_join i l (L, ls') v)"
proof -
  let ?R = "vw_rows v @ [(l, i)]"
  have a: "guild_agrees (vw_next v) (vw_rows v) (i, L, ls)" by (rule consistent_entry[OF c f])
  then have "guild_agrees (vw_next v) ?R (i, L, ls')"
    using ls l by (auto simp: guild_agrees_def)
  moreover have "guild_agrees (vw_next v) ?R e" if "e \<in> set (vw_guilds v)" "fst e \<noteq> i" for e
    using that c by (auto simp: consistent_def guild_agrees_def)
  moreover have "guild_of_row ?R k = (if k = l then i else guild_of_row (vw_rows v) k)" for k
  proof -
    have "map_of (vw_rows v) l = None" using l by (simp add: map_of_eq_None_iff)
    then show ?thesis by (auto simp: guild_of_row_def map_add_def split: option.split)
  qed
  ultimately show ?thesis using c l
    by (intro consistent_sm_set[of _ i "(L, ls')" "vw_guilds v"]) (auto simp: consistent_def v_join_def)
qed

lemma drop_rows:
  assumes c: "consistent v" and o: "vw_online v (player_guid k)"
  shows "vw_field (v_drop ls v) (player_guid k) = guild_of_row (vw_rows (v_drop ls v)) k"
proof -
  have m: "map_of (vw_rows (v_drop ls v)) k = (if k \<in> set ls then None else map_of (vw_rows v) k)"
    using map_of_filter_key[of "\<lambda>l. l \<notin> set ls" "vw_rows v" k] by (simp add: v_drop_def)
  have "player_guid k \<in> player_guid ` set ls \<longleftrightarrow> k \<in> set ls" by (auto dest: arg_cong[of _ _ GUID_LOPART])
  then show ?thesis using c o m by (auto simp: v_drop_def guild_of_row_def consistent_def)
qed

lemma drop_basics:
  assumes "consistent v"
  shows "distinct (map fst (vw_rows (v_drop ls v)))" "vw_online (v_drop ls v) = vw_online v"
    "vw_next (v_drop ls v) = vw_next v" "vw_guilds (v_drop ls v) = vw_guilds v"
    "r \<in> set (vw_rows (v_drop ls v)) \<longleftrightarrow> r \<in> set (vw_rows v) \<and> fst r \<notin> set ls"
  using assms distinct_map_filter[of fst "vw_rows v"] by (auto simp: v_drop_def consistent_def)

lemma drop_other:
  assumes c: "consistent v" and f: "sm_find i (vw_guilds v) = Some (L, ks)" and ls: "set ls \<subseteq> set ks"
    and e: "e \<in> set (vw_guilds v)" "fst e \<noteq> i"
  shows "guild_agrees (vw_next v) (vw_rows (v_drop ls v)) e"
proof -
  obtain j M ms where E: "e = (j, M, ms)" by (cases e)
  have "guild_agrees (vw_next v) (vw_rows v) (j, M, ms)" using c e E by (auto simp: consistent_def)
  moreover have "l \<notin> set ls" if "(l, j) \<in> set (vw_rows v)" for l
  proof
    assume "l \<in> set ls"
    then have "(l, i) \<in> set (vw_rows v)" using consistent_entry[OF c f] ls by (auto simp: guild_agrees_def)
    then have "i = j" using row_of_guild[OF c, of l i] row_of_guild[OF c, of l j] that by simp
    with e E show False by simp
  qed
  ultimately show ?thesis unfolding E guild_agrees_def using drop_basics(5)[OF c, where ls = ls] by auto
qed

lemma consistent_leave:
  assumes c: "consistent v" and f: "sm_find i (vw_guilds v) = Some (L, ls)" and l: "l \<in> set ls"
    and h: "h \<in> set ls" "h \<noteq> l"
  shows "consistent (v_leave i l (player_guid h, filter (\<lambda>k. k \<noteq> l) ls) v)"
proof -
  let ?v = "v_drop [l] v" and ?e = "(player_guid h, filter (\<lambda>k. k \<noteq> l) ls)"
  have "guild_agrees (vw_next v) (vw_rows ?v) (i, ?e)"
    using consistent_entry[OF c f] h drop_basics(5)[OF c, where ls = "[l]"]
    by (auto simp: guild_agrees_def sorted_wrt_filter)
  moreover have "guild_agrees (vw_next v) (vw_rows ?v) e" if "e \<in> set (vw_guilds v)" "fst e \<noteq> i" for e
    using drop_other[OF c f _ that, of "[l]"] l by simp
  moreover have "snd r = i \<or> sm_has (snd r) (vw_guilds v)" if "r \<in> set (vw_rows ?v)" for r
    using that c drop_basics(5)[OF c, where ls = "[l]" and r = r] by (auto simp: consistent_def)
  moreover have "sm_wf (vw_guilds v)" using c by (simp add: consistent_def)
  ultimately show ?thesis using drop_rows[OF c, of _ "[l]"] drop_basics[OF c, where ls = "[l]"]
    by (intro consistent_sm_set[of _ i ?e "vw_guilds v"]) (auto simp: v_leave_def)
qed

lemma consistent_disband:
  assumes c: "consistent v" and f: "sm_find i (vw_guilds v) = Some (L, ls)"
  shows "consistent (v_disband i ls v)"
proof -
  let ?v = "v_drop ls v"
  have "guild_agrees (vw_next v) (vw_rows ?v) e" if "e \<in> set (sm_erase i (vw_guilds v))" for e
    using drop_other[OF c f, of ls e] that by (auto simp: sm_erase_def)
  moreover have "snd r \<noteq> i \<and> sm_has (snd r) (vw_guilds v)" if "r \<in> set (vw_rows ?v)" for r
    using that c consistent_entry[OF c f] drop_basics(5)[OF c, where ls = ls and r = r] by (cases r) (auto simp: consistent_def guild_agrees_def)
  ultimately show ?thesis using c drop_rows[OF c, of _ ls] drop_basics[OF c, where ls = ls]
    by (auto simp: consistent_def v_disband_def sm.wf_del)
qed

lemma consistent_create:
  assumes c: "consistent v" and l: "l \<notin> fst ` set (vw_rows v)" and n: "vw_next v \<noteq> 0" "vw_next v \<noteq> 0xFFFFFFFF"
  shows "consistent (v_create l v)"
proof -
  let ?i = "vw_next v"
  have k: "fst e < ?i" if "e \<in> set (vw_guilds v)" for e
    using c that by (auto simp: consistent_def guild_agrees_def)
  have no: "snd r \<noteq> ?i" if "r \<in> set (vw_rows v)" for r
    using c k that by (fastforce simp: consistent_def sm_has_iff)
  then have R: "filter (\<lambda>r. snd r \<noteq> ?i) (vw_rows v) = vw_rows v" by simp
  have "1 + ?i \<noteq> 0"
  proof
    assume "1 + ?i = 0"
    then have "?i = - 1" by (simp add: add_eq_0_iff)
    with n(2) show False by simp
  qed
  from unatSuc[OF this] have lt: "?i < ?i + 1" by (simp add: word_less_nat_alt add.commute)
  let ?R = "vw_rows v @ [(l, ?i)]"
  have "guild_agrees (?i + 1) ?R (?i, player_guid l, [l])"
    using no[of "(j, ?i)" for j] lt n(1) by (auto simp: guild_agrees_def)
  moreover have "guild_agrees (?i + 1) ?R e" if "e \<in> set (vw_guilds v)" for e
    using that c k[OF that] lt by (auto simp: consistent_def guild_agrees_def)
  moreover have "guild_of_row ?R j = (if j = l then ?i else guild_of_row (vw_rows v) j)" for j
  proof -
    have "map_of (vw_rows v) l = None" using l by (simp add: map_of_eq_None_iff)
    then show ?thesis by (auto simp: guild_of_row_def map_add_def split: option.split)
  qed
  ultimately show ?thesis using c l
    by (intro consistent_sm_set[of _ ?i "(player_guid l, [l])" "vw_guilds v"]) (auto simp: consistent_def v_create_def Let_def v_join_def R)
qed

end
