(* ===== verification/GuildSteps.thy ===== *)
theory GuildSteps
  imports GuildBook
begin

text \<open>
  The server's operations refine the changes of memberships of GuildBook: the view of a server, the object a handler
  works on (\<open>held\<close>: storing it makes the books agree), and each operation that changes who is in a guild.
\<close>

section \<open>The view of a server\<close>

definition book_entry :: "guild \<Rightarrow> guid \<times> u32 list" where
  "book_entry g = (gu_LeaderGuid g, map fst (gu_members g))"

definition view :: "guild_server \<Rightarrow> guild_view" where
  "view s = \<lparr>vw_online = (\<lambda>h. GetPlayer (gd_world s) h \<noteq> None), vw_guilds = map (\<lambda>(i, g). (i, book_entry g)) (gd_map s),
     vw_field = (\<lambda>h. ri_guild (gd_refs s h)), vw_rows = map row_guild (gd_rows s), vw_next = gd_next s\<rparr>"

definition agree :: "guild_server \<Rightarrow> bool" where
  "agree s \<longleftrightarrow> (\<forall>p \<in> set (gd_map s). gu_Id (snd p) = fst p) \<and> consistent (view s)"

lemma sm_find_map_snd: "sm_find i (map (\<lambda>(k, x). (k, f x)) m) = map_option f (sm_find i m)"
  by (induction m) (auto simp: sm_find_def)

lemma map_sm_set: "map (\<lambda>(k, x). (k, f x)) (sm_set i y m) = sm_set i (f y) (map (\<lambda>(k, x). (k, f x)) m)"
  by (induction m) auto

lemma map_sm_erase: "map (\<lambda>(k, x). (k, f x)) (sm_erase i m) = sm_erase i (map (\<lambda>(k, x). (k, f x)) m)"
  by (induction m) (auto simp: sm_erase_def)

lemma sm_wf_map_snd: "sm_wf (map (\<lambda>(k, x). (k, f x)) m) = sm_wf m"
  by (simp add: sm_wf_def comp_def split_beta)

lemma sm_set_same: "sm_wf m \<Longrightarrow> sm_find k m = Some v \<Longrightarrow> sm_set k v m = m"
proof (induction m)
  case (Cons p m)
  have "k < fst p \<Longrightarrow> k \<notin> fst ` set m" using Cons.prems by (auto simp: sm_wf_def)
  moreover have "fst p < k \<or> fst p = k \<or> k < fst p" by (rule less_linear)
  ultimately show ?case using Cons
    by (cases p) (auto simp: sm_wf_def sm_find_def map_of_eq_None_iff[symmetric] split: if_splits)
qed simp

lemma view_skey: "skey s' = skey s \<Longrightarrow> view s' = view s"
  by (simp add: skey_def view_def fun_eq_iff)

lemma agree_skey:
  assumes "skey s' = skey s"
  shows "agree s' = agree s"
proof -
  have "gd_map s' = gd_map s" using assms by (simp add: skey_def)
  then show ?thesis by (simp add: agree_def view_skey[OF assms])
qed

lemma agree_simps [simp]:
  "agree (gdo as s) = agree s" "agree (set_refs h (\<lambda>r. r\<lparr>ri_invited := i\<rparr>) s) = agree s" "agree (ModifyMoney h d s) = agree s"
  "agree (to_members P p g s) = agree s" "agree (Guild_BroadcastPacket p g s) = agree s" "agree (tell_guild e strs g s) = agree s"
  "agree (Guild_BroadcastEvent e h strs g s) = agree s" "agree (SendGuildCommandResult a c t e' s) = agree s"
  "agree (Guild_Query a g s) = agree s" "agree (Guild_Roster env to' g s) = agree s" "agree (SendSaveGuildEmblem a m s) = agree s"
  "agree (no_guild a s) = agree s"
  by (rule agree_skey, simp add: no_guild_def)+

lemma agree_guild:
  assumes "agree s" "GetGuildById i s = Some g"
  shows "gu_Id g = i" "sm_wf (gu_members g)" "sm_has i (gd_map s)" "sm_find i (vw_guilds (view s)) = Some (book_entry g)"
    "guild_agrees (gd_next s) (map row_guild (gd_rows s)) (i, book_entry g)"
proof -
  have e: "(i, g) \<in> set (gd_map s)" using assms(2) sm_find_someD by (simp add: GetGuildById_def)
  then show "gu_Id g = i" using assms(1) by (auto simp: agree_def)
  show v: "sm_find i (vw_guilds (view s)) = Some (book_entry g)"
    using assms(2) by (simp add: view_def sm_find_map_snd GetGuildById_def)
  show h: "sm_has i (gd_map s)" using assms(2) by (simp add: sm_has_def GetGuildById_def)
  have c: "consistent (view s)" using assms(1) by (simp add: agree_def)
  from consistent_entry[OF c, of i "fst (book_entry g)" "snd (book_entry g)"] v
  show a: "guild_agrees (gd_next s) (map row_guild (gd_rows s)) (i, book_entry g)" by (simp add: view_def)
  then show "sm_wf (gu_members g)" by (simp add: guild_agrees_def book_entry_def sm_wf_def)
qed

lemma agree_row:
  assumes "agree s" "(low, i, k) \<in> set (gd_rows s)"
  obtains g where "GetGuildById i s = Some g" "sm_has low (gu_members g)"
proof -
  have c: "consistent (view s)" using assms(1) by (simp add: agree_def)
  have r: "(low, i) \<in> set (vw_rows (view s))" using assms(2) by (force simp: view_def row_guild_def)
  then have "sm_has i (vw_guilds (view s))" using c by (force simp: consistent_def)
  then have "sm_find i (gd_map s) \<noteq> None" by (simp add: view_def sm_has_def sm_find_map_snd)
  then obtain g where g: "GetGuildById i s = Some g" by (auto simp: GetGuildById_def)
  from agree_guild(5)[OF assms(1) g] r have "low \<in> set (map fst (gu_members g))"
    by (simp add: guild_agrees_def book_entry_def view_def)
  then have "sm_has low (gu_members g)" by (auto simp: sm_has_iff)
  with g show ?thesis by (rule that)
qed

text \<open>The guild field of a player in the world tells his row.\<close>

lemma agree_field:
  assumes "agree s" "GetPlayer (gd_world s) (player_guid low) \<noteq> None"
  shows "ri_guild (gd_refs s (player_guid low)) = guild_of_row (map row_guild (gd_rows s)) low"
  using assms unfolding agree_def consistent_def by (simp add: view_def)

lemma agree_own:
  assumes a: "agree s" and o: "GetPlayer (gd_world s) (player_guid low) \<noteq> None" and g: "own_guild (player_guid low) s = Some g"
  shows "sm_has low (gu_members g)"
proof -
  let ?i = "ri_guild (gd_refs s (player_guid low))"
  have G: "GetGuildById ?i s = Some g" using g by (simp add: own_guild_def)
  have "?i \<noteq> 0" using agree_guild(5)[OF a G] by (simp add: guild_agrees_def book_entry_def)
  with agree_field[OF a o] have "map_of (map row_guild (gd_rows s)) low = Some ?i"
    by (auto simp: guild_of_row_def split: option.splits)
  then have "(low, ?i) \<in> set (map row_guild (gd_rows s))" by (rule map_of_SomeD)
  with agree_guild(5)[OF a G] have "low \<in> set (map fst (gu_members g))" by (simp add: guild_agrees_def book_entry_def)
  then show ?thesis by (auto simp: sm_has_iff)
qed

section \<open>The object a handler works on\<close>

definition held :: "guild \<times> guild_server \<Rightarrow> bool" where
  "held x \<longleftrightarrow> sm_has (gu_Id (fst x)) (gd_map (snd x)) \<and> sm_wf (gu_members (fst x)) \<and> agree (AddGuild (fst x) (snd x))"

lemma view_AddGuild: "view (AddGuild g s) = (view s)\<lparr>vw_guilds := sm_set (gu_Id g) (book_entry g) (vw_guilds (view s))\<rparr>"
  by (simp add: view_def AddGuild_def map_sm_set)

lemma held_keep: "held x \<Longrightarrow> agree (keep_guild x)"
  by (cases x) (simp add: held_def keep_guild_def)

lemma held_own:
  assumes "agree s" "GetGuildById i s = Some g"
  shows "held (g, s)"
proof -
  have "sm_wf (gd_map s)" using assms(1) by (simp add: agree_def consistent_def view_def sm_wf_map_snd)
  then have "AddGuild g s = s"
    using assms(2) agree_guild(1)[OF assms] by (simp add: AddGuild_def set_map_def GetGuildById_def sm_set_same)
  then show ?thesis using assms agree_guild[OF assms] by (simp add: held_def)
qed

lemma held_keys:
  assumes "held (g, s)" "gkey g' = gkey g" "skey s' = skey s"
  shows "held (g', s')"
proof -
  have k: "gu_Id g' = gu_Id g" "book_entry g' = book_entry g" "gd_map s' = gd_map s"
    using assms(2,3) by (auto simp: gkey_def book_entry_def skey_def)
  have ids: "\<forall>p \<in> set (sm_set (gu_Id g) g' m). gu_Id (snd p) = fst p"
    if "\<forall>p \<in> set (sm_set (gu_Id g) g m). gu_Id (snd p) = fst p" for m
    using that k(1) by (induction m) (auto split: if_splits)
  have "view (AddGuild g' s') = view (AddGuild g s)"
    by (simp add: view_AddGuild k view_skey[OF assms(3)])
  then have "agree (AddGuild g' s')"
    using assms(1) k ids[of "gd_map s"] by (simp add: held_def agree_def AddGuild_def)
  then show ?thesis using assms(1) k gkey_wf[OF assms(2)] by (simp add: held_def)
qed

lemma held_quiet:
  assumes "held x" "quiet f"
  shows "held (f x)"
proof -
  obtain g s g' s' where x: "x = (g, s)" and f: "f (g, s) = (g', s')" by (metis surj_pair)
  have w: "sm_wf (gu_members g)" using assms(1) by (simp add: held_def x)
  show ?thesis using held_keys[OF assms(1)[unfolded x] quietD[OF assms(2) f w]] by (simp add: x f)
qed

lemma held_server: "held (g, s) \<Longrightarrow> skey s' = skey s \<Longrightarrow> held (g, s')"
  using held_keys by blast

lemma keep_quiet: "held x \<Longrightarrow> quiet f \<Longrightarrow> agree (keep_guild (f x))"
  by (simp add: held_keep held_quiet)

section \<open>Operations that change memberships\<close>

lemma AddGuild_simps [simp]:
  "gd_world (AddGuild g s) = gd_world s" "gd_refs (AddGuild g s) = gd_refs s" "gd_rows (AddGuild g s) = gd_rows s"
  "gd_next (AddGuild g s) = gd_next s" "gd_money (AddGuild g s) = gd_money s" "gd_map (AddGuild g s) = sm_set (gu_Id g) g (gd_map s)"
  by (simp_all add: AddGuild_def)

lemma sm_set_twice: "sm_set k x (sm_set k y m) = sm_set k x m"
  by (induction m) auto

lemma sm_erase_set: "sm_wf m \<Longrightarrow> sm_erase k (sm_set k x m) = sm_erase k m"
  by (induction m) (auto simp: sm_erase_def sm_wf_def)

lemma held_view:
  assumes "held (g, s)"
  shows "consistent (view (AddGuild g s))" "sm_find (gu_Id g) (vw_guilds (view (AddGuild g s))) = Some (book_entry g)"
  using assms by (simp_all add: held_def agree_def view_AddGuild sm.find_put)

lemma held_entry:
  assumes "held (g, s)"
  shows "guild_agrees (gd_next s) (map row_guild (gd_rows s)) (gu_Id g, book_entry g)"
  using consistent_entry[OF held_view(1)[OF assms], of "gu_Id g" "fst (book_entry g)" "snd (book_entry g)"]
    held_view(2)[OF assms] by (simp add: view_AddGuild) (simp add: view_def)

text \<open>What is left to show of a changed object and server.\<close>

lemma held_change:
  assumes h: "held (g, s)" and "gu_Id g' = gu_Id g" "gd_map s' = gd_map s" "sm_wf (gu_members g')"
    and c: "consistent ((view s')\<lparr>vw_guilds := sm_set (gu_Id g) (book_entry g') (vw_guilds (view (AddGuild g s)))\<rparr>)"
  shows "held (g', s')"
proof -
  have "vw_guilds (view s') = vw_guilds (view s)" using assms(3) by (simp add: view_def)
  then have v: "view (AddGuild g' s') = (view s')\<lparr>vw_guilds := sm_set (gu_Id g) (book_entry g') (vw_guilds (view (AddGuild g s)))\<rparr>"
    using assms(2) by (simp add: view_AddGuild sm_set_twice)
  have ids: "\<forall>p \<in> set (sm_set (gu_Id g) g' m). gu_Id (snd p) = fst p"
    if "\<forall>p \<in> set (sm_set (gu_Id g) g m). gu_Id (snd p) = fst p" for m
    using that assms(2) by (induction m) (auto split: if_splits)
  show ?thesis using h c assms(2-4) v ids[of "gd_map s"] by (simp add: held_def agree_def AddGuild_def)
qed

lemma GUID_LOPART_ucast: "GUID_LOPART (ucast low) = (low :: u32)"
  using lopart_player_guid[of low] by (simp add: player_guid_ucast)

lemma held_lead:
  assumes h: "held (g, s)" and m: "sm_has low (gu_members g)"
  shows "held (SetLeader (ucast low) (g, s))"
proof -
  let ?g = "g\<lparr>gu_LeaderGuid := player_guid low\<rparr>"
  have "low \<in> set (map fst (gu_members g))" using m by (auto simp: sm_has_iff)
  from consistent_lead[OF held_view(1)[OF h] held_view(2)[OF h, unfolded book_entry_def] this]
  have "consistent ((view s)\<lparr>vw_guilds := sm_set (gu_Id g) (book_entry ?g) (vw_guilds (view (AddGuild g s)))\<rparr>)"
    by (simp add: v_lead_def book_entry_def view_AddGuild)
  then have "held (?g, s)" using h by (intro held_change[OF h]) (simp_all add: held_def)
  from held_quiet[OF this quiet_ChangeRank]
  have "held (ChangeRank (ucast low) GR_GUILDMASTER (?g, s))" .
  then show ?thesis using held_server
    by (auto simp: SetLeader_def player_guid_ucast split: prod.split)
qed

text \<open>Entering: the player has no row.\<close>

lemma sorted_keys_insert: "sm_wf m \<Longrightarrow> sorted_wrt (<) (map fst (sm_set l x m)) \<and> set (map fst (sm_set l x m)) = insert l (set (map fst m))"
  using sm.wf_put[of m l x] keys_sm_set[of l x m] by (simp add: sm_wf_def)

lemma held_join:
  assumes h: "held (g, s)" and r: "l \<notin> fst ` set (gd_rows s)"
    and a: "Guild_AddMember env (player_guid l) rank (g, s) = (True, g', s')"
  shows "held (g', s')"
proof -
  obtain d where d: "FillPlayerData env (player_guid l) (gdo [RemovePetitions (player_guid l) 9] s) = Some d"
    using a by (auto simp: Guild_AddMember_def Let_def split: if_splits option.splits)
  define m where "m = new_guild_member env rank d"
  have g': "g' = UpdateAccountsNumber (g\<lparr>gu_members := sm_set l m (gu_members g)\<rparr>)"
    using a d by (simp add: Guild_AddMember_def Let_def m_def split: if_splits)
  have s': "gd_map s' = gd_map s" "gd_world s' = gd_world s" "gd_rows s' = gd_rows s @ [(l, gu_Id g, rank)]" "gd_next s' = gd_next s"
    using a d by (auto simp: Guild_AddMember_def Let_def split: if_splits)
  have f': "ri_guild (gd_refs s' h) = (if h = player_guid l \<and> GetPlayer (gd_world s) h \<noteq> None then gu_Id g else ri_guild (gd_refs s h))" for h
    using a d by (auto simp: Guild_AddMember_def Let_def split: if_splits)
  have w: "sm_wf (gu_members g)" using h by (simp add: held_def)
  have "l \<notin> fst ` set (vw_rows (view (AddGuild g s)))" using r by (auto simp: view_AddGuild) (force simp: view_def row_guild_def)
  from consistent_join[OF held_view(1)[OF h] held_view(2)[OF h, unfolded book_entry_def] this, of "map fst (sm_set l m (gu_members g))"]
  have "consistent (v_join (gu_Id g) l (gu_LeaderGuid g, map fst (sm_set l m (gu_members g))) (view (AddGuild g s)))"
    using sorted_keys_insert[OF w] by blast
  moreover have "(view s')\<lparr>vw_guilds := sm_set (gu_Id g) (book_entry g') (vw_guilds (view (AddGuild g s)))\<rparr>
      = v_join (gu_Id g) l (gu_LeaderGuid g, map fst (sm_set l m (gu_members g))) (view (AddGuild g s))"
    unfolding view_AddGuild using s' g' f'
    by (auto simp: v_join_def book_entry_def UpdateAccountsNumber_def view_def row_guild_def fun_eq_iff)
  ultimately show ?thesis using g' s' w
    by (intro held_change[OF h]) (simp_all add: UpdateAccountsNumber_def sm.wf_put)
qed

text \<open>Leaving, for a member who does not lead.\<close>

lemma keys_sm_erase: "map fst (sm_erase l m) = filter (\<lambda>k. k \<noteq> l) (map fst m)"
  by (simp add: sm_erase_def filter_map comp_def)

lemma erase_effect:
  assumes "erase_guild_member (player_guid l) (g, s) = (g', s')"
  shows "g' = g\<lparr>gu_members := sm_erase l (gu_members g)\<rparr>" "gd_map s' = gd_map s" "gd_world s' = gd_world s" "gd_next s' = gd_next s"
    "gd_money s' = gd_money s" "gd_rows s' = filter (\<lambda>r. fst r \<noteq> l) (gd_rows s)"
    "ri_guild (gd_refs s' h) = (if h = player_guid l \<and> GetPlayer (gd_world s) h \<noteq> None then 0 else ri_guild (gd_refs s h))"
    "ri_rank (gd_refs s' h) = (if h = player_guid l \<and> GetPlayer (gd_world s) h \<noteq> None then 0 else ri_rank (gd_refs s h))"
  using assms by (auto simp: erase_guild_member_def)

lemma held_erase:
  assumes h: "held (g, s)" and L: "gu_LeaderGuid g = player_guid k" "sm_has k (gu_members g)" "k \<noteq> l" "sm_has l (gu_members g)"
  shows "held (erase_guild_member (player_guid l) (g, s))"
proof -
  let ?ls = "map fst (gu_members g)"
  obtain g' s' where e: "erase_guild_member (player_guid l) (g, s) = (g', s')" by force
  note E = erase_effect[OF e]
  have mem: "k \<in> set ?ls" "l \<in> set ?ls" using L by (auto simp: sm_has_iff)
  have c: "consistent (v_leave (gu_Id g) l (player_guid k, filter (\<lambda>k. k \<noteq> l) ?ls) (view (AddGuild g s)))"
    by (rule consistent_leave[OF held_view(1)[OF h] held_view(2)[OF h, unfolded book_entry_def] mem(2,1) L(3)])
  moreover have "(view s')\<lparr>vw_guilds := sm_set (gu_Id g) (book_entry g') (vw_guilds (view (AddGuild g s)))\<rparr>
      = v_leave (gu_Id g) l (player_guid k, filter (\<lambda>k. k \<noteq> l) ?ls) (view (AddGuild g s))"
    unfolding view_AddGuild using E(1-4,6,7) L(1)
    by (auto simp: v_leave_def v_drop_def book_entry_def view_def row_guild_def fun_eq_iff keys_sm_erase filter_map comp_def)
  ultimately have "held (g', s')" using h E
    by (intro held_change[OF h]) (simp_all add: held_def sm.wf_del)
  then show ?thesis by (simp add: e)
qed

text \<open>Disbanding ends and empties the guild.\<close>

declare erase_all_members.simps [simp del]

lemma erase_all_effect:
  assumes "erase_all_members (g, s) = (g', s')"
  shows "gu_Id g' = gu_Id g \<and> gu_members g' = [] \<and> gd_map s' = gd_map s \<and> gd_world s' = gd_world s \<and> gd_next s' = gd_next s
    \<and> gd_money s' = gd_money s \<and> gd_rows s' = filter (\<lambda>r. \<not> sm_has (fst r) (gu_members g)) (gd_rows s)
    \<and> (\<forall>h. ri_guild (gd_refs s' h) =
          (if GetPlayer (gd_world s) h \<noteq> None \<and> (\<exists>l. h = player_guid l \<and> sm_has l (gu_members g)) then 0 else ri_guild (gd_refs s h)))"
  using assms
proof (induction "(g, s)" arbitrary: g s rule: erase_all_members.induct)
  case (1 g s)
  show ?case
  proof (cases "gu_members g")
    case Nil
    then show ?thesis using 1(2) by (simp add: erase_all_members.simps)
  next
    case (Cons p ms)
    obtain low m where p: "p = (low, m)" by force
    obtain g1 s1 where e: "erase_guild_member (player_guid low) (g, s) = (g1, s1)" by force
    note E = erase_effect[OF e]
    have gi: "gu_Id g1 = gu_Id g" by (simp add: E(1))
    have has: "sm_has k (gu_members g) \<longleftrightarrow> k = low \<or> sm_has k (gu_members g1)" for k
      unfolding E(1) by (auto simp: Cons p sm_has_iff sm_erase_def)
    have "erase_all_members (g1, s1) = (g', s')" using 1(2) by (simp add: Cons p e erase_all_members.simps)
    from 1(1)[OF Cons p[symmetric] e this] show ?thesis
      using gi by (auto simp: E(2-7) has conj_commute simp del: not_None_eq)
  qed
qed

lemma sm_erase_sm_set: "sm_erase i (sm_set i x m) = sm_erase i m"
  by (induction m) (auto simp: sm_erase_def)

lemma Disband_effect:
  assumes "Guild_Disband (g, s) = (g', s')"
  shows "gu_members g' = []" "gu_Id g' = gu_Id g" "gd_map s' = sm_erase (gu_Id g) (gd_map s)" "gd_world s' = gd_world s" "gd_next s' = gd_next s"
    "gd_money s' = gd_money s" "gd_rows s' = filter (\<lambda>r. \<not> sm_has (fst r) (gu_members g)) (gd_rows s)"
    "ri_guild (gd_refs s' h) = (if GetPlayer (gd_world s) h \<noteq> None \<and> (\<exists>l. h = player_guid l \<and> sm_has l (gu_members g)) then 0
       else ri_guild (gd_refs s h))"
proof -
  obtain g1 s1 where e: "erase_all_members (g, Guild_BroadcastEvent GE_DISBANDED 0 [] g s) = (g1, s1)" by force
  have b: "gd_map (Guild_BroadcastEvent GE_DISBANDED 0 [] g s) = gd_map s" "gd_world (Guild_BroadcastEvent GE_DISBANDED 0 [] g s) = gd_world s"
    "gd_next (Guild_BroadcastEvent GE_DISBANDED 0 [] g s) = gd_next s" "gd_money (Guild_BroadcastEvent GE_DISBANDED 0 [] g s) = gd_money s"
    "gd_rows (Guild_BroadcastEvent GE_DISBANDED 0 [] g s) = gd_rows s" "gd_refs (Guild_BroadcastEvent GE_DISBANDED 0 [] g s) = gd_refs s"
    by (simp_all add: Guild_BroadcastEvent_def Guild_BroadcastPacket_def to_members_def)
  note E = erase_all_effect[OF e, unfolded b]
  have r: "g' = g1" "s' = RemoveGuild (gu_Id g1) (gdo [GuSql (DeleteGuildRows (gu_Id g1)), GuHook ''OnGuildDisband'' (gu_Id g1)] s1)"
    using assms by (auto simp: Guild_Disband_def e)
  show "gu_members g' = []" "gu_Id g' = gu_Id g" "gd_map s' = sm_erase (gu_Id g) (gd_map s)" "gd_world s' = gd_world s" "gd_next s' = gd_next s"
    "gd_money s' = gd_money s" "gd_rows s' = filter (\<lambda>r. \<not> sm_has (fst r) (gu_members g)) (gd_rows s)"
    "ri_guild (gd_refs s' h) = (if GetPlayer (gd_world s) h \<noteq> None \<and> (\<exists>l. h = player_guid l \<and> sm_has l (gu_members g)) then 0
       else ri_guild (gd_refs s h))"
    using E unfolding r by (simp_all add: RemoveGuild_def)
qed

lemma agree_disband:
  assumes h: "held (g, s)"
  shows "agree (snd (Guild_Disband (g, s)))"
proof -
  obtain g' s' where d: "Guild_Disband (g, s) = (g', s')" by force
  note D = Disband_effect[OF d]
  let ?ls = "map fst (gu_members g)"
  have m: "h \<in> player_guid ` set ?ls \<longleftrightarrow> (\<exists>l. h = player_guid l \<and> sm_has l (gu_members g))" for h
    by (auto simp: sm_has_iff)
  have k: "(fst r \<notin> set ?ls) = (\<not> sm_has (fst r) (gu_members g))" for r :: "u32 \<times> u32 \<times> u32" by (simp add: sm_has_iff)
  have "consistent (v_disband (gu_Id g) ?ls (view (AddGuild g s)))"
    by (rule consistent_disband[OF held_view(1)[OF h] held_view(2)[OF h, unfolded book_entry_def]])
  moreover have "view s' = v_disband (gu_Id g) ?ls (view (AddGuild g s))"
    unfolding view_AddGuild v_disband_def v_drop_def using D m k
    by (auto simp: view_def row_guild_def fun_eq_iff map_sm_erase sm_erase_sm_set filter_map comp_def)
  moreover have "\<forall>p \<in> set (gd_map s'). gu_Id (snd p) = fst p"
  proof
    fix p assume "p \<in> set (gd_map s')"
    then have p: "p \<in> set (gd_map s)" "fst p \<noteq> gu_Id g" using D(3) by (auto simp: sm_erase_def)
    have "p \<in> set m \<Longrightarrow> p \<in> set (sm_set (gu_Id g) g m)" for m using p(2) by (induction m) auto
    from this[of "gd_map s"] p(1) have "p \<in> set (sm_set (gu_Id g) g (gd_map s))" by simp
    then show "gu_Id (snd p) = fst p" using h by (simp add: held_def agree_def)
  qed
  ultimately show ?thesis by (simp add: d agree_def)
qed

section \<open>A member leaves or is removed\<close>

text \<open>The heir: one of the others with the lowest rank number.\<close>

lemma best_heir_fold:
  "fold (\<lambda>x best. if fst x = low then best
            else case best of None \<Rightarrow> Some x | Some b \<Rightarrow> if mb_RankId (snd b) > mb_RankId (snd x) then Some x else best) ms b0 = r
   \<Longrightarrow> (case r of
         None \<Rightarrow> b0 = None \<and> (\<forall>x \<in> set ms. fst x = low)
       | Some x \<Rightarrow> (b0 = Some x \<or> x \<in> set ms \<and> fst x \<noteq> low) \<and> (\<forall>y \<in> set ms. fst y \<noteq> low \<longrightarrow> mb_RankId (snd x) \<le> mb_RankId (snd y))
            \<and> (\<forall>y. b0 = Some y \<longrightarrow> mb_RankId (snd x) \<le> mb_RankId (snd y)))"
proof (induction ms arbitrary: b0)
  case Nil
  then show ?case by (auto split: option.split)
next
  case (Cons a ms)
  from Cons.IH[OF Cons.prems[unfolded fold_simps]] show ?case
    by (cases a) (auto split: option.splits if_splits)
qed

lemma best_heir_None: "best_heir low ms = None \<longleftrightarrow> (\<forall>x \<in> set ms. fst x = low)"
proof -
  have all: "(\<forall>x \<in> set ms. fst x = low) \<Longrightarrow> fold (\<lambda>x best. if fst x = low then best
            else case best of None \<Rightarrow> Some x | Some b \<Rightarrow> if mb_RankId (snd b) > mb_RankId (snd x) then Some x else best) ms b0 = b0" for b0
    by (induction ms arbitrary: b0) auto
  have "best_heir low ms = None \<Longrightarrow> \<forall>x \<in> set ms. fst x = low"
    using best_heir_fold[of low ms None None] by (simp add: best_heir_def)
  then show ?thesis unfolding best_heir_def by (intro iffI all)
qed

lemma best_heir_Some:
  assumes "best_heir low ms = Some x"
  shows "x \<in> set ms" "fst x \<noteq> low" "\<And>y. y \<in> set ms \<Longrightarrow> fst y \<noteq> low \<Longrightarrow> mb_RankId (snd x) \<le> mb_RankId (snd y)"
  using best_heir_fold[of low ms None "Some x"] assms by (auto simp: best_heir_def)

lemma held_leader:
  assumes "held (g, s)"
  obtains k where "gu_LeaderGuid g = player_guid k" "sm_has k (gu_members g)"
proof -
  have "\<exists>k \<in> set (map fst (gu_members g)). gu_LeaderGuid g = player_guid k"
    using held_entry[OF assms] by (simp add: guild_agrees_def book_entry_def)
  then show ?thesis using that by (auto simp: sm_has_iff)
qed

lemma gkey_SetLeader:
  assumes "SetLeader h (g, s) = (g', s')" "sm_wf (gu_members g)"
  shows "gkey g' = gkey (g\<lparr>gu_LeaderGuid := h\<rparr>)" "skey s' = skey s"
proof -
  obtain g1 s1 where c: "ChangeRank h GR_GUILDMASTER (g\<lparr>gu_LeaderGuid := h\<rparr>, s) = (g1, s1)" by force
  have "sm_wf (gu_members (g\<lparr>gu_LeaderGuid := h\<rparr>))" using assms(2) by simp
  note q = quietD[OF quiet_ChangeRank c this]
  show "gkey g' = gkey (g\<lparr>gu_LeaderGuid := h\<rparr>)" "skey s' = skey s"
    using assms(1) q by (auto simp: SetLeader_def c)
qed

lemma has_gkey: "gkey g' = gkey g \<Longrightarrow> sm_has l (gu_members g') = sm_has l (gu_members g)"
  by (simp add: sm_has_iff gkey_def flip: set_map)

lemma held_del:
  assumes h: "held (g, s)" and l: "sm_has l (gu_members g)"
  shows "case Guild_DelMember (ucast l) (g, s) of (None, s') \<Rightarrow> agree s' | (Some g', s') \<Rightarrow> held (g', s')"
proof (cases "gu_LeaderGuid g = player_guid l")
  case False
  obtain k where k: "gu_LeaderGuid g = player_guid k" "sm_has k (gu_members g)" by (rule held_leader[OF h])
  have "k \<noteq> l" using False k(1) by auto
  from held_erase[OF h k this l] show ?thesis
    using False by (cases "erase_guild_member (player_guid l) (g, s)") (simp add: Guild_DelMember_def player_guid_ucast)
next
  case True
  show ?thesis
  proof (cases "best_heir l (gu_members g)")
    case None
    then show ?thesis using True agree_disband[OF h]
      by (simp add: Guild_DelMember_def player_guid_ucast GUID_LOPART_ucast)
  next
    case (Some x)
    obtain new b where x: "x = (new, b)" by force
    have n: "sm_has new (gu_members g)" "new \<noteq> l" using best_heir_Some(1,2)[OF Some] by (force simp: x sm_has_iff)+
    obtain g1 s1 where L: "SetLeader (ucast new) (g, s) = (g1, s1)" by force
    have w: "sm_wf (gu_members g)" using h by (simp add: held_def)
    note G = gkey_SetLeader[OF L w]
    have hs: "sm_has k (gu_members g1) = sm_has k (gu_members g)" for k using has_gkey[OF G(1)] by simp
    have lead: "gu_LeaderGuid g1 = player_guid new" using G(1) by (simp add: gkey_def player_guid_ucast)
    have h1: "held (g1, s1)" using held_lead[OF h n(1)] by (simp add: L)
    define s2 where "s2 = set_online (ucast new) (\<lambda>r. r\<lparr>ri_rank := GR_GUILDMASTER\<rparr>) s1"
    define s3 where "s3 = (case sm_find l (gu_members g) of None \<Rightarrow> s2
       | Some m \<Rightarrow> Guild_BroadcastEvent GE_LEFT (ucast l) [mb_Name m] g1
                     (Guild_BroadcastEvent GE_LEADER_CHANGED 0 [mb_Name m, mb_Name b] g1 s2))"
    have "skey s3 = skey s1" by (simp add: s3_def s2_def split: option.split)
    from held_server[OF h1 this] have h3: "held (g1, s3)" .
    have "held (erase_guild_member (player_guid l) (g1, s3))"
      by (rule held_erase[OF h3 lead]) (simp_all add: hs n l)
    moreover have "Guild_DelMember (ucast l) (g, s)
        = (let (g, s) = erase_guild_member (player_guid l) (g1, s3) in (Some g, s))"
      unfolding s3_def s2_def using True Some by (simp add: Guild_DelMember_def player_guid_ucast GUID_LOPART_ucast x L Let_def)
    ultimately show ?thesis by (cases "erase_guild_member (player_guid l) (g1, s3)") simp
  qed
qed

end
