(* ===== verification/GuildLaws.thy ===== *)
theory GuildLaws
  imports GuildSteps
begin

text \<open>
  Every step of the server keeps the three records of memberships in agreement: each handler (\<open>keeps\<close>), the steps
  \<open>guild_step\<close>, and a small server with two players for examples.
\<close>

section \<open>Handlers keep the books in agreement\<close>

definition keeps :: "guild_handler \<Rightarrow> bool" where
  "keeps H \<longleftrightarrow> (\<forall>b. case snd (H b) of Inl e \<Rightarrow> True | Inr s \<Rightarrow> agree s)"

named_theorems keeps_intros

lemma keeps_rdg [keeps_intros]: "agree s \<Longrightarrow> (\<And>x. keeps (k x)) \<Longrightarrow> keeps (rdg r s k)"
proof -
  assume a: "agree s" and k: "\<And>x. keeps (k x)"
  have "case snd (rdg r s k b) of Inl e \<Rightarrow> True | Inr s \<Rightarrow> agree s" for b
  proof (cases "r b")
    case (Inr p)
    then show ?thesis using k[of "fst p", unfolded keeps_def, rule_format, of "snd p"] by (simp add: rdg_def split_beta)
  qed (simp add: rdg_def a)
  then show ?thesis by (simp add: keeps_def)
qed

lemma keeps_fine [keeps_intros]: "agree s \<Longrightarrow> keeps (fine s)"
  by (simp add: keeps_def)

lemma keeps_const: "(\<And>s. r = Inr s \<Longrightarrow> agree s) \<Longrightarrow> keeps (\<lambda>b. (e, r))"
  by (auto simp: keeps_def split: sum.split)

lemma held_own_guild: "agree s \<Longrightarrow> own_guild h s = Some g \<Longrightarrow> held (g, s)"
  unfolding own_guild_def by (rule held_own)

lemma agree_as_leader [keeps_intros]:
  assumes "agree s" "\<And>g. held (g, s) \<Longrightarrow> agree (f g)"
  shows "agree (as_leader me s f)"
  using assms held_own_guild by (auto simp: as_leader_def split: option.split)

lemma agree_with_own_guild [keeps_intros]:
  assumes "agree s" "\<And>g. held (g, s) \<Longrightarrow> agree (f g)"
  shows "agree (with_own_guild me s f)"
  using assms held_own_guild by (auto simp: with_own_guild_def split: option.split)

lemma named_member_over: "named_member env me P n s = Inl s' \<Longrightarrow> agree s \<Longrightarrow> agree s'"
  by (auto simp: named_member_def Let_def split: option.splits if_splits)

lemma named_member_found:
  assumes "named_member env me P n s = Inr (n', g, low, m)"
  shows "own_guild (pl_guid me) s = Some g" "(low, m) \<in> set (gu_members g)" "sm_has low (gu_members g)" "P g"
proof -
  show a: "own_guild (pl_guid me) s = Some g" "P g"
    using assms by (auto simp: named_member_def Let_def split: option.splits if_splits)
  have "Guild_GetMemberSlot n' g = Some (low, m)"
    using assms by (auto simp: named_member_def Let_def split: option.splits if_splits)
  then show "(low, m) \<in> set (gu_members g)" by (auto simp: Guild_GetMemberSlot_def find_Some_iff in_set_conv_nth)
  then show "sm_has low (gu_members g)" by (force simp: sm_has_iff)
qed

lemma held_tell [simp]:
  "held (g, tell_guild e strs g' s) = held (g, s)" "held (g, gdo as s) = held (g, s)" "held (g, Guild_Query h g' s) = held (g, s)"
  "held (g, Guild_Roster env to' g' s) = held (g, s)" "held (g, SendSaveGuildEmblem h m s) = held (g, s)"
  "held (g, ModifyMoney h d s) = held (g, s)" "held (g, set_refs h (\<lambda>r. r\<lparr>ri_invited := i\<rparr>) s) = held (g, s)"
  "held (g, Guild_BroadcastEvent e h strs g' s) = held (g, s)" "held (g, Guild_BroadcastPacket p g' s) = held (g, s)"
  by (rule iffI; erule held_server; simp)+

lemma keeps_splits [keeps_intros]:
  "(P \<Longrightarrow> agree a) \<Longrightarrow> (\<not> P \<Longrightarrow> agree b) \<Longrightarrow> agree (if P then a else b)"
  "(held y \<Longrightarrow> agree (keep_guild y))"
  "held y \<Longrightarrow> (\<And>g s. held (g, s) \<Longrightarrow> agree (F g s)) \<Longrightarrow> agree (case y of (g, s) \<Rightarrow> F g s)"
  by (auto simp: held_keep split: prod.split)

lemma quiet_held: "quiet f \<Longrightarrow> held x \<Longrightarrow> held (f x)"
  by (rule held_quiet)

lemmas held_ops = quiet_ranks[THEN quiet_held] quiet_texts[THEN quiet_held] quiet_CreateRank[THEN quiet_held] quiet_ChangeRank[THEN quiet_held]
  quiet_logs[THEN quiet_held] quiet_money[THEN quiet_held] quiet_limits[THEN quiet_held] quiet_fetch[THEN quiet_held]
  quiet_LoadGuildBankFromDB[THEN quiet_held] quiet_shows[THEN quiet_held]

lemma agree_named [keeps_intros]:
  assumes "agree s"
    "\<And>n g low m. named_member env me P name s = Inr (n, g, low, m) \<Longrightarrow> held (g, s) \<Longrightarrow> sm_has low (gu_members g) \<Longrightarrow> (low, m) \<in> set (gu_members g)
       \<Longrightarrow> P g \<Longrightarrow> agree (F n g low m)"
  shows "agree (case named_member env me P name s of Inl s \<Rightarrow> s | Inr (n, g, low, m) \<Rightarrow> F n g low m)"
proof (cases "named_member env me P name s")
  case (Inl s')
  then show ?thesis using named_member_over assms(1) by simp
next
  case (Inr x)
  obtain n g low m where x: "x = (n, g, low, m)" by (cases x)
  note f = named_member_found[OF Inr[unfolded x]]
  show ?thesis using assms(2)[OF Inr[unfolded x] held_own_guild[OF assms(1) f(1)] f(3,2,4)] by (simp add: Inr x)
qed

lemma agree_invite: "agree s \<Longrightarrow> agree (invite_to_guild env me name target s)"
proof -
  assume a: "agree s"
  have "agree (keep_guild (LogGuildEvent env t p q k (g, set_refs h (\<lambda>r. r\<lparr>ri_invited := i\<rparr>) s)))"
    if "own_guild (pl_guid me) s = Some g" for t p q k g h i
    by (intro held_keep held_ops) (simp add: held_own_guild[OF a that])
  then show ?thesis using a by (auto simp: invite_to_guild_def Let_def split: option.split)
qed

lemma keeps_members:
  assumes a: "agree s"
  shows "keeps (HandleGuildInviteOpcode env me s)" "keeps (HandleGuildPromoteOpcode env me s)" "keeps (HandleGuildDemoteOpcode env me s)"
proof -
  show "keeps (HandleGuildInviteOpcode env me s)"
    unfolding HandleGuildInviteOpcode_def using a by (auto intro!: keeps_intros agree_invite split: option.split)
  show "keeps (HandleGuildPromoteOpcode env me s)"
    unfolding HandleGuildPromoteOpcode_def Let_def
    by (intro keeps_intros a held_ops) (simp_all add: a held_ops)
  show "keeps (HandleGuildDemoteOpcode env me s)"
    unfolding HandleGuildDemoteOpcode_def Let_def
    by (intro keeps_intros a held_ops) (simp_all add: a held_ops)
qed

lemma agree_keep_if_alive:
  assumes "held (g, s)" "sm_has low (gu_members g)" "\<And>g s. held (g, s) \<Longrightarrow> agree (F g s)"
    and "keep_if_alive i F (Guild_DelMember (ucast low) (g, s)) = Inr s'"
  shows "agree s'"
  using held_del[OF assms(1,2)] assms(3,4) by (auto simp: keep_if_alive_def split: prod.splits option.splits)

lemma keeps_remove:
  assumes a: "agree s"
  shows "keeps (HandleGuildRemoveOpcode env me s)"
  unfolding HandleGuildRemoveOpcode_def
proof (intro keeps_rdg[OF a] keeps_const)
  fix name s'
  let ?F = "\<lambda>n g low m. if mb_RankId m = GR_GUILDMASTER
           then Inr (SendGuildCommandResult (pl_guid me) GUILD_QUIT_S '''' ERR_GUILD_LEADER_LEAVE s)
           else keep_if_alive (gu_Id g) (\<lambda>g s.
                  let (g, s) = LogGuildEvent env GUILD_EVENT_LOG_UNINVITE_PLAYER (GUID_LOPART (pl_guid me)) low 0 (g, s)
                  in keep_guild (g, tell_guild GE_REMOVED [n, c_str (pl_name me)] g s))
                (Guild_DelMember (ucast low) (g, s))"
  assume r: "(case named_member env me (my_right me s GR_RIGHT_REMOVE) name s of
      Inl s \<Rightarrow> Inr s | Inr (n, g, low, m) \<Rightarrow> ?F n g low m) = Inr s'"
  show "agree s'"
  proof (cases "named_member env me (my_right me s GR_RIGHT_REMOVE) name s")
    case (Inl s1)
    then show ?thesis using r named_member_over[OF Inl a] by simp
  next
    case (Inr x)
    obtain n g low m where x: "x = (n, g, low, m)" by (cases x)
    note f = named_member_found[OF Inr[unfolded x]]
    have h: "held (g, s)" by (rule held_own_guild[OF a f(1)])
    from r have r: "?F n g low m = Inr s'" by (simp add: Inr x)
    show ?thesis
    proof (cases "mb_RankId m = GR_GUILDMASTER")
      case True
      then show ?thesis using r a by auto
    next
      case False
      show ?thesis
        by (rule agree_keep_if_alive[OF h f(3) _ r[unfolded if_not_P[OF False]]])
           (unfold Let_def, intro keeps_intros held_ops, simp_all)
    qed
  qed
qed

lemma keeps_leaving:
  assumes a: "agree s" and me: "pl_guid me = player_guid low" "GetPlayer (gd_world s) (pl_guid me) = Some me"
  shows "keeps (HandleGuildLeaveOpcode env me s)"
  unfolding HandleGuildLeaveOpcode_def
proof (rule keeps_const)
  fix s'
  assume r: "(case own_guild (pl_guid me) s of
       None \<Rightarrow> Inr (no_guild (pl_guid me) s)
     | Some g \<Rightarrow>
         if pl_guid me = gu_LeaderGuid g
         then Inr (if length (gu_members g) > 1 then SendGuildCommandResult (pl_guid me) GUILD_QUIT_S '''' ERR_GUILD_LEADER_LEAVE s
                   else snd (Guild_Disband (g, s)))
         else keep_if_alive (gu_Id g) (\<lambda>g s.
                let (g, s) = LogGuildEvent env GUILD_EVENT_LOG_LEAVE_GUILD (GUID_LOPART (pl_guid me)) 0 0 (g, s)
                in SendGuildCommandResult (pl_guid me) GUILD_QUIT_S (gu_Name g) ERR_PLAYER_NO_MORE_IN_GUILD
                     (keep_guild (g, tell_guild GE_LEFT [c_str (pl_name me)] g s)))
              (Guild_DelMember (pl_guid me) (g, s))) = Inr s'"
  show "agree s'"
  proof (cases "own_guild (pl_guid me) s")
    case None
    then show ?thesis using r a by auto
  next
    case (Some g)
    have h: "held (g, s)" by (rule held_own_guild[OF a Some])
    show ?thesis
    proof (cases "pl_guid me = gu_LeaderGuid g")
      case True
      then show ?thesis using r[unfolded Some option.case if_P[OF True]] a agree_disband[OF h] by (auto split: if_splits)
    next
      case False
      have m: "sm_has low (gu_members g)" using agree_own[OF a _ Some[unfolded me(1)]] me by simp
      have u: "pl_guid me = ucast low" using me(1) by (simp add: player_guid_ucast)
      note r = r[unfolded Some option.case if_not_P[OF False]]
      show ?thesis
        by (rule agree_keep_if_alive[OF h m _ r[unfolded u]])
           (unfold Let_def, intro keeps_intros held_ops, simp_all add: held_keep)
    qed
  qed
qed

lemma keeps_leadership:
  assumes a: "agree s"
  shows "keeps (HandleGuildDisbandOpcode me s)" "keeps (HandleGuildLeaderOpcode env me s)"
proof -
  show "keeps (HandleGuildDisbandOpcode me s)"
    unfolding HandleGuildDisbandOpcode_def by (intro keeps_intros a agree_disband)
  show "keeps (HandleGuildLeaderOpcode env me s)"
    unfolding HandleGuildLeaderOpcode_def Let_def
    by (intro keeps_intros a held_ops held_lead) (simp_all add: a)
qed

lemma keeps_asks:
  assumes a: "agree s"
  shows "keeps (HandleGuildQueryOpcode me s)" "keeps (HandleGuildInfoOpcode me s)" "keeps (HandleGuildRosterOpcode env me s)"
  using a by (auto simp: HandleGuildQueryOpcode_def HandleGuildInfoOpcode_def HandleGuildRosterOpcode_def
      intro!: keeps_intros split: option.split prod.split)

lemma keeps_texts:
  assumes a: "agree s"
  shows "keeps (HandleGuildMOTDOpcode env me s)" "keeps (HandleGuildChangeInfoOpcode env me s)"
    "keeps (HandleGuildSetPublicNoteOpcode env me s)" "keeps (HandleGuildSetOfficerNoteOpcode env me s)"
proof -
  show "keeps (HandleGuildChangeInfoOpcode env me s)"
    unfolding HandleGuildChangeInfoOpcode_def
    by (rule keeps_rdg[OF a], rule keeps_fine)
       (use a in \<open>auto intro!: held_keep held_ops held_own_guild split: option.split\<close>)
  have note_keeps: "keeps (set_note env right setter me s)" if "\<And>h t. quiet (setter h t)" for right setter
    unfolding set_note_def
  proof (rule keeps_rdg[OF a])
    fix name
    let ?F = "\<lambda>n g low m. rdg read_string s (\<lambda>t.
             let (g, s) = setter (ucast low) t (g, s) in fine (keep_guild (g, Guild_Roster env (Some (pl_guid me)) g s)))"
    show "keeps (case named_member env me (my_right me s right) name s of Inl s \<Rightarrow> fine s | Inr (n, g, low, m) \<Rightarrow> ?F n g low m)"
    proof (cases "named_member env me (my_right me s right) name s")
      case (Inl s1)
      then show ?thesis using named_member_over[OF Inl a] by (simp add: keeps_fine)
    next
      case (Inr x)
      obtain n g low m where x: "x = (n, g, low, m)" by (cases x)
      have h: "held (g, s)" by (rule held_own_guild[OF a named_member_found(1)[OF Inr[unfolded x]]])
      have "keeps (let (g, s) = setter (ucast low) t (g, s) in fine (keep_guild (g, Guild_Roster env (Some (pl_guid me)) g s)))" for t
        using held_quiet[OF h that[of "ucast low" t]]
        by (cases "setter (ucast low) t (g, s)") (simp add: keeps_fine held_keep)
      then show ?thesis by (auto simp: Inr x intro!: keeps_rdg[OF a])
    qed
  qed
  show "keeps (HandleGuildSetPublicNoteOpcode env me s)" "keeps (HandleGuildSetOfficerNoteOpcode env me s)"
    by (simp_all add: HandleGuildSetPublicNoteOpcode_def HandleGuildSetOfficerNoteOpcode_def note_keeps quiet_texts)
  show "keeps (HandleGuildMOTDOpcode env me s)"
  proof (cases "own_guild (pl_guid me) s")
    case None
    then show ?thesis using a by (simp add: HandleGuildMOTDOpcode_def keeps_fine)
  next
    case (Some g)
    have h: "held (g, s)" by (rule held_own_guild[OF a Some])
    have g: "keeps (let (g, s) = SetMOTD env t (g, s) in fine (keep_guild (g, tell_guild GE_MOTD [t] g s)))" for t
      using held_quiet[OF h quiet_texts(1)[of env t]]
      by (cases "SetMOTD env t (g, s)") (simp add: keeps_fine held_keep)
    have "keeps (\<lambda>b. if storage b = [] then (let (g, s) = SetMOTD env '''' (g, s) in fine (keep_guild (g, tell_guild GE_MOTD [''''] g s))) b
        else rdg read_string s (\<lambda>t. let (g, s) = SetMOTD env t (g, s) in fine (keep_guild (g, tell_guild GE_MOTD [t] g s))) b)"
      using g[of "''''"] keeps_rdg[OF a g, of read_string "\<lambda>t. t"] unfolding keeps_def by simp
    then show ?thesis unfolding Let_def using Some a
      by (cases "my_right me s GR_RIGHT_SETMOTD g") (simp_all add: HandleGuildMOTDOpcode_def Let_def keeps_fine)
  qed
qed

lemma agree_show_ranks: "held x \<Longrightarrow> agree (show_ranks env h x)"
  by (cases x) (simp add: show_ranks_def held_keep)

lemma keeps_read_tab_rights:
  assumes "held x" "\<And>x. held x \<Longrightarrow> keeps (k x)"
  shows "keeps (read_tab_rights rank is' k x)"
  using assms(1)
proof (induction is' arbitrary: x)
  case Nil
  then show ?case by (simp add: assms(2))
next
  case (Cons i is')
  show ?case
    unfolding read_tab_rights.simps
    by (intro keeps_rdg held_keep Cons.IH Cons.prems held_ops)
qed

lemma keeps_ranks:
  assumes a: "agree s"
  shows "keeps (HandleGuildRankOpcode env me s)" "keeps (HandleGuildAddRankOpcode env me s)" "keeps (HandleGuildDelRankOpcode env me s)"
proof -
  show "keeps (HandleGuildDelRankOpcode env me s)"
    unfolding HandleGuildDelRankOpcode_def by (intro keeps_intros a agree_show_ranks held_ops)
  have "keeps (HandleGuildRankOpcode env me s) \<and> keeps (HandleGuildAddRankOpcode env me s)"
  proof (cases "own_guild (pl_guid me) s")
    case None
    then show ?thesis using a by (simp add: HandleGuildRankOpcode_def HandleGuildAddRankOpcode_def keeps_fine)
  next
    case (Some g)
    have h: "held (g, s)" by (rule held_own_guild[OF a Some])
    show ?thesis
    proof (cases "pl_guid me = gu_LeaderGuid g")
      case False
      then show ?thesis using a Some by (simp add: HandleGuildRankOpcode_def HandleGuildAddRankOpcode_def keeps_fine)
    next
      case True
      have "HandleGuildRankOpcode env me s =
          rdg (read_int False 4) s (\<lambda>rank. rdg (read_int False 4) s (\<lambda>rights. rdg read_string s (\<lambda>rankname.
           rdg (read_int False 4) s (\<lambda>money. read_tab_rights rank [0..<GUILD_BANK_MAX_TABS] (\<lambda>x.
             let x = SetRankName env rank rankname (SetBankMoneyPerDay rank money x);
                 rights = (if rank = GR_GUILDMASTER then rights OR GR_RIGHT_ALL else rights)
             in fine (show_ranks env (pl_guid me) (SetRankRights rank rights x))) (g, s)))))"
        using True Some by (simp add: HandleGuildRankOpcode_def)
      moreover have "keeps \<dots>"
        unfolding Let_def by (intro keeps_rdg a keeps_read_tab_rights h keeps_fine agree_show_ranks held_ops)
      ultimately have "keeps (HandleGuildRankOpcode env me s)" by simp
      moreover have "keeps (HandleGuildAddRankOpcode env me s)"
      proof (cases "unat (GetNrRanks g) \<ge> GUILD_MAX_RANKS")
        case full: True
        then show ?thesis using True Some a by (simp add: HandleGuildAddRankOpcode_def keeps_fine)
      next
        case False
        have "keeps (rdg read_string s (\<lambda>rankname.
            fine (show_ranks env (pl_guid me) (CreateRank env rankname (GR_RIGHT_GCHATLISTEN OR GR_RIGHT_GCHATSPEAK) (g, s)))))"
          by (intro keeps_rdg a keeps_fine agree_show_ranks held_ops h)
        then show ?thesis using True Some False by (simp add: HandleGuildAddRankOpcode_def)
      qed
      ultimately show ?thesis by simp
    qed
  qed
  then show "keeps (HandleGuildRankOpcode env me s)" "keeps (HandleGuildAddRankOpcode env me s)" by simp_all
qed

lemma keeps_Let: "keeps (F a) \<Longrightarrow> keeps (let x = a in F x)"
  by simp

lemma keeps_if: "(P \<Longrightarrow> keeps H) \<Longrightarrow> (\<not> P \<Longrightarrow> keeps K) \<Longrightarrow> keeps (if P then H else K)"
  by simp

lemma keeps_emblem:
  assumes a: "agree s"
  shows "keeps (HandleGuildSaveEmblemOpcode io me s)"
proof -
  have e: "agree (case own_guild (pl_guid me) t of
                None \<Rightarrow> SendSaveGuildEmblem (pl_guid me) 2 t
              | Some g \<Rightarrow>
                  if gu_LeaderGuid g \<noteq> pl_guid me then SendSaveGuildEmblem (pl_guid me) 3 t
                  else if gd_money t (pl_guid me) < emblem_price then SendSaveGuildEmblem (pl_guid me) 4 t
                  else
                    let (g, t) = Guild_SetEmblem em (g, ModifyMoney (pl_guid me) (- emblem_price) t)
                    in keep_guild (g, Guild_Query (pl_guid me) g (SendSaveGuildEmblem (pl_guid me) 0 t)))"
    if t: "agree t" for t em
  proof (cases "own_guild (pl_guid me) t")
    case None
    then show ?thesis using t by simp
  next
    case (Some g)
    have h: "held (g, t)" by (rule held_own_guild[OF t Some])
    show ?thesis unfolding Some option.case Let_def
      by (intro keeps_intros held_ops) (simp_all add: t h)
  qed
  have f: "keeps (if \<not> gi_near io v then fine (SendSaveGuildEmblem (pl_guid me) 5 s)
       else
         let s = (if gi_feigning io then gdo [RemoveFeignDeath (pl_guid me)] s else s)
         in rdg (read_int False 4) s (\<lambda>es. rdg (read_int False 4) s (\<lambda>ec. rdg (read_int False 4) s (\<lambda>bs.
            rdg (read_int False 4) s (\<lambda>bc. rdg (read_int False 4) s (\<lambda>bg. fine (
              case own_guild (pl_guid me) s of
                None \<Rightarrow> SendSaveGuildEmblem (pl_guid me) 2 s
              | Some g \<Rightarrow>
                  if gu_LeaderGuid g \<noteq> pl_guid me then SendSaveGuildEmblem (pl_guid me) 3 s
                  else if gd_money s (pl_guid me) < emblem_price then SendSaveGuildEmblem (pl_guid me) 4 s
                  else
                    let (g, s) = Guild_SetEmblem [es, ec, bs, bc, bg] (g, ModifyMoney (pl_guid me) (- emblem_price) s)
                    in keep_guild (g, Guild_Query (pl_guid me) g (SendSaveGuildEmblem (pl_guid me) 0 s)))))))))" for v
  proof -
    have t: "agree (if gi_feigning io then gdo [RemoveFeignDeath (pl_guid me)] s else s)" using a by simp
    show ?thesis by (intro keeps_if keeps_Let keeps_rdg keeps_fine e t) (simp_all add: a)
  qed
  show ?thesis unfolding HandleGuildSaveEmblemOpcode_def by (intro keeps_rdg a f)
qed

lemma held_money_rem:
  assumes "held x" "GetMemberMoneyWithdrawRem env low x = (r, y)"
  shows "held y"
  using held_quiet[OF assms(1) quiet_MoneyRem[of env low]] by (simp add: assms(2))

lemma held_slot_rem:
  assumes "held x" "GetMemberSlotWithdrawRem env low tab x = (r, y)"
  shows "held y"
  using held_quiet[OF assms(1) quiet_SlotRem[of env low tab]] by (simp add: assms(2))

lemma agree_show_money: "held x \<Longrightarrow> agree (show_money env io h x)"
  unfolding show_money_def by (intro held_keep held_ops)

lemma keeps_bank:
  assumes a: "agree s"
  shows "keeps (HandleGuildEventLogOpcode env io me s)" "keeps (HandleGuildBankGetMoneyAmount env me s)"
    "keeps (HandleGuildBankQuery io me s)" "keeps (HandleGuildBankTabColon env io me s)" "keeps (HandleGuildBankLog env me s)"
    "keeps (HandleGuildBankGetRights env me s)"
proof -
  show "keeps (HandleGuildEventLogOpcode env io me s)" "keeps (HandleGuildBankGetMoneyAmount env me s)"
    unfolding HandleGuildEventLogOpcode_def HandleGuildBankGetMoneyAmount_def
    by (intro keeps_intros a held_ops; assumption)+
  show "keeps (HandleGuildBankTabColon env io me s)"
    unfolding HandleGuildBankTabColon_def by (intro keeps_intros a held_ops)
  show "keeps (HandleGuildBankQuery io me s)"
    unfolding HandleGuildBankQuery_def Let_def
    by (intro keeps_intros a) (use a in \<open>auto intro!: held_keep held_ops held_own_guild split: option.split\<close>)
  have "keeps (\<lambda>b. rdg (read_int False 1) s (\<lambda>TabId. fine (keep_guild (DisplayGuildBankLogs env (pl_guid me) TabId (g, s)))) b)"
    if "own_guild (pl_guid me) s = Some g" for g
    by (intro keeps_rdg a keeps_fine held_keep held_ops held_own_guild[OF a that])
  then show "keeps (HandleGuildBankLog env me s)"
    using a by (cases "own_guild (pl_guid me) s"; cases "ri_guild (gd_refs s (pl_guid me)) = 0")
      (simp_all add: HandleGuildBankLog_def keeps_fine)
  have f: "held (snd (fold (\<lambda>i (bs, x).
             let right = GetBankRights rank (of_nat i) (fst x); (rem, x) = GetMemberSlotWithdrawRem env low (of_nat i) x
             in (bs @ enc_u32 right @ enc_u32 rem, x)) is' (bs, x)))" if "held x" for is' bs x rank low
    using that
  proof (induction is' arbitrary: bs x)
    case (Cons i is')
    obtain r y where g: "GetMemberSlotWithdrawRem env low (of_nat i) x = (r, y)" by (meson surj_pair)
    show ?case using Cons.IH[OF held_slot_rem[OF Cons.prems g]] by (simp add: g Let_def)
  qed simp
  show "keeps (HandleGuildBankGetRights env me s)"
    unfolding HandleGuildBankGetRights_def
  proof (intro keeps_fine agree_with_own_guild a)
    fix g assume h: "held (g, s)"
    let ?low = "GUID_LOPART (pl_guid me)" and ?rank = "ri_rank (gd_refs s (pl_guid me))"
    obtain m y where m: "GetMemberMoneyWithdrawRem env ?low (g, s) = (m, y)" by (meson surj_pair)
    obtain bs z where z: "fold (\<lambda>i (bs, x).
             let right = GetBankRights ?rank (of_nat i) (fst x); (rem, x) = GetMemberSlotWithdrawRem env ?low (of_nat i) x
             in (bs @ enc_u32 right @ enc_u32 rem, x)) [0..<GUILD_BANK_MAX_TABS] ([], y) = (bs, z)" by (meson surj_pair)
    have "held z" using f[OF held_money_rem[OF h m], of ?rank ?low "[0..<GUILD_BANK_MAX_TABS]" "[]"] unfolding z by simp
    then have "held (fst z, gdo as (snd z))" for as by simp
    then show "agree (let low = ?low; rank = ?rank; (money, x) = GetMemberMoneyWithdrawRem env low (g, s);
         (bs, x) = fold (\<lambda>i (bs, x).
             let right = GetBankRights rank (of_nat i) (fst x); (rem, x) = GetMemberSlotWithdrawRem env low (of_nat i) x
             in (bs @ enc_u32 right @ enc_u32 rem, x)) [0..<GUILD_BANK_MAX_TABS] ([], x)
     in keep_guild (fst x, gdo [GuSend (pl_guid me) (put (WorldPacket_new MSG_GUILD_PERMISSIONS)
          (enc_u32 rank @ enc_u32 (GetRankRights rank g) @ enc_u32 money @ enc_u8 (gu_PurchasedTabs g) @ bs))] (snd x)))"
      unfolding Let_def[of ?low] Let_def[of ?rank] m Let_def[of "(m, y)"] prod.case z Let_def[of "(bs, z)"] by (intro held_keep)
  qed
qed

lemma held_withdraw:
  assumes "held (g, s)" "MemberMoneyWithdraw env n low (g, s) = (ok, g', s')"
  shows "held (g', s')"
  using quiet_MemberMoneyWithdraw[OF assms(2)] assms(1) held_keys[OF assms(1)] by (simp add: held_def)

lemma keeps_money:
  assumes a: "agree s"
  shows "keeps (HandleGuildBankDeposit env io me s)" "keeps (HandleGuildBankWithdraw env io me s)" "keeps (HandleGuildBankBuyTab env io me s)"
proof -
  show "keeps (HandleGuildBankDeposit env io me s)"
    unfolding HandleGuildBankDeposit_def Let_def
    by (intro keeps_intros a agree_show_money held_ops; simp?)
  show "keeps (HandleGuildBankBuyTab env io me s)"
    unfolding HandleGuildBankBuyTab_def Let_def
    by (intro keeps_intros a held_ops; simp?; intro held_ops; simp?)
  show "keeps (HandleGuildBankWithdraw env io me s)"
    unfolding HandleGuildBankWithdraw_def
  proof (intro keeps_rdg keeps_fine keeps_splits(1) agree_with_own_guild a)
    fix money :: u32 and g
    assume h: "held (g, s)"
    obtain ok g' s' where w: "MemberMoneyWithdraw env money (GUID_LOPART (pl_guid me)) (g, s) = (ok, g', s')"
      by (rule prod_cases3)
    have "held (g', s')" by (rule held_withdraw[OF h w])
    then show "agree (let (ok, g, s) = MemberMoneyWithdraw env money (GUID_LOPART (pl_guid me)) (g, s)
           in if \<not> ok then keep_guild (g, s)
              else
                let s = ModifyMoney (pl_guid me) money s;
                    x = LogBankEvent env GUILD_BANK_LOG_WITHDRAW_MONEY 0 (GUID_LOPART (pl_guid me)) money 0 0 (g, s)
                in show_money env io (pl_guid me) (SendMoneyInfo env (pl_guid me) x))"
      unfolding w Let_def prod.case by (intro keeps_splits agree_show_money held_ops) simp_all
  qed
qed

section \<open>Founding and joining\<close>

lemma field_no_row:
  assumes a: "agree s" and o: "GetPlayer (gd_world s) (player_guid l) \<noteq> None" and f: "ri_guild (gd_refs s (player_guid l)) = 0"
  shows "l \<notin> fst ` set (gd_rows s)"
proof
  assume "l \<in> fst ` set (gd_rows s)"
  then obtain i k where r: "(l, i, k) \<in> set (gd_rows s)" by auto
  obtain g where g: "GetGuildById i s = Some g" by (rule agree_row[OF a r])
  have "consistent (view s)" using a by (simp add: agree_def)
  from row_of_guild[OF this, of l i] r have "map_of (map row_guild (gd_rows s)) l = Some i"
    by (force simp: view_def row_guild_def)
  with agree_field[OF a o] f have "i = 0" by (simp add: guild_of_row_def)
  with agree_guild(5)[OF a g] show False by (simp add: guild_agrees_def book_entry_def)
qed

lemma keeps_accept:
  assumes a: "agree s" and me: "pl_guid me = player_guid low" "GetPlayer (gd_world s) (pl_guid me) = Some me"
  shows "keeps (HandleGuildAcceptOpcode env me s)"
proof -
  have j: "agree (let (ok, g, s) = Guild_AddMember env (pl_guid me) (GetLowestRank g) (g, s)
              in if \<not> ok then s
                 else let (g, s) = LogGuildEvent env GUILD_EVENT_LOG_JOIN_GUILD (GUID_LOPART (pl_guid me)) 0 0 (g, s)
                      in keep_guild (g, tell_guild GE_JOINED [c_str (pl_name me)] g s))"
    if g: "GetGuildById (ri_invited (gd_refs s (pl_guid me))) s = Some g" and f: "ri_guild (gd_refs s (pl_guid me)) = 0" for g
  proof -
    obtain ok g' s' where A: "Guild_AddMember env (pl_guid me) (GetLowestRank g) (g, s) = (ok, g', s')" by (rule prod_cases3)
    show ?thesis
    proof (cases ok)
      case True
      then have T: "ok = True" by simp
      have "held (g', s')"
        using held_join[OF held_own[OF a g] field_no_row[OF a _ f[unfolded me(1)]] A[unfolded T me(1)]] me by simp
      then show ?thesis unfolding A T Let_def prod.case by (intro keeps_splits held_ops) (simp_all add: a)
    next
      case False
      then have k: "skey s' = skey s" using A by (auto simp: Guild_AddMember_def Let_def split: if_splits option.splits)
      show ?thesis using False a agree_skey[OF k] by (simp add: A)
    qed
  qed
  show ?thesis unfolding HandleGuildAcceptOpcode_def
    by (rule keeps_fine) (use a j in \<open>auto simp: Let_def split: option.split\<close>)
qed

lemma keeps_decline:
  assumes "agree s" "ri_guild (gd_refs s (pl_guid me)) = 0"
  shows "keeps (HandleGuildDeclineOpcode me s)"
proof -
  have k: "skey (set_refs (pl_guid me) (\<lambda>r. r\<lparr>ri_invited := 0, ri_guild := 0\<rparr>) s) = skey s"
    using assms(2) by (auto simp: skey_def fun_eq_iff)
  show ?thesis using agree_skey[OF k] assms(1) by (simp add: HandleGuildDeclineOpcode_def keeps_fine)
qed

lemma agree_create:
  assumes a: "agree s" and o: "GetPlayer (gd_world s) (player_guid low) \<noteq> None" "ri_guild (gd_refs s (player_guid low)) = 0"
    and n: "0 < gd_next s" "gd_next s < 0xFFFFFFFE"
    and c: "Guild_Create env (player_guid low) gname (Guild_new j, s) = (ok, g', s')"
  shows "agree (if ok then AddGuild g' s' else s')"
proof (cases "GetGuildByName gname s = None")
  case False
  then show ?thesis using c a by (auto simp: Guild_Create_def)
next
  case True
  let ?i = "gd_next s"
  define g0 where "g0 = (Guild_new j)\<lparr>gu_LeaderGuid := player_guid low, gu_Name := gname, gu_GINFO := '''', gu_MOTD := default_MOTD, gu_BankMoney := 0,
                 gu_PurchasedTabs := 0, gu_Id := ?i, gu_Created := ge_date env\<rparr>"
  define s0 where "s0 = gdo [GuSql (DeleteRanksOf ?i), GuSql (DeleteMembersOf ?i),
                    GuSql (InsertGuild ?i (ge_escape env gname) (GUID_LOPART (player_guid low)) (ge_escape env '''') (ge_escape env default_MOTD)
                      (gu_Emblem g0) (gu_BankMoney g0))]
                 (set_rows (filter (\<lambda>(l, j, k). j \<noteq> ?i)) (s\<lparr>gd_next := ?i + 1\<rparr>))"
  obtain g1 s1 where d: "CreateDefaultGuildRanks env (g0, s0) = (g1, s1)" by force
  have "\<not> gd_next s \<ge> 0xFFFFFFFE" using n(2) by simp
  then have C: "Guild_AddMember env (player_guid low) GR_GUILDMASTER (g1, gdo [GuHook ''OnGuildCreate'' ?i] s1) = (ok, g', s')"
    using c True d[unfolded g0_def s0_def] by (simp add: Guild_Create_def GenerateGuildId_def Let_def)
  have g0: "gkey g0 = (?i, player_guid low, [])" "gu_members g0 = []" by (simp_all add: g0_def gkey_def Guild_new_def)
  have k: "gkey g1 = gkey g0" "skey s1 = skey s0"
    using quietD[OF quiet_CreateDefaultGuildRanks d] g0(2) by simp_all
  then have m1: "gu_members g1 = []" "gu_Id g1 = ?i" "gu_LeaderGuid g1 = player_guid low" using g0 by (simp_all add: gkey_def)
  have fe: "filter (\<lambda>(l, j, k). j \<noteq> ?i) rs = filter (\<lambda>x. fst (snd x) \<noteq> ?i) rs" for rs :: "(u32 \<times> u32 \<times> u32) list"
    by (rule filter_cong) auto
  have s1: "gd_world s1 = gd_world s" "gd_map s1 = gd_map s" "gd_next s1 = ?i + 1"
    "map row_guild (gd_rows s1) = filter (\<lambda>r. snd r \<noteq> ?i) (map row_guild (gd_rows s))"
    "ri_guild (gd_refs s1 h) = ri_guild (gd_refs s h)" for h
    using k(2) by (auto simp: skey_def s0_def fun_eq_iff filter_map row_guild_def comp_def fe)
  obtain d where f: "FillPlayerData env (player_guid low) (gdo [RemovePetitions (player_guid low) 9] (gdo [GuHook ''OnGuildCreate'' ?i] s1)) = Some d"
    using o(1) s1(1) by (auto simp: FillPlayerData_def)
  have ok: "ok" and gv: "gkey g' = (?i, player_guid low, [low])"
    and sv: "gd_world s' = gd_world s1" "gd_map s' = gd_map s1" "gd_next s' = gd_next s1"
      "map row_guild (gd_rows s') = map row_guild (gd_rows s1) @ [(low, ?i)]"
      "\<And>h. ri_guild (gd_refs s' h) = (if h = player_guid low then ?i else ri_guild (gd_refs s1 h))"
    using C o s1(1,5) f m1
    by (auto simp: Guild_AddMember_def Let_def gkey_def UpdateAccountsNumber_def row_guild_def split: if_splits)
  have cv: "consistent (view s)" using a by (simp add: agree_def)
  have nr: "low \<notin> fst ` set (vw_rows (view s))" using field_no_row[OF a o] by (force simp: view_def row_guild_def)
  have nx: "vw_next (view s) = gd_next s" by (simp add: view_def)
  have cc: "consistent (v_create low (view s))"
    by (rule consistent_create[OF cv nr]) (use n in \<open>auto simp: nx\<close>)
  have vw: "view (AddGuild g' s') = v_create low (view s)"
    unfolding view_AddGuild using sv s1 gv o
    by (auto simp: v_create_def v_join_def Let_def view_def gkey_def book_entry_def fun_eq_iff)
  have ids: "\<forall>p \<in> set (sm_set ?i g' m). gu_Id (snd p) = fst p" if "\<forall>p \<in> set m. gu_Id (snd p) = fst p" for m
    using that gv by (induction m) (auto simp: gkey_def)
  have gi: "gu_Id g' = ?i" using gv by (simp add: gkey_def)
  have "\<forall>p \<in> set (gd_map s). gu_Id (snd p) = fst p" using a by (simp add: agree_def)
  from ids[OF this] have "agree (AddGuild g' s')"
    unfolding agree_def vw by (simp add: cc gi sv(2) s1(2))
  then show ?thesis using ok by simp
qed

lemma keeps_create:
  assumes a: "agree s" and me: "pl_guid me = player_guid low" "GetPlayer (gd_world s) (pl_guid me) = Some me"
    and n: "0 < gd_next s" "gd_next s < 0xFFFFFFFE"
  shows "keeps (HandleGuildCreateOpcode env me s)"
  unfolding HandleGuildCreateOpcode_def
proof (intro keeps_rdg a keeps_fine keeps_splits(1))
  fix gname assume f: "\<not> ri_guild (gd_refs s (pl_guid me)) \<noteq> 0"
  obtain ok g' s' where c: "Guild_Create env (pl_guid me) gname (Guild_new (ge_junk env), s) = (ok, g', s')" by (rule prod_cases3)
  show "agree (let (ok, g, s) = Guild_Create env (pl_guid me) gname (Guild_new (ge_junk env), s) in if ok then AddGuild g s else s)"
    using agree_create[OF a _ _ n c[unfolded me(1)]] f me unfolding c by simp
qed

section \<open>Login, logout and deletion\<close>

text \<open>Another world with the same guilds: only who is there may differ.\<close>

lemma agree_world:
  assumes a: "agree s" and w: "\<And>l. GetPlayer w (player_guid l) \<noteq> None \<Longrightarrow> ri_guild (gd_refs s (player_guid l)) = guild_of_row (map row_guild (gd_rows s)) l"
  shows "agree (s\<lparr>gd_world := w\<rparr>)"
  using assms by (simp add: agree_def consistent_def view_def)

lemma load_membership_simps [simp]:
  "gd_map (load_membership h s) = gd_map s" "gd_world (load_membership h s) = gd_world s" "gd_rows (load_membership h s) = gd_rows s"
  "gd_next (load_membership h s) = gd_next s"
  by (auto simp: load_membership_def split: option.split)

lemma load_membership_field:
  "ri_guild (gd_refs (load_membership (player_guid l) s) h) =
     (if h = player_guid l then guild_of_row (map row_guild (gd_rows s)) l else ri_guild (gd_refs s h))"
proof -
  have "map_of (map row_guild rs) l = map_option (\<lambda>r. fst (snd r)) (find (\<lambda>r. fst r = l) rs)" for rs
    by (induction rs) (auto simp: row_guild_def)
  then show ?thesis by (auto simp: load_membership_def guild_of_row_def split: option.split)
qed

lemma agree_login:
  assumes a: "agree s" and w: "\<And>h. h \<noteq> player_guid low \<Longrightarrow> GetPlayer w h \<noteq> None \<Longrightarrow> GetPlayer (gd_world s) h \<noteq> None"
    and me: "pl_guid me = player_guid low"
  shows "agree (guild_login me (s\<lparr>gd_world := w\<rparr>))"
proof -
  let ?h = "player_guid low"
  define s1 where "s1 = load_membership ?h (set_refs ?h (\<lambda>r. r\<lparr>ri_invited := 0\<rparr>) (s\<lparr>gd_world := w\<rparr>))"
  have f: "ri_guild (gd_refs s1 (player_guid l)) = guild_of_row (map row_guild (gd_rows s)) l" if "GetPlayer w (player_guid l) \<noteq> None" for l
    using that w[of "player_guid l"] agree_field[OF a, of l] by (simp add: s1_def load_membership_field)
  have p: "gd_map s1 = gd_map s" "gd_rows s1 = gd_rows s" "gd_next s1 = gd_next s" "gd_world s1 = w" by (simp_all add: s1_def)
  have "vw_guilds (view s1) = vw_guilds (view s)" "vw_rows (view s1) = vw_rows (view s)" "vw_next (view s1) = vw_next (view s)"
    by (simp_all add: view_def p)
  moreover have "vw_field (view s1) (player_guid l) = guild_of_row (vw_rows (view s)) l" if "vw_online (view s1) (player_guid l)" for l
    using that f p by (simp add: view_def)
  ultimately have a1: "agree s1" using a p by (simp add: agree_def consistent_def)
  show ?thesis
  proof (cases "own_guild ?h s1")
    case None
    have z: "ri_guild (gd_refs s1 ?h) = 0"
    proof (rule ccontr)
      assume n: "ri_guild (gd_refs s1 ?h) \<noteq> 0"
      then have "map_of (map row_guild (gd_rows s)) low = Some (ri_guild (gd_refs s1 ?h))"
        by (auto simp: s1_def load_membership_field guild_of_row_def split: option.splits)
      then have "(low, ri_guild (gd_refs s1 ?h)) \<in> set (map row_guild (gd_rows s1))" unfolding p(2) by (rule map_of_SomeD)
      then obtain k where "(low, ri_guild (gd_refs s1 ?h), k) \<in> set (gd_rows s1)" by (auto simp: row_guild_def)
      from agree_row[OF a1 this] None show False by (auto simp: own_guild_def)
    qed
    then show ?thesis using a1 by (simp add: guild_login_def me Let_def s1_def[symmetric])
  next
    case (Some g)
    have "held (g\<lparr>gu_onlinemembers := gu_onlinemembers g + 1\<rparr>, s1)"
      by (rule held_keys[OF held_own_guild[OF a1 Some]]) (simp_all add: gkey_def)
    then show ?thesis using a1 Some
      by (simp add: guild_login_def me Let_def s1_def[symmetric] own_guild_def held_keep)
  qed
qed

lemma agree_logout:
  assumes a: "agree s" and w: "\<And>h. GetPlayer w h \<noteq> None \<Longrightarrow> GetPlayer (gd_world s) h \<noteq> None"
  shows "agree ((guild_logout env me s)\<lparr>gd_world := w\<rparr>)"
proof -
  have "agree (guild_logout env me s) \<and> gd_world (guild_logout env me s) = gd_world s"
  proof (cases "own_guild (pl_guid me) s")
    case None
    then show ?thesis using a by (simp add: guild_logout_def)
  next
    case (Some g)
    obtain g1 s1 where l: "LoadPlayerStatsByGuid (pl_guid me) (g, s) = (g1, s1)" by force
    have h: "held (g1, s1)" using held_ops[of "(g, s)"] held_own_guild[OF a Some] held_quiet[OF _ quiet_money(4)] l by metis
    have s1: "s1 = s" using l by (auto simp: LoadPlayerStatsByGuid_def split: option.splits)
    have "sm_wf (gu_members g1)" using h by (simp add: held_def)
    from held_keys[OF h quiet_UpdateLogoutTime[OF this] refl]
    have "held (UpdateLogoutTime env (pl_guid me) g1, s1)" .
    then show ?thesis using Some l s1
      by (simp add: guild_logout_def Let_def held_keep) (simp add: keep_guild_def Guild_BroadcastEvent_def Guild_BroadcastPacket_def to_members_def)
  qed
  then show ?thesis using w agree_field by (intro agree_world) auto
qed

lemma agree_delete:
  assumes a: "agree s"
  shows "agree (delete_from_guild (player_guid low) s)"
proof (cases "find (\<lambda>r. ucast (fst r) = player_guid low) (gd_rows s)")
  case None
  then show ?thesis using a by (simp add: delete_from_guild_def GetGuildIdFromDB_def)
next
  case (Some r)
  then have r: "r \<in> set (gd_rows s)" "player_guid (fst r) = player_guid low"
    by (auto simp: find_Some_iff player_guid_ucast)
  then have "fst r = low" by simp
  then obtain i k where x: "r = (low, i, k)" by (metis prod.collapse)
  obtain g where g: "GetGuildById i s = Some g" "sm_has low (gu_members g)" by (rule agree_row[OF a r(1)[unfolded x]])
  show ?thesis using Some x a held_del[OF held_own[OF a g(1)] g(2)] g(1)
    by (auto simp: delete_from_guild_def GetGuildIdFromDB_def held_keep split: prod.split option.split)
qed

section \<open>The steps of the server\<close>

text \<open>The handlers of a player's packets, without founding and declining.\<close>

definition guild_handlers :: "guild_env \<Rightarrow> guild_io \<Rightarrow> player \<Rightarrow> guild_server \<Rightarrow> guild_handler list" where
  "guild_handlers env io me s =
     [HandleGuildQueryOpcode me s, HandleGuildInviteOpcode env me s, HandleGuildRemoveOpcode env me s, HandleGuildAcceptOpcode env me s,
      HandleGuildInfoOpcode me s, HandleGuildRosterOpcode env me s, HandleGuildPromoteOpcode env me s, HandleGuildDemoteOpcode env me s,
      HandleGuildLeaveOpcode env me s, HandleGuildDisbandOpcode me s, HandleGuildLeaderOpcode env me s, HandleGuildMOTDOpcode env me s,
      HandleGuildSetPublicNoteOpcode env me s, HandleGuildSetOfficerNoteOpcode env me s, HandleGuildRankOpcode env me s,
      HandleGuildAddRankOpcode env me s, HandleGuildDelRankOpcode env me s, HandleGuildChangeInfoOpcode env me s,
      HandleGuildSaveEmblemOpcode io me s, HandleGuildEventLogOpcode env io me s, HandleGuildBankGetMoneyAmount env me s,
      HandleGuildBankGetRights env me s, HandleGuildBankQuery io me s, HandleGuildBankTabColon env io me s,
      HandleGuildBankDeposit env io me s, HandleGuildBankWithdraw env io me s, HandleGuildBankBuyTab env io me s,
      HandleGuildBankLog env me s]"

inductive guild_step :: "guild_server \<Rightarrow> guild_server \<Rightarrow> bool" where
  packet: "GetPlayer (gd_world s) (player_guid low) = Some me \<Longrightarrow> H \<in> set (guild_handlers env io me s) \<Longrightarrow> H b = (e, Inr s')
     \<Longrightarrow> guild_step s s'"
| found: "GetPlayer (gd_world s) (player_guid low) = Some me \<Longrightarrow> 0 < gd_next s \<Longrightarrow> gd_next s < 0xFFFFFFFE
     \<Longrightarrow> HandleGuildCreateOpcode env me s b = (e, Inr s') \<Longrightarrow> guild_step s s'"
| decline: "GetPlayer (gd_world s) (player_guid low) = Some me \<Longrightarrow> ri_guild (gd_refs s (player_guid low)) = 0
     \<Longrightarrow> HandleGuildDeclineOpcode me s b = (e, Inr s') \<Longrightarrow> guild_step s s'"
| login: "GetPlayer w (player_guid low) = Some me \<Longrightarrow> (\<And>h. h \<noteq> player_guid low \<Longrightarrow> GetPlayer w h \<noteq> None \<Longrightarrow> GetPlayer (gd_world s) h \<noteq> None)
     \<Longrightarrow> guild_step s (guild_login me (s\<lparr>gd_world := w\<rparr>))"
| logout: "GetPlayer (gd_world s) (player_guid low) = Some me \<Longrightarrow> (\<And>h. GetPlayer w h \<noteq> None \<Longrightarrow> GetPlayer (gd_world s) h \<noteq> None)
     \<Longrightarrow> guild_step s ((guild_logout env me s)\<lparr>gd_world := w\<rparr>)"
| deleted: "GetPlayer (gd_world s) (player_guid low) = None \<Longrightarrow> guild_step s (delete_from_guild (player_guid low) s)"

lemma keeps_all:
  assumes a: "agree s" and me: "GetPlayer (gd_world s) (player_guid low) = Some me" and H: "H \<in> set (guild_handlers env io me s)"
  shows "keeps H"
proof -
  have m: "pl_guid me = player_guid low" "GetPlayer (gd_world s) (pl_guid me) = Some me"
    using GetPlayer_guid[OF me] me by simp_all
  show ?thesis
    using H keeps_asks[OF a] keeps_members[OF a] keeps_remove[OF a] keeps_accept[OF a m] keeps_leaving[OF a m] keeps_leadership[OF a]
      keeps_texts[OF a] keeps_ranks[OF a] keeps_emblem[OF a] keeps_bank[OF a] keeps_money[OF a]
    by (auto simp: guild_handlers_def)
qed

lemma guild_keepsD: "keeps H \<Longrightarrow> H b = (e, Inr s) \<Longrightarrow> agree s"
  unfolding keeps_def by (drule spec[of _ b]) simp

lemma guild_step_agree: "guild_step s s' \<Longrightarrow> agree s \<Longrightarrow> agree s'"
proof (induction rule: guild_step.induct)
  case (packet s low me H env io b e s')
  then show ?case using keeps_all guild_keepsD by blast
next
  case (found s low me env b e s')
  then show ?case using keeps_create[of s me low] GetPlayer_guid[OF found(1)] guild_keepsD by metis
next
  case (decline s low me b e s')
  then show ?case using keeps_decline[of s me] GetPlayer_guid[OF decline(1)] guild_keepsD by metis
next
  case (login w low me s)
  then show ?case using agree_login[of s low w me] GetPlayer_guid[OF login(1)] by blast
next
  case (logout s low me w env)
  then show ?case using agree_logout[of s w] by blast
next
  case (deleted s low)
  then show ?case using agree_delete by blast
qed

text \<open>C2: Under the packets of guilds and their banks that return (from players in the world; of a refusal of an
  invitation only from players without a guild, since that of a member breaks the agreement, see
  \<open>declining_leaves_two_guilds\<close>), the founding of guilds while the next guild id is neither 0 nor one of the
  last two, logins, logouts, and the deletion of characters who are not in the world, the three records of
  memberships stay in agreement: every guild is stored under its id, a player has at most one row in
  \<open>guild_member\<close>, the rows of a guild are exactly its members, its leader is a member, and the guild field of
  every player in the world is the guild of his row, 0 without one.\<close>

theorem guild_books_agree:
  assumes "agree s" "guild_step\<^sup>*\<^sup>* s s'"
  shows "agree s'"
  using assms(2,1) by (induction rule: rtranclp_induct) (auto intro: guild_step_agree)

subsection \<open>A server for examples\<close>

definition test_guild_env :: guild_env where
  "test_guild_env = \<lparr>ge_now = 120000, ge_date = (1, 2, 2008), ge_escape = (\<lambda>t. t), ge_norm = Some, ge_character = (\<lambda>_. None),
     ge_db_zone = (\<lambda>_. 0), ge_account = (\<lambda>_. 1), ge_db_side = (\<lambda>_. ALLIANCE), ge_two_side_guild = False,
     ge_rank_names = [''Master'', ''Officer'', ''Veteran'', ''Member'', ''Initiate''], ge_max_level = 255, ge_days = (\<lambda>_. []),
     ge_junk = \<lparr>ju_bankloaded = False, ju_eventlogloaded = False, ju_onlinemembers = 0, ju_LogMaxGuid = 0, ju_EventMaxGuid = 0, ju_rem = 0\<rparr>\<rparr>"

definition test_guild_io :: guild_io where
  "test_guild_io = \<lparr>gi_near = (\<lambda>_. True), gi_feigning = False, gi_events = [], gi_bank_events = [], gi_has_tabs = True, gi_tab = (\<lambda>_. False)\<rparr>"

definition no_guilds :: guild_server where
  "no_guilds = \<lparr>gd_world = test_world, gd_refs = (\<lambda>_. \<lparr>ri_guild = 0, ri_rank = 0, ri_invited = 0\<rparr>), gd_money = (\<lambda>_. 2000000),
     gd_map = [], gd_next = 1, gd_rows = [], gd_log = []\<rparr>"

abbreviation Ann :: player where "Ann \<equiv> test_player 1 ''Ann''"
abbreviation Bob :: player where "Bob \<equiv> test_player 2 ''Bob''"

text \<open>Ann founds a guild; Bob is invited and accepts.\<close>

definition packet_of :: "u8 list \<Rightarrow> byte_buffer" where
  "packet_of bs = \<lparr>storage = bs, rpos = 0, wpos = 0\<rparr>"

definition one_guild :: guild_server where
  "one_guild = (let (ok, g, s) = Guild_Create test_guild_env 1 ''Knights'' (Guild_new (ge_junk test_guild_env), no_guilds) in AddGuild g s)"

definition bob_invited :: guild_server where
  "bob_invited = invite_to_guild test_guild_env Ann ''Bob'' (Some Bob) one_guild"

definition two_members :: guild_server where
  "two_members = (case snd (HandleGuildAcceptOpcode test_guild_env Bob bob_invited (packet_of [])) of Inl e \<Rightarrow> no_guilds | Inr s \<Rightarrow> s)"

lemma rdg_string: "no_nul t \<Longrightarrow> ahead b (enc_string t) \<Longrightarrow> rdg read_string s k b = k t (advance (length t + 1) b)"
  by (simp add: rdg_def read_string_def read_string_loop_ahead)

lemma ahead_packet_of: "length bs + length cs < 2 ^ 63 \<Longrightarrow> ahead (packet_of (bs @ cs)) bs"
  by (simp add: ahead_def packet_of_def)

lemma rdg_packet_string:
  assumes "no_nul t" "length t < 1000"
  shows "rdg read_string s k (packet_of (enc_string t)) = k t (advance (length t + 1) (packet_of (enc_string t)))"
  using rdg_string[OF assms(1) ahead_packet_of[of "enc_string t" "[]", simplified]] assms(2) by (simp add: length_encs)

lemma founded_one_guild: "HandleGuildCreateOpcode test_guild_env Ann no_guilds (packet_of (enc_string ''Knights'')) = (None, Inr one_guild)"
proof -
  have c: "fst (Guild_Create test_guild_env 1 ''Knights'' (Guild_new (ge_junk test_guild_env), no_guilds))" by code_simp
  have n: "no_nul ''Knights''" "ri_guild (gd_refs no_guilds 1) = 0" "pl_guid Ann = 1" by (simp_all add: no_nul_def no_guilds_def test_player_def)
  show ?thesis
    unfolding HandleGuildCreateOpcode_def rdg_packet_string[OF n(1), simplified] one_guild_def n(3)
    using c n(2) by (simp add: Let_def split_beta)
qed

lemma keep_guild_world [simp]: "gd_world (keep_guild x) = gd_world (snd x)" "gd_rows (keep_guild x) = gd_rows (snd x)" "gd_refs (keep_guild x) = gd_refs (snd x)"
  "gd_money (keep_guild x) = gd_money (snd x)"
  by (cases x, simp add: keep_guild_def)+

lemma Guild_Create_world:
  assumes "Guild_Create env h n (Guild_new j, s) = (ok, g', s')"
  shows "gd_world s' = gd_world s"
proof -
  have c: "gd_world s1 = gd_world s0" if "CreateDefaultGuildRanks env (g0, s0) = (g1, s1)" "gu_members g0 = []" for g0 s0 g1 s1
    using quietD(2)[OF quiet_CreateDefaultGuildRanks that(1)] that(2) by (simp add: skey_def)
  have a: "gd_world s2 = gd_world s1" if "Guild_AddMember env h k (g1, s1) = (ok, g2, s2)" for k g1 s1 ok g2 s2
    using that by (auto simp: Guild_AddMember_def Let_def split: if_splits option.splits)
  have m: "gu_members (Guild_new j) = []" by (simp add: Guild_new_def)
  show ?thesis using assms
    by (auto simp: Guild_Create_def GenerateGuildId_def Let_def m dest!: a c split: if_splits prod.splits)
qed

lemma one_guild_world: "gd_world one_guild = test_world"
  using Guild_Create_world[of test_guild_env 1 "''Knights''" "ge_junk test_guild_env" no_guilds]
  by (cases "Guild_Create test_guild_env 1 ''Knights'' (Guild_new (ge_junk test_guild_env), no_guilds)")
    (simp add: one_guild_def no_guilds_def)

lemma invite_world: "gd_world (invite_to_guild env me name t s) = gd_world s"
  by (auto simp: invite_to_guild_def Let_def SendGuildCommandResult_def LogGuildEvent_def split: option.split)

lemma test_players: "GetPlayer test_world 1 = Some Ann" "GetPlayer test_world 2 = Some Bob" "FindPlayerByName test_world ''Bob'' False = Some Bob"
  "pl_guid Ann = 1" "pl_guid Bob = 2" "player_guid 1 = 1" "player_guid 2 = 2"
  by (simp_all add: FindPlayer_def GetObjectInWorld_def FindPlayerByName_def test_world_def test_player_def c_str_def player_guid_ucast)

lemma invited_bob: "HandleGuildInviteOpcode test_guild_env Ann one_guild (packet_of (enc_string ''Bob'')) = (None, Inr bob_invited)"
proof -
  have n: "no_nul ''Bob''" by (simp add: no_nul_def)
  have e: "ge_norm test_guild_env = Some" by (simp add: test_guild_env_def)
  show ?thesis
    unfolding HandleGuildInviteOpcode_def rdg_packet_string[OF n, simplified]
    by (simp add: bob_invited_def one_guild_world test_players e)
qed

lemma accepted_bob: "HandleGuildAcceptOpcode test_guild_env Bob bob_invited (packet_of []) = (None, Inr two_members)"
  by (simp add: two_members_def HandleGuildAcceptOpcode_def)

lemma no_guilds_agree: "agree no_guilds"
  by (simp add: agree_def consistent_def view_def no_guilds_def guild_of_row_def)

lemma one_guild_step: "guild_step no_guilds one_guild"
  by (rule guild_step.found[of _ 1 Ann, OF _ _ _ founded_one_guild]) (simp_all add: no_guilds_def test_players)

lemma bob_invited_step: "guild_step one_guild bob_invited"
  by (rule guild_step.packet[of one_guild 1 Ann "HandleGuildInviteOpcode test_guild_env Ann one_guild" test_guild_env test_guild_io, OF _ _ invited_bob]) (simp_all add: one_guild_world test_players guild_handlers_def)

lemma bob_invited_world: "gd_world bob_invited = test_world"
  by (simp add: bob_invited_def invite_world one_guild_world)

lemma two_members_step: "guild_step bob_invited two_members"
  by (rule guild_step.packet[of bob_invited 2 Bob "HandleGuildAcceptOpcode test_guild_env Bob bob_invited" test_guild_env test_guild_io, OF _ _ accepted_bob]) (simp_all add: bob_invited_world test_players guild_handlers_def)

lemma two_members_reached: "guild_step\<^sup>*\<^sup>* no_guilds two_members"
  using one_guild_step bob_invited_step two_members_step by (meson rtranclp.rtrancl_into_rtrancl rtranclp.rtrancl_refl)

lemma two_members_rows: "gd_rows two_members = [(1, 1, 0), (2, 1, 4)]"
  by code_simp

theorem guild_books_agree_witness:
  "agree two_members \<and> gd_rows two_members = [(1, 1, 0), (2, 1, 4)]"
  using guild_books_agree[OF no_guilds_agree two_members_reached] two_members_rows by simp

end
