(* ===== verification/GuildMoney.thy ===== *)
theory GuildMoney
  imports GuildLaws
begin

text \<open>
  The money of a guild's bank: the limit of a day, what putting money in and taking it out do to the bank and to the
  purse of the player, and what is lost on the way.
\<close>

section \<open>The limit of a day\<close>

text \<open>What moves the money of a bank: requests of members at their times (\<open>MemberMoneyWithdraw\<close>), deposits
  (\<open>HandleGuildBankDeposit\<close> adds to the bank), and the saving of a rank, changed or not, which
  sets its limit and the counters of its members back (\<open>HandleGuildRankOpcode\<close>). The result lists the amounts
  that were granted.\<close>

datatype bank_action = Take guild_env u32 u32 | Put u32 | Save u32 u32     \<comment> \<open>time, amount, member; amount; rank, limit\<close>

fun bank_run :: "bank_action list \<Rightarrow> guild \<times> guild_server \<Rightarrow> (u32 \<times> u32) list \<times> guild \<times> guild_server" where
  "bank_run [] x = ([], x)"
| "bank_run (Take env amount low # rs) x =
     (let (ok, x) = MemberMoneyWithdraw env amount low x; (gs, x) = bank_run rs x
      in ((if ok then (low, amount) # gs else gs), x))"
| "bank_run (Put amount # rs) x = bank_run rs (SetBankMoney (gu_BankMoney (fst x) + ucast amount) x)"
| "bank_run (Save rank money # rs) x = bank_run rs (SetBankMoneyPerDay rank money x)"

fun put_in :: "bank_action list \<Rightarrow> nat" where
  "put_in [] = 0"
| "put_in (Put amount # rs) = unat amount + put_in rs"
| "put_in (a # rs) = put_in rs"

text \<open>The limits that were saved for a rank, added up.\<close>

fun saved_limits :: "u32 \<Rightarrow> bank_action list \<Rightarrow> nat" where
  "saved_limits rank [] = 0"
| "saved_limits rank (Save k money # rs) = (if k = rank then unat money else 0) + saved_limits rank rs"
| "saved_limits rank (a # rs) = saved_limits rank rs"

text \<open>An action in the 1440 minutes from \<open>t\<close> that leaves the rank a limit.\<close>

fun in_day :: "nat \<Rightarrow> u32 \<Rightarrow> bank_action \<Rightarrow> bool" where
  "in_day t rank (Take env amount low) \<longleftrightarrow> t \<le> unat (minutes env) \<and> unat (minutes env) \<le> t + 1440"
| "in_day t rank (Put amount) \<longleftrightarrow> True"
| "in_day t rank (Save k money) \<longleftrightarrow> (k = rank \<longrightarrow> money \<noteq> WITHDRAW_MONEY_UNLIMITED)"

definition granted_to :: "u32 \<Rightarrow> (u32 \<times> u32) list \<Rightarrow> nat" where
  "granted_to low gs = sum_list (map (unat \<circ> snd) (filter (\<lambda>p. fst p = low) gs))"

text \<open>What a member can take in the 1440 minutes from \<open>t\<close>: what is left if the counter was set in that time, the limit
  if it is older than a day, otherwise what is left until it is set and the limit then.\<close>

definition day_allowance :: "u32 \<Rightarrow> nat \<Rightarrow> guild_member \<Rightarrow> nat" where
  "day_allowance limit t m =
     (if t \<le> unat (mb_BankResetTimeMoney m) then unat (mb_BankRemMoney m)
      else if unat (mb_BankResetTimeMoney m) + 1440 < t then unat limit
      else unat (mb_BankRemMoney m) + unat limit)"

definition counted :: "u32 \<Rightarrow> nat \<Rightarrow> u32 \<Rightarrow> u32 \<Rightarrow> guild \<Rightarrow> bool" where
  "counted low t rank limit g \<longleftrightarrow> rank \<noteq> GR_GUILDMASTER \<and> GetBankMoneyPerDay rank g = limit \<and> limit \<noteq> WITHDRAW_MONEY_UNLIMITED
     \<and> t < 2 ^ 31 \<and> (\<exists>m. sm_find low (gu_members g) = Some m \<and> mb_RankId m = rank \<and> mb_BankRemMoney m \<noteq> WITHDRAW_MONEY_UNLIMITED
     \<and> unat (mb_BankResetTimeMoney m) \<le> t + 1440)"

lemma sint_neg_64: "sint (x :: u64) < 0 \<longleftrightarrow> 2 ^ 63 \<le> unat x"
proof -
  have "sint x < 0 \<longleftrightarrow> bit (unat x) 63" using bit_last_iff[of x] by (simp add: bit_unsigned_iff)
  also have "\<dots> \<longleftrightarrow> odd (unat x div 2 ^ 63)" by (simp add: bit_iff_odd)
  also have "\<dots> \<longleftrightarrow> 2 ^ 63 \<le> unat x" using unsigned_less[of x, where 'a = nat] by (auto simp: odd_iff_mod_2_eq_one)
  finally show ?thesis .
qed

lemma sint_neg_32: "sint (x :: u32) < 0 \<longleftrightarrow> 2 ^ 31 \<le> unat x"
proof -
  have "sint x < 0 \<longleftrightarrow> bit (unat x) 31" using bit_last_iff[of x] by (simp add: bit_unsigned_iff)
  also have "\<dots> \<longleftrightarrow> odd (unat x div 2 ^ 31)" by (simp add: bit_iff_odd)
  also have "\<dots> \<longleftrightarrow> 2 ^ 31 \<le> unat x" using unsigned_less[of x, where 'a = nat] by (auto simp: odd_iff_mod_2_eq_one)
  finally show ?thesis .
qed

lemma unat_u32_u64: "unat (ucast (a :: u32) :: u64) = unat a"
  by (simp add: unsigned_ucast_eq take_bit_nat_eq_self order_less_trans[OF unsigned_less])

lemma SetBankMoney_taken:
  assumes "gu_BankMoney g < 2 ^ 63" "\<not> gu_BankMoney g < ucast (a :: u32)" "SetBankMoney (gu_BankMoney g - ucast a) (g, s) = (g', s')"
  shows "unat (gu_BankMoney g') + unat a = unat (gu_BankMoney g)" "g' = g\<lparr>gu_BankMoney := gu_BankMoney g - ucast a\<rparr>"
proof -
  let ?x = "gu_BankMoney g - ucast a"
  note u = unat_u32_u64[of a]
  have d: "unat ?x = unat (gu_BankMoney g) - unat a" using assms(2) u by (simp add: unat_sub not_less)
  have "unat ?x < 2 ^ 63" using assms(1) d by (simp add: word_less_nat_alt)
  then have "\<not> sint ?x < 0" by (simp add: sint_neg_64)
  then show "g' = g\<lparr>gu_BankMoney := ?x\<rparr>" using assms(3) by (auto simp: SetBankMoney_def Let_def)
  then show "unat (gu_BankMoney g') + unat a = unat (gu_BankMoney g)"
    using d assms(2) u by (simp add: word_less_nat_alt)
qed

text \<open>The counter as a request finds it, set again when it is older than a day.\<close>

definition renewed :: "guild_env \<Rightarrow> u32 \<Rightarrow> guild_member \<Rightarrow> guild_member" where
  "renewed env limit m = (if minutes env > mb_BankResetTimeMoney m + 1440
     then m\<lparr>mb_BankResetTimeMoney := minutes env, mb_BankRemMoney := limit\<rparr> else m)"

lemma renewed_allowance:
  assumes "t \<le> unat (minutes env)" "unat (minutes env) \<le> t + 1440" "t < 2 ^ 31" "unat (mb_BankResetTimeMoney m) \<le> t + 1440"
  shows "day_allowance limit t (renewed env limit m) \<le> day_allowance limit t m"
    "t \<le> unat (mb_BankResetTimeMoney (renewed env limit m)) + 1440" "unat (mb_BankResetTimeMoney (renewed env limit m)) \<le> t + 1440"
    "mb_RankId (renewed env limit m) = mb_RankId m"
proof -
  have "unat (mb_BankResetTimeMoney m + 1440) = unat (mb_BankResetTimeMoney m) + 1440"
    using assms(3,4) by (subst unat_add_lem[THEN iffD1]) simp_all
  then have e: "minutes env > mb_BankResetTimeMoney m + 1440 \<longleftrightarrow> unat (minutes env) > unat (mb_BankResetTimeMoney m) + 1440"
    by (simp add: word_less_nat_alt)
  show "day_allowance limit t (renewed env limit m) \<le> day_allowance limit t m"
    "t \<le> unat (mb_BankResetTimeMoney (renewed env limit m)) + 1440" "unat (mb_BankResetTimeMoney (renewed env limit m)) \<le> t + 1440"
    "mb_RankId (renewed env limit m) = mb_RankId m"
    using assms e by (auto simp: renewed_def day_allowance_def)
qed

lemma money_rem_found:
  assumes "sm_find l (gu_members g) = Some m" "mb_RankId m \<noteq> GR_GUILDMASTER"
    and "GetMemberMoneyWithdrawRem env l (g, s) = (right, g1, s1)" "limit = GetBankMoneyPerDay (mb_RankId m) g"
  shows "right = mb_BankRemMoney (renewed env limit m)" "sm_find l (gu_members g1) = Some (renewed env limit m)"
  using assms by (auto simp: GetMemberMoneyWithdrawRem_def renewed_def find_on_guild_member Let_def split: if_splits)

lemma money_rem_same:
  assumes "GetMemberMoneyWithdrawRem env l (g, s) = (right, g1, s1)"
  shows "gu_BankMoney g1 = gu_BankMoney g" "gu_Ranks g1 = gu_Ranks g" "k \<noteq> l \<Longrightarrow> sm_find k (gu_members g1) = sm_find k (gu_members g)"
    "sm_find l (gu_members g) = None \<Longrightarrow> right = 0" "sm_find l (gu_members g1) = None \<longleftrightarrow> sm_find l (gu_members g) = None"
  using assms by (auto simp: GetMemberMoneyWithdrawRem_def find_on_guild_member Let_def split: if_splits option.splits)

lemma withdraw_bank:
  assumes "gu_BankMoney g < 2 ^ 63" "MemberMoneyWithdraw env a l (g, s) = (ok, g', s')"
  shows "unat (gu_BankMoney g') + (if ok then unat a else 0) = unat (gu_BankMoney g)" "gu_Ranks g' = gu_Ranks g"
    "k \<noteq> l \<Longrightarrow> sm_find k (gu_members g') = sm_find k (gu_members g)"
proof -
  obtain right g1 s1 where r: "GetMemberMoneyWithdrawRem env l (g, s) = (right, g1, s1)" by (rule prod_cases3)
  obtain g2 s2 where b: "SetBankMoney (gu_BankMoney g1 - ucast a) (g1, s1) = (g2, s2)" by force
  note same = money_rem_same[OF r]
  note w = assms(2)[unfolded MemberMoneyWithdraw_def r b Let_def prod.case]
  have none: "a = 0" if "\<not> right < a" "sm_find l (gu_members g) = None"
    using that same(4) by (simp add: word_gt_0)
  have b2: "unat (gu_BankMoney g2) + unat a = unat (gu_BankMoney g)" "g2 = g1\<lparr>gu_BankMoney := gu_BankMoney g1 - ucast a\<rparr>"
    if "\<not> gu_BankMoney g1 < ucast a"
    using SetBankMoney_taken[of g1 a s1 g2 s2, OF _ that b] assms(1) same(1) by simp_all
  show "unat (gu_BankMoney g') + (if ok then unat a else 0) = unat (gu_BankMoney g)" "gu_Ranks g' = gu_Ranks g"
    "k \<noteq> l \<Longrightarrow> sm_find k (gu_members g') = sm_find k (gu_members g)"
    using w b2 same none by (auto simp: find_on_guild_member split: if_splits option.splits)
qed

lemma below_unlimited: "(x :: u32) \<noteq> 0xFFFFFFFF \<longleftrightarrow> x < 0xFFFFFFFF"
proof -
  have "unat x < 2 ^ 32" using unsigned_less[of x, where 'a = nat] by simp
  then show ?thesis by (auto simp: word_less_nat_alt word_unat_eq_iff)
qed

lemma counted_step:
  assumes c: "counted low t rank limit g" and b: "gu_BankMoney g < 2 ^ 63"
    and t: "t \<le> unat (minutes env)" "unat (minutes env) \<le> t + 1440" and w: "MemberMoneyWithdraw env a l (g, s) = (ok, g', s')"
  shows "counted low t rank limit g'"
    "day_allowance limit t (the (sm_find low (gu_members g'))) + (if ok \<and> l = low then unat a else 0)
     \<le> day_allowance limit t (the (sm_find low (gu_members g)))"
proof -
  obtain m where m: "sm_find low (gu_members g) = Some m" "mb_RankId m = rank" "mb_BankRemMoney m \<noteq> WITHDRAW_MONEY_UNLIMITED"
      "unat (mb_BankResetTimeMoney m) \<le> t + 1440" and k: "rank \<noteq> GR_GUILDMASTER" "GetBankMoneyPerDay rank g = limit"
      "limit \<noteq> WITHDRAW_MONEY_UNLIMITED" "t < 2 ^ 31"
    using c by (auto simp: counted_def)
  note bank = withdraw_bank[OF b w]
  have limit: "GetBankMoneyPerDay rank g' = limit" using k(2) unfolding GetBankMoneyPerDay_def bank(2) .
  have new: "\<exists>m'. sm_find low (gu_members g') = Some m' \<and> mb_RankId m' = rank \<and> mb_BankRemMoney m' \<noteq> WITHDRAW_MONEY_UNLIMITED
      \<and> unat (mb_BankResetTimeMoney m') \<le> t + 1440
      \<and> day_allowance limit t m' + (if ok \<and> l = low then unat a else 0) \<le> day_allowance limit t m"
  proof (cases "l = low")
    case False
    then show ?thesis using bank(3)[of low] m by simp
  next
    case True
    let ?m = "renewed env limit m"
    obtain right g1 s1 where r: "GetMemberMoneyWithdrawRem env l (g, s) = (right, g1, s1)" by (rule prod_cases3)
    obtain g2 s2 where b2: "SetBankMoney (gu_BankMoney g1 - ucast a) (g1, s1) = (g2, s2)" by force
    have mem: "gu_members g2 = gu_members g1" using b2 by (auto simp: SetBankMoney_def Let_def)
    have f: "right = mb_BankRemMoney ?m" "sm_find low (gu_members g1) = Some ?m"
      using money_rem_found[OF _ _ r, of m limit] m k True by simp_all
    note n = renewed_allowance[OF t k(4) m(4), of limit]
    have u: "mb_BankRemMoney ?m \<noteq> WITHDRAW_MONEY_UNLIMITED" using m(3) k(3) by (simp add: renewed_def)
    then have u': "right < WITHDRAW_MONEY_UNLIMITED" using f(1) by (simp add: below_unlimited)
    have left: "unat (mb_BankRemMoney ?m - a) = unat (mb_BankRemMoney ?m) - unat a" "mb_BankRemMoney ?m - a \<noteq> WITHDRAW_MONEY_UNLIMITED"
        "unat a \<le> unat (mb_BankRemMoney ?m)" if "\<not> right < a"
    proof -
      show l: "unat (mb_BankRemMoney ?m - a) = unat (mb_BankRemMoney ?m) - unat a" and "unat a \<le> unat (mb_BankRemMoney ?m)"
        using that f(1) by (simp_all add: unat_sub not_less word_le_nat_alt)
      show "mb_BankRemMoney ?m - a \<noteq> WITHDRAW_MONEY_UNLIMITED"
        using l u' f(1) by (auto simp: word_less_nat_alt)
    qed
    have spent: "day_allowance limit t (?m\<lparr>mb_BankRemMoney := mb_BankRemMoney ?m - a\<rparr>) + unat a \<le> day_allowance limit t m" if "\<not> right < a"
      using left[OF that] n by (auto simp: day_allowance_def split: if_splits)
    show ?thesis
      using w[unfolded MemberMoneyWithdraw_def r b2 Let_def prod.case] True u u' f mem m(2) n spent left
      by (auto simp: find_on_guild_member split: if_splits)
  qed
  then show "counted low t rank limit g'" using k limit by (auto simp: counted_def)
  from new show "day_allowance limit t (the (sm_find low (gu_members g'))) + (if ok \<and> l = low then unat a else 0)
     \<le> day_allowance limit t (the (sm_find low (gu_members g)))" using m(1) by auto
qed

lemma deposit_bank:
  assumes "unat (gu_BankMoney g) + unat a < 2 ^ 63" "SetBankMoney (gu_BankMoney g + ucast (a :: u32)) (g, s) = (g', s')"
  shows "unat (gu_BankMoney g') = unat (gu_BankMoney g) + unat a" "gu_Ranks g' = gu_Ranks g" "gu_members g' = gu_members g"
proof -
  have "unat (gu_BankMoney g + ucast a) = unat (gu_BankMoney g) + unat a"
    using assms(1) unat_u32_u64[of a] by (subst unat_add_lem[THEN iffD1]) simp_all
  then show "unat (gu_BankMoney g') = unat (gu_BankMoney g) + unat a" "gu_Ranks g' = gu_Ranks g" "gu_members g' = gu_members g"
    using assms by (auto simp: SetBankMoney_def Let_def sint_neg_64)
qed

lemma counted_same: "gu_Ranks g' = gu_Ranks g \<Longrightarrow> gu_members g' = gu_members g \<Longrightarrow> counted low t rank limit g' = counted low t rank limit g"
  by (simp add: counted_def GetBankMoneyPerDay_def)

text \<open>Saving the rank lets its members start their day again, with the limit that was saved.\<close>

lemma saved_step:
  assumes c: "counted low t rank limit g" and t: "1440 < t" and m: "k = rank \<longrightarrow> money \<noteq> WITHDRAW_MONEY_UNLIMITED"
    and x: "SetBankMoneyPerDay k money (g, s) = (g', s')"
  shows "\<exists>limit'. counted low t rank limit' g' \<and> gu_BankMoney g' = gu_BankMoney g
    \<and> day_allowance limit' t (the (sm_find low (gu_members g')))
        \<le> day_allowance limit t (the (sm_find low (gu_members g))) + (if k = rank then unat money else 0)"
proof (cases "unat k < length (gu_Ranks g)")
  case False
  then show ?thesis using c x by (auto simp: SetBankMoneyPerDay_def)
next
  case True
  obtain m where m': "sm_find low (gu_members g) = Some m" "mb_RankId m = rank" and nm: "rank \<noteq> GR_GUILDMASTER"
    using c by (auto simp: counted_def)
  have f: "sm_find low (gu_members g') = Some (if k = rank then m\<lparr>mb_BankResetTimeMoney := 0\<rparr> else m)"
      "gu_BankMoney g' = gu_BankMoney g"
    using x True m' by (auto simp: SetBankMoneyPerDay_def Let_def sm_find_def map_of_map on_rank_def comp_def split_beta)
  have l: "GetBankMoneyPerDay rank g' = (if k = rank then money else limit)"
    using x True c nm by (auto simp: SetBankMoneyPerDay_def Let_def GetBankMoneyPerDay_def on_rank_def counted_def nth_list_update word_unat_eq_iff)
  show ?thesis
    using c m m' f l t by (intro exI[of _ "if k = rank then money else limit"]) (auto simp: counted_def day_allowance_def)
qed

text \<open>C14: In the 1440 minutes from \<open>t\<close> a member who is not the leader, and who keeps his rank, gets no more out of the bank
  than the limit of his rank for a day, and what was left of the day before if his counter was set less than a day before \<open>t\<close>, and
  once more the limit for each time that his rank is saved, changed or not: \<open>SetBankMoneyPerDay\<close> sets the
  counters back. The limit is not the unlimited one. The bank has what it had, plus the deposits, minus exactly
  what all members got.\<close>

theorem withdraw_limit:
  assumes "counted low t rank limit g" "1440 < t" "unat (gu_BankMoney g) + put_in rs < 2 ^ 63"
    and "\<forall>a \<in> set rs. in_day t rank a" and "bank_run rs (g, s) = (gs, g', s')"
  shows "granted_to low gs \<le> day_allowance limit t (the (sm_find low (gu_members g))) + saved_limits rank rs
    \<and> unat (gu_BankMoney g') + sum_list (map (unat \<circ> snd) gs) = unat (gu_BankMoney g) + put_in rs"
  using assms
proof (induction rs arbitrary: g s gs limit)
  case Nil
  then show ?case by (simp add: granted_to_def)
next
  case (Cons r rs)
  show ?case
  proof (cases r)
    case (Take env a l)
    obtain ok g1 s1 where w: "MemberMoneyWithdraw env a l (g, s) = (ok, g1, s1)" by (rule prod_cases3)
    obtain gs1 where gs: "bank_run rs (g1, s1) = (gs1, g', s')" "gs = (if ok then (l, a) # gs1 else gs1)"
      using Cons.prems(5) by (auto simp: Take w split: prod.splits)
    have t: "t \<le> unat (minutes env)" "unat (minutes env) \<le> t + 1440" using Cons.prems(4) by (simp_all add: Take)
    have b: "gu_BankMoney g < 2 ^ 63" using Cons.prems(3) by (simp add: word_less_nat_alt)
    note step = counted_step[OF Cons.prems(1) b t w] and bank = withdraw_bank[OF b w]
    have "unat (gu_BankMoney g1) + put_in rs < 2 ^ 63" using bank(1) Cons.prems(3) by (simp add: Take split: if_splits)
    from Cons.IH[OF step(1) Cons.prems(2) this _ gs(1)] Cons.prems(4) step(2) bank(1) show ?thesis
      by (auto simp: gs(2) granted_to_def Take split: if_splits)
  next
    case (Put a)
    obtain g1 s1 where w: "SetBankMoney (gu_BankMoney g + ucast a) (g, s) = (g1, s1)" by force
    have "unat (gu_BankMoney g) + unat a < 2 ^ 63" using Cons.prems(3) by (simp add: Put)
    note d = deposit_bank[OF this w]
    have "counted low t rank limit g1" using Cons.prems(1) counted_same[OF d(2,3)] by simp
    from Cons.IH[OF this Cons.prems(2), of s1 gs] Cons.prems(3-5) d show ?thesis by (simp add: Put w)
  next
    case (Save k money)
    obtain g1 s1 where w: "SetBankMoneyPerDay k money (g, s) = (g1, s1)" by force
    have "k = rank \<longrightarrow> money \<noteq> WITHDRAW_MONEY_UNLIMITED" using Cons.prems(4) by (simp add: Save)
    from saved_step[OF Cons.prems(1,2) this w] obtain limit' where n: "counted low t rank limit' g1" "gu_BankMoney g1 = gu_BankMoney g"
      "day_allowance limit' t (the (sm_find low (gu_members g1)))
        \<le> day_allowance limit t (the (sm_find low (gu_members g))) + (if k = rank then unat money else 0)" by blast
    from Cons.IH[OF n(1) Cons.prems(2), of s1 gs] Cons.prems(3-5) n(2,3) show ?thesis by (auto simp: Save w)
  qed
qed

section \<open>Between the purse and the bank\<close>

text \<open>The purse \<open>p\<close> after \<open>ModifyMoney\<close> with \<open>d\<close>, an \<open>int32\<close> in the code: what is over the limit is lost, the largest
  \<open>int32\<close> passes the limit, and from \<open>2 ^ 31\<close> the amount is negative.\<close>

definition purse_after :: "nat \<Rightarrow> nat \<Rightarrow> nat" where
  "purse_after p d = (if d < 2 ^ 31 - 1 then min (p + d) (2 ^ 31 - 2) else if d = 2 ^ 31 - 1 then p + d else p - (2 ^ 32 - d))"

lemma ModifyMoney_money: "gd_money (ModifyMoney h d s) =
    (gd_money s)(h := (if sint d < 0 then (if gd_money s h > - d then gd_money s h + d else 0)
       else if gd_money s h < MAX_MONEY_AMOUNT - d then gd_money s h + d else MAX_MONEY_AMOUNT))"
  by (simp add: ModifyMoney_def Let_def)

lemma unat_minus_u32: "unat (- d :: u32) = (if d = 0 then 0 else 2 ^ 32 - unat d)"
  using unat_sub_if_size[of 0 d] by (simp add: word_size unat_eq_zero)

lemma purse_change:
  assumes "gd_money s h \<le> MAX_MONEY_AMOUNT"
  shows "unat (gd_money (ModifyMoney h d s) h) = purse_after (unat (gd_money s h)) (unat d)"
proof -
  let ?p = "gd_money s h"
  have p: "unat ?p \<le> 2 ^ 31 - 2" and d: "unat d < 2 ^ 32" using assms unsigned_less[of d, where 'a = nat] by (simp_all add: word_le_nat_alt)
  show ?thesis
  proof (cases "2 ^ 31 \<le> unat d")
    case True
    then have nz: "d \<noteq> 0" by (cases "d = 0") simp_all
    have m: "unat (- d) = 2 ^ 32 - unat d" using nz by (simp add: unat_minus_u32)
    have w: "unat (?p + d) = unat ?p - (2 ^ 32 - unat d)" if "- d < ?p"
    proof -
      have "- d \<le> ?p" using that by (rule order.strict_implies_order)
      from unat_sub[OF this] show ?thesis unfolding m by simp
    qed
    show ?thesis using True m w p by (auto simp: ModifyMoney_money sint_neg_32 purse_after_def word_less_nat_alt)
  next
    case False
    have add: "unat (?p + d) = unat ?p + unat d" using False p by (subst unat_add_lem[THEN iffD1]) simp_all
    have sub: "unat (MAX_MONEY_AMOUNT - d) = (if unat d = 2 ^ 31 - 1 then 2 ^ 32 - 1 else 2 ^ 31 - 2 - unat d)"
    proof (cases "unat d = 2 ^ 31 - 1")
      case True
      then have "d = 0x7FFFFFFF" by (simp add: word_unat_eq_iff)
      then show ?thesis by (simp add: unat_minus_u32)
    next
      case other: False
      then show ?thesis using False by (simp add: unat_sub word_le_nat_alt)
    qed
    show ?thesis using False add sub p by (auto simp: ModifyMoney_money sint_neg_32 purse_after_def word_less_nat_alt)
  qed
qed

lemma purse_paid:
  assumes "gd_money s h \<le> MAX_MONEY_AMOUNT" "\<not> gd_money s h < a"
  shows "unat (gd_money (ModifyMoney h (- a) s) h) + unat a = unat (gd_money s h)"
proof -
  have a: "unat a \<le> unat (gd_money s h)" "unat (gd_money s h) \<le> 2147483646" using assms by (simp_all add: word_less_nat_alt word_le_nat_alt)
  then have "purse_after (unat (gd_money s h)) (unat (- a)) + unat a = unat (gd_money s h)"
  proof (cases "a = 0")
    case False
    then have "0 < unat a" by (simp add: unat_eq_zero zero_less_iff_neq_zero)
    with a False have "unat (- a) = 2 ^ 32 - unat a" "2 ^ 31 - 1 < 2 ^ 32 - unat a" "2 ^ 32 - (2 ^ 32 - unat a) = unat a"
      by (simp_all add: unat_minus_u32)
    with a show ?thesis by (simp add: purse_after_def)
  qed (use a in \<open>simp add: purse_after_def\<close>)
  then show ?thesis using purse_change[OF assms(1), of "- a"] by simp
qed

lemma withdraw_right_given: "HasRankRight rank GR_RIGHT_WITHDRAW_GOLD g"
proof -
  have "\<not> bit (GetRankRights rank g AND GR_RIGHT_WITHDRAW_GOLD) 6" by (simp add: bit_simps)
  moreover have "bit GR_RIGHT_EMPTY 6" by simp
  ultimately show ?thesis unfolding HasRankRight_def by metis
qed

text \<open>Operations that move no money.\<close>

definition till :: "guild \<times> guild_server \<Rightarrow> u64 \<times> u32 \<times> (u32 \<times> guild) list \<times> (guid \<Rightarrow> guild_refs) \<times> (guid \<Rightarrow> u32)" where
  "till = (\<lambda>(g, s). (gu_BankMoney g, gu_Id g, gd_map s, gd_refs s, gd_money s))"

lemma till_server [simp]: "till (g, gdo as s) = till (g, s)" "till (g, Guild_BroadcastPacket p g' s) = till (g, s)"
  by (simp_all add: till_def Guild_BroadcastPacket_def to_members_def)

lemma till_on_member [simp]: "till (on_guild_member low f g, s) = till (g, s)"
  by (simp add: till_def)

lemma till_LogBankEvent [simp]: "till (LogBankEvent env e tab low n st d x) = till x"
  by (cases x) (simp add: till_def LogBankEvent_def Let_def set_item_log_def)

lemma till_MoneyRem: "GetMemberMoneyWithdrawRem env low x = (r, y) \<Longrightarrow> till y = till x"
  by (cases x) (auto simp: GetMemberMoneyWithdrawRem_def Let_def split: if_splits option.splits)

lemma till_SlotRem: "GetMemberSlotWithdrawRem env low tab x = (r, y) \<Longrightarrow> till y = till x"
  by (cases x) (auto simp: GetMemberSlotWithdrawRem_def Let_def split: if_splits option.splits)

lemma till_SendMoneyInfo [simp]: "till (SendMoneyInfo env h x) = till x"
  by (auto simp: SendMoneyInfo_def dest: till_MoneyRem split: prod.split)

lemma till_load_bank_events: "till (fold load_bank_event rows g, s) = till (g, s)"
proof (induction rows arbitrary: g)
  case (Cons r rows)
  have "till (load_bank_event r g, s) = till (g, s)" by (cases r) (simp add: load_bank_event_def till_def set_item_log_def)
  with Cons show ?case by simp
qed simp

lemma till_TabsInfo [simp]: "till (DisplayGuildBankTabsInfo io h x) = till x"
proof -
  have f: "till (g\<lparr>gu_bankloaded := v\<rparr>, s) = till (g, s)" "till (g\<lparr>gu_PurchasedTabs := n\<rparr>, s) = till (g, s)" for g s v n
    by (simp_all add: till_def)
  have "till y = till x" if "LoadGuildBankFromDB rows t x = y" for rows t y
    using that f by (cases x) (auto simp: LoadGuildBankFromDB_def LoadGuildBankEventLogFromDB_def Let_def till_load_bank_events
        split: if_splits)
  then show ?thesis by (simp add: DisplayGuildBankTabsInfo_def split_beta)
qed

lemma till_Content [simp]: "till (DisplayGuildBankContent env io h tab x) = till x"
  by (cases x) (auto simp: DisplayGuildBankContent_def dest: till_SlotRem split: prod.split)

lemma till_Update [simp]: "till (DisplayGuildBankMoneyUpdate x) = till x"
  by (cases x) (simp add: DisplayGuildBankMoneyUpdate_def)

lemma own_after_keep:
  assumes "agree s" "own_guild h s = Some g" "till x = (bank, gu_Id g, gd_map s, gd_refs s, purses)"
  shows "\<exists>g'. own_guild h (keep_guild x) = Some g' \<and> gu_BankMoney g' = bank \<and> gd_money (keep_guild x) = purses"
proof -
  obtain g' s' where x: "x = (g', s')" by force
  have G: "GetGuildById (ri_guild (gd_refs s h)) s = Some g" using assms(2) by (simp add: own_guild_def)
  note a = agree_guild(1,3)[OF assms(1) G]
  have t: "gu_BankMoney g' = bank" "gu_Id g' = gu_Id g" "gd_map s' = gd_map s" "gd_refs s' = gd_refs s" "gd_money s' = purses"
    using assms(3) by (simp_all add: x till_def)
  show ?thesis using a t by (auto simp: x keep_guild_def own_guild_def GetGuildById_def sm.find_put)
qed

lemma own_after_show:
  assumes "agree s" "own_guild h s = Some g" "till x = (bank, gu_Id g, gd_map s, gd_refs s, purses)"
  shows "\<exists>g'. own_guild h (show_money env io h x) = Some g' \<and> gu_BankMoney g' = bank \<and> gd_money (show_money env io h x) = purses"
  unfolding show_money_def by (rule own_after_keep[OF assms(1,2)]) (simp add: assms(3))

lemma till_MemberMoneyWithdraw:
  assumes "gu_BankMoney g < 2 ^ 63" "MemberMoneyWithdraw env a low (g, s) = (ok, g', s')" "sm_has low (gu_members g)"
  shows "ok \<longleftrightarrow> ucast a \<le> gu_BankMoney g \<and> a \<le> fst (GetMemberMoneyWithdrawRem env low (g, s))"
    "till (g', s') = (gu_BankMoney g', gu_Id g, gd_map s, gd_refs s, gd_money s)"
proof -
  obtain right g1 s1 where r: "GetMemberMoneyWithdrawRem env low (g, s) = (right, g1, s1)" by (rule prod_cases3)
  obtain g2 s2 where b: "SetBankMoney (gu_BankMoney g1 - ucast a) (g1, s1) = (g2, s2)" by force
  note same = money_rem_same[OF r] and t = till_MoneyRem[OF r]
  have b2: "gu_Id g2 = gu_Id g1" "gu_members g2 = gu_members g1" "gd_map s2 = gd_map s1" "gd_refs s2 = gd_refs s1" "gd_money s2 = gd_money s1"
    using b by (auto simp: SetBankMoney_def Let_def)
  note w = assms(2)[unfolded MemberMoneyWithdraw_def r b Let_def prod.case]
  show "till (g', s') = (gu_BankMoney g', gu_Id g, gd_map s, gd_refs s, gd_money s)"
    using w b2 t by (auto simp: till_def split: if_splits option.splits)
  have "sm_find low (gu_members g1) \<noteq> None" using assms(3) same(5) by (simp add: sm_has_def)
  then show "ok \<longleftrightarrow> ucast a \<le> gu_BankMoney g \<and> a \<le> fst (GetMemberMoneyWithdrawRem env low (g, s))"
    using w b2(2) same by (auto simp: r not_less split: if_splits option.splits)
qed

lemma rdg_u64_u32:
  assumes "ahead b (enc_u64 x @ enc_u32 y)"
  shows "rdg (read_int False 8) s (\<lambda>go. rdg (read_int False 4) s (k go)) b = k x y (advance 12 b)"
proof -
  have a: "ahead b (enc_u64 x)" "ahead (advance 8 b) (enc_u32 y)"
    using assms by (simp_all add: ahead_append length_encs)
  have "read_int False 8 b = Inr (x, advance 8 b)" by (rule wu64.dec_enc[OF TrueI a(1), unfolded length_encs])
  moreover have "read_int False 4 (advance 8 b) = Inr (y, advance 4 (advance 8 b))"
    by (rule wu32.dec_enc[OF TrueI a(2), unfolded length_encs])
  ultimately show ?thesis by (simp add: rdg_def advance_advance)
qed

lemma own_guild_id:
  assumes "agree s" "own_guild h s = Some g"
  shows "ri_guild (gd_refs s h) \<noteq> 0" "gu_Id g = ri_guild (gd_refs s h)" "own_guild h s = Some g"
  using agree_guild(1,5)[of s "ri_guild (gd_refs s h)" g] assms by (auto simp: own_guild_def guild_agrees_def book_entry_def)

lemma till_ModifyMoney: "till (g, ModifyMoney h d s) = (gu_BankMoney g, gu_Id g, gd_map s, gd_refs s, gd_money (ModifyMoney h d s))"
  by (simp add: till_def)

lemma other_purse: "k \<noteq> h \<Longrightarrow> gd_money (ModifyMoney h d s) k = gd_money s k"
  by (simp add: ModifyMoney_money)

lemma purse_same: "gd_money s' = gd_money s \<Longrightarrow> gd_money (ModifyMoney h d s') = gd_money (ModifyMoney h d s)"
  by (simp add: ModifyMoney_money)

lemma deposit_moves:
  assumes s: "agree s" "own_guild (pl_guid me) s = Some g"
    and m: "gu_BankMoney g < 2 ^ 62" "gd_money s (pl_guid me) \<le> MAX_MONEY_AMOUNT"
    and b: "ahead b (enc_u64 go @ enc_u32 amount)" and h: "HandleGuildBankDeposit env io me s b = (e, Inr s')"
    and a: "a = (if amount \<noteq> 0 \<and> gi_near io go \<and> amount \<le> gd_money s (pl_guid me) then unat amount else 0)"
  shows "\<exists>g'. own_guild (pl_guid me) s' = Some g' \<and> (\<forall>h. h \<noteq> pl_guid me \<longrightarrow> gd_money s' h = gd_money s h)
    \<and> unat (gu_BankMoney g') = unat (gu_BankMoney g) + a \<and> a \<le> unat (gd_money s (pl_guid me))
    \<and> unat (gd_money s' (pl_guid me)) = unat (gd_money s (pl_guid me)) - a"
proof (cases "amount = 0 \<or> \<not> gi_near io go \<or> gd_money s (pl_guid me) < amount")
  case True
  then have "s' = s" using h own_guild_id[OF s]
    unfolding HandleGuildBankDeposit_def rdg_u64_u32[OF b] by (auto simp: with_own_guild_def split: if_splits)
  then show ?thesis using True s(2) a by auto
next
  case False
  let ?new = "gu_BankMoney g + ucast amount" and ?h = "pl_guid me"
  obtain g1 s1 where set: "SetBankMoney ?new (g, s) = (g1, s1)" by force
  have new: "unat ?new = unat (gu_BankMoney g) + unat amount" "\<not> sint ?new < 0"
  proof -
    have "unat (gu_BankMoney g) < 2 ^ 62" "unat amount < 2 ^ 32"
      using m(1) unsigned_less[of amount, where 'a = nat] by (simp_all add: word_less_nat_alt)
    then show n: "unat ?new = unat (gu_BankMoney g) + unat amount"
      by (subst unat_add_lem[THEN iffD1]) (simp_all add: unat_u32_u64)
    with \<open>unat (gu_BankMoney g) < 2 ^ 62\<close> \<open>unat amount < 2 ^ 32\<close> show "\<not> sint ?new < 0" by (simp add: sint_neg_64)
  qed
  have g1: "gu_BankMoney g1 = ?new" "gu_Id g1 = gu_Id g" "gd_map s1 = gd_map s" "gd_refs s1 = gd_refs s" "gd_money s1 = gd_money s"
    using set new(2) by (auto simp: SetBankMoney_def Let_def)
  let ?x = "LogBankEvent env GUILD_BANK_LOG_DEPOSIT_MONEY 0 (GUID_LOPART ?h) amount 0 0 (g1, ModifyMoney ?h (- amount) s1)"
  have "s' = show_money env io ?h ?x"
    using h False own_guild_id[OF s] set unfolding HandleGuildBankDeposit_def rdg_u64_u32[OF b] by (simp add: with_own_guild_def)
  then obtain g' where "own_guild ?h s' = Some g'" "gu_BankMoney g' = ?new" "gd_money s' = gd_money (ModifyMoney ?h (- amount) s)"
    using own_after_show[OF s, of ?x ?new "gd_money (ModifyMoney ?h (- amount) s)" env io] g1 purse_same[OF g1(5)] by (auto simp: till_ModifyMoney)
  moreover have "unat (gd_money (ModifyMoney ?h (- amount) s) ?h) + unat amount = unat (gd_money s ?h)"
    using purse_paid[OF m(2)] False by simp
  moreover have "a = unat amount" using a False by (simp add: not_less)
  ultimately show ?thesis using new(1) other_purse by auto
qed

lemma withdraw_moves:
  assumes s: "agree s" "own_guild (pl_guid me) s = Some g" "sm_has (GUID_LOPART (pl_guid me)) (gu_members g)"
    and m: "gu_BankMoney g < 2 ^ 62" "gd_money s (pl_guid me) \<le> MAX_MONEY_AMOUNT"
    and b: "ahead b (enc_u64 go @ enc_u32 amount)" and h: "HandleGuildBankWithdraw env io me s b = (e, Inr s')"
    and a: "a = (if amount \<noteq> 0 \<and> gi_near io go \<and> ucast amount \<le> gu_BankMoney g
      \<and> amount \<le> fst (GetMemberMoneyWithdrawRem env (GUID_LOPART (pl_guid me)) (g, s)) then unat amount else 0)"
  shows "\<exists>g'. own_guild (pl_guid me) s' = Some g' \<and> (\<forall>h. h \<noteq> pl_guid me \<longrightarrow> gd_money s' h = gd_money s h)
    \<and> unat (gu_BankMoney g') = unat (gu_BankMoney g) - a \<and> a \<le> unat (gu_BankMoney g)
    \<and> unat (gd_money s' (pl_guid me)) = purse_after (unat (gd_money s (pl_guid me))) a"
proof -
  let ?h = "pl_guid me" and ?p = "unat (gd_money s (pl_guid me))"
  have none: "purse_after ?p 0 = ?p" using m(2) by (simp add: purse_after_def word_le_nat_alt)
  obtain ok g1 s1 where w: "MemberMoneyWithdraw env amount (GUID_LOPART ?h) (g, s) = (ok, g1, s1)" by (rule prod_cases3)
  have m63: "gu_BankMoney g < 2 ^ 63" using m(1) by (simp add: word_less_nat_alt)
  note t = till_MemberMoneyWithdraw[OF m63 w s(3)] and bank = withdraw_bank(1)[OF m63 w]
  note id = own_guild_id[OF s(1,2)]
  consider (idle) "amount = 0 \<or> \<not> gi_near io go \<or> gu_BankMoney g < ucast amount" | (refused) "amount \<noteq> 0" "gi_near io go" "\<not> gu_BankMoney g < ucast amount" "\<not> ok"
    | (paid) "amount \<noteq> 0" "gi_near io go" "\<not> gu_BankMoney g < ucast amount" ok by blast
  then show ?thesis
  proof cases
    case idle
    then have "s' = s" using h id unfolding HandleGuildBankWithdraw_def rdg_u64_u32[OF b] by (auto simp: with_own_guild_def split: if_splits)
    moreover have "a = 0" using a idle by (auto simp: not_le[symmetric])
    ultimately show ?thesis using s(2) none by simp
  next
    case refused
    then have "s' = keep_guild (g1, s1)"
      using h id w withdraw_right_given unfolding HandleGuildBankWithdraw_def rdg_u64_u32[OF b] by (simp add: with_own_guild_def my_right_def)
    then show ?thesis using own_after_keep[OF s(1,2) t(2)] refused t(1) bank a none by (auto simp: not_less)
  next
    case paid
    let ?x = "SendMoneyInfo env ?h (LogBankEvent env GUILD_BANK_LOG_WITHDRAW_MONEY 0 (GUID_LOPART ?h) amount 0 0 (g1, ModifyMoney ?h amount s1))"
    have k: "gd_map s1 = gd_map s" "gd_refs s1 = gd_refs s" "gd_money s1 = gd_money s" "gu_Id g1 = gu_Id g" using t(2) by (simp_all add: till_def)
    have "s' = show_money env io ?h ?x"
      using h id w paid withdraw_right_given unfolding HandleGuildBankWithdraw_def rdg_u64_u32[OF b] by (simp add: with_own_guild_def my_right_def)
    then obtain g' where "own_guild ?h s' = Some g'" "gu_BankMoney g' = gu_BankMoney g1" "gd_money s' = gd_money (ModifyMoney ?h amount s)"
      using own_after_show[OF s(1,2), of ?x "gu_BankMoney g1" "gd_money (ModifyMoney ?h amount s)" env io] k purse_same[OF k(3)]
      by (auto simp: till_ModifyMoney)
    moreover have "a = unat amount" using a paid t(1) by (simp add: not_less)
    ultimately show ?thesis using purse_change[OF m(2), of amount] other_purse bank paid by auto
  qed
qed

text \<open>C13: Of what a member puts into the bank or takes out nothing gets lost or multiplied on the bank's side, for all bytes of
  the packet: a deposit of at most what the player carries moves exactly the amount, and a withdrawal moves the amount out of the
  bank if the bank has it and the member's limit allows it, whatever the rights of his rank. On the player's side a
  withdrawal loses what exceeds the most he can carry, and from \<open>2 ^ 31\<close> copper on he pays as well.\<close>

theorem bank_money_moves:
  assumes s: "agree s" "GetPlayer (gd_world s) (player_guid low) = Some me" "own_guild (pl_guid me) s = Some g"
    and m: "gu_BankMoney g < 2 ^ 62" "gd_money s (pl_guid me) \<le> MAX_MONEY_AMOUNT"
    and b: "ahead b (enc_u64 go @ enc_u32 amount)"
    and h: "(if out then HandleGuildBankWithdraw env io me s else HandleGuildBankDeposit env io me s) b = (e, Inr s')"
    and a: "a = (if amount \<noteq> 0 \<and> gi_near io go \<and> (if out
       then ucast amount \<le> gu_BankMoney g \<and> amount \<le> fst (GetMemberMoneyWithdrawRem env low (g, s))
       else amount \<le> gd_money s (pl_guid me)) then unat amount else 0)"
  shows "\<exists>g'. own_guild (pl_guid me) s' = Some g' \<and> (\<forall>h. h \<noteq> pl_guid me \<longrightarrow> gd_money s' h = gd_money s h)
    \<and> (if out then unat (gu_BankMoney g') = unat (gu_BankMoney g) - a \<and> a \<le> unat (gu_BankMoney g)
            \<and> unat (gd_money s' (pl_guid me)) = purse_after (unat (gd_money s (pl_guid me))) a
       else unat (gu_BankMoney g') = unat (gu_BankMoney g) + a \<and> a \<le> unat (gd_money s (pl_guid me))
            \<and> unat (gd_money s' (pl_guid me)) = unat (gd_money s (pl_guid me)) - a)"
proof -
  have low: "GUID_LOPART (pl_guid me) = low" "sm_has low (gu_members g)"
    using GetPlayer_guid[OF s(2)] agree_own[OF s(1), of low g] s by simp_all
  show ?thesis
    using deposit_moves[OF s(1,3) m b, of env io e s' a] withdraw_moves[OF s(1,3) _ m b, of env io e s' a] low h a by (cases out) simp_all
qed

lemma two_members_books: "map (\<lambda>(i, g). (i, gu_Id g, map (\<lambda>(l, m). (l, mb_RankId m)) (gu_members g), map rk_BankMoneyPerDay (gu_Ranks g)))
    (gd_map two_members) = [(1, 1, [(1, 0), (2, 4)], [0, 0, 0, 0, 0])]"
  by code_simp

lemma two_members_leader: "map (\<lambda>(i, g). gu_LeaderGuid g) (gd_map two_members) = [1]"
  by code_simp

lemma two_members_refs: "(ri_guild (gd_refs two_members 1), gd_money two_members 1) = (1, 2000000)"
  by code_simp

lemma two_members_world: "gd_world two_members = test_world"
proof -
  have a: "gd_world s2 = gd_world s1" if "Guild_AddMember env h k (g1, s1) = (ok, g2, s2)" for env h k g1 s1 ok g2 s2
    using that by (auto simp: Guild_AddMember_def Let_def split: if_splits option.splits)
  show ?thesis
    by (auto simp: two_members_def HandleGuildAcceptOpcode_def Let_def bob_invited_world LogGuildEvent_def tell_guild_def Guild_BroadcastPacket_def
        to_members_def dest!: a split: option.split prod.split)
qed

lemma two_members_guild:
  obtains g where "gd_map two_members = [(1, g)]" "own_guild 1 two_members = Some g" "gu_Id g = 1"
    "map (\<lambda>(l, m). (l, mb_RankId m)) (gu_members g) = [(1, 0), (2, 4)]" "map rk_BankMoneyPerDay (gu_Ranks g) = [0, 0, 0, 0, 0]"
proof -
  obtain g where "gd_map two_members = [(1, g)]" "gu_Id g = 1" "map (\<lambda>(l, m). (l, mb_RankId m)) (gu_members g) = [(1, 0), (2, 4)]"
      "map rk_BankMoneyPerDay (gu_Ranks g) = [0, 0, 0, 0, 0]"
    using two_members_books by (auto simp: map_eq_Cons_conv)
  with two_members_refs show ?thesis by (intro that[of g]) (simp_all add: own_guild_def GetGuildById_def sm_find_def)
qed

text \<open>A rich bank: the leader, who has 200 gold, takes \<open>2 ^ 32 - 100000\<close> copper out and pays 10 gold for it.\<close>

definition rich_guild :: guild where
  "rich_guild = (case own_guild 1 two_members of None \<Rightarrow> Guild_new (ge_junk test_guild_env) | Some g \<Rightarrow> g\<lparr>gu_BankMoney := 5000000000\<rparr>)"

definition rich_bank :: guild_server where
  "rich_bank = keep_guild (rich_guild, two_members)"

definition withdrawn :: guild_server where
  "withdrawn = (case snd (HandleGuildBankWithdraw test_guild_env test_guild_io Ann rich_bank (packet_of (enc_u64 7 @ enc_u32 4294867296))) of
     Inl e \<Rightarrow> no_guilds | Inr s \<Rightarrow> s)"

lemma two_members_agrees: "agree two_members"
  using rtranclp_induct[of guild_step no_guilds two_members agree] two_members_reached no_guilds_agree guild_step_agree by blast

lemma rich_bank_agrees: "agree rich_bank" "own_guild 1 rich_bank = Some rich_guild" "gd_world rich_bank = test_world" "gd_money rich_bank 1 = 2000000"
    "fst (GetMemberMoneyWithdrawRem env 1 (rich_guild, s)) = WITHDRAW_MONEY_UNLIMITED" "gu_BankMoney rich_guild = 5000000000"
proof -
  obtain g where g: "gd_map two_members = [(1, g)]" "own_guild 1 two_members = Some g" "gu_Id g = 1"
      "map (\<lambda>(l, m). (l, mb_RankId m)) (gu_members g) = [(1, 0), (2, 4)]"
    by (rule two_members_guild)
  then have r: "rich_guild = g\<lparr>gu_BankMoney := 5000000000\<rparr>" by (simp add: rich_guild_def)
  have "held (g, two_members)" by (rule held_own_guild[OF two_members_agrees g(2)])
  then have "held (rich_guild, two_members)" using held_keys[of g two_members rich_guild two_members] by (simp add: r gkey_def)
  then show "agree rich_bank" unfolding rich_bank_def by (rule held_keep)
  show "own_guild 1 rich_bank = Some rich_guild" "gd_world rich_bank = test_world" "gd_money rich_bank 1 = 2000000" "gu_BankMoney rich_guild = 5000000000"
    using g(1,3) two_members_refs
    by (simp_all add: rich_bank_def r keep_guild_def own_guild_def GetGuildById_def sm_find_def sm_has_def two_members_world AddGuild_def set_map_def)
  show "fst (GetMemberMoneyWithdrawRem env 1 (rich_guild, s)) = WITHDRAW_MONEY_UNLIMITED"
    using g(4) by (auto simp: r GetMemberMoneyWithdrawRem_def sm_find_def map_eq_Cons_conv)
qed

theorem bank_money_moves_witness:
  "\<exists>g'. own_guild 1 withdrawn = Some g' \<and> unat (gu_BankMoney g') = 705132704 \<and> unat (gd_money withdrawn 1) = 1900000"
proof -
  let ?b = "packet_of (enc_u64 7 @ enc_u32 4294867296)"
  have b: "ahead ?b (enc_u64 7 @ enc_u32 4294867296)" using ahead_packet_of[of _ "[]"] by (simp add: length_encs)
  have h: "HandleGuildBankWithdraw test_guild_env test_guild_io Ann rich_bank ?b = (None, Inr withdrawn)"
    unfolding withdrawn_def HandleGuildBankWithdraw_def rdg_u64_u32[OF b] by simp
  show ?thesis
    using bank_money_moves[of rich_bank 1 Ann rich_guild ?b 7 4294867296 True test_guild_env test_guild_io None withdrawn 4294867296]
      rich_bank_agrees test_players b h by (auto simp: test_guild_io_def purse_after_def)
qed

text \<open>Two members with 50 gold a day for the second: his first request is granted, the second exceeds the limit; the rank is
  saved as it was, and his third request is granted; after a deposit the leader's is granted.\<close>

definition till_guild :: guild where
  "till_guild = (Guild_new (ge_junk test_guild_env))\<lparr>gu_Id := 1, gu_LeaderGuid := 1, gu_BankMoney := 2000000,
     gu_Ranks := [RankInfo_new ''Master'' GR_RIGHT_ALL 0, RankInfo_new ''Member'' GR_RIGHT_EMPTY 500000],
     gu_members := [(1, new_guild_member test_guild_env 0 (1, ''Ann'', 70, 1, 1)), (2, new_guild_member test_guild_env 1 (2, ''Bob'', 70, 1, 1))]\<rparr>"

definition till_actions :: "bank_action list" where
  "till_actions = [Take test_guild_env 300000 2, Take test_guild_env 300000 2, Save 1 500000, Take test_guild_env 300000 2, Put 100,
     Take test_guild_env 1000000 1]"

lemma till_granted: "fst (bank_run till_actions (till_guild, no_guilds)) = [(2, 300000), (2, 300000), (1, 1000000)]"
  by code_simp

lemma till_counted: "counted 2 2000 1 500000 till_guild"
  by (simp add: counted_def till_guild_def GetBankMoneyPerDay_def RankInfo_new_def sm_find_def new_guild_member_def test_guild_env_def)

theorem withdraw_limit_witness:
  "\<exists>g' s'. bank_run till_actions (till_guild, no_guilds) = ([(2, 300000), (2, 300000), (1, 1000000)], g', s')
    \<and> granted_to 2 [(2, 300000), (2, 300000), (1, 1000000)] \<le> 500000 + 500000 \<and> unat (gu_BankMoney g') + 1600000 = 2000000 + 100"
proof -
  obtain gs g' s' where w: "bank_run till_actions (till_guild, no_guilds) = (gs, g', s')" by (rule prod_cases3)
  then have gs: "gs = [(2, 300000), (2, 300000), (1, 1000000)]" using till_granted by simp
  have a: "day_allowance 500000 2000 (the (sm_find 2 (gu_members till_guild))) = 500000"
    by (simp add: day_allowance_def till_guild_def sm_find_def new_guild_member_def)
  have m: "gu_BankMoney till_guild = 2000000" "minutes test_guild_env = 2000" by (simp_all add: till_guild_def minutes_def test_guild_env_def)
  show ?thesis
    using withdraw_limit[OF till_counted _ _ _ w] a m w gs by (simp add: till_actions_def)
qed

end
