(* ===== verification/GuildRanks.thy ===== *)
theory GuildRanks
  imports GuildMoney
begin

text \<open>
  Ranks, leaders and second memberships: who succeeds a leader, what members of a deleted rank may do, ranks with wrong numbers
  in the table, and how a member becomes one of a second guild.
\<close>

section \<open>The heir\<close>

text \<open>Of the other members the one with the best rank, of several the first in the order of guids.\<close>

definition precedes :: "u32 \<times> guild_member \<Rightarrow> u32 \<times> guild_member \<Rightarrow> bool" where
  "precedes x y \<longleftrightarrow> mb_RankId (snd x) < mb_RankId (snd y) \<or> mb_RankId (snd x) = mb_RankId (snd y) \<and> fst x \<le> fst y"

definition heir_among :: "u32 \<Rightarrow> (u32 \<times> guild_member) list \<Rightarrow> (u32 \<times> guild_member) option \<Rightarrow> bool" where
  "heir_among low ms b = (case b of None \<Rightarrow> \<forall>y \<in> set ms. fst y = low
     | Some x \<Rightarrow> x \<in> set ms \<and> fst x \<noteq> low \<and> (\<forall>y \<in> set ms. fst y \<noteq> low \<longrightarrow> precedes x y))"

lemma heir_among_step:
  assumes "heir_among low pre b" "\<And>y. y \<in> set pre \<Longrightarrow> fst y < fst m"
  shows "heir_among low (pre @ [m]) (if fst m = low then b else case b of None \<Rightarrow> Some m
     | Some b \<Rightarrow> if mb_RankId (snd b) > mb_RankId (snd m) then Some m else Some b)"
proof (cases b)
  case None
  then show ?thesis using assms(1) by (auto simp: heir_among_def precedes_def)
next
  case (Some x)
  note x = assms(1)[unfolded Some heir_among_def option.case]
  show ?thesis
  proof (cases "mb_RankId (snd x) > mb_RankId (snd m)")
    case True
    have "precedes m y" if "precedes x y" for y using that True by (auto simp: precedes_def)
    then show ?thesis using x True by (auto simp: Some heir_among_def) (simp add: precedes_def)
  next
    case False
    then have "precedes x m" using assms(2)[of x] x by (auto simp: precedes_def not_less)
    then show ?thesis using x False by (auto simp: Some heir_among_def)
  qed
qed

lemma best_heir_first:
  assumes "sorted_wrt (<) (map fst (pre @ ms))" "heir_among low pre b"
  shows "heir_among low (pre @ ms) (fold (\<lambda>x best. if fst x = low then best else case best of None \<Rightarrow> Some x
        | Some b \<Rightarrow> if mb_RankId (snd b) > mb_RankId (snd x) then Some x else Some b) ms b)"
  using assms
proof (induction ms arbitrary: pre b)
  case (Cons m ms)
  have "\<And>y. y \<in> set pre \<Longrightarrow> fst y < fst m" using Cons.prems(1) by (auto simp: sorted_wrt_append)
  from Cons.IH[OF _ heir_among_step[OF Cons.prems(2) this]] Cons.prems(1) show ?case by simp
qed simp

lemma best_heir_of:
  assumes "sm_wf ms"
  shows "heir_among low ms (best_heir low ms)"
proof -
  have e: "(case best of None \<Rightarrow> Some x | Some b \<Rightarrow> if mb_RankId (snd b) > mb_RankId (snd x) then Some x else best)
     = (case best of None \<Rightarrow> Some x | Some b \<Rightarrow> if mb_RankId (snd b) > mb_RankId (snd x) then Some x else Some b)" for best and x :: "u32 \<times> guild_member"
    by (cases best) simp_all
  show ?thesis
    using best_heir_first[of "[]" ms low None] assms unfolding best_heir_def e by (simp add: sm_wf_def heir_among_def)
qed

lemma SetLeader_effect:
  assumes "SetLeader (player_guid new) (g, s) = (g', s')" "sm_wf (gu_members g)" "sm_has new (gu_members g)"
  shows "gu_LeaderGuid g' = player_guid new" "gu_Id g' = gu_Id g" "map fst (gu_members g') = map fst (gu_members g)"
    "sm_find k (gu_members g') = (if k = new then map_option (\<lambda>m. m\<lparr>mb_RankId := 0\<rparr>) (sm_find new (gu_members g)) else sm_find k (gu_members g))"
    "gd_rows s' = map (\<lambda>(l, i, r). if l = new then (l, i, 0) else (l, i, r)) (gd_rows s)"
    "gd_world s' = gd_world s" "gd_map s' = gd_map s"
    "GetPlayer (gd_world s) (player_guid new) = None \<or> ri_rank (gd_refs s' (player_guid new)) = 0"
  using assms gkey_on_guild_member[of "g\<lparr>gu_LeaderGuid := player_guid new\<rparr>" new "\<lambda>m. m\<lparr>mb_RankId := 0\<rparr>"]
  by (auto simp: SetLeader_def ChangeRank_def find_on_guild_member gkey_def split: if_splits)

lemma erase_found: "sm_wf ms \<Longrightarrow> sm_find k (sm_erase l ms) = (if k = l then None else sm_find k ms)"
  by (simp add: sm.find_del)

lemma only_key:
  assumes "sm_wf ms" "ms \<noteq> []" "\<forall>x \<in> set ms. fst x = l"
  shows "map fst ms = [l]"
proof (cases ms)
  case (Cons p ps)
  have "ps = []" using assms(1,3) by (cases ps) (auto simp: Cons sm_wf_def)
  then show ?thesis using assms(3) by (simp add: Cons)
qed (use assms in simp)

text \<open>C20: A leader who is removed hands over to another member with the best rank, the one with the lowest guid among those: he leads in
  memory, and has rank 0 in memory, in the table and, when online, in his field; the other members and rows stay as they are. If
  there is no other member the guild is gone, with its rows.\<close>

theorem leader_removed:
  assumes s: "agree s" "GetGuildById i s = Some g" and l: "gu_LeaderGuid g = player_guid l"
    and d: "Guild_DelMember (player_guid l) (g, s) = (og, s')"
  shows "case og of
      None \<Rightarrow> map fst (gu_members g) = [l] \<and> GetGuildById i s' = None \<and> gd_rows s' = filter (\<lambda>r. fst r \<noteq> l) (gd_rows s)
    | Some g' \<Rightarrow> \<exists>new m. heir_among l (gu_members g) (Some (new, m)) \<and> gu_LeaderGuid g' = player_guid new
        \<and> (\<forall>k. sm_find k (gu_members g') = (if k = l then None else if k = new then Some (m\<lparr>mb_RankId := 0\<rparr>) else sm_find k (gu_members g)))
        \<and> gd_rows s' = map (\<lambda>(k, j, r). if k = new then (k, j, 0) else (k, j, r)) (filter (\<lambda>r. fst r \<noteq> l) (gd_rows s))
        \<and> (GetPlayer (gd_world s) (player_guid new) = None \<or> ri_rank (gd_refs s' (player_guid new)) = 0)"
proof -
  have w: "sm_wf (gu_members g)" by (rule agree_guild(2)[OF s])
  have i: "gu_Id g = i" by (rule agree_guild(1)[OF s])
  note heir = best_heir_of[OF w, of l]
  show ?thesis
  proof (cases "best_heir l (gu_members g)")
    case None
    obtain g1 s1 where D: "Guild_Disband (g, s) = (g1, s1)" by force
    have og: "og = None" "s' = s1" using d l by (simp_all add: Guild_DelMember_def None D)
    have only: "\<forall>x \<in> set (gu_members g). fst x = l" using heir None by (simp add: heir_among_def)
    obtain k where "sm_has k (gu_members g)" by (rule held_leader[OF held_own[OF s]])
    then have "gu_members g \<noteq> []" by (auto simp: sm_has_iff)
    then have "map fst (gu_members g) = [l]" by (rule only_key[OF w _ only])
    moreover have "sm_has k (gu_members g) \<longleftrightarrow> k = l" for k using calculation by (auto simp: sm_has_iff map_eq_Cons_conv)
    moreover have "GetGuildById i s' = None" using Disband_effect(3)[OF D] og i s(1)
      by (simp add: GetGuildById_def erase_found agree_def consistent_def view_def sm_wf_map_snd)
    ultimately show ?thesis using Disband_effect(7)[OF D] og by simp
  next
    case (Some x)
    obtain new m where x: "x = (new, m)" by force
    note h = heir[unfolded Some x heir_among_def, simplified]
    obtain g1 s1 where L: "SetLeader (player_guid new) (g, s) = (g1, s1)" by force
    have f: "sm_find new (gu_members g) = Some m" using h w by (simp add: sm_find_in_set)
    have "sm_has new (gu_members g)" using f by (simp add: sm_has_def)
    note E = SetLeader_effect[OF L w this]
    obtain s3 where D: "erase_guild_member (player_guid l) (g1, s3) = (the og, s')" and og: "og \<noteq> None"
      and s3: "gd_rows s3 = gd_rows s1" "gd_world s3 = gd_world s1" "ri_rank (gd_refs s3 (player_guid new)) = ri_rank (gd_refs s1 (player_guid new))
        \<or> ri_rank (gd_refs s3 (player_guid new)) = 0"
      using d l by (auto simp: Guild_DelMember_def Some x player_guid_ucast[symmetric] L Let_def Guild_BroadcastEvent_def
          Guild_BroadcastPacket_def to_members_def split: prod.splits option.splits)
    note e = erase_effect[OF D]
    have "player_guid new \<noteq> player_guid l" using h by (simp add: player_guid_eq)
    then have "GetPlayer (gd_world s) (player_guid new) = None \<or> ri_rank (gd_refs s' (player_guid new)) = 0"
      using e(8)[of "player_guid new"] s3(3) E(8) by auto
    moreover have "gd_rows s' = map (\<lambda>(k, j, r). if k = new then (k, j, 0) else (k, j, r)) (filter (\<lambda>r. fst r \<noteq> l) (gd_rows s))"
      by (simp add: e(6) s3(1) E(5) filter_map comp_def split_beta if_distrib cong: if_cong)
    moreover have "sm_find k (gu_members (the og)) = (if k = l then None else if k = new then Some (m\<lparr>mb_RankId := 0\<rparr>) else sm_find k (gu_members g))" for k
    proof -
      have "sm_wf (gu_members g1)" using w E(3) by (simp add: sm_wf_def)
      then show ?thesis using e(1) E(4) f by (simp add: erase_found)
    qed
    moreover have "gu_LeaderGuid (the og) = player_guid new" using e(1) E(1) by simp
    ultimately show ?thesis using heir og Some x by auto
  qed
qed

theorem leader_removed_witness:
  "\<exists>g g' s'. GetGuildById 1 two_members = Some g \<and> Guild_DelMember (player_guid 1) (g, two_members) = (Some g', s') \<and> gu_LeaderGuid g' = player_guid 2"
proof -
  obtain g where g: "gd_map two_members = [(1, g)]" "map (\<lambda>(l, m). (l, mb_RankId m)) (gu_members g) = [(1, 0), (2, 4)]"
    by (rule two_members_guild)
  obtain og s' where d: "Guild_DelMember (player_guid 1) (g, two_members) = (og, s')" by force
  have G: "GetGuildById 1 two_members = Some g" by (simp add: GetGuildById_def g(1) sm_find_def)
  have "gu_LeaderGuid g = player_guid 1" using two_members_leader by (simp add: g(1) test_players)
  from leader_removed[OF two_members_agrees G this d] g(2)
  obtain g' where "og = Some g'" "gu_LeaderGuid g' = player_guid 2"
    by (cases og) (auto simp: heir_among_def map_eq_Cons_conv)
  with G d show ?thesis by blast
qed

section \<open>Ranks with wrong numbers\<close>

fun wrong_numbers :: "nat \<Rightarrow> rank_row list \<Rightarrow> bool" where
  "wrong_numbers k [] = False"
| "wrong_numbers k ((i, rid, r) # rows) = (unat rid \<noteq> k + 1 \<or> wrong_numbers (k + 1) rows)"

fun ranks_of :: "bool \<Rightarrow> rank_row list \<Rightarrow> rank_info list" where
  "ranks_of master [] = []"
| "ranks_of master ((i, rid, name, rights, money) # rows) =
     RankInfo_new name (if master then rights OR GR_RIGHT_ALL else rights) money # ranks_of False rows"

definition rows_end :: "u32 \<Rightarrow> rank_row list \<Rightarrow> bool" where
  "rows_end i rest \<longleftrightarrow> rest = [] \<or> i < fst (hd rest)"

lemma load_rank_rows_own:
  assumes "\<forall>r \<in> set mine. fst r = gu_Id g" "rows_end (gu_Id g) rest"
  shows "load_rank_rows (mine @ rest) broken (g, s) =
    (rest, broken \<or> wrong_numbers (length (gu_Ranks g)) mine, g\<lparr>gu_Ranks := gu_Ranks g @ ranks_of (gu_Ranks g = []) mine\<rparr>, s)"
  using assms
proof (induction mine arbitrary: broken g)
  case Nil
  then show ?case by (cases rest) (auto simp: rows_end_def)
next
  case (Cons r mine)
  obtain i rid name rights money where r: "r = (i, rid, name, rights, money)" by (cases r)
  let ?g = "AddRank name (if gu_Ranks g = [] then rights OR GR_RIGHT_ALL else rights) money g"
  have g: "gu_Id ?g = gu_Id g" "length (gu_Ranks ?g) = length (gu_Ranks g) + 1" "gu_Ranks ?g \<noteq> []" by (simp_all add: AddRank_def)
  show ?case
    using Cons.IH[of ?g] Cons.prems g by (simp add: r Let_def) (simp add: AddRank_def disj_assoc)
qed

lemma length_ranks_of [simp]: "length (ranks_of f rows) = length rows"
  by (induction f rows rule: ranks_of.induct) simp_all

text \<open>The table of ranks under the statements of a repair: a row that is inserted has no money for a day.\<close>

fun rank_table :: "(string \<Rightarrow> string) \<Rightarrow> guild_action list \<Rightarrow> rank_row list \<Rightarrow> rank_row list" where
  "rank_table unescape [] t = t"
| "rank_table unescape (GuSql (DeleteRanksOf i) # as) t = rank_table unescape as (filter (\<lambda>r. fst r \<noteq> i) t)"
| "rank_table unescape (GuSql (InsertRank i rid name rights) # as) t = rank_table unescape as (t @ [(i, rid, unescape name, rights, 0)])"
| "rank_table unescape (a # as) t = rank_table unescape as t"

lemma rank_table_inserts:
  "rank_table u (map (\<lambda>i. GuSql (InsertRank j (f i) (n i) (r i))) xs) t = t @ map (\<lambda>i. (j, f i, u (n i), r i, 0)) xs"
  by (induction xs arbitrary: t) simp_all

definition repair_statements :: "guild_env \<Rightarrow> u32 \<Rightarrow> rank_info list \<Rightarrow> guild_action list" where
  "repair_statements env i ks = GuSql (DeleteRanksOf i) #
     map (\<lambda>k. GuSql (InsertRank i (of_nat k) (ge_escape env (rk_Name (ks ! k))) (rk_Rights (ks ! k)))) [0..<length ks]"

lemma load_ranks_wrong:
  assumes "gu_Ranks g = []" "\<forall>r \<in> set mine. fst r = gu_Id g" "rows_end (gu_Id g) rest" "5 \<le> length mine" "wrong_numbers 0 mine"
  shows "LoadRanksFromDB env (mine @ rest) (g, s) =
    (rest, g\<lparr>gu_Ranks := ranks_of True mine\<rparr>, gdo (repair_statements env (gu_Id g) (ranks_of True mine)) s)"
  using assms load_rank_rows_own[OF assms(2,3), of False s]
  by (simp add: LoadRanksFromDB_def repair_ranks_def repair_statements_def)

lemma ranks_of_same:
  "ranks_of False (map (\<lambda>x. (i, f x, n x, r x, 0)) xs) = map (\<lambda>x. RankInfo_new (n x) (r x) 0) xs"
  by (induction xs) simp_all

lemma map_upt_nth: "map (\<lambda>k. f (xs ! k)) [0..<length xs] = map f xs"
  by (rule nth_equalityI) simp_all

lemma master_rights: "mine \<noteq> [] \<Longrightarrow> rk_Rights (ranks_of True mine ! 0) OR GR_RIGHT_ALL = rk_Rights (ranks_of True mine ! 0)"
  by (cases mine) (auto simp: RankInfo_new_def or.assoc)

text \<open>C38: Ranks whose numbers in the table are not 1, 2 and so on are loaded in the order of the rows and written again with the numbers
  0, 1 and so on, which are wrong again: the next start of the server finds the same names and rights, no money for a day for
  any rank, and repairs the table with the same statements, at every start.\<close>

theorem rank_repair_never_ends:
  assumes esc: "\<forall>t. unescape (ge_escape env t) = t"
    and g: "gu_Ranks g = []" "\<forall>r \<in> set mine. fst r = gu_Id g" "rows_end (gu_Id g) rest" "5 \<le> length mine" "wrong_numbers 0 mine"
    and l1: "LoadRanksFromDB env (mine @ rest) (g, s) = (rest1, g1, s1)" "gd_log s1 = gd_log s @ acts"
    and g': "gu_Id g' = gu_Id g" "gu_Ranks g' = []"
    and l2: "LoadRanksFromDB env (rank_table unescape acts mine @ rest) (g', s') = (rest2, g2, s2)"
  shows "gu_Ranks g1 = ranks_of True mine \<and> rest1 = rest \<and> rest2 = rest
    \<and> map (\<lambda>k. (rk_Name k, rk_Rights k)) (gu_Ranks g2) = map (\<lambda>k. (rk_Name k, rk_Rights k)) (gu_Ranks g1)
    \<and> (\<forall>k \<in> set (gu_Ranks g2). rk_BankMoneyPerDay k = 0) \<and> gd_log s2 = gd_log s' @ acts"
proof -
  let ?ks = "ranks_of True mine" and ?n = "length mine" and ?i = "gu_Id g"
  note first = load_ranks_wrong[OF g, of env s]
  have acts: "acts = repair_statements env ?i ?ks" using l1 first by auto
  let ?row = "\<lambda>k. (?i, of_nat k :: u32, rk_Name (?ks ! k), rk_Rights (?ks ! k), 0 :: u32)"
  have t: "rank_table unescape acts mine = map ?row [0..<?n]"
    using g(2) esc by (simp add: acts repair_statements_def rank_table_inserts filter_empty_conv)
  have ne: "mine \<noteq> []" using g(4) by auto
  have n: "[0..<?n] = 0 # [1..<?n]" using ne upt_conv_Cons[of 0 ?n] by simp
  have "wrong_numbers 0 (map ?row [0..<?n])" by (simp add: n)
  then have second: "LoadRanksFromDB env (rank_table unescape acts mine @ rest) (g', s') =
      (rest, g'\<lparr>gu_Ranks := ranks_of True (map ?row [0..<?n])\<rparr>, gdo (repair_statements env ?i (ranks_of True (map ?row [0..<?n]))) s')"
    using load_ranks_wrong[of g' "map ?row [0..<?n]" rest env s'] g g' by (auto simp: t)
  have "ranks_of True (map ?row [0..<?n]) = map (\<lambda>k. RankInfo_new (rk_Name (?ks ! k)) (rk_Rights (?ks ! k)) 0) [0..<?n]"
    using master_rights[OF ne] by (simp add: n ranks_of_same)
  then have again: "ranks_of True (map ?row [0..<?n]) = map (\<lambda>k. RankInfo_new (rk_Name k) (rk_Rights k) 0) ?ks"
    using map_upt_nth[of "\<lambda>k. RankInfo_new (rk_Name k) (rk_Rights k) 0" ?ks] by simp
  have "repair_statements env ?i (ranks_of True (map ?row [0..<?n])) = acts"
    unfolding again acts by (simp add: repair_statements_def RankInfo_new_def)
  then show ?thesis using l1 l2 first second by (auto simp: again RankInfo_new_def comp_def)
qed

text \<open>The rows of five ranks, numbered from 0, with 10 silver a day for each.\<close>

definition wrong_rows :: "rank_row list" where
  "wrong_rows = map (\<lambda>k. (1, k, ''Rank'', 0x43, 1000)) [0, 1, 2, 3, 4]"

definition numbered_guild :: guild where
  "numbered_guild = (Guild_new (ge_junk test_guild_env))\<lparr>gu_Id := 1\<rparr>"

theorem rank_repair_never_ends_witness:
  "\<exists>g1 s1 g2 s2. LoadRanksFromDB test_guild_env wrong_rows (numbered_guild, no_guilds) = ([], g1, s1)
    \<and> map rk_BankMoneyPerDay (gu_Ranks g1) = [1000, 1000, 1000, 1000, 1000]
    \<and> LoadRanksFromDB test_guild_env (rank_table (\<lambda>t. t) (gd_log s1) wrong_rows) (numbered_guild, no_guilds) = ([], g2, s2)
    \<and> (\<forall>k \<in> set (gu_Ranks g2). rk_BankMoneyPerDay k = 0) \<and> gd_log s2 = gd_log s1"
proof -
  have g: "gu_Ranks numbered_guild = []" "gu_Id numbered_guild = 1" "gd_log no_guilds = []"
    by (simp_all add: numbered_guild_def Guild_new_def no_guilds_def)
  have w: "\<forall>r \<in> set wrong_rows. fst r = gu_Id numbered_guild" "rows_end (gu_Id numbered_guild) []" "5 \<le> length wrong_rows" "wrong_numbers 0 wrong_rows"
      "\<forall>t. ge_escape test_guild_env t = t"
    by (simp_all add: wrong_rows_def g rows_end_def test_guild_env_def)
  obtain rest1 g1 s1 where l1: "LoadRanksFromDB test_guild_env (wrong_rows @ []) (numbered_guild, no_guilds) = (rest1, g1, s1)" by (rule prod_cases3)
  obtain rest2 g2 s2 where l2: "LoadRanksFromDB test_guild_env (rank_table (\<lambda>t. t) (gd_log s1) wrong_rows @ []) (numbered_guild, no_guilds) = (rest2, g2, s2)"
    by (rule prod_cases3)
  have "map rk_BankMoneyPerDay (ranks_of True wrong_rows) = [1000, 1000, 1000, 1000, 1000]" by (simp add: wrong_rows_def RankInfo_new_def)
  with rank_repair_never_ends[where unescape = "\<lambda>t. t", OF w(5) g(1) w(1-4) l1 _ refl g(1) l2] g(3) l1 l2 show ?thesis by simp
qed


section \<open>A rank that is deleted\<close>

lemma own_kept:
  assumes "agree s" "own_guild h s = Some g" "gu_Id g' = gu_Id g" "gd_map s' = gd_map s" "ri_guild (gd_refs s' h) = ri_guild (gd_refs s h)"
  shows "own_guild h (keep_guild (g', s')) = Some g'"
proof -
  have G: "GetGuildById (ri_guild (gd_refs s h)) s = Some g" using assms(2) by (simp add: own_guild_def)
  note a = agree_guild(1,3)[OF assms(1) G]
  show ?thesis using a assms(3-5) by (simp add: keep_guild_def own_guild_def GetGuildById_def sm.find_put)
qed

lemma no_rank_all_rights: "length (gu_Ranks g) \<le> unat rank \<Longrightarrow> HasRankRight rank right g"
  by (simp add: HasRankRight_def GetRankRights_def)

text \<open>C39: When the leader has deleted the lowest rank, the members who had it keep its number, which no rank has any more; \<open>HasRankRight\<close>
  compares what they have with \<open>GR_RIGHT_EMPTY\<close> and not with nothing, so it grants them every right of the guild.\<close>

theorem deleted_rank_has_all_rights:
  assumes s: "agree s" "own_guild (pl_guid leader) s = Some g" "gu_LeaderGuid g = pl_guid leader"
    and r: "gu_Ranks g \<noteq> []" "length (gu_Ranks g) < 2 ^ 32"
    and h: "ri_guild (gd_refs s h) = gu_Id g" "ri_rank (gd_refs s h) = GetLowestRank g"
    and d: "HandleGuildDelRankOpcode env leader s b = (e, Inr s')"
  shows "\<exists>g'. own_guild h s' = Some g' \<and> gu_Ranks g' = butlast (gu_Ranks g) \<and> ri_rank (gd_refs s' h) = GetLowestRank g
    \<and> (\<forall>right. HasRankRight (ri_rank (gd_refs s' h)) right g')"
proof -
  have own: "own_guild h s = Some g"
    using own_guild_id[OF s(1,2)] s(2) h(1) by (simp add: own_guild_def)
  obtain g1 s1 where D: "DelRank (g, s) = (g1, s1)" by force
  have g1: "gu_Ranks g1 = butlast (gu_Ranks g)" "gu_Id g1 = gu_Id g" "gd_map s1 = gd_map s" "gd_refs s1 = gd_refs s"
    using D r by (auto simp: DelRank_def Let_def)
  have s': "s' = show_ranks env (pl_guid leader) (g1, s1)"
    using d s(2,3) by (simp add: HandleGuildDelRankOpcode_def as_leader_def D)
  obtain s2 where s2: "s' = keep_guild (g1, s2)" "gd_map s2 = gd_map s" "gd_refs s2 = gd_refs s"
    using s' g1 by (auto simp: show_ranks_def Guild_Roster_def Guild_Query_def answer_or_all_def Guild_BroadcastPacket_def to_members_def)
  have "own_guild h s' = Some g1" unfolding s2(1) using own_kept[OF s(1) own g1(2) s2(2)] s2(3) by simp
  moreover have "length (gu_Ranks g1) \<le> unat (GetLowestRank g)"
  proof -
    have "unat (GetNrRanks g) = length (gu_Ranks g)" using r(2) by (simp add: GetNrRanks_def unsigned_of_nat take_bit_nat_eq_self)
    moreover have "1 \<le> GetNrRanks g" using calculation r(1) by (simp add: word_le_nat_alt Suc_le_eq)
    ultimately have "unat (GetLowestRank g) = length (gu_Ranks g) - 1" by (simp add: GetLowestRank_def unat_sub)
    then show ?thesis using g1(1) by simp
  qed
  moreover have "ri_rank (gd_refs s' h) = GetLowestRank g" using h(2) s2 by simp
  ultimately show ?thesis using g1(1) no_rank_all_rights by auto
qed


lemma two_members_Bob: "(ri_guild (gd_refs two_members 2), ri_rank (gd_refs two_members 2)) = (1, 4)"
  by code_simp

theorem deleted_rank_has_all_rights_witness:
  "\<exists>s' g'. HandleGuildDelRankOpcode test_guild_env Ann two_members (packet_of []) = (None, Inr s') \<and> own_guild 2 s' = Some g'
    \<and> HasRankRight (ri_rank (gd_refs s' 2)) GR_RIGHT_REMOVE g'"
proof -
  obtain g where g: "gd_map two_members = [(1, g)]" "own_guild 1 two_members = Some g" "gu_Id g = 1"
      "map rk_BankMoneyPerDay (gu_Ranks g) = [0, 0, 0, 0, 0]"
    by (rule two_members_guild)
  have n: "length (gu_Ranks g) = 5" using arg_cong[OF g(4), of length] by simp
  have L: "gu_LeaderGuid g = pl_guid Ann" using two_members_leader by (simp add: g(1) test_players)
  obtain s' where h: "HandleGuildDelRankOpcode test_guild_env Ann two_members (packet_of []) = (None, Inr s')"
    by (simp add: HandleGuildDelRankOpcode_def)
  have "gu_Ranks g \<noteq> []" "length (gu_Ranks g) < 2 ^ 32" "ri_guild (gd_refs two_members 2) = gu_Id g" "ri_rank (gd_refs two_members 2) = GetLowestRank g"
    using n two_members_Bob g(3) by (auto simp: GetLowestRank_def GetNrRanks_def)
  from deleted_rank_has_all_rights[OF two_members_agrees _ L this h] g(2) h show ?thesis by (auto simp: test_players)
qed

section \<open>A second guild\<close>

lemma logged_invite:
  assumes "LogGuildEvent env t a b r (g, s) = (g', s')"
  shows "gu_Id g' = gu_Id g" "gu_members g' = gu_members g" "gu_Ranks g' = gu_Ranks g" "gu_LeaderGuid g' = gu_LeaderGuid g"
    "gd_map s' = gd_map s" "gd_refs s' = gd_refs s" "gd_rows s' = gd_rows s" "gd_world s' = gd_world s"
  using assms by (auto simp: LogGuildEvent_def Let_def split: if_splits)

lemma declined_then_invited:
  assumes d: "HandleGuildDeclineOpcode me s b = (e, Inr s1)" and h: "pl_guid inviter \<noteq> pl_guid me"
    and g: "own_guild (pl_guid inviter) s = Some g2" "gu_Id g2 = ri_guild (gd_refs s (pl_guid inviter))" "sm_has (gu_Id g2) (gd_map s)"
    and r: "HasRankRight (ri_rank (gd_refs s (pl_guid inviter))) GR_RIGHT_INVITE g2" "\<not> HasIgnore (GUID_LOPART (pl_guid inviter)) (pl_social me)"
      "ge_two_side_guild env \<or> pl_team me = pl_team inviter"
    and i: "s2 = invite_to_guild env inviter n (Some me) s1"
  shows "\<exists>g2'. gd_map s2 = sm_set (gu_Id g2) g2' (gd_map s) \<and> gu_Id g2' = gu_Id g2 \<and> gu_members g2' = gu_members g2 \<and> gu_LeaderGuid g2' = gu_LeaderGuid g2
    \<and> gd_rows s2 = gd_rows s \<and> gd_world s2 = gd_world s \<and> ri_guild (gd_refs s2 (pl_guid me)) = 0 \<and> ri_invited (gd_refs s2 (pl_guid me)) = gu_Id g2"
proof -
  have s1: "s1 = set_refs (pl_guid me) (\<lambda>r. r\<lparr>ri_invited := 0, ri_guild := 0\<rparr>) s" using d by (simp add: HandleGuildDeclineOpcode_def)
  have o: "own_guild (pl_guid inviter) s1 = Some g2" using g(1) h by (simp add: s1 own_guild_def GetGuildById_def)
  let ?s = "set_refs (pl_guid me) (\<lambda>r. r\<lparr>ri_invited := ri_guild (gd_refs s (pl_guid inviter))\<rparr>)
      (set_refs (pl_guid me) (\<lambda>r. r\<lparr>ri_invited := 0, ri_guild := 0\<rparr>) s)"
  obtain g2' s' where l: "LogGuildEvent env GUILD_EVENT_LOG_INVITE_PLAYER (GUID_LOPART (pl_guid inviter)) (GUID_LOPART (pl_guid me)) 0 (g2, ?s) = (g2', s')"
    by force
  note L = logged_invite[OF l]
  show ?thesis
    using h g r o L unfolding i
    by (intro exI[of _ g2']) (auto simp: invite_to_guild_def Let_def o l s1 keep_guild_def)
qed


lemma accept_joins:
  assumes me: "GetPlayer (gd_world s) (player_guid low) = Some me" and r: "ri_guild (gd_refs s (pl_guid me)) = 0" "ri_invited (gd_refs s (pl_guid me)) = i"
    and g: "sm_find i (gd_map s) = Some g" "gu_Id g = i" and side: "ge_two_side_guild env \<or> pl_team me = ge_db_side env (gu_LeaderGuid g)"
    and a: "HandleGuildAcceptOpcode env me s b = (e, Inr s')"
  shows "\<exists>g'. gd_map s' = sm_set i g' (gd_map s) \<and> sm_has low (gu_members g')
    \<and> gd_rows s' = gd_rows s @ [(low, i, GetLowestRank g)]"
proof -
  have h: "pl_guid me = player_guid low" by (rule GetPlayer_guid[OF me])
  obtain ok g1 s1 where A: "Guild_AddMember env (player_guid low) (GetLowestRank g) (g, s) = (ok, g1, s1)" by (rule prod_cases3)
  have fill: "FillPlayerData env (player_guid low) (gdo [RemovePetitions (player_guid low) 9] s) \<noteq> None" by (simp add: FillPlayerData_def me)
  have g1: "ok" "gu_Id g1 = i" "gd_map s1 = gd_map s" "gd_rows s1 = gd_rows s @ [(low, i, GetLowestRank g)]"
      "sm_has low (gu_members g1)"
    using A me r g(2) fill by (auto simp: h Guild_AddMember_def Let_def UpdateAccountsNumber_def sm_has_set split: option.splits)
  obtain g2 s2 where l: "LogGuildEvent env GUILD_EVENT_LOG_JOIN_GUILD low 0 0 (g1, s1) = (g2, s2)" by force
  note L = logged_invite[OF l]
  have "s' = keep_guild (g2, tell_guild GE_JOINED [c_str (pl_name me)] g2 s2)"
    using a r g side A l g1(1) by (auto simp: HandleGuildAcceptOpcode_def GetGuildById_def h)
  then show ?thesis using g(1) g1 L
    by (intro exI[of _ g2]) (simp add: keep_guild_def tell_guild_def Guild_BroadcastPacket_def to_members_def sm_has_def AddGuild_def)
qed


lemma one_row: "distinct (map fst rs) \<Longrightarrow> (low, x) \<in> set rs \<Longrightarrow> length (filter (\<lambda>r. fst r = low) rs) = 1"
  by (induction rs) (force simp: filter_empty_conv)+

text \<open>C40: A member who declines an invitation, or says he does, keeps his row and his place in the guild but loses the guild
  field of his player object: invited by somebody of another guild he can join that too, and is then a member of both guilds with two
  rows in the table. This is the step that the agreement of the records excludes.\<close>

theorem declining_leaves_two_guilds:
  assumes s: "agree s" "GetPlayer (gd_world s) (player_guid low) = Some me" "own_guild (pl_guid me) s = Some g"
    and i: "pl_guid inviter \<noteq> pl_guid me" "own_guild (pl_guid inviter) s = Some g2" "gu_Id g2 \<noteq> gu_Id g"
    and r: "HasRankRight (ri_rank (gd_refs s (pl_guid inviter))) GR_RIGHT_INVITE g2" "\<not> HasIgnore (GUID_LOPART (pl_guid inviter)) (pl_social me)"
    and side: "ge_two_side_guild env \<or> pl_team me = pl_team inviter \<and> pl_team me = ge_db_side env (gu_LeaderGuid g2)"
    and d: "HandleGuildDeclineOpcode me s b = (e, Inr s1)" and a: "HandleGuildAcceptOpcode env me (invite_to_guild env inviter n (Some me) s1) b' = (e', Inr s')"
  shows "(\<exists>h h2. GetGuildById (gu_Id g) s' = Some h \<and> sm_has low (gu_members h) \<and> GetGuildById (gu_Id g2) s' = Some h2 \<and> sm_has low (gu_members h2))
    \<and> length (filter (\<lambda>r. fst r = low) (gd_rows s')) = 2 \<and> \<not> agree s'"
proof -
  define s2 where "s2 = invite_to_guild env inviter n (Some me) s1"
  have h: "pl_guid me = player_guid low" by (rule GetPlayer_guid[OF s(2)])
  have G: "GetGuildById (gu_Id g) s = Some g" and G2: "gu_Id g2 = ri_guild (gd_refs s (pl_guid inviter))" "sm_has (gu_Id g2) (gd_map s)"
    using own_guild_id(2)[OF s(1,3)] own_guild_id(2)[OF s(1) i(2)] s(3) i(2) agree_guild(3)[OF s(1)] by (auto simp: own_guild_def)
  obtain g2' where M: "gd_map s2 = sm_set (gu_Id g2) g2' (gd_map s)" "gu_Id g2' = gu_Id g2" "gu_LeaderGuid g2' = gu_LeaderGuid g2"
      "gd_rows s2 = gd_rows s" "gd_world s2 = gd_world s" "ri_guild (gd_refs s2 (pl_guid me)) = 0" "ri_invited (gd_refs s2 (pl_guid me)) = gu_Id g2"
    using declined_then_invited[OF d i(1,2) G2 r _ s2_def] side by auto
  have f: "sm_find (gu_Id g2) (gd_map s2) = Some g2'" by (simp add: M(1) sm.find_put)
  have side': "ge_two_side_guild env \<or> pl_team me = ge_db_side env (gu_LeaderGuid g2')" using side M(3) by auto
  have me: "GetPlayer (gd_world s2) (player_guid low) = Some me" using s(2) M(5) by simp
  obtain h2 where N: "gd_map s' = sm_set (gu_Id g2) h2 (gd_map s2)" "sm_has low (gu_members h2)" "gd_rows s' = gd_rows s @ [(low, gu_Id g2, GetLowestRank g2')]"
    using accept_joins[OF me M(6,7) f M(2) side' a[folded s2_def]] M(4) by auto
  have low: "sm_has low (gu_members g)" using agree_own[OF s(1), of low g] s(2,3) h by simp
  have row: "\<exists>k. (low, gu_Id g, k) \<in> set (gd_rows s)"
    using agree_guild(5)[OF s(1) G] low by (force simp: guild_agrees_def book_entry_def sm_has_iff row_guild_def)
  have dist: "distinct (map fst (gd_rows s))" using s(1) by (simp add: agree_def consistent_def view_def row_guild_def comp_def)
  have one: "length (filter (\<lambda>r. fst r = low) (gd_rows s)) = 1"
    using row one_row[OF dist] by force
  have "\<not> distinct (map fst (gd_rows s'))" using row by (force simp: N(3))
  then have "\<not> agree s'" by (simp add: agree_def consistent_def view_def row_guild_def comp_def)
  moreover have "GetGuildById (gu_Id g) s' = Some g" "GetGuildById (gu_Id g2) s' = Some h2"
    using G i(3) by (simp_all add: GetGuildById_def N(1) M(1) sm.find_put)
  ultimately show ?thesis using low N(2,3) one by auto
qed


text \<open>Bob, who leads a guild of his own, declines and is invited by Ann.\<close>

definition two_guilds :: guild_server where
  "two_guilds = (let (ok, g, s) = Guild_Create test_guild_env 2 ''Lions'' (Guild_new (ge_junk test_guild_env), one_guild) in AddGuild g s)"

lemma founded_two_guilds: "HandleGuildCreateOpcode test_guild_env Bob one_guild (packet_of (enc_string ''Lions'')) = (None, Inr two_guilds)"
proof -
  have c: "fst (Guild_Create test_guild_env 2 ''Lions'' (Guild_new (ge_junk test_guild_env), one_guild))" by code_simp
  have f: "ri_guild (gd_refs one_guild 2) = 0" by code_simp
  have n: "no_nul ''Lions''" "pl_guid Bob = 2" by (simp_all add: no_nul_def test_player_def)
  show ?thesis
    unfolding HandleGuildCreateOpcode_def rdg_packet_string[OF n(1), simplified] two_guilds_def n(2)
    using c f by (simp add: Let_def split_beta)
qed

lemma two_guilds_books:
  "map (\<lambda>(i, g). (i, gu_Id g, gu_LeaderGuid g, map rk_Rights (gu_Ranks g))) (gd_map two_guilds) =
     [(1, 1, 1, [0xDF1FF, 0xDF1FF, 0x43, 0x43, 0x43]), (2, 2, 2, [0xDF1FF, 0xDF1FF, 0x43, 0x43, 0x43])]"
  "map (\<lambda>h. (ri_guild (gd_refs two_guilds h), ri_rank (gd_refs two_guilds h))) [1, 2] = [(1, 0), (2, 0)]" "gd_next one_guild = 2"
  by code_simp+

lemma two_guilds_agrees: "agree two_guilds" "gd_world two_guilds = test_world"
proof -
  have "guild_step one_guild two_guilds"
    by (rule guild_step.found[of _ 2 Bob, OF _ _ _ founded_two_guilds]) (simp_all add: one_guild_world test_players two_guilds_books)
  then show "agree two_guilds" using guild_step_agree[OF one_guild_step no_guilds_agree] guild_step_agree by blast
  show "gd_world two_guilds = test_world"
    using Guild_Create_world[of test_guild_env 2 "''Lions''" "ge_junk test_guild_env" one_guild]
    by (cases "Guild_Create test_guild_env 2 ''Lions'' (Guild_new (ge_junk test_guild_env), one_guild)") (simp add: two_guilds_def one_guild_world)
qed

theorem declining_leaves_two_guilds_witness:
  "\<exists>s1 s'. HandleGuildDeclineOpcode Bob two_guilds (packet_of []) = (None, Inr s1)
    \<and> HandleGuildAcceptOpcode test_guild_env Bob (invite_to_guild test_guild_env Ann ''Bob'' (Some Bob) s1) (packet_of []) = (None, Inr s')
    \<and> length (filter (\<lambda>r. fst r = 2) (gd_rows s')) = 2"
proof -
  obtain g1 g2 where m: "gd_map two_guilds = [(1, g1), (2, g2)]" and id: "gu_Id g1 = 1" "gu_Id g2 = 2" "gu_LeaderGuid g1 = 1"
      and r: "map rk_Rights (gu_Ranks g1) = [0xDF1FF, 0xDF1FF, 0x43, 0x43, 0x43]"
    using two_guilds_books(1) by (auto simp: map_eq_Cons_conv)
  have own: "own_guild 1 two_guilds = Some g1" "own_guild 2 two_guilds = Some g2"
    using two_guilds_books(2) by (simp_all add: own_guild_def GetGuildById_def m sm_find_def)
  have right: "HasRankRight (ri_rank (gd_refs two_guilds 1)) GR_RIGHT_INVITE g1"
    using two_guilds_books(2) r by (auto simp: HasRankRight_def GetRankRights_def map_eq_Cons_conv)
  obtain s1 where d: "HandleGuildDeclineOpcode Bob two_guilds (packet_of []) = (None, Inr s1)" by (simp add: HandleGuildDeclineOpcode_def)
  obtain s' where a: "HandleGuildAcceptOpcode test_guild_env Bob (invite_to_guild test_guild_env Ann ''Bob'' (Some Bob) s1) (packet_of []) = (None, Inr s')"
    by (simp add: HandleGuildAcceptOpcode_def)
  have p: "\<not> HasIgnore (GUID_LOPART 1) (pl_social Bob)" "pl_team Bob = pl_team Ann" "pl_team Bob = ge_db_side test_guild_env (gu_LeaderGuid g1)"
    by (simp_all add: test_player_def HasIgnore_def PlayerSocial_new_def test_guild_env_def)
  show ?thesis
    using declining_leaves_two_guilds[of two_guilds 2 Bob g2 Ann g1, OF two_guilds_agrees(1) _ _ _ _ _ _ _ _ d a] own id right p d a
    by (simp add: test_players two_guilds_agrees(2))
qed

end
