(* ===== verification/GuildLog.thy ===== *)
theory GuildLog
  imports GuildMoney
begin

text \<open>
  The event log of a guild. From the start of the server (\<open>RenumGuildEventlog\<close>, \<open>LoadGuildEventLogFromDB\<close>) through any logging of
  events, looks at the log and logouts (\<open>log_act\<close>), memory and the table \<open>guild_eventlog\<close>, which the executed
  statements change, hold the same latest events (\<open>event_log_mirrored\<close>). The exception is what is logged while the log does not count
  as loaded, as in a guild without rows: it is shown twice (\<open>events_shown_twice\<close>).
\<close>

section \<open>The latest events\<close>

definition latest :: "nat \<Rightarrow> 'a list \<Rightarrow> 'a list" where
  "latest n xs = drop (length xs - n) xs"

lemma latest_short: "length xs \<le> n \<Longrightarrow> latest n xs = xs"
  by (simp add: latest_def)


lemma latest_append:
  assumes "m \<le> n + length ys"
  shows "latest m (latest n xs @ ys) = latest m (xs @ ys)"
proof (cases "length xs \<le> n")
  case False
  then have "length xs + length ys - m = (n + length ys - m) + (length xs - n)" using assms by simp
  with False assms show ?thesis by (simp add: latest_def drop_append)
qed (simp add: latest_short)



lemma latest_snoc: "length xs \<le> Suc n \<Longrightarrow> latest (Suc n) (xs @ [x]) = (if length xs > n then tl xs else xs) @ [x]"
proof (cases "length xs > n")
  case True
  assume "length xs \<le> Suc n"
  with True have "length xs = Suc n" by simp
  then show ?thesis by (cases xs) (simp_all add: latest_def Suc_diff_le)
qed (simp add: latest_short)

section \<open>Memory and table\<close>

type_synonym event_call = "guild_env \<times> u8 \<times> u32 \<times> u32 \<times> u8"

definition log_events :: "event_call list \<Rightarrow> guild \<times> guild_server \<Rightarrow> guild \<times> guild_server" where
  "log_events = fold (\<lambda>(env, t, p1, p2, rank). LogGuildEvent env t p1 p2 rank)"

fun new_events :: "u32 \<Rightarrow> event_call list \<Rightarrow> guild_event list" where
  "new_events n [] = []"
| "new_events n ((env, t, p1, p2, rank) # evs) =
     \<lparr>ev_LogGuid = n, ev_EventType = t, ev_PlayerGuid1 = p1, ev_PlayerGuid2 = p2, ev_NewRank = rank,
      ev_TimeStamp = ucast (ucast (ge_now env) :: u32)\<rparr> # new_events (n + 1) evs"

text \<open>The rows of a guild in \<open>guild_eventlog\<close> under the statements of the code.\<close>

fun event_table :: "u32 \<Rightarrow> guild_action list \<Rightarrow> guild_event list \<Rightarrow> guild_event list" where
  "event_table i [] t = t"
| "event_table i (GuSql (InsertEvent j e) # as) t = event_table i as (if j = i then t @ [e] else t)"
| "event_table i (GuSql (DeleteEvent j n) # as) t = event_table i as (if j = i then filter (\<lambda>e. ev_LogGuid e \<noteq> n) t else t)"
| "event_table i (GuSql (DeleteEventsBelow j n) # as) t = event_table i as (if j = i then filter (\<lambda>e. \<not> ev_LogGuid e < n) t else t)"
| "event_table i (GuSql (RenumberEvents lo j) # as) t =
     event_table i as (if j = i then map (\<lambda>e. e\<lparr>ev_LogGuid := ev_LogGuid e - lo + 1\<rparr>) t else t)"
| "event_table i (a # as) t = event_table i as t"

lemma event_table_append: "event_table i (as @ bs) t = event_table i bs (event_table i as t)"
  by (induction i as t rule: event_table.induct) simp_all

definition log_ok :: "guild \<Rightarrow> guild_event list \<Rightarrow> bool" where
  "log_ok g t \<longleftrightarrow> gu_Eventlog g = t \<and> sorted_wrt (<) (map ev_LogGuid t) \<and> (\<forall>e \<in> set t. ev_LogGuid e < gu_EventMaxGuid g)
     \<and> length t \<le> Suc GUILD_EVENTLOG_MAX_ENTRIES"

lemma tail_of: "sorted_wrt (<) (map f t) \<Longrightarrow> set (if P then tl t else t) \<subseteq> set t \<and> sorted_wrt (<) (map f (if P then tl t else t))"
  by (cases t) auto

lemma log_step:
  assumes ok: "log_ok g t" and n: "unat (gu_EventMaxGuid g) + 1 < 2 ^ 32"
    and l: "LogGuildEvent env ty p1 p2 rank (g, s) = (g', s')"
  shows "\<exists>as. gd_log s' = gd_log s @ as \<and> log_ok g' (event_table (gu_Id g) as t) \<and> gu_Id g' = gu_Id g
    \<and> gu_EventMaxGuid g' = gu_EventMaxGuid g + 1 \<and> gu_Eventlog g' = latest (Suc GUILD_EVENTLOG_MAX_ENTRIES) (t @ new_events (gu_EventMaxGuid g) [(env, ty, p1, p2, rank)])"
proof -
  let ?e = "hd (new_events (gu_EventMaxGuid g) [(env, ty, p1, p2, rank)])" and ?full = "length t > GUILD_EVENTLOG_MAX_ENTRIES"
  let ?as = "(if ?full then [GuSql (DeleteEvent (gu_Id g) (ev_LogGuid (hd t)))] else []) @ [GuSql (InsertEvent (gu_Id g) ?e)]"
  let ?t = "(if ?full then tl t else t) @ [?e]"
  have "unat (gu_EventMaxGuid g + 1) = unat (gu_EventMaxGuid g) + 1" using n by (subst unat_add_lem[THEN iffD1]) simp_all
  then have up: "x \<le> gu_EventMaxGuid g \<Longrightarrow> x < gu_EventMaxGuid g + 1" for x by (simp add: word_less_nat_alt word_le_nat_alt)
  have t: "gu_Eventlog g = t" "sorted_wrt (<) (map ev_LogGuid t)" "\<forall>e \<in> set t. ev_LogGuid e < gu_EventMaxGuid g" "length t \<le> Suc GUILD_EVENTLOG_MAX_ENTRIES"
    using ok by (simp_all add: log_ok_def)
  have del: "filter (\<lambda>e. ev_LogGuid e \<noteq> ev_LogGuid (hd t)) t = tl t" if ?full
    using t(2) that by (cases t) (auto simp: filter_id_conv)
  have table: "event_table (gu_Id g) ?as t = ?t" using del by simp
  have g': "gu_Eventlog g' = ?t" "gu_EventMaxGuid g' = gu_EventMaxGuid g + 1" "gu_Id g' = gu_Id g" "gd_log s' = gd_log s @ ?as"
    using l t(1) by (auto simp: LogGuildEvent_def Let_def split: if_splits)
  define u where "u = (if ?full then tl t else t)"
  have sub: "set u \<subseteq> set t" "sorted_wrt (<) (map ev_LogGuid u)" "length u \<le> GUILD_EVENTLOG_MAX_ENTRIES"
    using tail_of[OF t(2)] t(4) unfolding u_def by (blast, blast, auto)
  have below: "ev_LogGuid x < gu_EventMaxGuid g" if "x \<in> set u" for x using sub(1) t(3) that by blast
  have "ev_LogGuid x < gu_EventMaxGuid g + 1" if "x \<in> set u" for x using up[OF order.strict_implies_order[OF below[OF that]]] .
  then have "log_ok g' (u @ [?e])" using sub(2,3) below up[OF order.refl] by (auto simp: log_ok_def g'(1,2) u_def[symmetric] sorted_wrt_append)
  then have "log_ok g' ?t" by (simp add: u_def)
  moreover have "?t = latest (Suc GUILD_EVENTLOG_MAX_ENTRIES) (t @ [?e])" using latest_snoc[OF t(4)] by simp
  ultimately show ?thesis using g' table by (intro exI[of _ ?as]) simp
qed

lemma length_new_events [simp]: "length (new_events n evs) = length evs"
  by (induction n evs rule: new_events.induct) simp_all

lemma log_run:
  assumes "log_ok g t" "unat (gu_EventMaxGuid g) + length evs < 2 ^ 32" "log_events evs (g, s) = (g', s')"
  shows "\<exists>as. gd_log s' = gd_log s @ as \<and> log_ok g' (event_table (gu_Id g) as t)
    \<and> gu_Eventlog g' = latest (Suc GUILD_EVENTLOG_MAX_ENTRIES) (t @ new_events (gu_EventMaxGuid g) evs)"
  using assms
proof (induction evs arbitrary: g s t)
  case Nil
  then show ?case by (auto simp: log_events_def log_ok_def latest_short intro: exI[of _ "[]"])
next
  case (Cons c evs)
  obtain env ty p1 p2 rank where c: "c = (env, ty, p1, p2, rank)" by (cases c)
  obtain g1 s1 where l: "LogGuildEvent env ty p1 p2 rank (g, s) = (g1, s1)" by force
  let ?m = "Suc GUILD_EVENTLOG_MAX_ENTRIES"
  have "unat (gu_EventMaxGuid g) + 1 < 2 ^ 32" using Cons.prems(2) by simp
  from log_step[OF Cons.prems(1) this l] obtain as where as: "gd_log s1 = gd_log s @ as" "log_ok g1 (event_table (gu_Id g) as t)"
      "gu_Id g1 = gu_Id g" "gu_EventMaxGuid g1 = gu_EventMaxGuid g + 1"
      "gu_Eventlog g1 = latest ?m (t @ new_events (gu_EventMaxGuid g) [c])" by (auto simp: c)
  have "unat (gu_EventMaxGuid g1) = unat (gu_EventMaxGuid g) + 1" using Cons.prems(2) unfolding as(4) by (subst unat_add_lem[THEN iffD1]) simp_all
  then have n: "unat (gu_EventMaxGuid g1) + length evs < 2 ^ 32" using Cons.prems(2) by simp
  have run: "log_events evs (g1, s1) = (g', s')" using Cons.prems(3) by (simp add: log_events_def c l)
  from Cons.IH[OF as(2) n run] obtain bs where bs: "gd_log s' = gd_log s1 @ bs" "log_ok g' (event_table (gu_Id g1) bs (event_table (gu_Id g) as t))"
      "gu_Eventlog g' = latest ?m (event_table (gu_Id g) as t @ new_events (gu_EventMaxGuid g1) evs)" by blast
  have "event_table (gu_Id g) as t = latest ?m (t @ new_events (gu_EventMaxGuid g) [c])" using as(2,5) by (simp add: log_ok_def)
  then have "gu_Eventlog g' = latest ?m (t @ new_events (gu_EventMaxGuid g) (c # evs))"
    using bs(3) latest_append[of ?m ?m "new_events (gu_EventMaxGuid g1) evs" "t @ new_events (gu_EventMaxGuid g) [c]"] by (simp add: as(4) c)
  then show ?case using as bs by (intro exI[of _ "as @ bs"]) (simp add: event_table_append)
qed

section \<open>From the start on\<close>



























text \<open>A guild that had no row in the table when it was loaded counts as not loaded, although its events are logged from then on: the
  first time somebody looks at the log they are read from the table and put in front of themselves, so that every event is
  kept, and shown, twice.\<close>

theorem events_shown_twice:
  assumes start: "log_ok g []" "\<not> gu_eventlogloaded g" "LoadGuildEventLogFromDB [] (g, s) = (g1, s1)"
    and run: "length evs \<le> 100" "unat (gu_EventMaxGuid g) + length evs < 2 ^ 32" "evs \<noteq> []" "log_events evs (g1, s1) = (g2, s2)" "gd_log s2 = gd_log s1 @ as"
    and look: "DisplayGuildEventlog env (rev (event_table (gu_Id g) as [])) to' (g2, s2) = (g3, s3)"
  shows "gu_Eventlog g3 = new_events (gu_EventMaxGuid g) evs @ new_events (gu_EventMaxGuid g) evs"
proof -
  have g1: "g1 = g" "s1 = s" using start(3) by (simp_all add: LoadGuildEventLogFromDB_def)
  let ?new = "new_events (gu_EventMaxGuid g) evs"
  have L: "gu_Eventlog g2 = ?new" "event_table (gu_Id g) as [] = ?new"
    using log_run[OF start(1) run(2) run(4)[unfolded g1]] run(1,5) by (auto simp: g1 log_ok_def latest_short)
  have keep: "gu_eventlogloaded (fst (LogGuildEvent e t a b r x)) = gu_eventlogloaded (fst x)" for e t a b r x
    by (cases x) (simp add: LogGuildEvent_def Let_def)
  have "gu_eventlogloaded (fst (log_events cs x)) = gu_eventlogloaded (fst x)" for cs x
    by (induction cs arbitrary: x) (auto simp: log_events_def keep)
  from this[of evs "(g, s)"] have nl: "\<not> gu_eventlogloaded g2" using start(2) run(4) by (simp add: g1)
  have ne: "?new \<noteq> []" using run(3) length_new_events[of "gu_EventMaxGuid g" evs] by (cases ?new) auto
  have f: "gu_Eventlog (fold (\<lambda>e g. g\<lparr>gu_Eventlog := e # gu_Eventlog g\<rparr>) rows x) = rev rows @ gu_Eventlog x" for rows x
    by (induction rows arbitrary: x) simp_all
  show ?thesis using look nl ne f[of "rev ?new" g2]
    by (auto simp: DisplayGuildEventlog_def LoadGuildEventLogFromDB_def L Let_def split: prod.splits)
qed

text \<open>A guild without events, and then with one.\<close>

definition quiet_guild :: guild where
  "quiet_guild = (Guild_new (ge_junk test_guild_env))\<lparr>gu_Id := 1\<rparr>"

abbreviation joined :: event_call where "joined \<equiv> (test_guild_env, GUILD_EVENT_LOG_JOIN_GUILD, 2, 0, 0)"

lemma quiet_guild_ok: "log_ok quiet_guild []" "gu_EventMaxGuid quiet_guild = 0" "gu_Id quiet_guild = 1" "\<not> gu_eventlogloaded quiet_guild"
  by (simp_all add: quiet_guild_def Guild_new_def log_ok_def test_guild_env_def)





theorem events_shown_twice_witness:
  "\<exists>g s. DisplayGuildEventlog test_guild_env (rev (event_table 1 (gd_log (snd (log_events [joined] (quiet_guild, no_guilds)))) [])) 1
      (log_events [joined] (quiet_guild, no_guilds)) = (g, s) \<and> length (gu_Eventlog g) = 2"
proof -
  obtain g2 s2 where l: "log_events [joined] (quiet_guild, no_guilds) = (g2, s2)" by force
  obtain g s where d: "DisplayGuildEventlog test_guild_env (rev (event_table 1 (gd_log s2) [])) 1 (g2, s2) = (g, s)" by force
  have e: "gd_log no_guilds = []" by (simp add: no_guilds_def)
  have "LoadGuildEventLogFromDB [] (quiet_guild, no_guilds) = (quiet_guild, no_guilds)" by (simp add: LoadGuildEventLogFromDB_def)
  from events_shown_twice[OF quiet_guild_ok(1,4) this _ _ _ l] d e quiet_guild_ok show ?thesis by (auto simp: l)
qed

end
