(* ===== verification/GuildRestart.thy ===== *)
theory GuildRestart
  imports GuildMoney
begin

text \<open>
  A restart of the server: loading the tables that a running server keeps gives back its guilds, with their leaders and members.
\<close>

section \<open>Parts of loading that leave memberships alone\<close>

definition calm :: "guild \<times> guild_server \<Rightarrow> guild \<times> guild_server \<Rightarrow> bool" where
  "calm x y \<longleftrightarrow> gkey (fst y) = gkey (fst x) \<and> skey (snd y) = skey (snd x)"

lemma calm_refl: "calm x x"
  by (simp add: calm_def)

lemma calm_trans: "calm x y \<Longrightarrow> calm y z \<Longrightarrow> calm x z"
  by (simp add: calm_def)

lemma calm_wf: "calm x y \<Longrightarrow> sm_wf (gu_members (fst x)) \<Longrightarrow> sm_wf (gu_members (fst y))"
  unfolding calm_def by (blast dest: gkey_wf)

lemma calm_quiet: "quiet f \<Longrightarrow> sm_wf (gu_members g) \<Longrightarrow> calm (g, s) (f (g, s))"
  by (simp add: calm_def quiet_def)

lemma calm_rank_rows: "load_rank_rows rows broken x = (rest, broken', y) \<Longrightarrow> calm x y"
proof (induction rows broken x arbitrary: rest broken' y rule: load_rank_rows.induct)
  case (2 i rid name rights money rows broken g s)
  let ?b = "broken \<or> unat rid \<noteq> length (gu_Ranks g) + 1" and ?r = "if gu_Ranks g = [] then rights OR GR_RIGHT_ALL else rights"
  consider "i < gu_Id g" | "gu_Id g < i" | "i = gu_Id g" by (rule linorder_cases[of i "gu_Id g"]) auto
  then show ?case
  proof cases
    case 2
    then have "\<not> i < gu_Id g" by (metis order.asym)
    with 2 "2.prems" show ?thesis by (auto simp: calm_def)
  next
    case 3
    then have "load_rank_rows rows ?b (AddRank name ?r money g, s) = (rest, broken', y)" using "2.prems" by (simp add: Let_def)
    from "2.IH"(2)[OF _ _ refl refl this] 3 show ?thesis by (simp add: calm_def)
  qed (use "2.prems" "2.IH"(1) in \<open>auto simp: calm_def\<close>)
qed (auto simp: calm_refl)

lemma calm_LoadRanks:
  assumes "LoadRanksFromDB env rows (g, s) = (rest, y)" "sm_wf (gu_members g)"
  shows "calm (g, s) y"
proof -
  obtain rest' broken g1 s1 where l: "load_rank_rows rows False (g, s) = (rest', broken, g1, s1)" by (metis surj_pair)
  note c = calm_rank_rows[OF l]
  have w: "sm_wf (gu_members (g1\<lparr>gu_Ranks := []\<rparr>))" using calm_wf[OF c] assms(2) by simp
  have d: "calm (g1, s1) (CreateDefaultGuildRanks env (g1\<lparr>gu_Ranks := []\<rparr>, s1))"
    using calm_quiet[OF quiet_CreateDefaultGuildRanks[of env] w, of s1] by (simp add: calm_def gkey_def)
  have r: "calm (g1, s1) (repair_ranks env (g1, s1))" by (simp add: calm_def repair_ranks_def)
  show ?thesis using assms(1) c calm_trans[OF c d] calm_trans[OF c r] by (auto simp: LoadRanksFromDB_def l split: if_splits)
qed

lemma calm_LoadBankRights: "LoadBankRightsFromDB rows (g, s) = (rest, y) \<Longrightarrow> sm_wf (gu_members g) \<Longrightarrow> calm (g, s) y"
proof (induction rows arbitrary: g s)
  case (Cons r rows)
  obtain i tab rank right slots where r: "r = (i, tab, rank, right, slots)" by (cases r)
  obtain g1 s1 where b: "SetBankRightsAndSlots rank tab (ucast right) (ucast slots) False (g, s) = (g1, s1)" by force
  have c: "calm (g, s) (g1, s1)" using calm_quiet[OF quiet_limits(2)[of rank tab "ucast right" "ucast slots" False] Cons.prems(2), of s] b by simp
  consider "i < gu_Id g" | "\<not> i < gu_Id g" "gu_Id g < i" | "\<not> i < gu_Id g" "\<not> gu_Id g < i" by blast
  then show ?case
  proof cases
    case 1
    have d: "calm (g, s) (g, gdo [GuSql (DeleteBankRightsOf i)] s)" by (simp add: calm_def)
    show ?thesis using calm_trans[OF d] Cons.IH[of g "gdo [GuSql (DeleteBankRightsOf i)] s"] Cons.prems 1 by (simp add: r)
  next
    case 2
    then show ?thesis using Cons.prems(1) calm_refl by (auto simp: r)
  next
    case 3
    then show ?thesis using calm_trans[OF c] calm_wf[OF c] Cons.IH[of g1 s1] Cons.prems by (simp add: r b)
  qed
qed (auto simp: calm_refl)


section \<open>The members of one guild\<close>

definition member_row_ok :: "member_row \<Rightarrow> bool" where
  "member_row_ok = (\<lambda>(i, low, m). 1 \<le> mb_Level m \<and> 1 \<le> mb_Class m \<and> mb_Class m < 12)"

lemma load_own_members:
  assumes "sorted (map fst rows)" "\<forall>r \<in> set rows. gu_Id g \<le> fst r \<and> member_row_ok r" "sm_wf (gu_members g)"
  shows "\<exists>g'. load_guild_member_rows env rows (g, s) = (dropWhile (\<lambda>r. fst r = gu_Id g) rows, g', s) \<and> gu_Id g' = gu_Id g
    \<and> gu_LeaderGuid g' = gu_LeaderGuid g \<and> sm_wf (gu_members g')
    \<and> (\<forall>l. sm_has l (gu_members g') \<longleftrightarrow> sm_has l (gu_members g) \<or> (\<exists>m. (gu_Id g, l, m) \<in> set rows))"
  using assms
proof (induction rows arbitrary: g)
  case (Cons r rows)
  obtain i low m where r: "r = (i, low, m)" by (rule prod_cases3)
  have i: "gu_Id g \<le> i" and ok: "1 \<le> mb_Level m" "1 \<le> mb_Class m" "mb_Class m < 12" using Cons.prems(2) by (auto simp: r member_row_ok_def)
  show ?case
  proof (cases "i = gu_Id g")
    case False
    then have "gu_Id g < i" using i by simp
    moreover have "(gu_Id g, l, m') \<notin> set (r # rows)" for l m' using Cons.prems(1) calculation by (auto simp: r)
    ultimately show ?thesis using Cons.prems(3) by (auto simp: r)
  next
    case True
    define m' where "m' = (let m = (if unat (mb_RankId m) \<ge> length (gu_Ranks g) then m\<lparr>mb_RankId := GetLowestRank g\<rparr> else m)
      in if mb_ZoneId m = 0 then m\<lparr>mb_ZoneId := ge_db_zone env (player_guid low)\<rparr> else m)"
    let ?g = "g\<lparr>gu_members := sm_set low m' (gu_members g)\<rparr>"
    have ok': "\<not> mb_Level m < 1" "\<not> mb_Class m < 1" "\<not> 12 \<le> mb_Class m" using ok by (simp_all only: not_less not_le)
    have step: "load_guild_member_rows env (r # rows) (g, s) = load_guild_member_rows env rows (?g, s)"
      using True ok' by (simp add: r m'_def Let_def)
    have "sm_wf (gu_members ?g)" using sm.wf_put[OF Cons.prems(3)] by simp
    then show ?thesis using Cons.IH[of ?g] Cons.prems(1,2) True unfolding step by (auto simp: r sm_has_set)
  qed
qed (use assms in auto)


lemma calm_check:
  assumes "ge_account env (gu_LeaderGuid g) \<noteq> 0" "sm_wf (gu_members g)"
  shows "\<exists>y. CheckGuildStructure env db (g, s) = Inr (True, y) \<and> calm (g, s) y"
proof -
  let ?g = "g\<lparr>gu_bankloaded := False, gu_eventlogloaded := False, gu_onlinemembers := 0\<rparr>"
  let ?f = "\<lambda>x. RenumGuildEventlog (db_event_minmax db (gu_Id g)) (RenumBankLogs (db_bank_minmax db (gu_Id g)) x)"
  have q: "quiet ?f" by (rule quiet_comp[OF quiet_logs(2) quiet_logs(3)])
  have "calm (g, s) (?g, s)" by (simp add: calm_def gkey_def)
  moreover have "calm (?g, s) (?f (?g, s))" by (rule calm_quiet[OF q]) (simp add: assms(2))
  ultimately have "calm (g, s) (?f (?g, s))" by (rule calm_trans)
  then show ?thesis using assms(1) by (simp add: CheckGuildStructure_def)
qed

lemma calm_keys:
  assumes "calm (g, s) (g', s')"
  shows "gu_Id g' = gu_Id g" "gu_LeaderGuid g' = gu_LeaderGuid g" "sm_has l (gu_members g') = sm_has l (gu_members g)" "skey s' = skey s"
proof -
  have "map fst (gu_members g') = map fst (gu_members g)" using assms by (simp add: calm_def gkey_def)
  then have "fst ` set (gu_members g') = fst ` set (gu_members g)" by (metis set_map)
  then show "sm_has l (gu_members g') = sm_has l (gu_members g)" by (simp add: sm_has_iff)
qed (use assms in \<open>simp_all add: calm_def gkey_def\<close>)

text \<open>A guild of the tables, with a row for it and valid rows of members, is loaded.\<close>

lemma load_guild_ok:
  assumes rows: "sorted (map fst members)" "\<forall>x \<in> set members. gw_id r \<le> fst x \<and> member_row_ok x" "\<exists>l m. (gw_id r, l, m) \<in> set members"
    and acc: "ge_account env (player_guid (gw_leader r)) \<noteq> 0"
  shows "\<exists>ranks' rights' g' s'. load_guild env db r ((ranks, members, rights), s)
      = Inr ((ranks', dropWhile (\<lambda>x. fst x = gw_id r) members, rights'), AddGuild g' s')
    \<and> skey s' = skey s \<and> gu_Id g' = gw_id r \<and> gu_LeaderGuid g' = player_guid (gw_leader r) \<and> sm_wf (gu_members g')
    \<and> (\<forall>l. sm_has l (gu_members g') \<longleftrightarrow> (\<exists>m. (gw_id r, l, m) \<in> set members))"
proof -
  define g0 where "g0 = LoadGuildFromDB db r (Guild_new (ge_junk env))"
  have g0: "gu_Id g0 = gw_id r" "gu_LeaderGuid g0 = player_guid (gw_leader r)" "gu_members g0 = []"
    by (simp_all add: g0_def LoadGuildFromDB_def Guild_new_def Let_def)
  obtain ranks' g1 s1 where l1: "LoadRanksFromDB env ranks (g0, s) = (ranks', g1, s1)" by (rule prod_cases3)
  have c1: "calm (g0, s) (g1, s1)" using calm_LoadRanks[OF l1] by (simp add: g0)
  note k1 = calm_keys[OF c1, unfolded g0] and w1 = calm_wf[OF c1, simplified, unfolded g0, simplified]
  obtain g2 where l2: "load_guild_member_rows env members (g1, s1) = (dropWhile (\<lambda>x. fst x = gw_id r) members, g2, s1)"
    and g2: "gu_Id g2 = gw_id r" "gu_LeaderGuid g2 = player_guid (gw_leader r)" "sm_wf (gu_members g2)"
      "\<And>l. sm_has l (gu_members g2) \<longleftrightarrow> (\<exists>m. (gw_id r, l, m) \<in> set members)"
    using load_own_members[OF rows(1), of g1 env s1] rows(2) k1 w1 by auto
  have ne: "gu_members g2 \<noteq> []" using rows(3) g2(4) by (auto simp: sm_has_iff)
  let ?g2 = "UpdateAccountsNumber g2"
  have u: "gu_members ?g2 = gu_members g2" "gu_Id ?g2 = gu_Id g2" "gu_LeaderGuid ?g2 = gu_LeaderGuid g2" by (simp_all add: UpdateAccountsNumber_def)
  obtain rights' g3 s3 where l3: "LoadBankRightsFromDB rights (?g2, s1) = (rights', g3, s3)" by (rule prod_cases3)
  have c3: "calm (?g2, s1) (g3, s3)" using calm_LoadBankRights[OF l3] g2(3) by (simp add: u)
  have w3: "sm_wf (gu_members g3)" using calm_wf[OF c3] g2(3) by (simp add: u)
  obtain g4 s4 where l4: "CheckGuildStructure env db (g3, s3) = Inr (True, g4, s4)" and c4: "calm (g3, s3) (g4, s4)"
    using calm_check[of env g3 db s3] acc calm_keys(2)[OF c3] w3 g2(2) u by auto
  have w4: "sm_wf (gu_members g4)" using calm_wf[OF c4] w3 by simp
  obtain g5 s5 where l5: "LoadGuildEventLogFromDB (db_events db (gu_Id g4)) (g4, s4) = (g5, s5)" by force
  have c5: "calm (g4, s4) (g5, s5)" using calm_quiet[OF quiet_fetch(1)[of "db_events db (gu_Id g4)"] w4, of s4] by (simp add: l5)
  have w5: "sm_wf (gu_members g5)" using calm_wf[OF c5] w4 by simp
  obtain g6 s6 where l6: "LoadGuildBankFromDB (db_bank_events db (gu_Id g5)) (db_has_tabs db (gu_Id g5)) (g5, s5) = (g6, s6)" by force
  have "calm (g5, s5) (g6, s6)"
    using calm_quiet[OF quiet_LoadGuildBankFromDB[of "db_bank_events db (gu_Id g5)" "db_has_tabs db (gu_Id g5)"] w5, of s5] by (simp add: l6)
  then have c6: "calm (?g2, s1) (g6, s6)" using c3 c4 c5 calm_trans by blast
  have w6: "sm_wf (gu_members g6)" using calm_wf[OF c6] g2(3) by (simp add: u)
  have l: "load_guild env db r ((ranks, members, rights), s) = Inr ((ranks', dropWhile (\<lambda>x. fst x = gw_id r) members, rights'), AddGuild g6 s6)"
    by (simp add: load_guild_def g0_def[symmetric] l1 Guild_LoadMembersFromDB_def l2 ne l3 l4 l5 l6 guild_then_def)
  show ?thesis using l calm_keys[OF c6] calm_keys(4)[OF c1] w6 g2 u by auto
qed


section \<open>All guilds\<close>

lemma drop_own:
  assumes "sorted (map fst xs)" "\<forall>x \<in> set xs. a \<le> fst x"
  shows "dropWhile (\<lambda>x. fst x = a) xs = filter (\<lambda>x. fst x \<noteq> a) xs"
  using assms
proof (induction xs)
  case (Cons y ys)
  show ?case
  proof (cases "fst y = a")
    case False
    then have "a < fst y" using Cons.prems(2) by auto
    then have "\<forall>x \<in> set ys. fst x \<noteq> a" using Cons.prems(1) by auto
    then show ?thesis using False by simp
  qed (use Cons in auto)
qed simp

lemma sm_set_last: "\<forall>p \<in> set m. fst p < i \<Longrightarrow> sm_set i g m = m @ [(i, g)]"
  by (induction m) (auto dest: order.asym)

definition other_key :: "guild_server \<Rightarrow> world \<times> (guid \<Rightarrow> u32) \<times> (u32 \<times> u32) list \<times> u32" where
  "other_key s = (gd_world s, \<lambda>h. ri_guild (gd_refs s h), map row_guild (gd_rows s), gd_next s)"

lemma skey_other: "skey s' = skey s \<Longrightarrow> other_key s' = other_key s \<and> gd_map s' = gd_map s"
  by (simp add: skey_def other_key_def)

definition loaded_from :: "member_row list \<Rightarrow> guild_row \<Rightarrow> u32 \<times> guild \<Rightarrow> bool" where
  "loaded_from members r = (\<lambda>(i, g). i = gw_id r \<and> gu_Id g = i \<and> gu_LeaderGuid g = player_guid (gw_leader r) \<and> sm_wf (gu_members g)
     \<and> (\<forall>l. sm_has l (gu_members g) \<longleftrightarrow> (\<exists>m. (i, l, m) \<in> set members)))"

lemma load_all:
  assumes "sorted_wrt (<) (map gw_id gws)" "sorted (map fst members)"
    and "\<forall>x \<in> set members. fst x \<in> gw_id ` set gws \<and> member_row_ok x"
    and "\<forall>r \<in> set gws. (\<exists>l m. (gw_id r, l, m) \<in> set members) \<and> ge_account env (player_guid (gw_leader r)) \<noteq> 0"
    and "\<forall>p \<in> set (gd_map s). \<forall>r \<in> set gws. fst p < gw_id r"
  shows "\<exists>c s' new. fold (\<lambda>r x. guild_then x (load_guild env db r)) gws (Inr ((ranks, members, rights), s)) = Inr (c, s')
    \<and> gd_map s' = gd_map s @ new \<and> other_key s' = other_key s \<and> list_all2 (loaded_from members) gws new"
  using assms
proof (induction gws arbitrary: members ranks rights s)
  case Nil
  then show ?case by auto
next
  case (Cons r gws)
  have low: "\<forall>x \<in> set members. gw_id r \<le> fst x" using Cons.prems(1,3) by (fastforce intro: less_imp_le)
  obtain ranks' rights' g s1 where l: "load_guild env db r ((ranks, members, rights), s)
        = Inr ((ranks', dropWhile (\<lambda>x. fst x = gw_id r) members, rights'), AddGuild g s1)"
      and s1: "skey s1 = skey s" and g: "loaded_from members r (gw_id r, g)"
    using load_guild_ok[OF Cons.prems(2), of r env db ranks rights s] Cons.prems(3,4) low by (auto simp: loaded_from_def)
  let ?rest = "filter (\<lambda>x. fst x \<noteq> gw_id r) members" and ?s = "AddGuild g s1"
  have rest: "dropWhile (\<lambda>x. fst x = gw_id r) members = ?rest" by (rule drop_own[OF Cons.prems(2) low])
  have m: "gd_map ?s = gd_map s @ [(gw_id r, g)]" "other_key ?s = other_key s"
    using skey_other[OF s1] g Cons.prems(5) by (auto simp: loaded_from_def sm_set_last other_key_def)
  have ids: "\<forall>q \<in> set gws. gw_id q \<noteq> gw_id r" using Cons.prems(1) by auto
  have "\<exists>c s' new. fold (\<lambda>r x. guild_then x (load_guild env db r)) gws (Inr ((ranks', ?rest, rights'), ?s)) = Inr (c, s')
      \<and> gd_map s' = gd_map ?s @ new \<and> other_key s' = other_key ?s \<and> list_all2 (loaded_from ?rest) gws new"
  proof (rule Cons.IH)
    show "sorted (map fst ?rest)" using Cons.prems(2) by (simp add: sorted_filter)
    show "\<forall>q \<in> set gws. (\<exists>l m. (gw_id q, l, m) \<in> set ?rest) \<and> ge_account env (player_guid (gw_leader q)) \<noteq> 0"
      using Cons.prems(4) ids by auto
    show "\<forall>p \<in> set (gd_map ?s). \<forall>q \<in> set gws. fst p < gw_id q" using Cons.prems(1,5) m by auto
  qed (use Cons.prems in auto)
  then obtain c s' new where f: "fold (\<lambda>r x. guild_then x (load_guild env db r)) gws (Inr ((ranks', ?rest, rights'), ?s)) = Inr (c, s')"
      "gd_map s' = gd_map ?s @ new" "other_key s' = other_key ?s" "list_all2 (loaded_from ?rest) gws new" by blast
  have "list_all2 (loaded_from members) gws new"
  proof (rule list.rel_mono_strong[OF f(4)])
    fix q p assume "q \<in> set gws" "p \<in> set new" "loaded_from ?rest q p"
    then show "loaded_from members q p" using ids by (auto simp: loaded_from_def)
  qed
  then show ?case using f g m
    by (intro exI[of _ c] exI[of _ s'] exI[of _ "(gw_id r, g) # new"]) (simp add: l rest guild_then_def)
qed


lemma same_keys:
  assumes "sorted_wrt (<) (xs :: u32 list)" "sorted_wrt (<) ys" "\<And>l. l \<in> set xs \<longleftrightarrow> l \<in> set ys"
  shows "xs = ys"
proof -
  have "sorted xs" "sorted ys" "distinct xs" "distinct ys"
    using assms(1,2) by (auto simp: strict_sorted_iff)
  moreover have "set xs = set ys" using assms(3) by blast
  ultimately show ?thesis by (simp add: sorted_distinct_set_unique)
qed

text \<open>The tables and answers of the database that belong to a running server.\<close>

definition tables_of :: "guild_env \<Rightarrow> guild_server \<Rightarrow> guild_row list \<Rightarrow> member_row list \<Rightarrow> bool" where
  "tables_of env s gws members \<longleftrightarrow>
     map (\<lambda>r. (gw_id r, player_guid (gw_leader r))) gws = map (\<lambda>(i, g). (i, gu_LeaderGuid g)) (gd_map s)
     \<and> sorted (map fst members) \<and> (\<lambda>(i, l, m). (l, i)) ` set members = row_guild ` set (gd_rows s)
     \<and> (\<forall>x \<in> set members. member_row_ok x) \<and> (\<forall>p \<in> set (gd_map s). ge_account env (gu_LeaderGuid (snd p)) \<noteq> 0)"

lemma tables_rows:
  assumes "agree s" "tables_of env s gws members"
  shows "map gw_id gws = map fst (gd_map s)" "length gws = length (gd_map s)" "sm_wf (gd_map s)"
    "(\<exists>m. (i, l, m) \<in> set members) \<longleftrightarrow> (l, i) \<in> row_guild ` set (gd_rows s)"
    "k < length gws \<Longrightarrow> gw_id (gws ! k) = fst (gd_map s ! k) \<and> player_guid (gw_leader (gws ! k)) = gu_LeaderGuid (snd (gd_map s ! k))"
    "p \<in> set (gd_map s) \<Longrightarrow> guild_agrees (gd_next s) (map row_guild (gd_rows s)) (fst p, book_entry (snd p))"
    "x \<in> set members \<Longrightarrow> fst x \<in> gw_id ` set gws"
proof -
  have c: "consistent (view s)" using assms(1) by (simp add: agree_def)
  have T: "map (\<lambda>r. (gw_id r, player_guid (gw_leader r))) gws = map (\<lambda>(i, g). (i, gu_LeaderGuid g)) (gd_map s)"
      "(\<lambda>(i, l, m). (l, i)) ` set members = row_guild ` set (gd_rows s)"
    using assms(2) by (simp_all add: tables_of_def)
  show ids: "map gw_id gws = map fst (gd_map s)"
    using arg_cong[OF T(1), of "map fst"] by (simp add: comp_def split_beta)
  show len: "length gws = length (gd_map s)" by (rule map_eq_imp_length_eq[OF T(1)])
  show wf: "sm_wf (gd_map s)" using c by (simp add: consistent_def view_def sm_wf_map_snd)
  have R: "(\<exists>m. (i, l, m) \<in> set members) \<longleftrightarrow> (l, i) \<in> row_guild ` set (gd_rows s)" for l i
    unfolding T(2)[symmetric] by force
  then show "(\<exists>m. (i, l, m) \<in> set members) \<longleftrightarrow> (l, i) \<in> row_guild ` set (gd_rows s)" .
  show "gw_id (gws ! k) = fst (gd_map s ! k) \<and> player_guid (gw_leader (gws ! k)) = gu_LeaderGuid (snd (gd_map s ! k))"
    if "k < length gws"
    using arg_cong[OF T(1), of "\<lambda>xs. xs ! k"] that len by (simp add: split_beta)
  show "guild_agrees (gd_next s) (map row_guild (gd_rows s)) (fst p, book_entry (snd p))" if "p \<in> set (gd_map s)"
  proof -
    have "GetGuildById (fst p) s = Some (snd p)" using that wf by (simp add: GetGuildById_def sm_find_in_set)
    from agree_guild(5)[OF assms(1) this] show ?thesis .
  qed
  show "fst x \<in> gw_id ` set gws" if "x \<in> set members"
  proof -
    obtain i l m where x: "x = (i, l, m)" by (rule prod_cases3)
    then have "(l, i) \<in> set (vw_rows (view s))" using R that by (auto simp: view_def)
    then have "sm_has i (vw_guilds (view s))" using c by (fastforce simp: consistent_def)
    then have "i \<in> fst ` set (gd_map s)" by (force simp: view_def sm_has_iff)
    then show ?thesis using arg_cong[OF ids, of set] by (simp add: x)
  qed
qed

lemma tables_load:
  assumes a: "agree s" and t: "tables_of env s gws members" and s0: "gd_map s0 = []"
  shows "\<exists>s'. LoadGuilds env db gws (ranks, members, rights) s0 = Inr s' \<and> other_key s' = other_key s0
    \<and> list_all2 (loaded_from members) gws (gd_map s')"
proof -
  note T = tables_rows[OF a t]
  have t': "sorted (map fst members)" "\<forall>x \<in> set members. member_row_ok x" "\<forall>p \<in> set (gd_map s). ge_account env (gu_LeaderGuid (snd p)) \<noteq> 0"
    using t by (simp_all add: tables_of_def)
  have "\<exists>c s' new. fold (\<lambda>r x. guild_then x (load_guild env db r)) gws (Inr ((ranks, members, rights), s0)) = Inr (c, s')
      \<and> gd_map s' = gd_map s0 @ new \<and> other_key s' = other_key s0 \<and> list_all2 (loaded_from members) gws new"
  proof (rule load_all)
    show "sorted_wrt (<) (map gw_id gws)" using T(3) by (simp add: T(1) sm_wf_def)
    show "\<forall>x \<in> set members. fst x \<in> gw_id ` set gws \<and> member_row_ok x" using T(7) t'(2) by blast
    show "\<forall>r \<in> set gws. (\<exists>l m. (gw_id r, l, m) \<in> set members) \<and> ge_account env (player_guid (gw_leader r)) \<noteq> 0"
    proof
      fix r assume "r \<in> set gws"
      then obtain k where k: "k < length gws" "r = gws ! k" by (metis in_set_conv_nth)
      then have p: "gd_map s ! k \<in> set (gd_map s)" using T(2) by simp
      show "(\<exists>l m. (gw_id r, l, m) \<in> set members) \<and> ge_account env (player_guid (gw_leader r)) \<noteq> 0"
        using T(6)[OF p] t'(3) p T(5)[OF k(1)] T(4) by (force simp: k guild_agrees_def book_entry_def)
    qed
  qed (simp_all add: t' s0)
  then show ?thesis by (auto simp: LoadGuilds_def s0)
qed

lemma loaded_entry:
  assumes a: "agree s" and t: "tables_of env s gws members" and new: "list_all2 (loaded_from members) gws m'" and j: "j < length (gd_map s)"
  shows "fst (m' ! j) = fst (gd_map s ! j) \<and> book_entry (snd (m' ! j)) = book_entry (snd (gd_map s ! j)) \<and> gu_Id (snd (m' ! j)) = fst (m' ! j)"
proof -
  note T = tables_rows[OF a t]
  obtain i g where p: "gd_map s ! j = (i, g)" by force
  obtain i' g' where p': "m' ! j = (i', g')" by force
  have e: "loaded_from members (gws ! j) (i', g')" using list_all2_nthD[OF new, of j] j T(2) by (simp add: p')
  have i: "gw_id (gws ! j) = i" "player_guid (gw_leader (gws ! j)) = gu_LeaderGuid g" using T(5)[of j] j T(2) by (simp_all add: p)
  have "(i, g) \<in> set (gd_map s)" using j p by (metis nth_mem)
  from T(6)[OF this] have ag: "sorted_wrt (<) (map fst (gu_members g))" "\<And>l. (\<exists>m. (i, l, m) \<in> set members) \<longleftrightarrow> l \<in> set (map fst (gu_members g))"
    using T(4) by (simp_all add: guild_agrees_def book_entry_def)
  have "map fst (gu_members g') = map fst (gu_members g)"
    using e i ag by (intro same_keys) (auto simp: loaded_from_def sm_wf_def sm_has_iff)
  then show ?thesis using e i by (simp add: p p' loaded_from_def book_entry_def)
qed

text \<open>C3: A restart gives back the guilds: whatever the tables of ranks and rights of the bank's tabs, and whatever the logs, loading the
  rows that a running server keeps in \<open>guild\<close> and \<open>guild_member\<close>, when all members and leaders still exist, succeeds
  and gives the same guilds with the same leaders and members, in agreement with the table.\<close>

theorem restart_restores_guilds:
  assumes a: "agree s" and t: "tables_of env s gws members"
    and s0: "gd_map s0 = []" "gd_rows s0 = gd_rows s" "gd_next s0 = gd_next s" "\<forall>h. GetPlayer (gd_world s0) h = None"
  shows "\<exists>s'. LoadGuilds env db gws (ranks, members, rights) s0 = Inr s' \<and> agree s' \<and> map row_guild (gd_rows s') = map row_guild (gd_rows s)
    \<and> map (\<lambda>(i, g). (i, book_entry g)) (gd_map s') = map (\<lambda>(i, g). (i, book_entry g)) (gd_map s)"
proof -
  obtain s' where f: "LoadGuilds env db gws (ranks, members, rights) s0 = Inr s'" and k: "other_key s' = other_key s0"
      and new: "list_all2 (loaded_from members) gws (gd_map s')"
    using tables_load[OF a t s0(1)] by blast
  have len: "length (gd_map s') = length (gd_map s)" using list_all2_lengthD[OF new] tables_rows(2)[OF a t] by simp
  note entry = loaded_entry[OF a t new]
  have books: "map (\<lambda>(i, g). (i, book_entry g)) (gd_map s') = map (\<lambda>(i, g). (i, book_entry g)) (gd_map s)"
    using entry len by (intro nth_equalityI) (simp_all add: split_beta)
  have same: "map row_guild (gd_rows s') = map row_guild (gd_rows s)" "gd_next s' = gd_next s" "\<And>h. GetPlayer (gd_world s') h = None"
    using k s0 by (simp_all add: other_key_def)
  have "\<forall>p \<in> set (gd_map s'). gu_Id (snd p) = fst p" using entry len by (metis in_set_conv_nth)
  moreover have "consistent (view s')" using a by (simp add: agree_def consistent_def view_def books same)
  ultimately show ?thesis using f books same by (auto simp: agree_def)
qed

text \<open>The guild of Ann and Bob after a restart.\<close>

definition two_members_gws :: "guild_row list" where
  "two_members_gws = [\<lparr>gw_id = 1, gw_name = ''Knights'', gw_leader = 1, gw_emblem = replicate 5 0, gw_info = [], gw_motd = [],
     gw_created = 0, gw_money = 0, gw_tabs = 0\<rparr>]"

definition two_members_rows_read :: "member_row list" where
  "two_members_rows_read = map (\<lambda>(l, rank). (1, l, new_guild_member test_guild_env rank (1, ''Name'', 60, 12, 1))) [(2, 4), (1, 0)]"

definition restarted :: guild_server where
  "restarted = no_guilds\<lparr>gd_world := test_world\<lparr>w_players := []\<rparr>, gd_rows := gd_rows two_members, gd_next := gd_next two_members\<rparr>"

definition test_guild_db :: guild_db where
  "test_guild_db = \<lparr>db_localtime = (\<lambda>_. (1, 1, 2008)), db_bank_minmax = (\<lambda>_. None), db_event_minmax = (\<lambda>_. None), db_events = (\<lambda>_. []),
     db_bank_events = (\<lambda>_. []), db_has_tabs = (\<lambda>_. False)\<rparr>"

theorem restart_restores_guilds_witness:
  "\<exists>s'. LoadGuilds test_guild_env test_guild_db two_members_gws ([], two_members_rows_read, []) restarted = Inr s' \<and> agree s'
    \<and> map (\<lambda>(i, g). (i, book_entry g)) (gd_map s') = [(1, player_guid 1, [1, 2])]"
proof -
  obtain g where g: "gd_map two_members = [(1, g)]" "map (\<lambda>(l, m). (l, mb_RankId m)) (gu_members g) = [(1, 0), (2, 4)]"
    by (rule two_members_guild)
  have L: "gu_LeaderGuid g = player_guid 1" using two_members_leader by (simp add: g(1) test_players)
  have b: "book_entry g = (player_guid 1, [1, 2])" using g(2) L by (auto simp: book_entry_def map_eq_Cons_conv)
  have t: "tables_of test_guild_env two_members two_members_gws two_members_rows_read"
    by (auto simp: tables_of_def two_members_gws_def two_members_rows_read_def g(1) L two_members_rows row_guild_def member_row_ok_def
        new_guild_member_def test_guild_env_def)
  have s0: "gd_map restarted = []" "gd_rows restarted = gd_rows two_members" "gd_next restarted = gd_next two_members"
      "\<forall>h. GetPlayer (gd_world restarted) h = None"
    by (simp_all add: restarted_def no_guilds_def FindPlayer_def GetObjectInWorld_def)
  from restart_restores_guilds[OF two_members_agrees t s0, of test_guild_db "[]" "[]"] show ?thesis by (auto simp: g(1) b)
qed

end
