(* ===== verification/Spec2Isabelle.thy ===== *)
theory Spec2Isabelle
  imports EventMap SpellEvent AuthCrypt TOTP ChannelMgr Reputation SocialMgr ReferAFriend ArenaTeamLaws GroupRolls GuildRanks GuildLog GuildRestart
begin

text \<open>
  A verification library for the core logic of the world server (src/src): byte-level encoding,
  timing, and the social systems whose state the server keeps in memory and in step with its database.
  The definitions are translated from the C++ sources, function by function and in the order of the files;
  the properties are the theorems behind the text blocks marked C1, C2 and so on.

  The parts and how they interact.
  A session reads a packet from a \<open>ByteBuffer\<close> (theory \<open>ByteBuffer\<close>: the buffer with its read and write
  positions, integers in the byte order of the wire, strings, packed guids, vectors; the packet headers are
  encrypted by theory \<open>AuthCrypt\<close>). A handler decodes the arguments with the reader \<open>rd\<close>, which
  stops with the buffer's exception when the bytes run out, looks up players (theory \<open>World\<close>, guids of
  theory \<open>ObjectGuid\<close>), changes the state of a component and sends packets or executes statements, which are
  values in a list of effects in the order of the source. The components are
  \<^item> \<open>EventMap\<close> (src/src/common/Utilities/EventMap): the schedulers of the scripts;
  \<^item> \<open>EventProcessor\<close> (src/src/framework/Utilities/EventProcessor): the event queue of an object, with a heap of
    events so that a use after deletion is an error value; \<open>SpellEvent\<close> (Spell): the event that drives a
    spell and queues itself again, with what the spell does to the world as a parameter;
  \<^item> \<open>TOTP\<close> (src/src/server/authserver/TOTP): base 32 and one-time passwords of the login;
  \<^item> \<open>PlayerSocial\<close> and \<open>SocialMgr\<close> (SocialMgr and the friend handlers of MiscHandler): contact lists, their
    table rows, who is told about a status change;
  \<^item> \<open>Channel\<close>, \<open>ChannelLaws\<close> and \<open>ChannelMgr\<close> (Channel, ChannelMgr, ChannelHandler): chat channels, their laws,
    and the map of channels under all channel packets;
  \<^item> \<open>Reputation\<close> (ReputationMgr): standings, spillover, the login packet, loading and saving;
  \<^item> \<open>ReferAFriend\<close> (ObjectMgr and two commands): the links between accounts;
  \<^item> \<open>ArenaTeam\<close> and \<open>ArenaTeamLaws\<close> (ArenaTeam, the map of teams of ObjectMgr, ArenaTeamHandler, and the weekly
    distribution of points of BattlegroundMgr);
  \<^item> \<open>Group\<close>, \<open>GroupHandler\<close> and \<open>GroupLife\<close> (Group, GroupHandler, the group references of Player, parts of
    ObjectMgr and Battleground): parties and raids, their packets, and what happens to them when players log in and out,
    are deleted, enter battlegrounds, open loot, and when the server starts. \<open>GroupSafe\<close> has the invariant and the
    operations of Group.cpp, \<open>GroupSteps\<close> the rolls and handlers, \<open>GroupRuns\<close> the relation \<open>party_call\<close> of all calls,
    \<open>GroupLoad\<close> the loading, \<open>GroupLaws\<close> and \<open>GroupRolls\<close> the laws;
  \<^item> \<open>Guild\<close>, \<open>GuildHandler\<close> and \<open>GuildLoad\<close> (Guild, GuildHandler, the guild functions of Player, and LoadGuilds of ObjectMgr):
    guilds with their ranks, members, texts, event log and the money of the bank, all their packets, the login, logout and
    deletion of members, and the loading of the tables with its repairs. A membership is kept in three places: the map of the
    members in the guild, the rows of \<open>guild_member\<close>, and the guild field of the player. \<open>GuildQuiet\<close> says which operations touch
    none of the three, \<open>GuildBook\<close> is the abstract book of memberships with its few changes (join, leave, disband, lead,
    create), \<open>GuildSteps\<close> proves that the operations of Guild.cpp are such changes, and \<open>GuildLaws\<close> that all handlers are. \<open>GuildMoney\<close> has the limit of a
    day and the flow of money between bank and purse, \<open>GuildRanks\<close> the heir of a leader and the faults of ranks and second
    memberships, \<open>GuildLog\<close> the event log and its table, \<open>GuildRestart\<close> that loading gives back the guilds that were saved.
  \<open>Prelude\<close> has the integer types, flag words and C strings, \<open>StdMap\<close> the ordered containers of the standard
  library as lists sorted by key, with two locales that state what a client of a map or a multimap relies on.

  How state is modelled. A class is a record with the fields of the source, an enum a datatype or the
  constants of its values, a container by key a sorted list, an operation a function that returns
  the new state with the effects. Integers have the width of the source and wrap as it does; where the source
  reads an unsigned field as \<open>int32\<close> the model uses \<open>sint\<close>. A read through a null or deleted pointer, a
  failed \<open>find\<close> that is dereferenced, and an exception are values of a sum type. A player in several
  components is the same record of the world; \<open>sync_social\<close> below states how the list kept by the social
  manager becomes the one that the player object refers to.

  What the lemmas show. Each locale is an interface: \<open>wire_type\<close> (what is written is read back),
  \<open>keyed_store\<close> and \<open>timed_queue\<close>, \<open>event_class\<close> (what the callbacks of an event may do), \<open>list_command\<close> (a command
  keeps a contact list in step with its rows), \<open>moderated_command\<close> (a channel command checks the rank
  first); each is interpreted on the operations of the model. Invariants are proved for every step of the
  relations \<open>channel_reachable\<close>, \<open>social_step\<close>, \<open>arena_step\<close>, \<open>party_call\<close>, \<open>guild_step\<close> and the runs of the other components. In this theory the
  components meet: an ignore request silences the ignored player on all channels.

  Bounds and termination. Loops over containers are structural; \<open>disband_loop\<close>, which asks for the first
  member until there is none, terminates by the number of members; the update loop of an object's event queue
  may run forever when an event queues another one that is due, so it is a partial function, and
  \<open>Update_returns\<close> proves that it returns for spell events, which queue themselves again until the spell is finished: a weight of
  the events that are due decreases, although an event may even queue itself for at once. The loop over the rolls of a group (\<open>EndRoll\<close>) and
  the two role setters that call each other (\<open>set_main\<close>) are partial functions too, and are proved to return in every
  good state. Groups live in a heap, so that a use of a deleted group or player is an error value; the sets of pointers of the
  source (groups, invitees) are lists in the order of insertion, and a loot that is cleared and filled again has a new number.
  \<open>party_call\<close> leaves out the calls that do fail, and says which: they are the subject of \<open>invited_leader_deleted\<close> and
  \<open>subgroup_overrun\<close>. \<open>guild_step\<close> leaves out the refusal of an invitation by a member, the subject of
  \<open>declining_leaves_two_guilds\<close>, and the creation of a guild when the ids run out.

  What is not modelled. Of groups: the binds to instances, the statistics packets of members, the experience of a kill and the
  test for battleground queues. Of guilds: the items of the bank, and the names, icons and texts of its tabs. Everything that moves in the world (units, spells, maps, creatures, scripts, battlegrounds
  beyond the distribution of points; of spells only the waiting of their events), the network and database layers and their threads: the
  modelled code runs on the world thread, one packet at a time. Parameters of the model stand for code outside src/
  or outside the modelled parts: the HMAC and key derivation of OpenSSL, the escaping of the database
  library, truncation of UTF-8, the client data tables of factions, character rows, localised text, and for the
  rating arithmetic of the arena teams, which the source does in \<open>float\<close> with \<open>exp\<close>. Log lines are left out,
  except where they read through a pointer that may be null.
\<close>

section \<open>Ignore lists and channels\<close>

text \<open>\<open>Player::GetSocial\<close> is the list that the social manager keeps for the player: the world as the
  channels see it after the manager has changed.\<close>

definition sync_social :: "social_mgr \<Rightarrow> world \<Rightarrow> world" where
  "sync_social mgr w = w\<lparr>w_players := map (\<lambda>p. p\<lparr>pl_social := GetSocial mgr p\<rparr>) (w_players w)\<rparr>"

lemma find_map_keeps: "(\<And>p. Q (f p) = Q p) \<Longrightarrow> find Q (map f xs) = map_option f (find Q xs)"
  by (induction xs) auto

lemma FindPlayer_sync:
  "FindPlayer (sync_social mgr w) g force = map_option (\<lambda>p. p\<lparr>pl_social := GetSocial mgr p\<rparr>) (FindPlayer w g force)"
  by (auto simp: FindPlayer_def GetObjectInWorld_def sync_social_def find_map_keeps split: option.split)

lemma social_of_sync:
  assumes "FindPlayer (sync_social mgr w) g force = Some q" "pl_guid me = g"
  shows "pl_social q = GetSocial mgr me"
  using assms GetPlayer_guid[of w g force] by (auto simp: FindPlayer_sync GetSocial_def)

lemma AddToSocialList_ignores:
  "AddToSocialList f True s = (True, s', sql) \<Longrightarrow> HasIgnore f s'"
  by (auto simp: AddToSocialList_def HasIgnore_def Let_def sm.find_put has_flag_set_same split: if_splits option.splits)

lemma ignore_packet_ignores:
  assumes me: "session_player w acc = Some me" and h: "HandleAddIgnoreOpcodeCallBack w (Some r) acc mgr = (mgr', sql, es)"
    and p: "p = MAKE_NEW_GUID r 0 HIGHGUID_PLAYER" "p \<noteq> 0" "p \<noteq> pl_guid me"
    and room: "GetNumberOfSocialsWithFlag SOCIAL_FLAG_IGNORED (GetSocial mgr me) < SOCIALMGR_IGNORE_LIMIT"
  shows "HasIgnore (GUID_LOPART p) (GetSocial mgr' me)"
proof -
  let ?low = "GUID_LOPART p" and ?s = "GetSocial mgr me"
  have get: "GetSocial (SetSocial me s mgr) me = s" for s by (simp add: GetSocial_def SetSocial_def sm_at_def sm.find_put)
  show ?thesis
  proof (cases "HasIgnore ?low ?s")
    case True
    then have "mgr' = SetSocial me ?s mgr" using h me p by (auto simp: HandleAddIgnoreOpcodeCallBack_def Let_def)
    then show ?thesis using True get by simp
  next
    case False
    obtain ok s' q where a: "AddToSocialList ?low True ?s = (ok, s', q)" by (metis surj_pair)
    have ok: "ok" using a room by (auto simp: AddToSocialList_def Let_def split: option.splits if_splits)
    then have "mgr' = SetSocial me s' mgr" using h me p False a by (auto simp: HandleAddIgnoreOpcodeCallBack_def Let_def)
    then show ?thesis using AddToSocialList_ignores a ok get by simp
  qed
qed

text \<open>C12: Once the server has handled the row of an ignore request with room on the list, nothing that the ignored player says
  on any channel where he is not a moderator, and no channel invitation of his, reaches the player who
  ignored him: the list that the packet handler changed is the one the channels ask.\<close>

theorem ignored_player_not_heard:
  assumes me: "session_player w acc = Some me" and h: "HandleAddIgnoreOpcodeCallBack w (Some r) acc mgr = (mgr', sql, es)"
    and p: "p = MAKE_NEW_GUID r 0 HIGHGUID_PLAYER" "p \<noteq> 0" "p \<noteq> pl_guid me"
    and room: "GetNumberOfSocialsWithFlag SOCIAL_FLAG_IGNORED (GetSocial mgr me) < SOCIALMGR_IGNORE_LIMIT"
    and w': "w' = sync_social mgr' w"
  shows "(\<not> IsModerator (mem p c) \<longrightarrow> Send (pl_guid me) pkt \<notin> set (Say w' p txt lang c))
    \<and> Send (pl_guid me) pkt \<notin> set (Invite w' p name c)"
proof -
  note ign = ignore_packet_ignores[OF me h p room]
  have "\<not> hears w' p (pl_guid me)"
    using social_of_sync[of mgr' w "pl_guid me" True _ me] ign p(2)
    by (auto simp: hears_def w' split: option.split)
  then have "Send (pl_guid me) pkt \<notin> set (Say w' p txt lang c)" if "\<not> IsModerator (mem p c)"
    using that p(3) by (auto simp: Say_def Let_def Send_SendToAll dest: send_to_self split: option.splits if_splits)
  moreover have "Send (pl_guid me) pkt \<notin> set (Invite w' p name c)"
  proof -
    have "HasIgnore (GUID_LOPART p) (pl_social q)" if "GetPlayerByName w' name = Some q" "pl_guid q = pl_guid me" for q
    proof -
      have "q \<in> set (w_players w')" using that(1) by (auto simp: FindPlayerByName_def find_Some_iff)
      then have "pl_social q = GetSocial mgr' me" using that(2) by (auto simp: w' sync_social_def GetSocial_def)
      then show ?thesis using ign by simp
    qed
    then show ?thesis
      using p(3) by (auto simp: Invite_def dest!: send_to_self split: option.splits if_splits)
  qed
  ultimately show ?thesis by blast
qed

text \<open>Ann ignores Bob; both are on a channel where Bob speaks.\<close>

definition test_channel :: channel where
  "test_channel = fst (do_op test_world (OpJoin 2 '''') (fst (do_op test_world (OpJoin 1 '''') (Channel_new None ''chat'' 0))))"

theorem ignored_player_not_heard_witness:
  "IsOn 1 test_channel \<and> IsOn 2 test_channel
   \<and> (\<forall>pkt. Send 1 pkt \<notin> set (Say (sync_social (fst (HandleAddIgnoreOpcodeCallBack test_world (Some 2) 1
         [(1, PlayerSocial_new)])) test_world) 2 (Some ''hi'') 7 test_channel))"
proof -
  obtain mgr' sql es where h: "HandleAddIgnoreOpcodeCallBack test_world (Some 2) 1 [(1, PlayerSocial_new)] = (mgr', sql, es)"
    by (metis surj_pair)
  have me: "session_player test_world 1 = Some (test_player 1 ''Ann'')"
    by (simp add: session_player_def test_world_def test_player_def)
  have p: "(2 :: guid) = MAKE_NEW_GUID 2 0 HIGHGUID_PLAYER" "(2 :: guid) \<noteq> 0" "(2 :: guid) \<noteq> pl_guid (test_player 1 ''Ann'')"
    by (code_simp, simp, simp add: test_player_def)
  have room: "GetNumberOfSocialsWithFlag SOCIAL_FLAG_IGNORED (GetSocial [(1, PlayerSocial_new)] (test_player 1 ''Ann'')) < SOCIALMGR_IGNORE_LIMIT"
    by code_simp
  have c: "\<not> IsModerator (mem 2 test_channel)" "IsOn 1 test_channel" "IsOn 2 test_channel" by code_simp+
  have "pl_guid (test_player 1 ''Ann'') = 1" by (simp add: test_player_def)
  then show ?thesis
    using ignored_player_not_heard[OF me h p room refl] c by (simp add: h)
qed

end
